(* ===== verification/Prelude.thy ===== *)
theory Prelude
  imports Main "HOL-Library.Word" "HOL-Library.State_Monad"
begin

unbundle bit_operations_syntax

text \<open>
  The prelude of the development: the types every component shares (machine words of the
  widths the C code uses), the theorem collections that carry the component proofs, and
  generic lemmas on words and lists.
\<close>

type_synonym u8 = "8 word"
type_synonym u16 = "16 word"
type_synonym u32 = "32 word"
type_synonym u64 = "64 word"

named_theorems reg_defs \<open>the addresses and bit masks of the memory-mapped registers\<close>
named_theorems emit_intros \<open>rules that compose facts about the bus events an operation makes\<close>
named_theorems inert_intros \<open>rules that show that an operation does nothing on a stopped machine\<close>

named_theorems yields_intros \<open>rules that bound the result of an operation\<close>
named_theorems keep_intros \<open>rules that show that an operation keeps an invariant of the state\<close>
named_theorems ends_intros \<open>rules that show that an operation returns on a given device\<close>

subsection \<open>Words\<close>

text \<open>C's conversions between widths, and its signed reading of a 32-bit word.\<close>

definition u8_of :: "u32 \<Rightarrow> u8" where
  "u8_of w = ucast w"

definition u32_of8 :: "u8 \<Rightarrow> u32" where
  "u32_of8 b = ucast b"

text \<open>\<open>BIT_SET(x, n)\<close> of LK's bits header and the platform's \<open>BV(n)\<close>.\<close>

definition BV :: "nat \<Rightarrow> u32" where [reg_defs]:
  "BV n = push_bit n 1"

definition BIT_SET :: "u32 \<Rightarrow> nat \<Rightarrow> bool" where
  "BIT_SET x n \<longleftrightarrow> bit x n"

definition BIT_MASK :: "nat \<Rightarrow> u32" where [reg_defs]:
  "BIT_MASK n = mask n"

lemma bit_BV: "bit (BV k) n \<longleftrightarrow> n = k \<and> k < 32"
  by (auto simp: BV_def bit_simps)

lemma and_BV_0: "x AND BV k = 0 \<longleftrightarrow> \<not> bit x k"
  by (simp add: BV_def push_bit_eq_mult and_exp_eq_0_iff_not_bit)

lemma word4_aligned:
  fixes x :: u32
  assumes "x AND 3 = 0"
  shows "4 * (x div 4) = x"
proof -
  have "take_bit 2 x = 0" using assms by (simp add: take_bit_eq_mask mask_numeral)
  then have "push_bit 2 (drop_bit 2 x) = x" using bits_ident [of 2 x] by simp
  then show ?thesis by (simp add: push_bit_eq_mult drop_bit_eq_div mult.commute)
qed

lemma aligned4_iff: "x AND 3 = 0 \<longleftrightarrow> take_bit 2 x = (0 :: u32)"
  by (simp add: take_bit_eq_mask mask_numeral)

lemma aligned4_times: "(4 * y) AND 3 = (0 :: u32)"
proof -
  have "take_bit 2 (push_bit 2 y) = 0" by (simp add: take_bit_push_bit)
  then show ?thesis by (simp add: aligned4_iff push_bit_eq_mult mult.commute)
qed

lemma aligned_sub4:
  fixes x :: u32
  assumes "x AND 3 = 0"
  shows "(x - 4) AND 3 = 0"
proof -
  have "x - 4 = 4 * (x div 4 - 1)"
    using word4_aligned [OF assms] by (simp add: right_diff_distrib)
  then show ?thesis by (simp only: aligned4_times)
qed

lemma word_and_or_absorb [simp]: "(x OR y) AND y = (y :: 'a::len word)"
  by (rule bit_word_eqI) (auto simp: bit_simps)

lemma word_and_or_absorb2 [simp]: "(y OR x) AND y = (y :: 'a::len word)"
  by (rule bit_word_eqI) (auto simp: bit_simps)

lemma word_or_and_mask_keep:
  fixes x y m :: "'a::len word"
  assumes "y AND m = m"
  shows "(x OR y) AND m = m" and "(y OR x) AND m = m"
proof -
  have "bit y n" if "bit m n" for n
    using assms that by (metis bit_and_iff)
  then show "(x OR y) AND m = m" "(y OR x) AND m = m"
    by (auto intro!: bit_word_eqI simp: bit_simps)
qed

lemma word_and_le_mask: "unat (x AND m :: 'a::len word) \<le> unat m"
  by (meson word_and_le1 word_le_nat_alt)

lemma bit_push_mask_iff:
  "bit (push_bit k (mask w) :: 'a::len word) n \<longleftrightarrow> k \<le> n \<and> n < k + w \<and> n < LENGTH('a)"
  by (auto simp: bit_simps)

lemma unat_eq_iff_eq: "unat v = unat w \<longleftrightarrow> v = w"
  by (simp add: word_unat_eq_iff)

lemma sint_small: "uint w < 2 ^ 31 \<Longrightarrow> sint w = uint w" for w :: u32
  using uint_ge_0 [of w] by (simp add: sint_uint signed_take_bit_int_eq_self order_trans [OF _ uint_ge_0])

text \<open>A field of a register: \<open>w\<close> bits from bit \<open>k\<close> on.\<close>

definition field :: "nat \<Rightarrow> nat \<Rightarrow> 'a::len word \<Rightarrow> 'a word" where
  "field k w x = drop_bit k x AND mask w"

definition set_field :: "nat \<Rightarrow> nat \<Rightarrow> 'a::len word \<Rightarrow> 'a word \<Rightarrow> 'a word" where
  "set_field k w v x = (x AND NOT (push_bit k (mask w))) OR push_bit k (v AND mask w)"

lemma bit_set_field:
  "bit (set_field k w v x) n \<longleftrightarrow>
     n < LENGTH('a) \<and> (if k \<le> n \<and> n < k + w then bit v (n - k) else bit x n)"
  for x :: "'a::len word"
  by (auto simp: set_field_def bit_simps dest: bit_imp_le_length)

lemma bit_field:
  "bit (field k w x) n \<longleftrightarrow> n < w \<and> bit x (k + n)"
  for x :: "'a::len word"
  by (auto simp: field_def bit_simps dest: bit_imp_le_length)

lemma field_set_field_same:
  fixes x v :: "'a::len word"
  assumes "k + w \<le> LENGTH('a)"
  shows "field k w (set_field k w v x) = v AND mask w"
  using assms by (auto intro!: bit_word_eqI simp: bit_field bit_set_field bit_simps)

lemma field_set_field_other:
  fixes x v :: "'a::len word"
  assumes "k + w \<le> k' \<or> k' + w' \<le> k"
  shows "field k' w' (set_field k w v x) = field k' w' x"
  using assms
  by (auto intro!: bit_word_eqI simp: bit_field bit_set_field dest: bit_imp_le_length)

subsection \<open>Lists\<close>

lemma list_all_replicate [simp]: "list_all P (replicate n x) \<longleftrightarrow> n = 0 \<or> P x"
  by (induction n) auto

text \<open>Where an element lies that does not occur in the first, or the last, part.\<close>

lemma split_skip:
  assumes "h @ x # t = es @ fs" "x \<notin> set es"
  obtains h' where "h = es @ h'" "h' @ x # t = fs"
  using assms by (auto simp: append_eq_append_conv2 Cons_eq_append_conv)

lemma split_stop:
  assumes "h @ x # t = es @ fs" "x \<notin> set fs"
  obtains t' where "t = t' @ fs" "h @ x # t' = es"
  using assms by (auto simp: append_eq_append_conv2 Cons_eq_append_conv append_eq_Cons_conv)

end
