(* ===== verification/Machine.thy ===== *)
theory Machine
  imports Prelude
begin

text \<open>
  The machine the drivers run on.  Every driver talks to memory-mapped registers through
  \<open>*REG32(addr)\<close>; what the hardware answers is not part of the repository.  The machine
  therefore carries a parameter \<open>dev\<close>: the word a read of an address returns, given all bus
  events that happened before.  This covers every deterministic device (status bits that
  change while they are polled, timers that advance, plain storage), and a theorem for all
  \<open>dev\<close> is a theorem for every hardware behaviour.

  The effects of an operation are the events it appends to \<open>bus\<close>: reads, writes and console
  output.  An operation is a value of the library's state monad.  A machine that has panicked or
  that is caught in a loop without end stays as it is: every primitive does nothing on it.
\<close>

subsection \<open>Events and states\<close>

datatype arg = U u32 | I int | S string

datatype event =
    Rd u32                      \<comment> \<open>a read of a register\<close>
  | Wr u32 u32                  \<comment> \<open>a write: address, value\<close>
  | Print string "arg list"     \<comment> \<open>\<open>printf\<close>: format and arguments\<close>

text \<open>LK's result codes and interrupt handler results, as far as the drivers use them.\<close>

datatype status_t = NO_ERROR | ERR_TIMED_OUT | ERR_IO | ERR_GENERIC

datatype handler_return = INT_NO_RESCHEDULE | INT_RESCHEDULE

datatype status = Running | Panicked string | Hung

type_synonym device = "event list \<Rightarrow> u32 \<Rightarrow> u32"

record mach =
  dev :: device
  bus :: "event list"
  status :: status
  sr :: u32                     \<comment> \<open>the processor's status register (bit 30: interrupts on)\<close>

type_synonym ('r, 'a) io = "('r mach_scheme, 'a) state"

abbreviation running :: "'r mach_scheme \<Rightarrow> bool" where
  "running s \<equiv> status s = Running"

abbreviation return :: "'a \<Rightarrow> ('r, 'a) io" where
  "return \<equiv> State_Monad.return"

text \<open>What a read of \<open>a\<close> would return now.\<close>

definition cur :: "'r mach_scheme \<Rightarrow> u32 \<Rightarrow> u32" where
  "cur s a = dev s (bus s) a"

definition log :: "event list \<Rightarrow> 'r mach_scheme \<Rightarrow> 'r mach_scheme" where
  "log es s = s\<lparr>bus := bus s @ es\<rparr>"

lemma log_simps [simp]:
  "bus (log es s) = bus s @ es" "dev (log es s) = dev s"
  "status (log es s) = status s" "sr (log es s) = sr s"
  "log [] s = s" "log fs (log es s) = log (es @ fs) s"
  "mach.more (log es s) = mach.more s"
  by (simp_all add: log_def)

subsection \<open>Primitives\<close>

definition rd :: "u32 \<Rightarrow> ('r, u32) io" where
  "rd a = State (\<lambda>s. if running s then (cur s a, log [Rd a] s) else (0, s))"

definition wr :: "u32 \<Rightarrow> u32 \<Rightarrow> ('r, unit) io" where
  "wr a v = State (\<lambda>s. if running s then ((), log [Wr a v] s) else ((), s))"

definition printf :: "string \<Rightarrow> arg list \<Rightarrow> ('r, unit) io" where
  "printf fmt args = State (\<lambda>s. if running s then ((), log [Print fmt args] s) else ((), s))"

definition panic :: "string \<Rightarrow> ('r, unit) io" where
  "panic msg = State (\<lambda>s. if running s then ((), s\<lparr>status := Panicked msg\<rparr>) else ((), s))"

text \<open>\<open>for (;;);\<close>\<close>

definition spin_forever :: "('r, unit) io" where
  "spin_forever = State (\<lambda>s. if running s then ((), s\<lparr>status := Hung\<rparr>) else ((), s))"

text \<open>C globals: the fields by which a component extends the machine.\<close>

definition gget :: "('r mach_scheme \<Rightarrow> 'a) \<Rightarrow> ('r, 'a) io" where
  "gget f = State (\<lambda>s. (f s, s))"

definition gset :: "('r mach_scheme \<Rightarrow> 'r mach_scheme) \<Rightarrow> ('r, unit) io" where
  "gset f = State (\<lambda>s. if running s then ((), f s) else ((), s))"

text \<open>\<open>assert\<close> and accesses outside an array (undefined in C) stop the machine.\<close>

definition assert_that :: "string \<Rightarrow> bool \<Rightarrow> ('r, unit) io" where
  "assert_that msg b = (if b then return () else panic msg)"

text \<open>\<open>*REG32(a) |= v\<close> and \<open>*REG32(a) &= v\<close>.\<close>

definition reg_or :: "u32 \<Rightarrow> u32 \<Rightarrow> ('r, unit) io" where
  "reg_or a v = do { x \<leftarrow> rd a; wr a (x OR v) }"

definition reg_and :: "u32 \<Rightarrow> u32 \<Rightarrow> ('r, unit) io" where
  "reg_and a v = do { x \<leftarrow> rd a; wr a (x AND v) }"

definition when_io :: "bool \<Rightarrow> ('r, unit) io \<Rightarrow> ('r, unit) io" where
  "when_io b m = (if b then m else return ())"

primrec for_each :: "'x list \<Rightarrow> ('x \<Rightarrow> ('r, unit) io) \<Rightarrow> ('r, unit) io" where
  "for_each [] f = return ()"
| "for_each (x # xs) f = do { f x; for_each xs f }"

subsection \<open>Loops\<close>

text \<open>
  A loop runs its body until the body answers \<open>Inr\<close>.  \<open>iter\<close> is partial: \<open>None\<close> is a loop
  without end.  It stops (with no value) when the body stops the machine.
\<close>

partial_function (option) iter ::
  "('x \<Rightarrow> ('r, 'x + 'y) io) \<Rightarrow> 'x \<Rightarrow> 'r mach_scheme \<Rightarrow> ('y option \<times> 'r mach_scheme) option" where
  "iter body x s =
     (case run_state (body x) s of (r, s') \<Rightarrow>
        (case r of
           Inr y \<Rightarrow> Some (Some y, s')
         | Inl x' \<Rightarrow> if running s' then iter body x' s' else Some (None, s')))"

text \<open>
  The loop as an operation.  A loop without end leaves the machine \<open>Hung\<close>; the first argument
  is the value of a loop that did not finish, which nothing can observe.
\<close>

definition loop :: "'y \<Rightarrow> ('x \<Rightarrow> ('r, 'x + 'y) io) \<Rightarrow> 'x \<Rightarrow> ('r, 'y) io" where
  "loop d body x = State (\<lambda>s.
     if running s then
       (case iter body x s of
          None \<Rightarrow> (d, s\<lparr>status := Hung\<rparr>)
        | Some (None, s') \<Rightarrow> (d, s')
        | Some (Some y, s') \<Rightarrow> (y, s'))
     else (d, s))"

text \<open>\<open>while (cond) body\<close>, and \<open>while (!c(v = *REG32(a)));\<close>, a busy wait.\<close>

definition while_io :: "('r, bool) io \<Rightarrow> ('r, unit) io \<Rightarrow> ('r, unit) io" where
  "while_io cond body = loop ()
     (\<lambda>_. do { t \<leftarrow> cond;
               if t then do { body; return (Inl ()) } else return (Inr ()) }) ()"

definition poll :: "u32 \<Rightarrow> (u32 \<Rightarrow> bool) \<Rightarrow> ('r, u32) io" where
  "poll a c = loop 0
     (\<lambda>_. do { v \<leftarrow> rd a; return (if c v then Inr v else Inl ()) }) ()"

subsection \<open>Running an operation\<close>

lemma run_rd [simp]:
  "run_state (rd a) s = (if running s then (cur s a, log [Rd a] s) else (0, s))"
  by (simp add: rd_def)

lemma run_wr [simp]:
  "run_state (wr a v) s = ((), if running s then log [Wr a v] s else s)"
  by (simp add: wr_def)

lemma run_printf [simp]:
  "run_state (printf f xs) s = ((), if running s then log [Print f xs] s else s)"
  by (simp add: printf_def)

lemma run_panic [simp]:
  "run_state (panic m) s = ((), if running s then s\<lparr>status := Panicked m\<rparr> else s)"
  by (simp add: panic_def)

lemma run_spin [simp]:
  "run_state spin_forever s = ((), if running s then s\<lparr>status := Hung\<rparr> else s)"
  by (simp add: spin_forever_def)

lemma run_gget [simp]: "run_state (gget f) s = (f s, s)"
  by (simp add: gget_def)

lemma run_gset [simp]: "run_state (gset f) s = ((), if running s then f s else s)"
  by (simp add: gset_def)

lemma run_reg_or [simp]:
  "run_state (reg_or a v) s = ((), if running s then log [Rd a, Wr a (cur s a OR v)] s else s)"
  by (simp add: reg_or_def)

lemma run_reg_and [simp]:
  "run_state (reg_and a v) s = ((), if running s then log [Rd a, Wr a (cur s a AND v)] s else s)"
  by (simp add: reg_and_def)

lemma run_assert [simp]:
  "run_state (assert_that m b) s =
     ((), if b \<or> \<not> running s then s else s\<lparr>status := Panicked m\<rparr>)"
  by (simp add: assert_that_def)

lemma run_when [simp]:
  "run_state (when_io b m) s = (if b then run_state m s else ((), s))"
  by (simp add: when_io_def)

lemma run_unit: "run_state m s = ((), snd (run_state m s))"
  for m :: "('r, unit) io"
  by (cases "run_state m s") simp

lemma run_for_each_append:
  "run_state (for_each (xs @ ys) f) s = run_state (for_each ys f) (snd (run_state (for_each xs f) s))"
  by (induction xs arbitrary: s) (auto split: prod.splits)

subsection \<open>Loops, as an inductive relation\<close>

inductive iterates ::
  "('x \<Rightarrow> ('r, 'x + 'y) io) \<Rightarrow> 'x \<Rightarrow> 'r mach_scheme \<Rightarrow> 'y option \<Rightarrow> 'r mach_scheme \<Rightarrow> bool"
  for body where
  finish: "run_state (body x) s = (Inr y, s') \<Longrightarrow> iterates body x s (Some y) s'"
| stop: "run_state (body x) s = (Inl x', s') \<Longrightarrow> \<not> running s' \<Longrightarrow> iterates body x s None s'"
| again: "run_state (body x) s = (Inl x', s') \<Longrightarrow> running s' \<Longrightarrow> iterates body x' s' r s''
    \<Longrightarrow> iterates body x s r s''"

lemma iter_sound:
  fixes body :: "'x \<Rightarrow> ('r, 'x + 'y) io"
  assumes ret: "iter body x s = Some p"
  shows "iterates body x s (fst p) (snd p)"
proof (rule iter.raw_induct
    [of "\<lambda>body x s p. iterates body x s (fst p) (snd p)" "((body, x), s)" p, simplified])
  fix f and body :: "'x \<Rightarrow> ('r, 'x + 'y) io" and x s p
  assume IH: "\<And>body x s p. f body x s = Some p \<Longrightarrow> iterates body x s (fst p) (snd p)"
    and eq: "(case run_state (body x) s of
            (r, s') \<Rightarrow> case r of
              Inl x' \<Rightarrow> if running s' then f body x' s' else Some (None, s')
            | Inr y \<Rightarrow> Some (Some y, s')) = Some p"
  from eq show "iterates body x s (fst p) (snd p)"
    by (auto split: prod.splits sum.splits if_splits intro: iterates.intros dest: IH)
next
  show "iter body x s = Some p" by (rule ret)
qed

lemma iter_complete: "iterates body x s r s' \<Longrightarrow> iter body x s = Some (r, s')"
  by (induction rule: iterates.induct) (auto simp: iter.simps)

lemma iter_iterates: "iter body x s = Some (r, s') \<longleftrightarrow> iterates body x s r s'"
  using iter_sound iter_complete by fastforce

lemma loop_hangs:
  assumes "running s" and "\<And>r s'. \<not> iterates body x s r s'"
  shows "run_state (loop d body x) s = (d, s\<lparr>status := Hung\<rparr>)"
proof -
  have "iter body x s = None"
    using assms(2) by (metis iter_iterates not_Some_eq surj_pair)
  with assms(1) show ?thesis by (simp add: loop_def)
qed

lemma loop_iterates:
  assumes "running s" and "iterates body x s r s'"
  shows "run_state (loop d body x) s = (case r of None \<Rightarrow> d | Some y \<Rightarrow> y, s')"
proof -
  have "iter body x s = Some (r, s')"
    using assms(2) by (simp add: iter_iterates)
  with assms(1) show ?thesis by (simp add: loop_def split: option.splits)
qed

lemma loop_cases:
  obtains (stopped) "\<not> running s" "run_state (loop d body x) s = (d, s)"
  | (hung) "running s" "\<And>r s'. \<not> iterates body x s r s'"
      "run_state (loop d body x) s = (d, s\<lparr>status := Hung\<rparr>)"
  | (ends) r s' where "running s" "iterates body x s r s'"
      "run_state (loop d body x) s = (case r of None \<Rightarrow> d | Some y \<Rightarrow> y, s')"
proof (cases "running s")
  case False
  then show thesis using stopped by (simp add: loop_def)
next
  case True
  then show thesis using hung ends loop_hangs loop_iterates by metis
qed

text \<open>One turn of a loop that finishes.\<close>

lemma loop_finish:
  "running s \<Longrightarrow> run_state (body x) s = (Inr y, s') \<Longrightarrow> run_state (loop d body x) s = (y, s')"
  using loop_iterates [OF _ iterates.finish] by fastforce

lemma loop_again:
  assumes "running s" "run_state (body x) s = (Inl x', s')" "running s'"
    and "iterates body x' s' r s''"
  shows "run_state (loop d body x) s = run_state (loop d body x') s'"
  using assms loop_iterates [of s body x r s'' d] loop_iterates [of s' body x' r s'' d]
  by (auto intro: iterates.again)

text \<open>
  The rule for loops that returned: an invariant of the turns holds at the last turn, which
  answered \<open>Inr\<close>.
\<close>

lemma iterates_last:
  assumes "iterates body x s r s'" and "r = Some y" and "P x s" and "running s"
    and "\<And>x s x' s1. P x s \<Longrightarrow> running s \<Longrightarrow> run_state (body x) s = (Inl x', s1) \<Longrightarrow> running s1 \<Longrightarrow> P x' s1"
  shows "\<exists>x s1. P x s1 \<and> running s1 \<and> run_state (body x) s1 = (Inr y, s')"
  using assms(1-4)
proof (induction rule: iterates.induct)
  case (again x s x' s' r s'')
  then show ?case using assms(5) by blast
qed auto

lemma loop_last:
  assumes "running s" and run: "run_state (loop d body x) s = (y, s')" and "running s'" and "P x s"
    and "\<And>x s x' s1. P x s \<Longrightarrow> running s \<Longrightarrow> run_state (body x) s = (Inl x', s1) \<Longrightarrow> running s1 \<Longrightarrow> P x' s1"
  shows "\<exists>x s1. P x s1 \<and> running s1 \<and> run_state (body x) s1 = (Inr y, s')"
proof (cases rule: loop_cases [of s d body x])
  case (ends r t)
  then have eq: "t = s'" "(case r of None \<Rightarrow> d | Some y \<Rightarrow> y) = y" using run by auto
  show ?thesis
  proof (cases r)
    case None
    from ends(2) None have "\<not> running t"
      by (induction rule: iterates.induct) auto
    with eq(1) assms(3) show ?thesis by simp
  next
    case (Some z)
    with eq have "z = y" by simp
    have "\<exists>x s1. P x s1 \<and> running s1 \<and> run_state (body x) s1 = (Inr y, t)"
      by (rule iterates_last [where P = P, OF ends(2)]) (use Some \<open>z = y\<close> assms(1,4,5) in blast)+
    with eq(1) show ?thesis by simp
  qed
qed (use assms in auto)

text \<open>
  Total correctness: a loop whose turns keep an invariant and lower a measure returns, with the
  postcondition of its last turn.
\<close>

lemma loop_total:
  assumes "running s" and "P x s"
    and turn: "\<And>x s. P x s \<Longrightarrow> running s \<Longrightarrow>
      (\<exists>y s1. run_state (body x) s = (Inr y, s1) \<and> running s1 \<and> Q y s1) \<or>
      (\<exists>x' s1. run_state (body x) s = (Inl x', s1) \<and> running s1 \<and> P x' s1 \<and> (\<mu> x' s1 :: nat) < \<mu> x s)"
  shows "\<exists>y s'. run_state (loop d body x) s = (y, s') \<and> running s' \<and> Q y s'"
proof -
  have "\<exists>y s'. iterates body x s (Some y) s' \<and> running s' \<and> Q y s'"
    using assms(1,2)
  proof (induction "\<mu> x s" arbitrary: x s rule: less_induct)
    case less
    from turn [OF less.prems(2,1)] show ?case
    proof (elim disjE exE conjE)
      fix y s1 assume "run_state (body x) s = (Inr y, s1)" "running s1" "Q y s1"
      then show ?thesis by (blast intro: iterates.finish)
    next
      fix x' s1
      assume 1: "run_state (body x) s = (Inl x', s1)" "running s1" "P x' s1" "\<mu> x' s1 < \<mu> x s"
      with less.hyps obtain y s' where "iterates body x' s1 (Some y) s'" "running s'" "Q y s'" by blast
      with 1 show ?thesis by (blast intro: iterates.again)
    qed
  qed
  then show ?thesis using loop_iterates [OF assms(1)] by fastforce
qed

subsection \<open>Busy waiting\<close>

text \<open>The answer to the \<open>n\<close>-th of a run of reads of \<open>a\<close> (counting from 0).\<close>

definition answer :: "'r mach_scheme \<Rightarrow> u32 \<Rightarrow> nat \<Rightarrow> u32" where
  "answer s a n = cur (log (replicate n (Rd a)) s) a"

lemma answer_0: "answer s a 0 = cur s a"
  by (simp add: answer_def)

lemma answer_log: "answer (log (replicate k (Rd a)) s) a n = answer s a (k + n)"
  by (simp add: answer_def replicate_add)

lemma answer_log1: "answer (log [Rd a] s) a n = answer s a (Suc n)"
  using answer_log [of 1 a s n] by simp

lemma run_poll_body:
  "running s \<Longrightarrow> run_state (do { v \<leftarrow> rd a; return (if c v then Inr v else Inl ()) }) s =
     ((if c (answer s a 0) then Inr (answer s a 0) else Inl ()), log [Rd a] s)"
  by (simp add: answer_0)

lemma poll_iterates:
  assumes "running s" and "c (answer s a n)" and "\<And>i. i < n \<Longrightarrow> \<not> c (answer s a i)"
  shows "iterates (\<lambda>_. do { v \<leftarrow> rd a; return (if c v then Inr v else Inl ()) }) () s
           (Some (answer s a n)) (log (replicate (Suc n) (Rd a)) s)"
  using assms
proof (induction n arbitrary: s)
  case 0
  then show ?case
    by (intro iterates.finish) (simp add: answer_0)
next
  case (Suc n)
  let ?s = "log [Rd a] s"
  have "c (answer ?s a n)" and "\<And>i. i < n \<Longrightarrow> \<not> c (answer ?s a i)"
    using Suc.prems by (simp_all add: answer_log1)
  with Suc.IH [of ?s] Suc.prems(1)
  have "iterates (\<lambda>_. do { v \<leftarrow> rd a; return (if c v then Inr v else Inl ()) }) () ?s
          (Some (answer s a (Suc n))) (log (replicate (Suc (Suc n)) (Rd a)) s)"
    by (simp add: answer_log1)
  moreover have "run_state (do { v \<leftarrow> rd a; return (if c v then Inr v else Inl ()) }) s = (Inl (), ?s)"
    using Suc.prems(1) Suc.prems(3) [of 0] by (simp add: answer_0)
  ultimately show ?case
    using Suc.prems(1) by - (rule iterates.again, assumption, simp_all)
qed

lemma poll_iterates_Ex:
  assumes "iterates (\<lambda>_. do { v \<leftarrow> rd a; return (if c v then Inr v else Inl ()) }) u s r s'"
    and "running s"
  shows "\<exists>n. c (answer s a n)"
  using assms
proof (induction rule: iterates.induct)
  case (finish u s y s')
  then have "c (answer s a 0)" by (simp add: answer_0 split: if_splits)
  then show ?case by blast
next
  case (stop u s u' s')
  then show ?case by (auto split: if_splits)
next
  case (again u s u' s' r s'')
  then have s': "s' = log [Rd a] s" by (simp split: if_splits)
  obtain n where "c (answer s' a n)" using again by blast
  then have "c (answer s a (Suc n))" by (simp add: s' answer_log1)
  then show ?case by blast
qed

text \<open>
  A busy wait returns with the first answer that satisfies the condition, having read up to it,
  and it never returns exactly when no answer ever does.
\<close>

lemma poll_returns:
  assumes "running s" and "c (answer s a n)" and "\<And>i. i < n \<Longrightarrow> \<not> c (answer s a i)"
  shows "run_state (poll a c) s = (answer s a n, log (replicate (Suc n) (Rd a)) s)"
  unfolding poll_def
  using loop_iterates [OF assms(1) poll_iterates [of s c a n, OF assms]]
  by (simp del: replicate_Suc)

lemma poll_now:
  "running s \<Longrightarrow> c (cur s a) \<Longrightarrow> run_state (poll a c) s = (cur s a, log [Rd a] s)"
  using poll_returns [of s c a 0] by (simp add: answer_0)

lemma poll_hangs:
  assumes "running s" and "\<And>n. \<not> c (answer s a n)"
  shows "run_state (poll a c) s = (0, s\<lparr>status := Hung\<rparr>)"
  unfolding poll_def using assms poll_iterates_Ex by (intro loop_hangs) blast+

lemma poll_stopped: "\<not> running s \<Longrightarrow> run_state (poll a c) s = (0, s)"
  by (simp add: poll_def loop_def)

lemma poll_exact:
  assumes "running s"
  shows "run_state (poll a c) s =
    (if \<exists>n. c (answer s a n)
     then let n = LEAST n. c (answer s a n) in
            (answer s a n, log (replicate (Suc n) (Rd a)) s)
     else (0, s\<lparr>status := Hung\<rparr>))"
proof (cases "\<exists>n. c (answer s a n)")
  case True
  define n where "n = (LEAST n. c (answer s a n))"
  have "c (answer s a n)" unfolding n_def using True by (rule LeastI_ex)
  moreover have "\<not> c (answer s a i)" if "i < n" for i
    using that unfolding n_def by (rule not_less_Least)
  ultimately have "run_state (poll a c) s = (answer s a n, log (replicate (Suc n) (Rd a)) s)"
    by (rule poll_returns [OF assms])
  with True show ?thesis by (simp only: Let_def n_def if_True)
next
  case False
  then show ?thesis using poll_hangs [of s c a] assms by simp
qed

lemma poll_running:
  assumes "running s" and run: "run_state (poll a c) s = (v, s')" and "running s'"
  obtains n where "c v" "v = answer s a n" "s' = log (replicate (Suc n) (Rd a)) s"
    "\<And>i. i < n \<Longrightarrow> \<not> c (answer s a i)"
proof -
  have ex: "\<exists>n. c (answer s a n)"
  proof (rule ccontr)
    assume "\<nexists>n. c (answer s a n)"
    then have "s' = s\<lparr>status := Hung\<rparr>" using poll_hangs [of s c a] assms(1) run by simp
    with assms(3) show False by simp
  qed
  define n where "n = (LEAST n. c (answer s a n))"
  have n: "c (answer s a n)" unfolding n_def using ex by (rule LeastI_ex)
  have least: "\<not> c (answer s a i)" if "i < n" for i
    using that unfolding n_def by (rule not_less_Least)
  have "v = answer s a n" "s' = log (replicate (Suc n) (Rd a)) s"
    using poll_returns [of s c a n] n least assms(1) run by (simp_all del: replicate_Suc)
  with n least show thesis using that by blast
qed

subsection \<open>Effects: the events an operation can make\<close>

definition effects :: "(event \<Rightarrow> bool) \<Rightarrow> ('r, 'a) io \<Rightarrow> bool" where
  "effects R m \<longleftrightarrow>
     state_io_rel (\<lambda>s s'. dev s' = dev s \<and> (\<exists>es. bus s' = bus s @ es \<and> list_all R es)) m"

lemma effectsI:
  assumes "\<And>s. \<exists>es. dev (snd (run_state m s)) = dev s \<and>
                     bus (snd (run_state m s)) = bus s @ es \<and> list_all R es"
  shows "effects R m"
  using assms unfolding effects_def state_io_rel_def by blast

lemma effectsE:
  assumes "effects R m"
  obtains es where "dev (snd (run_state m s)) = dev s" "bus (snd (run_state m s)) = bus s @ es"
    "list_all R es"
  using assms unfolding effects_def state_io_rel_def by blast

lemma effects_return [emit_intros]: "effects R (return x)"
  by (rule effectsI) simp

lemma effects_rd [emit_intros]: "R (Rd a) \<Longrightarrow> effects R (rd a)"
  by (rule effectsI) auto

lemma effects_wr [emit_intros]: "R (Wr a v) \<Longrightarrow> effects R (wr a v)"
  by (rule effectsI) auto

lemma effects_printf [emit_intros]: "R (Print f xs) \<Longrightarrow> effects R (printf f xs)"
  by (rule effectsI) auto

lemma effects_panic [emit_intros]: "effects R (panic msg)"
  by (rule effectsI) auto

lemma effects_spin [emit_intros]: "effects R spin_forever"
  by (rule effectsI) auto

lemma effects_gget [emit_intros]: "effects R (gget f)"
  by (rule effectsI) auto

lemma effects_gset [emit_intros]:
  "(\<And>s. dev (f s) = dev s) \<Longrightarrow> (\<And>s. bus (f s) = bus s) \<Longrightarrow> effects R (gset f)"
  by (rule effectsI) auto

lemma effects_assert [emit_intros]: "effects R (assert_that msg b)"
  by (rule effectsI) auto

lemma effects_bind [emit_intros]:
  assumes "effects R m" and "\<And>x. effects R (f x)"
  shows "effects R (m \<bind> f)"
proof (rule effectsI)
  fix s
  obtain x s' where m: "run_state m s = (x, s')" by fastforce
  obtain es where "dev s' = dev s" "bus s' = bus s @ es" "list_all R es"
    using effectsE [OF assms(1), of s] m by auto
  moreover obtain fs where "dev (snd (run_state (f x) s')) = dev s'"
      "bus (snd (run_state (f x) s')) = bus s' @ fs" "list_all R fs"
    using effectsE [OF assms(2)] by metis
  ultimately show "\<exists>es. dev (snd (run_state (m \<bind> f) s)) = dev s \<and>
      bus (snd (run_state (m \<bind> f) s)) = bus s @ es \<and> list_all R es"
    using m by (intro exI [of _ "es @ fs"]) simp
qed

lemma effects_if [emit_intros]:
  "(b \<Longrightarrow> effects R m) \<Longrightarrow> (\<not> b \<Longrightarrow> effects R n) \<Longrightarrow> effects R (if b then m else n)"
  by simp

lemma effects_when [emit_intros]: "(b \<Longrightarrow> effects R m) \<Longrightarrow> effects R (when_io b m)"
  by (auto simp: when_io_def intro: emit_intros)

lemma effects_reg_or [emit_intros]:
  "R (Rd a) \<Longrightarrow> (\<And>x. R (Wr a (x OR v))) \<Longrightarrow> effects R (reg_or a v)"
  unfolding reg_or_def by (intro emit_intros)

lemma effects_reg_and [emit_intros]:
  "R (Rd a) \<Longrightarrow> (\<And>x. R (Wr a (x AND v))) \<Longrightarrow> effects R (reg_and a v)"
  unfolding reg_and_def by (intro emit_intros)

lemma effects_for_each [emit_intros]:
  "(\<And>x. x \<in> set xs \<Longrightarrow> effects R (f x)) \<Longrightarrow> effects R (for_each xs f)"
  by (induction xs) (auto intro!: emit_intros)

lemma effects_iterates:
  assumes "\<And>x. effects R (body x)" and "iterates body x s r s'"
  shows "dev s' = dev s \<and> (\<exists>es. bus s' = bus s @ es \<and> list_all R es)"
  using assms(2)
proof (induction rule: iterates.induct)
  case (again x s x' s' r s'')
  obtain es where "dev s' = dev s" "bus s' = bus s @ es" "list_all R es"
    using effectsE [OF assms(1) [of x], of s] again.hyps(1) by auto
  with again.IH show ?case by fastforce
next
  case (finish x s y s')
  then show ?case using effectsE [OF assms(1) [of x], of s] by (metis snd_conv)
next
  case (stop x s x' s')
  then show ?case using effectsE [OF assms(1) [of x], of s] by (metis snd_conv)
qed

lemma effects_loop [emit_intros]:
  assumes "\<And>x. effects R (body x)"
  shows "effects R (loop d body x)"
proof (rule effectsI)
  fix s
  show "\<exists>es. dev (snd (run_state (loop d body x) s)) = dev s \<and>
      bus (snd (run_state (loop d body x) s)) = bus s @ es \<and> list_all R es"
  proof (cases rule: loop_cases [of s d body x])
    case (ends r s')
    with effects_iterates [OF assms ends(2)] show ?thesis by auto
  qed auto
qed

lemma effects_while [emit_intros]:
  "effects R c \<Longrightarrow> effects R b \<Longrightarrow> effects R (while_io c b)"
  unfolding while_io_def by (intro emit_intros)

lemma effects_poll [emit_intros]: "R (Rd a) \<Longrightarrow> effects R (poll a c)"
  unfolding poll_def by (intro emit_intros)

lemma effects_mono: "effects R m \<Longrightarrow> (\<And>e. R e \<Longrightarrow> R' e) \<Longrightarrow> effects R' m"
  unfolding effects_def state_io_rel_def by (metis (mono_tags, lifting) list.pred_mono_strong)

lemma effects_run:
  assumes "effects R m" "run_state m s = (x, s')"
  obtains es where "dev s' = dev s" "bus s' = bus s @ es" "list_all R es"
  using effectsE [OF assms(1), of s] assms(2) by auto

subsection \<open>A stopped machine stays as it is\<close>

definition inert :: "('r, 'a) io \<Rightarrow> bool" where
  "inert m \<longleftrightarrow> (\<forall>s. \<not> running s \<longrightarrow> snd (run_state m s) = s)"

lemma inertD: "inert m \<Longrightarrow> \<not> running s \<Longrightarrow> snd (run_state m s) = s"
  by (simp add: inert_def)

lemma inert_prims [inert_intros]:
  "inert (return x)" "inert (rd a)" "inert (wr a v)" "inert (printf f xs)" "inert (panic msg)"
  "inert spin_forever" "inert (gget g)" "inert (gset h)" "inert (assert_that msg b)"
  "inert (reg_or a v)" "inert (reg_and a v)" "inert (loop d body y)" "inert (while_io c w)"
  "inert (poll a q)"
  by (simp_all add: inert_def loop_def while_io_def poll_def)

lemma inert_bind [inert_intros]:
  "inert m \<Longrightarrow> (\<And>x. inert (f x)) \<Longrightarrow> inert (m \<bind> f)"
  unfolding inert_def by (metis (no_types, lifting) run_state_bind snd_conv split_beta)

lemma inert_if [inert_intros]: "(b \<Longrightarrow> inert m) \<Longrightarrow> (\<not> b \<Longrightarrow> inert n) \<Longrightarrow> inert (if b then m else n)"
  by simp

lemma inert_when [inert_intros]: "(b \<Longrightarrow> inert m) \<Longrightarrow> inert (when_io b m)"
  by (auto simp: when_io_def intro: inert_intros)

lemma inert_for_each [inert_intros]:
  "(\<And>x. x \<in> set xs \<Longrightarrow> inert (f x)) \<Longrightarrow> inert (for_each xs f)"
  by (induction xs) (auto intro!: inert_intros)

lemma inert_running:
  assumes "\<And>x. inert (f x)" "run_state (m \<bind> f) s = (y, s')" "running s'"
  obtains x s1 where "run_state m s = (x, s1)" "running s1" "run_state (f x) s1 = (y, s')"
proof -
  obtain x s1 where 1: "run_state m s = (x, s1)" by fastforce
  then have 2: "run_state (f x) s1 = (y, s')" using assms(2) by simp
  have "running s1"
  proof (rule ccontr)
    assume "\<not> running s1"
    then have "s' = s1" using inertD [OF assms(1) [of x]] 2 by (metis snd_conv)
    with assms(3) \<open>\<not> running s1\<close> show False by simp
  qed
  with 1 2 show thesis using that by blast
qed

subsection \<open>Plain storage\<close>

text \<open>
  Most configuration registers are storage: a read returns the word last written.  A device that
  treats \<open>a\<close> so is \<open>plain_at\<close> it; theorems that need this of the hardware say so.
\<close>

fun last_write :: "u32 \<Rightarrow> event list \<Rightarrow> u32 option" where
  "last_write a [] = None"
| "last_write a (e # es) =
     (case last_write a es of
        Some v \<Rightarrow> Some v
      | None \<Rightarrow> (case e of Wr b v \<Rightarrow> if a = b then Some v else None | _ \<Rightarrow> None))"

lemma last_write_map_const:
  "last_write a (map (\<lambda>i. Wr (f i) v) xs) = (if a \<in> f ` set xs then Some v else None)"
  by (induction xs) auto

definition plain_at :: "device \<Rightarrow> u32 \<Rightarrow> bool" where
  "plain_at d a \<longleftrightarrow>
     (\<forall>h. d h a = (case last_write a h of Some v \<Rightarrow> v | None \<Rightarrow> d [] a))"

lemma last_write_append [simp]:
  "last_write a (es @ fs) = (case last_write a fs of Some v \<Rightarrow> Some v | None \<Rightarrow> last_write a es)"
  by (induction es) (auto split: option.splits)

lemma plain_cur_log:
  assumes "plain_at (dev s) a"
  shows "cur (log es s) a = (case last_write a es of Some v \<Rightarrow> v | None \<Rightarrow> cur s a)"
proof -
  have "dev s (bus s @ es) a = (case last_write a (bus s @ es) of Some v \<Rightarrow> v | None \<Rightarrow> dev s [] a)"
    and "dev s (bus s) a = (case last_write a (bus s) of Some v \<Rightarrow> v | None \<Rightarrow> dev s [] a)"
    using assms unfolding plain_at_def by blast+
  then show ?thesis
    by (simp add: cur_def split: option.splits)
qed

lemma plain_cur_wr:
  "plain_at (dev s) a \<Longrightarrow> cur (log [Wr a v] s) a = v"
  by (simp add: plain_cur_log)

subsection \<open>The writes of an operation\<close>

text \<open>What the hardware sees of a trace when reads have no effect: the writes, in order.\<close>

fun writes :: "event list \<Rightarrow> (u32 \<times> u32) list" where
  "writes [] = []"
| "writes (Wr a v # es) = (a, v) # writes es"
| "writes (Rd a # es) = writes es"
| "writes (Print f xs # es) = writes es"

lemma writes_append [simp]: "writes (es @ fs) = writes es @ writes fs"
  by (induction es rule: writes.induct) simp_all

definition quiet :: "event \<Rightarrow> bool" where
  "quiet e \<longleftrightarrow> (case e of Wr a v \<Rightarrow> False | _ \<Rightarrow> True)"

lemma quiet_simps [simp]: "quiet (Rd a)" "quiet (Print f xs)" "\<not> quiet (Wr a v)"
  by (simp_all add: quiet_def)

lemma writes_quiet: "list_all quiet es \<Longrightarrow> writes es = []"
  by (induction es rule: writes.induct) simp_all

lemma writes_replicate_Rd [simp]: "writes (replicate n (Rd a)) = []"
  by (rule writes_quiet) simp

lemma last_write_quiet: "list_all quiet es \<Longrightarrow> last_write a es = None"
  by (induction es rule: writes.induct) simp_all

lemma last_write_writes: "last_write a es = map_of (rev (writes es)) a"
proof (induction es rule: writes.induct)
  case (2 b v es)
  then show ?case by (simp add: map_add_def split: option.split)
qed (simp_all split: option.split)

text \<open>An operation that only reads and prints leaves plain storage as it is.\<close>

lemma quiet_run:
  assumes "effects quiet m" and "run_state m s = (x, s')"
  shows "writes (bus s') = writes (bus s)" and "dev s' = dev s"
    and "plain_at (dev s) a \<Longrightarrow> cur s' a = cur s a"
proof -
  obtain es where es: "dev s' = dev s" "bus s' = bus s @ es" "list_all quiet es"
    using effectsE [OF assms(1), of s] assms(2) by auto
  then show "writes (bus s') = writes (bus s)" "dev s' = dev s" by (simp_all add: writes_quiet)
  assume p: "plain_at (dev s) a"
  have "cur s' a = cur (log es s) a" using es by (simp add: cur_def)
  then show "cur s' a = cur s a" using plain_cur_log [OF p] es(3) by (simp add: last_write_quiet)
qed

text \<open>
  \<open>emits ws m\<close>: whenever \<open>m\<close> runs to its end, its writes are exactly \<open>ws\<close>.  The rules compose
  the initialisation sequences whose values do not depend on what the hardware answers.
\<close>

definition emits :: "(u32 \<times> u32) list \<Rightarrow> ('r, 'a) io \<Rightarrow> bool" where
  "emits ws m \<longleftrightarrow> (\<forall>s. running s \<longrightarrow> running (snd (run_state m s)) \<longrightarrow>
     writes (bus (snd (run_state m s))) = writes (bus s) @ ws)"

lemma emitsD:
  assumes "emits ws m" "running s" "run_state m s = (x, s')" "running s'"
  shows "writes (bus s') = writes (bus s) @ ws"
  using assms by (auto simp: emits_def)

lemma emits_quiet: "effects quiet m \<Longrightarrow> emits [] m"
  unfolding emits_def using quiet_run(1) by (metis append_Nil2 surj_pair snd_conv)

lemma emits_wr: "emits [(a, v)] (wr a v)"
  by (simp add: emits_def)

lemma emits_return: "emits [] (return x)"
  by (simp add: emits_def)

lemma emits_bind:
  fixes m :: "('r, 'x) io"
  assumes "emits us m" "\<And>x. emits vs (f x)" "\<And>x. inert (f x)" "ws = us @ vs"
  shows "emits ws (m \<bind> f)"
  unfolding emits_def
proof (intro allI impI)
  fix s :: "'r mach_scheme" assume s: "running s" "running (snd (run_state (m \<bind> f) s))"
  obtain y s' where run: "run_state (m \<bind> f) s = (y, s')" by fastforce
  with s obtain x s1 where "run_state m s = (x, s1)" "running s1" "run_state (f x) s1 = (y, s')"
    using inert_running [OF assms(3) run] by auto
  then show "writes (bus (snd (run_state (m \<bind> f) s))) = writes (bus s) @ ws"
    using run s emitsD [OF assms(1) s(1)] emitsD [OF assms(2)] assms(4) by auto
qed

lemma emits_seq: "emits us m \<Longrightarrow> emits vs n \<Longrightarrow> inert n \<Longrightarrow> emits (us @ vs) (m \<bind> (\<lambda>_. n))"
  by (rule emits_bind) auto

lemma emits_when: "emits ws m \<Longrightarrow> emits (if b then ws else []) (when_io b m)"
  by (simp add: when_io_def emits_return)

lemma emits_for_each:
  assumes "\<And>x. emits (g x) (f x)" "\<And>x. inert (f x)"
  shows "emits (concat (map g xs)) (for_each xs f)"
proof (induction xs)
  case (Cons x xs)
  have "inert (for_each xs f)" using assms(2) by (rule inert_for_each)
  with emits_seq [OF assms(1) [of x] Cons.IH] show ?case by simp
qed (simp add: emits_return)

subsection \<open>Registers an operation leaves alone, and what it leaves in one\<close>

text \<open>No write to a register of the set.\<close>

definition avoids :: "(u32 \<Rightarrow> bool) \<Rightarrow> event \<Rightarrow> bool" where
  "avoids A e \<longleftrightarrow> (case e of Wr a v \<Rightarrow> \<not> A a | _ \<Rightarrow> True)"

lemma avoids_simps [simp]: "avoids A (Rd a)" "avoids A (Print f xs)" "avoids A (Wr a v) \<longleftrightarrow> \<not> A a"
  by (simp_all add: avoids_def)

lemma avoids_absent: "list_all (avoids A) es \<Longrightarrow> A a \<Longrightarrow> Wr a v \<notin> set es"
  by (auto simp: list_all_iff)

lemma avoids_last_write: "list_all (avoids A) es \<Longrightarrow> A a \<Longrightarrow> last_write a es = None"
  by (induction es rule: writes.induct) auto

lemma avoids_quiet: "quiet e \<Longrightarrow> avoids A e"
  by (cases e) simp_all

text \<open>
  \<open>leaves a P m\<close>: a run of \<open>m\<close> that ends has written \<open>a\<close>, the last time with a value that
  satisfies \<open>P\<close>.
\<close>

definition leaves :: "u32 \<Rightarrow> (u32 \<Rightarrow> bool) \<Rightarrow> ('r, 'a) io \<Rightarrow> bool" where
  "leaves a P m \<longleftrightarrow> (\<forall>s x s'. running s \<longrightarrow> run_state m s = (x, s') \<longrightarrow> running s' \<longrightarrow>
     (\<exists>es v. bus s' = bus s @ es \<and> last_write a es = Some v \<and> P v))"

lemma leavesE:
  assumes "leaves a P m" "running s" "run_state m s = (x, s')" "running s'"
  obtains es v where "bus s' = bus s @ es" "last_write a es = Some v" "P v"
  using assms unfolding leaves_def by blast

lemma leaves_prims: "P v \<Longrightarrow> leaves a P (wr a v)" "(\<And>x. P (x OR v)) \<Longrightarrow> leaves a P (reg_or a v)"
  by (simp_all add: leaves_def)

lemma leaves_here:
  fixes m :: "('r, 'x) io"
  assumes "leaves a P m" "\<And>x. inert (f x)" "\<And>x. effects (avoids (\<lambda>b. b = a)) (f x)"
  shows "leaves a P (m \<bind> f)"
  unfolding leaves_def
proof (intro allI impI)
  fix s :: "'r mach_scheme" and x s' assume s: "running s" "run_state (m \<bind> f) s = (x, s')" "running s'"
  obtain y s1 where 1: "run_state m s = (y, s1)" "running s1" "run_state (f y) s1 = (x, s')"
    by (rule inert_running [OF assms(2) s(2,3)])
  obtain es v where "bus s1 = bus s @ es" "last_write a es = Some v" "P v"
    by (rule leavesE [OF assms(1) s(1) 1(1,2)])
  moreover obtain fs where "bus s' = bus s1 @ fs" "list_all (avoids (\<lambda>b. b = a)) fs"
    by (rule effects_run [OF assms(3) 1(3)])
  ultimately show "\<exists>es v. bus s' = bus s @ es \<and> last_write a es = Some v \<and> P v"
    by (intro exI [of _ "es @ fs"] exI [of _ v]) (simp add: avoids_last_write)
qed

lemma leaves_later:
  fixes m :: "('r, 'x) io"
  assumes "effects (\<lambda>_. True) m" "\<And>x. inert (f x)" "\<And>x. leaves a P (f x)"
  shows "leaves a P (m \<bind> f)"
  unfolding leaves_def
proof (intro allI impI)
  fix s :: "'r mach_scheme" and x s' assume s: "running s" "run_state (m \<bind> f) s = (x, s')" "running s'"
  obtain y s1 where 1: "run_state m s = (y, s1)" "running s1" "run_state (f y) s1 = (x, s')"
    by (rule inert_running [OF assms(2) s(2,3)])
  obtain es where "bus s1 = bus s @ es" by (rule effects_run [OF assms(1) 1(1)])
  moreover obtain fs v where "bus s' = bus s1 @ fs" "last_write a fs = Some v" "P v"
    by (rule leavesE [OF assms(3) 1(2,3) s(3)])
  ultimately show "\<exists>es v. bus s' = bus s @ es \<and> last_write a es = Some v \<and> P v"
    by (intro exI [of _ "es @ fs"] exI [of _ v]) simp
qed

subsection \<open>Passing a point\<close>

text \<open>
  \<open>passes R a c R' m\<close>: a run of \<open>m\<close> that ends has read \<open>a\<close> with an answer that satisfies \<open>c\<close>;
  before it made only events \<open>R\<close>, after it only \<open>R'\<close>.
\<close>

definition passes ::
  "(event \<Rightarrow> bool) \<Rightarrow> u32 \<Rightarrow> (u32 \<Rightarrow> bool) \<Rightarrow> (event \<Rightarrow> bool) \<Rightarrow> ('r, 'a) io \<Rightarrow> bool" where
  "passes R a c R' m \<longleftrightarrow> (\<forall>s x s'. running s \<longrightarrow> run_state m s = (x, s') \<longrightarrow> running s' \<longrightarrow>
     dev s' = dev s \<and> (\<exists>k l. bus s' = bus s @ k @ Rd a # l \<and> c (dev s (bus s @ k) a) \<and> list_all R k \<and> list_all R' l))"

lemma passes_bind:
  fixes m :: "('r, 'x) io"
  assumes "effects R m" "\<And>x. inert (f x)" "\<And>x. passes R a c R' (f x)"
  shows "passes R a c R' (m \<bind> f)"
  unfolding passes_def
proof (intro allI impI)
  fix s :: "'r mach_scheme" and x s' assume s: "running s" "run_state (m \<bind> f) s = (x, s')" "running s'"
  obtain y s1 where 1: "run_state m s = (y, s1)" "running s1" "run_state (f y) s1 = (x, s')"
    by (rule inert_running [OF assms(2) s(2,3)])
  obtain es where es: "dev s1 = dev s" "bus s1 = bus s @ es" "list_all R es"
    by (rule effects_run [OF assms(1) 1(1)])
  from assms(3) [unfolded passes_def, rule_format, OF 1(2,3) s(3)] obtain k l where
    "dev s' = dev s1" "bus s' = bus s1 @ k @ Rd a # l" "c (dev s1 (bus s1 @ k) a)" "list_all R k" "list_all R' l" by blast
  with es show "dev s' = dev s \<and>
      (\<exists>k l. bus s' = bus s @ k @ Rd a # l \<and> c (dev s (bus s @ k) a) \<and> list_all R k \<and> list_all R' l)"
    by (intro conjI exI [of _ "es @ k"] exI [of _ l]) simp_all
qed

lemma passes_poll:
  fixes f :: "u32 \<Rightarrow> ('r, 'x) io"
  assumes "R (Rd a)" "\<And>x. inert (f x)" "\<And>x. effects R' (f x)"
  shows "passes R a c R' (poll a c \<bind> f)"
  unfolding passes_def
proof (intro allI impI)
  fix s :: "'r mach_scheme" and x s' assume s: "running s" "run_state (poll a c \<bind> f) s = (x, s')" "running s'"
  obtain v s1 where 1: "run_state (poll a c) s = (v, s1)" "running s1" "run_state (f v) s1 = (x, s')"
    by (rule inert_running [OF assms(2) s(2,3)])
  obtain n where n: "c v" "v = answer s a n" "s1 = log (replicate (Suc n) (Rd a)) s"
    by (rule poll_running [OF s(1) 1(1,2)])
  obtain es where es: "dev s' = dev s1" "bus s' = bus s1 @ es" "list_all R' es"
    by (rule effects_run [OF assms(3) 1(3)])
  have "replicate (Suc n) (Rd a) @ es = replicate n (Rd a) @ Rd a # es"
    by (simp flip: replicate_append_same)
  with n es assms(1) show "dev s' = dev s \<and>
      (\<exists>k l. bus s' = bus s @ k @ Rd a # l \<and> c (dev s (bus s @ k) a) \<and> list_all R k \<and> list_all R' l)"
    by (intro conjI exI [of _ "replicate n (Rd a)"] exI [of _ es]) (simp_all add: answer_def cur_def del: replicate_Suc)
qed

lemma passesE:
  assumes "passes R a c R' m" "running s" "run_state m s = (x, s')" "running s'"
  obtains k l where "dev s' = dev s" "bus s' = bus s @ k @ Rd a # l" "c (dev s (bus s @ k) a)"
    "list_all R k" "list_all R' l"
  using assms unfolding passes_def by blast

subsection \<open>Results\<close>

text \<open>\<open>yields P m\<close>: whatever the hardware answers, the result of \<open>m\<close> satisfies \<open>P\<close>.\<close>

definition yields :: "('a \<Rightarrow> bool) \<Rightarrow> ('r, 'a) io \<Rightarrow> bool" where
  "yields P m \<longleftrightarrow> (\<forall>s. P (fst (run_state m s)))"

lemma yieldsD: "yields P m \<Longrightarrow> run_state m s = (x, s') \<Longrightarrow> P x"
  unfolding yields_def by (metis fst_conv)

lemma yields_return [yields_intros]: "P x \<Longrightarrow> yields P (return x)"
  by (simp add: yields_def)

lemma yields_bind [yields_intros]: "(\<And>x. yields P (f x)) \<Longrightarrow> yields P (m \<bind> f)"
  by (simp add: yields_def split: prod.split)

lemma yields_if [yields_intros]:
  "(b \<Longrightarrow> yields P m) \<Longrightarrow> (\<not> b \<Longrightarrow> yields P n) \<Longrightarrow> yields P (if b then m else n)"
  by simp

subsection \<open>Invariants\<close>

text \<open>
  \<open>keeps P m\<close>: whatever the hardware answers and however \<open>m\<close> ends, \<open>P\<close> holds after \<open>m\<close> when it
  held before.  \<open>steady P\<close>: the predicate does not look at the events or the status.
\<close>

definition keeps :: "('r mach_scheme \<Rightarrow> bool) \<Rightarrow> ('r, 'a) io \<Rightarrow> bool" where
  "keeps P m \<longleftrightarrow> (\<forall>s. P s \<longrightarrow> P (snd (run_state m s)))"

definition steady :: "('r mach_scheme \<Rightarrow> bool) \<Rightarrow> bool" where
  "steady P \<longleftrightarrow> (\<forall>s es. P s \<longrightarrow> P (log es s)) \<and> (\<forall>s st. P s \<longrightarrow> P (s\<lparr>status := st\<rparr>))"

lemma keepsD: "keeps P m \<Longrightarrow> P s \<Longrightarrow> run_state m s = (x, s') \<Longrightarrow> P s'"
  unfolding keeps_def by (metis snd_conv)

lemma keeps_prims [keep_intros]: "keeps P (return x)" "keeps P (gget f)"
  by (simp_all add: keeps_def)

lemma keeps_io [keep_intros]:
  assumes "steady P"
  shows "keeps P (rd a)" "keeps P (wr a v)" "keeps P (printf f xs)" "keeps P (panic msg)"
    "keeps P (reg_or a v)" "keeps P (reg_and a v)"
  using assms by (simp_all add: keeps_def steady_def)

lemma keeps_assert [keep_intros]: "steady P \<Longrightarrow> keeps P (assert_that msg b)"
  unfolding assert_that_def keeps_def steady_def by simp

lemma keeps_gset [keep_intros]: "(\<And>s. P s \<Longrightarrow> P (f s)) \<Longrightarrow> keeps P (gset f)"
  by (simp add: keeps_def)

lemma keeps_bind [keep_intros]: "keeps P m \<Longrightarrow> (\<And>x. keeps P (f x)) \<Longrightarrow> keeps P (m \<bind> f)"
  by (simp add: keeps_def split: prod.split) (metis snd_conv)

lemma keeps_if [keep_intros]:
  "(b \<Longrightarrow> keeps P m) \<Longrightarrow> (\<not> b \<Longrightarrow> keeps P n) \<Longrightarrow> keeps P (if b then m else n)"
  by simp

lemma keeps_when [keep_intros]: "(b \<Longrightarrow> keeps P m) \<Longrightarrow> keeps P (when_io b m)"
  by (simp add: keeps_def)

lemma keeps_for_each [keep_intros]: "(\<And>x. keeps P (f x)) \<Longrightarrow> keeps P (for_each xs f)"
  by (induction xs) (simp_all add: keeps_prims keeps_bind)

lemma keeps_iterates: "iterates body x s r s' \<Longrightarrow> (\<And>x. keeps P (body x)) \<Longrightarrow> P s \<Longrightarrow> P s'"
  by (induction rule: iterates.induct) (blast dest: keepsD)+

lemma keeps_loop [keep_intros]:
  assumes "steady P" "\<And>x. keeps P (body x)"
  shows "keeps P (loop d body x)"
  unfolding keeps_def
proof (intro allI impI)
  fix s assume "P s"
  then show "P (snd (run_state (loop d body x) s))"
    using assms(1) keeps_iterates [OF _ assms(2)]
    by (cases rule: loop_cases [of s d body x]) (auto simp: steady_def)
qed

lemma keeps_poll [keep_intros]: "steady P \<Longrightarrow> keeps P (poll a c)"
  unfolding poll_def by (intro keep_intros)

text \<open>\<open>returns Q m\<close>: a run of \<open>m\<close> that returns ends with a result and a state in \<open>Q\<close>.\<close>

definition returns :: "('a \<Rightarrow> 'r mach_scheme \<Rightarrow> bool) \<Rightarrow> ('r, 'a) io \<Rightarrow> bool" where
  "returns Q m \<longleftrightarrow> (\<forall>s x s'. running s \<longrightarrow> run_state m s = (x, s') \<longrightarrow> running s' \<longrightarrow> Q x s')"

lemma returnsD: "returns Q m \<Longrightarrow> running s \<Longrightarrow> run_state m s = (x, s') \<Longrightarrow> running s' \<Longrightarrow> Q x s'"
  unfolding returns_def by blast

lemma returns_bind:
  fixes m :: "('r, 'x) io"
  assumes "\<And>x. inert (f x)" "\<And>x. returns Q (f x)"
  shows "returns Q (m \<bind> f)"
  unfolding returns_def
proof (intro allI impI)
  fix s :: "'r mach_scheme" and y s' assume "running s" "run_state (m \<bind> f) s = (y, s')" "running s'"
  moreover from inert_running [OF assms(1) this(2,3)] obtain x s1 where
    "run_state m s = (x, s1)" "running s1" "run_state (f x) s1 = (y, s')" .
  ultimately show "Q y s'" using returnsD [OF assms(2)] by blast
qed

lemma returns_return: "(\<And>s. Q x s) \<Longrightarrow> returns Q (return x)"
  by (simp add: returns_def)

lemma returns_if: "(b \<Longrightarrow> returns Q m) \<Longrightarrow> (\<not> b \<Longrightarrow> returns Q n) \<Longrightarrow> returns Q (if b then m else n)"
  by simp

subsection \<open>Operations that return\<close>

text \<open>\<open>ends d m\<close>: on the device \<open>d\<close>, \<open>m\<close> returns from every running machine, without a panic.\<close>

definition ends :: "device \<Rightarrow> ('r, 'a) io \<Rightarrow> bool" where
  "ends d m \<longleftrightarrow> (\<forall>s. dev s = d \<longrightarrow> running s \<longrightarrow>
     running (snd (run_state m s)) \<and> dev (snd (run_state m s)) = d)"

lemma endsD:
  assumes "ends d m" "dev s = d" "running s" "run_state m s = (x, s')"
  shows "running s'" "dev s' = d"
  using assms unfolding ends_def by (metis snd_conv)+

lemma ends_prims [ends_intros]:
  "ends d (return x)" "ends d (rd a)" "ends d (wr a v)" "ends d (printf f xs)" "ends d (gget g)"
  "ends d (reg_or a v)" "ends d (reg_and a v)"
  by (simp_all add: ends_def)

lemma ends_gset [ends_intros]:
  "(\<And>s. running (g s) = running s) \<Longrightarrow> (\<And>s. dev (g s) = dev s) \<Longrightarrow> ends d (gset g)"
  by (simp add: ends_def)

lemma ends_bind [ends_intros]:
  fixes m :: "('r, 'x) io"
  assumes "ends d m" "\<And>x. ends d (f x)"
  shows "ends d (m \<bind> f)"
  unfolding ends_def
proof (intro allI impI)
  fix s :: "'r mach_scheme" assume s: "dev s = d" "running s"
  obtain x s1 where 1: "run_state m s = (x, s1)" by fastforce
  with endsD [OF assms(1) s] have "running s1" "dev s1 = d" by auto
  then show "running (snd (run_state (m \<bind> f) s)) \<and> dev (snd (run_state (m \<bind> f) s)) = d"
    using 1 assms(2) [of x] by (simp add: ends_def)
qed

lemma ends_if [ends_intros]:
  "(b \<Longrightarrow> ends d m) \<Longrightarrow> (\<not> b \<Longrightarrow> ends d n) \<Longrightarrow> ends d (if b then m else n)"
  by simp

lemma ends_when [ends_intros]: "(b \<Longrightarrow> ends d m) \<Longrightarrow> ends d (when_io b m)"
  by (simp add: ends_def)

lemma ends_for_each [ends_intros]:
  "(\<And>x. x \<in> set xs \<Longrightarrow> ends d (f x)) \<Longrightarrow> ends d (for_each xs f)"
proof (induction xs)
  case (Cons x xs)
  then show ?case by (auto intro!: ends_intros)
qed (simp add: ends_prims)

text \<open>A loop whose body returns and whose turns lower a measure of the loop's state.\<close>

lemma ends_loop:
  fixes body :: "'x \<Rightarrow> ('r, 'x + 'y) io" and \<mu> :: "'x \<Rightarrow> nat"
  assumes "\<And>x. ends d (body x)"
    and "\<And>x s x' s'. run_state (body x) s = (Inl x', s') \<Longrightarrow> running s \<Longrightarrow> running s' \<Longrightarrow> \<mu> x' < \<mu> x"
  shows "ends d (loop y body x)"
  unfolding ends_def
proof (intro allI impI)
  fix s :: "'r mach_scheme" assume s: "dev s = d" "running s"
  have "\<exists>z s'. run_state (loop y body x) s = (z, s') \<and> running s' \<and> dev s' = d"
  proof (rule loop_total [where P = "\<lambda>_ t. dev t = d" and \<mu> = "\<lambda>x _. \<mu> x", OF s(2,1)])
    fix x and t :: "'r mach_scheme" assume t: "dev t = d" "running t"
    obtain r t' where run: "run_state (body x) t = (r, t')" by fastforce
    note e = endsD [OF assms(1) t run]
    show "(\<exists>z s1. run_state (body x) t = (Inr z, s1) \<and> running s1 \<and> dev s1 = d) \<or>
      (\<exists>x' s1. run_state (body x) t = (Inl x', s1) \<and> running s1 \<and> dev s1 = d \<and> \<mu> x' < \<mu> x)"
      using run e assms(2) [of x t _ t'] t(2) by (cases r) auto
  qed
  then show "running (snd (run_state (loop y body x) s)) \<and> dev (snd (run_state (loop y body x) s)) = d" by auto
qed

text \<open>The concrete device the witnesses use: memory, with an initial content.\<close>

definition memory :: "(u32 \<Rightarrow> u32) \<Rightarrow> device" where
  "memory init h a = (case last_write a h of Some v \<Rightarrow> v | None \<Rightarrow> init a)"

lemma plain_memory: "plain_at (memory init) a"
  unfolding plain_at_def memory_def by (simp split: option.split)

definition boot :: "device \<Rightarrow> mach" where
  "boot d = \<lparr>dev = d, bus = [], status = Running, sr = 0\<rparr>"

lemma boot_simps [simp]: "dev (boot d) = d" "bus (boot d) = []" "status (boot d) = Running"
  by (simp_all add: boot_def)

end
