(* ===== verification/Regs.thy ===== *)
theory Regs
  imports Prelude
begin

unbundle bit_operations_syntax

text \<open>
  The register map and the interrupt vectors of the SoC, from \<^verbatim>\<open>include/platform/bcm28xx.h\<close>
  and \<^verbatim>\<open>power/include/platform/bcm28xx/power.h\<close>.  The peripheral base is that of the
  \<^verbatim>\<open>ARCH_VPU\<close> build; the ARM builds use the same offsets from another base, on which no
  theorem depends.
\<close>

subsection \<open>Peripheral blocks\<close>

definition BCM_PERIPH_BASE_VIRT :: u32 where [reg_defs]: "BCM_PERIPH_BASE_VIRT = 0x7e000000"
definition BCM_SDRAM_BUS_ADDR_BASE_NO_L2 :: u32 where [reg_defs]: "BCM_SDRAM_BUS_ADDR_BASE_NO_L2 = 0xc0000000"
definition BCM_SDRAM_BUS_ADDR_BASE :: u32 where [reg_defs]: "BCM_SDRAM_BUS_ADDR_BASE = BCM_SDRAM_BUS_ADDR_BASE_NO_L2"
definition BCM_LOCAL_PERIPH_BASE_VIRT :: u32 where [reg_defs]: "BCM_LOCAL_PERIPH_BASE_VIRT = BCM_PERIPH_BASE_VIRT + 0x01000000"
definition IC0_BASE :: u32 where [reg_defs]: "IC0_BASE = BCM_PERIPH_BASE_VIRT + 0x2000"
definition IC1_BASE :: u32 where [reg_defs]: "IC1_BASE = BCM_PERIPH_BASE_VIRT + 0x2800"
definition ST_BASE :: u32 where [reg_defs]: "ST_BASE = BCM_PERIPH_BASE_VIRT + 0x3000"
definition MPHI_BASE :: u32 where [reg_defs]: "MPHI_BASE = BCM_PERIPH_BASE_VIRT + 0x6000"
definition DMA_BASE :: u32 where [reg_defs]: "DMA_BASE = BCM_PERIPH_BASE_VIRT + 0x7000"
definition ARM_BASE :: u32 where [reg_defs]: "ARM_BASE = BCM_PERIPH_BASE_VIRT + 0xB000"
definition CM_BASE :: u32 where [reg_defs]: "CM_BASE = BCM_PERIPH_BASE_VIRT + 0x101000"
definition PCM_CLOCK_BASE :: u32 where [reg_defs]: "PCM_CLOCK_BASE = BCM_PERIPH_BASE_VIRT + 0x101098"
definition RNG_BASE :: u32 where [reg_defs]: "RNG_BASE = BCM_PERIPH_BASE_VIRT + 0x104000"
definition GPIO_BASE :: u32 where [reg_defs]: "GPIO_BASE = BCM_PERIPH_BASE_VIRT + 0x200000"
definition UART0_BASE :: u32 where [reg_defs]: "UART0_BASE = BCM_PERIPH_BASE_VIRT + 0x201000"
definition MMCI0_BASE :: u32 where [reg_defs]: "MMCI0_BASE = BCM_PERIPH_BASE_VIRT + 0x202000"
definition I2S_BASE :: u32 where [reg_defs]: "I2S_BASE = BCM_PERIPH_BASE_VIRT + 0x203000"
definition SPI0_BASE :: u32 where [reg_defs]: "SPI0_BASE = BCM_PERIPH_BASE_VIRT + 0x204000"
definition BSC0_BASE :: u32 where [reg_defs]: "BSC0_BASE = BCM_PERIPH_BASE_VIRT + 0x205000"
definition OTP_BASE :: u32 where [reg_defs]: "OTP_BASE = BCM_PERIPH_BASE_VIRT + 0x20f000"
definition AUX_BASE :: u32 where [reg_defs]: "AUX_BASE = BCM_PERIPH_BASE_VIRT + 0x215000"
definition MINIUART_BASE :: u32 where [reg_defs]: "MINIUART_BASE = BCM_PERIPH_BASE_VIRT + 0x215040"
definition EMMC_BASE :: u32 where [reg_defs]: "EMMC_BASE = BCM_PERIPH_BASE_VIRT + 0x300000"
definition SMI_BASE :: u32 where [reg_defs]: "SMI_BASE = BCM_PERIPH_BASE_VIRT + 0x600000"
definition BSC1_BASE :: u32 where [reg_defs]: "BSC1_BASE = BCM_PERIPH_BASE_VIRT + 0x804000"
definition USB_BASE :: u32 where [reg_defs]: "USB_BASE = BCM_PERIPH_BASE_VIRT + 0x980000"
definition SD_BASE :: u32 where [reg_defs]: "SD_BASE = BCM_PERIPH_BASE_VIRT + 0xe00000"
definition GENET_BASE :: u32 where [reg_defs]: "GENET_BASE = 0x7d580000"
definition MCORE_BASE :: u32 where [reg_defs]: "MCORE_BASE = BCM_PERIPH_BASE_VIRT + 0x0000"
definition SD_IDL :: u32 where [reg_defs]: "SD_IDL = SD_BASE + 0x18"
definition SD_CYC :: u32 where [reg_defs]: "SD_CYC = SD_BASE + 0x30"
definition ST_CS :: u32 where [reg_defs]: "ST_CS = ST_BASE + 0x0"
definition ST_CLO :: u32 where [reg_defs]: "ST_CLO = ST_BASE + 0x4"
definition ST_CHI :: u32 where [reg_defs]: "ST_CHI = ST_BASE + 0x8"
definition ST_C0 :: u32 where [reg_defs]: "ST_C0 = ST_BASE + 0xc"
definition ST_C1 :: u32 where [reg_defs]: "ST_C1 = ST_BASE + 0x10"
definition IC0_C :: u32 where [reg_defs]: "IC0_C = IC0_BASE + 0x0"
definition IC0_S :: u32 where [reg_defs]: "IC0_S = IC0_BASE + 0x4"
definition IC0_SRC0 :: u32 where [reg_defs]: "IC0_SRC0 = IC0_BASE + 0x8"
definition IC0_SRC1 :: u32 where [reg_defs]: "IC0_SRC1 = IC0_BASE + 0xc"
definition IC0_VADDR :: u32 where [reg_defs]: "IC0_VADDR = IC0_BASE + 0x30"
definition IC0_WAKEUP :: u32 where [reg_defs]: "IC0_WAKEUP = IC0_BASE + 0x34"
definition IC1_C :: u32 where [reg_defs]: "IC1_C = IC1_BASE + 0x0"
definition IC1_S :: u32 where [reg_defs]: "IC1_S = IC1_BASE + 0x4"
definition IC1_SRC0 :: u32 where [reg_defs]: "IC1_SRC0 = IC1_BASE + 0x8"
definition IC1_SRC1 :: u32 where [reg_defs]: "IC1_SRC1 = IC1_BASE + 0xc"
definition IC1_VADDR :: u32 where [reg_defs]: "IC1_VADDR = IC1_BASE + 0x30"
definition IC1_WAKEUP :: u32 where [reg_defs]: "IC1_WAKEUP = IC1_BASE + 0x34"
definition ARMCTRL_BASE :: u32 where [reg_defs]: "ARMCTRL_BASE = ARM_BASE + 0x000"
definition ARMCTRL_INTC_BASE :: u32 where [reg_defs]: "ARMCTRL_INTC_BASE = ARM_BASE + 0x200"
definition ARMCTRL_TIMER0_1_BASE :: u32 where [reg_defs]: "ARMCTRL_TIMER0_1_BASE = ARM_BASE + 0x400"
definition ARMCTRL_0_SBM_BASE :: u32 where [reg_defs]: "ARMCTRL_0_SBM_BASE = ARM_BASE + 0x800"
definition ARM0_MAILBOX_BASE :: u32 where [reg_defs]: "ARM0_MAILBOX_BASE = ARM_BASE + 0x0880"
definition ARM0_MAILBOX_READ :: u32 where [reg_defs]: "ARM0_MAILBOX_READ = ARM0_MAILBOX_BASE + 0x00"
definition ARM0_MAILBOX_PEEK :: u32 where [reg_defs]: "ARM0_MAILBOX_PEEK = ARM0_MAILBOX_BASE + 0x10"
definition ARM0_MAILBOX_CONFIG :: u32 where [reg_defs]: "ARM0_MAILBOX_CONFIG = ARM0_MAILBOX_BASE + 0x1C"
definition ARM0_MAILBOX_STATUS :: u32 where [reg_defs]: "ARM0_MAILBOX_STATUS = ARM0_MAILBOX_BASE + 0x18"
definition ARM0_MAILBOX_WRITE :: u32 where [reg_defs]: "ARM0_MAILBOX_WRITE = ARM0_MAILBOX_BASE + 0x20"
definition ARM_LOCAL_BASE :: u32 where [reg_defs]: "ARM_LOCAL_BASE = BCM_LOCAL_PERIPH_BASE_VIRT"

subsection \<open>Interrupt vectors\<close>

definition ARM_IRQ1_BASE :: u32 where [reg_defs]: "ARM_IRQ1_BASE = 0"
definition INTERRUPT_TIMER0 :: u32 where [reg_defs]: "INTERRUPT_TIMER0 = ARM_IRQ1_BASE + 0"
definition INTERRUPT_TIMER1 :: u32 where [reg_defs]: "INTERRUPT_TIMER1 = ARM_IRQ1_BASE + 1"
definition INTERRUPT_TIMER2 :: u32 where [reg_defs]: "INTERRUPT_TIMER2 = ARM_IRQ1_BASE + 2"
definition INTERRUPT_TIMER3 :: u32 where [reg_defs]: "INTERRUPT_TIMER3 = ARM_IRQ1_BASE + 3"
definition INTERRUPT_CODEC0 :: u32 where [reg_defs]: "INTERRUPT_CODEC0 = ARM_IRQ1_BASE + 4"
definition INTERRUPT_CODEC1 :: u32 where [reg_defs]: "INTERRUPT_CODEC1 = ARM_IRQ1_BASE + 5"
definition INTERRUPT_CODEC2 :: u32 where [reg_defs]: "INTERRUPT_CODEC2 = ARM_IRQ1_BASE + 6"
definition INTERRUPT_VC_JPEG :: u32 where [reg_defs]: "INTERRUPT_VC_JPEG = ARM_IRQ1_BASE + 7"
definition INTERRUPT_ISP :: u32 where [reg_defs]: "INTERRUPT_ISP = ARM_IRQ1_BASE + 8"
definition INTERRUPT_VC_USB :: u32 where [reg_defs]: "INTERRUPT_VC_USB = ARM_IRQ1_BASE + 9"
definition INTERRUPT_VC_3D :: u32 where [reg_defs]: "INTERRUPT_VC_3D = ARM_IRQ1_BASE + 10"
definition INTERRUPT_TRANSPOSER :: u32 where [reg_defs]: "INTERRUPT_TRANSPOSER = ARM_IRQ1_BASE + 11"
definition INTERRUPT_MULTICORESYNC0 :: u32 where [reg_defs]: "INTERRUPT_MULTICORESYNC0 = ARM_IRQ1_BASE + 12"
definition INTERRUPT_MULTICORESYNC1 :: u32 where [reg_defs]: "INTERRUPT_MULTICORESYNC1 = ARM_IRQ1_BASE + 13"
definition INTERRUPT_MULTICORESYNC2 :: u32 where [reg_defs]: "INTERRUPT_MULTICORESYNC2 = ARM_IRQ1_BASE + 14"
definition INTERRUPT_MULTICORESYNC3 :: u32 where [reg_defs]: "INTERRUPT_MULTICORESYNC3 = ARM_IRQ1_BASE + 15"
definition INTERRUPT_DMA0 :: u32 where [reg_defs]: "INTERRUPT_DMA0 = ARM_IRQ1_BASE + 16"
definition INTERRUPT_DMA1 :: u32 where [reg_defs]: "INTERRUPT_DMA1 = ARM_IRQ1_BASE + 17"
definition INTERRUPT_VC_DMA2 :: u32 where [reg_defs]: "INTERRUPT_VC_DMA2 = ARM_IRQ1_BASE + 18"
definition INTERRUPT_VC_DMA3 :: u32 where [reg_defs]: "INTERRUPT_VC_DMA3 = ARM_IRQ1_BASE + 19"
definition INTERRUPT_DMA4 :: u32 where [reg_defs]: "INTERRUPT_DMA4 = ARM_IRQ1_BASE + 20"
definition INTERRUPT_DMA5 :: u32 where [reg_defs]: "INTERRUPT_DMA5 = ARM_IRQ1_BASE + 21"
definition INTERRUPT_DMA6 :: u32 where [reg_defs]: "INTERRUPT_DMA6 = ARM_IRQ1_BASE + 22"
definition INTERRUPT_DMA7 :: u32 where [reg_defs]: "INTERRUPT_DMA7 = ARM_IRQ1_BASE + 23"
definition INTERRUPT_DMA8 :: u32 where [reg_defs]: "INTERRUPT_DMA8 = ARM_IRQ1_BASE + 24"
definition INTERRUPT_DMA9 :: u32 where [reg_defs]: "INTERRUPT_DMA9 = ARM_IRQ1_BASE + 25"
definition INTERRUPT_DMA10 :: u32 where [reg_defs]: "INTERRUPT_DMA10 = ARM_IRQ1_BASE + 26"
definition INTERRUPT_DMA11 :: u32 where [reg_defs]: "INTERRUPT_DMA11 = ARM_IRQ1_BASE + 27"
definition INTERRUPT_DMA12 :: u32 where [reg_defs]: "INTERRUPT_DMA12 = ARM_IRQ1_BASE + 28"
definition INTERRUPT_AUX :: u32 where [reg_defs]: "INTERRUPT_AUX = ARM_IRQ1_BASE + 29"
definition INTERRUPT_ARM :: u32 where [reg_defs]: "INTERRUPT_ARM = ARM_IRQ1_BASE + 30"
definition INTERRUPT_VPUDMA :: u32 where [reg_defs]: "INTERRUPT_VPUDMA = ARM_IRQ1_BASE + 31"
definition ARM_IRQ2_BASE :: u32 where [reg_defs]: "ARM_IRQ2_BASE = 32"
definition INTERRUPT_HOSTPORT :: u32 where [reg_defs]: "INTERRUPT_HOSTPORT = ARM_IRQ2_BASE + 0"
definition INTERRUPT_VIDEOSCALER :: u32 where [reg_defs]: "INTERRUPT_VIDEOSCALER = ARM_IRQ2_BASE + 1"
definition INTERRUPT_CCP2TX :: u32 where [reg_defs]: "INTERRUPT_CCP2TX = ARM_IRQ2_BASE + 2"
definition INTERRUPT_SDC :: u32 where [reg_defs]: "INTERRUPT_SDC = ARM_IRQ2_BASE + 3"
definition INTERRUPT_DSI0 :: u32 where [reg_defs]: "INTERRUPT_DSI0 = ARM_IRQ2_BASE + 4"
definition INTERRUPT_AVE :: u32 where [reg_defs]: "INTERRUPT_AVE = ARM_IRQ2_BASE + 5"
definition INTERRUPT_CAM0 :: u32 where [reg_defs]: "INTERRUPT_CAM0 = ARM_IRQ2_BASE + 6"
definition INTERRUPT_CAM1 :: u32 where [reg_defs]: "INTERRUPT_CAM1 = ARM_IRQ2_BASE + 7"
definition INTERRUPT_HDMI0 :: u32 where [reg_defs]: "INTERRUPT_HDMI0 = ARM_IRQ2_BASE + 8"
definition INTERRUPT_HDMI1 :: u32 where [reg_defs]: "INTERRUPT_HDMI1 = ARM_IRQ2_BASE + 9"
definition INTERRUPT_PIXELVALVE1 :: u32 where [reg_defs]: "INTERRUPT_PIXELVALVE1 = ARM_IRQ2_BASE + 10"
definition INTERRUPT_I2CSPISLV :: u32 where [reg_defs]: "INTERRUPT_I2CSPISLV = ARM_IRQ2_BASE + 11"
definition INTERRUPT_DSI1 :: u32 where [reg_defs]: "INTERRUPT_DSI1 = ARM_IRQ2_BASE + 12"
definition INTERRUPT_PWA0 :: u32 where [reg_defs]: "INTERRUPT_PWA0 = ARM_IRQ2_BASE + 13"
definition INTERRUPT_PWA1 :: u32 where [reg_defs]: "INTERRUPT_PWA1 = ARM_IRQ2_BASE + 14"
definition INTERRUPT_CPR :: u32 where [reg_defs]: "INTERRUPT_CPR = ARM_IRQ2_BASE + 15"
definition INTERRUPT_SMI :: u32 where [reg_defs]: "INTERRUPT_SMI = ARM_IRQ2_BASE + 16"
definition INTERRUPT_GPIO0 :: u32 where [reg_defs]: "INTERRUPT_GPIO0 = ARM_IRQ2_BASE + 17"
definition INTERRUPT_GPIO1 :: u32 where [reg_defs]: "INTERRUPT_GPIO1 = ARM_IRQ2_BASE + 18"
definition INTERRUPT_GPIO2 :: u32 where [reg_defs]: "INTERRUPT_GPIO2 = ARM_IRQ2_BASE + 19"
definition INTERRUPT_GPIO3 :: u32 where [reg_defs]: "INTERRUPT_GPIO3 = ARM_IRQ2_BASE + 20"
definition INTERRUPT_VC_I2C :: u32 where [reg_defs]: "INTERRUPT_VC_I2C = ARM_IRQ2_BASE + 21"
definition INTERRUPT_VC_SPI :: u32 where [reg_defs]: "INTERRUPT_VC_SPI = ARM_IRQ2_BASE + 22"
definition INTERRUPT_VC_I2SPCM :: u32 where [reg_defs]: "INTERRUPT_VC_I2SPCM = ARM_IRQ2_BASE + 23"
definition INTERRUPT_VC_SDIO :: u32 where [reg_defs]: "INTERRUPT_VC_SDIO = ARM_IRQ2_BASE + 24"
definition INTERRUPT_VC_UART :: u32 where [reg_defs]: "INTERRUPT_VC_UART = ARM_IRQ2_BASE + 25"
definition INTERRUPT_SLIMBUS :: u32 where [reg_defs]: "INTERRUPT_SLIMBUS = ARM_IRQ2_BASE + 26"
definition INTERRUPT_VEC :: u32 where [reg_defs]: "INTERRUPT_VEC = ARM_IRQ2_BASE + 27"
definition INTERRUPT_CPG :: u32 where [reg_defs]: "INTERRUPT_CPG = ARM_IRQ2_BASE + 28"
definition INTERRUPT_RNG :: u32 where [reg_defs]: "INTERRUPT_RNG = ARM_IRQ2_BASE + 29"
definition INTERRUPT_VC_ARASANSDIO :: u32 where [reg_defs]: "INTERRUPT_VC_ARASANSDIO = ARM_IRQ2_BASE + 30"
definition INTERRUPT_AVSPMON :: u32 where [reg_defs]: "INTERRUPT_AVSPMON = ARM_IRQ2_BASE + 31"
definition ARM_IRQ0_BASE :: u32 where [reg_defs]: "ARM_IRQ0_BASE = 64"
definition INTERRUPT_ARM_TIMER :: u32 where [reg_defs]: "INTERRUPT_ARM_TIMER = ARM_IRQ0_BASE + 0"
definition INTERRUPT_ARM_MAILBOX :: u32 where [reg_defs]: "INTERRUPT_ARM_MAILBOX = ARM_IRQ0_BASE + 1"
definition INTERRUPT_ARM_DOORBELL_0 :: u32 where [reg_defs]: "INTERRUPT_ARM_DOORBELL_0 = ARM_IRQ0_BASE + 2"
definition INTERRUPT_ARM_DOORBELL_1 :: u32 where [reg_defs]: "INTERRUPT_ARM_DOORBELL_1 = ARM_IRQ0_BASE + 3"
definition INTERRUPT_VPU0_HALTED :: u32 where [reg_defs]: "INTERRUPT_VPU0_HALTED = ARM_IRQ0_BASE + 4"
definition INTERRUPT_VPU1_HALTED :: u32 where [reg_defs]: "INTERRUPT_VPU1_HALTED = ARM_IRQ0_BASE + 5"
definition INTERRUPT_ILLEGAL_TYPE0 :: u32 where [reg_defs]: "INTERRUPT_ILLEGAL_TYPE0 = ARM_IRQ0_BASE + 6"
definition INTERRUPT_ILLEGAL_TYPE1 :: u32 where [reg_defs]: "INTERRUPT_ILLEGAL_TYPE1 = ARM_IRQ0_BASE + 7"
definition INTERRUPT_PENDING1 :: u32 where [reg_defs]: "INTERRUPT_PENDING1 = ARM_IRQ0_BASE + 8"
definition INTERRUPT_PENDING2 :: u32 where [reg_defs]: "INTERRUPT_PENDING2 = ARM_IRQ0_BASE + 9"
definition INTERRUPT_JPEG :: u32 where [reg_defs]: "INTERRUPT_JPEG = ARM_IRQ0_BASE + 10"
definition INTERRUPT_USB :: u32 where [reg_defs]: "INTERRUPT_USB = ARM_IRQ0_BASE + 11"
definition INTERRUPT_3D :: u32 where [reg_defs]: "INTERRUPT_3D = ARM_IRQ0_BASE + 12"
definition INTERRUPT_DMA2 :: u32 where [reg_defs]: "INTERRUPT_DMA2 = ARM_IRQ0_BASE + 13"
definition INTERRUPT_DMA3 :: u32 where [reg_defs]: "INTERRUPT_DMA3 = ARM_IRQ0_BASE + 14"
definition INTERRUPT_I2C :: u32 where [reg_defs]: "INTERRUPT_I2C = ARM_IRQ0_BASE + 15"
definition INTERRUPT_SPI :: u32 where [reg_defs]: "INTERRUPT_SPI = ARM_IRQ0_BASE + 16"
definition INTERRUPT_I2SPCM :: u32 where [reg_defs]: "INTERRUPT_I2SPCM = ARM_IRQ0_BASE + 17"
definition INTERRUPT_SDIO :: u32 where [reg_defs]: "INTERRUPT_SDIO = ARM_IRQ0_BASE + 18"
definition INTERRUPT_UART :: u32 where [reg_defs]: "INTERRUPT_UART = ARM_IRQ0_BASE + 19"
definition INTERRUPT_ARASANSDIO :: u32 where [reg_defs]: "INTERRUPT_ARASANSDIO = ARM_IRQ0_BASE + 20"
definition ARM_IRQ_LOCAL_BASE :: u32 where [reg_defs]: "ARM_IRQ_LOCAL_BASE = 96"
definition INTERRUPT_ARM_LOCAL_CNTPSIRQ :: u32 where [reg_defs]: "INTERRUPT_ARM_LOCAL_CNTPSIRQ = ARM_IRQ_LOCAL_BASE + 0"
definition INTERRUPT_ARM_LOCAL_CNTPNSIRQ :: u32 where [reg_defs]: "INTERRUPT_ARM_LOCAL_CNTPNSIRQ = ARM_IRQ_LOCAL_BASE + 1"
definition INTERRUPT_ARM_LOCAL_CNTHPIRQ :: u32 where [reg_defs]: "INTERRUPT_ARM_LOCAL_CNTHPIRQ = ARM_IRQ_LOCAL_BASE + 2"
definition INTERRUPT_ARM_LOCAL_CNTVIRQ :: u32 where [reg_defs]: "INTERRUPT_ARM_LOCAL_CNTVIRQ = ARM_IRQ_LOCAL_BASE + 3"
definition INTERRUPT_ARM_LOCAL_MAILBOX0 :: u32 where [reg_defs]: "INTERRUPT_ARM_LOCAL_MAILBOX0 = ARM_IRQ_LOCAL_BASE + 4"
definition INTERRUPT_ARM_LOCAL_MAILBOX1 :: u32 where [reg_defs]: "INTERRUPT_ARM_LOCAL_MAILBOX1 = ARM_IRQ_LOCAL_BASE + 5"
definition INTERRUPT_ARM_LOCAL_MAILBOX2 :: u32 where [reg_defs]: "INTERRUPT_ARM_LOCAL_MAILBOX2 = ARM_IRQ_LOCAL_BASE + 6"
definition INTERRUPT_ARM_LOCAL_MAILBOX3 :: u32 where [reg_defs]: "INTERRUPT_ARM_LOCAL_MAILBOX3 = ARM_IRQ_LOCAL_BASE + 7"
definition INTERRUPT_ARM_LOCAL_GPU_FAST :: u32 where [reg_defs]: "INTERRUPT_ARM_LOCAL_GPU_FAST = ARM_IRQ_LOCAL_BASE + 8"
definition INTERRUPT_ARM_LOCAL_PMU_FAST :: u32 where [reg_defs]: "INTERRUPT_ARM_LOCAL_PMU_FAST = ARM_IRQ_LOCAL_BASE + 9"
definition INTERRUPT_ARM_LOCAL_ZERO :: u32 where [reg_defs]: "INTERRUPT_ARM_LOCAL_ZERO = ARM_IRQ_LOCAL_BASE + 10"
definition INTERRUPT_ARM_LOCAL_TIMER :: u32 where [reg_defs]: "INTERRUPT_ARM_LOCAL_TIMER = ARM_IRQ_LOCAL_BASE + 11"
definition MAX_INT :: u32 where [reg_defs]: "MAX_INT = INTERRUPT_ARM_LOCAL_TIMER"

subsection \<open>GPIO registers\<close>

definition GPIO_GPFSEL0 :: u32 where [reg_defs]: "GPIO_GPFSEL0 = GPIO_BASE + 0x00"
definition GPIO_GPFSEL1 :: u32 where [reg_defs]: "GPIO_GPFSEL1 = GPIO_BASE + 0x04"
definition GPIO_GPFSEL2 :: u32 where [reg_defs]: "GPIO_GPFSEL2 = GPIO_BASE + 0x08"
definition GPIO_GPFSEL3 :: u32 where [reg_defs]: "GPIO_GPFSEL3 = GPIO_BASE + 0x0C"
definition GPIO_GPFSEL4 :: u32 where [reg_defs]: "GPIO_GPFSEL4 = GPIO_BASE + 0x10"
definition GPIO_GPFSEL5 :: u32 where [reg_defs]: "GPIO_GPFSEL5 = GPIO_BASE + 0x14"
definition GPIO_GPSET0 :: u32 where [reg_defs]: "GPIO_GPSET0 = GPIO_BASE + 0x1C"
definition GPIO_GPSET1 :: u32 where [reg_defs]: "GPIO_GPSET1 = GPIO_BASE + 0x20"
definition GPIO_GPCLR0 :: u32 where [reg_defs]: "GPIO_GPCLR0 = GPIO_BASE + 0x28"
definition GPIO_GPCLR1 :: u32 where [reg_defs]: "GPIO_GPCLR1 = GPIO_BASE + 0x2C"
definition GPIO_GPLEV0 :: u32 where [reg_defs]: "GPIO_GPLEV0 = GPIO_BASE + 0x34"
definition GPIO_GPLEV1 :: u32 where [reg_defs]: "GPIO_GPLEV1 = GPIO_BASE + 0x38"
definition GPIO_GPEDS0 :: u32 where [reg_defs]: "GPIO_GPEDS0 = GPIO_BASE + 0x40"
definition GPIO_GPEDS1 :: u32 where [reg_defs]: "GPIO_GPEDS1 = GPIO_BASE + 0x44"
definition GPIO_GPREN0 :: u32 where [reg_defs]: "GPIO_GPREN0 = GPIO_BASE + 0x4C"
definition GPIO_GPREN1 :: u32 where [reg_defs]: "GPIO_GPREN1 = GPIO_BASE + 0x50"
definition GPIO_GPFEN0 :: u32 where [reg_defs]: "GPIO_GPFEN0 = GPIO_BASE + 0x58"
definition GPIO_GPFEN1 :: u32 where [reg_defs]: "GPIO_GPFEN1 = GPIO_BASE + 0x5C"
definition GPIO_GPHEN0 :: u32 where [reg_defs]: "GPIO_GPHEN0 = GPIO_BASE + 0x64"
definition GPIO_GPHEN1 :: u32 where [reg_defs]: "GPIO_GPHEN1 = GPIO_BASE + 0x68"
definition GPIO_GPLEN0 :: u32 where [reg_defs]: "GPIO_GPLEN0 = GPIO_BASE + 0x70"
definition GPIO_GPLEN1 :: u32 where [reg_defs]: "GPIO_GPLEN1 = GPIO_BASE + 0x74"
definition GPIO_GPAREN0 :: u32 where [reg_defs]: "GPIO_GPAREN0 = GPIO_BASE + 0x7C"
definition GPIO_GPAREN1 :: u32 where [reg_defs]: "GPIO_GPAREN1 = GPIO_BASE + 0x80"
definition GPIO_GPAFEN0 :: u32 where [reg_defs]: "GPIO_GPAFEN0 = GPIO_BASE + 0x88"
definition GPIO_GPAFEN1 :: u32 where [reg_defs]: "GPIO_GPAFEN1 = GPIO_BASE + 0x8C"
definition GPIO_GPPUD :: u32 where [reg_defs]: "GPIO_GPPUD = GPIO_BASE + 0x94"
definition GPIO_GPPUDCLK0 :: u32 where [reg_defs]: "GPIO_GPPUDCLK0 = GPIO_BASE + 0x98"
definition GPIO_GPPUDCLK1 :: u32 where [reg_defs]: "GPIO_GPPUDCLK1 = GPIO_BASE + 0x9C"
definition GPIO_2711_PULL :: u32 where [reg_defs]: "GPIO_2711_PULL = GPIO_BASE + 0xe4"

subsection \<open>OTP registers\<close>

definition OTP_BOOTMODE :: u32 where [reg_defs]: "OTP_BOOTMODE = OTP_BASE + 0x00"
definition OTP_CONFIG :: u32 where [reg_defs]: "OTP_CONFIG = OTP_BASE + 0x04"
definition OTP_CTRL_LO :: u32 where [reg_defs]: "OTP_CTRL_LO = OTP_BASE + 0x08"
definition OTP_CTRL_HI :: u32 where [reg_defs]: "OTP_CTRL_HI = OTP_BASE + 0x0c"
definition OTP_STATUS :: u32 where [reg_defs]: "OTP_STATUS = OTP_BASE + 0x10"
definition OTP_BITSEL :: u32 where [reg_defs]: "OTP_BITSEL = OTP_BASE + 0x14"
definition OTP_DATA :: u32 where [reg_defs]: "OTP_DATA = OTP_BASE + 0x18"
definition OTP_ADDR :: u32 where [reg_defs]: "OTP_ADDR = OTP_BASE + 0x1c"
definition OTP_WRITE_DATA_READ :: u32 where [reg_defs]: "OTP_WRITE_DATA_READ = OTP_BASE + 0x20"
definition OTP_INIT_STATUS :: u32 where [reg_defs]: "OTP_INIT_STATUS = OTP_BASE + 0x24"

subsection \<open>Power manager\<close>

definition PM_BASE :: u32 where [reg_defs]: "PM_BASE = BCM_PERIPH_BASE_VIRT + 0x100000"
definition PM_PASSWORD :: u32 where [reg_defs]: "PM_PASSWORD = 0x5a000000"
definition PM_AUDIO :: u32 where [reg_defs]: "PM_AUDIO = PM_BASE + 0x004"
definition PM_RSTC :: u32 where [reg_defs]: "PM_RSTC = PM_BASE + 0x1c"
definition PM_RSTC_WRCFG_CLR :: u32 where [reg_defs]: "PM_RSTC_WRCFG_CLR = 0xffffffcf"
definition PM_RSTS :: u32 where [reg_defs]: "PM_RSTS = PM_BASE + 0x20"
definition PM_RSTS_HADPOR_SET :: u32 where [reg_defs]: "PM_RSTS_HADPOR_SET = 0x00001000"
definition PM_RSTS_HADSRH_SET :: u32 where [reg_defs]: "PM_RSTS_HADSRH_SET = 0x00000400"
definition PM_RSTS_HADSRF_SET :: u32 where [reg_defs]: "PM_RSTS_HADSRF_SET = 0x00000200"
definition PM_RSTS_HADSRQ_SET :: u32 where [reg_defs]: "PM_RSTS_HADSRQ_SET = 0x00000100"
definition PM_RSTS_HADWRH_SET :: u32 where [reg_defs]: "PM_RSTS_HADWRH_SET = 0x00000040"
definition PM_RSTS_HADWRF_SET :: u32 where [reg_defs]: "PM_RSTS_HADWRF_SET = 0x00000020"
definition PM_RSTS_HADWRQ_SET :: u32 where [reg_defs]: "PM_RSTS_HADWRQ_SET = 0x00000010"
definition PM_RSTS_HADDRH_SET :: u32 where [reg_defs]: "PM_RSTS_HADDRH_SET = 0x00000004"
definition PM_RSTS_HADDRF_SET :: u32 where [reg_defs]: "PM_RSTS_HADDRF_SET = 0x00000002"
definition PM_RSTS_HADDRQ_SET :: u32 where [reg_defs]: "PM_RSTS_HADDRQ_SET = 0x00000001"
definition PM_WDOG :: u32 where [reg_defs]: "PM_WDOG = PM_BASE + 0x24"
definition PM_WDOG_MASK :: u32 where [reg_defs]: "PM_WDOG_MASK = 0x00000fff"
definition PM_USB :: u32 where [reg_defs]: "PM_USB = PM_BASE + 0x5c"
definition PM_SMPS :: u32 where [reg_defs]: "PM_SMPS = PM_BASE + 0x6c"
definition PM_SPAREW :: u32 where [reg_defs]: "PM_SPAREW = PM_BASE + 0x74"
definition PM_IMAGE :: u32 where [reg_defs]: "PM_IMAGE = PM_BASE + 0x108"
definition PM_GRAFX :: u32 where [reg_defs]: "PM_GRAFX = PM_BASE + 0x10c"
definition PM_PROC :: u32 where [reg_defs]: "PM_PROC = PM_BASE + 0x110"
definition PM_ENABLE :: u32 where [reg_defs]: "PM_ENABLE = BV 12"
definition PM_V3DRSTN :: u32 where [reg_defs]: "PM_V3DRSTN = BV 6"
definition PM_ISFUNC :: u32 where [reg_defs]: "PM_ISFUNC = BV 5"
definition PM_MRDONE :: u32 where [reg_defs]: "PM_MRDONE = BV 4"
definition PM_MEMREP :: u32 where [reg_defs]: "PM_MEMREP = BV 3"
definition PM_ISPOW :: u32 where [reg_defs]: "PM_ISPOW = BV 2"
definition PM_POWOK :: u32 where [reg_defs]: "PM_POWOK = BV 1"
definition PM_POWUP :: u32 where [reg_defs]: "PM_POWUP = BV 0"

end
