(* ===== verification/Udelay.thy ===== *)
theory Udelay
  imports Machine Regs
begin

unbundle bit_operations_syntax

text \<open>
  Time: the busy wait of \<^verbatim>\<open>udelay.c\<close>, the time stamp of \<^verbatim>\<open>print_timestamp.c\<close>.
  The free-running microsecond counter is read at \<open>ST_CLO\<close>; it is 32 bits wide and wraps.
\<close>

subsection \<open>The code\<close>

definition udelay :: "u32 \<Rightarrow> ('r, unit) io" where
  "udelay t = do {
     tv \<leftarrow> rd ST_CLO;
     _ \<leftarrow> poll ST_CLO (\<lambda>clo. clo - tv > t);
     return ()
   }"

definition print_timestamp :: "('r, unit) io" where
  "print_timestamp = do {
     clock_lo \<leftarrow> rd ST_CLO;
     printf ''%3d.%06d '' [U (clock_lo div 1000000), U (clock_lo mod 1000000)]
   }"

subsection \<open>What a delay does\<close>

lemma run_udelay:
  assumes "running s"
  shows "run_state (udelay t) s =
    ((), snd (run_state (poll ST_CLO (\<lambda>clo. clo - cur s ST_CLO > t)) (log [Rd ST_CLO] s)))"
  using assms by (simp add: udelay_def split: prod.splits)

lemma udelay_effects [emit_intros]: "R (Rd ST_CLO) \<Longrightarrow> effects R (udelay t)"
  unfolding udelay_def by (intro emit_intros)

lemma udelay_inert [inert_intros]: "inert (udelay t)"
  unfolding udelay_def by (intro inert_intros)

lemma udelay_keeps [keep_intros]: "steady P \<Longrightarrow> keeps P (udelay t)"
  unfolding udelay_def Let_def by (intro keep_intros)

lemma print_timestamp_effects [emit_intros]:
  "R (Rd ST_CLO) \<Longrightarrow> (\<And>f xs. R (Print f xs)) \<Longrightarrow> effects R print_timestamp"
  unfolding print_timestamp_def by (intro emit_intros)

lemma print_timestamp_inert [inert_intros]: "inert print_timestamp"
  unfolding print_timestamp_def by (intro inert_intros)

text \<open>A delay that ends has read the counter until the elapsed count passed \<open>t\<close>.\<close>

lemma udelay_ends:
  assumes "running s" and "running (snd (run_state (udelay t) s))"
  obtains n where "snd (run_state (udelay t) s) = log (replicate (n + 2) (Rd ST_CLO)) s"
    and "t < answer s ST_CLO (Suc n) - answer s ST_CLO 0"
    and "\<And>i. i < n \<Longrightarrow> answer s ST_CLO (Suc i) - answer s ST_CLO 0 \<le> t"
proof -
  let ?s = "log [Rd ST_CLO] s" and ?c = "\<lambda>clo. clo - cur s ST_CLO > t"
  obtain v s' where run: "run_state (poll ST_CLO ?c) ?s = (v, s')" by fastforce
  then have s': "snd (run_state (udelay t) s) = s'"
    using assms(1) by (simp add: run_udelay)
  with assms have "running s'" by simp
  with run assms(1) obtain n where n: "?c v" "v = answer ?s ST_CLO n"
      "s' = log (replicate (Suc n) (Rd ST_CLO)) ?s" "\<And>i. i < n \<Longrightarrow> \<not> ?c (answer ?s ST_CLO i)"
    by (elim poll_running [rotated]) auto
  show thesis
  proof (rule that [of n])
    show "snd (run_state (udelay t) s) = log (replicate (n + 2) (Rd ST_CLO)) s"
      using s' n(3) by simp
    show "t < answer s ST_CLO (Suc n) - answer s ST_CLO 0"
      using n(1,2) by (simp add: answer_log1 answer_0)
    show "answer s ST_CLO (Suc i) - answer s ST_CLO 0 \<le> t" if "i < n" for i
      using n(4) [OF that] by (simp add: answer_log1 answer_0 not_less)
  qed
qed

text \<open>A delay of the largest argument never ends: no 32-bit difference exceeds it.\<close>

lemma udelay_max_hangs:
  assumes "running s"
  shows "status (snd (run_state (udelay (-1)) s)) = Hung"
proof -
  have "\<not> (answer (log [Rd ST_CLO] s) ST_CLO n - cur s ST_CLO > -1)" for n
    by (simp add: word_order.extremum not_less)
  then show ?thesis
    using assms poll_hangs [of "log [Rd ST_CLO] s" "\<lambda>clo. clo - cur s ST_CLO > -1" ST_CLO]
    by (simp add: run_udelay)
qed

subsection \<open>A counter that runs\<close>

text \<open>
  \<open>ticks s f step\<close>: consecutive reads of the counter give the low 32 bits of a microsecond
  clock \<open>f\<close> that goes on forever and advances by at most \<open>step\<close> between two reads.
\<close>

definition ticks :: "'r mach_scheme \<Rightarrow> (nat \<Rightarrow> nat) \<Rightarrow> nat \<Rightarrow> bool" where
  "ticks s f step \<longleftrightarrow>
     (\<forall>n. answer s ST_CLO n = of_nat (f n)) \<and>
     (\<forall>n. f n \<le> f (Suc n) \<and> f (Suc n) \<le> f n + step) \<and> (\<forall>b. \<exists>n. b < f n)"

lemma ticks_mono:
  assumes "ticks s f step" and "i \<le> j"
  shows "f i \<le> f j"
  using assms(1) unfolding ticks_def by (intro lift_Suc_mono_le [OF _ assms(2)]) blast

lemma unat_of_nat_diff:
  assumes "x \<le> y" and "y - x < 2 ^ 32"
  shows "unat (of_nat y - of_nat x :: u32) = y - x"
  using assms by (simp add: unat_of_nat flip: of_nat_diff)

text \<open>
  The delay lasts more than \<open>t\<close> and at most \<open>t + step\<close> microseconds of the real clock, also
  when the counter wraps meanwhile.
\<close>

lemma udelay_bounds:
  assumes "running s" and tick: "ticks s f step" and room: "unat t + step < 2 ^ 32"
  obtains n where "run_state (udelay t) s = ((), log (replicate (n + 2) (Rd ST_CLO)) s)"
    and "unat t < f (Suc n) - f 0" and "f (Suc n) - f 0 \<le> unat t + step"
proof -
  let ?late = "\<lambda>n. f 0 + unat t < f (Suc n)"
  obtain m where "f 0 + unat t < f m" using tick unfolding ticks_def by blast
  then have "?late m" using ticks_mono [OF tick, of m "Suc m"] by simp
  define n where "n = (LEAST n. ?late n)"
  have late: "?late n" unfolding n_def using \<open>?late m\<close> by (rule LeastI)
  have early: "\<not> ?late i" if "i < n" for i using that unfolding n_def by (rule not_less_Least)
  have upto: "f (Suc i) \<le> f 0 + unat t + step" if "i \<le> n" for i
  proof (cases i)
    case 0
    have "f (Suc 0) \<le> f 0 + step" using tick unfolding ticks_def by blast
    then show ?thesis using 0 by simp
  next
    case (Suc j)
    have "f (Suc i) \<le> f i + step" using tick unfolding ticks_def by blast
    moreover have "f i \<le> f 0 + unat t" using early [of j] that Suc by simp
    ultimately show ?thesis by simp
  qed
  have elapsed: "unat (answer s ST_CLO (Suc i) - answer s ST_CLO 0) = f (Suc i) - f 0"
    if "i \<le> n" for i
    using tick unat_of_nat_diff [of "f 0" "f (Suc i)"] upto [OF that] ticks_mono [OF tick, of 0 "Suc i"] room
    by (simp add: ticks_def)
  let ?s = "log [Rd ST_CLO] s" and ?c = "\<lambda>clo. clo - cur s ST_CLO > t"
  have "?c (answer ?s ST_CLO n)"
    using elapsed [of n] late by (simp add: word_less_nat_alt answer_log1 answer_0)
  moreover have "\<not> ?c (answer ?s ST_CLO i)" if "i < n" for i
    using elapsed [of i] early [OF that] that by (simp add: word_less_nat_alt answer_log1 answer_0)
  ultimately have "run_state (poll ST_CLO ?c) ?s =
      (answer ?s ST_CLO n, log (replicate (Suc n) (Rd ST_CLO)) ?s)"
    using assms(1) poll_returns [of ?s ?c ST_CLO n] by fastforce
  then have "run_state (udelay t) s = ((), log (replicate (n + 2) (Rd ST_CLO)) s)"
    using assms(1) by (simp add: run_udelay)
  with late upto [of n] show thesis by (intro that [of n]) auto
qed

subsection \<open>Delays return\<close>

text \<open>
  \<open>ticking d step\<close>: whatever happened before, the counter of \<open>d\<close> runs and advances by at most
  \<open>step\<close> between two reads.  On such a device a delay returns.
\<close>

definition ticking :: "device \<Rightarrow> nat \<Rightarrow> bool" where
  "ticking d step \<longleftrightarrow> (\<forall>h. \<exists>f. ticks \<lparr>dev = d, bus = h, status = Running, sr = 0\<rparr> f step)"

lemma ticking_ticks:
  assumes "ticking (dev s) step"
  obtains f where "ticks s f step"
proof -
  obtain f where "ticks \<lparr>dev = dev s, bus = bus s, status = Running, sr = 0\<rparr> f step"
    using assms unfolding ticking_def by blast
  then have "ticks s f step" by (simp add: ticks_def answer_def cur_def)
  then show thesis by (rule that)
qed

lemma udelay_returns [ends_intros]:
  assumes "ticking d step" and "unat t + step < 2 ^ 32"
  shows "ends d (udelay t)"
  unfolding ends_def
proof (intro allI impI)
  fix s :: "'r mach_scheme" assume s: "dev s = d" "running s"
  then obtain f where "ticks s f step" using ticking_ticks assms(1) by blast
  from udelay_bounds [OF s(2) this assms(2)] obtain n where
    "run_state (udelay t) s = ((), log (replicate (n + 2) (Rd ST_CLO)) s)" by blast
  then show "running (snd (run_state (udelay t) s)) \<and> dev (snd (run_state (udelay t) s)) = d"
    using s by (simp del: replicate_Suc)
qed

lemma emits_udelay: "emits [] (udelay t)"
  by (intro emits_quiet emit_intros) simp

text \<open>
  A clock that also runs while other registers are accessed: \<open>clk h\<close> is the time after the
  events \<open>h\<close>.  It never goes back, advances by at most \<open>step\<close> per access, and by at least one
  microsecond per read of the counter.
\<close>

definition clocked :: "device \<Rightarrow> (event list \<Rightarrow> nat) \<Rightarrow> nat \<Rightarrow> bool" where
  "clocked d clk step \<longleftrightarrow>
     (\<forall>h. d h ST_CLO = of_nat (clk h)) \<and>
     (\<forall>h e. clk h \<le> clk (h @ [e]) \<and> clk (h @ [e]) \<le> clk h + step) \<and>
     (\<forall>h. clk h < clk (h @ [Rd ST_CLO]))"

lemma clocked_ticking:
  assumes "clocked d clk step"
  shows "ticking d step"
  unfolding ticking_def
proof (intro allI exI)
  fix h
  let ?f = "\<lambda>n. clk (h @ replicate n (Rd ST_CLO))"
  have eq: "h @ replicate (Suc n) (Rd ST_CLO) = (h @ replicate n (Rd ST_CLO)) @ [Rd ST_CLO]" for n
    by (simp flip: replicate_append_same)
  have step: "?f n < ?f (Suc n) \<and> ?f (Suc n) \<le> ?f n + step" for n
    unfolding eq using assms unfolding clocked_def by blast
  have "n \<le> ?f n" for n by (induction n) (use step in \<open>auto simp: Suc_le_eq intro: le_less_trans\<close>)
  then have "\<exists>n. b < ?f n" for b by (intro exI, rule Suc_le_lessD)
  then show "ticks \<lparr>dev = d, bus = h, status = Running, sr = 0\<rparr> ?f step"
    using step assms unfolding ticks_def answer_def cur_def clocked_def
    by (auto simp: less_imp_le)
qed

text \<open>The device of the witnesses that wait: memory, and a counter that shows 1000 more at each read.\<close>

definition clock_dev :: "(u32 \<Rightarrow> u32) \<Rightarrow> device" where
  "clock_dev init h a =
     (if a = ST_CLO then 1000 * of_nat (length (filter (\<lambda>e. e = Rd ST_CLO) h)) else memory init h a)"

lemma ticking_clock_dev: "ticking (clock_dev init) 1000"
  unfolding ticking_def ticks_def
proof (intro allI exI conjI)
  fix h :: "event list" and n b :: nat
  let ?f = "\<lambda>n. 1000 * (length (filter (\<lambda>e. e = Rd ST_CLO) h) + n)"
  show "answer \<lparr>dev = clock_dev init, bus = h, status = Running, sr = 0\<rparr> ST_CLO n = of_nat (?f n)"
    by (simp add: answer_def cur_def clock_dev_def)
  show "?f n \<le> ?f (Suc n)" "?f (Suc n) \<le> ?f n + 1000" by simp_all
  show "b < ?f (Suc b)" by simp
qed

lemma clocked_clock_dev:
  "clocked (clock_dev init) (\<lambda>h. 1000 * length (filter (\<lambda>e. e = Rd ST_CLO) h)) 1000"
  by (simp add: clocked_def clock_dev_def)

lemma plain_clock_dev: "a \<noteq> ST_CLO \<Longrightarrow> plain_at (clock_dev init) a"
  by (simp add: plain_at_def clock_dev_def memory_def split: option.split)

subsection \<open>Properties\<close>

text \<open>C38.
  A delay of \<open>t\<close> microseconds lasts: when the counter is read at least every \<open>step\<close> microseconds,
  \<^verbatim>\<open>udelay(t)\<close> returns, after more than \<open>t\<close> and at most \<open>t + step\<close> microseconds of the real
  clock, also when the 32-bit counter wraps meanwhile, and does nothing but read the counter.
\<close>

theorem udelay_lasts:
  assumes "running s" and "ticks s f step" and "unat t + step < 2 ^ 32"
  shows "\<exists>n. run_state (udelay t) s = ((), log (replicate (n + 2) (Rd ST_CLO)) s) \<and>
    unat t < f (Suc n) - f 0 \<and> f (Suc n) - f 0 \<le> unat t + step"
  using udelay_bounds [OF assms] by blast

theorem udelay_lasts_witness:
  "\<exists>n. run_state (udelay 500) (boot (clock_dev (\<lambda>_. 0))) =
     ((), log (replicate (n + 2) (Rd ST_CLO)) (boot (clock_dev (\<lambda>_. 0))))"
proof -
  have "ticks (boot (clock_dev (\<lambda>_. 0))) (\<lambda>n. 1000 * n) 1000"
    unfolding ticks_def
  proof (intro allI conjI)
    show "\<exists>n. b < 1000 * n" for b :: nat by (rule exI [of _ "Suc b"]) simp
  qed (simp_all add: answer_def cur_def clock_dev_def)
  from udelay_lasts [OF _ this, of 500] show ?thesis by auto
qed

text \<open>The bound on the argument is needed: \<^verbatim>\<open>udelay(0xffffffff)\<close> never returns, whatever the counter
  does, because no 32-bit difference exceeds the argument.
\<close>

theorem udelay_max_never_returns:
  assumes "running s"
  shows "status (snd (run_state (udelay 0xffffffff) s)) = Hung"
proof -
  have "(0xffffffff :: u32) = -1" by simp
  then show ?thesis using udelay_max_hangs [OF assms] by (simp only:)
qed

theorem udelay_max_never_returns_witness:
  "status (snd (run_state (udelay 0xffffffff) (boot (clock_dev (\<lambda>_. 0))))) = Hung"
  by (rule udelay_max_never_returns) simp

end
