(* ===== verification/Vpu_Arch.thy ===== *)
theory Vpu_Arch
  imports Udelay
begin

unbundle bit_operations_syntax

text \<open>
  The VPU architecture layer (\<^verbatim>\<open>arch/vpu\<close>): interrupt masking and the spin lock on the status
  register (\<^verbatim>\<open>arch_ops.h\<close>, \<^verbatim>\<open>spinlock.h\<close>), the atomic addition of \<^verbatim>\<open>arch.c\<close>, the
  second core's start-up, and the initial stack of a thread (\<^verbatim>\<open>thread.c\<close>).
\<close>

subsection \<open>Interrupt masking\<close>

text \<open>Bit 30 of the status register: set by \<^verbatim>\<open>ei\<close>, cleared by \<^verbatim>\<open>di\<close>.\<close>

definition SR_INTS :: u32 where [reg_defs]: "SR_INTS = 0x40000000"

definition arch_enable_ints :: "('r, unit) io" where
  "arch_enable_ints = gset (\<lambda>s. s\<lparr>sr := sr s OR SR_INTS\<rparr>)"

definition arch_disable_ints :: "('r, unit) io" where
  "arch_disable_ints = gset (\<lambda>s. s\<lparr>sr := sr s AND NOT SR_INTS\<rparr>)"

definition arch_ints_disabled :: "('r, bool) io" where
  "arch_ints_disabled = gget (\<lambda>s. (sr s AND SR_INTS) = 0)"

definition SPIN_LOCK_STATE_RESTORE_IRQ :: u32 where [reg_defs]:
  "SPIN_LOCK_STATE_RESTORE_IRQ = 1"

definition arch_interrupt_save :: "('r, u32) io" where
  "arch_interrupt_save = do {
     off \<leftarrow> arch_ints_disabled;
     if \<not> off then do {
       arch_disable_ints;
       return SPIN_LOCK_STATE_RESTORE_IRQ
     } else return 0
   }"

definition arch_interrupt_restore :: "u32 \<Rightarrow> ('r, unit) io" where
  "arch_interrupt_restore old_state =
     when_io (old_state AND SPIN_LOCK_STATE_RESTORE_IRQ \<noteq> 0) arch_enable_ints"

definition ints_on :: "'r mach_scheme \<Rightarrow> bool" where
  "ints_on s \<longleftrightarrow> sr s AND SR_INTS \<noteq> 0"

lemma SR_INTS_BV: "SR_INTS = BV 30"
  by (simp add: reg_defs)

lemma and_SR_INTS_0: "x AND SR_INTS = 0 \<longleftrightarrow> \<not> bit x 30"
  by (simp add: SR_INTS_BV and_BV_0)

lemma bit_SR_INTS: "bit SR_INTS n \<longleftrightarrow> n = 30"
  by (simp add: SR_INTS_BV bit_BV)

lemma ints_on_bit: "ints_on s \<longleftrightarrow> bit (sr s) 30"
  by (simp add: ints_on_def and_SR_INTS_0)

lemma sr_on_off_id: "bit x 30 \<Longrightarrow> (x AND NOT SR_INTS) OR SR_INTS = x"
  by (auto intro!: bit_word_eqI simp: bit_simps bit_SR_INTS)

lemma sr_off_id: "\<not> bit x 30 \<Longrightarrow> x AND NOT SR_INTS = x"
  by (auto intro!: bit_word_eqI simp: bit_simps bit_SR_INTS)

text \<open>
  A critical section: \<open>save\<close>, a body that leaves the status register alone, \<open>restore\<close>.
  The body runs with interrupts off; afterwards the status register is what it was.
\<close>

definition critical :: "('r, 'a) io \<Rightarrow> ('r, 'a) io" where
  "critical m = do {
     state \<leftarrow> arch_interrupt_save;
     x \<leftarrow> m;
     arch_interrupt_restore state;
     return x
   }"

lemma run_critical:
  assumes "running s" and "running s'" and "sr s' = sr s AND NOT SR_INTS"
    and "run_state m (s\<lparr>sr := sr s AND NOT SR_INTS\<rparr>) = (x, s')"
  shows "run_state (critical m) s = (x, s'\<lparr>sr := sr s\<rparr>)"
proof (cases "bit (sr s) 30")
  case False
  with assms sr_off_id [OF False] show ?thesis
    by (simp add: critical_def arch_interrupt_save_def arch_ints_disabled_def and_SR_INTS_0
        arch_interrupt_restore_def)
next
  case True
  with assms sr_on_off_id [OF True] show ?thesis
    by (simp add: critical_def arch_interrupt_save_def arch_ints_disabled_def arch_disable_ints_def
        and_SR_INTS_0 arch_interrupt_restore_def arch_enable_ints_def SPIN_LOCK_STATE_RESTORE_IRQ_def)
qed

lemma critical_unit:
  "critical m = do { state \<leftarrow> arch_interrupt_save; m; arch_interrupt_restore state }"
proof (rule state_ext)
  fix s
  show "run_state (critical m) s =
      run_state (do { state \<leftarrow> arch_interrupt_save; m; arch_interrupt_restore state }) s"
    by (simp add: critical_def split: prod.splits)
qed

lemma arch_ints_effects [emit_intros]:
  "effects R arch_enable_ints" "effects R arch_disable_ints" "effects R arch_ints_disabled"
  "effects R arch_interrupt_save" "effects R (arch_interrupt_restore x)"
  unfolding arch_interrupt_save_def arch_interrupt_restore_def arch_enable_ints_def
    arch_disable_ints_def arch_ints_disabled_def
  by (intro emit_intros; simp)+

lemma arch_ints_inert [inert_intros]:
  "inert arch_enable_ints" "inert arch_disable_ints" "inert arch_ints_disabled"
  "inert arch_interrupt_save" "inert (arch_interrupt_restore x)"
  unfolding arch_interrupt_save_def arch_interrupt_restore_def arch_enable_ints_def
    arch_disable_ints_def arch_ints_disabled_def
  by (intro inert_intros)+

text \<open>
  What LK's portable code relies on, whichever architecture it is built for: \<open>irqsave\<close> changes
  nothing but the interrupt state, and \<open>irqrestore\<close> puts that back.
\<close>

locale lk_irqsave =
  fixes save :: "('r, u32) io" and restore :: "u32 \<Rightarrow> ('r, unit) io" and off :: "u32 \<Rightarrow> u32"
  assumes save_ok: "running s \<Longrightarrow> \<exists>st. run_state save s = (st, s\<lparr>sr := off (sr s)\<rparr>) \<and>
      (\<forall>s'. running s' \<longrightarrow> sr s' = off (sr s) \<longrightarrow> run_state (restore st) s' = ((), s'\<lparr>sr := sr s\<rparr>))"
begin

text \<open>A critical section whose body leaves the interrupt state alone.\<close>

lemma critical_section:
  assumes "running s" "run_state m (s\<lparr>sr := off (sr s)\<rparr>) = (x, s')" "running s'" "sr s' = off (sr s)"
  shows "run_state (do { st \<leftarrow> save; _ \<leftarrow> m; restore st }) s = ((), s'\<lparr>sr := sr s\<rparr>)"
proof -
  obtain st where "run_state save s = (st, s\<lparr>sr := off (sr s)\<rparr>)"
    "\<forall>s'. running s' \<longrightarrow> sr s' = off (sr s) \<longrightarrow> run_state (restore st) s' = ((), s'\<lparr>sr := sr s\<rparr>)"
    using save_ok [OF assms(1)] by blast
  with assms(2-4) show ?thesis by simp
qed

end

interpretation vpu_lock: lk_irqsave arch_interrupt_save arch_interrupt_restore "\<lambda>x. x AND NOT SR_INTS"
proof
  fix s :: "'r mach_scheme" assume r: "running s"
  show "\<exists>st. run_state arch_interrupt_save s = (st, s\<lparr>sr := sr s AND NOT SR_INTS\<rparr>) \<and>
      (\<forall>s'. running s' \<longrightarrow> sr s' = sr s AND NOT SR_INTS \<longrightarrow>
        run_state (arch_interrupt_restore st) s' = ((), s'\<lparr>sr := sr s\<rparr>))"
  proof (cases "bit (sr s) 30")
    case False
    with r sr_off_id [OF False] show ?thesis
      by (simp add: arch_interrupt_save_def arch_ints_disabled_def and_SR_INTS_0
          arch_interrupt_restore_def)
  next
    case True
    with r sr_on_off_id [OF True] show ?thesis
      by (simp add: arch_interrupt_save_def arch_ints_disabled_def arch_disable_ints_def
          and_SR_INTS_0 arch_interrupt_restore_def arch_enable_ints_def SPIN_LOCK_STATE_RESTORE_IRQ_def)
  qed
qed

subsection \<open>Spin locks and atomics\<close>

text \<open>
  A lock word lives in memory at an address; the build is single-core, so locking is a store.
\<close>

definition arch_spin_lock :: "u32 \<Rightarrow> ('r, unit) io" where
  "arch_spin_lock lock = wr lock 1"

definition arch_spin_trylock :: "u32 \<Rightarrow> ('r, int) io" where
  "arch_spin_trylock lock = return 0"

definition arch_spin_unlock :: "u32 \<Rightarrow> ('r, unit) io" where
  "arch_spin_unlock lock = wr lock 0"

definition SPIN_LOCK_INITIAL_VALUE :: u32 where "SPIN_LOCK_INITIAL_VALUE = 0"

definition arch_spin_lock_init :: "u32 \<Rightarrow> ('r, unit) io" where
  "arch_spin_lock_init lock = wr lock SPIN_LOCK_INITIAL_VALUE"

definition arch_spin_lock_held :: "u32 \<Rightarrow> ('r, bool) io" where
  "arch_spin_lock_held lock = do { v \<leftarrow> rd lock; return (v \<noteq> 0) }"

definition atomic_fetch_add_4 :: "u32 \<Rightarrow> u32 \<Rightarrow> ('r, u32) io" where
  "atomic_fetch_add_4 ptr val = do {
     state \<leftarrow> arch_interrupt_save;
     old \<leftarrow> rd ptr;
     x \<leftarrow> rd ptr;
     wr ptr (x + val);
     arch_interrupt_restore state;
     return old
   }"

lemma atomic_fetch_add_critical:
  "atomic_fetch_add_4 ptr val =
     critical (do { old \<leftarrow> rd ptr; x \<leftarrow> rd ptr; wr ptr (x + val); return old })"
  by (simp add: atomic_fetch_add_4_def critical_def)

lemma run_atomic_fetch_add:
  assumes "running s" and "plain_at (dev s) ptr"
  shows "run_state (atomic_fetch_add_4 ptr val) s =
    (cur s ptr, log [Rd ptr, Rd ptr, Wr ptr (cur s ptr + val)] s)"
proof -
  let ?s = "s\<lparr>sr := sr s AND NOT SR_INTS\<rparr>"
  have "run_state (do { old \<leftarrow> rd ptr; x \<leftarrow> rd ptr; wr ptr (x + val); return old }) ?s =
      (cur s ptr, log [Rd ptr, Rd ptr, Wr ptr (cur s ptr + val)] ?s)"
    using assms plain_cur_log [of s ptr "[Rd ptr]"] by (simp add: cur_def log_def)
  from run_critical [OF assms(1) _ _ this] assms(1) show ?thesis
    by (simp add: atomic_fetch_add_critical log_def)
qed

subsection \<open>Threads\<close>

text \<open>
  The fields of LK's \<^verbatim>\<open>thread_t\<close> the architecture uses.  The initial stack of a thread is what
  \<^verbatim>\<open>vc4_context_switch\<close> (\<^verbatim>\<open>thread_asm.S\<close>) restores: \<open>r16\<close>-\<open>r23\<close>, \<open>r6\<close>-\<open>r15\<close>, then the link
  register, upwards from the stack pointer.
\<close>

record thread =
  t_stack :: u32
  t_stack_size :: u32
  arch_sp :: u32
  arch_sr :: u32

definition push :: "thread \<Rightarrow> u32 \<Rightarrow> ('r, thread) io" where
  "push t val = do {
     let t' = t\<lparr>arch_sp := arch_sp t - 4\<rparr>;
     wr (4 * (arch_sp t' div 4)) val;
     return t'
   }"

primrec push_zeros :: "nat \<Rightarrow> thread \<Rightarrow> ('r, thread) io" where
  "push_zeros 0 t = return t"
| "push_zeros (Suc n) t = do { t' \<leftarrow> push t 0; push_zeros n t' }"

text \<open>The argument is the address of \<^verbatim>\<open>initial_thread_func\<close>; the loop runs for \<open>r6\<close> to \<open>r23\<close>.\<close>

definition arch_thread_initialize :: "u32 \<Rightarrow> thread \<Rightarrow> ('r, thread) io" where
  "arch_thread_initialize initial_thread_func t = do {
     let t1 = t\<lparr>arch_sp := (t_stack t + t_stack_size t) - 4\<rparr>;
     r \<leftarrow> gget sr;
     let t2 = t1\<lparr>arch_sr := r AND NOT 0x40000000\<rparr>;
     t3 \<leftarrow> push t2 initial_thread_func;
     push_zeros (length [6..<24]) t3
   }"

text \<open>The stack below a thread: \<open>n\<close> zero words below \<open>sp\<close>.\<close>

lemma run_push_zeros:
  assumes "running s" and "arch_sp t AND 3 = 0"
  shows "run_state (push_zeros n t) s =
    (t\<lparr>arch_sp := arch_sp t - 4 * of_nat n\<rparr>,
     log (map (\<lambda>i. Wr (arch_sp t - 4 * of_nat (Suc i)) 0) [0..<n]) s)"
  using assms
proof (induction n arbitrary: s t)
  case (Suc n)
  let ?t = "t\<lparr>arch_sp := arch_sp t - 4\<rparr>"
  have al: "(arch_sp t - 4) AND 3 = 0"
    using Suc.prems(2) by (rule aligned_sub4)
  have "[0..<Suc n] = 0 # map Suc [0..<n]" by (simp add: upt_conv_Cons map_Suc_upt)
  then show ?case
    using Suc.IH [of "log [Wr (arch_sp t - 4) 0] s" ?t] Suc.prems al
    by (simp add: push_def word4_aligned algebra_simps comp_def)
qed simp

lemma run_push:
  "running s \<Longrightarrow> arch_sp t AND 3 = 0 \<Longrightarrow>
   run_state (push t v) s = (t\<lparr>arch_sp := arch_sp t - 4\<rparr>, log [Wr (arch_sp t - 4) v] s)"
  using word4_aligned [OF aligned_sub4 [of "arch_sp t"]] by (simp add: push_def)

lemma run_arch_thread_initialize:
  fixes t :: thread
  defines "base \<equiv> t_stack t + t_stack_size t - 4"
  assumes "running s" and "base AND 3 = 0"
  shows "run_state (arch_thread_initialize entry t) s =
    (t\<lparr>arch_sp := base - 76, arch_sr := sr s AND NOT SR_INTS\<rparr>,
     log (Wr (base - 4) entry # map (\<lambda>i. Wr (base - 8 - 4 * of_nat i) 0) [0..<18]) s)"
proof -
  let ?t2 = "t\<lparr>arch_sp := base, arch_sr := sr s AND NOT SR_INTS\<rparr>"
  let ?t3 = "?t2\<lparr>arch_sp := base - 4\<rparr>"
  have al: "(base - 4) AND 3 = 0" using assms(3) by (rule aligned_sub4)
  have z: "run_state (push_zeros 18 ?t3) (log [Wr (base - 4) entry] s) =
      (?t3\<lparr>arch_sp := base - 4 - 4 * of_nat 18\<rparr>,
       log (map (\<lambda>i. Wr (base - 4 - 4 * of_nat (Suc i)) 0) [0..<18]) (log [Wr (base - 4) entry] s))"
    using run_push_zeros [of "log [Wr (base - 4) entry] s" ?t3 18] assms(2) al by simp
  have len: "length [6..<24] = (18 :: nat)" by simp
  have "run_state (arch_thread_initialize entry t) s =
      run_state (push_zeros 18 ?t3) (log [Wr (base - 4) entry] s)"
    unfolding arch_thread_initialize_def len
    using assms(2,3) run_push [of s ?t2 entry] by (simp add: base_def SR_INTS_def)
  then show ?thesis
    unfolding z by (simp add: algebra_simps)
qed

text \<open>The word the context switch finds at offset \<open>4 i\<close> from the saved stack pointer.\<close>

definition frame_word :: "'r mach_scheme \<Rightarrow> thread \<Rightarrow> nat \<Rightarrow> u32" where
  "frame_word s t i = cur s (arch_sp t + 4 * of_nat i)"

lemma frame_offsets: "i < 18 \<Longrightarrow> base - 4 \<noteq> base - 8 - 4 * of_nat i" for base :: u32
proof
  assume i: "i < 18" and "base - 4 = base - 8 - 4 * of_nat i"
  then have "(of_nat (4 + 4 * i) :: u32) = 0" by (simp add: algebra_simps)
  moreover have "unat (of_nat (4 + 4 * i) :: u32) = 4 + 4 * i"
    using i by (simp only: unat_of_nat) simp
  ultimately show False by simp
qed

subsection \<open>The second core\<close>

text \<open>
  \<^verbatim>\<open>cmd_boot_other_core\<close>: publish the stack top, wake the core at \<open>core2_start\<close>, watch the
  counter \<open>foo\<close>.  The arguments are the addresses of \<open>core2_stack\<close> (512 bytes),
  \<open>core2_stack_top\<close>, \<open>core2_start\<close> and \<open>foo\<close>.
\<close>

definition cmd_boot_other_core :: "u32 \<Rightarrow> u32 \<Rightarrow> u32 \<Rightarrow> u32 \<Rightarrow> ('r, int) io" where
  "cmd_boot_other_core core2_stack core2_stack_top core2_start foo = do {
     wr core2_stack_top ((core2_stack + 512) - 4);
     wr IC1_WAKEUP core2_start;
     for_each [0..<20] (\<lambda>i. do {
       udelay 2;
       v \<leftarrow> rd foo;
       printf ''%d %d'' [I (int i), U v]
     });
     return 0
   }"

definition core2_entry :: "u32 \<Rightarrow> ('r, unit) io" where
  "core2_entry foo = do {
     printf ''core2 says hello'' [];
     for_each [0..<300] (\<lambda>i. do {
       udelay 1;
       wr foo (of_nat i)
     });
     spin_forever
   }"

subsection \<open>Properties\<close>

text \<open>A new thread's stack is the frame the context switch restores.  After
  \<^verbatim>\<open>arch_thread_initialize\<close> the saved stack pointer is 19 words below the initial top; seen
  from it, the 18 words for \<open>r16\<close>-\<open>r23\<close>, \<open>r6\<close>-\<open>r15\<close> are zero and the next, the link register,
  is the thread's entry point.  The saved status register has interrupts off, and the running
  processor's own status register is unchanged.
\<close>

theorem thread_initial_frame:
  assumes "running s" and mem: "\<And>a. plain_at (dev s) a"
    and al: "(t_stack t + t_stack_size t - 4) AND 3 = 0"
    and run: "run_state (arch_thread_initialize entry t) s = (t', s')"
  shows "arch_sp t' = t_stack t + t_stack_size t - 80 \<and>
    (\<forall>i < 18. frame_word s' t' i = 0) \<and> frame_word s' t' 18 = entry \<and>
    \<not> bit (arch_sr t') 30 \<and> sr s' = sr s"
proof -
  define base where "base = t_stack t + t_stack_size t - 4"
  let ?ws = "map (\<lambda>i. Wr (base - 8 - 4 * of_nat i) 0) [0..<18]"
  have eq: "t' = t\<lparr>arch_sp := base - 76, arch_sr := sr s AND NOT SR_INTS\<rparr>"
      "s' = log (Wr (base - 4) entry # ?ws) s"
    using run_arch_thread_initialize [OF assms(1), of t entry] al run
    by (simp_all add: base_def del: upt_Suc)
  have lw: "last_write a (Wr (base - 4) entry # ?ws) =
      (if a \<in> (\<lambda>i. base - 8 - 4 * of_nat i) ` {0..<18} then Some 0
       else if a = base - 4 then Some entry else None)" for a
    by (simp only: last_write.simps last_write_map_const set_upt) simp
  have zeros: "\<forall>i < 18. frame_word s' t' i = 0"
  proof (intro allI impI)
    fix i :: nat assume "i < 18"
    then have "17 - i \<in> {0..<18}" and "arch_sp t' + 4 * of_nat i = base - 8 - 4 * of_nat (17 - i)"
      by (auto simp: eq of_nat_diff algebra_simps)
    then have "arch_sp t' + 4 * of_nat i \<in> (\<lambda>i. base - 8 - 4 * of_nat i) ` {0..<18}" by blast
    then show "frame_word s' t' i = 0"
      by (simp add: frame_word_def eq(2) plain_cur_log [OF mem] lw del: last_write.simps)
  qed
  have "base - 4 \<notin> (\<lambda>i. base - 8 - 4 * of_nat i) ` {0..<18}"
    using frame_offsets [of _ base] by auto
  moreover have "arch_sp t' + 4 * of_nat 18 = base - 4" by (simp add: eq)
  ultimately have lr: "frame_word s' t' 18 = entry"
    by (simp add: frame_word_def eq(2) plain_cur_log [OF mem] lw del: last_write.simps of_nat_numeral)
  show ?thesis
    using zeros lr by (simp add: eq base_def bit_simps bit_SR_INTS)
qed

definition demo_thread :: thread where
  "demo_thread = \<lparr>t_stack = 0xc0001000, t_stack_size = 8192, arch_sp = 0, arch_sr = 0\<rparr>"

theorem thread_initial_frame_witness:
  "\<exists>t' s'. run_state (arch_thread_initialize 0xc0002345 demo_thread) (boot (memory (\<lambda>_. 7))) = (t', s')
     \<and> arch_sp t' = 0xc0002fb0 \<and> frame_word s' t' 0 = 0 \<and> frame_word s' t' 18 = 0xc0002345"
proof -
  let ?s = "boot (memory (\<lambda>_. 7))"
  obtain t' s' where run: "run_state (arch_thread_initialize 0xc0002345 demo_thread) ?s = (t', s')"
    by fastforce
  have "running ?s" "\<And>a. plain_at (dev ?s) a"
    "(t_stack demo_thread + t_stack_size demo_thread - 4) AND 3 = 0"
    by (simp_all add: plain_memory demo_thread_def)
  from thread_initial_frame [OF this run] run show ?thesis
    by (auto simp: demo_thread_def)
qed

text \<open>The atomic addition returns the old value, stores the sum modulo \<open>2^32\<close>, makes exactly one
  store, and leaves the interrupt state as it found it, whether interrupts were on or off.
\<close>

theorem atomic_fetch_add_correct:
  assumes "running s" and "plain_at (dev s) ptr"
    and "run_state (atomic_fetch_add_4 ptr val) s = (old, s')"
  shows "old = cur s ptr \<and> cur s' ptr = old + val \<and> sr s' = sr s \<and>
    filter (\<lambda>e. \<exists>a v. e = Wr a v) (bus s') =
      filter (\<lambda>e. \<exists>a v. e = Wr a v) (bus s) @ [Wr ptr (old + val)]"
  using run_atomic_fetch_add [OF assms(1,2), of val] assms(3) plain_cur_log [OF assms(2)]
  by auto

theorem atomic_fetch_add_correct_witness:
  "\<exists>old s'. run_state (atomic_fetch_add_4 0xc0000100 5) (boot (memory (\<lambda>_. 0xfffffffe))) = (old, s')
     \<and> old = 0xfffffffe \<and> cur s' 0xc0000100 = 3"
proof -
  let ?s = "boot (memory (\<lambda>_. 0xfffffffe))"
  obtain old s' where run: "run_state (atomic_fetch_add_4 0xc0000100 5) ?s = (old, s')" by fastforce
  have "running ?s" "plain_at (dev ?s) 0xc0000100" by (simp_all add: plain_memory)
  from atomic_fetch_add_correct [OF this run] run show ?thesis
    by (auto simp: cur_def memory_def)
qed

end
