(* ===== verification/Vpu_Intc.thy ===== *)
theory Vpu_Intc
  imports Vpu_Arch
begin

unbundle bit_operations_syntax

text \<open>
  The VPU interrupt controller and exception dispatch (\<^verbatim>\<open>arch/vpu/intc.c\<close>), and the interface
  every driver that takes interrupts relies on: a driver registers a handler for a vector and
  unmasks the vector.

  Code pointers are addresses: a handler is the address of a function, \<open>0\<close> is \<^verbatim>\<open>NULL\<close>, and what
  a call through a pointer does is an argument of the dispatcher.
\<close>

subsection \<open>State\<close>

text \<open>
  \<^verbatim>\<open>irq_handlers[64]\<close> as two arrays, and \<^verbatim>\<open>vectorTable[128]\<close>.  The register file is here because the
  set-up writes \<open>r28\<close>.
\<close>

record irq_mach = mach +
  core_r :: "nat \<Rightarrow> u32"       \<comment> \<open>\<open>r0\<close> to \<open>r29\<close>\<close>
  irq_h :: "u32 list"
  irq_arg :: "u32 list"
  vectorTable :: "u32 list"

type_synonym ('r, 'a) irq_io = "('r irq_mach_ext, 'a) io"

text \<open>Every array has its declared size.\<close>

definition irq_wf :: "'r irq_mach_scheme \<Rightarrow> bool" where
  "irq_wf s \<longleftrightarrow> length (irq_h s) = 64 \<and> length (irq_arg s) = 64 \<and> length (vectorTable s) = 128"

subsection \<open>Masking\<close>

definition set_interrupt :: "int \<Rightarrow> bool \<Rightarrow> int \<Rightarrow> ('r, unit) io" where
  "set_interrupt intno enable core = do {
     let base = (if core = 0 then IC0_BASE else IC1_BASE);
     let offset = of_int (0x10 + (intno div 8) * 4);
     let slot = push_bit (nat (intno mod 8 * 4)) 0xF;
     x \<leftarrow> rd (base + offset);
     let v = x AND NOT slot;
     wr (base + offset) (if enable then v OR slot else v)
   }"

text \<open>The store to \<^verbatim>\<open>irq_handlers[vector]\<close>: outside the array, the model stops.\<close>

definition set_handler :: "u32 \<Rightarrow> u32 \<Rightarrow> u32 \<Rightarrow> ('r, unit) irq_io" where
  "set_handler vector handler a =
     (if vector \<ge> 64 then panic ''irq_handlers index''
      else do {
        gset (\<lambda>s. s\<lparr>irq_h := (irq_h s)[unat vector := handler]\<rparr>);
        gset (\<lambda>s. s\<lparr>irq_arg := (irq_arg s)[unat vector := a]\<rparr>)
      })"

definition register_int_handler :: "u32 \<Rightarrow> u32 \<Rightarrow> u32 \<Rightarrow> ('r, unit) irq_io" where
  "register_int_handler vector handler a = do {
     assert_that ''vector < 64'' (vector < 64);
     state \<leftarrow> arch_interrupt_save;
     set_handler vector handler a;
     arch_interrupt_restore state
   }"

definition unmask_interrupt :: "u32 \<Rightarrow> ('r, status_t) io" where
  "unmask_interrupt vector = do {
     assert_that ''vector < 64'' (vector < 64);
     set_interrupt (uint vector) True 0;
     return NO_ERROR
   }"

subsection \<open>The vector table\<close>

text \<open>The first-level handlers of \<^verbatim>\<open>interrupt.S\<close>; the linker assigns their addresses.\<close>

datatype fleh = Fleh_zero | Fleh_misaligned | Fleh_dividebyzero | Fleh_undefinedinstruction
  | Fleh_forbiddeninstruction | Fleh_illegalmemory | Fleh_buserror | Fleh_floatingpoint
  | Fleh_isp | Fleh_dummy | Fleh_icache | Fleh_veccore | Fleh_badl2alias | Fleh_breakpoint
  | Fleh_unknown | Fleh_swi | Fleh_irq

definition exceptions :: "fleh list" where
  "exceptions = [Fleh_zero, Fleh_misaligned, Fleh_dividebyzero, Fleh_undefinedinstruction,
     Fleh_forbiddeninstruction, Fleh_illegalmemory, Fleh_buserror, Fleh_floatingpoint,
     Fleh_isp, Fleh_dummy, Fleh_icache, Fleh_veccore, Fleh_badl2alias, Fleh_breakpoint]"

definition set_vector :: "nat \<Rightarrow> u32 \<Rightarrow> ('r, unit) irq_io" where
  "set_vector i a = gset (\<lambda>s. s\<lparr>vectorTable := (vectorTable s)[i := a]\<rparr>)"

text \<open>
  \<open>addr\<close> is the linker's assignment, \<open>vt\<close> and \<open>irq_stack0\<close> the addresses of the two arrays.
\<close>

definition intc_init :: "(fleh \<Rightarrow> u32) \<Rightarrow> u32 \<Rightarrow> u32 \<Rightarrow> ('r, unit) irq_io" where
  "intc_init addr vt irq_stack0 = do {
     for_each [0..<64] (\<lambda>i. gset (\<lambda>s. s\<lparr>irq_h := (irq_h s)[0 := 0]\<rparr>));
     for_each [0..<8] (\<lambda>i. wr (IC0_BASE + 0x10 + 4 * of_nat i) 0);
     for_each [0..<8] (\<lambda>i. wr (IC1_BASE + 0x10 + 4 * of_nat i) 0);
     for_each [0..<14] (\<lambda>i. set_vector i (addr (exceptions ! i)));
     for_each [14..<32] (\<lambda>i. set_vector i (addr Fleh_unknown));
     for_each [32..<64] (\<lambda>i. set_vector i (addr Fleh_swi));
     for_each [64..<128] (\<lambda>i. set_vector i (addr Fleh_irq OR 1));
     let irq_sp = (irq_stack0 + 1024) - 4;
     gset (\<lambda>s. s\<lparr>core_r := (core_r s)(28 := irq_sp)\<rparr>);
     wr IC0_VADDR vt;
     wr IC1_VADDR vt;
     x \<leftarrow> rd IC0_VADDR;
     when_io (x \<noteq> vt) (do {
       y \<leftarrow> rd IC0_VADDR;
       printf ''vector table now at 0x%08x 0x%08x'' [U y, U vt];
       panic ''vector table failed to install''
     })
   }"

subsection \<open>Exceptions\<close>

text \<open>\<^verbatim>\<open>vc4_saved_state_t\<close>, the frame the first-level handlers push.\<close>

record vc4_saved_state =
  r23 :: u32 r22 :: u32 r21 :: u32 r20 :: u32 r19 :: u32 r18 :: u32 r17 :: u32 r16 :: u32
  r15 :: u32 r14 :: u32 r13 :: u32 r12 :: u32 r11 :: u32 r10 :: u32 r9 :: u32 r8 :: u32
  r7 :: u32 r6 :: u32 r5 :: u32 r4 :: u32 r3 :: u32 r2 :: u32 r1 :: u32 r0 :: u32
  lr :: u32 saved_sr :: u32 pc :: u32

definition register_format_string :: "string \<Rightarrow> string" where
  "register_format_string p =
     p @ ''  r0: 0x%08x  r1: 0x%08x  r2: 0x%08x  r3: 0x%08x'' @
     p @ ''  r4: 0x%08x  r5: 0x%08x  r6: 0x%08x  r7: 0x%08x'' @
     p @ ''  r8: 0x%08x  r9: 0x%08x r10: 0x%08x r11: 0x%08x'' @
     p @ '' r12: 0x%08x r13: 0x%08x r14: 0x%08x r15: 0x%08x'' @
     p @ ''  pc: 0x%08x  lr: 0x%08x  sr: 0x%08x''"

definition print_vpu_state :: "vc4_saved_state \<Rightarrow> ('r, unit) io" where
  "print_vpu_state pcb = do {
     printf ''VPU registers:'' [];
     printf (register_format_string ''   '')
       (map U [r0 pcb, r1 pcb, r2 pcb, r3 pcb, r4 pcb, r5 pcb, r6 pcb, r7 pcb, r8 pcb, r9 pcb,
          r10 pcb, r11 pcb, r12 pcb, r13 pcb, r14 pcb, r15 pcb, pc pcb, lr pcb, saved_sr pcb]);
     printf ''Exception info (IC0):'' [];
     a \<leftarrow> rd IC0_SRC0; b \<leftarrow> rd IC0_SRC1; c \<leftarrow> rd IC0_VADDR; d \<leftarrow> rd IC0_C; e \<leftarrow> rd IC0_S;
     printf ''   src0: 0x%08x src1: 0x%08x vaddr: 0x%08x      C: 0x%08x    S: 0x%08x''
       (map U [a, b, c, d, e]);
     printf ''Exception info (IC1):'' [];
     a \<leftarrow> rd IC1_SRC0; b \<leftarrow> rd IC1_SRC1; c \<leftarrow> rd IC1_VADDR; d \<leftarrow> rd IC1_C; e \<leftarrow> rd IC1_S;
     printf ''   src0: 0x%08x src1: 0x%08x vaddr: 0x%08x      C: 0x%08x    S: 0x%08x''
       (map U [a, b, c, d, e])
   }"

definition g_ExceptionNames :: "string list" where
  "g_ExceptionNames = [''Zero'', ''Misaligned'', ''Division by zero'', ''Undefined instruction'',
     ''Forbidden instruction'', ''Illegal memory'', ''Bus error'', ''Floating point exception'',
     ''ISP'', ''Dummy'', ''ICache'', ''Vector core exception'', ''Bad L2 alias'', ''Breakpoint'']"

definition exception_name :: "u32 \<Rightarrow> string" where
  "exception_name n =
     (if unat n \<ge> length g_ExceptionNames then ''unknown'' else g_ExceptionNames ! unat n)"

definition sleh_fatal :: "vc4_saved_state \<Rightarrow> u32 \<Rightarrow> ('r, unit) io" where
  "sleh_fatal pcb n = do {
     printf ''Fatal VPU Exception: %s'' [S (exception_name n)];
     print_vpu_state pcb;
     printf ''We are hanging here ...'' [];
     spin_forever
   }"

text \<open>\<open>call h a\<close> calls the handler at address \<open>h\<close>; \<open>thread_preempt\<close> is LK's scheduler.\<close>

definition sleh_irq ::
  "(u32 \<Rightarrow> u32 \<Rightarrow> ('r, handler_return) irq_io) \<Rightarrow> ('r, unit) irq_io \<Rightarrow> vc4_saved_state
    \<Rightarrow> ('r, unit) irq_io" where
  "sleh_irq call thread_preempt pcb = do {
     st \<leftarrow> rd IC0_S;
     let source = st AND 0xFF;
     if source \<in> {64, 73, 106, 121} then do {
       h \<leftarrow> gget (\<lambda>s. irq_h s ! unat (source - 64));
       assert_that ''irq_handlers[source - 64].h'' (h \<noteq> 0);
       a \<leftarrow> gget (\<lambda>s. irq_arg s ! unat (source - 64));
       ret \<leftarrow> (if h \<noteq> 0 then call h a else return INT_NO_RESCHEDULE);
       when_io (ret = INT_RESCHEDULE) thread_preempt
     } else if source = INTERRUPT_ARM then return ()
     else do {
       print_vpu_state pcb;
       panic ''unknown interrupt source!''
     }
   }"

definition sleh_swi :: "vc4_saved_state \<Rightarrow> ('r, unit) io" where
  "sleh_swi pcb = do {
     printf ''got SWI'' [];
     print_vpu_state pcb
   }"

subsection \<open>The interface of an interrupt controller\<close>

text \<open>
  What a driver needs of the controller it is linked with: a handler that is registered stays
  registered, registering touches neither the hardware nor the other vectors, and unmasking
  leaves the handlers alone.  \<open>handlers\<close> reads the table, \<open>wf\<close> is the controller's invariant.
\<close>

locale int_controller =
  fixes reg :: "u32 \<Rightarrow> u32 \<Rightarrow> u32 \<Rightarrow> ('r, unit) io"
    and unm :: "u32 \<Rightarrow> ('r, status_t) io"
    and handlers :: "'r mach_scheme \<Rightarrow> u32 \<Rightarrow> u32 \<times> u32"
    and wf :: "'r mach_scheme \<Rightarrow> bool"
    and vectors :: u32
  assumes reg_ok: "\<lbrakk>running s; wf s; v < vectors\<rbrakk> \<Longrightarrow> \<exists>s'. run_state (reg v h a) s = ((), s') \<and>
      handlers s' = (handlers s)(v := (h, a)) \<and> wf s' \<and> status s' = Running \<and>
      bus s' = bus s \<and> dev s' = dev s \<and> sr s' = sr s"
    and unm_ok: "\<lbrakk>running s; wf s; v < vectors\<rbrakk> \<Longrightarrow> \<exists>s'. run_state (unm v) s = (NO_ERROR, s') \<and>
      handlers s' = handlers s \<and> wf s' \<and> status s' = Running \<and> dev s' = dev s \<and> sr s' = sr s"
begin

text \<open>The sequence every driver runs: the handler is in place before the vector is unmasked.\<close>

lemma install:
  assumes "running s" "wf s" "v < vectors"
  shows "\<exists>s1 s'. run_state (do { reg v h a; unm v }) s = (NO_ERROR, s') \<and>
    run_state (reg v h a) s = ((), s1) \<and> bus s1 = bus s \<and> handlers s1 v = (h, a) \<and>
    run_state (unm v) s1 = (NO_ERROR, s') \<and>
    handlers s' = (handlers s)(v := (h, a)) \<and> wf s' \<and> status s' = Running \<and>
    dev s' = dev s \<and> sr s' = sr s"
proof -
  obtain s1 where 1: "run_state (reg v h a) s = ((), s1)" "handlers s1 = (handlers s)(v := (h, a))"
      "wf s1" "status s1 = Running" "bus s1 = bus s" "dev s1 = dev s" "sr s1 = sr s"
    using reg_ok [OF assms] by blast
  obtain s' where 2: "run_state (unm v) s1 = (NO_ERROR, s')" "handlers s' = handlers s1" "wf s'"
      "status s' = Running" "dev s' = dev s1" "sr s' = sr s1"
    using unm_ok [OF 1(4,3) assms(3)] by blast
  show ?thesis
    by (rule exI [of _ s1], rule exI [of _ s']) (simp add: 1 2)
qed

text \<open>Two drivers on different vectors do not disturb each other.\<close>

lemma install_two:
  assumes "running s" "wf s" "v < vectors" "w < vectors" "v \<noteq> w"
  shows "\<exists>s'. run_state (do { reg v h a; _ \<leftarrow> unm v; reg w h' a'; unm w }) s = (NO_ERROR, s') \<and>
    handlers s' v = (h, a) \<and> handlers s' w = (h', a') \<and> status s' = Running"
proof -
  obtain s1 where 1: "run_state (do { reg v h a; unm v }) s = (NO_ERROR, s1)"
      "handlers s1 = (handlers s)(v := (h, a))" "wf s1" "status s1 = Running"
    using install [OF assms(1-3)] by blast
  obtain s' where 2: "run_state (do { reg w h' a'; unm w }) s1 = (NO_ERROR, s')"
      "handlers s' = (handlers s1)(w := (h', a'))" "status s' = Running"
    using install [OF 1(4,3) assms(4)] by blast
  have "run_state (do { reg v h a; _ \<leftarrow> unm v; reg w h' a'; unm w }) s =
      run_state (do { _ \<leftarrow> (do { reg v h a; unm v }); (do { reg w h' a'; unm w }) }) s"
    by (simp split: prod.splits)
  also have "\<dots> = (NO_ERROR, s')" by (subst run_state_bind, simp only: 1(1) prod.case 2(1))
  finally show ?thesis using assms(5) 1(2) 2 by auto
qed

end

text \<open>
  A controller with its dispatcher.  When the controller reports vector \<open>v\<close>, the dispatcher reads
  the controller's registers \<open>polls v\<close>, calls the handler in the table with its argument, and hands
  the handler's result to \<open>after\<close>.
\<close>

locale int_dispatcher = int_controller reg unm handlers wf vectors
  for reg :: "u32 \<Rightarrow> u32 \<Rightarrow> u32 \<Rightarrow> ('r, unit) io" and unm :: "u32 \<Rightarrow> ('r, status_t) io"
    and handlers :: "'r mach_scheme \<Rightarrow> u32 \<Rightarrow> u32 \<times> u32" and wf :: "'r mach_scheme \<Rightarrow> bool" and vectors :: u32 +
  fixes dispatch :: "(u32 \<Rightarrow> u32 \<Rightarrow> ('r, handler_return) io) \<Rightarrow> ('r, 'b) io"
    and after :: "handler_return \<Rightarrow> ('r, 'b) io"
    and reported :: "'r mach_scheme \<Rightarrow> u32 \<Rightarrow> bool"
    and polls :: "u32 \<Rightarrow> u32 list"
  assumes dispatch_ok: "\<lbrakk>running s; reported s v; handlers s v = (h, a); h \<noteq> 0\<rbrakk> \<Longrightarrow>
      run_state (dispatch call) s = run_state (call h a \<bind> after) (log (map Rd (polls v)) s)"
begin

text \<open>
  What a driver gets by installing its handler: any time later, with the table as it was then, the
  interrupt runs the handler; also when another driver has installed one on another vector since.
\<close>

lemma installed_runs:
  assumes "running s" "wf s" "v < vectors" "h \<noteq> 0"
    and inst: "run_state (do { reg v h a; unm v }) s = (x, s1)"
    and later: "running t" "handlers t = handlers s1" "reported t v"
  shows "x = NO_ERROR \<and>
    run_state (dispatch call) t = run_state (call h a \<bind> after) (log (map Rd (polls v)) t)"
proof -
  have "x = NO_ERROR" "handlers t v = (h, a)"
    using install [OF assms(1-3), of h a] inst later(2) by auto
  with dispatch_ok [OF later(1,3) this(2) assms(4)] show ?thesis by blast
qed

lemma both_installed_run:
  assumes "running s" "wf s" "v < vectors" "w < vectors" "v \<noteq> w" "h \<noteq> 0" "h' \<noteq> 0"
    and inst: "run_state (do { reg v h a; _ \<leftarrow> unm v; reg w h' a'; unm w }) s = (x, s1)"
    and later: "running t" "handlers t = handlers s1"
  shows "x = NO_ERROR \<and>
    (reported t v \<longrightarrow>
      run_state (dispatch call) t = run_state (call h a \<bind> after) (log (map Rd (polls v)) t)) \<and>
    (reported t w \<longrightarrow>
      run_state (dispatch call) t = run_state (call h' a' \<bind> after) (log (map Rd (polls w)) t))"
proof -
  have "x = NO_ERROR" "handlers t v = (h, a)" "handlers t w = (h', a')"
    using install_two [OF assms(1-5), of h a h' a'] inst later(2) by auto
  with dispatch_ok [OF later(1)] assms(6,7) show ?thesis by blast
qed

end

subsection \<open>The VPU controller provides it\<close>

definition handlers_of :: "'r irq_mach_scheme \<Rightarrow> u32 \<Rightarrow> u32 \<times> u32" where
  "handlers_of s v = (if v < 64 then (irq_h s ! unat v, irq_arg s ! unat v) else (0, 0))"

lemma register_critical:
  "register_int_handler v h a = do {
     assert_that ''vector < 64'' (v < 64);
     critical (set_handler v h a)
   }"
  by (simp add: register_int_handler_def critical_unit State_Monad.bind_assoc)

lemma run_register:
  assumes "running s" and "v < 64"
  shows "run_state (register_int_handler v h a) s =
    ((), s\<lparr>irq_h := (irq_h s)[unat v := h], irq_arg := (irq_arg s)[unat v := a]\<rparr>)"
proof -
  have "run_state (set_handler v h a) (s\<lparr>sr := sr s AND NOT SR_INTS\<rparr>) =
      ((), s\<lparr>sr := sr s AND NOT SR_INTS, irq_h := (irq_h s)[unat v := h],
              irq_arg := (irq_arg s)[unat v := a]\<rparr>)"
    using assms by (simp add: set_handler_def)
  from run_critical [OF assms(1) _ _ this] assms show ?thesis
    by (simp add: register_critical)
qed

lemma register_refuses:
  "running s \<Longrightarrow> \<not> v < 64 \<Longrightarrow>
     run_state (register_int_handler v h a) s = ((), s\<lparr>status := Panicked ''vector < 64''\<rparr>)"
  by (simp add: register_int_handler_def set_handler_def arch_interrupt_save_def arch_ints_disabled_def
      arch_interrupt_restore_def arch_disable_ints_def arch_enable_ints_def)

lemma unat_less_64: "v < 64 \<Longrightarrow> unat v < 64" for v :: u32
  by (simp add: word_less_nat_alt)

lemma handlers_of_register:
  assumes "irq_wf s" "v < 64"
  shows "handlers_of (s\<lparr>irq_h := (irq_h s)[unat v := h], irq_arg := (irq_arg s)[unat v := a]\<rparr>) =
    (handlers_of s)(v := (h, a))"
proof (rule ext)
  fix w
  show "handlers_of (s\<lparr>irq_h := (irq_h s)[unat v := h], irq_arg := (irq_arg s)[unat v := a]\<rparr>) w =
      ((handlers_of s)(v := (h, a))) w"
    using assms unat_less_64 [of v] unat_less_64 [of w]
    by (auto simp: handlers_of_def irq_wf_def nth_list_update unat_eq_iff_eq)
qed

lemma run_set_interrupt:
  "running s \<Longrightarrow> run_state (set_interrupt n en c) s =
    (let r = (if c = 0 then IC0_BASE else IC1_BASE) + of_int (0x10 + (n div 8) * 4);
         slot = push_bit (nat (n mod 8 * 4)) 0xF in
     ((), log [Rd r, Wr r (if en then (cur s r AND NOT slot) OR slot else cur s r AND NOT slot)] s))"
  by (simp add: set_interrupt_def Let_def)

lemma set_interrupt_effects [emit_intros]:
  "(\<And>a. R (Rd a)) \<Longrightarrow> (\<And>a v. R (Wr a v)) \<Longrightarrow> effects R (set_interrupt n en c)"
  unfolding set_interrupt_def Let_def by (intro emit_intros)

lemma run_unmask:
  "running s \<Longrightarrow> v < 64 \<Longrightarrow>
     run_state (unmask_interrupt v) s = (NO_ERROR, snd (run_state (set_interrupt (uint v) True 0) s))"
  by (simp add: unmask_interrupt_def run_set_interrupt Let_def)

interpretation vpu_ints: int_controller register_int_handler unmask_interrupt handlers_of irq_wf 64
proof
  fix s :: "'r irq_mach_scheme" and v h a :: u32
  assume a: "running s" "irq_wf s" "v < 64"
  show "\<exists>s'. run_state (register_int_handler v h a) s = ((), s') \<and>
      handlers_of s' = (handlers_of s)(v := (h, a)) \<and> irq_wf s' \<and> status s' = Running \<and>
      bus s' = bus s \<and> dev s' = dev s \<and> sr s' = sr s"
    using a by (simp add: run_register handlers_of_register) (simp add: irq_wf_def)
  show "\<exists>s'. run_state (unmask_interrupt v) s = (NO_ERROR, s') \<and>
      handlers_of s' = handlers_of s \<and> irq_wf s' \<and> status s' = Running \<and> dev s' = dev s \<and> sr s' = sr s"
    using a by (simp add: run_unmask run_set_interrupt Let_def handlers_of_def fun_eq_iff)
      (simp add: irq_wf_def log_def)
qed

text \<open>The four vectors the second-level handler serves.\<close>

definition vpu_reports :: "'r mach_scheme \<Rightarrow> u32 \<Rightarrow> bool" where
  "vpu_reports s v \<longleftrightarrow> v \<in> {0, 9, 42, 57} \<and> cur s IC0_S AND 0xFF = v + 64"

text \<open>A served interrupt, up to the call of its handler.\<close>

lemma run_sleh_irq_served:
  assumes "running s" and v: "v \<in> {0, 9, 42, 57}" and src: "cur s IC0_S AND 0xFF = v + 64"
    and h: "handlers_of s v = (h, a)" "h \<noteq> 0"
  shows "run_state (sleh_irq call preempt pcb) s =
    run_state (do { ret \<leftarrow> call h a; when_io (ret = INT_RESCHEDULE) preempt }) (log [Rd IC0_S] s)"
proof -
  have v64: "v < 64" "v + 64 \<in> {64, 73, 106, 121}" "v + 64 - 64 = v" using v by auto
  have "irq_h s ! unat v = h" "irq_arg s ! unat v = a"
    using h(1) v64(1) by (simp_all add: handlers_of_def)
  with assms(1) src h(2) v64 show ?thesis
    by (auto simp: sleh_irq_def Let_def log_def split: prod.splits)
qed

interpretation vpu_dispatch: int_dispatcher register_int_handler unmask_interrupt handlers_of irq_wf 64
  "\<lambda>call. sleh_irq call preempt pcb" "\<lambda>ret. when_io (ret = INT_RESCHEDULE) preempt" vpu_reports "\<lambda>_. [IC0_S]"
  for preempt :: "('r, unit) irq_io" and pcb
proof
  fix s :: "'r irq_mach_scheme" and v h a :: u32 and call
  assume a: "running s" "vpu_reports s v" "handlers_of s v = (h, a)" "h \<noteq> 0"
  then have v: "v \<in> {0, 9, 42, 57}" "cur s IC0_S AND 0xFF = v + 64" unfolding vpu_reports_def by blast+
  show "run_state (sleh_irq call preempt pcb) s =
      run_state (call h a \<bind> (\<lambda>ret. when_io (ret = INT_RESCHEDULE) preempt)) (log (map Rd [IC0_S]) s)"
    unfolding run_sleh_irq_served [OF a(1) v a(3,4)] by simp
qed

subsection \<open>Library\<close>

lemma run_sets:
  assumes "running s"
  shows "run_state (for_each is (\<lambda>i. set_vector i (f i))) s =
    ((), s\<lparr>vectorTable := fold (\<lambda>i t. t[i := f i]) is (vectorTable s)\<rparr>)"
  using assms by (induction "is" arbitrary: s) (simp_all add: set_vector_def)

lemma run_wrs:
  assumes "running s"
  shows "run_state (for_each is (\<lambda>i. wr (g i) (f i))) s = ((), log (map (\<lambda>i. Wr (g i) (f i)) is) s)"
  using assms by (induction "is" arbitrary: s) simp_all

lemma run_repeat_gset:
  assumes "running s" and "\<And>s. running s \<Longrightarrow> running (f s)" and "\<And>s. f (f s) = f s" and "is \<noteq> []"
  shows "run_state (for_each is (\<lambda>i. gset f)) s = ((), f s)"
  using assms(1,4)
proof (induction "is" arbitrary: s)
  case (Cons i "is")
  then show ?case using assms(2,3) by (cases "is = []") simp_all
qed simp

lemma nth_fold_update:
  "distinct is \<Longrightarrow> (\<forall>i \<in> set is. i < length t) \<Longrightarrow>
   fold (\<lambda>i t. t[i := f i]) is t ! j = (if j \<in> set is then f j else t ! j)"
  by (induction "is" arbitrary: t) auto

lemma length_fold_update [simp]: "length (fold (\<lambda>i t. t[i := f i]) is t) = length t"
  by (induction "is" arbitrary: t) auto

text \<open>The 4-bit enable field of vector \<open>k\<close> in the mask registers of a core.\<close>

definition mask_reg :: "u32 \<Rightarrow> nat \<Rightarrow> u32" where
  "mask_reg base k = base + 0x10 + 4 * of_nat (k div 8)"

definition mask_nibble :: "'r mach_scheme \<Rightarrow> u32 \<Rightarrow> nat \<Rightarrow> u32" where
  "mask_nibble s base k = field (4 * (k mod 8)) 4 (cur s (mask_reg base k))"

lemma mult4_inj: "(4 :: u32) * of_nat i = 4 * of_nat j \<Longrightarrow> i < 2 ^ 30 \<Longrightarrow> j < 2 ^ 30 \<Longrightarrow> i = j"
proof -
  assume a: "(4 :: u32) * of_nat i = 4 * of_nat j" "i < 2 ^ 30" "j < 2 ^ 30"
  then have "unat (of_nat (4 * i) :: u32) = unat (of_nat (4 * j) :: u32)" by simp
  moreover have "unat (of_nat (4 * i) :: u32) = 4 * i" "unat (of_nat (4 * j) :: u32) = 4 * j"
    using a(2,3) unfolding unat_of_nat by simp_all
  ultimately show "i = j" by simp
qed

lemma mask_reg_inj: "i < 64 \<Longrightarrow> j < 64 \<Longrightarrow> mask_reg base i = mask_reg base j \<longleftrightarrow> i div 8 = j div 8"
  using mult4_inj [of "i div 8" "j div 8"] by (auto simp: mask_reg_def)

lemma and_not_slot:
  fixes x :: u32
  shows "x AND NOT (push_bit k 0xF) = set_field k 4 0 x"
    and "set_field k 4 0 x OR push_bit k 0xF = set_field k 4 0xF x"
proof -
  have m: "(mask 4 :: u32) = 0xF" by (simp add: mask_numeral)
  show "x AND NOT (push_bit k 0xF) = set_field k 4 0 x"
    by (simp add: set_field_def m)
  show "set_field k 4 0 x OR push_bit k 0xF = set_field k 4 0xF x"
    by (simp add: set_field_def m)
qed

lemma run_set_interrupt_nat:
  assumes "running s" "n < 64"
  shows "run_state (set_interrupt (int n) en c) s =
    (let r = mask_reg (if c = 0 then IC0_BASE else IC1_BASE) n in
     ((), log [Rd r, Wr r (set_field (4 * (n mod 8)) 4 (if en then 0xF else 0) (cur s r))] s))"
proof -
  have d: "int n div 8 * 4 = int (n div 8 * 4)" by (simp add: zdiv_int)
  have "(of_int (16 + int n div 8 * 4) :: u32) = 16 + 4 * of_nat (n div 8)"
    unfolding d of_int_add of_int_of_nat_eq by (simp add: mult.commute)
  moreover have "nat (int n mod 8 * 4) = 4 * (n mod 8)"
    using zmod_int [of n 8] by simp
  ultimately show ?thesis
    using assms by (simp add: run_set_interrupt Let_def mask_reg_def and_not_slot add.assoc)
qed

lemma mask_nibble_set:
  assumes "running s" and plain: "\<And>j. j < 64 \<Longrightarrow> plain_at (dev s) (mask_reg base j)"
    and base: "base = (if c = 0 then IC0_BASE else IC1_BASE)"
    and "n < 64" "k < 64" and run: "run_state (set_interrupt (int n) en c) s = ((), s')"
  shows "mask_nibble s' base k = (if k = n then (if en then 0xF else 0) else mask_nibble s base k)"
proof -
  have s': "s' = log [Rd (mask_reg base n), Wr (mask_reg base n)
      (set_field (4 * (n mod 8)) 4 (if en then 0xF else 0) (cur s (mask_reg base n)))] s"
    using run run_set_interrupt_nat [OF assms(1,4), of en c] by (simp add: Let_def base)
  have m: "(15 :: u32) AND mask 4 = 15" by (simp add: mask_numeral)
  show ?thesis
  proof (cases "k div 8 = n div 8")
    case False
    then show ?thesis
      using plain_cur_log [OF plain [OF assms(5)]] mask_reg_inj [OF assms(5,4), of base]
      by (auto simp: mask_nibble_def s')
  next
    case True
    then have r: "mask_reg base k = mask_reg base n" by (simp add: mask_reg_def)
    have cur: "cur s' (mask_reg base n) =
        set_field (4 * (n mod 8)) 4 (if en then 0xF else 0) (cur s (mask_reg base n))"
      using plain_cur_log [OF plain [OF assms(4)]] by (simp add: s')
    show ?thesis
    proof (cases "k = n")
      case True
      have "4 * (n mod 8) + 4 \<le> 32" by presburger
      then show ?thesis
        by (simp add: mask_nibble_def cur True field_set_field_same m)
    next
      case False
      then have "n mod 8 \<noteq> k mod 8" using True by (metis div_mult_mod_eq)
      then have "4 * (n mod 8) + 4 \<le> 4 * (k mod 8) \<or> 4 * (k mod 8) + 4 \<le> 4 * (n mod 8)" by linarith
      then show ?thesis using False
        by (simp add: mask_nibble_def r cur field_set_field_other)
    qed
  qed
qed

text \<open>A machine after reset, with the controller's arrays as \<^verbatim>\<open>.bss\<close> leaves them.\<close>

definition irq_boot :: "device \<Rightarrow> irq_mach" where
  "irq_boot d = \<lparr>dev = d, bus = [], status = Running, sr = SR_INTS,
     core_r = of_nat, irq_h = replicate 64 0, irq_arg = replicate 64 0, vectorTable = replicate 128 0\<rparr>"

lemma irq_boot_simps [simp]:
  "dev (irq_boot d) = d" "bus (irq_boot d) = []" "status (irq_boot d) = Running"
  "irq_wf (irq_boot d)"
  by (simp_all add: irq_boot_def irq_wf_def)

text \<open>The first-level handler of each of the 128 vectors, and its entry in the table.\<close>

definition vector_entry :: "nat \<Rightarrow> fleh" where
  "vector_entry i =
     (if i < 14 then exceptions ! i else if i < 32 then Fleh_unknown
      else if i < 64 then Fleh_swi else Fleh_irq)"

definition vector_of :: "(fleh \<Rightarrow> u32) \<Rightarrow> nat \<Rightarrow> u32" where
  "vector_of addr i = (if i < 64 then addr (vector_entry i) else addr (vector_entry i) OR 1)"

lemmas vector_defs = vector_of_def vector_entry_def

definition intc_writes :: "u32 \<Rightarrow> event list" where
  "intc_writes vt =
     map (\<lambda>i. Wr (IC0_BASE + 0x10 + 4 * of_nat i) 0) [0..<8] @
     map (\<lambda>i. Wr (IC1_BASE + 0x10 + 4 * of_nat i) 0) [0..<8] @ [Wr IC0_VADDR vt, Wr IC1_VADDR vt]"

definition filled :: "(fleh \<Rightarrow> u32) \<Rightarrow> u32 list \<Rightarrow> u32 list" where
  "filled addr t = fold (\<lambda>i t. t[i := addr Fleh_irq OR 1]) [64..<128]
      (fold (\<lambda>i t. t[i := addr Fleh_swi]) [32..<64]
        (fold (\<lambda>i t. t[i := addr Fleh_unknown]) [14..<32]
          (fold (\<lambda>i t. t[i := addr (exceptions ! i)]) [0..<14] t)))"

definition vt_error :: string where
  "vt_error = ''vector table now at 0x%08x 0x%08x''"

lemma run_intc_init:
  assumes "running s"
  shows "run_state (intc_init addr vt irq_stack0) s =
    (let s1 = log (intc_writes vt) (s\<lparr>core_r := (core_r s)(28 := irq_stack0 + 1020), irq_h := (irq_h s)[0 := 0],
             vectorTable := filled addr (vectorTable s)\<rparr>)
     in ((),
       if cur s1 IC0_VADDR = vt then log [Rd IC0_VADDR] s1
       else (log [Rd IC0_VADDR, Rd IC0_VADDR,
               Print vt_error [U (cur (log [Rd IC0_VADDR] s1) IC0_VADDR), U vt]] s1)
              \<lparr>status := Panicked ''vector table failed to install''\<rparr>))"
proof -
  have h: "run_state (for_each [0..<64] (\<lambda>i. gset (\<lambda>s. s\<lparr>irq_h := (irq_h s)[0 := 0]\<rparr>))) s =
      ((), s\<lparr>irq_h := (irq_h s)[0 := 0]\<rparr>)"
    by (rule run_repeat_gset) (simp_all add: assms(1))
  show ?thesis
    using assms(1) unfolding intc_init_def vt_error_def [symmetric]
    by (simp add: h run_wrs run_sets intc_writes_def filled_def Let_def log_def cur_def
        add.commute [of irq_stack0] del: upt_Suc upt_rec_numeral)
qed

lemma filled_nth:
  assumes "length t = 128" "i < 128"
  shows "filled addr t ! i = vector_of addr i"
  using assms by (simp add: filled_def vector_defs nth_fold_update del: upt_Suc upt_rec_numeral)

lemma intc_writes_zero:
  assumes "j < 8"
  shows "last_write (IC0_BASE + 0x10 + 4 * of_nat j) (intc_writes vt) = Some 0"
    and "last_write (IC1_BASE + 0x10 + 4 * of_nat j) (intc_writes vt) = Some 0"
proof -
  have "j \<in> {0, 1, 2, 3, 4, 5, 6, 7}" using assms by auto
  then show "last_write (IC0_BASE + 0x10 + 4 * of_nat j) (intc_writes vt) = Some 0"
    "last_write (IC1_BASE + 0x10 + 4 * of_nat j) (intc_writes vt) = Some 0"
    by (auto simp: intc_writes_def upt_rec reg_defs)
qed

subsection \<open>Properties\<close>

text \<open>Enabling or disabling a vector on a core sets that vector's 4-bit field of the mask registers
  and no other field: every other vector of the same core stays enabled or disabled as it was.
\<close>

theorem set_interrupt_exact:
  assumes "running s" and "n < 64"
    and plain: "\<And>j. j < 64 \<Longrightarrow> plain_at (dev s) (mask_reg base j)"
    and base: "base = (if c = 0 then IC0_BASE else IC1_BASE)"
    and run: "run_state (set_interrupt (int n) en c) s = ((), s')"
  shows "\<forall>k < 64. mask_nibble s' base k =
    (if k = n then (if en then 0xF else 0) else mask_nibble s base k)"
  using mask_nibble_set [OF assms(1) plain base assms(2) _ run] by blast

theorem set_interrupt_exact_witness:
  "\<exists>s'. run_state (set_interrupt (int 42) True 0) (boot (memory (\<lambda>_. 0x11111111))) = ((), s') \<and>
     mask_nibble s' IC0_BASE 42 = 0xF \<and>
     mask_nibble s' IC0_BASE 43 = mask_nibble (boot (memory (\<lambda>_. 0x11111111))) IC0_BASE 43"
proof -
  let ?s = "boot (memory (\<lambda>_. 0x11111111))"
  obtain s' where run: "run_state (set_interrupt (int 42) True 0) ?s = ((), s')"
    using run_unit by blast
  have pre: "running ?s" "\<And>j. j < 64 \<Longrightarrow> plain_at (dev ?s) (mask_reg IC0_BASE j)"
    "IC0_BASE = (if (0::int) = 0 then IC0_BASE else IC1_BASE)" by (simp_all add: plain_memory)
  have 42: "(42 :: nat) < 64" by simp
  from set_interrupt_exact [OF pre(1) 42 pre(2,3) run] run show ?thesis by simp
qed

text \<open>\<^verbatim>\<open>intc_init\<close> fills the whole vector table (14 exceptions, then \<open>unknown\<close>, the 32 software
  interrupts, and 64 external vectors, with bit 0 of the entry set), writes zero to
  the eight mask registers of both cores before it installs the table on both, and panics if the
  controller does not accept the table's address, and only then.
\<close>

theorem intc_init_complete:
  assumes "running s" and "irq_wf s" and run: "run_state (intc_init addr vt irq_stack0) s = ((), s')"
  shows "irq_wf s' \<and> (\<forall>i < 128. vectorTable s' ! i = vector_of addr i) \<and>
    (\<forall>j < 8. last_write (IC0_BASE + 0x10 + 4 * of_nat j) (bus s') = Some 0 \<and>
             last_write (IC1_BASE + 0x10 + 4 * of_nat j) (bus s') = Some 0) \<and>
    (running s' \<longleftrightarrow> dev s (bus s @ intc_writes vt) IC0_VADDR = vt)"
proof -
  have wf: "irq_wf s'" "vectorTable s' = filled addr (vectorTable s)"
    using assms(1,2) run by (auto simp: run_intc_init Let_def irq_wf_def log_def filled_def)
  moreover have "length (vectorTable s) = 128" using assms(2) by (simp add: irq_wf_def)
  moreover obtain es where "bus s' = bus s @ intc_writes vt @ es" "\<forall>a. last_write a es = None"
    using assms(1) run by (auto simp: run_intc_init Let_def split: if_splits)
  moreover have "running s' \<longleftrightarrow> dev s (bus s @ intc_writes vt) IC0_VADDR = vt"
    using assms(1) run by (auto simp: run_intc_init Let_def cur_def split: if_splits)
  ultimately show ?thesis by (simp add: filled_nth intc_writes_zero)
qed

theorem intc_init_complete_witness:
  "\<exists>s'. run_state (intc_init (\<lambda>f. if f = Fleh_irq then 0x80000400 else 0x80000000) 0x80000200 0xc0001000)
      (irq_boot (memory (\<lambda>_. 0))) = ((), s') \<and>
     running s' \<and> vectorTable s' ! 64 = 0x80000401 \<and> vectorTable s' ! 3 = 0x80000000"
proof -
  let ?s = "irq_boot (memory (\<lambda>_. 0))" and ?f = "\<lambda>f. if f = Fleh_irq then 0x80000400 else 0x80000000 :: u32"
  obtain s' where run: "run_state (intc_init ?f 0x80000200 0xc0001000) ?s = ((), s')"
    using run_unit by blast
  have "running ?s" "irq_wf ?s" by (simp_all add: irq_boot_def irq_wf_def)
  from intc_init_complete [OF this run]
  have c: "\<forall>i < 128. vectorTable s' ! i = vector_of ?f i"
    "running s' \<longleftrightarrow> dev ?s (bus ?s @ intc_writes 0x80000200) IC0_VADDR = 0x80000200" by blast+
  have "running s'" unfolding c(2) by (simp add: irq_boot_def memory_def intc_writes_def reg_defs)
  with run c(1) show ?thesis by (auto simp: vector_defs exceptions_def)
qed

text \<open>C8.
  Dispatch.  Once a driver has registered a non-null handler on one of the four vectors the
  firmware serves (timer 0, USB, pixel valve 2, UART) and unmasked it, an interrupt from that source
  at any later time, with the table as it was then, calls this handler with the registered argument,
  and the scheduler is entered after it if and only if the handler asks for it.
\<close>

theorem registered_handler_runs:
  fixes s t :: "'r irq_mach_scheme"
  assumes "running s" and "irq_wf s" and v: "v \<in> {0, 9, 42, 57}" and "h \<noteq> 0"
    and inst: "run_state (do { register_int_handler v h a; unmask_interrupt v }) s = (x, s1)"
    and later: "running t" "handlers_of t = handlers_of s1"
    and src: "cur t IC0_S AND 0xFF = v + 64"
  shows "x = NO_ERROR \<and> run_state (sleh_irq call preempt pcb) t =
    (case run_state (call h a) (log [Rd IC0_S] t) of (ret, t') \<Rightarrow>
       if ret = INT_RESCHEDULE then run_state preempt t' else ((), t'))"
proof -
  have "v < 64" using v by auto
  moreover have "vpu_reports t v" using v src by (simp add: vpu_reports_def)
  ultimately show ?thesis
    using vpu_dispatch.installed_runs [OF assms(1,2) _ assms(4) inst later] by simp
qed

definition demo_call :: "u32 \<Rightarrow> u32 \<Rightarrow> ('r, handler_return) irq_io" where
  "demo_call h a = do { printf ''handler'' [U h, U a]; return INT_RESCHEDULE }"

definition demo_pcb :: vc4_saved_state where
  "demo_pcb = \<lparr>r23 = 0, r22 = 0, r21 = 0, r20 = 0, r19 = 0, r18 = 0, r17 = 0, r16 = 0,
     r15 = 0, r14 = 0, r13 = 0, r12 = 0, r11 = 0, r10 = 0, r9 = 0, r8 = 0, r7 = 0, r6 = 0,
     r5 = 0, r4 = 0, r3 = 0, r2 = 0, r1 = 0, r0 = 0, lr = 0x80000100, saved_sr = 0, pc = 0x80000104\<rparr>"

theorem registered_handler_runs_witness:
  "\<exists>s1 s2. run_state (do { register_int_handler 57 0x80001000 3; unmask_interrupt 57 })
      (irq_boot (memory (\<lambda>_. 121))) = (NO_ERROR, s1) \<and>
     run_state (sleh_irq demo_call (printf ''preempt'' []) demo_pcb) s1 = ((), s2) \<and>
     bus s2 = bus s1 @ [Rd IC0_S, Print ''handler'' [U 0x80001000, U 3], Print ''preempt'' []]"
proof -
  let ?s = "irq_boot (memory (\<lambda>_. 121))" and ?d = "memory (\<lambda>_. 121)"
  have v: "(57 :: u32) \<in> {0, 9, 42, 57}" "(0x80001000 :: u32) \<noteq> 0" "(57 :: u32) < 64" by simp_all
  obtain s1 where run: "run_state (do { register_int_handler 57 0x80001000 3; unmask_interrupt 57 }) ?s = (NO_ERROR, s1)"
    "running s1" "dev s1 = ?d"
    using vpu_ints.install [of ?s 57 "0x80001000" 3, OF _ _ v(3)] by auto
  have b: "bus s1 = [Rd (IC0_BASE + 0x2c), Wr (IC0_BASE + 0x2c) (cur ?s (IC0_BASE + 0x2c) AND NOT 0xF0 OR 0xF0)]"
    using run(1) by (auto simp: run_register run_unmask run_set_interrupt Let_def cur_def)
  have src: "cur s1 IC0_S AND 0xFF = 57 + 64"
    using run(3) by (simp add: cur_def memory_def b reg_defs)
  have "run_state (sleh_irq demo_call (printf ''preempt'' []) demo_pcb) s1 =
      (case run_state (demo_call 0x80001000 3) (log [Rd IC0_S] s1) of (ret, s2) \<Rightarrow>
         if ret = INT_RESCHEDULE then run_state (printf ''preempt'' []) s2 else ((), s2))"
    using registered_handler_runs [OF _ _ v(1,2) run(1,2) refl src] by simp
  also have "\<dots> = ((), log [Rd IC0_S, Print ''handler'' [U 0x80001000, U 3], Print ''preempt'' []] s1)"
    using run(2) by (simp add: demo_call_def)
  finally show ?thesis using run(1) by (intro exI conjI) auto
qed

text \<open>Every other interrupt source stops the machine, among them the number 94 under which the VPU
  sees the ARM's doorbell: the case label \<^verbatim>\<open>INTERRUPT_ARM\<close> is 30, a number only internal
  exceptions have.
\<close>

theorem unserved_source_panics:
  assumes "running s" and src: "cur s IC0_S AND 0xFF = n" and "n \<notin> {30, 64, 73, 106, 121}"
    and run: "run_state (sleh_irq call preempt pcb) s = ((), s')"
  shows "status s' = Panicked ''unknown interrupt source!''"
proof -
  have "n \<noteq> INTERRUPT_ARM" using assms(3) by (simp add: reg_defs)
  then show ?thesis
    using assms by (auto simp: sleh_irq_def Let_def print_vpu_state_def)
qed

theorem unserved_source_panics_witness:
  "\<exists>s'. run_state (sleh_irq demo_call (return ()) demo_pcb) (irq_boot (memory (\<lambda>_. 64 + INTERRUPT_ARM))) = ((), s') \<and>
     status s' = Panicked ''unknown interrupt source!''"
proof -
  let ?s = "irq_boot (memory (\<lambda>_. 64 + INTERRUPT_ARM))"
  obtain s' where run: "run_state (sleh_irq demo_call (return ()) demo_pcb) ?s = ((), s')"
    using run_unit by blast
  have "running ?s" "cur ?s IC0_S AND 0xFF = 94" "(94 :: u32) \<notin> {30, 64, 73, 106, 121}"
    by (simp_all add: cur_def memory_def reg_defs)
  from unserved_source_panics [OF this run] run show ?thesis by blast
qed


text \<open>
  The types of the tables once \<^verbatim>\<open>intc_init\<close> has run: two arrays of 64 words and a table of 128, in
  which every entry is the first-level handler of its vector.
\<close>

definition irq_typed :: "(fleh \<Rightarrow> u32) \<Rightarrow> 'r irq_mach_scheme \<Rightarrow> bool" where
  "irq_typed addr s \<longleftrightarrow> irq_wf s \<and> vectorTable s = map (vector_of addr) [0..<128]"

lemma intc_init_typed:
  assumes "running s" "irq_wf s" "run_state (intc_init addr vt irq_stack0) s = ((), s')"
  shows "irq_typed addr s'"
proof -
  have wf: "irq_wf s'" "vectorTable s' = filled addr (vectorTable s)"
    using assms by (auto simp: run_intc_init Let_def irq_wf_def log_def filled_def)
  have "filled addr (vectorTable s) = map (vector_of addr) [0..<128]"
    using assms(2) filled_nth [of "vectorTable s" _ addr]
    by (intro nth_equalityI) (simp_all add: irq_wf_def filled_def del: upt_Suc upt_rec_numeral)
  with wf show ?thesis by (simp add: irq_typed_def)
qed

lemma typed_steady: "steady (irq_typed addr)"
  by (simp add: steady_def irq_typed_def irq_wf_def log_def)

lemma typed_lock:
  "keeps (irq_typed addr) spin_forever" "keeps (irq_typed addr) arch_interrupt_save"
  "keeps (irq_typed addr) (arch_interrupt_restore x)" "keeps (irq_typed addr) (print_vpu_state p)"
  unfolding arch_interrupt_save_def arch_interrupt_restore_def arch_ints_disabled_def
    arch_disable_ints_def arch_enable_ints_def print_vpu_state_def
  by (simp add: keeps_def irq_typed_def irq_wf_def,
      (intro keep_intros typed_steady; simp add: irq_typed_def irq_wf_def)+)

text \<open>What the two operations do to a vector in range, and that they refuse every other.\<close>

lemma register_exact:
  "running s \<Longrightarrow> snd (run_state (register_int_handler v h a) s) =
    (if v < 64 then s\<lparr>irq_h := (irq_h s)[unat v := h], irq_arg := (irq_arg s)[unat v := a]\<rparr>
     else s\<lparr>status := Panicked ''vector < 64''\<rparr>)"
  by (simp add: run_register register_refuses)

lemma unmask_exact:
  assumes "running s"
  shows "snd (run_state (unmask_interrupt v) s) =
    (if v < 64 then let r = mask_reg IC0_BASE (unat v) in
       log [Rd r, Wr r (set_field (4 * (unat v mod 8)) 4 0xF (cur s r))] s
     else s\<lparr>status := Panicked ''vector < 64''\<rparr>)"
proof (cases "v < 64")
  case True
  then have "unat v < 64" by (rule unat_less_64)
  with True show ?thesis
    using assms run_set_interrupt_nat [OF assms, of "unat v" True 0] by (simp add: run_unmask Let_def)
next
  case False
  with assms show ?thesis by (simp add: unmask_interrupt_def set_interrupt_def Let_def)
qed

text \<open>C28.  
  The interrupt controller's tables keep their types.  Setting the controller up gives every one of
  the 128 entries of the vector table the first-level handler of its vector, two arrays of 64
  words for the handlers and their arguments, and \<open>r28\<close> the top of the interrupt stack.  Registering
  changes exactly the entry of its vector, unmasking exactly the mask field of its vector; a vector
  outside the 64 is refused before anything is stored or written.  All operations and dispatchers
  keep the types, for all arguments, whatever the hardware answers and however they end, if the
  registered handlers and the scheduler do.
\<close>

theorem irq_tables_typed:
  fixes call :: "u32 \<Rightarrow> u32 \<Rightarrow> ('r, handler_return) irq_io" and s t :: "'r irq_mach_scheme"
  assumes "running s" "irq_wf s" "run_state (intc_init addr vt irq_stack0) s = ((), s')" and t: "running t"
    and c: "\<And>h a. keeps (irq_typed addr) (call h a)" "keeps (irq_typed addr) preempt"
  shows "irq_typed addr s' \<and> core_r s' 28 = irq_stack0 + 1020 \<and>
   snd (run_state (register_int_handler v h a) t) =
     (if v < 64 then t\<lparr>irq_h := (irq_h t)[unat v := h], irq_arg := (irq_arg t)[unat v := a]\<rparr>
      else t\<lparr>status := Panicked ''vector < 64''\<rparr>) \<and>
   snd (run_state (unmask_interrupt v) t) =
     (if v < 64 then let r = mask_reg IC0_BASE (unat v) in
        log [Rd r, Wr r (set_field (4 * (unat v mod 8)) 4 0xF (cur t r))] t
      else t\<lparr>status := Panicked ''vector < 64''\<rparr>) \<and>
   keeps (irq_typed addr) (register_int_handler v h a :: ('r, unit) irq_io) \<and>
   keeps (irq_typed addr) (unmask_interrupt v :: ('r, status_t) irq_io) \<and>
   keeps (irq_typed addr) (sleh_fatal pcb n :: ('r, unit) irq_io) \<and>
   keeps (irq_typed addr) (sleh_swi pcb :: ('r, unit) irq_io) \<and>
   keeps (irq_typed addr) (sleh_irq call preempt pcb)"
proof -
  note rules = keep_intros typed_steady typed_lock
  have "keeps (irq_typed addr) (register_int_handler v h a)"
    unfolding register_int_handler_def set_handler_def assert_that_def
    by (intro rules) (simp_all add: irq_typed_def irq_wf_def)
  moreover have "keeps (irq_typed addr) (unmask_interrupt v)"
    unfolding unmask_interrupt_def assert_that_def set_interrupt_def Let_def by (intro rules)
  moreover have "keeps (irq_typed addr) (sleh_fatal pcb n)" "keeps (irq_typed addr) (sleh_swi pcb)"
    unfolding sleh_fatal_def sleh_swi_def by (intro rules)+
  moreover have "keeps (irq_typed addr) (sleh_irq call preempt pcb)"
    unfolding sleh_irq_def assert_that_def Let_def by (intro rules c)
  moreover have "core_r s' 28 = irq_stack0 + 1020"
    using assms(1,3) by (auto simp: run_intc_init Let_def log_def)
  ultimately show ?thesis
    using intc_init_typed [OF assms(1-3)] register_exact [OF t, of v h a] unmask_exact [OF t, of v] by blast
qed

theorem irq_tables_typed_witness:
  "\<exists>s'. run_state (intc_init (\<lambda>f. if f = Fleh_irq then 0x80000400 else 0x80000000) 0x80000200 0xc0001000)
      (irq_boot (memory (\<lambda>_. 0))) = ((), s') \<and> vectorTable s' ! 70 = 0x80000401 \<and> core_r s' 28 = 0xc00013fc \<and>
     status (snd (run_state (register_int_handler 64 0x80001000 3) s')) = Panicked ''vector < 64'' \<and>
     irq_wf (snd (run_state (sleh_irq demo_call (printf ''preempt'' []) demo_pcb) s'))"
proof -
  let ?s = "irq_boot (memory (\<lambda>_. 0))" and ?f = "\<lambda>f. if f = Fleh_irq then 0x80000400 else 0x80000000 :: u32"
  let ?P = "irq_typed ?f :: irq_mach \<Rightarrow> bool"
  obtain s' where run: "run_state (intc_init ?f 0x80000200 0xc0001000) ?s = ((), s')" using run_unit by blast
  have s: "running ?s" "irq_wf ?s" by simp_all
  have c: "keeps ?P (demo_call h a :: (unit, handler_return) irq_io)" for h a
    unfolding demo_call_def by (intro keep_intros typed_steady)
  have p: "keeps ?P (printf ''preempt'' [])" by (intro keep_intros typed_steady)
  have r: "running s'" using run intc_init_complete [OF s run] by (simp add: memory_def intc_writes_def reg_defs)
  note t = irq_tables_typed [OF s run r, of demo_call "printf ''preempt'' []" 64 "0x80001000" 3 demo_pcb 0]
  have "?P s'" "core_r s' 28 = 0xc0001000 + 1020" "keeps ?P (sleh_irq demo_call (printf ''preempt'' []) demo_pcb)"
    and refused: "snd (run_state (register_int_handler 64 0x80001000 3) s') = s'\<lparr>status := Panicked ''vector < 64''\<rparr>"
    using t c p by (blast, blast, blast, simp)
  then have "?P s'" "?P (snd (run_state (sleh_irq demo_call (printf ''preempt'' []) demo_pcb) s'))"
    by (simp_all add: keeps_def)
  with run refused \<open>core_r s' 28 = _\<close> show ?thesis by (simp add: irq_typed_def vector_defs nth_append del: upt_Suc upt_rec_numeral)
qed

end
