(* ===== verification/Vc4_Timer.thy ===== *)
theory Vc4_Timer
  imports Vpu_Intc
begin

unbundle bit_operations_syntax

text \<open>
  The system timer (\<^verbatim>\<open>dev/timer/vc4/timer.c\<close>): the 64-bit microsecond clock, and the one-shot
  timer LK's scheduler runs on.  The channel (0 or 1) is a build option, an argument here; the
  interrupt controller is the one the build links.
\<close>

subsection \<open>State and operations\<close>

record timer_mach = irq_mach +
  timer_cb :: u32
  timer_arg :: u32

type_synonym ('r, 'a) timer_io = "('r timer_mach_ext irq_mach_ext, 'a) io"

definition current_time_hires :: "('r, u64) io" where
  "current_time_hires = do {
     hi \<leftarrow> rd ST_CHI;
     lo \<leftarrow> rd ST_CLO;
     return (push_bit 32 (ucast hi) OR ucast lo)
   }"

definition current_time :: "('r, u32) io" where
  "current_time = do { t \<leftarrow> current_time_hires; return (ucast t) }"

definition vc4_timer_init ::
  "(u32 \<Rightarrow> u32 \<Rightarrow> u32 \<Rightarrow> ('r, unit) io) \<Rightarrow> (u32 \<Rightarrow> ('r, status_t) io) \<Rightarrow> u32 \<Rightarrow> u32 \<Rightarrow> ('r, unit) io" where
  "vc4_timer_init reg unm channel timer0_irq_addr = do {
     reg channel timer0_irq_addr 0;
     _ \<leftarrow> unm channel;
     return ()
   }"

definition ST_C :: "u32 \<Rightarrow> u32" where
  "ST_C channel = (if channel = 0 then ST_C0 else ST_C1)"

definition platform_set_oneshot_timer ::
  "u32 \<Rightarrow> u32 \<Rightarrow> u32 \<Rightarrow> u32 \<Rightarrow> ('r, status_t) timer_io" where
  "platform_set_oneshot_timer channel callback a interval = do {
     gset (timer_cb_update (\<lambda>_. callback));
     gset (timer_arg_update (\<lambda>_. a));
     let interval = (if interval < 2 then 2 else interval);
     clo \<leftarrow> rd ST_CLO;
     wr (ST_C channel) (clo + interval * 1000);
     return NO_ERROR
   }"

definition platform_stop_timer :: "('r, unit) io" where
  "platform_stop_timer = return ()"

text \<open>\<open>call_cb cb a t\<close> calls the timer callback at address \<open>cb\<close>.\<close>

definition timer0_irq ::
  "(u32 \<Rightarrow> u32 \<Rightarrow> u32 \<Rightarrow> ('r, handler_return) timer_io) \<Rightarrow> u32 \<Rightarrow> ('r, handler_return) timer_io" where
  "timer0_irq call_cb a = do {
     cs \<leftarrow> rd ST_CS;
     wr ST_CS cs;
     cb \<leftarrow> gget timer_cb;
     assert_that ''timer_cb'' (cb \<noteq> 0);
     if cb \<noteq> 0 then do {
       ta \<leftarrow> gget timer_arg;
       t \<leftarrow> current_time;
       call_cb cb ta t
     } else return INT_NO_RESCHEDULE
   }"

subsection \<open>Library\<close>

lemma current_time_effects [emit_intros]:
  "R (Rd ST_CHI) \<Longrightarrow> R (Rd ST_CLO) \<Longrightarrow> effects R current_time_hires"
  "R (Rd ST_CHI) \<Longrightarrow> R (Rd ST_CLO) \<Longrightarrow> effects R current_time"
  unfolding current_time_def current_time_hires_def by (intro emit_intros; assumption)+

lemma current_time_inert [inert_intros]: "inert current_time_hires" "inert current_time"
  unfolding current_time_def current_time_hires_def by (intro inert_intros)+

lemma unat_hi_lo:
  "unat (push_bit 32 (ucast (hi :: u32)) OR ucast (lo :: u32) :: u64) = unat hi * 2 ^ 32 + unat lo"
proof -
  have "(push_bit 32 (ucast hi) AND ucast lo :: u64) = 0"
    by (rule bit_word_eqI) (auto simp: bit_simps dest: bit_imp_le_length)
  then have "(push_bit 32 (ucast hi) OR ucast lo :: u64) = push_bit 32 (ucast hi) + ucast lo"
    using disjunctive_add_eq_or by metis
  also have "\<dots> = word_of_nat (unat hi * 2 ^ 32 + unat lo)"
    by (simp add: push_bit_eq_mult)
  finally show ?thesis
  proof (rule ssubst)
    have "unat hi < 2 ^ 32" "unat lo < 2 ^ 32"
      using unsigned_less [of hi] unsigned_less [of lo] by simp_all
    then have "unat hi * 2 ^ 32 + unat lo < 2 ^ 64" by simp
    then show "unat (word_of_nat (unat hi * 2 ^ 32 + unat lo) :: u64) = unat hi * 2 ^ 32 + unat lo"
      by (subst unat_of_nat) simp
  qed
qed

lemma hi_lo_combine:
  fixes t1 t2 b :: nat
  assumes "t1 \<le> t2" "t2 < t1 + b"
  shows "t1 div b * b + t2 mod b = (if t2 div b = t1 div b then t2 else t2 - b)"
proof -
  have "0 < b" using assms by (cases b) auto
  then have s: "(t1 + b) div b = Suc (t1 div b)" using div_add_self2 [of b t1] by simp
  have "t2 div b = t1 div b \<or> t2 div b = Suc (t1 div b)"
    using div_le_mono [OF less_imp_le [OF assms(2)], of b] div_le_mono [OF assms(1), of b]
    unfolding s by auto
  then show ?thesis
  proof
    assume q: "t2 div b = t1 div b"
    show ?thesis using div_mult_mod_eq [of t2 b] by (simp add: q)
  next
    assume q: "t2 div b = Suc (t1 div b)"
    have "b + (t1 div b * b + t2 mod b) = t2"
      using div_mult_mod_eq [of t2 b] by (simp only: q mult_Suc add.assoc)
    then show ?thesis by (simp only: q) simp
  qed
qed

lemma run_hires:
  "running s \<Longrightarrow> run_state current_time_hires s =
     (push_bit 32 (ucast (cur s ST_CHI)) OR ucast (cur (log [Rd ST_CHI] s) ST_CLO),
      log [Rd ST_CHI, Rd ST_CLO] s)"
  by (simp add: current_time_hires_def)

lemma run_current_time:
  assumes "running s"
  shows "run_state current_time s = (cur (log [Rd ST_CHI] s) ST_CLO, log [Rd ST_CHI, Rd ST_CLO] s)"
proof -
  have "ucast (push_bit 32 (ucast hi) OR ucast lo :: u64) = lo" for hi lo :: u32
    by (rule bit_word_eqI) (auto simp: bit_simps dest: bit_imp_le_length)
  then show ?thesis using assms by (simp add: current_time_def run_hires)
qed

lemma run_set_oneshot:
  "running s \<Longrightarrow> run_state (platform_set_oneshot_timer ch cb a n) s =
    (NO_ERROR, log [Rd ST_CLO, Wr (ST_C ch) (cur s ST_CLO + (if n < 2 then 2 else n) * 1000)]
                 (s\<lparr>timer_cb := cb, timer_arg := a\<rparr>))"
  by (simp add: platform_set_oneshot_timer_def Let_def cur_def)

lemma run_timer0_irq:
  assumes "running s" and "timer_cb s \<noteq> 0"
  shows "run_state (timer0_irq call_cb x) s =
    (let s' = log [Rd ST_CS, Wr ST_CS (cur s ST_CS)] s in
     run_state (call_cb (timer_cb s) (timer_arg s) (cur (log [Rd ST_CHI] s') ST_CLO))
       (log [Rd ST_CHI, Rd ST_CLO] s'))"
proof -
  have l: "timer_cb (log es s) = timer_cb s" "timer_arg (log es s) = timer_arg s" for es
    by (simp_all add: log_def)
  show ?thesis
    using assms by (simp add: timer0_irq_def run_current_time l Let_def)
qed

text \<open>Initialisation is the interrupt controller's install sequence.\<close>

lemma timer_init_installs:
  assumes "running s" "irq_wf s" "ch < 64"
  shows "\<exists>s'. run_state (vc4_timer_init register_int_handler unmask_interrupt ch h) s = ((), s') \<and>
    handlers_of s' = (handlers_of s)(ch := (h, 0)) \<and> irq_wf s' \<and> running s' \<and> dev s' = dev s"
proof -
  obtain s' where s': "run_state (do { register_int_handler ch h 0; unmask_interrupt ch }) s = (NO_ERROR, s')"
      "handlers_of s' = (handlers_of s)(ch := (h, 0))" "irq_wf s'" "running s'" "dev s' = dev s"
    using vpu_ints.install [OF assms, of h 0] by blast
  have "run_state (vc4_timer_init register_int_handler unmask_interrupt ch h) s =
      run_state (do { _ \<leftarrow> (do { register_int_handler ch h 0; unmask_interrupt ch }); return () }) s"
    by (simp add: vc4_timer_init_def split: prod.splits)
  also have "\<dots> = ((), s')" by (subst run_state_bind, simp only: s'(1) prod.case run_state_return)
  finally show ?thesis using s' by blast
qed

text \<open>It touches one mask register only.\<close>

lemma timer_init_bus:
  assumes "running s" "ch < 64" "run_state (vc4_timer_init register_int_handler unmask_interrupt ch h) s = ((), s')"
  shows "\<exists>es. bus s' = bus s @ es \<and> last_write ST_C0 es = None"
proof -
  let ?r = "IC0_BASE + of_int (0x10 + (uint ch div 8) * 4)"
  have "unat ch < 64" using assms(2) by (rule unat_less_64)
  define n where "n = unat ch div 8"
  have n: "n < 8" using \<open>unat ch < 64\<close> by (simp add: n_def)
  have r: "?r = IC0_BASE + 0x10 + 4 * of_nat n"
  proof -
    have "uint ch div 8 * 4 = int (n * 4)" by (simp add: n_def zdiv_int flip: unat_eq_nat_uint)
    then show ?thesis by (simp only: of_int_add of_int_of_nat_eq) (simp add: mult.commute add.assoc)
  qed
  have "n \<in> {0, 1, 2, 3, 4, 5, 6, 7}" using n by auto
  then have "?r \<noteq> ST_C0" unfolding r by (auto simp: reg_defs)
  then show ?thesis
    using assms by (auto simp: vc4_timer_init_def run_register run_unmask run_set_interrupt Let_def)
qed

subsection \<open>Properties\<close>

text \<open>The 64-bit clock.  If the high word is read when the clock shows \<open>t\<^sub>1\<close> and the low word when it
  shows \<open>t\<^sub>2\<close>, the result is \<open>t\<^sub>2\<close>, unless the low word rolled over between the two reads: then
  the result is \<open>2\<^sup>3\<^sup>2\<close> microseconds in the past (the rollover the code's own comment leaves open).
\<close>

theorem hires_clock_value:
  assumes "running s" and hi: "cur s ST_CHI = of_nat (t1 div 2 ^ 32)"
    and lo: "cur (log [Rd ST_CHI] s) ST_CLO = of_nat t2"
    and t: "t1 \<le> t2" "t2 < t1 + 2 ^ 32" "t2 < 2 ^ 64"
    and run: "run_state current_time_hires s = (r, s')"
  shows "unat r = (if t2 div 2 ^ 32 = t1 div 2 ^ 32 then t2 else t2 - 2 ^ 32)"
proof -
  have "t1 div 2 ^ 32 < 2 ^ 32" using t by simp
  then have "unat (cur s ST_CHI) = t1 div 2 ^ 32" unfolding hi by (simp add: unat_of_nat)
  moreover have "unat (cur (log [Rd ST_CHI] s) ST_CLO) = t2 mod 2 ^ 32"
    unfolding lo by (simp add: unat_of_nat)
  ultimately have r: "unat r = t1 div 2 ^ 32 * 2 ^ 32 + t2 mod 2 ^ 32"
    using run run_hires [OF assms(1)] by (auto simp: unat_hi_lo)
  show ?thesis unfolding r by (rule hi_lo_combine) (use t in simp_all)
qed

theorem hires_clock_value_witness:
  "\<exists>r s'. run_state current_time_hires
      (boot (\<lambda>h a. if a = ST_CLO then 5 else 3)) = (r, s') \<and> unat r = 3 * 2 ^ 32 + 5"
proof -
  let ?s = "boot (\<lambda>h a. if a = ST_CLO then 5 else 3)" and ?t = "3 * 2 ^ 32 + 5 :: nat"
  obtain r s' where run: "run_state current_time_hires ?s = (r, s')" by fastforce
  have "running ?s" "cur ?s ST_CHI = of_nat (?t div 2 ^ 32)"
    "cur (log [Rd ST_CHI] ?s) ST_CLO = of_nat ?t" "?t \<le> ?t" "?t < ?t + 2 ^ 32" "?t < 2 ^ 64"
    by (simp_all add: cur_def reg_defs)
  from hires_clock_value [OF this run] run show ?thesis by auto
qed

text \<open>C27.
  The one-shot timer, from set-up to expiry.  After initialisation,
  \<^verbatim>\<open>platform_set_oneshot_timer\<close> ends by reading the microsecond clock and writing the channel's
  compare register with what it read plus 1000 times the interval (intervals below 2 ms count as 2 ms;
  the sum is in 32 bits, as the clock), and the timer interrupt at any later time, with the handler and the callback still those,
  acknowledges through the VPU's dispatcher exactly the channels that are pending, and then calls
  the callback with its argument and the low word of the clock.
\<close>

theorem oneshot_fires:
  fixes s t :: "'r timer_mach_scheme"
  assumes "running s" and "irq_wf s" and "cb \<noteq> 0" and "h \<noteq> 0"
    and call: "call h = timer0_irq call_cb"
    and run: "run_state (do { vc4_timer_init register_int_handler unmask_interrupt 0 h;
                platform_set_oneshot_timer 0 cb x interval }) s = (st, s1)"
    and later: "running t" "handlers_of t = handlers_of s1" "timer_cb t = timer_cb s1" "timer_arg t = timer_arg s1"
    and src: "cur t IC0_S AND 0xFF = 64"
  shows "st = NO_ERROR \<and>
    (\<exists>es. bus s1 = bus s @ es @ [Rd ST_CLO, Wr ST_C0 (dev s (bus s @ es) ST_CLO + max 2 interval * 1000)] \<and>
       last_write ST_C0 es = None) \<and>
    (let t2 = log [Rd IC0_S, Rd ST_CS, Wr ST_CS (cur (log [Rd IC0_S] t) ST_CS)] t in
     run_state (sleh_irq call preempt pcb) t =
       (case run_state (call_cb cb x (cur (log [Rd ST_CHI] t2) ST_CLO))
               (log [Rd ST_CHI, Rd ST_CLO] t2) of (ret, t3) \<Rightarrow>
          if ret = INT_RESCHEDULE then run_state preempt t3 else ((), t3)))"
proof -
  obtain s0 where s0: "run_state (vc4_timer_init register_int_handler unmask_interrupt 0 h) s = ((), s0)"
      "handlers_of s0 = (handlers_of s)(0 := (h, 0))" "running s0" "dev s0 = dev s"
    using timer_init_installs [OF assms(1,2), of 0 h] by auto
  obtain es where es: "bus s0 = bus s @ es" "last_write ST_C0 es = None"
    using s0(1) assms(1) timer_init_bus [of s 0 h] by auto
  have "run_state (platform_set_oneshot_timer 0 cb x interval) s0 = (st, s1)"
    using run s0(1) by simp
  then have s1: "st = NO_ERROR" "s1 = log [Rd ST_CLO, Wr (ST_C 0) (cur s0 ST_CLO +
      (if interval < 2 then 2 else interval) * 1000)] (s0\<lparr>timer_cb := cb, timer_arg := x\<rparr>)"
    using run_set_oneshot [OF s0(3)] by auto
  have mx: "(if interval < 2 then 2 else interval) = max 2 interval" by (auto simp: max_def not_less dest: leD)
  have "handlers_of s1 = handlers_of s0" by (simp add: s1(2) handlers_of_def fun_eq_iff log_def)
  then have h: "handlers_of t 0 = (h, 0)" using later(2) s0(2) by simp
  let ?t = "log [Rd IC0_S] t"
  have c: "timer_cb ?t = cb" "timer_arg ?t = x" using later(3,4) by (simp_all add: s1(2) log_def)
  have "vpu_reports t 0" using src by (simp add: vpu_reports_def)
  from vpu_dispatch.dispatch_ok [OF later(1) this h assms(4), of call preempt pcb]
  have "run_state (sleh_irq call preempt pcb) t =
      (case run_state (timer0_irq call_cb 0) ?t of (ret, s3) \<Rightarrow>
          if ret = INT_RESCHEDULE then run_state preempt s3 else ((), s3))"
    using call by simp
  moreover have "bus s1 = bus s @ es @ [Rd ST_CLO, Wr ST_C0 (dev s (bus s @ es) ST_CLO + max 2 interval * 1000)]"
    by (simp add: s1(2) ST_C_def mx cur_def es(1) s0(4))
  moreover have "run_state (timer0_irq call_cb 0) ?t =
      (let s2 = log [Rd ST_CS, Wr ST_CS (cur ?t ST_CS)] ?t in
       run_state (call_cb cb x (cur (log [Rd ST_CHI] s2) ST_CLO)) (log [Rd ST_CHI, Rd ST_CLO] s2))"
    using run_timer0_irq [of ?t call_cb 0] later(1) assms(3) by (simp only: c log_simps simp_thms)
  ultimately show ?thesis using s1(1) es(2) by (simp add: Let_def)
qed

definition demo_cb :: "u32 \<Rightarrow> u32 \<Rightarrow> u32 \<Rightarrow> ('r, handler_return) timer_io" where
  "demo_cb cb x t = do { printf ''callback'' [U cb, U x, U t]; return INT_NO_RESCHEDULE }"

definition timer_boot :: "device \<Rightarrow> timer_mach" where
  "timer_boot d = irq_mach.extend (irq_boot d) (timer_mach.fields 0 0)"

lemma timer_boot_simps [simp]:
  "dev (timer_boot d) = d" "bus (timer_boot d) = []" "running (timer_boot d)" "irq_wf (timer_boot d)"
  by (simp_all add: timer_boot_def irq_mach.defs timer_mach.defs irq_boot_def irq_wf_def)

theorem oneshot_fires_witness:
  "\<exists>st s1 s2. run_state (do { vc4_timer_init register_int_handler unmask_interrupt 0 0x100;
        platform_set_oneshot_timer 0 0x200 7 1 }) (timer_boot (\<lambda>_ a. if a = IC0_S then 64 else 1))
        = (st, s1) \<and>
     run_state (sleh_irq (\<lambda>_. timer0_irq demo_cb) (return ()) demo_pcb) s1 = ((), s2) \<and>
     last (bus s2) = Print ''callback'' [U 0x200, U 7, U 1]"
proof -
  let ?s = "timer_boot (\<lambda>_ a. if a = IC0_S then 64 else 1)"
  let ?m = "do { vc4_timer_init register_int_handler unmask_interrupt 0 0x100;
        platform_set_oneshot_timer 0 0x200 7 1 } :: (unit, status_t) timer_io"
  obtain st s1 where run: "run_state ?m ?s = (st, s1)" by (metis surj_pair)
  obtain s0 where s0: "run_state (vc4_timer_init register_int_handler unmask_interrupt 0 0x100) ?s = ((), s0)"
      "running s0" "dev s0 = dev ?s"
    using timer_init_installs [of ?s 0 "0x100"] by auto
  then have s1: "running s1" "dev s1 = dev ?s"
    using run run_set_oneshot [OF s0(2)] by auto
  then have "cur s1 IC0_S AND 0xFF = 64" by (simp add: cur_def)
  from oneshot_fires [OF _ _ _ _ refl run s1(1) refl refl refl this, where preempt = "return ()" and pcb = demo_pcb]
  have "run_state (sleh_irq (\<lambda>_. timer0_irq demo_cb) (return ()) demo_pcb) s1 =
      (let s2 = log [Rd IC0_S, Rd ST_CS, Wr ST_CS (cur (log [Rd IC0_S] s1) ST_CS)] s1 in
       (case run_state (demo_cb 0x200 7 (cur (log [Rd ST_CHI] s2) ST_CLO))
               (log [Rd ST_CHI, Rd ST_CLO] s2) of (ret, s3) \<Rightarrow>
          if ret = INT_RESCHEDULE then run_state (return ()) s3 else ((), s3)))"
    by simp
  moreover have "cur (log es s1) ST_CLO = 1" for es using s1 by (simp add: cur_def reg_defs)
  ultimately show ?thesis using run s1 by (auto simp: demo_cb_def Let_def)
qed

text \<open>The compare value lies \<open>1000 * max 2 interval\<close> microseconds ahead of the clock, for every
  interval up to 4294967 ms; the next larger interval already wraps to less than a millisecond.
\<close>

theorem oneshot_distance:
  assumes "running s" and "run_state (platform_set_oneshot_timer ch cb x interval) s = (st, s')"
    and "last_write (ST_C ch) (drop (length (bus s)) (bus s')) = Some v"
  shows "(interval \<le> 4294967 \<longrightarrow> unat (v - cur s ST_CLO) = 1000 * max 2 (unat interval)) \<and>
    (interval = 4294968 \<longrightarrow> unat (v - cur s ST_CLO) < 1000)"
proof -
  let ?i = "if interval < 2 then 2 else interval"
  have v: "v - cur s ST_CLO = ?i * 1000"
    using assms run_set_oneshot [OF assms(1)] by auto
  have "unat (?i * 1000) = unat ?i * 1000" if "interval \<le> 4294967"
  proof -
    have "unat interval \<le> 4294967" using that by (simp add: word_le_nat_alt)
    then have "unat ?i * 1000 < 2 ^ 32" by simp
    then show ?thesis by (subst unat_mult_lem [THEN iffD1]) simp_all
  qed
  moreover have "unat ?i = max 2 (unat interval)"
    by (simp add: max_def word_less_nat_alt)
  ultimately show ?thesis unfolding v by auto
qed

theorem oneshot_distance_witness:
  "\<exists>st s'. run_state (platform_set_oneshot_timer 1 0x200 7 100) (timer_boot (\<lambda>_ a. 0xFFFFFFFF)) = (st, s')
     \<and> last_write (ST_C 1) (bus s') = Some 99999 \<and> unat (99999 - (0xFFFFFFFF :: u32)) = 100000"
proof -
  let ?s = "timer_boot (\<lambda>_ a. 0xFFFFFFFF)"
  obtain st s' where run: "run_state (platform_set_oneshot_timer 1 0x200 7 100) ?s = (st, s')"
    by (metis surj_pair)
  then have lw: "last_write (ST_C 1) (bus s') = Some 99999"
    by (auto simp: run_set_oneshot cur_def)
  then have "last_write (ST_C 1) (drop (length (bus ?s)) (bus s')) = Some 99999" by simp
  from oneshot_distance [OF _ run this] run lw show ?thesis by (auto simp: cur_def)
qed

end
