(* ===== verification/Gpio.thy ===== *)
theory Gpio
  imports Vc4_Timer
begin

unbundle bit_operations_syntax

text \<open>
  GPIO pins: function select, output, input and pull resistors (\<^verbatim>\<open>gpio.c\<close>,
  \<^verbatim>\<open>include/platform/bcm28xx/gpio.h\<close>), and the interface through which the other drivers
  claim their pins.
\<close>

subsection \<open>Operations\<close>

definition NUM_PINS :: u32 where "NUM_PINS = 54"
definition BITS_PER_REG :: u32 where "BITS_PER_REG = 32"
definition BITS_PER_PIN :: u32 where "BITS_PER_PIN = 3"
definition PINS_PER_REG :: u32 where "PINS_PER_REG = BITS_PER_REG div BITS_PER_PIN"

definition GPIOREG :: "u32 \<Rightarrow> u32 \<Rightarrow> u32" where
  "GPIOREG base nr = base + 4 * (nr div BITS_PER_REG)"

definition EINVAL :: int where "EINVAL = 22"

datatype pinmux = PinmuxIn | PinmuxOut | Pinmux_ALT5 | Pinmux_ALT4 | Pinmux_ALT0 | Pinmux_ALT1
  | Pinmux_ALT2 | Pinmux_ALT3

fun pinmux_code :: "pinmux \<Rightarrow> u32" where
  "pinmux_code PinmuxIn = 0"
| "pinmux_code PinmuxOut = 1"
| "pinmux_code Pinmux_ALT5 = 2"
| "pinmux_code Pinmux_ALT4 = 3"
| "pinmux_code Pinmux_ALT0 = 4"
| "pinmux_code Pinmux_ALT1 = 5"
| "pinmux_code Pinmux_ALT2 = 6"
| "pinmux_code Pinmux_ALT3 = 7"

datatype pull_mode = PullOff | PullDown | PullUp

fun pull_code :: "pull_mode \<Rightarrow> u32" where
  "pull_code PullOff = 0"
| "pull_code PullDown = 1"
| "pull_code PullUp = 2"

definition gpio_config :: "u32 \<Rightarrow> u32 \<Rightarrow> ('r, int) io" where
  "gpio_config nr flags = do {
     let mask = 0x7;
     if nr \<ge> NUM_PINS \<or> flags AND NOT mask \<noteq> 0 then return (- EINVAL)
     else do {
       let register_number = nr div PINS_PER_REG;
       let offset = (nr mod PINS_PER_REG) * BITS_PER_PIN;
       let shifted_mask = push_bit (unat offset) mask;
       let reg = GPIO_GPFSEL0 + 4 * register_number;
       x \<leftarrow> rd reg;
       wr reg ((x AND NOT shifted_mask) OR push_bit (unat offset) flags);
       return 0
     }
   }"

definition gpio_get_config :: "u32 \<Rightarrow> ('r, int) io" where
  "gpio_get_config nr = do {
     let mask = 0x7;
     if nr \<ge> NUM_PINS then return (- EINVAL)
     else do {
       let register_number = nr div PINS_PER_REG;
       let offset = (nr mod PINS_PER_REG) * BITS_PER_PIN;
       let shifted_mask = push_bit (unat offset) mask;
       x \<leftarrow> rd (GPIO_GPFSEL0 + 4 * register_number);
       return (uint (drop_bit (unat offset) (x AND shifted_mask)))
     }
   }"

definition gpio_set :: "u32 \<Rightarrow> u32 \<Rightarrow> ('r, unit) io" where
  "gpio_set nr on = do {
     let offset = nr mod BITS_PER_REG;
     wr (GPIOREG (if on \<noteq> 0 then GPIO_GPSET0 else GPIO_GPCLR0) nr) (BV (unat offset))
   }"

definition gpio_get :: "u32 \<Rightarrow> ('r, int) io" where
  "gpio_get nr = do {
     let offset = nr mod BITS_PER_REG;
     x \<leftarrow> rd (GPIOREG GPIO_GPLEV0 nr);
     return (uint (drop_bit (unat offset) (x AND BV (unat offset))))
   }"

text \<open>
  Pulls, before the Raspberry Pi 4: \<^verbatim>\<open>bank[3][2]\<close> collects one bit per pin and mode.
\<close>

type_synonym pull_batch = "u32 list list"

definition gpio_pull_clear :: pull_batch where
  "gpio_pull_clear = replicate 3 (replicate 2 0)"

definition gpio_pull_set :: "pull_batch \<Rightarrow> nat \<Rightarrow> pull_mode \<Rightarrow> pull_batch" where
  "gpio_pull_set b pin mode =
     (let m = unat (pull_code mode) in
      b[m := (b ! m)[pin div 32 := b ! m ! (pin div 32) OR BV (pin mod 32)]])"

definition gpio_set_pull :: "u32 \<Rightarrow> pull_mode \<Rightarrow> ('r, unit) io" where
  "gpio_set_pull nr mode = return ()"

definition apply_mode :: "pull_batch \<Rightarrow> nat \<Rightarrow> ('r, unit) io" where
  "apply_mode b mode =
     when_io (b ! mode ! 0 OR b ! mode ! 1 \<noteq> 0) (do {
       wr GPIO_GPPUD (of_nat mode);
       udelay 500;
       wr GPIO_GPPUDCLK0 (b ! mode ! 0);
       wr GPIO_GPPUDCLK1 (b ! mode ! 1);
       udelay 500;
       wr GPIO_GPPUDCLK0 0;
       wr GPIO_GPPUDCLK1 0;
       wr GPIO_GPPUD 0;
       udelay 500
     })"

definition gpio_apply_batch :: "pull_batch \<Rightarrow> ('r, unit) io" where
  "gpio_apply_batch b = for_each [0..<3] (apply_mode b)"

text \<open>Pulls on the Raspberry Pi 4.\<close>

definition gpio_get_pull :: "u32 \<Rightarrow> ('r, int) io" where
  "gpio_get_pull nr = do {
     let offset = (nr mod 16) * 2;
     x \<leftarrow> rd (GPIO_2711_PULL + 4 * (nr div 16));
     return (uint (drop_bit (unat offset) x AND 0x3))
   }"

subsection \<open>Console commands\<close>

record cmd_arg =
  arg_str :: string
  arg_u :: u32

definition mode_of_name :: "string \<Rightarrow> u32 option" where
  "mode_of_name = map_of
     [(''in'', 0), (''out'', 1), (''alt0'', 4), (''alt1'', 5), (''alt2'', 6), (''alt3'', 7),
      (''alt4'', 3), (''alt5'', 2)]"

definition cmd_gpio_mode :: "cmd_arg list \<Rightarrow> ('r, int) io" where
  "cmd_gpio_mode argv =
     (if length argv \<noteq> 3 then do {
        printf ''usage: gpio_mode 42 (in|out|alt0|alt1|alt2|alt3|alt4|alt5)'' [];
        return (-1)
      } else
        (case mode_of_name (arg_str (argv ! 2)) of
           None \<Rightarrow> do { printf ''unknown mode %s'' [S (arg_str (argv ! 2))]; return (-1) }
         | Some mode \<Rightarrow> do {
             _ \<leftarrow> gpio_config (arg_u (argv ! 1)) mode;
             printf ''done'' [];
             return 0
           }))"

definition cmd_gpio_write :: "cmd_arg list \<Rightarrow> ('r, int) io" where
  "cmd_gpio_write argv =
     (if length argv \<noteq> 3 then do { printf ''usage: gpio_write 42 1'' []; return (-1) }
      else do {
        gpio_set (arg_u (argv ! 1)) (arg_u (argv ! 2));
        printf ''done'' [];
        return 0
      })"

definition mode_names :: "string list" where
  "mode_names = [''IN'', ''OUT'', ''ALT5'', ''ALT4'', ''ALT0'', ''ALT1'', ''ALT2'', ''ALT3'', '''']"

definition levels :: "string list" where
  "levels = [''LOW'', ''HIGH'']"

definition pull_names :: "string list" where
  "pull_names = [''--'', ''^^'', [CHR 0x5c, CHR 0x2f], ''invalid'', '''']"

definition cmd_gpio_dump_state :: "bool \<Rightarrow> ('r, int) io" where
  "cmd_gpio_dump_state rpi4 = do {
     for_each [0..<32] (\<lambda>i. do {
       lflags \<leftarrow> gpio_get_config (of_nat i);
       l_level \<leftarrow> gpio_get (of_nat i);
       r_level \<leftarrow> gpio_get (of_nat (i + 32));
       rflags \<leftarrow> (if of_nat (i + 32) < NUM_PINS then gpio_get_config (of_nat (i + 32)) else return 8);
       l_pull \<leftarrow> (if rpi4 then gpio_get_pull (of_nat i) else return 4);
       r_pull \<leftarrow> (if rpi4 then gpio_get_pull (of_nat (i + 32)) else return 4);
       printf ''GPIO%02d %4s %s %4s | %4s %s %4s GPIO%02d''
         [I (int i), S (mode_names ! nat lflags), S (pull_names ! nat l_pull), S (levels ! nat l_level),
          S (levels ! nat r_level), S (pull_names ! nat r_pull), S (mode_names ! nat rflags), I (int (i + 32))]
     });
     return 0
   }"

definition test_pins :: "nat list" where
  "test_pins = [2, 3, 4, 5, 6, 7, 8, 9, 10, 11, 12, 13, 16, 17, 18, 19, 20, 21, 22, 23, 24, 25, 26, 27]"

definition cmd_gpio_test :: "('r, int) io" where
  "cmd_gpio_test = do {
     for_each test_pins (\<lambda>pin. do {
       mode \<leftarrow> gpio_get_config (of_nat pin);
       printf ''GPIO%02d Mode:%s '' [I (int pin), S (mode_names ! nat mode)];
       gpio_apply_batch (gpio_pull_set gpio_pull_clear pin PullDown);
       v \<leftarrow> gpio_get (of_nat pin);
       w \<leftarrow> rd GPIO_GPLEV0;
       printf ''DOWN %d %08x '' [I v, U w];
       gpio_apply_batch (gpio_pull_set gpio_pull_clear pin PullUp);
       v \<leftarrow> gpio_get (of_nat pin);
       w \<leftarrow> rd GPIO_GPLEV0;
       printf ''UP %d %08x'' [I v, U w]
     });
     return 0
   }"

subsection \<open>The function of a pin\<close>

definition fsel_reg :: "u32 \<Rightarrow> u32" where
  "fsel_reg nr = GPIO_GPFSEL0 + 4 * (nr div 10)"

definition pin_mode :: "'r mach_scheme \<Rightarrow> u32 \<Rightarrow> u32" where
  "pin_mode s nr = field (3 * unat (nr mod 10)) 3 (cur s (fsel_reg nr))"

text \<open>The function select registers are storage.\<close>

definition fsel_plain :: "'r mach_scheme \<Rightarrow> bool" where
  "fsel_plain s \<longleftrightarrow> (\<forall>nr < 54. plain_at (dev s) (fsel_reg nr))"

lemma pins_per_reg: "PINS_PER_REG = 10"
  by (simp add: PINS_PER_REG_def BITS_PER_REG_def BITS_PER_PIN_def)

lemma unat_mod10: "unat (nr mod 10 * 3 :: u32) = 3 * unat (nr mod 10)"
proof -
  have "unat (nr mod 10) < 10" by (simp add: unat_mod)
  then have "unat (nr mod 10) * unat (3 :: u32) < 2 ^ 32" by simp
  then show ?thesis by (subst unat_mult_lem [THEN iffD1]) simp_all
qed

lemma unat_mod10_less: "unat (nr mod 10 :: u32) < 10"
  by (simp add: unat_mod)

lemma flags_mask: "flags AND NOT 7 = 0 \<longleftrightarrow> flags AND mask 3 = (flags :: u32)"
proof -
  have m: "(7 :: u32) = mask 3" by (simp add: mask_numeral)
  show ?thesis unfolding m bit_eq_iff by (auto simp: bit_simps)
qed

lemma set_flags:
  fixes x flags :: u32
  assumes "flags AND NOT 7 = 0"
  shows "(x AND NOT (push_bit k 7)) OR push_bit k flags = set_field k 3 flags x"
proof -
  have m: "(7 :: u32) = mask 3" by (simp add: mask_numeral)
  show ?thesis using assms unfolding flags_mask set_field_def by (simp only: m)
qed

lemma get_flags: "drop_bit k (x AND push_bit k 7) = field k 3 (x :: u32)"
proof -
  have m: "(7 :: u32) = mask 3" by (simp add: mask_numeral)
  show ?thesis
    unfolding m by (rule bit_word_eqI) (auto simp: bit_simps bit_field dest: bit_imp_le_length)
qed

lemma run_gpio_config:
  assumes "running s" "nr < 54" "flags AND NOT 7 = 0"
  shows "run_state (gpio_config nr flags) s = (0, log [Rd (fsel_reg nr), Wr (fsel_reg nr)
    (set_field (3 * unat (nr mod 10)) 3 flags (cur s (fsel_reg nr)))] s)"
proof -
  have "\<not> 54 \<le> nr" using assms(2) by simp
  then show ?thesis
    using assms(1,3) by (simp only: gpio_config_def Let_def NUM_PINS_def pins_per_reg BITS_PER_PIN_def
        unat_mod10 set_flags [OF assms(3)] flip: fsel_reg_def) simp
qed

lemma run_gpio_config_bad:
  "nr \<ge> 54 \<or> flags AND NOT 7 \<noteq> 0 \<Longrightarrow> run_state (gpio_config nr flags) s = (- EINVAL, s)"
  by (simp add: gpio_config_def Let_def NUM_PINS_def)

lemma run_gpio_get_config:
  assumes "running s" "nr < 54"
  shows "run_state (gpio_get_config nr) s = (uint (pin_mode s nr), log [Rd (fsel_reg nr)] s)"
proof -
  have "\<not> 54 \<le> nr" using assms(2) by simp
  then show ?thesis
    using assms(1) by (simp only: gpio_get_config_def Let_def NUM_PINS_def pins_per_reg BITS_PER_PIN_def
        unat_mod10 get_flags flip: fsel_reg_def) (simp add: pin_mode_def)
qed

lemma gpio_config_effects [emit_intros]:
  "R (Rd (fsel_reg nr)) \<Longrightarrow> (\<And>v. R (Wr (fsel_reg nr) v)) \<Longrightarrow> effects R (gpio_config nr f)"
  unfolding gpio_config_def Let_def fsel_reg_def pins_per_reg by (intro emit_intros)

lemma fsel_reg_inj:
  assumes "m < 54" "n < 54" "fsel_reg m = fsel_reg n"
  shows "m div 10 = n div 10"
proof -
  have "unat m < 54" "unat n < 54" using assms(1,2) by (simp_all add: word_less_nat_alt)
  then have "unat (m div 10) < 2 ^ 30" "unat (n div 10) < 2 ^ 30" by (simp_all add: unat_div)
  moreover have "(4 :: u32) * of_nat (unat (m div 10)) = 4 * of_nat (unat (n div 10))"
    using assms(3) by (simp add: fsel_reg_def)
  ultimately show ?thesis using mult4_inj by (metis unat_eq_iff_eq)
qed

lemma div_mod_eq: "m div d = n div d \<Longrightarrow> m mod d = n mod d \<Longrightarrow> m = (n :: u32)"
  by (metis word_mod_div_equality)

lemma pin_mode_config:
  assumes "running s" "fsel_plain s" "n < 54" "f AND NOT 7 = 0" "m < 54"
  shows "pin_mode (snd (run_state (gpio_config n f) s)) m = (if m = n then f else pin_mode s m)"
proof -
  let ?k = "3 * unat (n mod 10)" and ?s' = "snd (run_state (gpio_config n f) s)"
  have plain: "plain_at (dev s) (fsel_reg m)" using assms(2,5) by (simp add: fsel_plain_def)
  show ?thesis
  proof (cases "fsel_reg m = fsel_reg n")
    case False
    then show ?thesis using plain_cur_log [OF plain] assms
      by (auto simp: pin_mode_def run_gpio_config)
  next
    case True
    then have d: "m div 10 = n div 10" using fsel_reg_inj assms(3,5) by blast
    have cur: "cur ?s' (fsel_reg m) = set_field ?k 3 f (cur s (fsel_reg m))"
      using plain_cur_log [OF plain] assms True by (simp add: run_gpio_config)
    show ?thesis
    proof (cases "m = n")
      case True
      have "?k + 3 \<le> 32" using unat_mod10_less [of n] by simp
      then show ?thesis
        using cur True flags_mask [THEN iffD1, OF assms(4)]
        by (simp add: pin_mode_def field_set_field_same)
    next
      case False
      then have "m mod 10 \<noteq> n mod 10" using d div_mod_eq by blast
      then have "unat (m mod 10) \<noteq> unat (n mod 10)" by (simp add: unat_eq_iff_eq)
      then have "?k + 3 \<le> 3 * unat (m mod 10) \<or> 3 * unat (m mod 10) + 3 \<le> ?k" by linarith
      then show ?thesis using cur False by (simp add: pin_mode_def field_set_field_other)
    qed
  qed
qed

subsection \<open>The interface of a pin multiplexer\<close>

text \<open>
  Drivers select the function of their pins and rely on each selection to hold and to leave the
  other pins alone.  \<open>mode\<close> is the function a pin has, \<open>ok\<close> what is assumed of the hardware.
\<close>

locale pin_mux =
  fixes config :: "u32 \<Rightarrow> u32 \<Rightarrow> ('r, int) io"
    and mode :: "'r mach_scheme \<Rightarrow> u32 \<Rightarrow> u32"
    and ok :: "'r mach_scheme \<Rightarrow> bool"
    and pins :: u32
  assumes config_ok: "\<lbrakk>running s; ok s; n < pins; f AND NOT 7 = 0\<rbrakk> \<Longrightarrow>
      \<exists>s'. run_state (config n f) s = (0, s') \<and> status s' = Running \<and> ok s' \<and>
        (\<forall>m < pins. mode s' m = (if m = n then f else mode s m))"
begin

lemma config_list:
  assumes "running s" "ok s" "distinct (map fst ps)"
    and "\<And>n f. (n, f) \<in> set ps \<Longrightarrow> n < pins \<and> f AND NOT 7 = 0"
  shows "\<exists>s'. run_state (for_each ps (\<lambda>p. do { _ \<leftarrow> config (fst p) (snd p); return () })) s = ((), s') \<and>
    status s' = Running \<and> ok s' \<and>
    (\<forall>m < pins. mode s' m = (case map_of ps m of Some f \<Rightarrow> f | None \<Rightarrow> mode s m))"
  using assms
proof (induction ps arbitrary: s)
  case (Cons p ps)
  obtain n f where p: "p = (n, f)" by fastforce
  obtain s1 where s1: "run_state (config n f) s = (0, s1)" "status s1 = Running" "ok s1"
      "\<forall>m < pins. mode s1 m = (if m = n then f else mode s m)"
    using config_ok [OF Cons.prems(1,2), of n f] Cons.prems(4) [of n f] by (auto simp: p)
  have "distinct (map fst ps)" using Cons.prems(3) by simp
  moreover have "\<And>n f. (n, f) \<in> set ps \<Longrightarrow> n < pins \<and> f AND NOT 7 = 0"
    by (rule Cons.prems(4)) (rule list.set_intros(2))
  ultimately obtain s' where s': "run_state (for_each ps (\<lambda>p. do { _ \<leftarrow> config (fst p) (snd p); return () })) s1 = ((), s')"
      "status s' = Running" "ok s'"
      "\<forall>m < pins. mode s' m = (case map_of ps m of Some f \<Rightarrow> f | None \<Rightarrow> mode s1 m)"
    using Cons.IH [OF s1(2,3)] by blast
  have "map_of ps n = None" using Cons.prems(3) by (simp add: p map_of_eq_None_iff)
  then have "\<forall>m < pins. mode s' m = (case map_of (p # ps) m of Some f \<Rightarrow> f | None \<Rightarrow> mode s m)"
    using s'(4) s1(4) by (simp add: p split: option.split)
  then show ?case using s1(1) s'(1-3) by (simp add: p)
qed simp

text \<open>Two selections, the case of a driver with a transmit and a receive pin.\<close>

lemma config_two:
  assumes "running s" "ok s" "n < pins" "f AND NOT 7 = 0" "m < pins" "g AND NOT 7 = 0" "m \<noteq> n"
  shows "\<exists>s'. run_state (do { _ \<leftarrow> config n f; config m g }) s = (0, s') \<and> status s' = Running \<and> ok s' \<and>
    (\<forall>k < pins. mode s' k = (if k = m then g else if k = n then f else mode s k))"
proof -
  obtain s1 where s1: "run_state (config n f) s = (0, s1)" "status s1 = Running" "ok s1"
      "\<forall>m < pins. mode s1 m = (if m = n then f else mode s m)"
    using config_ok [OF assms(1-4)] by blast
  obtain s' where "run_state (config m g) s1 = (0, s')" "status s' = Running" "ok s'"
      "\<forall>k < pins. mode s' k = (if k = m then g else mode s1 k)"
    using config_ok [OF s1(2,3) assms(5,6)] by blast
  then show ?thesis using s1 by auto
qed

end

interpretation gpio: pin_mux gpio_config pin_mode fsel_plain 54
proof
  fix s :: "'r mach_scheme" and n f :: u32
  assume a: "running s" "fsel_plain s" "n < 54" "f AND NOT 7 = 0"
  have "\<forall>m < 54. pin_mode (snd (run_state (gpio_config n f) s)) m = (if m = n then f else pin_mode s m)"
    using pin_mode_config [OF a] by blast
  then show "\<exists>s'. run_state (gpio_config n f) s = (0, s') \<and> status s' = Running \<and> fsel_plain s' \<and>
      (\<forall>m < 54. pin_mode s' m = (if m = n then f else pin_mode s m))"
    using a by (simp add: run_gpio_config fsel_plain_def)
qed

subsection \<open>Pulls\<close>

definition batch_writes :: "pull_batch \<Rightarrow> nat \<Rightarrow> (u32 \<times> u32) list" where
  "batch_writes b m =
     (if b ! m ! 0 OR b ! m ! 1 \<noteq> 0 then
        [(GPIO_GPPUD, of_nat m), (GPIO_GPPUDCLK0, b ! m ! 0), (GPIO_GPPUDCLK1, b ! m ! 1),
         (GPIO_GPPUDCLK0, 0), (GPIO_GPPUDCLK1, 0), (GPIO_GPPUD, 0)]
      else [])"

lemma emits_apply_mode: "emits (batch_writes b m) (apply_mode b m)"
proof -
  have "emits ([(GPIO_GPPUD, of_nat m)] @ [] @ [(GPIO_GPPUDCLK0, b ! m ! 0)] @ [(GPIO_GPPUDCLK1, b ! m ! 1)]
      @ [] @ [(GPIO_GPPUDCLK0, 0)] @ [(GPIO_GPPUDCLK1, 0)] @ [(GPIO_GPPUD, 0)] @ [])
    (do { wr GPIO_GPPUD (of_nat m); udelay 500; wr GPIO_GPPUDCLK0 (b ! m ! 0);
       wr GPIO_GPPUDCLK1 (b ! m ! 1); udelay 500; wr GPIO_GPPUDCLK0 0; wr GPIO_GPPUDCLK1 0;
       wr GPIO_GPPUD 0; udelay 500 })"
    by (intro emits_seq emits_wr emits_udelay inert_intros)
  from emits_when [OF this, of "b ! m ! 0 OR b ! m ! 1 \<noteq> 0"] show ?thesis
    unfolding apply_mode_def batch_writes_def by (simp only: append_Cons append_Nil append_Nil2)
qed

lemma apply_mode_inert [inert_intros]: "inert (apply_mode b m)"
  unfolding apply_mode_def by (intro inert_intros)

lemma emits_apply_batch: "emits (concat (map (batch_writes b) [0..<3])) (gpio_apply_batch b)"
  unfolding gpio_apply_batch_def by (intro emits_for_each emits_apply_mode apply_mode_inert)

lemma gpio_apply_batch_inert [inert_intros]: "inert (gpio_apply_batch b)"
  unfolding gpio_apply_batch_def by (intro inert_intros)

lemma gpio_apply_batch_returns [ends_intros]:
  assumes "ticking d step" "step \<le> 1000000"
  shows "ends d (gpio_apply_batch b)"
  unfolding gpio_apply_batch_def apply_mode_def
  by (intro ends_intros) (use assms in \<open>auto intro!: udelay_returns [of d step]\<close>)

subsection \<open>Properties\<close>

text \<open>C39.
  \<^verbatim>\<open>gpio_config\<close> and \<^verbatim>\<open>gpio_get_config\<close>: for a valid pin and function the call succeeds, the pin
  reads back the function set, and every other pin keeps its function; for an invalid pin or
  function the call returns \<open>-EINVAL\<close> and does not touch the hardware.
\<close>

theorem gpio_config_roundtrip:
  assumes "running s" and "fsel_plain s"
    and run: "run_state (gpio_config nr flags) s = (r, s')"
  shows "(nr < 54 \<and> flags < 8 \<longrightarrow> r = 0 \<and>
      fst (run_state (gpio_get_config nr) s') = uint flags \<and>
      (\<forall>m < 54. m \<noteq> nr \<longrightarrow>
         fst (run_state (gpio_get_config m) s') = fst (run_state (gpio_get_config m) s))) \<and>
    (\<not> (nr < 54 \<and> flags < 8) \<longrightarrow> r = - EINVAL \<and> s' = s)"
proof -
  have f8: "flags AND NOT 7 = 0 \<longleftrightarrow> flags < 8"
  proof -
    have "flags < 8 \<longleftrightarrow> take_bit 3 flags = flags"
      using word_less_nat_alt [of flags 8] take_bit_nat_eq_self_iff [of 3 "unat flags"]
      by (simp add: unsigned_take_bit_eq flip: unat_eq_iff_eq)
    then show ?thesis unfolding flags_mask by (simp add: take_bit_eq_mask)
  qed
  show ?thesis
  proof (cases "nr < 54 \<and> flags < 8")
    case True
    with assms f8 obtain s1 where "run_state (gpio_config nr flags) s = (0, s1)" "status s1 = Running"
        "\<forall>m < 54. pin_mode s1 m = (if m = nr then flags else pin_mode s m)"
      using gpio.config_ok [of s nr flags] by auto
    with run assms(1) True show ?thesis by (auto simp: run_gpio_get_config)
  next
    case False
    then have "nr \<ge> 54 \<or> flags AND NOT 7 \<noteq> 0" unfolding f8 by auto
    from run_gpio_config_bad [OF this, of s] run have "r = - EINVAL \<and> s' = s" by simp
    with False show ?thesis by blast
  qed
qed

theorem gpio_config_roundtrip_witness:
  "\<exists>r s'. run_state (gpio_config 17 4) (boot (memory (\<lambda>_. 0x09249249))) = (r, s') \<and> r = 0 \<and>
     fst (run_state (gpio_get_config 17) s') = 4"
proof -
  let ?s = "boot (memory (\<lambda>_. 0x09249249))"
  obtain r s' where run: "run_state (gpio_config 17 4) ?s = (r, s')" by (metis surj_pair)
  have "running ?s" "fsel_plain ?s" by (simp_all add: fsel_plain_def plain_memory)
  from gpio_config_roundtrip [OF this run] run show ?thesis by auto
qed

text \<open>C29.
  Applying a batch of pulls, on a machine whose microsecond counter runs.  The call returns, having
  made exactly these writes: for each mode that has a pin, in the order off, down, up: select the
  mode, clock it into the pins of both banks, remove the clock, deselect.  So no pin is clocked
  while another mode is selected, and clock and mode are zero at the end.
\<close>

theorem gpio_batch_sequence:
  assumes "running s" and "ticking (dev s) step" and "step \<le> 1000000"
    and "run_state (gpio_apply_batch b) s = ((), s')"
  shows "running s' \<and>
    writes (bus s') = writes (bus s) @ batch_writes b 0 @ batch_writes b 1 @ batch_writes b 2"
proof -
  have r: "running s'"
    using endsD(1) [OF gpio_apply_batch_returns [OF assms(2,3)] refl assms(1,4)] .
  from emitsD [OF emits_apply_batch assms(1,4) this] r show ?thesis
    by (simp add: numeral_3_eq_3 numeral_2_eq_2)
qed

theorem gpio_batch_sequence_witness:
  "\<exists>s'. run_state (gpio_apply_batch (gpio_pull_set gpio_pull_clear 35 PullUp))
      (boot (clock_dev (\<lambda>_. 0))) = ((), s') \<and>
    writes (bus s') = [(GPIO_GPPUD, 2), (GPIO_GPPUDCLK0, 0), (GPIO_GPPUDCLK1, 8),
      (GPIO_GPPUDCLK0, 0), (GPIO_GPPUDCLK1, 0), (GPIO_GPPUD, 0)]"
proof -
  let ?s = "boot (clock_dev (\<lambda>_. 0))" and ?b = "gpio_pull_set gpio_pull_clear 35 PullUp"
  obtain s' where run: "run_state (gpio_apply_batch ?b) ?s = ((), s')" using run_unit by blast
  have "running ?s" "ticking (dev ?s) 1000" "1000 \<le> (1000000 :: nat)"
    by (simp_all add: ticking_clock_dev)
  from gpio_batch_sequence [OF this run]
  have "writes (bus s') = batch_writes ?b 0 @ batch_writes ?b 1 @ batch_writes ?b 2" by simp
  also have "\<dots> = [(GPIO_GPPUD, 2), (GPIO_GPPUDCLK0, 0), (GPIO_GPPUDCLK1, 8),
      (GPIO_GPPUDCLK0, 0), (GPIO_GPPUDCLK1, 0), (GPIO_GPPUD, 0)]"
    by code_simp
  finally show ?thesis using run by blast
qed

end
