(* ===== verification/Otp.thy ===== *)
theory Otp
  imports Gpio
begin

unbundle bit_operations_syntax

text \<open>
  The one-time programmable memory (\<^verbatim>\<open>otp/otp.c\<close>): reading, and burning bits.  The argument
  \<open>rpi4\<close> selects between the two variants the source compiles.  Programming cannot be undone, so
  the properties say which rows and bits the driver can ever select.
\<close>

subsection \<open>Constants\<close>

definition OTP_MAX_CMD_WAIT :: nat where "OTP_MAX_CMD_WAIT = 1000"
definition OTP_MAX_PROG_WAIT :: nat where "OTP_MAX_PROG_WAIT = 32000"
definition OTP_MAX_WRITE_RETRIES :: nat where "OTP_MAX_WRITE_RETRIES = 16"

definition OTP_CMD_READ :: u32 where "OTP_CMD_READ = 0"
definition OTP_CMD_PROG_ENABLE :: "bool \<Rightarrow> u32" where
  "OTP_CMD_PROG_ENABLE rpi4 = (if rpi4 then 0x2 else 0x1)"
definition OTP_CMD_PROG_DISABLE :: "bool \<Rightarrow> u32" where
  "OTP_CMD_PROG_DISABLE rpi4 = (if rpi4 then 0x3 else 0x2)"
definition OTP_CMD_PROGRAM_WORD :: u32 where "OTP_CMD_PROGRAM_WORD = 0xa"

definition OTP_CMD_START :: u32 where "OTP_CMD_START = 1"
definition OTP_STAT_PROG_OK :: u32 where "OTP_STAT_PROG_OK = 4"
definition OTP_STAT_PROG_ENABLE :: "bool \<Rightarrow> u32" where
  "OTP_STAT_PROG_ENABLE rpi4 = (if rpi4 then 4 else 0x1000)"
definition OTP_STAT_CMD_DONE :: "bool \<Rightarrow> u32" where
  "OTP_STAT_CMD_DONE rpi4 = (if rpi4 then 2 else 1)"
definition OTP_PROG_EN_SEQ :: "u32 list" where "OTP_PROG_EN_SEQ = [0xf, 0x4, 0x8, 0xd]"

definition OTP_ERR_ENABLE :: int where "OTP_ERR_ENABLE = -2"
definition OTP_ERR_DISABLE :: int where "OTP_ERR_DISABLE = -3"
definition OTP_ERR_PROGRAM :: int where "OTP_ERR_PROGRAM = -1"

subsection \<open>Reading\<close>

definition otp_delay :: "('r, unit) io" where
  "otp_delay = udelay 1"

definition otp_open :: "('r, unit) io" where
  "otp_open = do {
     wr OTP_CONFIG 3;
     otp_delay;
     wr OTP_CTRL_HI 0;
     wr OTP_CTRL_LO 0;
     wr OTP_ADDR 0;
     wr OTP_DATA 0;
     wr OTP_CONFIG 2
   }"

definition otp_close :: "('r, unit) io" where
  "otp_close = do {
     wr OTP_CTRL_HI 0;
     wr OTP_CTRL_LO 0;
     wr OTP_CONFIG 0
   }"

text \<open>The callers pass a positive number of tries; the loop body runs once per try.\<close>

primrec otp_wait_status :: "u32 \<Rightarrow> nat \<Rightarrow> ('r, int) io" where
  "otp_wait_status m 0 = return (-1)"
| "otp_wait_status m (Suc i) = do {
     otp_delay;
     st \<leftarrow> rd OTP_STATUS;
     if st AND m \<noteq> 0 then return 0 else otp_wait_status m i
   }"

definition otp_set_command :: "bool \<Rightarrow> u32 \<Rightarrow> u32 \<Rightarrow> ('r, int) io" where
  "otp_set_command rpi4 ctrlhi cmd = do {
     wr OTP_CTRL_HI ctrlhi;
     wr OTP_CTRL_LO (push_bit 1 cmd);
     r \<leftarrow> otp_wait_status (OTP_STAT_CMD_DONE rpi4) OTP_MAX_CMD_WAIT;
     if r \<noteq> 0 then return (-1)
     else do {
       wr OTP_CTRL_LO (push_bit 1 cmd OR OTP_CMD_START);
       otp_wait_status (OTP_STAT_CMD_DONE rpi4) OTP_MAX_CMD_WAIT
     }
   }"

definition otp_read_open :: "bool \<Rightarrow> u8 \<Rightarrow> ('r, u32) io" where
  "otp_read_open rpi4 addr = do {
     wr OTP_ADDR (ucast addr);
     r \<leftarrow> otp_set_command rpi4 0 OTP_CMD_READ;
     if r \<noteq> 0 then return (of_int r) else rd OTP_DATA
   }"

definition otp_read :: "bool \<Rightarrow> u8 \<Rightarrow> ('r, u32) io" where
  "otp_read rpi4 addr = do {
     otp_open;
     val \<leftarrow> otp_read_open rpi4 addr;
     otp_close;
     return val
   }"

subsection \<open>Programming\<close>

primrec send_seq :: "bool \<Rightarrow> u32 list \<Rightarrow> ('r, int) io" where
  "send_seq rpi4 [] = otp_wait_status (OTP_STAT_PROG_ENABLE rpi4) OTP_MAX_PROG_WAIT"
| "send_seq rpi4 (x # xs) = do {
     wr (if rpi4 then OTP_DATA else OTP_BITSEL) x;
     r \<leftarrow> otp_set_command rpi4 0 (OTP_CMD_PROG_ENABLE rpi4);
     if r \<noteq> 0 then return (-1) else send_seq rpi4 xs
   }"

definition otp_enable_program :: "bool \<Rightarrow> ('r, int) io" where
  "otp_enable_program rpi4 = send_seq rpi4 OTP_PROG_EN_SEQ"

definition otp_disable_program :: "bool \<Rightarrow> ('r, int) io" where
  "otp_disable_program rpi4 = otp_set_command rpi4 0 (OTP_CMD_PROG_DISABLE rpi4)"

text \<open>One of the two retry loops of \<^verbatim>\<open>otp_program_bit\<close>: \<open>0\<close> on success, \<open>err\<close> when all tries fail.\<close>

primrec program_pass :: "u32 \<Rightarrow> u32 \<Rightarrow> u32 \<Rightarrow> nat \<Rightarrow> int \<Rightarrow> ('r, int) io" where
  "program_pass hi hi2 cmd 0 err = return err"
| "program_pass hi hi2 cmd (Suc n) err = do {
     _ \<leftarrow> otp_set_command False hi cmd;
     r \<leftarrow> otp_set_command False hi2 0x88003;
     if r = 0 then do {
       st \<leftarrow> rd OTP_STATUS;
       if st AND OTP_STAT_PROG_OK \<noteq> 0 then return 0 else program_pass hi hi2 cmd n err
     } else program_pass hi hi2 cmd n err
   }"

definition otp_program_bit :: "u8 \<Rightarrow> nat \<Rightarrow> ('r, int) io" where
  "otp_program_bit addr bit_nr = do {
     wr OTP_ADDR (ucast addr);
     wr OTP_BITSEL (of_nat bit_nr);
     let cmd = (if addr < 8 then 0x38000a else if addr < 77 then 0x58000a else 0x78000a);
     err \<leftarrow> program_pass 0x1420000 0x1484 cmd OTP_MAX_WRITE_RETRIES (-1);
     program_pass 0x9420000 0x8001484 cmd OTP_MAX_WRITE_RETRIES err
   }"

primrec program_bits :: "u8 \<Rightarrow> u32 \<Rightarrow> u32 \<Rightarrow> nat list \<Rightarrow> int \<Rightarrow> ('r, int) io" where
  "program_bits addr oldval newval [] err = return err"
| "program_bits addr oldval newval (b # bs) err =
     (if oldval AND BV b \<noteq> 0 \<or> newval AND BV b = 0 then program_bits addr oldval newval bs err
      else do {
        r \<leftarrow> otp_program_bit addr b;
        program_bits addr oldval newval bs (if r < 0 then err + 1 else err)
      })"

definition otp_write_enabled :: "bool \<Rightarrow> u8 \<Rightarrow> u32 \<Rightarrow> ('r, int) io" where
  "otp_write_enabled rpi4 addr newval = do {
     oldval \<leftarrow> otp_read_open rpi4 addr;
     if oldval = 0xffffffff then return 0
     else if \<not> rpi4 then program_bits addr oldval newval [0..<32] 0
     else do {
       wr OTP_DATA (newval OR oldval);
       otp_delay;
       wr OTP_ADDR (ucast addr);
       otp_delay;
       otp_set_command rpi4 0 OTP_CMD_PROGRAM_WORD
     }
   }"

definition otp_write_open :: "bool \<Rightarrow> u8 \<Rightarrow> u32 \<Rightarrow> ('r, int) io" where
  "otp_write_open rpi4 addr val = do {
     e \<leftarrow> otp_enable_program rpi4;
     if e \<noteq> 0 then return OTP_ERR_ENABLE
     else do {
       err \<leftarrow> otp_write_enabled rpi4 addr val;
       let err = (if err \<noteq> 0 then OTP_ERR_PROGRAM else err);
       d \<leftarrow> otp_disable_program rpi4;
       return (if d \<noteq> 0 then (if err \<noteq> 0 then err else OTP_ERR_DISABLE) else err)
     }
   }"

definition otp_write :: "bool \<Rightarrow> u8 \<Rightarrow> u32 \<Rightarrow> ('r, int) io" where
  "otp_write rpi4 addr val = do {
     otp_open;
     err \<leftarrow> otp_write_open rpi4 addr val;
     otp_close;
     return err
   }"

subsection \<open>Reports and commands\<close>

definition dump_all_otp :: "bool \<Rightarrow> ('r, unit) io" where
  "dump_all_otp rpi4 = do {
     printf ''full otp dump'' [];
     for_each [0..<67] (\<lambda>addr. do {
       value \<leftarrow> otp_read rpi4 (of_nat addr);
       printf ''%02d:%08x'' [I (int addr), U value]
     })
   }"

definition cmd_otp_full :: "bool \<Rightarrow> ('r, int) io" where
  "cmd_otp_full rpi4 = do { dump_all_otp rpi4; return 0 }"

definition otp_pretty_print :: "bool \<Rightarrow> ('r, unit) io" where
  "otp_pretty_print rpi4 = do {
     bootmode \<leftarrow> otp_read rpi4 17;
     printf ''OTP17: 0x%08x'' [U bootmode];
     when_io (bit bootmode 1) (printf ''  19.2mhz crystal present'' []);
     when_io (bit bootmode 3) (printf ''  SDIO pullups should be on?'' []);
     when_io (bit bootmode 19) (printf ''  GPIO boot mode'' []);
     when_io (bit bootmode 20) (printf ''  GPIO boot mode bank bit is set'' []);
     when_io (bit bootmode 21) (printf ''  SD card boot enabled'' []);
     when_io (bit bootmode 22) (printf ''  bank to boot from set'' []);
     when_io (bit bootmode 28) (printf ''  USB device boot enabled'' []);
     when_io (bit bootmode 29) (printf ''  USB host boot enabled (ethernet/mass-storage)'' []);
     bootmode2 \<leftarrow> otp_read rpi4 18;
     when_io (bootmode \<noteq> bootmode2) (printf ''WARNING: boot mode duplicate doesnt match'' []);
     serial \<leftarrow> otp_read rpi4 28;
     printf ''SoC serial# 0x%08x'' [U serial];
     serial2 \<leftarrow> otp_read rpi4 29;
     when_io (NOT serial \<noteq> serial2) (printf ''WARNING: serial# duplicate doesnt match'' []);
     revision \<leftarrow> otp_read rpi4 30;
     printf ''HW revision: 0x%08x'' [U revision];
     when_io (bit revision 23) (do {
       printf ''  Type: %d'' [U (drop_bit 4 revision AND 0xff)];
       printf ''  Rev: %d'' [U (revision AND 0xf)];
       printf ''  Proc: %d'' [U (drop_bit 12 revision AND 0xf)];
       printf ''  Manufacturer: %d'' [U (drop_bit 16 revision AND 0xf)];
       printf ''  Ram: %d'' [U (drop_bit 20 revision AND 0x7)]
     });
     maclow \<leftarrow> otp_read rpi4 64;
     machi \<leftarrow> otp_read rpi4 65;
     printf ''Optional Mac Override: %08x%x'' [U maclow, U machi];
     advanced_boot \<leftarrow> otp_read rpi4 66;
     printf ''OTP66: 0x%08x'' [U advanced_boot];
     when_io (bit advanced_boot 7) (do {
       printf ''  ETH_CLK on GPIO%d'' [U (advanced_boot AND 0x7f)];
       (if bit advanced_boot 25 then printf ''  ETH_CLK 24mhz'' [] else printf ''  ETH_CLK 25mhz'' [])
     });
     when_io (bit advanced_boot 15) (printf ''  LAN_RUN on GPIO%d'' [U (drop_bit 8 advanced_boot AND 0x7f)]);
     when_io (bit advanced_boot 24) (printf ''  extended USB timeout'' [])
   }"

definition cmd_otp_pretty :: "bool \<Rightarrow> ('r, int) io" where
  "cmd_otp_pretty rpi4 = do { otp_pretty_print rpi4; return 0 }"

definition cmd_otp_write :: "bool \<Rightarrow> cmd_arg list \<Rightarrow> ('r, int) io" where
  "cmd_otp_write rpi4 argv =
     (if length argv \<noteq> 3 then do { printf ''usage: otp_write 36 0x20'' []; return (-1) }
      else do {
        let addr = arg_u (argv ! 1);
        let val = arg_u (argv ! 2);
        otp_open;
        old \<leftarrow> otp_read_open rpi4 (ucast addr);
        printf ''old value: 0x%08x'' [U old];
        err \<leftarrow> otp_write_open rpi4 (ucast addr) val;
        (if err = OTP_ERR_ENABLE then printf ''cannot %s OTP programming'' [S ''enable'']
         else if err = OTP_ERR_PROGRAM then printf ''programming command failed'' []
         else if err = OTP_ERR_DISABLE then printf ''cannot %s OTP programming'' [S ''disable'']
         else if rpi4 then return ()
         else if err = 0 then return ()
         else printf ''%d bits failed'' [I err]);
        new \<leftarrow> otp_read_open rpi4 (ucast addr);
        printf ''new value: 0x%08x'' [U new];
        otp_close;
        return 0
      })"

subsection \<open>Library\<close>

lemma otp_wait_effects [emit_intros]:
  "R (Rd ST_CLO) \<Longrightarrow> R (Rd OTP_STATUS) \<Longrightarrow> effects R (otp_wait_status m n)"
  by (induction n) (auto simp: otp_delay_def intro!: emit_intros)

lemma otp_wait_inert [inert_intros]: "inert (otp_wait_status m n)"
  by (induction n) (auto simp: otp_delay_def intro!: inert_intros)

text \<open>Events of a command: reads, and writes of the two control registers.\<close>

definition otp_ctrl :: "event \<Rightarrow> bool" where
  "otp_ctrl e \<longleftrightarrow> (case e of Wr a v \<Rightarrow> a = OTP_CTRL_HI \<or> a = OTP_CTRL_LO | _ \<Rightarrow> True)"

lemma otp_ctrl_simps [simp]:
  "otp_ctrl (Rd a)" "otp_ctrl (Print f xs)" "otp_ctrl (Wr a v) \<longleftrightarrow> a = OTP_CTRL_HI \<or> a = OTP_CTRL_LO"
  by (simp_all add: otp_ctrl_def)

lemma otp_set_command_effects: "effects otp_ctrl (otp_set_command rpi4 hi cmd)"
  unfolding otp_set_command_def by (intro emit_intros) simp_all

lemma otp_set_command_inert [inert_intros]: "inert (otp_set_command rpi4 hi cmd)"
  unfolding otp_set_command_def by (intro inert_intros)

lemma program_pass_effects: "effects otp_ctrl (program_pass hi hi2 cmd n err)"
  by (induction n) (auto intro!: emit_intros otp_set_command_effects)

lemma program_pass_inert [inert_intros]: "inert (program_pass hi hi2 cmd n err)"
  by (induction n) (auto intro!: inert_intros)

lemma send_seq_inert [inert_intros]: "inert (send_seq rpi4 xs)"
  by (induction xs) (auto intro!: inert_intros)

lemma otp_open_close_inert [inert_intros]: "inert otp_open" "inert otp_close"
  unfolding otp_open_def otp_close_def otp_delay_def by (intro inert_intros)+

lemma program_bit_inert [inert_intros]: "inert (otp_program_bit addr b)"
  unfolding otp_program_bit_def Let_def by (intro inert_intros)

lemma program_bits_inert [inert_intros]: "inert (program_bits addr old new bs err)"
  by (induction bs arbitrary: err) (auto intro!: inert_intros)

lemma otp_read_open_inert [inert_intros]: "inert (otp_read_open rpi4 addr)"
  unfolding otp_read_open_def by (intro inert_intros)

lemma otp_write_open_inert [inert_intros]:
  "inert (otp_write_enabled rpi4 addr v)" "inert (otp_write_open rpi4 addr v)"
  unfolding otp_write_open_def otp_enable_program_def otp_disable_program_def otp_write_enabled_def
    otp_delay_def Let_def
  by (intro inert_intros)+

text \<open>What programming a row may select: that row, and bits to be set that are not set yet.\<close>

definition row_bits :: "u8 \<Rightarrow> u32 \<Rightarrow> u32 \<Rightarrow> event \<Rightarrow> bool" where
  "row_bits addr old new e \<longleftrightarrow>
     (case e of
        Wr a v \<Rightarrow> (a = OTP_ADDR \<longrightarrow> v = ucast addr) \<and>
          (a = OTP_BITSEL \<longrightarrow> v < 32 \<and> bit new (unat v) \<and> \<not> bit old (unat v))
      | _ \<Rightarrow> True)"

lemma otp_ctrl_row_bits: "otp_ctrl e \<Longrightarrow> row_bits addr old new e"
  by (auto simp: otp_ctrl_def row_bits_def reg_defs split: event.splits)

lemma program_bit_effects:
  assumes "b < 32" "bit new b" "\<not> bit old b"
  shows "effects (row_bits addr old new) (otp_program_bit addr b)"
proof -
  have "(of_nat b :: u32) < 32" "unat (of_nat b :: u32) = b"
    using assms(1) by (simp_all add: word_less_nat_alt unat_of_nat)
  then have "row_bits addr old new (Wr OTP_ADDR (ucast addr))"
    "row_bits addr old new (Wr OTP_BITSEL (of_nat b))"
    using assms by (simp_all add: row_bits_def reg_defs)
  then show ?thesis
    unfolding otp_program_bit_def Let_def
    by (intro emit_intros effects_mono [OF program_pass_effects otp_ctrl_row_bits])
qed

lemma program_bits_effects:
  "set bs \<subseteq> {0..<32} \<Longrightarrow> effects (row_bits addr old new) (program_bits addr old new bs err)"
  by (induction bs arbitrary: err)
    (auto simp: and_BV_0 intro!: emit_intros program_bit_effects)

lemma program_bits_range:
  "run_state (program_bits addr old new bs err) s = (r, s') \<Longrightarrow> err \<le> r \<and> r \<le> err + int (length bs)"
proof (induction bs arbitrary: err s)
  case (Cons b bs)
  show ?case
  proof (cases "old AND BV b \<noteq> 0 \<or> new AND BV b = 0")
    case True
    with Cons.prems show ?thesis using Cons.IH by fastforce
  next
    case False
    obtain x s1 where x: "run_state (otp_program_bit addr b) s = (x, s1)" by fastforce
    then have "run_state (program_bits addr old new bs (if x < 0 then err + 1 else err)) s1 = (r, s')"
      using Cons.prems False by simp
    from Cons.IH [OF this] show ?thesis by (auto split: if_splits)
  qed
qed simp

text \<open>On a device with a running counter every operation returns.\<close>

lemma otp_wait_returns:
  "ticking d step \<Longrightarrow> step \<le> 1000000 \<Longrightarrow> ends d (otp_wait_status m n)"
  by (induction n) (auto simp: otp_delay_def intro!: ends_intros udelay_returns [of d step])

lemma otp_set_command_returns:
  "ticking d step \<Longrightarrow> step \<le> 1000000 \<Longrightarrow> ends d (otp_set_command rpi4 hi cmd)"
  unfolding otp_set_command_def by (intro ends_intros otp_wait_returns)

lemma program_pass_returns:
  "ticking d step \<Longrightarrow> step \<le> 1000000 \<Longrightarrow> ends d (program_pass hi hi2 cmd n err)"
  by (induction n) (auto intro!: ends_intros otp_set_command_returns)

lemma program_bits_returns:
  "ticking d step \<Longrightarrow> step \<le> 1000000 \<Longrightarrow> ends d (program_bits addr old new bs err)"
  by (induction bs arbitrary: err)
    (auto simp: otp_program_bit_def Let_def intro!: ends_intros program_pass_returns)

lemma send_seq_returns:
  "ticking d step \<Longrightarrow> step \<le> 1000000 \<Longrightarrow> ends d (send_seq rpi4 xs)"
  by (induction xs) (auto intro!: ends_intros otp_wait_returns otp_set_command_returns)

lemma otp_open_returns:
  "ticking d step \<Longrightarrow> step \<le> 1000000 \<Longrightarrow> ends d otp_open" "ends d otp_close"
  unfolding otp_open_def otp_close_def otp_delay_def
  by (intro ends_intros udelay_returns [of d step]; simp)+

lemma otp_read_open_returns:
  "ticking d step \<Longrightarrow> step \<le> 1000000 \<Longrightarrow> ends d (otp_read_open rpi4 addr)"
  unfolding otp_read_open_def by (intro ends_intros otp_set_command_returns)

lemma otp_write_returns:
  assumes "ticking d step" "step \<le> 1000000"
  shows "ends d (otp_write rpi4 addr v)"
  unfolding otp_write_def otp_write_open_def otp_enable_program_def otp_disable_program_def
    otp_write_enabled_def otp_delay_def Let_def
  by (intro ends_intros otp_open_returns(1) [OF assms] otp_open_returns(2) send_seq_returns [OF assms]
      otp_set_command_returns [OF assms] program_bits_returns [OF assms]
      otp_read_open_returns [OF assms] udelay_returns [OF assms(1)]) (use assms(2) in simp_all)

text \<open>The answers to polling the status register between delays.\<close>

lemma otp_wait_result: "yields (\<lambda>r. r = 0 \<or> r = -1) (otp_wait_status m n)"
  by (induction n) (auto intro!: yields_intros)

lemma otp_set_command_result: "yields (\<lambda>r. r = 0 \<or> r = -1) (otp_set_command rpi4 hi cmd)"
  unfolding otp_set_command_def by (intro yields_intros otp_wait_result) simp

lemma otp_write_open_result:
  "yields (\<lambda>r. r \<in> {0, OTP_ERR_PROGRAM, OTP_ERR_ENABLE, OTP_ERR_DISABLE}) (otp_write_open rpi4 addr v)"
  unfolding otp_write_open_def Let_def by (intro yields_intros) auto

lemma otp_write_result:
  assumes "running s" "run_state (otp_write rpi4 addr v) s = (r, s')" "running s'"
  shows "r \<in> {0, OTP_ERR_PROGRAM, OTP_ERR_ENABLE, OTP_ERR_DISABLE}"
    and "\<exists>ws. writes (bus s') = ws @ [(OTP_CTRL_HI, 0), (OTP_CTRL_LO, 0), (OTP_CONFIG, 0)]"
proof -
  have i: "inert (do { err \<leftarrow> otp_write_open rpi4 addr v; otp_close; return err })"
    by (intro inert_intros)
  obtain s1 where s1: "running s1"
      "run_state (do { err \<leftarrow> otp_write_open rpi4 addr v; otp_close; return err }) s1 = (r, s')"
    using inert_running [OF i assms(2) [unfolded otp_write_def] assms(3)] by blast
  have j: "inert (do { otp_close; return err })" for err :: int by (intro inert_intros)
  obtain err s2 where s2: "run_state (otp_write_open rpi4 addr v) s1 = (err, s2)" "running s2"
      "run_state (do { otp_close; return err }) s2 = (r, s')"
    using inert_running [OF j s1(2) assms(3)] by blast
  then have "r = err" and "writes (bus s') =
      writes (bus s2) @ [(OTP_CTRL_HI, 0), (OTP_CTRL_LO, 0), (OTP_CONFIG, 0)]"
    by (auto simp: otp_close_def)
  with yieldsD [OF otp_write_open_result s2(1)] show "r \<in> {0, OTP_ERR_PROGRAM, OTP_ERR_ENABLE, OTP_ERR_DISABLE}"
    "\<exists>ws. writes (bus s') = ws @ [(OTP_CTRL_HI, 0), (OTP_CTRL_LO, 0), (OTP_CONFIG, 0)]" by auto
qed

text \<open>A controller that never reports a finished command.\<close>

lemma otp_wait_never:
  assumes "\<And>h. dev s h OTP_STATUS AND m = 0"
  shows "fst (run_state (otp_wait_status m n) s) = -1"
  using assms
proof (induction n arbitrary: s)
  case (Suc n)
  have q: "effects quiet (do { otp_delay; rd OTP_STATUS })"
    unfolding otp_delay_def by (intro emit_intros) simp_all
  obtain s1 where s1: "run_state otp_delay s = ((), s1)" using run_unit by blast
  have "dev s1 = dev s"
    using quiet_run(2) [OF _ s1] by (simp add: otp_delay_def udelay_effects)
  then show ?case using Suc s1 by (simp add: cur_def)
qed simp

subsection \<open>Properties\<close>

text \<open>C23.
  Programming is confined (before the Raspberry Pi 4).  After the old value of a row has been
  read, whatever the hardware answers and however often a command is retried, the driver selects
  no other row, and no bit except those that are set in the new value and clear in the old one;
  the number it returns counts failed bits, so it is between 0 and 32.
\<close>

theorem otp_programs_only_new_bits:
  assumes "running s" and old: "run_state (otp_read_open False addr) s = (old, s1)"
    and run: "run_state (otp_write_enabled False addr new) s = (err, s')"
  shows "0 \<le> err \<and> err \<le> 32 \<and> (\<exists>es. bus s' = bus s1 @ es \<and> list_all (row_bits addr old new) es)"
proof (cases "old = 0xffffffff")
  case True
  with old run show ?thesis by (auto simp: otp_write_enabled_def intro: exI [of _ "[]"])
next
  case False
  then have p: "run_state (program_bits addr old new [0..<32] 0) s1 = (err, s')"
    using old run by (simp add: otp_write_enabled_def)
  have "effects (row_bits addr old new) (program_bits addr old new [0..<32] 0)"
    by (rule program_bits_effects) simp
  then obtain es where "bus s' = bus s1 @ es" "list_all (row_bits addr old new) es"
    using effectsE [of "row_bits addr old new" _ s1] p by (metis snd_conv)
  with program_bits_range [OF p] show ?thesis by auto
qed

theorem otp_programs_only_new_bits_witness:
  "\<exists>old s1 err s'. run_state (otp_read_open False 36) (boot (clock_dev (\<lambda>_. 5))) = (old, s1) \<and>
     run_state (otp_write_enabled False 36 0x24) (boot (clock_dev (\<lambda>_. 5))) = (err, s') \<and>
     0 \<le> err \<and> err \<le> 32"
proof -
  let ?s = "boot (clock_dev (\<lambda>_. 5))"
  obtain old s1 where old: "run_state (otp_read_open False 36) ?s = (old, s1)" by (metis surj_pair)
  obtain err s' where run: "run_state (otp_write_enabled False 36 0x24) ?s = (err, s')"
    by (metis surj_pair)
  have "running ?s" by simp
  from otp_programs_only_new_bits [OF this old run] old run show ?thesis by blast
qed

text \<open>C36.
  A write always ends, if the microsecond counter runs: at most 16 tries per pass, two passes
  per bit, bounded waits.  It returns 0 or one of the three error codes, and the controller is
  switched off at the end, on the error paths too.
\<close>

theorem otp_write_ends:
  assumes "running s" and "ticking (dev s) step" and "step \<le> 1000000"
    and run: "run_state (otp_write rpi4 addr v) s = (r, s')"
  shows "running s' \<and> r \<in> {0, OTP_ERR_PROGRAM, OTP_ERR_ENABLE, OTP_ERR_DISABLE} \<and>
    (\<exists>ws. writes (bus s') = ws @ [(OTP_CTRL_HI, 0), (OTP_CTRL_LO, 0), (OTP_CONFIG, 0)])"
proof -
  have r: "running s'" using endsD(1) [OF otp_write_returns [OF assms(2,3)] refl assms(1) run] .
  show ?thesis using r otp_write_result [OF assms(1) run r] by blast
qed

theorem otp_write_ends_witness:
  "\<exists>r s'. run_state (otp_write True 36 0x20) (boot (clock_dev (\<lambda>_. 0))) = (r, s') \<and> running s'"
proof -
  let ?s = "boot (clock_dev (\<lambda>_. 0))"
  obtain r s' where run: "run_state (otp_write True 36 0x20) ?s = (r, s')" by (metis surj_pair)
  have "running ?s" "ticking (dev ?s) 1000" "1000 \<le> (1000000 :: nat)"
    by (simp_all add: ticking_clock_dev)
  from otp_write_ends [OF this run] run show ?thesis by blast
qed

text \<open>A row that cannot be read is not programmed, but the write does not fail either: if the read
  before programming times out (its result is then \<open>0xffffffff\<close>), \<^verbatim>\<open>otp_write_enabled\<close> returns 0,
  success, without a further access to the hardware.
\<close>

theorem otp_unreadable_row_reported_ok:
  assumes "run_state (otp_set_command rpi4 0 OTP_CMD_READ) (snd (run_state (wr OTP_ADDR (ucast addr)) s))
      = (-1, s1)"
  shows "run_state (otp_write_enabled rpi4 addr new) s = (0, s1)"
  using assms by (simp add: otp_write_enabled_def otp_read_open_def)

definition dead_otp :: device where
  "dead_otp h a = (if a = ST_CLO then clock_dev (\<lambda>_. 0) h a else 0)"

theorem otp_unreadable_row_reported_ok_witness:
  "\<exists>s1. run_state (otp_write_enabled False 36 0x20) (boot dead_otp) = (0, s1)"
proof -
  let ?s = "snd (run_state (wr OTP_ADDR (ucast (36 :: u8))) (boot dead_otp))"
  have z: "dead_otp h OTP_STATUS = 0" for h by (simp add: dead_otp_def reg_defs)
  let ?t = "log [Wr OTP_CTRL_HI 0, Wr OTP_CTRL_LO 0] ?s"
  have "fst (run_state (otp_wait_status (OTP_STAT_CMD_DONE False) OTP_MAX_CMD_WAIT) ?t) = -1"
    by (rule otp_wait_never) (simp add: z)
  then have "fst (run_state (otp_set_command False 0 OTP_CMD_READ) ?s) = -1"
    by (auto simp: otp_set_command_def OTP_CMD_READ_def split: prod.splits)
  then obtain s1 where "run_state (otp_set_command False 0 OTP_CMD_READ) ?s = (-1, s1)"
    by (metis prod.collapse)
  from otp_unreadable_row_reported_ok [OF this] show ?thesis by blast
qed

end
