(* ===== verification/Mailbox.thy ===== *)
theory Mailbox
  imports Otp
begin

unbundle bit_operations_syntax

text \<open>
  The mailbox between the ARM and the VPU, and the frame buffer that is negotiated through it
  (\<^verbatim>\<open>mailbox.c\<close>, \<^verbatim>\<open>include/platform/mailbox.h\<close>).  The frame buffer descriptor is memory the
  other side writes to: its fields are words at consecutive addresses.  Cache maintenance is LK's,
  an argument here.
\<close>

subsection \<open>Registers\<close>

definition MAILBOX_READ :: u32 where [reg_defs]: "MAILBOX_READ = 0"
definition MAILBOX_STATUS :: u32 where [reg_defs]: "MAILBOX_STATUS = 6"
definition MAILBOX_WRITE :: u32 where [reg_defs]: "MAILBOX_WRITE = 8"

definition MAILBOX_FULL :: u32 where [reg_defs]: "MAILBOX_FULL = 0x80000000"
definition MAILBOX_EMPTY :: u32 where [reg_defs]: "MAILBOX_EMPTY = 0x40000000"
definition MAX_MAILBOX_READ_ATTEMPTS :: u32 where "MAX_MAILBOX_READ_ATTEMPTS = 8"

definition MAILBOX_WAIT_TIMEOUT_US :: u32 where "MAILBOX_WAIT_TIMEOUT_US = 500000"
definition MAILBOX_MAX_READ_ATTEMPTS :: u32 where "MAILBOX_MAX_READ_ATTEMPTS = 20"

datatype mailbox_channel = Ch_power | Ch_framebuffer | Ch_vuart | Ch_vchic | Ch_leds | Ch_buttons
  | Ch_touchscreen | Ch_unused | Ch_propertytags_tovc | Ch_propertytags_fromvc

fun channel_nr :: "mailbox_channel \<Rightarrow> u32" where
  "channel_nr Ch_power = 0"
| "channel_nr Ch_framebuffer = 1"
| "channel_nr Ch_vuart = 2"
| "channel_nr Ch_vchic = 3"
| "channel_nr Ch_leds = 4"
| "channel_nr Ch_buttons = 5"
| "channel_nr Ch_touchscreen = 6"
| "channel_nr Ch_unused = 7"
| "channel_nr Ch_propertytags_tovc = 8"
| "channel_nr Ch_propertytags_fromvc = 9"

text \<open>\<^verbatim>\<open>mailbox_regs[i]\<close>\<close>

definition mailbox_reg :: "u32 \<Rightarrow> u32" where [reg_defs]:
  "mailbox_reg i = ARM0_MAILBOX_BASE + 4 * i"

definition paddr_to_kvaddr :: "u32 \<Rightarrow> u32" where
  "paddr_to_kvaddr x = x"

definition vc_bus_to_kvaddr :: "u32 \<Rightarrow> u32" where
  "vc_bus_to_kvaddr bus_addr = paddr_to_kvaddr (bus_addr AND 0x3fffffff)"

definition kvaddr_to_vc_bus :: "u32 \<Rightarrow> u32" where
  "kvaddr_to_vc_bus kvaddr = (kvaddr AND 0x3fffffff) + BCM_SDRAM_BUS_ADDR_BASE"

subsection \<open>Messages\<close>

text \<open>\<open>while (status & m) if (current_time() > deadline) return ERR_TIMED_OUT;\<close>\<close>

definition wait_clear :: "u32 \<Rightarrow> u32 \<Rightarrow> ('r, bool) io" where
  "wait_clear m deadline = loop False
     (\<lambda>_. do {
        st \<leftarrow> rd (mailbox_reg MAILBOX_STATUS);
        if st AND m \<noteq> 0 then do {
          t \<leftarrow> current_time;
          return (if deadline < t then Inr False else Inl ())
        } else return (Inr True)
      }) ()"

definition mailbox_write :: "mailbox_channel \<Rightarrow> u32 \<Rightarrow> ('r, status_t) io" where
  "mailbox_write ch value = do {
     let value = value OR channel_nr ch;
     now \<leftarrow> current_time;
     ok \<leftarrow> wait_clear MAILBOX_FULL (now + MAILBOX_WAIT_TIMEOUT_US);
     if \<not> ok then return ERR_TIMED_OUT
     else do {
       wr (mailbox_reg MAILBOX_WRITE) value;
       return NO_ERROR
     }
   }"

text \<open>
  The rounds of \<^verbatim>\<open>mailbox_read\<close>: \<open>None\<close> is the time-out, otherwise the last word read and
  \<^verbatim>\<open>attempts\<close>.  The first argument counts the rounds that are left; the loop condition stops
  before it runs out.
\<close>

primrec mailbox_rounds :: "nat \<Rightarrow> u32 \<Rightarrow> u32 \<Rightarrow> ('r, (u32 \<times> u32) option) io" where
  "mailbox_rounds 0 ch attempts = return None"
| "mailbox_rounds (Suc n) ch attempts = do {
     now \<leftarrow> current_time;
     let deadline = now + MAILBOX_WAIT_TIMEOUT_US;
     ok \<leftarrow> wait_clear MAILBOX_EMPTY deadline;
     if \<not> ok then return None
     else do {
       local_result \<leftarrow> rd (mailbox_reg MAILBOX_READ);
       let attempts = attempts + 1;
       if local_result AND 0xF \<noteq> ch \<and> attempts < MAILBOX_MAX_READ_ATTEMPTS
       then mailbox_rounds n ch attempts
       else return (Some (local_result, attempts))
     }
   }"

text \<open>The result word is only stored when the call does not time out.\<close>

definition mailbox_read :: "mailbox_channel \<Rightarrow> ('r, status_t \<times> u32 option) io" where
  "mailbox_read ch = do {
     r \<leftarrow> mailbox_rounds 20 (channel_nr ch) 0;
     return (case r of
        None \<Rightarrow> (ERR_TIMED_OUT, None)
      | Some (v, attempts) \<Rightarrow>
          (if attempts < MAX_MAILBOX_READ_ATTEMPTS then NO_ERROR else ERR_IO, Some v))
   }"

subsection \<open>The frame buffer\<close>

text \<open>\<^verbatim>\<open>fb_mbox_t\<close>: the offsets of its ten words.\<close>

datatype fb_field = Phys_width | Phys_height | Virt_width | Virt_height | Pitch | Depth
  | Virt_x_offs | Virt_y_offs | Fb_p | Fb_size

fun fb_offset :: "fb_field \<Rightarrow> u32" where
  "fb_offset Phys_width = 0"
| "fb_offset Phys_height = 4"
| "fb_offset Virt_width = 8"
| "fb_offset Virt_height = 12"
| "fb_offset Pitch = 16"
| "fb_offset Depth = 20"
| "fb_offset Virt_x_offs = 24"
| "fb_offset Virt_y_offs = 28"
| "fb_offset Fb_p = 32"
| "fb_offset Fb_size = 36"

definition sizeof_fb_mbox :: u32 where "sizeof_fb_mbox = 40"

definition mailbox_get_framebuffer ::
  "(u32 \<Rightarrow> u32 \<Rightarrow> ('r, unit) io) \<Rightarrow> (u32 \<Rightarrow> u32 \<Rightarrow> ('r, unit) io) \<Rightarrow> u32 \<Rightarrow> ('r, status_t) io" where
  "mailbox_get_framebuffer clean_cache invalidate_cache fb_desc = do {
     clean_cache fb_desc sizeof_fb_mbox;
     ret \<leftarrow> mailbox_write Ch_framebuffer (kvaddr_to_vc_bus fb_desc);
     if ret \<noteq> NO_ERROR then return ret
     else do {
       (ret, ack) \<leftarrow> mailbox_read Ch_framebuffer;
       if ret \<noteq> NO_ERROR then return ret
       else do {
         invalidate_cache fb_desc sizeof_fb_mbox;
         return ret
       }
     }
   }"

definition init_framebuffer ::
  "(u32 \<Rightarrow> u32 \<Rightarrow> ('r, unit) io) \<Rightarrow> (u32 \<Rightarrow> u32 \<Rightarrow> ('r, unit) io) \<Rightarrow> u32 \<Rightarrow> ('r, status_t) io" where
  "init_framebuffer clean_cache invalidate_cache fb_desc = do {
     wr (fb_desc + fb_offset Phys_width) 800;
     wr (fb_desc + fb_offset Phys_height) 480;
     wr (fb_desc + fb_offset Virt_width) 800;
     wr (fb_desc + fb_offset Virt_height) 480;
     wr (fb_desc + fb_offset Pitch) 0;
     wr (fb_desc + fb_offset Depth) 32;
     wr (fb_desc + fb_offset Virt_x_offs) 0;
     wr (fb_desc + fb_offset Virt_y_offs) 0;
     wr (fb_desc + fb_offset Fb_p) 0;
     wr (fb_desc + fb_offset Fb_size) 0;
     mailbox_get_framebuffer clean_cache invalidate_cache fb_desc
   }"

text \<open>What the display driver tells LK's graphics library.\<close>

datatype pixel_format = FORMAT_ARGB_8888

record display_framebuffer =
  df_format :: pixel_format
  image_pixels :: u32
  image_format :: pixel_format
  image_rowbytes :: u32
  image_width :: u32
  image_height :: u32
  image_stride :: u32
  df_flush :: u32

definition display_get_framebuffer :: "u32 \<Rightarrow> ('r, status_t \<times> display_framebuffer) io" where
  "display_get_framebuffer fb_desc = do {
     fb_p \<leftarrow> rd (fb_desc + fb_offset Fb_p);
     w1 \<leftarrow> rd (fb_desc + fb_offset Phys_width);
     depth \<leftarrow> rd (fb_desc + fb_offset Depth);
     w2 \<leftarrow> rd (fb_desc + fb_offset Phys_width);
     h \<leftarrow> rd (fb_desc + fb_offset Phys_height);
     w3 \<leftarrow> rd (fb_desc + fb_offset Phys_width);
     return (NO_ERROR, \<lparr>df_format = FORMAT_ARGB_8888,
       image_pixels = paddr_to_kvaddr (fb_p AND 0x3fffffff), image_format = FORMAT_ARGB_8888,
       image_rowbytes = w1 * depth div 8, image_width = w2, image_height = h, image_stride = w3,
       df_flush = 0\<rparr>)
   }"

definition display_get_info :: "u32 \<Rightarrow> ('r, status_t \<times> pixel_format \<times> u32 \<times> u32) io" where
  "display_get_info fb_desc = do {
     w \<leftarrow> rd (fb_desc + fb_offset Phys_width);
     h \<leftarrow> rd (fb_desc + fb_offset Phys_height);
     return (NO_ERROR, FORMAT_ARGB_8888, w, h)
   }"

definition display_present :: "u32 \<Rightarrow> u32 \<Rightarrow> u32 \<Rightarrow> ('r, status_t) io" where
  "display_present img starty endy = return NO_ERROR"

definition dispflush :: "('r, unit) io" where
  "dispflush = return ()"

subsection \<open>Library\<close>

lemma wait_clear_effects: "effects quiet (wait_clear m d)"
  unfolding wait_clear_def by (intro emit_intros) simp_all

lemma wait_clear_inert [inert_intros]: "inert (wait_clear m d)"
  unfolding wait_clear_def by (intro inert_intros)

lemma mailbox_rounds_effects: "effects quiet (mailbox_rounds n ch k)"
  by (induction n arbitrary: k) (auto simp: Let_def intro!: emit_intros wait_clear_effects)

lemma mailbox_rounds_inert [inert_intros]: "inert (mailbox_rounds n ch k)"
  by (induction n arbitrary: k) (auto simp: Let_def intro!: inert_intros)

text \<open>A wait that succeeds ends with a status read in which the bits are clear.\<close>

lemma wait_clear_done:
  assumes "running s" "run_state (wait_clear m d) s = (True, s')" "running s'"
  obtains es where "bus s' = bus s @ es @ [Rd (mailbox_reg MAILBOX_STATUS)]" "list_all quiet es"
    "dev s (bus s @ es) (mailbox_reg MAILBOX_STATUS) AND m = 0" "dev s' = dev s"
proof -
  let ?body = "\<lambda>_ :: unit. do {
        st \<leftarrow> rd (mailbox_reg MAILBOX_STATUS);
        if st AND m \<noteq> 0 then do {
          t \<leftarrow> current_time;
          return (if d < t then Inr False else Inl ())
        } else return (Inr True) }"
  let ?P = "\<lambda>(_ :: unit) t. dev t = dev s \<and> (\<exists>es. bus t = bus s @ es \<and> list_all quiet es)"
  have q: "effects quiet (?body x)" for x by (intro emit_intros) simp_all
  have inv: "?P x' t1" if "?P x t" "running t" "run_state (?body x) t = (Inl x', t1)" for x t x' t1
    using that effectsE [OF q, of t] by fastforce
  have start: "?P () s" by (simp add: exI [of _ "[]"])
  have "\<exists>x s1. ?P x s1 \<and> running s1 \<and> run_state (?body x) s1 = (Inr True, s')"
    by (rule loop_last [OF assms(1) assms(2) [unfolded wait_clear_def] assms(3)]) (use start inv in blast)+
  then obtain s1 where s1: "?P () s1" "running s1" "run_state (?body ()) s1 = (Inr True, s')"
    by blast
  then have "cur s1 (mailbox_reg MAILBOX_STATUS) AND m = 0"
    "s' = log [Rd (mailbox_reg MAILBOX_STATUS)] s1"
    by (auto simp: run_current_time split: if_splits)
  with s1(1) show thesis using that by (auto simp: cur_def)
qed

text \<open>With a clock, and a deadline that leaves room before the counter wraps, the wait returns.\<close>

lemma wait_clear_returns:
  assumes clk: "clocked d clk step" and room: "unat deadline + 3 * step < 2 ^ 32"
  shows "ends d (wait_clear m deadline)"
  unfolding ends_def
proof (intro allI impI)
  fix s :: "'r mach_scheme" assume s: "dev s = d" "running s"
  define K where "K = 2 ^ 32 * (clk (bus s) div 2 ^ 32 + 1)"
  let ?D = "unat deadline"
  let ?P = "\<lambda>(_ :: unit) t. dev t = d \<and> clk (bus t) \<le> K + ?D + step"
  have adv: "clk h \<le> clk (h @ [e])" "clk (h @ [e]) \<le> clk h + step"
    "clk h < clk (h @ [Rd ST_CLO])" "d h ST_CLO = of_nat (clk h)" for h e
    using clk unfolding clocked_def by blast+
  have "clk (bus s) \<le> K" unfolding K_def
    using div_mult_mod_eq [of "clk (bus s)" "2 ^ 32"] mod_less_divisor [of "2 ^ 32" "clk (bus s)"]
    by (simp add: algebra_simps)
  then have start: "?P () s" using s by simp
  let ?body = "\<lambda>_ :: unit. do {
        st \<leftarrow> rd (mailbox_reg MAILBOX_STATUS);
        if st AND m \<noteq> 0 then do {
          t \<leftarrow> current_time;
          return (if deadline < t then Inr False else Inl ())
        } else return (Inr True) } :: ('r, unit + bool) io"
  have "\<exists>y s'. run_state (loop False ?body ()) s = (y, s') \<and> running s' \<and> dev s' = d"
  proof (rule loop_total [where P = ?P and \<mu> = "\<lambda>_ t. K + ?D + step - clk (bus t)"])
    fix x and t :: "'r mach_scheme" assume P: "?P x t" and t: "running t"
    let ?h = "bus t @ [Rd (mailbox_reg MAILBOX_STATUS), Rd ST_CHI]"
    let ?t = "log [Rd (mailbox_reg MAILBOX_STATUS), Rd ST_CHI, Rd ST_CLO] t"
    have c: "clk (bus t) \<le> clk ?h" "clk ?h \<le> clk (bus t) + 2 * step"
      using adv(1,2) [of "bus t"] adv(1,2) [of "bus t @ [Rd (mailbox_reg MAILBOX_STATUS)]"]
      by (fastforce intro: order_trans)+
    have n: "clk ?h < clk (bus ?t)" "clk (bus ?t) \<le> clk ?h + step"
      using adv(2,3) [of ?h] by simp_all
    show "(\<exists>y s1. run_state (?body x) t = (Inr y, s1) \<and> running s1 \<and> dev s1 = d) \<or>
      (\<exists>x' s1. run_state (?body x) t = (Inl x', s1) \<and> running s1 \<and> ?P x' s1 \<and>
         K + ?D + step - clk (bus s1) < K + ?D + step - clk (bus t))"
    proof (cases "cur t (mailbox_reg MAILBOX_STATUS) AND m = 0 \<or> deadline < of_nat (clk ?h)")
      case True
      then show ?thesis using P t adv(4) [of ?h] by (auto simp: run_current_time cur_def)
    next
      case False
      then have run: "run_state (?body x) t = (Inl (), ?t)"
        using P t adv(4) [of ?h] by (auto simp: run_current_time cur_def)
      have "clk ?h \<le> K + ?D"
      proof (rule ccontr)
        assume late: "\<not> clk ?h \<le> K + ?D"
        define r where "r = clk ?h - K"
        have "clk ?h < K + 2 ^ 32" using c(2) P room by linarith
        then have r: "clk ?h = K + r" "?D < r" "r < 2 ^ 32"
          using late unfolding r_def by linarith+
        have "(K + r) mod 2 ^ 32 = r" unfolding K_def mod_mult_self4 using r(3) by (rule mod_less)
        then have "unat (of_nat (clk ?h) :: u32) = r" unfolding unat_of_nat r(1) by simp
        then show False using False r(2) by (simp add: word_less_nat_alt)
      qed
      then have "clk (bus ?t) \<le> K + ?D + step"
        "K + ?D + step - clk (bus ?t) < K + ?D + step - clk (bus t)"
        using n c(1) by linarith+
      then show ?thesis
        using run P t by (intro disjI2 exI [of _ "()"] exI [of _ ?t] conjI) simp_all
    qed
  qed (use s start in auto)
  then show "running (snd (run_state (wait_clear m deadline) s)) \<and>
      dev (snd (run_state (wait_clear m deadline) s)) = d"
    by (auto simp: wait_clear_def)
qed

lemma deadline_wraps:
  fixes w :: u32
  assumes "unat w + 500000 \<ge> 2 ^ 32"
  shows "w + 500000 < w"
proof -
  have "unat (w + 500000) = (unat w + 500000) mod 2 ^ 32" by (simp add: unat_word_ariths)
  also have "\<dots> = (unat w + 500000 - 2 ^ 32) mod 2 ^ 32" using assms by (rule le_mod_geq)
  also have "\<dots> \<le> unat w + 500000 - 2 ^ 32" by (rule mod_less_eq_dividend)
  finally have "unat (w + 500000) < unat w" using assms by simp
  then show ?thesis by (simp add: word_less_nat_alt)
qed

lemma channel_nr_less: "channel_nr ch < 16"
  by (cases ch) simp_all

lemma channel_mask: "channel_nr ch AND 0xF = channel_nr ch"
  by (cases ch) simp_all

lemma mailbox_write_outcome:
  assumes "running s" "run_state (mailbox_write ch v) s = (st, s')" "running s'"
  shows "(st = ERR_TIMED_OUT \<and> writes (bus s') = writes (bus s)) \<or>
    (st = NO_ERROR \<and> (\<exists>h. bus s' = h @ [Rd (mailbox_reg MAILBOX_STATUS),
        Wr (mailbox_reg MAILBOX_WRITE) (v OR channel_nr ch)] \<and> writes h = writes (bus s) \<and>
      dev s h (mailbox_reg MAILBOX_STATUS) AND MAILBOX_FULL = 0))"
proof -
  let ?s0 = "log [Rd ST_CHI, Rd ST_CLO] s"
  let ?d = "cur (log [Rd ST_CHI] s) ST_CLO + MAILBOX_WAIT_TIMEOUT_US"
  obtain ok s1 where w: "run_state (wait_clear MAILBOX_FULL ?d) ?s0 = (ok, s1)" by fastforce
  have run: "run_state (if \<not> ok then return ERR_TIMED_OUT
      else do { wr (mailbox_reg MAILBOX_WRITE) (v OR channel_nr ch); return NO_ERROR }) s1 = (st, s')"
    using assms(1,2) w by (simp add: mailbox_write_def Let_def run_current_time)
  then have s1: "running s1" using assms(3) by (auto split: if_splits)
  show ?thesis
  proof (cases ok)
    case False
    then show ?thesis using run quiet_run(1) [OF wait_clear_effects w] by simp
  next
    case True
    then have "run_state (wait_clear MAILBOX_FULL ?d) ?s0 = (True, s1)" using w by simp
    from wait_clear_done [OF _ this s1] assms(1)
    obtain es where es: "bus s1 = bus ?s0 @ es @ [Rd (mailbox_reg MAILBOX_STATUS)]" "list_all quiet es"
      "dev ?s0 (bus ?s0 @ es) (mailbox_reg MAILBOX_STATUS) AND MAILBOX_FULL = 0" by auto
    have "bus s' = (bus ?s0 @ es) @ [Rd (mailbox_reg MAILBOX_STATUS),
        Wr (mailbox_reg MAILBOX_WRITE) (v OR channel_nr ch)]" "st = NO_ERROR"
      using run True s1 es(1) by auto
    moreover have "writes (bus ?s0 @ es) = writes (bus s)" using es(2) by (simp add: writes_quiet)
    ultimately show ?thesis using es(3) by (intro disjI2 conjI exI [of _ "bus ?s0 @ es"]) simp_all
  qed
qed

text \<open>One round of \<^verbatim>\<open>mailbox_read\<close> when the FIFO is not empty, and the \<open>i\<close>-th message.\<close>

definition round_events :: "event list" where
  "round_events = [Rd ST_CHI, Rd ST_CLO, Rd (mailbox_reg MAILBOX_STATUS), Rd (mailbox_reg MAILBOX_READ)]"

definition msg :: "'r mach_scheme \<Rightarrow> nat \<Rightarrow> u32" where
  "msg s i = dev s (bus s @ concat (replicate i round_events) @ butlast round_events) (mailbox_reg MAILBOX_READ)"

lemma msg_log: "msg (log round_events s) i = msg s (Suc i)"
  by (simp add: msg_def)

definition never_empty :: "device \<Rightarrow> bool" where
  "never_empty d \<longleftrightarrow> (\<forall>h. d h (mailbox_reg MAILBOX_STATUS) AND MAILBOX_EMPTY = 0)"

lemma run_wait_clear_now:
  assumes "running s" "cur s (mailbox_reg MAILBOX_STATUS) AND m = 0"
  shows "run_state (wait_clear m d) s = (True, log [Rd (mailbox_reg MAILBOX_STATUS)] s)"
  unfolding wait_clear_def using assms by (intro loop_finish) simp_all

lemma rounds_exact:
  assumes "running s" "never_empty (dev s)" "k < n" "a + of_nat n = 20" "n \<le> 20"
    and "\<And>i. i < k \<Longrightarrow> msg s i AND 0xF \<noteq> ch" and "msg s k AND 0xF = ch \<or> Suc k = n"
  shows "run_state (mailbox_rounds n ch a) s =
    (Some (msg s k, a + 1 + of_nat k), log (concat (replicate (Suc k) round_events)) s)"
  using assms
proof (induction n arbitrary: s k a)
  case (Suc n)
  let ?s = "log round_events s"
  have e: "run_state (wait_clear MAILBOX_EMPTY dl) (log [Rd ST_CHI, Rd ST_CLO] s) =
      (True, log [Rd ST_CHI, Rd ST_CLO, Rd (mailbox_reg MAILBOX_STATUS)] s)" for dl
    using Suc.prems(1,2) by (subst run_wait_clear_now) (simp_all add: never_empty_def cur_def)
  have m0: "cur (log [Rd ST_CHI, Rd ST_CLO, Rd (mailbox_reg MAILBOX_STATUS)] s) (mailbox_reg MAILBOX_READ) = msg s 0"
    by (simp add: msg_def cur_def round_events_def)
  have a: "a + 1 < MAILBOX_MAX_READ_ATTEMPTS \<longleftrightarrow> n \<noteq> 0"
  proof -
    have "a + 1 = 20 - of_nat n" using Suc.prems(4) by (simp add: algebra_simps)
    also have "\<dots> = of_nat (20 - n)" using Suc.prems(5) by (simp add: of_nat_diff)
    finally have "unat (a + 1) = 20 - n" using Suc.prems(5) by (simp only: unat_of_nat) simp
    then have "a + 1 < MAILBOX_MAX_READ_ATTEMPTS \<longleftrightarrow> 20 - n < 20"
      by (simp add: MAILBOX_MAX_READ_ATTEMPTS_def word_less_nat_alt)
    also have "\<dots> \<longleftrightarrow> n \<noteq> 0" using Suc.prems(5) by presburger
    finally show ?thesis .
  qed
  have step: "run_state (mailbox_rounds (Suc n) ch a) s =
      (if msg s 0 AND 0xF \<noteq> ch \<and> n \<noteq> 0 then run_state (mailbox_rounds n ch (a + 1)) ?s
       else (Some (msg s 0, a + 1), ?s))"
    using Suc.prems(1) by (simp add: run_current_time Let_def e m0 a round_events_def)
  show ?case
  proof (cases k)
    case 0
    then show ?thesis using step Suc.prems(7) by auto
  next
    case (Suc k')
    have "msg s 0 AND 0xF \<noteq> ch" "n \<noteq> 0" using Suc.prems(3,6) Suc by auto
    then have "run_state (mailbox_rounds (Suc n) ch a) s = run_state (mailbox_rounds n ch (a + 1)) ?s"
      using step by simp
    also have "\<dots> = (Some (msg ?s k', a + 1 + 1 + of_nat k'), log (concat (replicate (Suc k') round_events)) ?s)"
    proof (rule Suc.IH)
      show "msg ?s i AND 0xF \<noteq> ch" if "i < k'" for i
        using Suc.prems(6) [of "Suc i"] that Suc by (simp add: msg_log)
    qed (use Suc.prems Suc in \<open>auto simp: msg_log add.assoc\<close>)
    finally show ?thesis by (simp add: Suc msg_log add.assoc add.commute)
  qed
qed simp

subsection \<open>Properties\<close>

text \<open>C25.
  Sending.  If a clock runs and the deadline does not wrap, \<^verbatim>\<open>mailbox_write\<close> returns.  Either it
  reports success, having written the mailbox exactly once, with the value and the channel in its
  low bits, directly after a status read that showed room; or it reports the time-out and has
  written nothing.
\<close>

theorem mailbox_write_once:
  assumes "running s" and clk: "clocked (dev s) clk step"
    and room: "unat (of_nat (clk (bus s @ [Rd ST_CHI])) + 500000 :: u32) + 3 * step < 2 ^ 32"
    and run: "run_state (mailbox_write ch v) s = (st, s')"
  shows "running s' \<and>
    ((st = ERR_TIMED_OUT \<and> writes (bus s') = writes (bus s)) \<or>
     (st = NO_ERROR \<and> (\<exists>h. bus s' = h @ [Rd (mailbox_reg MAILBOX_STATUS),
         Wr (mailbox_reg MAILBOX_WRITE) (v OR channel_nr ch)] \<and> writes h = writes (bus s) \<and>
       dev s h (mailbox_reg MAILBOX_STATUS) AND MAILBOX_FULL = 0)))"
proof -
  let ?d = "cur (log [Rd ST_CHI] s) ST_CLO + MAILBOX_WAIT_TIMEOUT_US"
  have "?d = of_nat (clk (bus s @ [Rd ST_CHI])) + 500000"
    using clk by (simp add: clocked_def cur_def MAILBOX_WAIT_TIMEOUT_US_def)
  then have d: "unat ?d + 3 * step < 2 ^ 32" using room by metis
  obtain ok s1 where w: "run_state (wait_clear MAILBOX_FULL ?d) (log [Rd ST_CHI, Rd ST_CLO] s) = (ok, s1)"
    by (metis surj_pair)
  have "running s1"
    by (rule endsD(1) [OF wait_clear_returns [OF clk d] _ _ w]) (simp_all add: assms(1))
  then have "running s'"
    using run assms(1) w by (auto simp: mailbox_write_def Let_def run_current_time split: if_splits)
  with mailbox_write_outcome [OF assms(1) run] show ?thesis by blast
qed

theorem mailbox_write_once_witness:
  "\<exists>st s'. run_state (mailbox_write Ch_framebuffer 0xc0001230) (boot (clock_dev (\<lambda>_. 0))) = (st, s') \<and>
     running s'"
proof -
  let ?s = "boot (clock_dev (\<lambda>_. 0))"
  obtain st s' where run: "run_state (mailbox_write Ch_framebuffer 0xc0001230) ?s = (st, s')"
    by (metis surj_pair)
  have c: "running ?s" "clocked (dev ?s) (\<lambda>h. 1000 * length (filter (\<lambda>e. e = Rd ST_CLO) h)) 1000"
    by (simp_all add: clocked_clock_dev)
  have room: "unat (of_nat (1000 * length (filter (\<lambda>e. e = Rd ST_CLO) (bus ?s @ [Rd ST_CHI]))) + 500000 :: u32)
      + 3 * 1000 < 2 ^ 32" by (simp add: reg_defs)
  from mailbox_write_once [OF c room run] run show ?thesis by blast
qed

text \<open>C26.
  Receiving, from a FIFO that is not empty.  Messages for other channels are dropped, up to 20
  messages are taken.  If message \<open>k\<close> (counting from 0) is the first for the channel, exactly
  \<open>k + 1\<close> messages are consumed and message \<open>k\<close> is delivered; but the call reports success only for
  \<open>k < 7\<close>: the loop's bound is 20, the result is compared with 8, so from the eighth message on the
  right message is reported as \<^verbatim>\<open>ERR_IO\<close>.
\<close>

theorem mailbox_read_delivers:
  assumes "running s" and "never_empty (dev s)" and "k < 20"
    and "msg s k AND 0xF = channel_nr ch" and "\<And>i. i < k \<Longrightarrow> msg s i AND 0xF \<noteq> channel_nr ch"
  shows "run_state (mailbox_read ch) s =
    ((if k < 7 then NO_ERROR else ERR_IO, Some (msg s k)),
     log (concat (replicate (Suc k) round_events)) s)"
proof -
  have "(1 + of_nat k :: u32) < 8 \<longleftrightarrow> k < 7"
  proof -
    have "(1 + of_nat k :: u32) = of_nat (Suc k)" by simp
    moreover have "unat (of_nat (Suc k) :: u32) = Suc k" using assms(3) by (subst unat_of_nat) simp
    ultimately show ?thesis by (simp add: word_less_nat_alt)
  qed
  then show ?thesis
    using rounds_exact [OF assms(1,2,3), of 0 "channel_nr ch"] assms(4,5)
    by (simp add: mailbox_read_def MAX_MAILBOX_READ_ATTEMPTS_def del: replicate_Suc)
qed

text \<open>A mailbox with seven messages for channel 8 before one for channel 1.\<close>

definition mbox_dev :: device where
  "mbox_dev h a =
     (if a = mailbox_reg MAILBOX_READ
      then (if length (filter (\<lambda>e. e = Rd (mailbox_reg MAILBOX_READ)) h) < 7 then 0x18 else 0x21)
      else 0)"

theorem mailbox_read_delivers_witness:
  "\<exists>s'. run_state (mailbox_read Ch_framebuffer) (boot mbox_dev) = ((ERR_IO, Some 0x21), s')"
proof -
  let ?s = "boot mbox_dev"
  have f: "length (filter (\<lambda>e. e = Rd (mailbox_reg MAILBOX_READ)) (concat (replicate i round_events))) = i" for i
    by (induction i) (simp_all add: round_events_def reg_defs)
  have m: "msg ?s i = (if i < 7 then 0x18 else 0x21)" for i
    unfolding msg_def mbox_dev_def boot_simps by (simp add: f) (simp add: round_events_def reg_defs)
  have "running ?s" "never_empty (dev ?s)" "(7 :: nat) < 20"
    "msg ?s 7 AND 0xF = channel_nr Ch_framebuffer"
    "\<And>i. i < 7 \<Longrightarrow> msg ?s i AND 0xF \<noteq> channel_nr Ch_framebuffer"
    by (simp_all add: never_empty_def mbox_dev_def reg_defs m)
  from mailbox_read_delivers [OF this] show ?thesis by (simp add: m)
qed

text \<open>The time-out at the wrap of the counter.  When the clock is within half a second of its wrap,
  the sum in the deadline wraps, and a full FIFO is reported as timed out at the first look, with
  no waiting at all.
\<close>

theorem mailbox_write_spurious_timeout:
  assumes "running s" and "unat (cur (log [Rd ST_CHI] s) ST_CLO) + 500000 \<ge> 2 ^ 32"
    and full: "cur (log [Rd ST_CHI, Rd ST_CLO] s) (mailbox_reg MAILBOX_STATUS) AND MAILBOX_FULL \<noteq> 0"
    and later: "cur (log [Rd ST_CHI] s) ST_CLO \<le>
      cur (log [Rd ST_CHI, Rd ST_CLO, Rd (mailbox_reg MAILBOX_STATUS), Rd ST_CHI] s) ST_CLO"
  shows "run_state (mailbox_write ch v) s =
    (ERR_TIMED_OUT, log [Rd ST_CHI, Rd ST_CLO, Rd (mailbox_reg MAILBOX_STATUS), Rd ST_CHI, Rd ST_CLO] s)"
proof -
  let ?now = "cur (log [Rd ST_CHI] s) ST_CLO" and ?s0 = "log [Rd ST_CHI, Rd ST_CLO] s"
  have "?now + 500000 < ?now" using assms(2) by (rule deadline_wraps)
  then have "?now + MAILBOX_WAIT_TIMEOUT_US <
      cur (log [Rd ST_CHI, Rd ST_CLO, Rd (mailbox_reg MAILBOX_STATUS), Rd ST_CHI] s) ST_CLO"
    using later by (simp add: MAILBOX_WAIT_TIMEOUT_US_def)
  then have "run_state (wait_clear MAILBOX_FULL (?now + MAILBOX_WAIT_TIMEOUT_US)) ?s0 =
      (False, log [Rd (mailbox_reg MAILBOX_STATUS), Rd ST_CHI, Rd ST_CLO] ?s0)"
    unfolding wait_clear_def using assms(1) full by (intro loop_finish) (simp_all add: run_current_time)
  then show ?thesis using assms(1) by (simp add: mailbox_write_def Let_def run_current_time)
qed

theorem mailbox_write_spurious_timeout_witness:
  "\<exists>s'. run_state (mailbox_write Ch_power 0x10) (boot (\<lambda>_ a. 0xffffff00)) = (ERR_TIMED_OUT, s')"
  by (rule exI, rule mailbox_write_spurious_timeout) (simp_all add: cur_def reg_defs)

text \<open>Addresses survive the trip: a 16-byte aligned descriptor's bus address and the channel can be
  told apart in the mailbox word, and translating the bus address back gives the address of the
  descriptor within the first gigabyte.
\<close>

theorem mailbox_word_roundtrip:
  assumes "x AND 0xF = 0"
  shows "let w = kvaddr_to_vc_bus x OR channel_nr ch in
    w AND 0xF = channel_nr ch \<and> w AND NOT 0xF = kvaddr_to_vc_bus x \<and>
    vc_bus_to_kvaddr (w AND NOT 0xF) = x AND 0x3fffffff"
proof -
  have m: "(0xF :: u32) = mask 4" "(0x3fffffff :: u32) = mask 30"
    by (simp_all add: mask_numeral)
  define c :: u32 where "c = push_bit 30 3"
  have c: "(0xc0000000 :: u32) = c" by (simp add: c_def)
  have hi: "\<not> bit c n" if "n < 30" for n
    unfolding c_def bit_push_bit_iff using that by simp
  have low: "\<not> bit x n" if "n < 4" for n
    using arg_cong [OF assms [unfolded m], of "\<lambda>w. bit w n"] that by (simp add: bit_simps)
  have "(x AND mask 30) AND c = (0 :: u32)"
    by (rule bit_word_eqI) (auto simp: bit_simps hi)
  then have k: "kvaddr_to_vc_bus x = (x AND mask 30) OR c"
    unfolding kvaddr_to_vc_bus_def BCM_SDRAM_BUS_ADDR_BASE_def BCM_SDRAM_BUS_ADDR_BASE_NO_L2_def m c
    by (rule disjunctive_add_eq_or)
  have ch: "\<not> bit (channel_nr ch) n" if "\<not> n < 4" for n
    using arg_cong [OF channel_mask [of ch, unfolded m], of "\<lambda>w. bit w n"] that
    by (simp add: bit_simps)
  have w4: "((x AND mask 30) OR c OR channel_nr ch) AND mask 4 = channel_nr ch"
    using low ch hi by (intro bit_word_eqI) (auto simp: bit_simps not_le)
  have wh: "((x AND mask 30) OR c OR channel_nr ch) AND NOT (mask 4) =
      (x AND mask 30) OR c"
    using low ch hi by (intro bit_word_eqI) (auto simp: bit_simps)
  have "((x AND mask 30) OR c) AND mask 30 = x AND mask 30"
    using hi by (intro bit_word_eqI) (auto simp: bit_simps)
  then show ?thesis
    unfolding Let_def k vc_bus_to_kvaddr_def paddr_to_kvaddr_def m using w4 wh
    by (simp only: or.assoc simp_thms)
qed

theorem mailbox_word_roundtrip_witness:
  "vc_bus_to_kvaddr ((kvaddr_to_vc_bus 0x1230 OR channel_nr Ch_framebuffer) AND NOT 0xF) = 0x1230"
proof -
  have "(0x1230 :: u32) AND 0xF = 0" and m: "(0x1230 :: u32) AND 0x3fffffff = 0x1230" by simp_all
  from mailbox_word_roundtrip [OF this(1), of Ch_framebuffer]
  show ?thesis unfolding Let_def m by blast
qed

end
