(* ===== verification/Pll_Regs.thy ===== *)
theory Pll_Regs
  imports Regs
begin

unbundle bit_operations_syntax

text \<open>
  The registers of the clock manager (\<^verbatim>\<open>CM_*\<close>) and of the PLLs (\<^verbatim>\<open>A2W_*\<close>), from
  \<^verbatim>\<open>include/platform/bcm28xx/pll.h\<close>.
\<close>

subsection \<open>Clock manager and PLL registers\<close>

definition CM_SRC_OSC :: u32 where [reg_defs]: "CM_SRC_OSC = 1"
definition CM_SRC_PLLC_CORE0 :: u32 where [reg_defs]: "CM_SRC_PLLC_CORE0 = 5"
definition CM_PASSWORD :: u32 where [reg_defs]: "CM_PASSWORD = 0x5a000000"
definition CM_VPUCTL :: u32 where [reg_defs]: "CM_VPUCTL = CM_BASE + 0x008"
definition CM_VPUCTL_FRAC_SET :: u32 where [reg_defs]: "CM_VPUCTL_FRAC_SET = 0x00000200"
definition CM_VPUCTL_BUSY_SET :: u32 where [reg_defs]: "CM_VPUCTL_BUSY_SET = 0x00000080"
definition CM_VPUCTL_GATE_SET :: u32 where [reg_defs]: "CM_VPUCTL_GATE_SET = 0x00000040"
definition CM_VPUDIV :: u32 where [reg_defs]: "CM_VPUDIV = CM_BASE + 0x00c"
definition CM_PERIICTL :: u32 where [reg_defs]: "CM_PERIICTL = CM_BASE + 0x020"
definition CM_PERIIDIV :: u32 where [reg_defs]: "CM_PERIIDIV = CM_BASE + 0x024"
definition CM_DPICTL :: u32 where [reg_defs]: "CM_DPICTL = CM_BASE + 0x068"
definition CM_DPICTL_KILL_SET :: u32 where [reg_defs]: "CM_DPICTL_KILL_SET = 0x20"
definition CM_DPICTL_BUSY_SET :: u32 where [reg_defs]: "CM_DPICTL_BUSY_SET = 0x80"
definition CM_DPICTL_ENAB_SET :: u32 where [reg_defs]: "CM_DPICTL_ENAB_SET = 0x00000010"
definition CM_DPIDIV :: u32 where [reg_defs]: "CM_DPIDIV = CM_BASE + 0x06c"
definition CM_TIMERCTL :: u32 where [reg_defs]: "CM_TIMERCTL = CM_BASE + 0x0e8"
definition CM_TIMERDIV :: u32 where [reg_defs]: "CM_TIMERDIV = CM_BASE + 0x0ec"
definition CM_TCNTCTL :: u32 where [reg_defs]: "CM_TCNTCTL = CM_BASE + 0x0c0"
definition CM_TCNTCNT :: u32 where [reg_defs]: "CM_TCNTCNT = CM_BASE + 0x0c4"
definition CM_UARTCTL :: u32 where [reg_defs]: "CM_UARTCTL = CM_BASE + 0x0f0"
definition CM_UARTCTL_FRAC_SET :: u32 where [reg_defs]: "CM_UARTCTL_FRAC_SET = 0x00000200"
definition CM_UARTCTL_ENAB_SET :: u32 where [reg_defs]: "CM_UARTCTL_ENAB_SET = 0x00000010"
definition CM_UARTDIV :: u32 where [reg_defs]: "CM_UARTDIV = CM_BASE + 0x0f4"
definition CM_VECCTL :: u32 where [reg_defs]: "CM_VECCTL = CM_BASE + 0x0f8"
definition CM_VECCTL_ENAB_SET :: u32 where [reg_defs]: "CM_VECCTL_ENAB_SET = 0x00000010"
definition CM_VECDIV :: u32 where [reg_defs]: "CM_VECDIV = CM_BASE + 0x0fc"
definition CM_OSCCOUNT :: u32 where [reg_defs]: "CM_OSCCOUNT = CM_BASE + 0x100"
definition CM_PLLA :: u32 where [reg_defs]: "CM_PLLA = CM_BASE + 0x104"
definition CM_PLLC :: u32 where [reg_defs]: "CM_PLLC = CM_BASE + 0x108"
definition CM_PLLC_DIGRST_SET :: u32 where [reg_defs]: "CM_PLLC_DIGRST_SET = 0x00000200"
definition CM_PLLC_ANARST_SET :: u32 where [reg_defs]: "CM_PLLC_ANARST_SET = 0x00000100"
definition CM_PLLC_HOLDPER_SET :: u32 where [reg_defs]: "CM_PLLC_HOLDPER_SET = 0x00000080"
definition CM_PLLC_HOLDCORE2_SET :: u32 where [reg_defs]: "CM_PLLC_HOLDCORE2_SET = 0x00000020"
definition CM_PLLC_HOLDCORE1_SET :: u32 where [reg_defs]: "CM_PLLC_HOLDCORE1_SET = 0x00000008"
definition CM_PLLC_HOLDCORE0_SET :: u32 where [reg_defs]: "CM_PLLC_HOLDCORE0_SET = 0x00000002"
definition CM_PLLC_LOADCORE0_SET :: u32 where [reg_defs]: "CM_PLLC_LOADCORE0_SET = 0x00000001"
definition CM_PLLD :: u32 where [reg_defs]: "CM_PLLD = CM_BASE + 0x10C"
definition CM_PLLH :: u32 where [reg_defs]: "CM_PLLH = CM_BASE + 0x110"
definition CM_LOCK :: u32 where [reg_defs]: "CM_LOCK = CM_BASE + 0x114"
definition CM_LOCK_FLOCKA_BIT :: nat where [reg_defs]: "CM_LOCK_FLOCKA_BIT = 8"
definition CM_LOCK_FLOCKB_BIT :: nat where [reg_defs]: "CM_LOCK_FLOCKB_BIT = 9"
definition CM_LOCK_FLOCKC_BIT :: nat where [reg_defs]: "CM_LOCK_FLOCKC_BIT = 10"
definition CM_LOCK_FLOCKD_BIT :: nat where [reg_defs]: "CM_LOCK_FLOCKD_BIT = 11"
definition CM_LOCK_FLOCKH_BIT :: nat where [reg_defs]: "CM_LOCK_FLOCKH_BIT = 12"
definition CM_PLLB :: u32 where [reg_defs]: "CM_PLLB = CM_BASE + 0x170"
definition CM_PLLB_LOADARM_SET :: u32 where [reg_defs]: "CM_PLLB_LOADARM_SET = 0x00000001"
definition CM_PLLB_HOLDARM_SET :: u32 where [reg_defs]: "CM_PLLB_HOLDARM_SET = 0x00000002"
definition CM_PLL_ANARST :: u32 where [reg_defs]: "CM_PLL_ANARST = 0x00000100"
definition CM_PLL_DIGRST :: u32 where [reg_defs]: "CM_PLL_DIGRST = 0x00000200"
definition CM_ARMCTL :: u32 where [reg_defs]: "CM_ARMCTL = CM_BASE + 0x1b0"
definition CM_ARMCTL_ENAB_SET :: u32 where [reg_defs]: "CM_ARMCTL_ENAB_SET = 0x00000010"
definition A2W_BASE :: u32 where [reg_defs]: "A2W_BASE = BCM_PERIPH_BASE_VIRT + 0x102000"
definition A2W_XOSC_CTRL :: u32 where [reg_defs]: "A2W_XOSC_CTRL = A2W_BASE + 0x190"
definition A2W_XOSC_CTRL_DDREN_SET :: u32 where [reg_defs]: "A2W_XOSC_CTRL_DDREN_SET = 0x00000010"
definition A2W_XOSC_CTRL_PLLAEN_SET :: u32 where [reg_defs]: "A2W_XOSC_CTRL_PLLAEN_SET = 0x00000040"
definition A2W_XOSC_CTRL_PLLBEN_SET :: u32 where [reg_defs]: "A2W_XOSC_CTRL_PLLBEN_SET = 0x00000080"
definition A2W_XOSC_CTRL_PLLCEN_SET :: u32 where [reg_defs]: "A2W_XOSC_CTRL_PLLCEN_SET = 0x00000001"
definition A2W_XOSC_CTRL_PLLDEN_SET :: u32 where [reg_defs]: "A2W_XOSC_CTRL_PLLDEN_SET = 0x00000020"
definition A2W_PASSWORD :: u32 where [reg_defs]: "A2W_PASSWORD = 0x5a000000"
definition A2W_PLLA_DIG0 :: u32 where [reg_defs]: "A2W_PLLA_DIG0 = A2W_BASE + 0x000"
definition A2W_PLLC_DIG0 :: u32 where [reg_defs]: "A2W_PLLC_DIG0 = A2W_BASE + 0x020"
definition A2W_PLLD_DIG0 :: u32 where [reg_defs]: "A2W_PLLD_DIG0 = A2W_BASE + 0x040"
definition A2W_PLLH_DIG0 :: u32 where [reg_defs]: "A2W_PLLH_DIG0 = A2W_BASE + 0x060"
definition A2W_PLLB_DIG0 :: u32 where [reg_defs]: "A2W_PLLB_DIG0 = A2W_BASE + 0x0e0"
definition A2W_PLLC_DIG1 :: u32 where [reg_defs]: "A2W_PLLC_DIG1 = A2W_BASE + 0x024"
definition A2W_PLLC_DIG2 :: u32 where [reg_defs]: "A2W_PLLC_DIG2 = A2W_BASE + 0x028"
definition A2W_PLLC_DIG3 :: u32 where [reg_defs]: "A2W_PLLC_DIG3 = A2W_BASE + 0x02c"
definition A2W_PLLC_ANA1 :: u32 where [reg_defs]: "A2W_PLLC_ANA1 = A2W_BASE + 0x034"
definition A2W_PLLC_ANA2 :: u32 where [reg_defs]: "A2W_PLLC_ANA2 = A2W_BASE + 0x038"
definition A2W_PLLC_ANA3 :: u32 where [reg_defs]: "A2W_PLLC_ANA3 = A2W_BASE + 0x03c"
definition A2W_PLLB_DIG1 :: u32 where [reg_defs]: "A2W_PLLB_DIG1 = A2W_BASE + 0x0e4"
definition A2W_PLLB_DIG2 :: u32 where [reg_defs]: "A2W_PLLB_DIG2 = A2W_BASE + 0x0e8"
definition A2W_PLLB_DIG3 :: u32 where [reg_defs]: "A2W_PLLB_DIG3 = A2W_BASE + 0x0ec"
definition A2W_PLLB_ANA1 :: u32 where [reg_defs]: "A2W_PLLB_ANA1 = A2W_BASE + 0x0f4"
definition A2W_PLLB_ANA2 :: u32 where [reg_defs]: "A2W_PLLB_ANA2 = A2W_BASE + 0x0f8"
definition A2W_PLLB_ANA3 :: u32 where [reg_defs]: "A2W_PLLB_ANA3 = A2W_BASE + 0x0fc"
definition CM_PLLB_ANARST_SET :: u32 where [reg_defs]: "CM_PLLB_ANARST_SET = 0x00000100"
definition CM_PLLB_DIGRST_SET :: u32 where [reg_defs]: "CM_PLLB_DIGRST_SET = 0x00000200"
definition A2W_PLLB_ANA_MULTI :: u32 where [reg_defs]: "A2W_PLLB_ANA_MULTI = A2W_BASE + 0xff0"
definition A2W_PLL_ANA3_KA_LSB :: nat where [reg_defs]: "A2W_PLL_ANA3_KA_LSB = 7"
definition A2W_PLL_ANA3_KA_MASK :: u32 where [reg_defs]: "A2W_PLL_ANA3_KA_MASK = push_bit A2W_PLL_ANA3_KA_LSB (BIT_MASK 3)"
definition A2W_PLL_ANA1_KI_LSB :: nat where [reg_defs]: "A2W_PLL_ANA1_KI_LSB = 19"
definition A2W_PLL_ANA1_KI_MASK :: u32 where [reg_defs]: "A2W_PLL_ANA1_KI_MASK = push_bit A2W_PLL_ANA1_KI_LSB (BIT_MASK 3)"
definition A2W_PLL_ANA1_KP_LSB :: nat where [reg_defs]: "A2W_PLL_ANA1_KP_LSB = 15"
definition A2W_PLL_ANA1_KP_MASK :: u32 where [reg_defs]: "A2W_PLL_ANA1_KP_MASK = push_bit A2W_PLL_ANA1_KP_LSB (BIT_MASK 4)"
definition A2W_PLLH_ANA0_KA_LSB :: nat where [reg_defs]: "A2W_PLLH_ANA0_KA_LSB = 19"
definition A2W_PLLH_ANA0_KA_MASK :: u32 where [reg_defs]: "A2W_PLLH_ANA0_KA_MASK = push_bit A2W_PLLH_ANA0_KA_LSB (BIT_MASK 3)"
definition A2W_PLLH_ANA0_KI_LO_LSB :: nat where [reg_defs]: "A2W_PLLH_ANA0_KI_LO_LSB = 22"
definition A2W_PLLH_ANA1_KI_LO_BITS :: nat where [reg_defs]: "A2W_PLLH_ANA1_KI_LO_BITS = 2"
definition A2W_PLLH_ANA0_KI_LO_MASK :: u32 where [reg_defs]: "A2W_PLLH_ANA0_KI_LO_MASK = push_bit A2W_PLLH_ANA0_KI_LO_LSB (BIT_MASK A2W_PLLH_ANA1_KI_LO_BITS)"
definition A2W_PLLH_ANA1_KI_HI_LSB :: nat where [reg_defs]: "A2W_PLLH_ANA1_KI_HI_LSB = 0"
definition A2W_PLLH_ANA1_KI_HI_MASK :: u32 where [reg_defs]: "A2W_PLLH_ANA1_KI_HI_MASK = push_bit A2W_PLLH_ANA1_KI_HI_LSB (BIT_MASK 1)"
definition A2W_PLLH_ANA1_KP_LSB :: nat where [reg_defs]: "A2W_PLLH_ANA1_KP_LSB = 1"
definition A2W_PLLH_ANA1_KP_MASK :: u32 where [reg_defs]: "A2W_PLLH_ANA1_KP_MASK = push_bit A2W_PLLH_ANA1_KP_LSB (BIT_MASK 4)"
definition A2W_PLLA_ANA0 :: u32 where [reg_defs]: "A2W_PLLA_ANA0 = A2W_BASE + 0x010"
definition A2W_PLLC_ANA0 :: u32 where [reg_defs]: "A2W_PLLC_ANA0 = A2W_BASE + 0x030"
definition A2W_PLLD_ANA0 :: u32 where [reg_defs]: "A2W_PLLD_ANA0 = A2W_BASE + 0x050"
definition A2W_PLLH_ANA0 :: u32 where [reg_defs]: "A2W_PLLH_ANA0 = A2W_BASE + 0x070"
definition A2W_PLLB_ANA0 :: u32 where [reg_defs]: "A2W_PLLB_ANA0 = A2W_BASE + 0x0f0"
definition A2W_PLLA_FRAC :: u32 where [reg_defs]: "A2W_PLLA_FRAC = A2W_BASE + 0x200"
definition A2W_PLLC_FRAC :: u32 where [reg_defs]: "A2W_PLLC_FRAC = A2W_BASE + 0x220"
definition A2W_PLLD_FRAC :: u32 where [reg_defs]: "A2W_PLLD_FRAC = A2W_BASE + 0x240"
definition A2W_PLLH_FRAC :: u32 where [reg_defs]: "A2W_PLLH_FRAC = A2W_BASE + 0x260"
definition A2W_PLLB_FRAC :: u32 where [reg_defs]: "A2W_PLLB_FRAC = A2W_BASE + 0x2e0"
definition A2W_PLL_FRAC_MASK :: u32 where [reg_defs]: "A2W_PLL_FRAC_MASK = 0x000fffff"
definition A2W_PLL_CTRL_PDIV_MASK :: u32 where [reg_defs]: "A2W_PLL_CTRL_PDIV_MASK = 0x00007000"
definition A2W_PLL_CTRL_PDIV_LSB :: nat where [reg_defs]: "A2W_PLL_CTRL_PDIV_LSB = 12"
definition A2W_PLL_CTRL_PWRDN :: u32 where [reg_defs]: "A2W_PLL_CTRL_PWRDN = 0x00010000"
definition A2W_PLL_CTRL_PRSTN :: u32 where [reg_defs]: "A2W_PLL_CTRL_PRSTN = 0x00020000"
definition A2W_PLLA_CTRL :: u32 where [reg_defs]: "A2W_PLLA_CTRL = A2W_BASE + 0x100"
definition A2W_PLLA_CTRL_NDIV_SET :: u32 where [reg_defs]: "A2W_PLLA_CTRL_NDIV_SET = 0x000003ff"
definition A2W_PLLC_CTRL :: u32 where [reg_defs]: "A2W_PLLC_CTRL = A2W_BASE + 0x120"
definition A2W_PLLC_CTRL_PRSTN_SET :: u32 where [reg_defs]: "A2W_PLLC_CTRL_PRSTN_SET = 0x00020000"
definition A2W_PLLC_CTRL_PWRDN_SET :: u32 where [reg_defs]: "A2W_PLLC_CTRL_PWRDN_SET = 0x00010000"
definition A2W_PLLC_CTRL_NDIV_SET :: u32 where [reg_defs]: "A2W_PLLC_CTRL_NDIV_SET = 0x000003ff"
definition A2W_PLLD_CTRL :: u32 where [reg_defs]: "A2W_PLLD_CTRL = A2W_BASE + 0x140"
definition A2W_PLLD_CTRL_NDIV_SET :: u32 where [reg_defs]: "A2W_PLLD_CTRL_NDIV_SET = 0x000003ff"
definition A2W_PLLH_CTRL :: u32 where [reg_defs]: "A2W_PLLH_CTRL = A2W_BASE + 0x160"
definition A2W_PLLH_CTRL_NDIV_SET :: u32 where [reg_defs]: "A2W_PLLH_CTRL_NDIV_SET = 0x000000ff"
definition A2W_PLLB_CTRL :: u32 where [reg_defs]: "A2W_PLLB_CTRL = A2W_BASE + 0x1e0"
definition A2W_PLLB_CTRL_NDIV_SET :: u32 where [reg_defs]: "A2W_PLLB_CTRL_NDIV_SET = 0x000003ff"
definition A2W_PLLA_DSI0 :: u32 where [reg_defs]: "A2W_PLLA_DSI0 = A2W_BASE + 0x300"
definition A2W_PLLA_DSI0_CHENB_LSB :: nat where [reg_defs]: "A2W_PLLA_DSI0_CHENB_LSB = 8"
definition A2W_PLLA_DSI0_DIV_SET :: u32 where [reg_defs]: "A2W_PLLA_DSI0_DIV_SET = 0x000000ff"
definition A2W_PLLC_CORE2 :: u32 where [reg_defs]: "A2W_PLLC_CORE2 = A2W_BASE + 0x320"
definition A2W_PLLC_CORE2_CHENB_LSB :: nat where [reg_defs]: "A2W_PLLC_CORE2_CHENB_LSB = 8"
definition A2W_PLLC_CORE2_DIV_SET :: u32 where [reg_defs]: "A2W_PLLC_CORE2_DIV_SET = 0x000000ff"
definition A2W_PLLD_DSI0 :: u32 where [reg_defs]: "A2W_PLLD_DSI0 = A2W_BASE + 0x340"
definition A2W_PLLD_DSI0_CHENB_LSB :: nat where [reg_defs]: "A2W_PLLD_DSI0_CHENB_LSB = 8"
definition A2W_PLLD_DSI0_DIV_SET :: u32 where [reg_defs]: "A2W_PLLD_DSI0_DIV_SET = 0x000000ff"
definition A2W_PLLH_AUX :: u32 where [reg_defs]: "A2W_PLLH_AUX = A2W_BASE + 0x360"
definition A2W_PLLH_AUX_CHENB_LSB :: nat where [reg_defs]: "A2W_PLLH_AUX_CHENB_LSB = 8"
definition A2W_PLLH_AUX_DIV_SET :: u32 where [reg_defs]: "A2W_PLLH_AUX_DIV_SET = 0x000000ff"
definition A2W_PLLB_ARM :: u32 where [reg_defs]: "A2W_PLLB_ARM = A2W_BASE + 0x3e0"
definition A2W_PLLB_ARM_CHENB_LSB :: nat where [reg_defs]: "A2W_PLLB_ARM_CHENB_LSB = 8"
definition A2W_PLLB_ARM_DIV_SET :: u32 where [reg_defs]: "A2W_PLLB_ARM_DIV_SET = 0x000000ff"
definition A2W_PLLA_CORE :: u32 where [reg_defs]: "A2W_PLLA_CORE = A2W_BASE + 0x400"
definition A2W_PLLA_CORE_CHENB_LSB :: nat where [reg_defs]: "A2W_PLLA_CORE_CHENB_LSB = 8"
definition A2W_PLLA_CORE_DIV_SET :: u32 where [reg_defs]: "A2W_PLLA_CORE_DIV_SET = 0x000000ff"
definition A2W_PLLD_CORE :: u32 where [reg_defs]: "A2W_PLLD_CORE = A2W_BASE + 0x440"
definition A2W_PLLD_CORE_CHENB_LSB :: nat where [reg_defs]: "A2W_PLLD_CORE_CHENB_LSB = 8"
definition A2W_PLLD_CORE_DIV_SET :: u32 where [reg_defs]: "A2W_PLLD_CORE_DIV_SET = 0x000000ff"
definition A2W_PLLH_RCAL :: u32 where [reg_defs]: "A2W_PLLH_RCAL = A2W_BASE + 0x460"
definition A2W_PLLH_RCAL_CHENB_LSB :: nat where [reg_defs]: "A2W_PLLH_RCAL_CHENB_LSB = 8"
definition A2W_PLLH_RCAL_DIV_SET :: u32 where [reg_defs]: "A2W_PLLH_RCAL_DIV_SET = 0x000000ff"
definition A2W_PLLB_SP0 :: u32 where [reg_defs]: "A2W_PLLB_SP0 = A2W_BASE + 0x4e0"
definition A2W_PLLB_SP0_CHENB_LSB :: nat where [reg_defs]: "A2W_PLLB_SP0_CHENB_LSB = 8"
definition A2W_PLLB_SP0_DIV_SET :: u32 where [reg_defs]: "A2W_PLLB_SP0_DIV_SET = 0x000000ff"
definition A2W_PLLA_PER :: u32 where [reg_defs]: "A2W_PLLA_PER = A2W_BASE + 0x500"
definition A2W_PLLA_PER_CHENB_LSB :: nat where [reg_defs]: "A2W_PLLA_PER_CHENB_LSB = 8"
definition A2W_PLLA_PER_DIV_SET :: u32 where [reg_defs]: "A2W_PLLA_PER_DIV_SET = 0x000000ff"
definition A2W_PLLC_PER :: u32 where [reg_defs]: "A2W_PLLC_PER = A2W_BASE + 0x520"
definition A2W_PLLC_PER_CHENB_LSB :: nat where [reg_defs]: "A2W_PLLC_PER_CHENB_LSB = 8"
definition A2W_PLLC_PER_DIV_SET :: u32 where [reg_defs]: "A2W_PLLC_PER_DIV_SET = 0x000000ff"
definition A2W_PLLD_PER :: u32 where [reg_defs]: "A2W_PLLD_PER = A2W_BASE + 0x540"
definition A2W_PLLD_PER_CHENB_LSB :: nat where [reg_defs]: "A2W_PLLD_PER_CHENB_LSB = 8"
definition A2W_PLLD_PER_DIV_SET :: u32 where [reg_defs]: "A2W_PLLD_PER_DIV_SET = 0x000000ff"
definition A2W_PLLH_PIX :: u32 where [reg_defs]: "A2W_PLLH_PIX = A2W_BASE + 0x560"
definition A2W_PLLH_PIX_CHENB_LSB :: nat where [reg_defs]: "A2W_PLLH_PIX_CHENB_LSB = 8"
definition A2W_PLLH_PIX_DIV_SET :: u32 where [reg_defs]: "A2W_PLLH_PIX_DIV_SET = 0x000000ff"
definition A2W_PLLC_CORE1 :: u32 where [reg_defs]: "A2W_PLLC_CORE1 = A2W_BASE + 0x420"
definition A2W_PLLC_CORE1_CHENB_LSB :: nat where [reg_defs]: "A2W_PLLC_CORE1_CHENB_LSB = 8"
definition A2W_PLLC_CORE1_DIV_SET :: u32 where [reg_defs]: "A2W_PLLC_CORE1_DIV_SET = 0x000000ff"
definition A2W_PLLB_SP1 :: u32 where [reg_defs]: "A2W_PLLB_SP1 = A2W_BASE + 0x5e0"
definition A2W_PLLB_SP1_CHENB_LSB :: nat where [reg_defs]: "A2W_PLLB_SP1_CHENB_LSB = 8"
definition A2W_PLLB_SP1_DIV_SET :: u32 where [reg_defs]: "A2W_PLLB_SP1_DIV_SET = 0x000000ff"
definition A2W_PLLA_CCP2 :: u32 where [reg_defs]: "A2W_PLLA_CCP2 = A2W_BASE + 0x600"
definition A2W_PLLA_CCP2_CHENB_LSB :: nat where [reg_defs]: "A2W_PLLA_CCP2_CHENB_LSB = 8"
definition A2W_PLLA_CCP2_DIV_SET :: u32 where [reg_defs]: "A2W_PLLA_CCP2_DIV_SET = 0x000000ff"
definition A2W_PLLC_CORE0 :: u32 where [reg_defs]: "A2W_PLLC_CORE0 = A2W_BASE + 0x620"
definition A2W_PLLC_CORE0_CHENB_LSB :: nat where [reg_defs]: "A2W_PLLC_CORE0_CHENB_LSB = 8"
definition A2W_PLLC_CORE0_DIV_SET :: u32 where [reg_defs]: "A2W_PLLC_CORE0_DIV_SET = 0x000000ff"
definition A2W_PLLD_DSI1 :: u32 where [reg_defs]: "A2W_PLLD_DSI1 = A2W_BASE + 0x640"
definition A2W_PLLD_DSI1_CHENB_LSB :: nat where [reg_defs]: "A2W_PLLD_DSI1_CHENB_LSB = 8"
definition A2W_PLLD_DSI1_DIV_SET :: u32 where [reg_defs]: "A2W_PLLD_DSI1_DIV_SET = 0x000000ff"
definition A2W_PLLB_SP2 :: u32 where [reg_defs]: "A2W_PLLB_SP2 = A2W_BASE + 0x6e0"
definition A2W_PLLB_SP2_CHENB_LSB :: nat where [reg_defs]: "A2W_PLLB_SP2_CHENB_LSB = 8"
definition A2W_PLLB_SP2_DIV_SET :: u32 where [reg_defs]: "A2W_PLLB_SP2_DIV_SET = 0x000000ff"
definition A2W_PLL_ANA_KAIP_KA_LSB :: nat where [reg_defs]: "A2W_PLL_ANA_KAIP_KA_LSB = 8"
definition A2W_PLL_ANA_KAIP_KI_LSB :: nat where [reg_defs]: "A2W_PLL_ANA_KAIP_KI_LSB = 4"
definition A2W_PLL_ANA_KAIP_KP_LSB :: nat where [reg_defs]: "A2W_PLL_ANA_KAIP_KP_LSB = 0"
definition A2W_PLLA_ANA_KAIP :: u32 where [reg_defs]: "A2W_PLLA_ANA_KAIP = A2W_BASE + 0x310"
definition A2W_PLLC_ANA_KAIP :: u32 where [reg_defs]: "A2W_PLLC_ANA_KAIP = A2W_BASE + 0x330"
definition A2W_PLLD_ANA_KAIP :: u32 where [reg_defs]: "A2W_PLLD_ANA_KAIP = A2W_BASE + 0x350"
definition A2W_PLLH_ANA_KAIP :: u32 where [reg_defs]: "A2W_PLLH_ANA_KAIP = A2W_BASE + 0x370"
definition A2W_PLLB_ANA_KAIP :: u32 where [reg_defs]: "A2W_PLLB_ANA_KAIP = A2W_BASE + 0x3f0"
definition A2W_PLLA_ANA_VCO :: u32 where [reg_defs]: "A2W_PLLA_ANA_VCO = A2W_BASE + 0x610"
definition A2W_PLLC_ANA_VCO :: u32 where [reg_defs]: "A2W_PLLC_ANA_VCO = A2W_BASE + 0x630"
definition A2W_PLLD_ANA_VCO :: u32 where [reg_defs]: "A2W_PLLD_ANA_VCO = A2W_BASE + 0x650"
definition A2W_PLLH_ANA_VCO :: u32 where [reg_defs]: "A2W_PLLH_ANA_VCO = A2W_BASE + 0x670"
definition A2W_PLLB_ANA_VCO :: u32 where [reg_defs]: "A2W_PLLB_ANA_VCO = A2W_BASE + 0x6f0"

end
