(* ===== verification/Pll.thy ===== *)
theory Pll
  imports Mailbox Pll_Regs
begin

unbundle bit_operations_syntax

text \<open>
  PLLs and clocks: setting (\<^verbatim>\<open>pll/pll_control.c\<close>), reading and measuring (\<^verbatim>\<open>pll/pll_read.c\<close>).

  \<^verbatim>\<open>pll.h\<close> declares \<^verbatim>\<open>pll_def\<close> with one entry per PLL and \<^verbatim>\<open>pll_chan_def\<close> with one per channel; the
  source compiles only the entry of PLL B, so all others are zero: their registers are at address
  0.  The frequency \<open>xtal_freq\<close> of the crystal and the Raspberry Pi 4 variant are build options,
  arguments here.
\<close>

subsection \<open>Tables\<close>

datatype pll = PLL_A | PLL_B | PLL_C | PLL_D | PLL_H

datatype pll_chan = PLL_CHAN_ACORE | PLL_CHAN_APER | PLL_CHAN_ADSI0 | PLL_CHAN_ACCP2
  | PLL_CHAN_BARM | PLL_CHAN_BSP0 | PLL_CHAN_BSP1 | PLL_CHAN_BSP2
  | PLL_CHAN_CCORE0 | PLL_CHAN_CCORE1 | PLL_CHAN_CCORE2 | PLL_CHAN_CPER
  | PLL_CHAN_DCORE | PLL_CHAN_DPER | PLL_CHAN_DDSI0 | PLL_CHAN_DDSI1
  | PLL_CHAN_HPIX | PLL_CHAN_HRCAL | PLL_CHAN_HAUX

definition pll_chans :: "pll_chan list" where
  "pll_chans = [PLL_CHAN_ACORE, PLL_CHAN_APER, PLL_CHAN_ADSI0, PLL_CHAN_ACCP2,
     PLL_CHAN_BARM, PLL_CHAN_BSP0, PLL_CHAN_BSP1, PLL_CHAN_BSP2,
     PLL_CHAN_CCORE0, PLL_CHAN_CCORE1, PLL_CHAN_CCORE2, PLL_CHAN_CPER,
     PLL_CHAN_DCORE, PLL_CHAN_DPER, PLL_CHAN_DDSI0, PLL_CHAN_DDSI1,
     PLL_CHAN_HPIX, PLL_CHAN_HRCAL, PLL_CHAN_HAUX]"

record pll_desc =
  d_name :: string
  d_ana :: u32
  d_dig :: u32
  d_enable_bit :: u32
  d_frac :: u32
  d_ctrl :: u32
  d_ndiv_mask :: u32
  d_ana1_prescale_bit :: nat
  d_cm_flock_bit :: nat
  d_cm_pll :: u32
  d_ana_kaip :: u32
  d_ana_vco :: u32

record pll_chan_desc =
  c_name :: string
  c_ctrl :: u32
  c_chenb_bit :: nat
  c_div_mask :: u32
  c_pll :: pll

definition zero_def :: pll_desc where
  "zero_def = \<lparr>d_name = [], d_ana = 0, d_dig = 0, d_enable_bit = 0, d_frac = 0, d_ctrl = 0,
     d_ndiv_mask = 0, d_ana1_prescale_bit = 0, d_cm_flock_bit = 0, d_cm_pll = 0, d_ana_kaip = 0,
     d_ana_vco = 0\<rparr>"

fun pll_def :: "pll \<Rightarrow> pll_desc" where
  "pll_def PLL_B = \<lparr>d_name = ''PLLB'', d_ana = A2W_PLLB_ANA0, d_dig = A2W_PLLB_DIG0,
     d_enable_bit = A2W_XOSC_CTRL_PLLBEN_SET, d_frac = A2W_PLLB_FRAC, d_ctrl = A2W_PLLB_CTRL,
     d_ndiv_mask = A2W_PLLB_CTRL_NDIV_SET, d_ana1_prescale_bit = 14,
     d_cm_flock_bit = CM_LOCK_FLOCKB_BIT, d_cm_pll = CM_PLLB, d_ana_kaip = A2W_PLLB_ANA_KAIP,
     d_ana_vco = A2W_PLLB_ANA_VCO\<rparr>"
| "pll_def _ = zero_def"

lemma pll_b [simp]:
  "d_name (pll_def PLL_B) = ''PLLB''" "d_ana (pll_def PLL_B) = A2W_PLLB_ANA0"
  "d_dig (pll_def PLL_B) = A2W_PLLB_DIG0" "d_enable_bit (pll_def PLL_B) = A2W_XOSC_CTRL_PLLBEN_SET"
  "d_frac (pll_def PLL_B) = A2W_PLLB_FRAC" "d_ctrl (pll_def PLL_B) = A2W_PLLB_CTRL"
  "d_ndiv_mask (pll_def PLL_B) = A2W_PLLB_CTRL_NDIV_SET" "d_ana1_prescale_bit (pll_def PLL_B) = 14"
  "d_cm_flock_bit (pll_def PLL_B) = CM_LOCK_FLOCKB_BIT" "d_cm_pll (pll_def PLL_B) = CM_PLLB"
  by simp_all

declare pll_def.simps(1) [simp del]

fun pll_chan_def :: "pll_chan \<Rightarrow> pll_chan_desc" where
  "pll_chan_def _ = \<lparr>c_name = [], c_ctrl = 0, c_chenb_bit = 0, c_div_mask = 0, c_pll = PLL_A\<rparr>"

subsection \<open>Setting a PLL\<close>

text \<open>\<^verbatim>\<open>saved_ana_vco\<close>, a global of the Raspberry Pi 4 build.\<close>

record pll_mach = mach +
  saved_ana_vco :: "pll \<Rightarrow> u32"

definition saved_ana_vco_init :: "pll \<Rightarrow> u32" where
  "saved_ana_vco_init p = (if p = PLL_H then 0 else 2)"

definition PLL_MAX_LOCKWAIT :: nat where "PLL_MAX_LOCKWAIT = 1000"

definition MHZ_TO_HZ :: "u32 \<Rightarrow> u32" where "MHZ_TO_HZ f = f * 1000 * 1000"

definition pll_start :: "pll \<Rightarrow> ('r, unit) io" where
  "pll_start pll = do {
     let d = pll_def pll;
     dig3 \<leftarrow> rd (d_dig d + 12);
     dig2 \<leftarrow> rd (d_dig d + 8);
     dig1 \<leftarrow> rd (d_dig d + 4);
     dig0 \<leftarrow> rd (d_dig d);
     (if pll = PLL_H then do {
        wr (d_dig d + 12) (A2W_PASSWORD OR dig3);
        wr (d_dig d + 8) (A2W_PASSWORD OR (dig2 AND NOT 0xa8));
        wr (d_dig d + 4) (A2W_PASSWORD OR dig1)
      } else do {
        x \<leftarrow> rd (d_cm_pll d);
        wr (d_cm_pll d) (CM_PASSWORD OR (x OR 0xaa));
        wr (d_dig d + 12) (A2W_PASSWORD OR dig3);
        wr (d_dig d + 8) (A2W_PASSWORD OR (dig2 AND NOT 0x100401));
        wr (d_dig d + 4) (A2W_PASSWORD OR (dig1 AND NOT 0x4000))
      });
     wr (d_dig d) (A2W_PASSWORD OR dig0);
     x \<leftarrow> rd (d_ctrl d);
     wr (d_ctrl d) (A2W_PASSWORD OR (x OR A2W_PLL_CTRL_PRSTN));
     wr (d_dig d + 12) (A2W_PASSWORD OR (dig3 OR 0x42));
     wr (d_dig d + 8) (A2W_PASSWORD OR dig2);
     wr (d_dig d + 4) (A2W_PASSWORD OR dig1);
     wr (d_dig d) (A2W_PASSWORD OR dig0)
   }"

text \<open>The lock wait; the result is what is left of \<^verbatim>\<open>lockwait\<close>.\<close>

primrec wait_lock :: "nat \<Rightarrow> nat \<Rightarrow> ('r, nat) io" where
  "wait_lock flock_bit 0 = return 0"
| "wait_lock flock_bit (Suc n) = do {
     x \<leftarrow> rd CM_LOCK;
     if BIT_SET x flock_bit then return (Suc n) else wait_lock flock_bit n
   }"

definition pll_divider :: "u32 \<Rightarrow> u32 \<Rightarrow> u32" where
  "pll_divider xtal_freq freq =
     ucast ((push_bit 20 (ucast freq) + ucast (xtal_freq div 2)) div (ucast xtal_freq) :: u64)"

text \<open>The four \<^verbatim>\<open>ANA\<close> registers are written in the order 3, 2, 1, 0.\<close>

definition write_ana :: "pll_desc \<Rightarrow> u32 \<Rightarrow> u32 \<Rightarrow> u32 \<Rightarrow> u32 \<Rightarrow> ('r, unit) io" where
  "write_ana d ana3 ana2 ana1 ana0 = do {
     wr (d_ana d + 12) (A2W_PASSWORD OR ana3);
     wr (d_ana d + 8) (A2W_PASSWORD OR ana2);
     wr (d_ana d + 4) (A2W_PASSWORD OR ana1);
     wr (d_ana d) (A2W_PASSWORD OR ana0)
   }"

text \<open>The divider, lock and start-up steps both variants share.\<close>

definition write_divider :: "pll_desc \<Rightarrow> u32 \<Rightarrow> ('r, unit) io" where
  "write_divider d divider = do {
     wr (d_frac d) (A2W_PASSWORD OR (divider AND A2W_PLL_FRAC_MASK));
     x \<leftarrow> rd (d_ctrl d);
     wr (d_ctrl d) (A2W_PASSWORD
       OR (x AND NOT A2W_PLL_CTRL_PWRDN AND NOT A2W_PLL_CTRL_PDIV_MASK AND NOT (d_ndiv_mask d))
       OR drop_bit 20 divider
       OR push_bit A2W_PLL_CTRL_PDIV_LSB 1)
   }"

definition finish_lock :: "pll \<Rightarrow> bool \<Rightarrow> nat \<Rightarrow> ('r, int) io" where
  "finish_lock pll was_off lockwait =
     (if lockwait = 0 then do {
        printf ''%s won't lock'' [S (d_name (pll_def pll))];
        return (-1)
      } else do {
        when_io was_off (pll_start pll);
        printf ''%s frequency locked after %u iterations''
          [S (d_name (pll_def pll)), I (int (PLL_MAX_LOCKWAIT - lockwait))];
        return 0
      })"

text \<open>The new values of \<^verbatim>\<open>ana3\<close>, \<^verbatim>\<open>ana1\<close> and \<^verbatim>\<open>ana0\<close> (the loop filter constants).\<close>

definition filter_ana :: "pll \<Rightarrow> u32 \<times> u32 \<times> u32 \<Rightarrow> u32 \<times> u32 \<times> u32" where
  "filter_ana pll = (\<lambda>(ana3, ana1, ana0).
     if pll = PLL_H then
       (ana3,
        (ana1 AND NOT A2W_PLLH_ANA1_KI_HI_MASK AND NOT A2W_PLLH_ANA1_KP_MASK)
          OR push_bit (unat A2W_PLLH_ANA1_KI_HI_MASK) 0 OR push_bit A2W_PLLH_ANA1_KP_LSB 6,
        (ana0 AND NOT A2W_PLLH_ANA0_KA_MASK AND NOT A2W_PLLH_ANA0_KI_LO_MASK)
          OR push_bit A2W_PLLH_ANA0_KA_LSB 2 OR push_bit A2W_PLLH_ANA0_KI_LO_LSB 2)
     else
       ((ana3 AND NOT A2W_PLL_ANA3_KA_MASK) OR push_bit A2W_PLL_ANA3_KA_LSB 2,
        (ana1 AND A2W_PLL_ANA1_KI_MASK AND NOT A2W_PLL_ANA1_KP_MASK)
          OR push_bit A2W_PLL_ANA1_KI_LSB 2 OR push_bit A2W_PLL_ANA1_KP_LSB 8,
        ana0))"

definition pll_off :: "pll_desc \<Rightarrow> ('r, int) io" where
  "pll_off d = do {
     wr (d_cm_pll d) (CM_PASSWORD OR CM_PLL_ANARST);
     wr (d_ctrl d) (A2W_PASSWORD OR A2W_PLL_CTRL_PWRDN);
     return 0
   }"

text \<open>The second half of \<^verbatim>\<open>set_pll_freq\<close>: from the reference clock on.\<close>

definition program_pll ::
  "pll \<Rightarrow> bool \<Rightarrow> bool \<Rightarrow> bool \<Rightarrow> u32 \<Rightarrow> u32 \<times> u32 \<times> u32 \<times> u32 \<Rightarrow> ('r, int) io" where
  "program_pll pll was_off was_prescaled is_prescaled divider = (\<lambda>(ana3, ana2, ana1, ana0). do {
     let d = pll_def pll;
     reg_or A2W_XOSC_CTRL (A2W_PASSWORD OR d_enable_bit d);
     let (ana3, ana1, ana0) = filter_ana pll (ana3, ana1, ana0);
     when_io (\<not> was_prescaled \<or> is_prescaled) (write_ana d ana3 ana2 ana1 ana0);
     write_divider d divider;
     when_io (was_prescaled \<and> \<not> is_prescaled) (write_ana d ana3 ana2 ana1 ana0);
     x \<leftarrow> rd (d_cm_pll d);
     wr (d_cm_pll d) (CM_PASSWORD OR (x AND NOT CM_PLL_ANARST));
     lockwait \<leftarrow> wait_lock (d_cm_flock_bit d) PLL_MAX_LOCKWAIT;
     finish_lock pll was_off lockwait
   })"

definition set_pll_freq_2835 :: "u32 \<Rightarrow> pll \<Rightarrow> u32 \<Rightarrow> ('r, int) io" where
  "set_pll_freq_2835 xtal_freq pll freq = do {
     let d = pll_def pll;
     if freq = 0 then pll_off d
     else do {
       c \<leftarrow> rd (d_ctrl d);
       let was_off = (c AND A2W_PLL_CTRL_PRSTN = 0);
       ana3 \<leftarrow> rd (d_ana d + 12);
       ana2 \<leftarrow> rd (d_ana d + 8);
       ana1 \<leftarrow> rd (d_ana d + 4);
       ana0 \<leftarrow> rd (d_ana d);
       let was_prescaled = BIT_SET ana1 (d_ana1_prescale_bit d);
       let divider = pll_divider xtal_freq freq;
       let is_prescaled = (freq > MHZ_TO_HZ 1750);
       let divider = (if is_prescaled then drop_bit 1 (divider + 1) else divider);
       let ana1 = (if is_prescaled then ana1 OR BV (d_ana1_prescale_bit d)
                   else ana1 AND NOT (BV (d_ana1_prescale_bit d)));
       program_pll pll was_off was_prescaled is_prescaled divider (ana3, ana2, ana1, ana0)
     }
   }"

definition kaip :: "u32 \<Rightarrow> u32" where
  "kaip kp = A2W_PASSWORD OR push_bit A2W_PLL_ANA_KAIP_KA_LSB 0
     OR push_bit A2W_PLL_ANA_KAIP_KI_LSB 2 OR push_bit A2W_PLL_ANA_KAIP_KP_LSB kp"

definition set_pll_freq_2711 :: "u32 \<Rightarrow> pll \<Rightarrow> u32 \<Rightarrow> ('r pll_mach_ext, int) io" where
  "set_pll_freq_2711 xtal_freq pll freq = do {
     let d = pll_def pll;
     if freq = 0 then pll_off d
     else do {
       c \<leftarrow> rd (d_ctrl d);
       let was_off = (c AND A2W_PLL_CTRL_PRSTN = 0);
       ana_vco \<leftarrow> gget (\<lambda>s. saved_ana_vco s pll);
       let was_prescaled = BIT_SET ana_vco 4;
       let divider = pll_divider xtal_freq freq;
       let is_prescaled = (freq > MHZ_TO_HZ 1600);
       reg_or A2W_XOSC_CTRL (A2W_PASSWORD OR d_enable_bit d);
       let ana_vco = (if was_off then ana_vco else ana_vco OR 0x10000);
       when_io (\<not> was_off) (wr (d_ana_vco d) (A2W_PASSWORD OR ana_vco));
       let before = (\<not> was_prescaled \<or> is_prescaled);
       let after = (was_prescaled \<and> \<not> is_prescaled);
       let vco1 = (if is_prescaled then ana_vco OR 0x10 else ana_vco AND NOT 0x10);
       when_io before (do {
         wr (d_ana_kaip d) (kaip (if is_prescaled then 3 else 5));
         wr (d_ana_vco d) (A2W_PASSWORD OR vco1)
       });
       let ana_vco = (if before then vco1 else ana_vco);
       write_divider d divider;
       let ana_vco = (if after then ana_vco AND NOT 0x10 else ana_vco);
       when_io after (do {
         wr (d_ana_kaip d) (kaip 5);
         wr (d_ana_vco d) (A2W_PASSWORD OR ana_vco)
       });
       x \<leftarrow> rd (d_cm_pll d);
       wr (d_cm_pll d) (CM_PASSWORD OR (x AND NOT CM_PLL_ANARST));
       lockwait \<leftarrow> wait_lock (d_cm_flock_bit d) PLL_MAX_LOCKWAIT;
       let ana_vco = (if was_off then ana_vco else ana_vco AND NOT 0x10000);
       when_io (\<not> was_off) (wr (d_ana_vco d) (A2W_PASSWORD OR ana_vco));
       gset (\<lambda>s. s\<lparr>saved_ana_vco := (saved_ana_vco s)(pll := ana_vco)\<rparr>);
       finish_lock pll was_off lockwait
     }
   }"

definition set_pll_freq :: "bool \<Rightarrow> u32 \<Rightarrow> pll \<Rightarrow> u32 \<Rightarrow> ('r pll_mach_ext, int) io" where
  "set_pll_freq rpi4 xtal_freq pll freq =
     (if rpi4 then set_pll_freq_2711 xtal_freq pll freq else set_pll_freq_2835 xtal_freq pll freq)"

definition configure_pll_b :: "u32 \<Rightarrow> ('r, unit) io" where
  "configure_pll_b freq = do {
     let d = pll_def PLL_B;
     orig_ctrl \<leftarrow> rd (d_ctrl d);
     reg_or A2W_XOSC_CTRL (A2W_PASSWORD OR d_enable_bit d);
     wr (d_frac d) (A2W_PASSWORD OR 0xeaaa8);
     wr (d_ctrl d) (A2W_PASSWORD OR 48 OR 0x1000);
     wr CM_PLLB (CM_PASSWORD OR CM_PLL_DIGRST OR CM_PLL_ANARST);
     wr CM_PLLB (CM_PASSWORD OR CM_PLL_DIGRST OR CM_PLL_ANARST OR CM_PLLB_HOLDARM_SET);
     wr (d_ana d + 12) (A2W_PASSWORD OR 0x100);
     wr (d_ana d + 8) (A2W_PASSWORD OR 0x0);
     wr (d_ana d + 4) (A2W_PASSWORD OR 0x140000);
     wr (d_ana d) (A2W_PASSWORD OR 0x0);
     when_io (orig_ctrl AND A2W_PLL_CTRL_PRSTN = 0) (pll_start PLL_B);
     wr A2W_PLLB_ARM (A2W_PASSWORD OR 2);
     wr CM_PLLB (CM_PASSWORD OR CM_PLL_DIGRST OR CM_PLL_ANARST OR CM_PLLB_HOLDARM_SET OR CM_PLLB_LOADARM_SET);
     wr CM_PLLB (CM_PASSWORD OR CM_PLL_DIGRST OR CM_PLL_ANARST OR CM_PLLB_HOLDARM_SET);
     wr CM_PLLB CM_PASSWORD;
     wr CM_ARMCTL (CM_PASSWORD OR 4 OR CM_ARMCTL_ENAB_SET)
   }"

fun pll_of_u32 :: "u32 \<Rightarrow> pll option" where
  "pll_of_u32 n = (if n = 0 then Some PLL_A else if n = 1 then Some PLL_B else if n = 2 then Some PLL_C
     else if n = 3 then Some PLL_D else if n = 4 then Some PLL_H else None)"

text \<open>
  The code does not check the index before it reads \<^verbatim>\<open>pll_def[pll]\<close>.  An index outside the table,
  whose effect C leaves undefined, stops the model, as every access outside an array does.
\<close>

definition cmd_set_pll_freq :: "bool \<Rightarrow> u32 \<Rightarrow> cmd_arg list \<Rightarrow> ('r pll_mach_ext, int) io" where
  "cmd_set_pll_freq rpi4 xtal_freq argv =
     (if length argv \<noteq> 3 then do { printf ''usage: set_pll_freq <pll> <freq>'' []; return (-1) }
      else
        (case pll_of_u32 (arg_u (argv ! 1)) of
           None \<Rightarrow> do { panic ''pll_def index''; return (-1) }
         | Some pll \<Rightarrow> set_pll_freq rpi4 xtal_freq pll (arg_u (argv ! 2))))"

text \<open>
  \<^verbatim>\<open>setup_pllc\<close>.  The \<^verbatim>\<open>int\<close> locals \<^verbatim>\<open>div\<close>, \<^verbatim>\<open>frac\<close>, \<^verbatim>\<open>pdiv\<close> are words here: every use is as a
  register value; \<open>lo\<close> and \<open>hi\<close> split the 64-bit values that are printed.
\<close>

definition lo :: "u64 \<Rightarrow> u32" where "lo x = ucast x"
definition hi :: "u64 \<Rightarrow> u32" where "hi x = ucast (drop_bit 32 x)"

definition PDIV :: "u32 \<Rightarrow> u32" where "PDIV n = push_bit 12 (n AND 7)"
definition KP :: "u32 \<Rightarrow> u32" where "KP n = push_bit 15 (n AND 0xf)"
definition KI :: "u32 \<Rightarrow> u32" where "KI n = push_bit 19 (n AND 7)"
definition KA :: "u32 \<Rightarrow> u32" where "KA n = push_bit 7 (n AND 7)"
definition ANA1_DOUBLE :: u32 where "ANA1_DOUBLE = BV 14"

definition switch_vpu_to_src :: "u32 \<Rightarrow> ('r, unit) io" where
  "switch_vpu_to_src src = do {
     x \<leftarrow> rd CM_VPUCTL;
     wr CM_VPUCTL (CM_PASSWORD OR (x AND NOT 0xf) OR (src AND 0xf));
     _ \<leftarrow> poll CM_VPUCTL (\<lambda>x. x AND CM_VPUCTL_BUSY_SET = 0);
     return ()
   }"

definition print_pllc :: "('r, unit) io" where
  "print_pllc = do {
     c \<leftarrow> rd A2W_PLLC_CTRL;
     f \<leftarrow> rd A2W_PLLC_FRAC;
     printf ''ctrl: 0x%xfrac: 0x%x'' [U c, U f]
   }"

definition HOLD_ALL :: u32 where
  "HOLD_ALL = CM_PASSWORD OR CM_PLLC_DIGRST_SET OR CM_PLLC_HOLDPER_SET OR CM_PLLC_HOLDCORE2_SET
     OR CM_PLLC_HOLDCORE1_SET OR CM_PLLC_HOLDCORE0_SET"

definition pllc_divisor :: "u32 \<Rightarrow> u64 \<Rightarrow> u64" where
  "pllc_divisor xtal_freq target_freq = push_bit 20 (target_freq div 2) div ucast xtal_freq"

definition setup_pllc :: "u32 \<Rightarrow> u64 \<Rightarrow> u32 \<Rightarrow> u32 \<Rightarrow> ('r, unit) io" where
  "setup_pllc xtal_freq target_freq core0_div per_div = do {
     let pdiv = 1;
     let xtal_in = (ucast xtal_freq :: u64);
     printf ''xtal_in = %llu'' [U (hi xtal_in), U (lo xtal_in)];
     let goal_freq = target_freq div 2;
     printf ''goal_freq = %llu'' [U (hi goal_freq), U (lo goal_freq)];
     let divisor = pllc_divisor xtal_freq target_freq;
     let n = lo (drop_bit 20 divisor);
     let frac = lo (divisor AND 0xfffff);
     printf ''divisor 0x%llx -> %d+(%d/2^20)'' [U (hi divisor), U (lo divisor), U n, U frac];
     print_pllc;
     wr CM_PLLC (CM_PASSWORD OR CM_PLLC_ANARST_SET);
     reg_or A2W_XOSC_CTRL (A2W_PASSWORD OR A2W_XOSC_CTRL_PLLCEN_SET);
     wr A2W_PLLC_FRAC (A2W_PASSWORD OR frac);
     wr A2W_PLLC_CTRL (A2W_PASSWORD OR n OR PDIV pdiv);
     f \<leftarrow> rd A2W_PLLC_FRAC;
     printf ''frac set to 0x%x, wanted 0x%x'' [U f, U frac];
     wr A2W_PLLC_ANA3 (A2W_PASSWORD OR KA 2);
     wr A2W_PLLC_ANA2 (A2W_PASSWORD OR 0x0);
     wr A2W_PLLC_ANA1 (A2W_PASSWORD OR ANA1_DOUBLE OR KI 2 OR KP 8);
     wr A2W_PLLC_ANA0 (A2W_PASSWORD OR 0x0);
     wr CM_PLLC (CM_PASSWORD OR CM_PLLC_DIGRST_SET);
     wr CM_PLLC HOLD_ALL;
     wr A2W_PLLC_DIG3 (A2W_PASSWORD OR 0x0);
     wr A2W_PLLC_DIG2 (A2W_PASSWORD OR 0x400000);
     wr A2W_PLLC_DIG1 (A2W_PASSWORD OR 0x5);
     wr A2W_PLLC_DIG0 (A2W_PASSWORD OR n OR 0x555000);
     wr A2W_PLLC_CTRL (A2W_PASSWORD OR n OR PDIV pdiv OR A2W_PLLC_CTRL_PRSTN_SET);
     wr A2W_PLLC_FRAC (A2W_PASSWORD OR frac);
     wr A2W_PLLC_DIG3 (A2W_PASSWORD OR 0x42);
     wr A2W_PLLC_DIG2 (A2W_PASSWORD OR 0x500401);
     wr A2W_PLLC_DIG1 (A2W_PASSWORD OR 0x4005);
     wr A2W_PLLC_DIG0 (A2W_PASSWORD OR n OR 0x555000);
     wr A2W_PLLC_CORE0 (A2W_PASSWORD OR core0_div);
     wr A2W_PLLC_PER (A2W_PASSWORD OR per_div);
     wr CM_PLLC (HOLD_ALL OR CM_PLLC_LOADCORE0_SET);
     wr CM_PLLC HOLD_ALL;
     wr CM_PLLC (CM_PASSWORD OR CM_PLLC_DIGRST_SET OR CM_PLLC_HOLDCORE2_SET OR CM_PLLC_HOLDCORE1_SET);
     printf ''waiting for lock'' [];
     _ \<leftarrow> poll CM_LOCK (\<lambda>x. BIT_SET x CM_LOCK_FLOCKC_BIT);
     print_pllc;
     wr A2W_PLLC_FRAC (A2W_PASSWORD OR frac);
     print_pllc
   }"

subsection \<open>Reading clocks\<close>

definition get_pll_freq :: "bool \<Rightarrow> u32 \<Rightarrow> pll \<Rightarrow> ('r, u32) io" where
  "get_pll_freq rpi4 xtal_freq pll = do {
     let d = pll_def pll;
     ctrl \<leftarrow> rd (d_ctrl d);
     let ndiv = ctrl AND d_ndiv_mask d;
     let pdiv = drop_bit A2W_PLL_CTRL_PDIV_LSB (ctrl AND A2W_PLL_CTRL_PDIV_MASK);
     if pdiv = 0 then return 0
     else do {
       f \<leftarrow> rd (d_frac d);
       let frac = f AND A2W_PLL_FRAC_MASK;
       let divider = push_bit 20 ndiv OR frac;
       divider \<leftarrow> (if \<not> rpi4 then do {
           ana1 \<leftarrow> rd (d_ana d + 4);
           return (if BIT_SET ana1 (d_ana1_prescale_bit d) then push_bit 1 divider else divider)
         } else return divider);
       let mult1 = ((ucast divider * ucast xtal_freq) div ucast pdiv :: u64);
       return (lo (drop_bit 20 mult1))
     }
   }"

text \<open>The first argument is the address of \<^verbatim>\<open>pll_chan_def\<close>; an entry has 32 bytes.\<close>

definition get_pll_chan_freq :: "u32 \<Rightarrow> bool \<Rightarrow> u32 \<Rightarrow> pll_chan \<Rightarrow> ('r, u32) io" where
  "get_pll_chan_freq table rpi4 xtal_freq chan = do {
     let d = pll_chan_def chan;
     printf ''def is 0x%x'' [U table];
     ctrl_val \<leftarrow> rd (c_ctrl d);
     let dv = ctrl_val AND c_div_mask d;
     if BIT_SET ctrl_val (c_chenb_bit d) \<or> dv = 0 then return 0
     else do {
       f \<leftarrow> get_pll_freq rpi4 xtal_freq (c_pll d);
       return (f div dv)
     }
   }"

definition clk_get_input_freq :: "(pll_chan \<Rightarrow> u32) \<Rightarrow> bool \<Rightarrow> u32 \<Rightarrow> u32 \<Rightarrow> ('r, u32) io" where
  "clk_get_input_freq entry rpi4 xtal_freq ctlreg = do {
     ctl \<leftarrow> rd ctlreg;
     let src = ctl AND 0xf;
     let chan = (\<lambda>c. get_pll_chan_freq (entry c) rpi4 xtal_freq c);
     if src = 0 then return 0
     else if src = 1 then return xtal_freq
     else if src = 2 \<or> src = 3 then return 0
     else if src = 4 then chan PLL_CHAN_ACORE
     else if src = 5 then chan PLL_CHAN_CCORE0
     else if src = 6 then chan PLL_CHAN_DPER
     else if src = 7 then chan PLL_CHAN_HAUX
     else if src = 8 then chan PLL_CHAN_CCORE1
     else if src = 9 then chan PLL_CHAN_CCORE2
     else return 0
   }"

definition clk_get_freq :: "(pll_chan \<Rightarrow> u32) \<Rightarrow> bool \<Rightarrow> u32 \<Rightarrow> u32 \<Rightarrow> u32 \<Rightarrow> ('r, u32) io" where
  "clk_get_freq entry rpi4 xtal_freq divreg ctlreg = do {
     dv \<leftarrow> rd divreg;
     if dv = 0 then return 0
     else do {
       input_freq \<leftarrow> clk_get_input_freq entry rpi4 xtal_freq ctlreg;
       return (lo (push_bit 12 (ucast input_freq) div ucast dv))
     }
   }"

definition get_vpu_per_freq :: "(pll_chan \<Rightarrow> u32) \<Rightarrow> bool \<Rightarrow> u32 \<Rightarrow> ('r, u32) io" where
  "get_vpu_per_freq entry rpi4 xtal_freq = clk_get_freq entry rpi4 xtal_freq CM_VPUDIV CM_VPUCTL"

definition dump_pll_state :: "bool \<Rightarrow> u32 \<Rightarrow> pll \<Rightarrow> ('r, u32) io" where
  "dump_pll_state rpi4 xtal_freq pll = do {
     let d = pll_def pll;
     ctrl_val \<leftarrow> rd (d_ctrl d);
     frac_value \<leftarrow> rd (d_frac d);
     printf ''A2W_%s_CTRL: 0x%x'' [S (d_name d), U ctrl_val];
     printf ''A2W_%s_FRAC: 0x%x'' [S (d_name d), U frac_value];
     x \<leftarrow> rd (d_cm_pll d);
     printf ''CM_%s: 0x%x'' [S (d_name d), U x];
     freq \<leftarrow> get_pll_freq rpi4 xtal_freq pll;
     printf ''%s freq: %u'' [S (d_name d), U freq];
     return freq
   }"

definition dump_pll_chan_state :: "(pll_chan \<Rightarrow> u32) \<Rightarrow> bool \<Rightarrow> u32 \<Rightarrow> pll_chan \<Rightarrow> ('r, unit) io" where
  "dump_pll_chan_state entry rpi4 xtal_freq c = do {
     let d = pll_chan_def c;
     ctrl_val \<leftarrow> rd (c_ctrl d);
     printf ''A2W_%s: 0x%x'' [S (c_name d), U ctrl_val];
     freq \<leftarrow> get_pll_chan_freq (entry c) rpi4 xtal_freq c;
     printf ''%s freq: %u'' [S (c_name d), U freq]
   }"

definition dump_plldiv2_state :: "string \<Rightarrow> u32 \<Rightarrow> u32 \<Rightarrow> ('r, unit) io" where
  "dump_plldiv2_state prefix ctrl dv = do {
     ctrl_val \<leftarrow> rd ctrl;
     div_val \<leftarrow> rd dv;
     printf ''CM_%sCTL: 0x%x'' [S prefix, U ctrl_val];
     printf ''CM_%sDIV: 0x%x'' [S prefix, U div_val]
   }"

definition cmd_pll_dump :: "(pll_chan \<Rightarrow> u32) \<Rightarrow> bool \<Rightarrow> u32 \<Rightarrow> ('r, int) io" where
  "cmd_pll_dump entry rpi4 xtal_freq = do {
     for_each [PLL_A, PLL_B, PLL_C, PLL_D, PLL_H] (\<lambda>pll. do {
       freq \<leftarrow> dump_pll_state rpi4 xtal_freq pll;
       when_io (freq > 0)
         (for_each pll_chans (\<lambda>c.
            when_io (c_pll (pll_chan_def c) = pll) (dump_pll_chan_state entry rpi4 xtal_freq c)))
     });
     dump_plldiv2_state ''VPU'' CM_VPUCTL CM_VPUDIV;
     x \<leftarrow> rd CM_LOCK;
     printf ''CM_LOCK: 0x%x'' [U x];
     return 0
   }"

subsection \<open>Measuring clocks\<close>

definition CM_KILL :: u32 where "CM_KILL = 0x40"
definition CM_BUSY :: u32 where "CM_BUSY = 0x80"
definition CM_SRC_MASK :: u32 where "CM_SRC_MASK = 0xf"
definition CM_SRC_BITS :: nat where "CM_SRC_BITS = 4"
definition CM_TCNT_SRC1_SHIFT :: nat where "CM_TCNT_SRC1_SHIFT = 12"

text \<open>The \<^verbatim>\<open>int\<close> arguments and results are words; \<open>mux\<close> is not negative in any call.\<close>

definition measure_clock :: "u32 \<Rightarrow> u32 \<Rightarrow> ('r, u32) io" where
  "measure_clock xtal_freq mux = do {
     let divisor = 1000;
     wr CM_TCNTCTL (CM_PASSWORD OR CM_KILL);
     wr CM_TCNTCTL (CM_PASSWORD OR (mux AND CM_SRC_MASK) OR
       push_bit CM_TCNT_SRC1_SHIFT (drop_bit CM_SRC_BITS mux));
     wr CM_OSCCOUNT (CM_PASSWORD OR (xtal_freq div divisor));
     udelay 1;
     _ \<leftarrow> poll CM_OSCCOUNT (\<lambda>x. x = 0);
     _ \<leftarrow> poll CM_TCNTCTL (\<lambda>x. x AND CM_BUSY = 0);
     count \<leftarrow> rd CM_TCNTCNT;
     wr CM_TCNTCNT (CM_PASSWORD OR 0);
     return (count * divisor)
   }"

definition get_uart_base_freq :: "u32 \<Rightarrow> ('r, u32) io" where
  "get_uart_base_freq xtal_freq = measure_clock xtal_freq 28"

definition clock_name :: "nat \<Rightarrow> string" where
  "clock_name n = (case map_of
     [(1, ''H264''), (2, ''ISP''), (3, ''SDRAM''), (4, ''V3D''), (5, ''VPU''), (6, ''OTP''),
      (7, ''ARM''), (9, ''TIMER''), (0xa, ''PVTMON''), (0xc, ''dsi0p''), (0xd, ''dsi1p''),
      (0xe, ''cam0''), (0xf, ''cam1''), (0x11, ''dpi''), (0x12, ''dsi0e''), (0x13, ''dsi1e''),
      (0x14, ''gp0''), (0x15, ''gp1''), (0x16, ''hsm''), (0x17, ''pcm''), (0x18, ''pwm''),
      (0x19, ''slim''), (0x1b, ''smi''), (0x1c, ''uart''), (0x1d, ''vec''), (0x26, ''emmc''),
      (0x2a, ''emmc2'')] n of Some s \<Rightarrow> s | None \<Rightarrow> ''(null)'')"

definition measure_usage :: "string list" where
  "measure_usage = [''1 - H264'', ''2 - ISP'', ''3 - sdram'', ''4 - V3D'', ''5 - VPU'', ''6 - OTP'',
     ''9 - ???'', ''10 - ???'', ''12 - dsi0p'', ''13 - dsi1p'', ''14 - cam0'', ''15 - cam1'',
     ''17 - dpi'', ''18 - dsi0e'', ''19 - dsi1e'', ''20 - gp0'', ''21 - gp1'', ''22 - hsm'',
     ''23 - pcm'', ''24 - pwm'', ''25 - slim'', ''27 - smi'', ''28 - uart'', ''29 - vec'',
     ''30 - ???'', ''38 - aveo'', ''39 - emmc'', ''42 - emmc2'']"

definition cmd_measure_clock :: "u32 \<Rightarrow> cmd_arg list \<Rightarrow> ('r, int) io" where
  "cmd_measure_clock xtal_freq argv =
     (if length argv \<noteq> 2 then do {
        printf ''error, missing argument'' [];
        for_each measure_usage (\<lambda>l. printf l []);
        return 0
      } else do {
        count \<leftarrow> measure_clock xtal_freq (arg_u (argv ! 1));
        printf ''count is %d'' [U count];
        return 0
      })"

definition cmd_measure_clocks :: "u32 \<Rightarrow> ('r, int) io" where
  "cmd_measure_clocks xtal_freq = do {
     for_each [0..<43] (\<lambda>i. do {
       count \<leftarrow> measure_clock xtal_freq (of_nat i);
       printf ''clock #%d(%s) is %d'' [I (int i), S (clock_name i), U count]
     });
     return 0
   }"

subsection \<open>Programming PLL B and reading it back\<close>

text \<open>
  The assumptions on the hardware: the three registers that fix the frequency are storage, and the
  lock bit is set.  The run_ lemmas execute the steps of \<open>set_pll_freq\<close> symbolically.
\<close>

definition pllb_plain :: "'r mach_scheme \<Rightarrow> bool" where
  "pllb_plain s \<longleftrightarrow> plain_at (dev s) A2W_PLLB_CTRL \<and> plain_at (dev s) A2W_PLLB_FRAC \<and>
     plain_at (dev s) A2W_PLLB_ANA1"

definition pllb_locks :: "device \<Rightarrow> bool" where
  "pllb_locks d \<longleftrightarrow> (\<forall>h. bit (d h CM_LOCK) CM_LOCK_FLOCKB_BIT)"

lemma run_wait_lock_Suc:
  "running s \<Longrightarrow> pllb_locks (dev s) \<Longrightarrow>
     run_state (wait_lock CM_LOCK_FLOCKB_BIT (Suc n)) s = (Suc n, log [Rd CM_LOCK] s)"
  by (simp add: BIT_SET_def pllb_locks_def cur_def)

lemma run_wait_lock:
  "running s \<Longrightarrow> pllb_locks (dev s) \<Longrightarrow>
     run_state (wait_lock CM_LOCK_FLOCKB_BIT PLL_MAX_LOCKWAIT) s = (1000, log [Rd CM_LOCK] s)"
  using run_wait_lock_Suc [of s 999] by (simp add: PLL_MAX_LOCKWAIT_def)

text \<open>The registers of PLL B that determine its frequency are different from all others.\<close>

lemma pllb_ne:
  "A2W_PLLB_FRAC \<noteq> A2W_PLLB_CTRL" "A2W_PLLB_FRAC \<noteq> CM_PLLB" "A2W_PLLB_FRAC \<noteq> A2W_XOSC_CTRL"
  "A2W_PLLB_FRAC \<noteq> A2W_PLLB_ANA0" "A2W_PLLB_FRAC \<noteq> A2W_PLLB_ANA0 + 4" "A2W_PLLB_FRAC \<noteq> A2W_PLLB_ANA0 + 8"
  "A2W_PLLB_FRAC \<noteq> A2W_PLLB_ANA0 + 12" "A2W_PLLB_FRAC \<noteq> A2W_PLLB_DIG0" "A2W_PLLB_FRAC \<noteq> A2W_PLLB_DIG0 + 4"
  "A2W_PLLB_FRAC \<noteq> A2W_PLLB_DIG0 + 8" "A2W_PLLB_FRAC \<noteq> A2W_PLLB_DIG0 + 12"
  "A2W_PLLB_CTRL \<noteq> A2W_PLLB_FRAC" "A2W_PLLB_CTRL \<noteq> CM_PLLB" "A2W_PLLB_CTRL \<noteq> A2W_XOSC_CTRL"
  "A2W_PLLB_CTRL \<noteq> A2W_PLLB_ANA0" "A2W_PLLB_CTRL \<noteq> A2W_PLLB_ANA0 + 4" "A2W_PLLB_CTRL \<noteq> A2W_PLLB_ANA0 + 8"
  "A2W_PLLB_CTRL \<noteq> A2W_PLLB_ANA0 + 12" "A2W_PLLB_CTRL \<noteq> A2W_PLLB_DIG0" "A2W_PLLB_CTRL \<noteq> A2W_PLLB_DIG0 + 4"
  "A2W_PLLB_CTRL \<noteq> A2W_PLLB_DIG0 + 8" "A2W_PLLB_CTRL \<noteq> A2W_PLLB_DIG0 + 12"
  "A2W_PLLB_ANA0 \<noteq> A2W_PLLB_DIG0" "A2W_PLLB_ANA0 + 4 \<noteq> A2W_PLLB_FRAC" "A2W_PLLB_ANA0 + 4 \<noteq> CM_PLLB" "A2W_PLLB_ANA0 + 4 \<noteq> A2W_XOSC_CTRL"
  "A2W_PLLB_ANA0 + 4 \<noteq> A2W_PLLB_CTRL" "A2W_PLLB_ANA0 + 4 \<noteq> A2W_PLLB_DIG0" "A2W_PLLB_ANA0 + 4 \<noteq> A2W_PLLB_ANA0"
  "A2W_PLLB_ANA0 + 4 \<noteq> A2W_PLLB_DIG0 + 4" "A2W_PLLB_ANA0 + 4 \<noteq> A2W_PLLB_DIG0 + 8" "A2W_PLLB_ANA0 + 4 \<noteq> A2W_PLLB_DIG0 + 12"
  by (simp_all add: reg_defs)

definition ctrl_of :: "u32 \<Rightarrow> u32 \<Rightarrow> u32" where
  "ctrl_of x dv = A2W_PASSWORD
       OR (x AND NOT A2W_PLL_CTRL_PWRDN AND NOT A2W_PLL_CTRL_PDIV_MASK AND NOT A2W_PLLB_CTRL_NDIV_SET)
       OR drop_bit 20 dv
       OR push_bit A2W_PLL_CTRL_PDIV_LSB 1"

definition ana1_of :: "u32 \<Rightarrow> u32" where
  "ana1_of x = A2W_PASSWORD OR ((x AND A2W_PLL_ANA1_KI_MASK AND NOT A2W_PLL_ANA1_KP_MASK)
     OR push_bit A2W_PLL_ANA1_KI_LSB 2 OR push_bit A2W_PLL_ANA1_KP_LSB 8)"

lemma run_write_ana:
  "running s \<Longrightarrow> run_state (write_ana d a3 a2 a1 a0) s =
     ((), log [Wr (d_ana d + 12) (A2W_PASSWORD OR a3), Wr (d_ana d + 8) (A2W_PASSWORD OR a2),
               Wr (d_ana d + 4) (A2W_PASSWORD OR a1), Wr (d_ana d) (A2W_PASSWORD OR a0)] s)"
  by (simp add: write_ana_def)

lemma run_write_divider:
  assumes "running s" "pllb_plain s"
  shows "run_state (write_divider (pll_def PLL_B) dv) s =
     ((), log [Wr A2W_PLLB_FRAC (A2W_PASSWORD OR (dv AND A2W_PLL_FRAC_MASK)), Rd A2W_PLLB_CTRL,
               Wr A2W_PLLB_CTRL (ctrl_of (cur s A2W_PLLB_CTRL) dv)] s)"
  using assms plain_cur_log [of s A2W_PLLB_CTRL] pllb_ne
  by (simp add: write_divider_def ctrl_of_def pllb_plain_def)

text \<open>Starting the digital part leaves the divider, the fraction and the filter alone.\<close>

lemma run_pll_start:
  assumes "running s" "pllb_plain s"
  shows "\<exists>es. run_state (pll_start PLL_B) s = ((), log es s) \<and>
    last_write A2W_PLLB_FRAC es = None \<and> last_write A2W_PLLB_ANA1 es = None \<and>
    last_write A2W_PLLB_CTRL es = Some (A2W_PASSWORD OR (cur s A2W_PLLB_CTRL OR A2W_PLL_CTRL_PRSTN))"
proof -
  have ana1: "A2W_PLLB_ANA1 = A2W_PLLB_ANA0 + 4" by (simp add: reg_defs)
  have p: "plain_at (dev s) A2W_PLLB_CTRL" using assms(2) by (simp add: pllb_plain_def)
  show ?thesis
    unfolding ana1 pll_start_def Let_def
    by (rule exI, rule conjI, (simp add: assms(1) plain_cur_log [OF p] pllb_ne; fail))
      (intro conjI; simp add: pllb_ne)
qed

lemma run_finish_lock:
  assumes "running s" "pllb_plain s"
  shows "\<exists>es. run_state (finish_lock PLL_B off 1000) s = (0, log es s) \<and>
    last_write A2W_PLLB_FRAC es = None \<and> last_write A2W_PLLB_ANA1 es = None \<and>
    last_write A2W_PLLB_CTRL es =
      (if off then Some (A2W_PASSWORD OR (cur s A2W_PLLB_CTRL OR A2W_PLL_CTRL_PRSTN)) else None)"
proof (cases off)
  case False
  then show ?thesis using assms(1)
    by (intro exI [of _ "[_]"] conjI, simp add: finish_lock_def) simp_all
next
  case True
  obtain es where "run_state (pll_start PLL_B) s = ((), log es s)"
    "last_write A2W_PLLB_FRAC es = None" "last_write A2W_PLLB_ANA1 es = None"
    "last_write A2W_PLLB_CTRL es = Some (A2W_PASSWORD OR (cur s A2W_PLLB_CTRL OR A2W_PLL_CTRL_PRSTN))"
    using run_pll_start [OF assms] by blast
  then show ?thesis using True assms(1)
    by (intro exI [of _ "es @ [_]"] conjI, simp add: finish_lock_def) simp_all
qed

lemma program_pll_b:
  assumes "running s" "pllb_plain s" "pllb_locks (dev s)"
  shows "\<exists>es. run_state (program_pll PLL_B off was is dv (a3, a2, a1, a0)) s = (0, log es s) \<and>
    last_write A2W_PLLB_FRAC es = Some (A2W_PASSWORD OR (dv AND A2W_PLL_FRAC_MASK)) \<and>
    last_write A2W_PLLB_CTRL es = Some (let c = ctrl_of (cur s A2W_PLLB_CTRL) dv in
      if off then A2W_PASSWORD OR (c OR A2W_PLL_CTRL_PRSTN) else c) \<and>
    last_write A2W_PLLB_ANA1 es = Some (ana1_of a1)"
proof -
  define b where "b \<longleftrightarrow> \<not> was \<or> is"
  have nb: "(was \<and> \<not> is) = (\<not> b)" by (auto simp: b_def)
  have ana1: "A2W_PLLB_ANA1 = A2W_PLLB_ANA0 + 4" by (simp add: reg_defs)
  have p: "plain_at (dev s) A2W_PLLB_CTRL" using assms(2) by (simp add: pllb_plain_def)
  have pl: "pllb_plain (log es s)" for es using assms(2) by (simp add: pllb_plain_def)
  have ff: "filter_ana PLL_B (a3, a1, a0) =
    ((a3 AND NOT A2W_PLL_ANA3_KA_MASK) OR push_bit A2W_PLL_ANA3_KA_LSB 2,
        (a1 AND A2W_PLL_ANA1_KI_MASK AND NOT A2W_PLL_ANA1_KP_MASK)
          OR push_bit A2W_PLL_ANA1_KI_LSB 2 OR push_bit A2W_PLL_ANA1_KP_LSB 8,
        a0)" by (simp add: filter_ana_def)
  have "\<exists>es. run_state (program_pll PLL_B off was is dv (a3, a2, a1, a0)) s =
      run_state (finish_lock PLL_B off 1000) (log es s) \<and>
    last_write A2W_PLLB_FRAC es = Some (A2W_PASSWORD OR (dv AND A2W_PLL_FRAC_MASK)) \<and>
    last_write A2W_PLLB_CTRL es = Some (ctrl_of (cur s A2W_PLLB_CTRL) dv) \<and>
    last_write A2W_PLLB_ANA1 es = Some (ana1_of a1)"
    unfolding program_pll_def prod.case Let_def ff nb b_def [symmetric] ana1
    by (cases b) (rule exI, rule conjI,
        (simp add: assms(1,3) plain_cur_log [OF p] pl run_write_ana run_write_divider run_wait_lock pllb_ne
            del: wait_lock.simps; fail),
        (intro conjI; simp add: pllb_ne ana1_of_def))+
  then obtain es where es: "run_state (program_pll PLL_B off was is dv (a3, a2, a1, a0)) s =
      run_state (finish_lock PLL_B off 1000) (log es s)"
    "last_write A2W_PLLB_FRAC es = Some (A2W_PASSWORD OR (dv AND A2W_PLL_FRAC_MASK))"
    "last_write A2W_PLLB_CTRL es = Some (ctrl_of (cur s A2W_PLLB_CTRL) dv)"
    "last_write A2W_PLLB_ANA1 es = Some (ana1_of a1)" by blast
  obtain fs where "run_state (finish_lock PLL_B off 1000) (log es s) = (0, log fs (log es s))"
    "last_write A2W_PLLB_FRAC fs = None" "last_write A2W_PLLB_ANA1 fs = None"
    "last_write A2W_PLLB_CTRL fs = (if off then Some (A2W_PASSWORD OR
       (cur (log es s) A2W_PLLB_CTRL OR A2W_PLL_CTRL_PRSTN)) else None)"
    using run_finish_lock [of "log es s" off] assms(1) pl by auto
  then show ?thesis
    using es plain_cur_log [OF p] by (intro exI [of _ "es @ fs"]) (simp add: Let_def)
qed

lemma pll_bits:
  "n < 24 \<Longrightarrow> \<not> bit A2W_PASSWORD n"
  "bit A2W_PLLB_CTRL_NDIV_SET n \<longleftrightarrow> n < 10"
  "bit A2W_PLL_CTRL_PDIV_MASK n \<longleftrightarrow> 12 \<le> n \<and> n < 15"
  "bit A2W_PLL_CTRL_PWRDN n \<longleftrightarrow> n = 16" "bit A2W_PLL_CTRL_PRSTN n \<longleftrightarrow> n = 17"
  "bit A2W_PLL_FRAC_MASK n \<longleftrightarrow> n < 20"
  "bit (push_bit A2W_PLL_CTRL_PDIV_LSB 1 :: u32) n \<longleftrightarrow> n = 12"
proof -
  have m: "A2W_PASSWORD = push_bit 24 0x5a" "A2W_PLLB_CTRL_NDIV_SET = mask 10"
    "A2W_PLL_CTRL_PDIV_MASK = push_bit 12 (mask 3)" "A2W_PLL_CTRL_PWRDN = BV 16"
    "A2W_PLL_CTRL_PRSTN = BV 17" "A2W_PLL_FRAC_MASK = mask 20"
    "push_bit A2W_PLL_CTRL_PDIV_LSB 1 = BV 12"
    by (simp_all add: reg_defs mask_numeral)
  show "n < 24 \<Longrightarrow> \<not> bit A2W_PASSWORD n" unfolding m bit_push_bit_iff by simp
  show "bit A2W_PLLB_CTRL_NDIV_SET n \<longleftrightarrow> n < 10" "bit A2W_PLL_FRAC_MASK n \<longleftrightarrow> n < 20"
    unfolding m by (auto simp: bit_simps)
  show "bit A2W_PLL_CTRL_PDIV_MASK n \<longleftrightarrow> 12 \<le> n \<and> n < 15"
    unfolding m bit_push_mask_iff by auto
  show "bit A2W_PLL_CTRL_PWRDN n \<longleftrightarrow> n = 16" "bit A2W_PLL_CTRL_PRSTN n \<longleftrightarrow> n = 17"
    "bit (push_bit A2W_PLL_CTRL_PDIV_LSB 1 :: u32) n \<longleftrightarrow> n = 12"
    unfolding m by (auto simp: bit_BV)
qed

lemma bit_less: "unat x < 2 ^ k \<Longrightarrow> k \<le> n \<Longrightarrow> \<not> bit (x :: u32) n"
  by (metis bit_take_bit_iff not_less take_bit_nat_eq_self_iff unsigned_take_bit_eq unat_eq_iff_eq)

lemma ctrl_fields:
  assumes "unat dv < 2 ^ 30" and "c = ctrl_of x dv \<or> c = A2W_PASSWORD OR (ctrl_of x dv OR A2W_PLL_CTRL_PRSTN)"
  shows "c AND A2W_PLLB_CTRL_NDIV_SET = drop_bit 20 dv"
    and "drop_bit A2W_PLL_CTRL_PDIV_LSB (c AND A2W_PLL_CTRL_PDIV_MASK) = 1"
proof -
  have hi: "\<not> bit dv n" if "30 \<le> n" for n using bit_less [OF assms(1) that] .
  have b: "bit c n \<longleftrightarrow> (bit x n \<and> 10 \<le> n \<and> n < 12) \<or> bit dv (20 + n) \<or> n = 12" if "n < 15" for n
    using assms(2) that pll_bits(1) [of n] unfolding ctrl_of_def
    by (auto simp: bit_or_iff bit_and_iff bit_not_iff bit_drop_bit_eq pll_bits simp del: push_bit_of_1)
  show "c AND A2W_PLLB_CTRL_NDIV_SET = drop_bit 20 dv"
  proof (rule bit_word_eqI)
    fix n assume "n < LENGTH(32)"
    show "bit (c AND A2W_PLLB_CTRL_NDIV_SET) n \<longleftrightarrow> bit (drop_bit 20 dv) n"
      using b [of n] hi [of "20 + n"] by (cases "n < 10") (auto simp: bit_and_iff bit_drop_bit_eq pll_bits)
  qed
  have l: "A2W_PLL_CTRL_PDIV_LSB = 12" by (simp add: reg_defs)
  show "drop_bit A2W_PLL_CTRL_PDIV_LSB (c AND A2W_PLL_CTRL_PDIV_MASK) = 1"
  proof (rule bit_word_eqI)
    fix n assume "n < LENGTH(32)"
    show "bit (drop_bit A2W_PLL_CTRL_PDIV_LSB (c AND A2W_PLL_CTRL_PDIV_MASK)) n \<longleftrightarrow> bit (1 :: u32) n"
      using b [of "12 + n"] hi [of "20 + (12 + n)"]
      by (auto simp: l bit_and_iff bit_drop_bit_eq pll_bits bit_1_iff)
  qed
qed

lemma divider_join:
  assumes "unat dv < 2 ^ 30"
  shows "push_bit 20 (drop_bit 20 dv) OR (A2W_PASSWORD OR (dv AND A2W_PLL_FRAC_MASK)) AND A2W_PLL_FRAC_MASK = dv"
proof (rule bit_word_eqI)
  fix n assume "n < LENGTH(32)"
  then show "bit (push_bit 20 (drop_bit 20 dv) OR
      (A2W_PASSWORD OR (dv AND A2W_PLL_FRAC_MASK)) AND A2W_PLL_FRAC_MASK) n \<longleftrightarrow> bit dv n"
    using pll_bits(1) [of n]
    by (cases "n < 20") (auto simp: bit_or_iff bit_and_iff bit_push_bit_iff bit_drop_bit_eq pll_bits)
qed

text \<open>The prescaler bit is never set in the value written: \<^verbatim>\<open>ana1 & A2W_PLL_ANA1_KI_MASK\<close> drops it.\<close>

lemma ana1_prescaler_off: "\<not> bit (ana1_of a) 14"
proof -
  have m: "A2W_PLL_ANA1_KI_MASK = push_bit 19 (mask 3)" and l: "A2W_PLL_ANA1_KI_LSB = 19" "A2W_PLL_ANA1_KP_LSB = 15"
    by (simp_all add: reg_defs mask_numeral)
  have "\<not> bit A2W_PLL_ANA1_KI_MASK 14" unfolding m bit_push_mask_iff by simp
  moreover have "\<not> bit (push_bit A2W_PLL_ANA1_KI_LSB 2 :: u32) 14"
    "\<not> bit (push_bit A2W_PLL_ANA1_KP_LSB 8 :: u32) 14"
    unfolding l bit_push_bit_iff by simp_all
  ultimately show ?thesis unfolding ana1_of_def bit_or_iff bit_and_iff using pll_bits(1) by simp
qed

lemma unat_pll_divider:
  assumes "unat xtal \<ge> 10000000"
  shows "unat (pll_divider xtal freq) = (unat freq * 2 ^ 20 + unat xtal div 2) div unat xtal"
    and "unat (pll_divider xtal freq) < 2 ^ 29"
proof -
  let ?n = "unat freq * 2 ^ 20 + unat xtal div 2"
  have f: "unat freq < 2 ^ 32" "unat xtal < 2 ^ 32" using unsigned_less [of freq] unsigned_less [of xtal] by simp_all
  have u: "unat (ucast w :: u64) = unat w" for w :: u32
    by (simp add: unsigned_ucast_eq take_bit_nat_eq_self unsigned_less [THEN less_trans])
  have p: "unat (push_bit 20 (ucast freq) :: u64) = unat freq * 2 ^ 20"
    using f(1) by (simp add: push_bit_eq_mult unat_word_ariths u)
  have "unat (push_bit 20 (ucast freq) + ucast (xtal div 2) :: u64) = ?n"
    using f by (subst unat_word_ariths(1)) (simp add: p u unat_div)
  then have q: "unat ((push_bit 20 (ucast freq) + ucast (xtal div 2)) div ucast xtal :: u64) = ?n div unat xtal"
    by (simp add: unat_div u)
  have "?n < 2 ^ 29 * unat xtal" using f assms by simp
  then have l: "?n div unat xtal < 2 ^ 29" by (simp add: less_mult_imp_div_less)
  then show "unat (pll_divider xtal freq) = ?n div unat xtal" "unat (pll_divider xtal freq) < 2 ^ 29"
    unfolding pll_divider_def by (simp_all add: unsigned_ucast_eq q take_bit_nat_eq_self)
qed

text \<open>The arithmetic of the read-back: the divider is the rounded quotient, the frequency its floor.\<close>

lemma freq_roundtrip:
  fixes f x :: nat
  assumes "x > 0" and "d = (f * 2 ^ 20 + x div 2) div x" and "g = d * x div 2 ^ 20"
  shows "g \<le> f + x div 2 ^ 21" and "f \<le> g + x div 2 ^ 21 + 1"
proof -
  let ?n = "f * 2 ^ 20 + x div 2"
  have "d * x + ?n mod x = ?n" "?n mod x < x" using assms(1,2) by simp_all
  then have a: "d * x \<le> f * 2 ^ 20 + x div 2" and b: "f * 2 ^ 20 + x div 2 < d * x + x" by linarith+
  have "g * 2 ^ 20 + d * x mod 2 ^ 20 = d * x" "d * x mod 2 ^ 20 < 2 ^ 20" using assms(3) by simp_all
  then have c: "g * 2 ^ 20 \<le> d * x" "d * x < g * 2 ^ 20 + 2 ^ 20" by linarith+
  from a c(1) show "g \<le> f + x div 2 ^ 21" by simp
  from b c(2) show "f \<le> g + x div 2 ^ 21 + 1" by simp
qed

definition pllb_divider :: "u32 \<Rightarrow> u32 \<Rightarrow> u32" where
  "pllb_divider xtal freq = (if freq > MHZ_TO_HZ 1750 then drop_bit 1 (pll_divider xtal freq + 1)
     else pll_divider xtal freq)"

lemma run_set_pll_b:
  assumes "running s" "pllb_plain s" "pllb_locks (dev s)" "freq \<noteq> 0"
  obtains es c a where "run_state (set_pll_freq_2835 xtal PLL_B freq) s = (0, log es s)"
    "last_write A2W_PLLB_FRAC es = Some (A2W_PASSWORD OR (pllb_divider xtal freq AND A2W_PLL_FRAC_MASK))"
    "last_write A2W_PLLB_CTRL es = Some c" "last_write A2W_PLLB_ANA1 es = Some (ana1_of a)"
    "c = ctrl_of (cur s A2W_PLLB_CTRL) (pllb_divider xtal freq) \<or>
     c = A2W_PASSWORD OR (ctrl_of (cur s A2W_PLLB_CTRL) (pllb_divider xtal freq) OR A2W_PLL_CTRL_PRSTN)"
proof -
  define dv where "dv = pllb_divider xtal freq"
  define r where "r = [Rd A2W_PLLB_CTRL, Rd (A2W_PLLB_ANA0 + 12), Rd (A2W_PLLB_ANA0 + 8),
    Rd (A2W_PLLB_ANA0 + 4), Rd A2W_PLLB_ANA0]"
  have "\<exists>off was ip a3 a2 a1 a0. run_state (set_pll_freq_2835 xtal PLL_B freq) s =
      run_state (program_pll PLL_B off was ip dv (a3, a2, a1, a0)) (log r s)"
    unfolding dv_def pllb_divider_def r_def
    by (cases "freq > MHZ_TO_HZ 1750") (intro exI, simp add: set_pll_freq_2835_def assms(1,4) Let_def)+
  then obtain off was ip a3 a2 a1 a0 where 1: "run_state (set_pll_freq_2835 xtal PLL_B freq) s =
      run_state (program_pll PLL_B off was ip dv (a3, a2, a1, a0)) (log r s)" by blast
  have q: "list_all quiet r" by (simp add: r_def)
  have c: "cur (log r s) A2W_PLLB_CTRL = cur s A2W_PLLB_CTRL"
    using assms(2) last_write_quiet [OF q] by (simp add: pllb_plain_def plain_cur_log)
  obtain es where es: "run_state (program_pll PLL_B off was ip dv (a3, a2, a1, a0)) (log r s) = (0, log es (log r s))"
    "last_write A2W_PLLB_FRAC es = Some (A2W_PASSWORD OR (dv AND A2W_PLL_FRAC_MASK))"
    "last_write A2W_PLLB_CTRL es = Some (let c = ctrl_of (cur (log r s) A2W_PLLB_CTRL) dv in
      if off then A2W_PASSWORD OR (c OR A2W_PLL_CTRL_PRSTN) else c)"
    "last_write A2W_PLLB_ANA1 es = Some (ana1_of a1)"
    using program_pll_b [of "log r s" off was ip dv a3 a2 a1 a0] assms(1-3) by (auto simp: pllb_plain_def)
  let ?c = "ctrl_of (cur s A2W_PLLB_CTRL) dv"
  show thesis
    by (rule that [of "r @ es" "if off then A2W_PASSWORD OR (?c OR A2W_PLL_CTRL_PRSTN) else ?c", folded dv_def])
      (use es 1 c in \<open>simp_all add: Let_def\<close>)
qed

lemma run_get_pll_b:
  assumes "running s" "unat dv < 2 ^ 30" "\<not> bit a 14"
    and "cur (log [Rd A2W_PLLB_CTRL] s) A2W_PLLB_FRAC = A2W_PASSWORD OR (dv AND A2W_PLL_FRAC_MASK)"
    and "cur s A2W_PLLB_CTRL = c"
    and "cur (log [Rd A2W_PLLB_CTRL, Rd A2W_PLLB_FRAC] s) A2W_PLLB_ANA1 = a"
    and "c = ctrl_of x dv \<or> c = A2W_PASSWORD OR (ctrl_of x dv OR A2W_PLL_CTRL_PRSTN)"
  shows "fst (run_state (get_pll_freq False xtal PLL_B) s) =
    lo (drop_bit 20 (ucast dv * ucast xtal))"
proof -
  have ana1: "A2W_PLLB_ANA0 + 4 = A2W_PLLB_ANA1" by (simp add: reg_defs)
  show ?thesis
    using ctrl_fields [OF assms(2,7)] divider_join [OF assms(2)] assms(1,3-6)
    by (simp add: get_pll_freq_def Let_def BIT_SET_def ana1)
qed

lemma unat_freq:
  fixes dv xtal :: u32
  assumes "unat dv * unat xtal < 2 ^ 52"
  shows "unat (lo (drop_bit 20 (ucast dv * ucast xtal))) = unat dv * unat xtal div 2 ^ 20"
proof -
  have u: "unat (ucast w :: u64) = unat w" for w :: u32
    by (simp add: unsigned_ucast_eq take_bit_nat_eq_self unsigned_less [THEN less_trans])
  have "unat (ucast dv * ucast xtal :: u64) = unat dv * unat xtal"
    using assms by (simp add: unat_word_ariths u)
  then have "unat (drop_bit 20 (ucast dv * ucast xtal :: u64)) = unat dv * unat xtal div 2 ^ 20"
    by (simp add: drop_bit_eq_div unat_div)
  then show ?thesis using assms by (simp add: lo_def unsigned_ucast_eq take_bit_nat_eq_self less_mult_imp_div_less)
qed

text \<open>Setting PLL B and reading it back, in one step.\<close>

lemma pll_b_read_back:
  assumes "running s" "pllb_plain s" "pllb_locks (dev s)" "freq \<noteq> 0"
    and dv: "unat (pllb_divider xtal freq) < 2 ^ 30" "unat (pllb_divider xtal freq) * unat xtal < 2 ^ 52"
    and run: "run_state (set_pll_freq False xtal PLL_B freq) s = (r, s1)"
      "run_state (get_pll_freq False xtal PLL_B) s1 = (g, s2)"
  shows "r = 0" "unat g = unat (pllb_divider xtal freq) * unat xtal div 2 ^ 20"
proof -
  let ?dv = "pllb_divider xtal freq"
  obtain es c a where es: "run_state (set_pll_freq_2835 xtal PLL_B freq) s = (0, log es s)"
    "last_write A2W_PLLB_FRAC es = Some (A2W_PASSWORD OR (?dv AND A2W_PLL_FRAC_MASK))"
    "last_write A2W_PLLB_CTRL es = Some c" "last_write A2W_PLLB_ANA1 es = Some (ana1_of a)"
    "c = ctrl_of (cur s A2W_PLLB_CTRL) ?dv \<or>
     c = A2W_PASSWORD OR (ctrl_of (cur s A2W_PLLB_CTRL) ?dv OR A2W_PLL_CTRL_PRSTN)"
    by (rule run_set_pll_b [OF assms(1-4)])
  then have s1: "r = 0" "s1 = log es s" using run(1) by (simp_all add: set_pll_freq_def)
  have pl: "plain_at (dev s) A2W_PLLB_CTRL" "plain_at (dev s) A2W_PLLB_FRAC" "plain_at (dev s) A2W_PLLB_ANA1"
    using assms(2) by (simp_all add: pllb_plain_def)
  have "fst (run_state (get_pll_freq False xtal PLL_B) s1) = lo (drop_bit 20 (ucast ?dv * ucast xtal))"
    by (rule run_get_pll_b [OF _ dv(1) ana1_prescaler_off _ _ _ es(5)])
      (use assms(1) es(2-4) s1(2) in \<open>simp_all add: plain_cur_log [OF pl(1)] plain_cur_log [OF pl(2)] plain_cur_log [OF pl(3)]\<close>)
  with run(2) show "unat g = unat ?dv * unat xtal div 2 ^ 20" using unat_freq [OF dv(2)] by simp
  show "r = 0" by (rule s1(1))
qed

text \<open>C24.  PLL B up to 1750 MHz: with a crystal of at least 10 MHz, registers that hold what is
  written and a lock bit that rises, \<open>set_pll_freq\<close> succeeds for every frequency, and
  \<open>get_pll_freq\<close> then reads back the requested frequency up to one unit of rounding (half a
  step of the 20-bit fraction, and one Hertz).\<close>

theorem pll_b_frequency_set:
  assumes "running s" and "pllb_plain s" and "pllb_locks (dev s)"
    and "10000000 \<le> xtal" and "0 < freq" and "freq \<le> 1750000000"
    and "run_state (set_pll_freq False xtal PLL_B freq) s = (r, s1)"
    and "run_state (get_pll_freq False xtal PLL_B) s1 = (g, s2)"
  shows "r = 0 \<and> unat g \<le> unat freq + unat xtal div 2 ^ 21 \<and>
    unat freq \<le> unat g + unat xtal div 2 ^ 21 + 1"
proof -
  have x: "10000000 \<le> unat xtal" "unat xtal < 2 ^ 32" using assms(4) unsigned_less [of xtal]
    by (simp_all add: word_le_nat_alt)
  have f: "unat freq \<le> 1750000000" using assms(6) by (simp add: word_le_nat_alt)
  have d: "pllb_divider xtal freq = pll_divider xtal freq"
    using assms(6) by (simp add: pllb_divider_def MHZ_TO_HZ_def not_less [symmetric])
  let ?n = "unat freq * 2 ^ 20 + unat xtal div 2" and ?d = "unat (pll_divider xtal freq)"
  note u = unat_pll_divider [OF x(1), of freq]
  have "?d * unat xtal \<le> ?n" unfolding u(1) by simp
  then have b: "?d * unat xtal < 2 ^ 52" using x(2) f by simp
  have "r = 0" "unat g = ?d * unat xtal div 2 ^ 20"
    using pll_b_read_back [OF assms(1-3) _ _ _ assms(7,8)] assms(5) d u(2) b by auto
  then show ?thesis using freq_roundtrip [of "unat xtal" ?d "unat freq" "unat g"] u(1) x(1) by simp
qed

text \<open>A PLL B that keeps its registers and whose lock bit is set.\<close>

definition pll_demo :: "device" where
  "pll_demo h a = (if a = CM_LOCK then BV CM_LOCK_FLOCKB_BIT else memory (\<lambda>_. 0) h a)"

lemma pll_demo_ok: "pllb_plain (boot pll_demo)" "pllb_locks pll_demo"
proof -
  have "CM_LOCK \<noteq> A2W_PLLB_CTRL" "CM_LOCK \<noteq> A2W_PLLB_FRAC" "CM_LOCK \<noteq> A2W_PLLB_ANA1"
    "CM_LOCK_FLOCKB_BIT < 32"
    by (simp_all add: reg_defs)
  then show "pllb_plain (boot pll_demo)" "pllb_locks pll_demo"
    by (auto simp: pllb_plain_def pllb_locks_def pll_demo_def plain_at_def memory_def bit_BV
        split: option.split)
qed

definition pll_boot :: "device \<Rightarrow> pll_mach" where
  "pll_boot d = mach.extend (boot d) \<lparr>saved_ana_vco = saved_ana_vco_init\<rparr>"

lemma pll_boot_simps [simp]: "dev (pll_boot d) = d" "bus (pll_boot d) = []" "running (pll_boot d)"
  "pllb_plain (pll_boot d) = pllb_plain (boot d)"
  by (simp_all add: pll_boot_def mach.defs pllb_plain_def boot_def)

theorem pll_b_frequency_set_witness:
  "\<exists>r s1 g s2. run_state (set_pll_freq False 19200000 PLL_B 1000000000) (pll_boot pll_demo) = (r, s1) \<and>
     run_state (get_pll_freq False 19200000 PLL_B) s1 = (g, s2) \<and>
     r = 0 \<and> unat g \<le> 1000000009 \<and> 1000000000 \<le> unat g + 10"
proof -
  obtain r s1 where a: "run_state (set_pll_freq False 19200000 PLL_B 1000000000) (pll_boot pll_demo) = (r, s1)"
    by (metis surj_pair)
  obtain g s2 where b: "run_state (get_pll_freq False 19200000 PLL_B) s1 = (g, s2)" by (metis surj_pair)
  have "r = 0 \<and> unat g \<le> unat (1000000000 :: u32) + unat (19200000 :: u32) div 2 ^ 21 \<and>
    unat (1000000000 :: u32) \<le> unat g + unat (19200000 :: u32) div 2 ^ 21 + 1"
    using pll_b_frequency_set [OF _ _ _ _ _ _ a b] pll_demo_ok by simp
  with a b show ?thesis by (intro exI [of _ r] exI [of _ s1] exI [of _ g] exI [of _ s2]) simp
qed

text \<open>Above 1750 MHz the code means to switch the feedback prescaler on and halve the
  divider.  It halves the divider, but \<^verbatim>\<open>ana1 &= A2W_PLL_ANA1_KI_MASK\<close> (a complement is missing)
  clears the prescaler bit again before it is written: the PLL is left at about half the frequency
  asked for.\<close>

theorem pll_b_high_frequency_halved:
  assumes "running s" and "pllb_plain s" and "pllb_locks (dev s)"
    and "10000000 \<le> xtal" and "1750000000 < freq"
    and "run_state (set_pll_freq False xtal PLL_B freq) s = (r, s1)"
    and "run_state (get_pll_freq False xtal PLL_B) s1 = (g, s2)"
  shows "r = 0 \<and> 2 * unat g \<le> unat freq + unat xtal div 2 ^ 19"
proof -
  have x: "10000000 \<le> unat xtal" "unat xtal < 2 ^ 32" using assms(4) unsigned_less [of xtal]
    by (simp_all add: word_le_nat_alt)
  have f: "unat freq < 2 ^ 32" using unsigned_less [of freq] by simp
  let ?n = "unat freq * 2 ^ 20 + unat xtal div 2" and ?d = "unat (pll_divider xtal freq)"
  note u = unat_pll_divider [OF x(1), of freq]
  have "pllb_divider xtal freq = drop_bit 1 (pll_divider xtal freq + 1)"
    using assms(5) by (simp add: pllb_divider_def MHZ_TO_HZ_def)
  moreover have "unat (pll_divider xtal freq + 1) = ?d + 1"
    using u(2) by (simp add: unat_word_ariths)
  ultimately have d: "unat (pllb_divider xtal freq) = (?d + 1) div 2"
    by (simp add: drop_bit_eq_div unat_div)
  have "?d * unat xtal \<le> ?n" unfolding u(1) by simp
  moreover have "(?d + 1) div 2 * 2 * unat xtal \<le> (?d + 1) * unat xtal"
    by (intro mult_right_mono) simp_all
  ultimately have n: "(?d + 1) div 2 * unat xtal * 2 \<le> ?n + unat xtal"
    by (simp add: distrib_right mult.commute mult.left_commute)
  then have b: "(?d + 1) div 2 * unat xtal < 2 ^ 52" using x(2) f by simp
  have "freq \<noteq> 0" using assms(5) by auto
  then have g: "r = 0" "unat g = (?d + 1) div 2 * unat xtal div 2 ^ 20"
    using pll_b_read_back [OF assms(1-3) _ _ _ assms(6,7)] d u(2) b by auto
  have "2 * unat g * 2 ^ 20 \<le> ?n + unat xtal" using g(2) n by simp
  then show ?thesis using g(1) by simp
qed

theorem pll_b_high_frequency_halved_witness:
  "\<exists>g :: u32. fst (run_state (do { set_pll_freq False 19200000 PLL_B 2000000000;
       get_pll_freq False 19200000 PLL_B }) (pll_boot pll_demo)) = g \<and> unat g \<le> 1000000018"
proof -
  obtain r s1 where a: "run_state (set_pll_freq False 19200000 PLL_B 2000000000) (pll_boot pll_demo) = (r, s1)"
    by (metis surj_pair)
  obtain g s2 where b: "run_state (get_pll_freq False 19200000 PLL_B) s1 = (g, s2)" by (metis surj_pair)
  have "2 * unat g \<le> unat (2000000000 :: u32) + unat (19200000 :: u32) div 2 ^ 19"
    using pll_b_high_frequency_halved [OF _ _ _ _ _ a b] pll_demo_ok by simp
  then show ?thesis using a b by (intro exI [of _ g]) simp
qed

text \<open>The table of the channels is empty in this source: whatever the hardware, every channel
  reads as stopped, so the peripheral clock that depends on it reads as 0 unless it runs from the
  crystal.\<close>

theorem pll_channels_read_zero:
  assumes "run_state (get_pll_chan_freq table rpi4 xtal chan) s = (r, s')"
  shows "r = 0"
  using assms by (cases "running s") (auto simp: get_pll_chan_freq_def Let_def)

theorem pll_channels_read_zero_witness:
  "fst (run_state (get_pll_chan_freq 0x80000000 False 19200000 PLL_CHAN_CPER) (boot (\<lambda>h a. 5))) = 0"
proof -
  obtain r s' where a: "run_state (get_pll_chan_freq 0x80000000 False 19200000 PLL_CHAN_CPER)
    (boot (\<lambda>h a. 5)) = (r, s')" by (metis surj_pair)
  from pll_channels_read_zero [OF a] a show ?thesis by simp
qed

end
