(* ===== verification/Power_Domain.thy ===== *)
theory Power_Domain
  imports Pll
begin

unbundle bit_operations_syntax

text \<open>
  Power domains (\<^verbatim>\<open>power/power.c\<close>): the sequence that brings a domain up, and the domains of
  the image pipeline, USB and the ARM cores.  The registers are those of \<^verbatim>\<open>power.h\<close>.
\<close>

subsection \<open>The code\<close>

definition PM_PROC_ARMRSTN_CLR :: u32 where [reg_defs]: "PM_PROC_ARMRSTN_CLR = 0xffffffbf"
definition PM_IMAGE_PERIRSTN_SET :: u32 where [reg_defs]: "PM_IMAGE_PERIRSTN_SET = 0x00000040"
definition PM_IMAGE_H264RSTN_SET :: u32 where [reg_defs]: "PM_IMAGE_H264RSTN_SET = 0x00000080"
definition PM_IMAGE_ISPRSTN_SET :: u32 where [reg_defs]: "PM_IMAGE_ISPRSTN_SET = 0x00000100"

text \<open>\<^verbatim>\<open>while (!(*REG32(reg) & flag)) udelay(1);\<close>\<close>

definition await :: "u32 \<Rightarrow> u32 \<Rightarrow> ('r, unit) io" where
  "await reg flag = while_io (do { x \<leftarrow> rd reg; return (x AND flag = 0) }) (udelay 1)"

text \<open>The second argument, the mask that releases the domain's resets, is not used by the code.\<close>

definition power_domain_on :: "u32 \<Rightarrow> u32 \<Rightarrow> ('r, unit) io" where
  "power_domain_on reg rstn = do {
     printf ''bringing domain up'' [];
     x \<leftarrow> rd reg;
     if x AND PM_POWUP \<noteq> 0 then printf ''already on'' []
     else do {
       reg_or reg (PM_PASSWORD OR PM_POWUP);
       printf ''waiting'' [];
       await reg PM_POWOK;
       reg_or reg (PM_PASSWORD OR PM_ISPOW);
       printf ''mem rep'' [];
       reg_or reg (PM_PASSWORD OR PM_MEMREP);
       await reg PM_MRDONE;
       reg_or reg (PM_PASSWORD OR PM_ISFUNC)
     }
   }"

definition power_up_image :: "('r, unit) io" where
  "power_up_image = do {
     printf ''image domain on...'' [];
     reg_or PM_IMAGE (PM_PASSWORD OR 0x10000 OR BV 6);
     power_domain_on PM_IMAGE (NOT (PM_IMAGE_ISPRSTN_SET OR PM_IMAGE_H264RSTN_SET OR PM_IMAGE_PERIRSTN_SET))
   }"

definition power_up_usb :: "('r, unit) io" where
  "power_up_usb = do {
     power_up_image;
     printf ''usb power on...'' [];
     wr PM_USB (PM_PASSWORD OR 1);
     udelay 600;
     wr CM_PERIIDIV (CM_PASSWORD OR 0x1000);
     reg_or CM_PERIICTL (CM_PASSWORD OR 0x40);
     x \<leftarrow> rd CM_PERIICTL;
     wr CM_PERIICTL ((x AND 0xffffffbf) OR CM_PASSWORD);
     reg_or PM_IMAGE (PM_PASSWORD OR PM_V3DRSTN);
     reg_or CM_PERIICTL (CM_PASSWORD OR 0x40)
   }"

definition power_arm_start :: "('r, unit) io" where
  "power_arm_start = power_domain_on PM_PROC PM_PROC_ARMRSTN_CLR"

definition dump_power_domain :: "string \<Rightarrow> u32 \<Rightarrow> ('r, unit) io" where
  "dump_power_domain name pmreg = do {
     v \<leftarrow> rd pmreg;
     printf ''%8s: 0x%x == 0x%08x  '' [S name, U pmreg, U v];
     printf ''%2s  %2s %2s'' [S (if v AND PM_POWUP \<noteq> 0 then ''UP'' else ''''),
       S (if v AND PM_POWOK \<noteq> 0 then ''OK'' else ''''), S (if v AND PM_ENABLE \<noteq> 0 then ''EN'' else '''')];
     when_io (pmreg = PM_IMAGE \<and> v AND BV 7 \<noteq> 0) (printf ''  H264RSTN'' []);
     printf '''' []
   }"

definition cmd_pm_dump :: "('r, int) io" where
  "cmd_pm_dump = do {
     dump_power_domain ''PM_USB'' PM_USB;
     dump_power_domain ''PM_SMPS'' PM_SMPS;
     dump_power_domain ''PM_IMAGE'' PM_IMAGE;
     dump_power_domain ''PM_GRAFX'' PM_GRAFX;
     dump_power_domain ''PM_PROC'' PM_PROC;
     return 0
   }"

definition cmd_pm_usb_on :: "('r, int) io" where
  "cmd_pm_usb_on = do { power_up_usb; return 0 }"

subsection \<open>Library\<close>

lemma await_inert [inert_intros]: "inert (await reg flag)"
  unfolding await_def by (intro inert_intros)

lemma power_domain_on_inert [inert_intros]: "inert (power_domain_on reg rstn)"
  unfolding power_domain_on_def by (intro inert_intros)

text \<open>A wait that ends has read the flag as set, last, and has written nothing.\<close>

lemma await_ends:
  assumes "running s" and run: "run_state (await reg flag) s = ((), s')" and "running s'"
  obtains es where "list_all quiet es" "bus s' = bus s @ es @ [Rd reg]" "dev s' = dev s"
    "dev s (bus s @ es) reg AND flag \<noteq> 0"
proof -
  let ?P = "\<lambda>(_::unit) t. dev t = dev s \<and> (\<exists>es. list_all quiet es \<and> bus t = bus s @ es)"
  let ?body = "\<lambda>_. do { t \<leftarrow> (do { x \<leftarrow> rd reg; return (x AND flag = 0) });
    if t then do { udelay 1; return (Inl ()) } else return (Inr ()) }"
  have "\<exists>x t. ?P x t \<and> running t \<and> run_state (?body x) t = (Inr (), s')"
  proof (rule loop_last [where P = ?P, OF assms(1) run [unfolded await_def while_io_def] assms(3)])
    show "?P () s" by (auto intro: exI [of _ "[]"])
    fix x y :: unit and t s1
    assume p: "?P x t" "running t" "run_state (?body x) t = (Inl y, s1)"
    have "effects quiet (?body x)" by (intro emit_intros) simp_all
    from effectsE [OF this, of t] p(3) obtain fs where "dev s1 = dev t" "bus s1 = bus t @ fs" "list_all quiet fs"
      by auto
    with p(1) show "?P y s1" by auto
  qed
  then obtain t es where "running t" "dev t = dev s" "list_all quiet es" "bus t = bus s @ es"
    "run_state (?body ()) t = (Inr (), s')" by auto
  then show thesis
    by (intro that [of es]) (auto simp: cur_def split: if_splits prod.splits)
qed

text \<open>\<open>has v m\<close>: the value \<open>v\<close> written carries the password and the bit \<open>m\<close>.\<close>

definition has :: "u32 \<Rightarrow> u32 \<Rightarrow> bool" where
  "has v m \<longleftrightarrow> v AND (PM_PASSWORD OR m) = PM_PASSWORD OR m"

lemma has_or [simp]: "has (x OR (PM_PASSWORD OR m)) m"
  by (simp add: has_def)

text \<open>The flag was seen set on the bus: a read of \<open>reg\<close> in \<open>es\<close>, after the history \<open>h\<close>, returned it.\<close>

definition seen :: "device \<Rightarrow> event list \<Rightarrow> event list \<Rightarrow> u32 \<Rightarrow> u32 \<Rightarrow> bool" where
  "seen d h es reg flag \<longleftrightarrow> (\<exists>k r. es = k @ Rd reg # r \<and> d (h @ k) reg AND flag \<noteq> 0)"

lemma seenI: "d (h @ k) reg AND flag \<noteq> 0 \<Longrightarrow> seen d h (k @ Rd reg # r) reg flag"
  by (auto simp: seen_def)

text \<open>The two halves: up to the end of the first wait, and from the memory repair on.\<close>

lemma domain_first_half:
  assumes "running s" "running s'"
    and run: "run_state (do { reg_or reg p; printf f []; await reg flag }) s = ((), s')"
  obtains k where "list_all quiet k" "dev s' = dev s"
    "bus s' = bus s @ [Rd reg, Wr reg (cur s reg OR p)] @ (Print f [] # k @ [Rd reg])"
    "dev s (bus s @ [Rd reg, Wr reg (cur s reg OR p)] @ Print f [] # k) reg AND flag \<noteq> 0"
proof -
  let ?e = "[Rd reg, Wr reg (cur s reg OR p), Print f []]"
  have "run_state (await reg flag) (log ?e s) = ((), s')" using run assms(1) by simp
  then obtain k where k: "list_all quiet k" "bus s' = bus s @ ?e @ k @ [Rd reg]" "dev s' = dev s"
    "dev s ((bus s @ ?e) @ k) reg AND flag \<noteq> 0"
    using await_ends [of "log ?e s" reg flag s'] assms(1,2) by auto
  then show thesis by (intro that [of k]) simp_all
qed

subsection \<open>Properties\<close>

text \<open>C37.  Power-up order.  When \<open>power_domain_on\<close> returns for a domain that was off, it has written
  the domain's register exactly four times: power on, then, after the hardware reported power good,
  the electrical isolation off, right after that the memory repair, then, after the hardware reported the
  repair done, the functional isolation off.  Every write carries the password.\<close>

theorem power_up_order:
  assumes "running s" and "dev s (bus s @ [Print ''bringing domain up'' []]) reg AND PM_POWUP = 0"
    and run: "run_state (power_domain_on reg rstn) s = ((), s')" and "running s'"
  shows "\<exists>e0 e1 e2 e3 v0 v1 v2 v3.
    bus s' = bus s @ (e0 @ [Wr reg v0]) @ (e1 @ [Wr reg v1]) @ (e2 @ [Wr reg v2]) @ (e3 @ [Wr reg v3]) \<and>
    list_all quiet (e0 @ e1 @ e2 @ e3) \<and>
    has v0 PM_POWUP \<and> has v1 PM_ISPOW \<and> has v2 PM_MEMREP \<and> has v3 PM_ISFUNC \<and>
    seen (dev s) (bus s @ e0 @ [Wr reg v0]) e1 reg PM_POWOK \<and>
    seen (dev s) (bus s @ (e0 @ [Wr reg v0]) @ (e1 @ [Wr reg v1]) @ (e2 @ [Wr reg v2])) e3 reg PM_MRDONE"
proof -
  define p where "p m = PM_PASSWORD OR m" for m
  let ?a = "do { reg_or reg (p PM_POWUP); printf ''waiting'' []; await reg PM_POWOK }"
  let ?e = "[Print ''bringing domain up'' [], Rd reg]"
  let ?s = "log ?e s"
  let ?rest = "do { reg_or reg (p PM_ISPOW); printf ''mem rep'' []; reg_or reg (p PM_MEMREP); await reg PM_MRDONE;
      reg_or reg (p PM_ISFUNC) }"
  have inert: "inert ?rest" "inert (do { await reg PM_MRDONE; reg_or reg (p PM_ISFUNC) })"
    "inert (reg_or reg (p PM_ISFUNC))" by (intro inert_intros)+
  have "run_state (do { _ \<leftarrow> ?a; ?rest }) ?s = ((), s')"
    using run assms(1,2) by (simp add: power_domain_on_def cur_def p_def State_Monad.bind_assoc)
  from inert_running [OF inert(1) this assms(4)] obtain s1 where s1: "running s1"
    "run_state ?a ?s = ((), s1)" "run_state ?rest s1 = ((), s')" by (metis old.unit.exhaust)
  obtain k where k: "list_all quiet k" "dev s1 = dev ?s"
    "bus s1 = bus ?s @ [Rd reg, Wr reg (cur ?s reg OR p PM_POWUP)] @ (Print ''waiting'' [] # k @ [Rd reg])"
    "dev ?s (bus ?s @ [Rd reg, Wr reg (cur ?s reg OR p PM_POWUP)] @ Print ''waiting'' [] # k) reg AND PM_POWOK \<noteq> 0"
    by (rule domain_first_half [OF _ s1(1,2)]) (use assms(1) in simp)
  let ?f = "[Rd reg, Wr reg (cur s1 reg OR p PM_ISPOW), Print ''mem rep'' [], Rd reg,
    Wr reg (cur (log [Rd reg, Wr reg (cur s1 reg OR p PM_ISPOW), Print ''mem rep'' []] s1) reg OR p PM_MEMREP)]"
  have "run_state (do { await reg PM_MRDONE; reg_or reg (p PM_ISFUNC) }) (log ?f s1) = ((), s')"
    using s1 by simp
  from inert_running [OF inert(3) this assms(4)] obtain s2 where s2: "running s2"
    "run_state (await reg PM_MRDONE) (log ?f s1) = ((), s2)" "run_state (reg_or reg (p PM_ISFUNC)) s2 = ((), s')"
    by (metis old.unit.exhaust)
  obtain l where l: "list_all quiet l" "bus s2 = bus (log ?f s1) @ l @ [Rd reg]" "dev s2 = dev (log ?f s1)"
    "dev (log ?f s1) (bus (log ?f s1) @ l) reg AND PM_MRDONE \<noteq> 0"
    by (rule await_ends [OF _ s2(2,1)]) (use s1(1) in simp)
  have s': "bus s' = bus s2 @ [Rd reg, Wr reg (cur s2 reg OR p PM_ISFUNC)]" using s2 by auto
  have d: "dev s1 = dev s" "dev s2 = dev s" using k(2) l(3) by simp_all
  have sp: "seen (dev s) h (l @ Rd reg # r) reg PM_MRDONE" if "h = bus (log ?f s1)" for h r
    by (rule seenI) (use l(4) d that in simp)
  have sk: "seen (dev s) h (Print ''waiting'' [] # k @ Rd reg # r) reg PM_POWOK"
    if "h = bus ?s @ [Rd reg, Wr reg (cur ?s reg OR p PM_POWUP)]" for h r
    using seenI [of "dev s" h "Print ''waiting'' [] # k" reg PM_POWOK r] k(4) that by simp
  show ?thesis
    by (rule exI [of _ "?e @ [Rd reg]"], rule exI [of _ "Print ''waiting'' [] # k @ [Rd reg, Rd reg]"],
        rule exI [of _ "[Print ''mem rep'' [], Rd reg]"], rule exI [of _ "l @ [Rd reg, Rd reg]"])
      (use s' l k in \<open>auto simp: p_def intro!: sk sp\<close>)
qed

definition domain_dev :: device where
  "domain_dev h a = (memory (\<lambda>_. 0) h a OR 0x12)"

lemma await_now:
  "running s \<Longrightarrow> cur s reg AND flag \<noteq> 0 \<Longrightarrow> run_state (await reg flag) s = ((), log [Rd reg] s)"
  unfolding await_def while_io_def by (rule loop_finish) simp_all

theorem power_up_order_witness:
  "\<exists>s' e v. run_state (power_domain_on PM_PROC PM_PROC_ARMRSTN_CLR) (boot domain_dev) = ((), s') \<and>
     bus s' = e @ [Wr PM_PROC v] \<and> has v PM_ISFUNC"
proof -
  let ?s = "boot domain_dev"
  have f: "PM_POWOK = 2" "PM_MRDONE = 16" "PM_POWUP = 1" by (simp_all add: reg_defs)
  have on: "domain_dev h a AND 2 \<noteq> 0" "domain_dev h a AND 16 \<noteq> 0" for h a
  proof -
    have b: "bit (0x12 :: u32) 1" "bit (0x12 :: u32) 4" by (simp_all add: bit_numeral_rec)
    have "bit (domain_dev h a AND 2) 1" "bit (domain_dev h a AND 16) 4"
      using b by (simp_all add: domain_dev_def bit_or_iff bit_and_iff bit_numeral_rec)
    then show "domain_dev h a AND 2 \<noteq> 0" "domain_dev h a AND 16 \<noteq> 0" by (metis bit_0_eq bot_apply bot_bool_def)+
  qed
  obtain s' where run: "run_state (power_domain_on PM_PROC PM_PROC_ARMRSTN_CLR) ?s = ((), s')"
    using run_unit by blast
  have off: "dev ?s (bus ?s @ [Print ''bringing domain up'' []]) PM_PROC AND PM_POWUP = 0"
    by (simp add: f domain_dev_def memory_def)
  have "running s'"
    using run on by (auto simp: power_domain_on_def await_now cur_def f split: if_splits)
  from power_up_order [OF _ off run this] run show ?thesis by (auto simp flip: append_assoc)
qed

end
