(* ===== verification/Arm_Intc.thy ===== *)
theory Arm_Intc
  imports Vpu_Intc
begin

unbundle bit_operations_syntax

text \<open>
  The interrupt controller of the ARM cores (\<^verbatim>\<open>platform/bcm28xx/intc.c\<close>).  The peripheral base
  depends on the build, so it is an argument \<open>virt\<close>; so are the switches \<^verbatim>\<open>WITH_SMP\<close> and
  \<^verbatim>\<open>BCM2835\<close>.  LK's own code is not part of this repository: its spin lock, its inter-processor
  messages and its scheduler are arguments as well, and the locale \<open>lk_irqsave\<close> states what the
  controller needs of the lock.
\<close>

subsection \<open>Registers\<close>

definition armctrl_intc_base :: "u32 \<Rightarrow> u32" where [reg_defs]: "armctrl_intc_base virt = virt + 0xB000 + 0x200"
definition arm_local_base :: "u32 \<Rightarrow> u32" where [reg_defs]: "arm_local_base virt = virt + 0x01000000"

definition INTC_PEND1 :: "u32 \<Rightarrow> u32" where [reg_defs]: "INTC_PEND1 virt = armctrl_intc_base virt + 0x4"
definition INTC_PEND2 :: "u32 \<Rightarrow> u32" where [reg_defs]: "INTC_PEND2 virt = armctrl_intc_base virt + 0x8"
definition INTC_ENABLE1 :: "u32 \<Rightarrow> u32" where [reg_defs]: "INTC_ENABLE1 virt = armctrl_intc_base virt + 0x10"
definition INTC_ENABLE2 :: "u32 \<Rightarrow> u32" where [reg_defs]: "INTC_ENABLE2 virt = armctrl_intc_base virt + 0x14"
definition INTC_ENABLE3 :: "u32 \<Rightarrow> u32" where [reg_defs]: "INTC_ENABLE3 virt = armctrl_intc_base virt + 0x18"
definition INTC_DISABLE1 :: "u32 \<Rightarrow> u32" where [reg_defs]: "INTC_DISABLE1 virt = armctrl_intc_base virt + 0x1c"
definition INTC_DISABLE2 :: "u32 \<Rightarrow> u32" where [reg_defs]: "INTC_DISABLE2 virt = armctrl_intc_base virt + 0x20"
definition INTC_DISABLE3 :: "u32 \<Rightarrow> u32" where [reg_defs]: "INTC_DISABLE3 virt = armctrl_intc_base virt + 0x24"
definition INTC_LOCAL_TIMER_INT_CONTROL0 :: "u32 \<Rightarrow> u32" where [reg_defs]:
  "INTC_LOCAL_TIMER_INT_CONTROL0 virt = arm_local_base virt + 0x40"
definition INTC_LOCAL_MAILBOX_INT_CONTROL0 :: "u32 \<Rightarrow> u32" where [reg_defs]:
  "INTC_LOCAL_MAILBOX_INT_CONTROL0 virt = arm_local_base virt + 0x50"
definition INTC_LOCAL_IRQ_PEND0 :: "u32 \<Rightarrow> u32" where [reg_defs]:
  "INTC_LOCAL_IRQ_PEND0 virt = arm_local_base virt + 0x60"
definition INTC_LOCAL_MAILBOX0_SET0 :: "u32 \<Rightarrow> u32" where [reg_defs]:
  "INTC_LOCAL_MAILBOX0_SET0 virt = arm_local_base virt + 0x80"
definition INTC_LOCAL_MAILBOX0_CLR0 :: "u32 \<Rightarrow> u32" where [reg_defs]:
  "INTC_LOCAL_MAILBOX0_CLR0 virt = arm_local_base virt + 0xc0"

subsection \<open>State\<close>

text \<open>\<^verbatim>\<open>int_handler_table[MAX_INT]\<close>, as two arrays.\<close>

record arm_mach = mach +
  int_h :: "u32 list"
  int_arg :: "u32 list"

type_synonym ('r, 'a) arm_io = "('r arm_mach_ext, 'a) io"

definition arm_wf :: "'r arm_mach_scheme \<Rightarrow> bool" where
  "arm_wf s \<longleftrightarrow> length (int_h s) = unat MAX_INT \<and> length (int_arg s) = unat MAX_INT"

definition arm_handlers :: "'r arm_mach_scheme \<Rightarrow> u32 \<Rightarrow> u32 \<times> u32" where
  "arm_handlers s v = (if v < MAX_INT then (int_h s ! unat v, int_arg s ! unat v) else (0, 0))"

subsection \<open>Masking\<close>

definition PANIC_UNIMPLEMENTED :: "('r, unit) io" where
  "PANIC_UNIMPLEMENTED = panic ''unimplemented''"

definition is_local_timer :: "u32 \<Rightarrow> bool" where
  "is_local_timer v \<longleftrightarrow> v \<ge> INTERRUPT_ARM_LOCAL_CNTPSIRQ \<and> v \<le> INTERRUPT_ARM_LOCAL_CNTVIRQ"

definition arm_mask_interrupt ::
  "('r, u32) io \<Rightarrow> (u32 \<Rightarrow> ('r, unit) io) \<Rightarrow> u32 \<Rightarrow> u32 \<Rightarrow> ('r, status_t) io" where
  "arm_mask_interrupt irqsave irqrestore virt vector = do {
     state \<leftarrow> irqsave;
     (if is_local_timer vector then
        for_each [0..<4] (\<lambda>cpu.
          reg_and (INTC_LOCAL_TIMER_INT_CONTROL0 virt + of_nat cpu * 4)
            (push_bit (unat (vector - INTERRUPT_ARM_LOCAL_CNTPSIRQ)) 1))
      else if vector < ARM_IRQ0_BASE + 32 then
        wr (if vector \<ge> ARM_IRQ0_BASE then INTC_DISABLE3 virt
            else if vector \<ge> ARM_IRQ2_BASE then INTC_DISABLE2 virt else INTC_DISABLE1 virt)
          (push_bit (unat (vector mod 32)) 1)
      else PANIC_UNIMPLEMENTED);
     irqrestore state;
     return NO_ERROR
   }"

definition arm_unmask_interrupt ::
  "('r, u32) io \<Rightarrow> (u32 \<Rightarrow> ('r, unit) io) \<Rightarrow> u32 \<Rightarrow> u32 \<Rightarrow> ('r, status_t) io" where
  "arm_unmask_interrupt irqsave irqrestore virt vector = do {
     state \<leftarrow> irqsave;
     (if is_local_timer vector then
        for_each [0..<4] (\<lambda>cpu.
          reg_or (INTC_LOCAL_TIMER_INT_CONTROL0 virt + of_nat cpu * 4)
            (push_bit (unat (vector - INTERRUPT_ARM_LOCAL_CNTPSIRQ)) 1))
      else if vector < ARM_IRQ0_BASE + 32 then
        wr (if vector \<ge> ARM_IRQ0_BASE then INTC_ENABLE3 virt
            else if vector \<ge> ARM_IRQ2_BASE then INTC_ENABLE2 virt else INTC_ENABLE1 virt)
          (push_bit (unat (vector mod 32)) 1)
      else PANIC_UNIMPLEMENTED);
     irqrestore state;
     return NO_ERROR
   }"

definition arm_register_int_handler ::
  "('r arm_mach_ext, u32) io \<Rightarrow> (u32 \<Rightarrow> ('r arm_mach_ext, unit) io) \<Rightarrow>
     u32 \<Rightarrow> u32 \<Rightarrow> u32 \<Rightarrow> ('r, unit) arm_io" where
  "arm_register_int_handler irqsave irqrestore vector handler a = do {
     when_io (vector \<ge> MAX_INT) (panic ''register_int_handler: vector out of range'');
     state \<leftarrow> irqsave;
     gset (\<lambda>s. s\<lparr>int_h := (int_h s)[unat vector := handler]\<rparr>);
     gset (\<lambda>s. s\<lparr>int_arg := (int_arg s)[unat vector := a]\<rparr>);
     irqrestore state
   }"

subsection \<open>Dispatch\<close>

text \<open>\<^verbatim>\<open>ctz\<close>, the number of zero bits below the lowest set bit (of a word that is not zero).\<close>

definition ctz :: "u32 \<Rightarrow> nat" where
  "ctz x = length (takeWhile (\<lambda>i. \<not> bit x i) [0..<32])"

definition no_vector :: u32 where "no_vector = 0xffffffff"

text \<open>The first half of \<^verbatim>\<open>platform_irq\<close>: which vector is pending on this core.\<close>

definition decode_irq :: "bool \<Rightarrow> u32 \<Rightarrow> u32 \<Rightarrow> ('r, u32) io" where
  "decode_irq bcm2835 virt cpu = do {
     local_pend \<leftarrow>
       (if \<not> bcm2835 then do {
          x \<leftarrow> rd (INTC_LOCAL_IRQ_PEND0 virt + cpu * 4);
          return (x AND NOT (push_bit (unat (INTERRUPT_ARM_LOCAL_GPU_FAST mod 32)) 1))
        } else return 0);
     if local_pend \<noteq> 0 then return (ARM_IRQ_LOCAL_BASE + of_nat (ctz local_pend))
     else do {
       pend1 \<leftarrow> rd (INTC_PEND1 virt);
       if pend1 \<noteq> 0 then return (ARM_IRQ1_BASE + of_nat (ctz pend1))
       else do {
         pend2 \<leftarrow> rd (INTC_PEND2 virt);
         if pend2 \<noteq> 0 then return (ARM_IRQ2_BASE + of_nat (ctz pend2))
         else return no_vector
       }
     }
   }"

text \<open>
  The inter-processor mailbox, in a build with \<^verbatim>\<open>WITH_SMP\<close>.  \<open>generic\<close> and \<open>resched\<close> are LK's
  message numbers, \<open>mp_resched\<close> is \<^verbatim>\<open>mp_mbx_reschedule_irq\<close>.
\<close>

definition mailbox_irq ::
  "nat \<Rightarrow> nat \<Rightarrow> ('r, handler_return) io \<Rightarrow> u32 \<Rightarrow> u32 \<Rightarrow> ('r, handler_return) io" where
  "mailbox_irq generic resched mp_resched virt cpu = do {
     pend \<leftarrow> rd (INTC_LOCAL_MAILBOX0_CLR0 virt + 0x10 * cpu);
     wr (INTC_LOCAL_MAILBOX0_CLR0 virt + 0x10 * cpu) pend;
     when_io (bit pend generic) PANIC_UNIMPLEMENTED;
     if bit pend resched then mp_resched else return INT_NO_RESCHEDULE
   }"

text \<open>\<open>call h a\<close> calls the handler at address \<open>h\<close>.  An index outside the table stops the machine.\<close>

definition platform_irq ::
  "(u32 \<Rightarrow> u32 \<Rightarrow> ('r, handler_return) arm_io) \<Rightarrow> (u32 \<Rightarrow> ('r, handler_return) arm_io) option \<Rightarrow>
     bool \<Rightarrow> u32 \<Rightarrow> u32 \<Rightarrow> ('r, handler_return) arm_io" where
  "platform_irq call smp bcm2835 virt cpu = do {
     vector \<leftarrow> decode_irq bcm2835 virt cpu;
     if smp \<noteq> None \<and> vector = INTERRUPT_ARM_LOCAL_MAILBOX0 then the smp cpu
     else if vector = no_vector then return INT_NO_RESCHEDULE
     else if vector \<ge> MAX_INT then do {
       panic ''int_handler_table index'';
       return INT_NO_RESCHEDULE
     } else do {
       h \<leftarrow> gget (\<lambda>s. int_h s ! unat vector);
       a \<leftarrow> gget (\<lambda>s. int_arg s ! unat vector);
       if h \<noteq> 0 then call h a
       else do { panic ''irq fired but no handler set!''; return INT_NO_RESCHEDULE }
     }
   }"

definition platform_fiq :: "('r, unit) io" where
  "platform_fiq = PANIC_UNIMPLEMENTED"

definition bcm28xx_send_ipi :: "u32 \<Rightarrow> nat \<Rightarrow> u32 \<Rightarrow> ('r, unit) io" where
  "bcm28xx_send_ipi virt irq cpu_mask =
     for_each [0..<4] (\<lambda>i. when_io (bit cpu_mask i)
       (wr (INTC_LOCAL_MAILBOX0_SET0 virt + 0x10 * of_nat i) (push_bit irq 1)))"

definition arm_intc_init :: "bool \<Rightarrow> u32 \<Rightarrow> ('r, unit) io" where
  "arm_intc_init with_smp virt = do {
     wr (INTC_DISABLE1 virt) 0xffffffff;
     wr (INTC_DISABLE2 virt) 0xffffffff;
     wr (INTC_DISABLE3 virt) 0xffffffff;
     when_io with_smp
       (for_each [0..<4] (\<lambda>i. wr (INTC_LOCAL_MAILBOX_INT_CONTROL0 virt + 0x4 * of_nat i) 0x1))
   }"


subsection \<open>The controller provides the drivers' interface\<close>

lemma run_reg_ors:
  assumes "running s"
  shows "\<exists>es. run_state (for_each xs (\<lambda>i. reg_or (f i) v)) s = ((), log es s)"
  using assms
proof (induction xs arbitrary: s)
  case Nil
  then show ?case by (intro exI [of _ "[]"]) simp
next
  case (Cons x xs)
  let ?s = "log [Rd (f x), Wr (f x) (cur s (f x) OR v)] s"
  obtain es where "run_state (for_each xs (\<lambda>i. reg_or (f i) v)) ?s = ((), log es ?s)"
    using Cons.IH [of ?s] Cons.prems by auto
  with Cons.prems show ?case
    by (intro exI [of _ "[Rd (f x), Wr (f x) (cur s (f x) OR v)] @ es"]) simp
qed

text \<open>Any lock that keeps LK's contract will do; the laws are those of \<open>int_controller\<close>.\<close>

locale arm_lock = lk_irqsave save restore off
  for save :: "('r arm_mach_ext, u32) io" and restore :: "u32 \<Rightarrow> ('r arm_mach_ext, unit) io"
    and off :: "u32 \<Rightarrow> u32" +
  fixes virt :: u32
begin

lemma run_arm_register:
  assumes "running s" "v < MAX_INT"
  shows "run_state (arm_register_int_handler save restore v h a) s =
    ((), s\<lparr>int_h := (int_h s)[unat v := h], int_arg := (int_arg s)[unat v := a]\<rparr>)"
proof -
  let ?m = "do { gset (\<lambda>s. s\<lparr>int_h := (int_h s)[unat v := h]\<rparr>);
      gset (\<lambda>s. s\<lparr>int_arg := (int_arg s)[unat v := a]\<rparr>) }"
  let ?t = "s\<lparr>sr := off (sr s)\<rparr>"
  have "run_state ?m ?t =
      ((), ?t\<lparr>int_h := (int_h s)[unat v := h], int_arg := (int_arg s)[unat v := a]\<rparr>)"
    using assms(1) by simp
  from critical_section [OF assms(1) this]
  have "run_state (do { st \<leftarrow> save; _ \<leftarrow> ?m; restore st }) s =
      ((), s\<lparr>int_h := (int_h s)[unat v := h], int_arg := (int_arg s)[unat v := a]\<rparr>)"
    using assms(1) by simp
  moreover have "arm_register_int_handler save restore v h a = do { st \<leftarrow> save; _ \<leftarrow> ?m; restore st }"
    using assms(2)
    by (simp add: arm_register_int_handler_def State_Monad.bind_assoc when_io_def not_less [symmetric])
  ultimately show ?thesis by simp
qed

lemma handlers_register:
  assumes "arm_wf s" "v < MAX_INT"
  shows "arm_handlers (s\<lparr>int_h := (int_h s)[unat v := h], int_arg := (int_arg s)[unat v := a]\<rparr>) =
    (arm_handlers s)(v := (h, a))"
  using assms by (auto simp: arm_handlers_def arm_wf_def fun_eq_iff nth_list_update unat_eq_iff_eq
      word_less_nat_alt)

definition unmask_body :: "u32 \<Rightarrow> ('r arm_mach_ext, unit) io" where
  "unmask_body v = (if is_local_timer v then
      for_each [0..<4] (\<lambda>cpu. reg_or (INTC_LOCAL_TIMER_INT_CONTROL0 virt + of_nat cpu * 4)
        (push_bit (unat (v - INTERRUPT_ARM_LOCAL_CNTPSIRQ)) 1))
    else if v < ARM_IRQ0_BASE + 32 then
      wr (if v \<ge> ARM_IRQ0_BASE then INTC_ENABLE3 virt
          else if v \<ge> ARM_IRQ2_BASE then INTC_ENABLE2 virt else INTC_ENABLE1 virt)
        (push_bit (unat (v mod 32)) 1)
    else PANIC_UNIMPLEMENTED)"

lemma run_arm_unmask:
  assumes "running s" "v < 100"
  shows "\<exists>es. run_state (arm_unmask_interrupt save restore virt v) s = (NO_ERROR, log es s)"
proof -
  have v: "is_local_timer v \<or> v < ARM_IRQ0_BASE + 32"
    using assms(2) by (simp add: is_local_timer_def reg_defs) unat_arith
  let ?t = "s\<lparr>sr := off (sr s)\<rparr>"
  have "\<exists>es. run_state (unmask_body v) ?t = ((), log es ?t)"
  proof (cases "is_local_timer v")
    case True
    then show ?thesis unfolding unmask_body_def using assms(1) by (simp only: if_True) (rule run_reg_ors, simp)
  next
    case False
    then show ?thesis using v assms(1) by (auto simp: unmask_body_def)
  qed
  then obtain es where "run_state (unmask_body v) ?t = ((), log es ?t)" by blast
  from critical_section [OF assms(1) this] assms(1)
  have "run_state (do { st \<leftarrow> save; _ \<leftarrow> unmask_body v; restore st }) s = ((), log es s)"
    by (simp add: log_def)
  then have "run_state (do { _ \<leftarrow> (do { st \<leftarrow> save; _ \<leftarrow> unmask_body v; restore st }); return NO_ERROR }) s =
      (NO_ERROR, log es s)"
    by (subst run_state_bind) (simp only: prod.case run_state_return)
  then show ?thesis by (auto simp: arm_unmask_interrupt_def unmask_body_def State_Monad.bind_assoc)
qed

end

sublocale arm_lock \<subseteq> ints: int_controller "arm_register_int_handler save restore"
  "arm_unmask_interrupt save restore virt" arm_handlers arm_wf 100
proof
  fix s :: "'r arm_mach_scheme" and v h a :: u32
  assume a: "running s" "arm_wf s" "v < 100"
  then have "v < MAX_INT" by (simp add: reg_defs) unat_arith
  with a show "\<exists>s'. run_state (arm_register_int_handler save restore v h a) s = ((), s') \<and>
      arm_handlers s' = (arm_handlers s)(v := (h, a)) \<and> arm_wf s' \<and> status s' = Running \<and>
      bus s' = bus s \<and> dev s' = dev s \<and> sr s' = sr s"
    by (simp add: run_arm_register handlers_register) (simp add: arm_wf_def)
  obtain es where "run_state (arm_unmask_interrupt save restore virt v) s = (NO_ERROR, log es s)"
    using run_arm_unmask [OF a(1,3)] by blast
  with a show "\<exists>s'. run_state (arm_unmask_interrupt save restore virt v) s = (NO_ERROR, s') \<and>
      arm_handlers s' = arm_handlers s \<and> arm_wf s' \<and> status s' = Running \<and> dev s' = dev s \<and> sr s' = sr s"
    by (simp add: arm_handlers_def arm_wf_def log_def fun_eq_iff)
qed

text \<open>The lock of this repository's own architecture layer keeps the contract.\<close>

interpretation arm_ints: arm_lock arch_interrupt_save arch_interrupt_restore "\<lambda>x. x AND NOT SR_INTS" virt
  for virt ..

subsection \<open>Library\<close>

lemma ctz_eq:
  assumes "n < 32" "bit x n" "\<forall>i < n. \<not> bit x i"
  shows "ctz x = n"
proof -
  have "[0..<32] = [0..<n] @ n # [Suc n..<32]"
    using assms(1) upt_add_eq_append [of 0 n "32 - n"] by (simp add: upt_conv_Cons)
  then show ?thesis using assms(2,3) by (simp add: ctz_def takeWhile_append)
qed

text \<open>Which vector is pending first: the core's own sources, then bank 1, then bank 2, lowest bit first.\<close>

definition lowest :: "u32 \<Rightarrow> nat \<Rightarrow> bool" where
  "lowest x n \<longleftrightarrow> n < 32 \<and> bit x n \<and> (\<forall>i < n. \<not> bit x i)"

definition first_pending :: "u32 \<Rightarrow> u32 \<Rightarrow> u32 \<Rightarrow> u32 \<Rightarrow> bool" where
  "first_pending l p1 p2 v \<longleftrightarrow>
     (if l \<noteq> 0 then \<exists>n. lowest l n \<and> v = 96 + of_nat n
      else if p1 \<noteq> 0 then \<exists>n. lowest p1 n \<and> v = of_nat n
      else p2 \<noteq> 0 \<and> (\<exists>n. lowest p2 n \<and> v = 32 + of_nat n))"

text \<open>What the controller reports to core \<open>cpu\<close>, the GPU summary bit of the local bank masked out.\<close>

definition pending :: "'r mach_scheme \<Rightarrow> u32 \<Rightarrow> u32 \<Rightarrow> u32 \<times> u32 \<times> u32" where
  "pending s virt cpu =
     (let a = INTC_LOCAL_IRQ_PEND0 virt + cpu * 4 in
      (cur s a AND NOT 0x100, cur (log [Rd a] s) (INTC_PEND1 virt),
       cur (log [Rd a, Rd (INTC_PEND1 virt)] s) (INTC_PEND2 virt)))"

lemma lowest_ctz: "lowest x n \<Longrightarrow> ctz x = n"
  by (simp add: lowest_def ctz_eq)

text \<open>The registers read until that vector is found.\<close>

definition arm_polls :: "u32 \<Rightarrow> u32 \<Rightarrow> u32 \<Rightarrow> u32 list" where
  "arm_polls virt cpu v = (INTC_LOCAL_IRQ_PEND0 virt + cpu * 4) #
     (if v \<ge> 96 then [] else INTC_PEND1 virt # (if v < 32 then [] else [INTC_PEND2 virt]))"

lemma run_decode_irq:
  assumes "running s" "pending s virt cpu = (l, p1, p2)" "first_pending l p1 p2 v"
  shows "run_state (decode_irq False virt cpu) s = (v, log (map Rd (arm_polls virt cpu v)) s)"
proof -
  have g: "INTERRUPT_ARM_LOCAL_GPU_FAST mod 32 = 8" by (simp add: reg_defs)
  have b: "ARM_IRQ_LOCAL_BASE = 96" "ARM_IRQ1_BASE = 0" "ARM_IRQ2_BASE = 32" by (simp_all add: reg_defs)
  have w: "unat (of_nat n :: u32) = n" "unat (96 + of_nat n :: u32) = 96 + n" "unat (32 + of_nat n :: u32) = 32 + n"
    if "n < 32" for n using that by (simp_all add: unat_word_ariths unat_of_nat)
  have c: "n < 32 \<Longrightarrow> \<not> 96 \<le> (of_nat n :: u32)" "n < 32 \<Longrightarrow> (of_nat n :: u32) < 32" "n < 32 \<Longrightarrow> 96 \<le> (96 + of_nat n :: u32)"
    "n < 32 \<Longrightarrow> \<not> 96 \<le> (32 + of_nat n :: u32)" "n < 32 \<Longrightarrow> \<not> (32 + of_nat n :: u32) < 32" for n
    using w [of n] by (simp_all add: word_le_nat_alt word_less_nat_alt)
  consider "l \<noteq> 0" | "l = 0" "p1 \<noteq> 0" | "l = 0" "p1 = 0" by blast
  then show ?thesis
  proof cases
    case 1
    with assms show ?thesis
      by (auto simp: decode_irq_def g b pending_def Let_def first_pending_def lowest_ctz arm_polls_def c lowest_def
          dest!: lowest_ctz)
  next
    case 2
    then obtain n where n: "lowest p1 n" "v = of_nat n" using assms(3) by (auto simp: first_pending_def)
    then have "n < 32" by (simp add: lowest_def)
    with assms 2 n show ?thesis
      by (auto simp: decode_irq_def g b pending_def Let_def lowest_ctz arm_polls_def c)
  next
    case 3
    then obtain n where n: "lowest p2 n" "v = 32 + of_nat n" "p2 \<noteq> 0" using assms(3) by (auto simp: first_pending_def)
    then have "n < 32" by (simp add: lowest_def)
    with assms 3 n show ?thesis
      by (auto simp: decode_irq_def g b pending_def Let_def lowest_ctz arm_polls_def c)
  qed
qed

text \<open>The controller with its dispatcher, on core \<open>cpu\<close>.\<close>

definition arm_reports :: "bool \<Rightarrow> u32 \<Rightarrow> u32 \<Rightarrow> 'r mach_scheme \<Rightarrow> u32 \<Rightarrow> bool" where
  "arm_reports smp virt cpu s v \<longleftrightarrow> (\<not> smp \<or> v \<noteq> INTERRUPT_ARM_LOCAL_MAILBOX0) \<and>
     (\<exists>l p1 p2. pending s virt cpu = (l, p1, p2) \<and> first_pending l p1 p2 v)"

interpretation arm_dispatch: int_dispatcher
  "arm_register_int_handler arch_interrupt_save arch_interrupt_restore"
  "arm_unmask_interrupt arch_interrupt_save arch_interrupt_restore virt" arm_handlers arm_wf 100
  "\<lambda>call. platform_irq call smp False virt cpu" return "arm_reports (smp \<noteq> None) virt cpu" "arm_polls virt cpu"
  for virt cpu and smp :: "(u32 \<Rightarrow> ('r, handler_return) arm_io) option"
proof
  fix s :: "'r arm_mach_scheme" and v h a :: u32 and call
  assume a: "running s" "arm_reports (smp \<noteq> None) virt cpu s v" "arm_handlers s v = (h, a)" "h \<noteq> 0"
  then obtain l p1 p2 where p: "pending s virt cpu = (l, p1, p2)" "first_pending l p1 p2 v"
    and m: "smp = None \<or> v \<noteq> INTERRUPT_ARM_LOCAL_MAILBOX0" by (auto simp: arm_reports_def)
  have v: "\<not> MAX_INT \<le> v" "int_h s ! unat v = h" "int_arg s ! unat v = a"
    using a(3,4) by (auto simp: arm_handlers_def split: if_splits)
  then have "v \<noteq> no_vector" by (auto simp: no_vector_def reg_defs)
  with a v m run_decode_irq [OF a(1) p]
  show "run_state (platform_irq call smp False virt cpu) s =
      run_state (call h a \<bind> return) (log (map Rd (arm_polls virt cpu v)) s)"
    by (auto simp: platform_irq_def log_def)
qed

definition timer_ctl :: "u32 \<Rightarrow> nat \<Rightarrow> u32" where
  "timer_ctl virt c = INTC_LOCAL_TIMER_INT_CONTROL0 virt + of_nat c * 4"

lemma timer_ctl_inj: "c < 4 \<Longrightarrow> d < 4 \<Longrightarrow> timer_ctl virt c = timer_ctl virt d \<longleftrightarrow> c = d"
  using mult4_inj [of c d] by (auto simp: timer_ctl_def mult.commute)

lemma reg_ands_values:
  assumes "running s" and "distinct xs" and "inj_on f (set xs)" and "\<And>x. x \<in> set xs \<Longrightarrow> plain_at (dev s) (f x)"
  shows "\<exists>es. run_state (for_each xs (\<lambda>i. reg_and (f i) v)) s = ((), log es s) \<and>
    (\<forall>x \<in> set xs. last_write (f x) es = Some (cur s (f x) AND v)) \<and>
    (\<forall>a. a \<notin> f ` set xs \<longrightarrow> last_write a es = None)"
  using assms
proof (induction xs arbitrary: s)
  case Nil
  then show ?case by (intro exI [of _ "[]"]) simp
next
  case (Cons x xs)
  let ?e = "[Rd (f x), Wr (f x) (cur s (f x) AND v)]"
  obtain es where es: "run_state (for_each xs (\<lambda>i. reg_and (f i) v)) (log ?e s) = ((), log es (log ?e s))"
    "\<forall>y \<in> set xs. last_write (f y) es = Some (cur (log ?e s) (f y) AND v)"
    "\<forall>a. a \<notin> f ` set xs \<longrightarrow> last_write a es = None"
    using Cons.IH [of "log ?e s"] Cons.prems by auto
  have x: "f x \<notin> f ` set xs" using Cons.prems(2,3) by auto
  have y: "f y \<noteq> f x" if "y \<in> set xs" for y using x that by (metis image_eqI)
  have c: "cur (log ?e s) (f y) = cur s (f y)" if "y \<in> set xs" for y
    using plain_cur_log [OF Cons.prems(4), of y ?e] y [OF that] that by simp
  show ?case
    by (rule exI [of _ "?e @ es"]) (use es c x y Cons.prems(1) in auto)
qed

subsection \<open>Properties\<close>

text \<open>C7.  Dispatch on an ARM core: the core's own sources come first, then GPU bank 1, then bank 2,
  and in a bank the lowest pending bit.  The handler registered for that vector, with the table as it
  was then, is called once, with the registered argument, after nothing but reads of the pending
  registers up to the one that reports it.\<close>

theorem arm_irq_dispatch:
  fixes s t :: "'r arm_mach_scheme"
  assumes "running s" and "arm_wf s" and "v < MAX_INT" and "h \<noteq> 0"
    and reg: "run_state (arm_register_int_handler arch_interrupt_save arch_interrupt_restore v h a) s = ((), s1)"
    and later: "running t" "arm_handlers t = arm_handlers s1"
    and pend: "pending t virt cpu = (l, p1, p2)" "first_pending l p1 p2 v"
    and smp: "smp = None \<or> v \<noteq> INTERRUPT_ARM_LOCAL_MAILBOX0"
  shows "run_state (platform_irq call smp False virt cpu) t =
    run_state (call h a) (log (map Rd (arm_polls virt cpu v)) t)"
proof -
  have "arm_handlers s1 = (arm_handlers s)(v := (h, a))"
    using reg arm_ints.run_arm_register [OF assms(1,3), of h a] arm_ints.handlers_register [OF assms(2,3), of a h]
    by auto
  then have "arm_handlers t v = (h, a)" using later(2) by simp
  moreover have "arm_reports (smp \<noteq> None) virt cpu t v" using pend smp by (auto simp: arm_reports_def)
  ultimately show ?thesis using arm_dispatch.dispatch_ok [OF later(1) _ _ assms(4)] by simp
qed

definition arm_boot :: "device \<Rightarrow> arm_mach" where
  "arm_boot d = \<lparr>dev = d, bus = [], status = Running, sr = SR_INTS,
     int_h = replicate 107 0, int_arg = replicate 107 0\<rparr>"

lemma arm_boot_simps [simp]:
  "dev (arm_boot d) = d" "bus (arm_boot d) = []" "running (arm_boot d)" "arm_wf (arm_boot d)"
  by (simp_all add: arm_boot_def arm_wf_def reg_defs)

definition arm_call :: "u32 \<Rightarrow> u32 \<Rightarrow> ('r, handler_return) arm_io" where
  "arm_call h a = do { printf ''handler'' [U h, U a]; return INT_RESCHEDULE }"

definition uart_pending :: device where
  "uart_pending h a = (if a = INTC_PEND2 0xe0000000 then BV 25 else 0)"

theorem arm_irq_dispatch_witness:
  "\<exists>s1 s2. run_state (arm_register_int_handler arch_interrupt_save arch_interrupt_restore 57 0x80001000 3)
      (arm_boot uart_pending) = ((), s1) \<and>
     run_state (platform_irq arm_call None False 0xe0000000 0) s1 = (INT_RESCHEDULE, s2) \<and>
     writes (bus s2) = [] \<and> last (bus s2) = Print ''handler'' [U 0x80001000, U 3]"
proof -
  let ?s = "arm_boot uart_pending"
  obtain s1 where run: "run_state (arm_register_int_handler arch_interrupt_save arch_interrupt_restore
      57 0x80001000 3) ?s = ((), s1)" using run_unit by blast
  have v: "(57 :: u32) < MAX_INT" by (simp add: reg_defs)
  have s1: "running s1" "bus s1 = []" "dev s1 = uart_pending"
    using run arm_ints.run_arm_register [of ?s 57 "0x80001000" 3, OF _ v] by auto
  have a: "INTC_LOCAL_IRQ_PEND0 0xe0000000 \<noteq> INTC_PEND2 0xe0000000"
    "INTC_PEND1 0xe0000000 \<noteq> INTC_PEND2 0xe0000000" by (simp_all add: reg_defs)
  have p: "pending s1 0xe0000000 0 = (0, 0, BV 25)"
    using s1 a by (simp add: pending_def Let_def cur_def uart_pending_def)
  have "lowest (BV 25) 25" by (auto simp: lowest_def bit_BV)
  moreover have "BV 25 \<noteq> 0" by (simp add: BV_def)
  ultimately have f: "first_pending 0 0 (BV 25) 57"
    by (auto simp: first_pending_def intro!: exI [of _ 25])
  have n: "running ?s" "arm_wf ?s" "(0x80001000 :: u32) \<noteq> 0" "None = None \<or> (57::u32) \<noteq> INTERRUPT_ARM_LOCAL_MAILBOX0"
    by simp_all
  have "run_state (platform_irq arm_call None False 0xe0000000 0) s1 =
      run_state (arm_call 0x80001000 3) (log (map Rd (arm_polls 0xe0000000 0 57)) s1)"
    by (rule arm_irq_dispatch [OF n(1,2) v n(3) run s1(1) refl p f n(4)])
  with run s1 show ?thesis by (simp add: arm_call_def arm_polls_def)
qed

text \<open>C40.  The interface on the ARM side: two drivers that register and unmask different vectors
  (of the 96 GPU and the four local timer vectors) both succeed, and any time later, with the table
  as it was then, the one whose vector is reported first is called with its own argument.\<close>

theorem arm_two_drivers:
  fixes s t :: "'r arm_mach_scheme"
  assumes "running s" and "arm_wf s" and "v < 100" and "w < 100" and "v \<noteq> w" and "h \<noteq> 0" and "h' \<noteq> 0"
    and inst: "run_state (do {
        arm_register_int_handler arch_interrupt_save arch_interrupt_restore v h a;
        _ \<leftarrow> arm_unmask_interrupt arch_interrupt_save arch_interrupt_restore virt v;
        arm_register_int_handler arch_interrupt_save arch_interrupt_restore w h' a';
        arm_unmask_interrupt arch_interrupt_save arch_interrupt_restore virt w }) s = (x, s1)"
    and later: "running t" "arm_handlers t = arm_handlers s1"
    and pend: "pending t virt cpu = (l, p1, p2)" "first_pending l p1 p2 u" "u \<in> {v, w}"
  shows "x = NO_ERROR \<and> run_state (platform_irq call None False virt cpu) t =
    run_state (if u = v then call h a else call h' a') (log (map Rd (arm_polls virt cpu u)) t)"
proof -
  have "arm_reports False virt cpu t u" using pend(1,2) by (auto simp: arm_reports_def)
  with arm_dispatch.both_installed_run [where smp = None and cpu = cpu, OF assms(1-7) inst later] pend(3) assms(5)
  show ?thesis by auto
qed

text \<open>The UART's driver and a local timer's, and an interrupt of the UART.\<close>

theorem arm_two_drivers_witness:
  "\<exists>s1 s2. run_state (do {
        arm_register_int_handler arch_interrupt_save arch_interrupt_restore 57 0x1000 1;
        _ \<leftarrow> arm_unmask_interrupt arch_interrupt_save arch_interrupt_restore 0xe0000000 57;
        arm_register_int_handler arch_interrupt_save arch_interrupt_restore 99 0x2000 2;
        arm_unmask_interrupt arch_interrupt_save arch_interrupt_restore 0xe0000000 99 }) (arm_boot uart_pending) =
          (NO_ERROR, s1) \<and>
    run_state (platform_irq arm_call None False 0xe0000000 0) s1 = (INT_RESCHEDULE, s2) \<and>
    last (bus s2) = Print ''handler'' [U 0x1000, U 1]"
proof -
  let ?s = "arm_boot uart_pending"
  let ?m = "do { arm_register_int_handler arch_interrupt_save arch_interrupt_restore 57 0x1000 1;
        _ \<leftarrow> arm_unmask_interrupt arch_interrupt_save arch_interrupt_restore 0xe0000000 57;
        arm_register_int_handler arch_interrupt_save arch_interrupt_restore 99 0x2000 2;
        arm_unmask_interrupt arch_interrupt_save arch_interrupt_restore 0xe0000000 99 } :: (unit, status_t) arm_io"
  have v: "(57 :: u32) < 100" "(99 :: u32) < 100" "(57 :: u32) \<noteq> 99" "(0x1000 :: u32) \<noteq> 0" "(0x2000 :: u32) \<noteq> 0"
    "running ?s" "arm_wf ?s" by simp_all
  obtain s1 where run: "run_state ?m ?s = (NO_ERROR, s1)" "running s1"
    using arm_ints.ints.install_two [OF v(6,7,1-3)] by blast
  have a: "INTC_LOCAL_IRQ_PEND0 0xe0000000 \<noteq> INTC_PEND2 0xe0000000"
    "INTC_PEND1 0xe0000000 \<noteq> INTC_PEND2 0xe0000000" by (simp_all add: reg_defs)
  obtain s1' where "run_state (do { arm_register_int_handler arch_interrupt_save arch_interrupt_restore 57 0x1000 1;
      arm_unmask_interrupt arch_interrupt_save arch_interrupt_restore 0xe0000000 57 }) ?s = (NO_ERROR, s1')"
      "dev s1' = uart_pending" "running s1'" "arm_wf s1'"
    using arm_ints.ints.install [OF v(6,7,1)] by (metis arm_boot_simps(1))
  then have "dev s1 = uart_pending"
    using run(1) arm_ints.ints.install [OF \<open>running s1'\<close> \<open>arm_wf s1'\<close> v(2), of "0x2000" 2 "0xe0000000"]
    by (auto split: prod.splits)
  then have p: "pending s1 0xe0000000 0 = (0, 0, BV 25)"
    using a by (simp add: pending_def Let_def cur_def uart_pending_def)
  have "lowest (BV 25) 25" "BV 25 \<noteq> 0" by (auto simp: lowest_def bit_BV) (simp add: BV_def)
  then have f: "first_pending 0 0 (BV 25) 57" by (auto simp: first_pending_def intro!: exI [of _ 25])
  have "run_state (platform_irq arm_call None False 0xe0000000 0) s1 =
      run_state (arm_call 0x1000 1) (log (map Rd (arm_polls 0xe0000000 0 57)) s1)"
    using arm_two_drivers [OF v(6,7,1-5) run refl p f] by simp
  then show ?thesis using run by (intro exI conjI) (auto simp: arm_call_def)
qed

text \<open>Masking a local timer does the opposite of what it says: \<^verbatim>\<open>*REG32(reg) &= (1 << n)\<close> (a
  complement is missing) keeps the timer's own enable bit and clears every other bit of the
  control register, on all four cores.\<close>

theorem arm_mask_timer_inverted:
  assumes "running s" and "n < 4" and "\<And>c. c < 4 \<Longrightarrow> plain_at (dev s) (timer_ctl virt c)"
    and run: "run_state (arm_mask_interrupt arch_interrupt_save arch_interrupt_restore virt (96 + of_nat n)) s = (r, s')"
  shows "r = NO_ERROR \<and> (\<forall>c < 4. \<forall>k. bit (cur s' (timer_ctl virt c)) k \<longleftrightarrow>
    k = n \<and> bit (cur s (timer_ctl virt c)) k)"
proof -
  let ?v = "96 + of_nat n :: u32" and ?t = "s\<lparr>sr := sr s AND NOT SR_INTS\<rparr>"
  have n: "n = 0 \<or> n = 1 \<or> n = 2 \<or> n = 3" using assms(2) by auto
  then have v: "is_local_timer ?v" "unat (?v - INTERRUPT_ARM_LOCAL_CNTPSIRQ) = n"
    by (auto simp: is_local_timer_def reg_defs)
  have c: "cur ?t a = cur s a" for a by (simp add: cur_def)
  have i: "inj_on (timer_ctl virt) (set [0..<4])" using timer_ctl_inj by (auto simp: inj_on_def)
  obtain es where es: "run_state (for_each [0..<4] (\<lambda>i. reg_and (timer_ctl virt i) (push_bit n 1))) ?t = ((), log es ?t)"
    "\<forall>x \<in> set [0..<4]. last_write (timer_ctl virt x) es = Some (cur ?t (timer_ctl virt x) AND push_bit n 1)"
  proof -
    have "running ?t" "distinct [0..<4]" "\<And>x. x \<in> set [0..<4] \<Longrightarrow> plain_at (dev ?t) (timer_ctl virt x)"
      using assms(1,3) by auto
    from reg_ands_values [OF this(1,2) i this(3), of "push_bit n 1"] show thesis using that by blast
  qed
  from vpu_lock.critical_section [OF assms(1) es(1)] assms(1)
  have "run_state (do { st \<leftarrow> arch_interrupt_save;
      _ \<leftarrow> for_each [0..<4] (\<lambda>i. reg_and (timer_ctl virt i) (push_bit n 1));
      arch_interrupt_restore st }) s = ((), log es s)" by (simp add: log_def)
  then have "run_state (do { _ \<leftarrow> (do { st \<leftarrow> arch_interrupt_save;
      _ \<leftarrow> for_each [0..<4] (\<lambda>i. reg_and (timer_ctl virt i) (push_bit n 1));
      arch_interrupt_restore st }); return NO_ERROR }) s = (NO_ERROR, log es s)"
    by (subst run_state_bind) (simp only: prod.case run_state_return)
  then have s': "r = NO_ERROR" "s' = log es s"
    using run v by (auto simp: arm_mask_interrupt_def timer_ctl_def State_Monad.bind_assoc)
  have "cur s' (timer_ctl virt k) = cur s (timer_ctl virt k) AND push_bit n 1" if "k < 4" for k
    using es(2) that c plain_cur_log [OF assms(3) [OF that]] by (simp add: s'(2))
  moreover have "bit (push_bit n (1 :: u32)) k \<longleftrightarrow> k = n" for k
    using assms(2) bit_BV [of n k] by (simp add: BV_def)
  ultimately show ?thesis using s'(1) by (auto simp: bit_and_iff simp del: push_bit_of_1)
qed

theorem arm_mask_timer_inverted_witness:
  "\<exists>s' :: mach. bit (cur s' (timer_ctl 0xe0000000 0)) 1 \<and> \<not> bit (cur s' (timer_ctl 0xe0000000 0)) 3"
proof -
  let ?s = "boot (memory (\<lambda>_. 0xf))"
  obtain r s' where run: "run_state (arm_mask_interrupt arch_interrupt_save arch_interrupt_restore 0xe0000000
      (96 + of_nat 1)) ?s = (r, s')" by (metis surj_pair)
  have p: "\<And>c. c < 4 \<Longrightarrow> plain_at (dev ?s) (timer_ctl 0xe0000000 c)" by (simp add: plain_memory)
  have "bit (15 :: u32) 1" by (simp add: bit_numeral_rec)
  then have "bit (cur ?s (timer_ctl 0xe0000000 0)) 1" by (simp add: cur_def memory_def)
  with arm_mask_timer_inverted [of ?s 1, OF _ _ p run] show ?thesis by (intro exI [of _ s']) auto
qed

text \<open>\<^verbatim>\<open>MAX_INT\<close> is the number of the last vector, not the number of vectors: a driver cannot
  register for the local timer's vector 107, and when a core reports that source (or any local
  bit above it), \<^verbatim>\<open>platform_irq\<close> indexes the handler table past its end.\<close>

theorem arm_last_vector_excluded:
  assumes "running s" and "pending s virt cpu = (l, p1, p2)" and "lowest l n" and "11 \<le> n"
  shows "status (snd (run_state (platform_irq call smp False virt cpu) s)) = Panicked ''int_handler_table index'' \<and>
    \<not> running (snd (run_state (arm_register_int_handler arch_interrupt_save arch_interrupt_restore
        INTERRUPT_ARM_LOCAL_TIMER h a) s))"
proof -
  let ?v = "96 + of_nat n :: u32"
  have n: "n < 32" "bit l n" using assms(3) by (simp_all add: lowest_def)
  then have "l \<noteq> 0" by auto
  then have f: "first_pending l p1 p2 ?v" using assms(3) by (auto simp: first_pending_def)
  note es = run_decode_irq [OF assms(1,2) f]
  have v: "unat ?v = 96 + n" using n(1) by (simp add: unat_word_ariths unat_of_nat)
  have m: "unat MAX_INT = 107" "unat INTERRUPT_ARM_LOCAL_MAILBOX0 = 100" "unat no_vector = 0xffffffff"
    by (simp_all add: reg_defs no_vector_def)
  have "MAX_INT \<le> ?v" using v m(1) assms(4) by (simp add: word_le_nat_alt)
  moreover have "unat ?v \<noteq> unat INTERRUPT_ARM_LOCAL_MAILBOX0" "unat ?v \<noteq> unat no_vector"
    unfolding v m using assms(4) n(1) by simp_all
  then have "?v \<noteq> INTERRUPT_ARM_LOCAL_MAILBOX0" "?v \<noteq> no_vector" by metis+
  ultimately have "status (snd (run_state (platform_irq call smp False virt cpu) s)) =
      Panicked ''int_handler_table index''"
    using es assms(1) by (simp add: platform_irq_def)
  moreover have "MAX_INT \<le> INTERRUPT_ARM_LOCAL_TIMER" by (simp add: reg_defs)
  ultimately show ?thesis
    using assms(1) by (simp add: arm_register_int_handler_def arch_interrupt_save_def
        arch_ints_disabled_def arch_interrupt_restore_def arch_disable_ints_def arch_enable_ints_def)
qed

theorem arm_last_vector_excluded_witness:
  "\<exists>s' :: arm_mach. status s' = Panicked ''int_handler_table index''"
proof -
  let ?s = "arm_boot (\<lambda>_ _. BV 11)"
  have l: "(0x800 AND NOT 0x100 :: u32) = 0x800" "BV 11 = 0x800" by (simp_all add: BV_def)
  have p: "pending ?s 0xe0000000 0 = (BV 11, BV 11, BV 11)" unfolding l(2) by (simp add: pending_def cur_def)
  have "lowest (BV 11) 11" by (auto simp: lowest_def bit_BV)
  from arm_last_vector_excluded [of ?s, OF _ p this, of arm_call None] show ?thesis by auto
qed

end
