(* ===== verification/Uart.thy ===== *)
theory Uart
  imports Power_Domain Vpu_Intc
begin

unbundle bit_operations_syntax

text \<open>
  The PL011 UART (\<^verbatim>\<open>platform/bcm28xx/uart.c\<close>) and the interface of a character device, which the
  console of \<^verbatim>\<open>platform.c\<close> uses.  LK's circular buffer is not part of this repository: its
  operations are arguments (\<open>put\<close> is \<^verbatim>\<open>cbuf_write_char\<close> on the port's buffer, \<open>get\<close> is
  \<^verbatim>\<open>cbuf_read_char\<close>, \<open>init\<close> is \<^verbatim>\<open>cbuf_initialize\<close>, whose result tells whether the event's
  magic number is in place).  Characters are bytes.
\<close>

subsection \<open>The code\<close>

definition UART_DR :: u32 where [reg_defs]: "UART_DR = 0x00"
definition UART_TFR :: u32 where [reg_defs]: "UART_TFR = 0x18"
definition UART_IBRD :: u32 where [reg_defs]: "UART_IBRD = 0x24"
definition UART_FBRD :: u32 where [reg_defs]: "UART_FBRD = 0x28"
definition UART_LCRH :: u32 where [reg_defs]: "UART_LCRH = 0x2c"
definition UART_CR :: u32 where [reg_defs]: "UART_CR = 0x30"
definition UART_IFLS :: u32 where [reg_defs]: "UART_IFLS = 0x34"
definition UART_IMSC :: u32 where [reg_defs]: "UART_IMSC = 0x38"
definition UART_TMIS :: u32 where [reg_defs]: "UART_TMIS = 0x40"
definition UART_ICR :: u32 where [reg_defs]: "UART_ICR = 0x44"

definition NUM_UART :: nat where "NUM_UART = 1"

fun uart_to_ptr :: "u32 \<Rightarrow> u32" where
  "uart_to_ptr n = UART0_BASE"

text \<open>A division by zero is an exception of the processor.\<close>

definition calculate_baud_divisor :: "u32 \<Rightarrow> u32 \<Rightarrow> ('r, u32) io" where
  "calculate_baud_divisor xtal_freq baud = do {
     uart_freq \<leftarrow> get_uart_base_freq xtal_freq;
     if uart_freq = 0 then return 0
     else if baud = 0 then do { panic ''Division by zero''; return 0 }
     else return (push_bit 6 uart_freq div baud div 16)
   }"

text \<open>One turn of the receive loop, and the interrupt handler.\<close>

definition rx_turn :: "(u8 \<Rightarrow> ('r, unit) io) \<Rightarrow> u32 \<Rightarrow> bool \<Rightarrow> ('r, bool + bool) io" where
  "rx_turn put base resched = do {
     t \<leftarrow> rd (base + UART_TFR);
     if t AND BV 4 \<noteq> 0 then return (Inr resched)
     else do {
       data \<leftarrow> rd (base + UART_DR);
       let c = u8_of (data AND 0xff);
       if data AND 0x400 \<noteq> 0 then do { printf ''UART break detected'' []; return (Inl resched) }
       else if data AND 0x100 \<noteq> 0 then do { printf ''UART framing error'' []; return (Inl resched) }
       else do {
         when_io (data AND 0x800 \<noteq> 0) (printf ''UART input overflow'' []);
         put c;
         return (Inl True)
       }
     }
   }"

definition uart_irq :: "(u32 \<Rightarrow> u8 \<Rightarrow> ('r, unit) io) \<Rightarrow> u32 \<Rightarrow> ('r, handler_return) io" where
  "uart_irq put port = do {
     let base = uart_to_ptr port;
     isr \<leftarrow> rd (base + UART_TMIS);
     resched \<leftarrow> (if isr AND (BV 6 OR BV 4) \<noteq> 0 then do {
         wr (base + UART_ICR) (BV 4);
         loop False (rx_turn (put port) base) False
       } else return False);
     return (if resched then INT_RESCHEDULE else INT_NO_RESCHEDULE)
   }"

definition uart_flush :: "u32 \<Rightarrow> ('r, unit) io" where
  "uart_flush port = do {
     _ \<leftarrow> poll (uart_to_ptr port + UART_TFR) (\<lambda>x. x AND 0x20 = 0);
     return ()
   }"

text \<open>
  \<open>reg\<close>, \<open>unm\<close>: the interrupt controller the driver is linked with; \<open>h\<close>: the address of
  \<^verbatim>\<open>uart_irq\<close>; \<open>arch_vpu\<close>, \<open>tx_only\<close>: build switches.
\<close>

definition set_divisor :: "u32 \<Rightarrow> u32 \<Rightarrow> ('r, unit) io" where
  "set_divisor base divisor = when_io (divisor > 0) (do {
     wr (base + UART_IBRD) (drop_bit 6 divisor AND 0xffff);
     wr (base + UART_FBRD) (divisor AND 0x3f)
   })"

definition uart_init ::
  "(u32 \<Rightarrow> u32 \<Rightarrow> u32 \<Rightarrow> ('r, unit) io) \<Rightarrow> (u32 \<Rightarrow> ('r, status_t) io) \<Rightarrow> (u32 \<Rightarrow> ('r, bool) io) \<Rightarrow>
     u32 \<Rightarrow> bool \<Rightarrow> bool \<Rightarrow> u32 \<Rightarrow> ('r, unit) io" where
  "uart_init reg unm init h arch_vpu tx_only xtal_freq = do {
     _ \<leftarrow> gpio_config 14 4;
     _ \<leftarrow> gpio_config 15 4;
     for_each [0..<NUM_UART] (\<lambda>n. do {
       let i = of_nat n;
       let base = uart_to_ptr i;
       printf ''uart %d base 0x%x'' [U i, U base];
       magic \<leftarrow> init i;
       assert_that ''uart_rx_buf[i].event.magic == EVENT_MAGIC'' magic;
       when_io (\<not> tx_only) (reg (INTERRUPT_VC_UART + i) h i);
       when_io arch_vpu (do {
         divisor \<leftarrow> calculate_baud_divisor xtal_freq 115200;
         uart_flush i;
         wr (base + UART_CR) 0;
         wr (base + UART_ICR) 0x3ff;
         wr (base + UART_LCRH) 0x70;
         set_divisor base divisor;
         wr (base + UART_IFLS) 0;
         wr (base + UART_IMSC) (BV 6 OR BV 4);
         reg_or (base + UART_CR) (BV 9 OR BV 8 OR BV 0)
       });
       when_io (\<not> tx_only) (do { _ \<leftarrow> unm (INTERRUPT_VC_UART + i); return () })
     })
   }"

definition uart_init_early :: "bool \<Rightarrow> u32 \<Rightarrow> ('r, unit) io" where
  "uart_init_early arch_vpu xtal_freq =
     (if \<not> arch_vpu then printf ''uart init abort'' []
      else do {
        d \<leftarrow> rd CM_UARTDIV;
        when_io (d = 0) (do {
          wr CM_UARTDIV (CM_PASSWORD OR 0x3900);
          wr CM_UARTCTL (CM_PASSWORD OR CM_SRC_OSC OR CM_UARTCTL_FRAC_SET OR CM_UARTCTL_ENAB_SET)
        });
        udelay 100;
        for_each [0..<NUM_UART] (\<lambda>n. do {
          let base = uart_to_ptr (of_nat n);
          divisor \<leftarrow> calculate_baud_divisor xtal_freq 115200;
          wr (base + UART_CR) 0;
          wr (base + UART_LCRH) 0x70;
          set_divisor base divisor;
          wr (base + UART_CR) (BV 8 OR BV 0)
        });
        _ \<leftarrow> gpio_config 14 4;
        printf ''uart early init done'' []
      })"

definition uart_putc :: "u32 \<Rightarrow> u8 \<Rightarrow> ('r, int) io" where
  "uart_putc port c = do {
     let base = uart_to_ptr port;
     _ \<leftarrow> poll (base + UART_TFR) (\<lambda>x. x AND BV 5 = 0);
     wr (base + UART_DR) (u32_of8 c);
     return 1
   }"

definition uart_getc :: "(int \<Rightarrow> bool \<Rightarrow> ('r, u8 option) io) \<Rightarrow> int \<Rightarrow> bool \<Rightarrow> ('r, int) io" where
  "uart_getc get port wait = do {
     assert_that ''port < NUM_UART'' (port < int NUM_UART);
     r \<leftarrow> get port wait;
     return (case r of Some c \<Rightarrow> uint c | None \<Rightarrow> -1)
   }"

definition uart_flush_tx :: "u32 \<Rightarrow> ('r, unit) io" where
  "uart_flush_tx port = do {
     let base = uart_to_ptr port;
     _ \<leftarrow> poll (base + UART_TFR) (\<lambda>x. x AND 0x80 \<noteq> 0);
     _ \<leftarrow> poll (base + UART_TFR) (\<lambda>x. x AND 0x8 = 0);
     return ()
   }"

definition uart_flush_rx :: "u32 \<Rightarrow> ('r, unit) io" where "uart_flush_rx port = return ()"

definition uart_init_port :: "u32 \<Rightarrow> u32 \<Rightarrow> ('r, unit) io" where "uart_init_port port baud = return ()"

definition cmd_uart_dump :: "u32 \<Rightarrow> cmd_arg list \<Rightarrow> ('r, int) io" where
  "cmd_uart_dump xtal_freq argv = do {
     let base = uart_to_ptr 0;
     let baud = (if length argv \<ge> 2 then arg_u (argv ! 1) else 115200);
     a \<leftarrow> rd CM_UARTDIV; b \<leftarrow> rd CM_UARTCTL;
     printf ''CM_UARTDIV: 0x%xCM_UARTCTL: 0x%x'' [U a, U b];
     a \<leftarrow> rd (base + UART_IBRD); b \<leftarrow> rd (base + UART_FBRD);
     printf ''UART_IBRD: 0x%xUART_FBRD: 0x%x'' [U a, U b];
     uart_freq \<leftarrow> get_uart_base_freq xtal_freq;
     printf ''uart input clock is %d'' [U uart_freq];
     divisor \<leftarrow> calculate_baud_divisor xtal_freq baud;
     printf ''want a uart divisor of 0x%x / 64'' [U divisor];
     return 0
   }"

subsection \<open>The console\<close>

definition platform_dputc :: "(u8 \<Rightarrow> ('r, int) io) \<Rightarrow> u8 \<Rightarrow> ('r, unit) io" where
  "platform_dputc putc c = do {
     when_io (c = 10) (do { _ \<leftarrow> putc 13; return () });
     _ \<leftarrow> putc c;
     return ()
   }"

definition platform_dgetc :: "(bool \<Rightarrow> ('r, int) io) \<Rightarrow> bool \<Rightarrow> ('r, u8 option) io" where
  "platform_dgetc getc wait = do {
     ret \<leftarrow> getc wait;
     return (if ret = -1 then None else Some (word_of_int ret))
   }"

text \<open>The bytes on the line for a character of the console.\<close>

definition crlf :: "u8 \<Rightarrow> u8 list" where
  "crlf c = (if c = 10 then [13, 10] else [c])"

text \<open>
  What the console needs of a character device: a character sent is one write to the data
  register and nothing else, and on a device that drains its FIFO sending returns.
\<close>

locale char_device =
  fixes putc :: "u8 \<Rightarrow> ('r, int) io" and data_reg :: u32 and drains :: "device \<Rightarrow> bool"
  assumes putc_emits: "emits [(data_reg, u32_of8 c)] (putc c)"
    and putc_inert: "inert (putc c)"
    and putc_ends: "drains d \<Longrightarrow> ends d (putc c)"
begin

lemma dputc_inert: "inert (platform_dputc putc c)"
  unfolding platform_dputc_def by (intro inert_intros putc_inert)

lemma dputc_emits: "emits (map (\<lambda>c. (data_reg, u32_of8 c)) (crlf c)) (platform_dputc putc c)"
proof -
  have 1: "emits [(data_reg, u32_of8 c)] (do { _ \<leftarrow> putc c; return () })" for c
    by (rule emits_bind [OF putc_emits emits_return]) (auto intro: inert_intros)
  have i: "inert (do { _ \<leftarrow> putc c; return () })" for c by (intro inert_intros putc_inert)
  show ?thesis
    using emits_seq [OF emits_when [OF 1 [of 13], of "c = 10"] 1 [of c] i]
    by (auto simp: platform_dputc_def crlf_def)
qed

lemma dputc_ends: "drains d \<Longrightarrow> ends d (platform_dputc putc c)"
  unfolding platform_dputc_def by (intro ends_intros putc_ends)

text \<open>A string appears on the line in order, with a carriage return before every line feed.\<close>

lemma puts_emits:
  "emits (map (\<lambda>c. (data_reg, u32_of8 c)) (concat (map crlf cs))) (for_each cs (platform_dputc putc))"
  using emits_for_each [where xs = cs, OF dputc_emits dputc_inert] by (simp add: map_concat comp_def)

lemma puts_ends: "drains d \<Longrightarrow> ends d (for_each cs (platform_dputc putc))"
  by (intro ends_intros dputc_ends)

lemma puts_line:
  assumes "running s" "drains (dev s)" "run_state (for_each cs (platform_dputc putc)) s = ((), s')"
  shows "running s' \<and> writes (bus s') = writes (bus s) @ map (\<lambda>c. (data_reg, u32_of8 c)) (concat (map crlf cs))"
  using endsD [OF puts_ends [OF assms(2)] refl assms(1,3)] emitsD [OF puts_emits assms(1,3)] by blast

end

text \<open>The transmit FIFO always gets room again.\<close>

definition tx_drains :: "u32 \<Rightarrow> (u32 \<Rightarrow> bool) \<Rightarrow> device \<Rightarrow> bool" where
  "tx_drains a room d \<longleftrightarrow> (\<forall>h. \<exists>n. room (d (h @ replicate n (Rd a)) a))"

lemma poll_drains:
  assumes "tx_drains a room d"
  shows "ends d (poll a room)"
  unfolding ends_def
proof (intro allI impI)
  fix s :: "'r mach_scheme" assume s: "dev s = d" "running s"
  obtain n where "room (answer s a n)"
    using assms s(1) by (auto simp: tx_drains_def answer_def cur_def)
  with s show "running (snd (run_state (poll a room) s)) \<and> dev (snd (run_state (poll a room) s)) = d"
    using poll_exact [OF s(2), of a room] by (auto simp: Let_def)
qed

lemma uart_putc_emits: "emits [(UART0_BASE + UART_DR, u32_of8 c)] (uart_putc port c)"
proof -
  have p: "emits [] (poll (UART0_BASE + UART_TFR) (\<lambda>x. x AND BV 5 = 0))"
    by (rule emits_quiet) (intro emit_intros, simp)
  have w: "emits [(UART0_BASE + UART_DR, u32_of8 c)] (do { wr (UART0_BASE + UART_DR) (u32_of8 c); return (1 :: int) })"
    by (rule emits_bind [OF emits_wr emits_return]) (auto intro: inert_intros)
  show ?thesis
    using emits_bind [OF p w, of "[(UART0_BASE + UART_DR, u32_of8 c)]"]
    by (simp add: uart_putc_def Let_def inert_intros inert_bind)
qed

interpretation pl011: char_device "uart_putc port" "UART0_BASE + UART_DR"
  "tx_drains (UART0_BASE + UART_TFR) (\<lambda>x. x AND BV 5 = 0)" for port
proof
  fix c :: u8 and d :: device
  show "emits [(UART0_BASE + UART_DR, u32_of8 c)] (uart_putc port c)" by (rule uart_putc_emits)
  show "inert (uart_putc port c)" unfolding uart_putc_def Let_def by (intro inert_intros)
  show "tx_drains (UART0_BASE + UART_TFR) (\<lambda>x. x AND BV 5 = 0) d \<Longrightarrow> ends d (uart_putc port c)"
    unfolding uart_putc_def Let_def uart_to_ptr.simps by (intro ends_intros poll_drains)
qed

subsection \<open>Properties\<close>

text \<open>The console on this UART: whatever the string, if the transmit FIFO always gets room
  again, sending it returns, and the writes are exactly its characters in order, each to the data
  register, with a carriage return before every line feed.\<close>

theorem uart_console_line:
  assumes "running s" and "tx_drains (UART0_BASE + UART_TFR) (\<lambda>x. x AND BV 5 = 0) (dev s)"
    and "run_state (for_each cs (platform_dputc (uart_putc port))) s = ((), s')"
  shows "running s' \<and> writes (bus s') = writes (bus s) @
    map (\<lambda>c. (UART0_BASE + UART_DR, u32_of8 c)) (concat (map crlf cs))"
  by (rule pl011.puts_line [OF assms])

theorem uart_console_line_witness:
  "\<exists>s'. run_state (for_each [0x41, 10] (platform_dputc (uart_putc 0))) (boot (\<lambda>_ _. 0)) = ((), s') \<and>
     writes (bus s') = [(UART0_BASE, 0x41), (UART0_BASE, 13), (UART0_BASE, 10)]"
proof -
  obtain s' where run: "run_state (for_each [0x41, 10] (platform_dputc (uart_putc 0))) (boot (\<lambda>_ _. 0)) = ((), s')"
    using run_unit by blast
  have "tx_drains (UART0_BASE + UART_TFR) (\<lambda>x. x AND BV 5 = 0) (dev (boot (\<lambda>_ _. 0)))"
    by (simp add: tx_drains_def)
  from uart_console_line [OF _ this run] run show ?thesis
    by (simp add: crlf_def u32_of8_def UART_DR_def)
qed

text \<open>The baud rate: for a UART clock below 64 Mi Hz the divisor is exactly the quotient of four
  times the clock by the baud rate, and its integer and fractional registers together hold it; at
  or above that frequency the shift by 6 overflows (with 2^26 Hz the divisor is 0).\<close>

theorem baud_divisor_exact:
  assumes "running s" and "run_state (get_uart_base_freq xtal) s = (f, s1)" and "running s1"
    and "f \<le> 0x4000000" and "0 < baud"
    and "run_state (calculate_baud_divisor xtal baud) s = (d, s')"
  shows "unat d = (if f = 0x4000000 then 0 else 4 * unat f div unat baud) \<and>
    (unat d < 2 ^ 22 \<longrightarrow> unat (drop_bit 6 d AND 0xffff) * 64 + unat (d AND 0x3f) = unat d)"
proof -
  have b: "baud \<noteq> 0" "unat baud > 0" using assms(5) by (auto simp: word_less_nat_alt)
  have d: "d = (if f = 0 then 0 else push_bit 6 f div baud div 16)"
    using assms(2,6) b(1) by (auto simp: calculate_baud_divisor_def split: if_splits)
  have "unat d = (if f = 0x4000000 then 0 else 4 * unat f div unat baud)"
  proof (cases "f = 0x4000000")
    case True
    have z: "push_bit 6 (0x4000000 :: u32) = 0" by simp
    have "d = 0" using d unfolding True z by (simp split: if_splits)
    then show ?thesis using True by simp
  next
    case False
    then have f: "unat f < 2 ^ 26" using assms(4) by (simp add: word_le_nat_alt) unat_arith
    then have "unat (push_bit 6 f) = unat f * 64" by (simp add: push_bit_eq_mult unat_word_ariths)
    then have "unat (push_bit 6 f div baud div 16) = unat f * 64 div unat baud div 16" by (simp add: unat_div)
    also have "\<dots> = 4 * unat f div unat baud"
      using div_mult_mult1 [of 16 "4 * unat f" "unat baud"] by (simp add: div_mult2_eq [symmetric] ac_simps)
    finally show ?thesis using d False by simp
  qed
  moreover have "unat (drop_bit 6 d AND 0xffff) * 64 + unat (d AND 0x3f) = unat d" if "unat d < 2 ^ 22"
  proof -
    have m: "(0xffff :: u32) = mask 16" "(0x3f :: u32) = mask 6" by (simp_all add: mask_numeral)
    have "unat (drop_bit 6 d) < 2 ^ 16" using that by (simp add: drop_bit_eq_div unat_div)
    then have "unat (drop_bit 6 d AND 0xffff) = unat d div 64"
      unfolding m by (simp add: take_bit_eq_mask [symmetric] unsigned_take_bit_eq take_bit_nat_eq_self)
        (simp add: drop_bit_eq_div unat_div)
    moreover have "unat (d AND 0x3f) = unat d mod 64"
      unfolding m by (simp add: take_bit_eq_mask [symmetric] take_bit_eq_mod unat_mod)
    ultimately show ?thesis by simp
  qed
  ultimately show ?thesis by blast
qed

text \<open>Hardware on which the clock measurement counts 48000 kHz.\<close>

definition rate_dev :: device where
  "rate_dev h a = (if a = CM_TCNTCNT then 48000 else if a = CM_OSCCOUNT \<or> a = CM_TCNTCTL then 0
     else clock_dev (\<lambda>_. 0) h a)"

lemma ticking_rate_dev: "ticking rate_dev 1000"
  unfolding ticking_def ticks_def
proof (intro allI exI conjI)
  fix h :: "event list" and n b :: nat
  let ?f = "\<lambda>n. 1000 * (length (filter (\<lambda>e. e = Rd ST_CLO) h) + n)"
  have "ST_CLO \<noteq> CM_TCNTCNT" "ST_CLO \<noteq> CM_OSCCOUNT" "ST_CLO \<noteq> CM_TCNTCTL" by (simp_all add: reg_defs)
  then show "answer \<lparr>dev = rate_dev, bus = h, status = Running, sr = 0\<rparr> ST_CLO n = of_nat (?f n)"
    by (simp add: answer_def cur_def clock_dev_def rate_dev_def)
  show "?f n \<le> ?f (Suc n)" "?f (Suc n) \<le> ?f n + 1000" by simp_all
  show "b < ?f (Suc b)" by simp
qed

lemma measure_rate_dev:
  assumes "dev s = rate_dev" "running s" "run_state (get_uart_base_freq xtal) s = (f, s')"
  shows "running s'" "f = 48000000"
proof -
  have r: "CM_OSCCOUNT \<noteq> CM_TCNTCNT" "CM_TCNTCTL \<noteq> CM_TCNTCNT" by (simp_all add: reg_defs)
  define m :: "('a, unit) io" where "m = do { wr CM_TCNTCTL (CM_PASSWORD OR CM_KILL);
    wr CM_TCNTCTL (CM_PASSWORD OR (28 AND CM_SRC_MASK) OR push_bit CM_TCNT_SRC1_SHIFT (drop_bit CM_SRC_BITS 28));
    wr CM_OSCCOUNT (CM_PASSWORD OR (xtal div 1000)); udelay 1; _ \<leftarrow> poll CM_OSCCOUNT (\<lambda>x. x = 0);
    _ \<leftarrow> poll CM_TCNTCTL (\<lambda>x. x AND CM_BUSY = 0); return () }"
  have "ends rate_dev m" unfolding m_def
    by (intro ends_intros poll_drains udelay_returns [OF ticking_rate_dev])
      (simp_all add: tx_drains_def rate_dev_def r)
  then have e: "running (snd (run_state m s))" "dev (snd (run_state m s)) = rate_dev"
    using assms(1,2) unfolding ends_def by blast+
  have "get_uart_base_freq xtal = do { m; count \<leftarrow> rd CM_TCNTCNT; wr CM_TCNTCNT (CM_PASSWORD OR 0); return (count * 1000) }"
    by (simp add: get_uart_base_freq_def measure_clock_def m_def Let_def State_Monad.bind_assoc)
  then show "running s'" "f = 48000000"
    using assms(3) e by (auto simp: cur_def rate_dev_def split: prod.splits)
qed

theorem baud_divisor_exact_witness:
  "\<exists>s'. run_state (calculate_baud_divisor 19200000 115200) (boot rate_dev) = (1666, s')"
proof -
  obtain f s1 where m: "run_state (get_uart_base_freq 19200000) (boot rate_dev) = (f, s1)" by (metis surj_pair)
  obtain d s' where run: "run_state (calculate_baud_divisor 19200000 115200) (boot rate_dev) = (d, s')"
    by (metis surj_pair)
  have f: "running s1" "f = 48000000" using measure_rate_dev [OF _ _ m] by simp_all
  have le: "f \<le> 0x4000000" unfolding f(2) by simp
  from baud_divisor_exact [OF _ m f(1) le _ run] have "unat d = 4 * unat f div unat (115200 :: u32)"
    using f(2) by simp
  then have "unat d = 1666" using f(2) by simp
  then have "unat d = unat (1666 :: u32)" by simp
  then have "d = 1666" by (simp only: unat_eq_iff_eq)
  with run show ?thesis by blast
qed

end
