(* ===== verification/Uart_Receive.thy ===== *)
theory Uart_Receive
  imports Uart
begin

unbundle bit_operations_syntax

text \<open>
  Reception: the receive interrupt of \<^verbatim>\<open>uart.c\<close>, and the driver linked with the VPU's interrupt
  controller (\<^verbatim>\<open>arch/vpu/intc.c\<close>), from \<^verbatim>\<open>uart_init\<close> to the bytes in the port's buffer.
\<close>

subsection \<open>Receiving\<close>

text \<open>
  A receive FIFO that holds the words \<open>ws\<close> after the events \<open>h0\<close>: each read of the data register
  takes one word off, and the status register's bit 4 tells that none is left.
\<close>

definition dr_reads :: "event list \<Rightarrow> nat" where
  "dr_reads h = length (filter (\<lambda>e. e = Rd (UART0_BASE + UART_DR)) h)"

definition rx_fifo :: "event list \<Rightarrow> u32 list \<Rightarrow> device \<Rightarrow> bool" where
  "rx_fifo h0 ws d \<longleftrightarrow> (\<forall>h.
     (d (h0 @ h) (UART0_BASE + UART_TFR) AND BV 4 \<noteq> 0 \<longleftrightarrow> length ws \<le> dr_reads h) \<and>
     (dr_reads h < length ws \<longrightarrow> d (h0 @ h) (UART0_BASE + UART_DR) = ws ! dr_reads h))"

definition accepted :: "u32 \<Rightarrow> bool" where
  "accepted w \<longleftrightarrow> w AND 0x400 = 0 \<and> w AND 0x100 = 0"

definition rx_bytes :: "u32 list \<Rightarrow> u8 list" where
  "rx_bytes ws = map (\<lambda>w. u8_of (w AND 0xff)) (filter accepted ws)"

text \<open>What the driver needs of the buffer: a write changes the contents \<open>q\<close> by \<open>enq\<close>, and no register.\<close>

definition buffers :: "(u8 \<Rightarrow> ('r, unit) io) \<Rightarrow> ('r mach_scheme \<Rightarrow> 'q) \<Rightarrow> (u8 \<Rightarrow> 'q \<Rightarrow> 'q) \<Rightarrow> bool" where
  "buffers put q enq \<longleftrightarrow> (\<forall>s es. q (log es s) = q s) \<and>
     (\<forall>c s. running s \<longrightarrow> (\<exists>s'. run_state (put c) s = ((), s') \<and> running s' \<and> dev s' = dev s \<and>
        bus s' = bus s \<and> q s' = enq c (q s)))"

lemma rx_bytes_snoc: "rx_bytes (ws @ [w]) = rx_bytes ws @ (if accepted w then [u8_of (w AND 0xff)] else [])"
  by (simp add: rx_bytes_def)

lemma dr_ne: "UART0_BASE + UART_TFR \<noteq> UART0_BASE + UART_DR" "UART0_BASE + UART_TMIS \<noteq> UART0_BASE + UART_DR"
  by (simp_all add: reg_defs)

lemma rx_turn_last:
  assumes "running t" "rx_fifo h0 ws (dev t)" "bus t = h0 @ h" "length ws \<le> dr_reads h"
  shows "run_state (rx_turn put UART0_BASE r) t = (Inr r, log [Rd (UART0_BASE + UART_TFR)] t)"
  using assms by (simp add: rx_turn_def rx_fifo_def cur_def)

lemma rx_turn_more:
  assumes "running t" "rx_fifo h0 ws (dev t)" "bus t = h0 @ h" "dr_reads h = k" "k < length ws" "buffers put q enq"
  shows "\<exists>t' h'. run_state (rx_turn put UART0_BASE r) t = (Inl (r \<or> accepted (ws ! k)), t') \<and> running t' \<and>
    dev t' = dev t \<and> bus t' = h0 @ h' \<and> dr_reads h' = Suc k \<and>
    q t' = (if accepted (ws ! k) then enq (u8_of (ws ! k AND 0xff)) (q t) else q t)"
proof -
  let ?T = "UART0_BASE + UART_TFR" and ?D = "UART0_BASE + UART_DR"
  have h: "dr_reads (h @ [Rd ?T]) = k" using assms(4) dr_ne by (simp add: dr_reads_def)
  have d: "dev t (h0 @ h) ?T AND BV 4 = 0" "dev t (h0 @ h @ [Rd ?T]) ?D = ws ! k"
    using assms(2,4,5) h unfolding rx_fifo_def by (metis not_le)+
  have q: "q (log es s) = q s" for es s using assms(6) by (simp add: buffers_def)
  show ?thesis
  proof (cases "accepted (ws ! k)")
    case False
    then show ?thesis
      using assms(1,3,4) d dr_ne by (auto simp: rx_turn_def cur_def accepted_def q dr_reads_def)
  next
    case True
    let ?p = "if ws ! k AND 0x800 \<noteq> 0 then [Print ''UART input overflow'' []] else []"
    let ?t = "log ([Rd ?T, Rd ?D] @ ?p) t"
    have "running ?t" using assms(1) by simp
    then obtain t' where t': "run_state (put (u8_of (ws ! k AND 0xff))) ?t = ((), t')" "running t'" "dev t' = dev ?t"
      "bus t' = bus ?t" "q t' = enq (u8_of (ws ! k AND 0xff)) (q ?t)"
      using assms(6) unfolding buffers_def by blast
    then have "run_state (rx_turn put UART0_BASE r) t = (Inl True, t')"
      using assms(1,3) d True by (auto simp: rx_turn_def cur_def accepted_def)
    then show ?thesis using t' True assms(3,4) dr_ne by (auto simp: q dr_reads_def)
  qed
qed

lemma rx_loop:
  assumes "running s" "rx_fifo h0 ws (dev s)" "bus s = h0 @ h" "dr_reads h = 0" "buffers put q enq"
  shows "\<exists>s'. run_state (loop False (rx_turn put UART0_BASE) False) s = (filter accepted ws \<noteq> [], s') \<and> running s' \<and>
    q s' = fold enq (rx_bytes ws) (q s)"
proof -
  let ?n = "\<lambda>t. dr_reads (drop (length h0) (bus t))"
  let ?P = "\<lambda>r t. dev t = dev s \<and> (\<exists>h. bus t = h0 @ h) \<and> ?n t \<le> length ws \<and>
    r = (filter accepted (take (?n t) ws) \<noteq> []) \<and> q t = fold enq (rx_bytes (take (?n t) ws)) (q s)"
  let ?Q = "\<lambda>r t. r = (filter accepted ws \<noteq> []) \<and> q t = fold enq (rx_bytes ws) (q s)"
  have "\<exists>r s'. run_state (loop False (rx_turn put UART0_BASE) False) s = (r, s') \<and> running s' \<and> ?Q r s'"
  proof (rule loop_total [where P = ?P and \<mu> = "\<lambda>_ t. length ws - ?n t", OF assms(1)])
    show "?P False s" using assms(3,4) by (auto simp: rx_bytes_def)
    fix r t assume p: "?P r t" "running t"
    then obtain k where k: "bus t = h0 @ k" by blast
    then have n: "?n t = dr_reads k" by simp
    show "(\<exists>y s1. run_state (rx_turn put UART0_BASE r) t = (Inr y, s1) \<and> running s1 \<and> ?Q y s1) \<or>
      (\<exists>x' s1. run_state (rx_turn put UART0_BASE r) t = (Inl x', s1) \<and> running s1 \<and> ?P x' s1 \<and>
        length ws - ?n s1 < length ws - ?n t)"
    proof (cases "dr_reads k < length ws")
      case False
      then have "run_state (rx_turn put UART0_BASE r) t = (Inr r, log [Rd (UART0_BASE + UART_TFR)] t)"
        using rx_turn_last [OF p(2) _ k, of ws] assms(2) p(1) by simp
      moreover have "q (log [Rd (UART0_BASE + UART_TFR)] t) = q t" using assms(5) by (simp add: buffers_def)
      ultimately show ?thesis using False p n by simp
    next
      case True
      obtain t' k' where t': "run_state (rx_turn put UART0_BASE r) t = (Inl (r \<or> accepted (ws ! dr_reads k)), t')"
        "running t'" "dev t' = dev t" "bus t' = h0 @ k'" "dr_reads k' = Suc (dr_reads k)"
        "q t' = (if accepted (ws ! dr_reads k) then enq (u8_of (ws ! dr_reads k AND 0xff)) (q t) else q t)"
        using rx_turn_more [OF p(2) _ k refl True assms(5)] p(1) assms(2) by metis
      have "take (Suc (dr_reads k)) ws = take (dr_reads k) ws @ [ws ! dr_reads k]" using True by (rule take_Suc_conv_app_nth)
      with t' p True n show ?thesis
        by (intro disjI2 exI [of _ "r \<or> accepted (ws ! dr_reads k)"] exI [of _ t']) (auto simp: rx_bytes_snoc)
    qed
  qed
  then show ?thesis by auto
qed

text \<open>The receive interrupt empties the FIFO: every word read without a break or framing error goes to
  the port's buffer, in order, the others are dropped, the handler returns, and it asks for a
  reschedule exactly when it delivered something.\<close>

lemma run_uart_irq:
  assumes "running s" and "rx_fifo h0 ws (dev s)" and "bus s = h0 @ h" "dr_reads h = 0"
    and "cur s (UART0_BASE + UART_TMIS) AND (BV 6 OR BV 4) \<noteq> 0" and "buffers (put port) q enq"
  shows "\<exists>s'. run_state (uart_irq put port) s =
      (if \<exists>w \<in> set ws. accepted w then INT_RESCHEDULE else INT_NO_RESCHEDULE, s') \<and>
    running s' \<and> q s' = fold enq (rx_bytes ws) (q s)"
proof -
  let ?e = "[Rd (UART0_BASE + UART_TMIS), Wr (UART0_BASE + UART_ICR) (BV 4)]"
  have "bus (log ?e s) = h0 @ h @ ?e" "dr_reads (h @ ?e) = 0"
    using assms(3,4) dr_ne by (simp_all add: dr_reads_def)
  then obtain s1 where s1: "run_state (loop False (rx_turn (put port) UART0_BASE) False) (log ?e s) =
      (filter accepted ws \<noteq> [], s1)" "running s1" "q s1 = fold enq (rx_bytes ws) (q (log ?e s))"
    using rx_loop [of "log ?e s" h0 ws _ "put port" q enq] assms(1,2,6) by auto
  moreover have "q (log ?e s) = q s" using assms(6) by (simp add: buffers_def)
  ultimately show ?thesis
    using assms(1,5) by (auto simp: uart_irq_def filter_empty_conv)
qed

subsection \<open>The driver linked with the VPU's controller\<close>

text \<open>\<^verbatim>\<open>uart_init\<close> around the registration of its handler and the unmasking of its vector.\<close>

definition uart_prepare :: "(u32 \<Rightarrow> ('r, bool) io) \<Rightarrow> ('r, unit) io" where
  "uart_prepare init = do {
     _ \<leftarrow> gpio_config 14 4;
     _ \<leftarrow> gpio_config 15 4;
     printf ''uart %d base 0x%x'' [U 0, U UART0_BASE];
     magic \<leftarrow> init 0;
     assert_that ''uart_rx_buf[i].event.magic == EVENT_MAGIC'' magic
   }"

definition uart_start :: "u32 \<Rightarrow> ('r, unit) io" where
  "uart_start xtal_freq = do {
     divisor \<leftarrow> calculate_baud_divisor xtal_freq 115200;
     uart_flush 0;
     wr (UART0_BASE + UART_CR) 0;
     wr (UART0_BASE + UART_ICR) 0x3ff;
     wr (UART0_BASE + UART_LCRH) 0x70;
     set_divisor UART0_BASE divisor;
     wr (UART0_BASE + UART_IFLS) 0;
     wr (UART0_BASE + UART_IMSC) (BV 6 OR BV 4);
     reg_or (UART0_BASE + UART_CR) (BV 9 OR BV 8 OR BV 0)
   }"

lemma uart_init_parts:
  "uart_init reg unm init h True False xtal =
    do { uart_prepare init; reg 57 h 0; uart_start xtal; _ \<leftarrow> unm 57; return () }"
  by (simp add: uart_init_def uart_prepare_def uart_start_def NUM_UART_def State_Monad.bind_assoc Let_def when_io_def)
    (simp add: reg_defs)

lemma uart_parts_inert [inert_intros]:
  "inert (uart_start xtal)"
  unfolding uart_start_def calculate_baud_divisor_def get_uart_base_freq_def measure_clock_def set_divisor_def
    uart_flush_def Let_def
  by (intro inert_intros)

lemma uart_start_keeps: "steady P \<Longrightarrow> keeps P (uart_start xtal)"
  unfolding uart_start_def calculate_baud_divisor_def get_uart_base_freq_def measure_clock_def set_divisor_def
    uart_flush_def Let_def
  by (intro keep_intros)

lemma uart_prepare_keeps: "steady P \<Longrightarrow> keeps P (init 0) \<Longrightarrow> keeps P (uart_prepare init)"
  unfolding uart_prepare_def gpio_config_def Let_def by (intro keep_intros)

text \<open>What the set-up leaves: the handler in the table, the vector enabled, the receive interrupts on.\<close>

lemma uart_start_leaves: "leaves (UART0_BASE + UART_IMSC) (\<lambda>v. v = BV 6 OR BV 4) (uart_start xtal :: ('r, unit) io)"
proof -
  let ?B = UART0_BASE
  define m :: "('r, unit) io" where "m = do {
     divisor \<leftarrow> calculate_baud_divisor xtal 115200; uart_flush 0; wr (?B + UART_CR) 0; wr (?B + UART_ICR) 0x3ff;
     wr (?B + UART_LCRH) 0x70; set_divisor ?B divisor; wr (?B + UART_IFLS) 0 }"
  let ?w = "wr (?B + UART_IMSC) (BV 6 OR BV 4) :: ('r, unit) io"
    and ?c = "reg_or (?B + UART_CR) (BV 9 OR BV 8 OR BV 0) :: ('r, unit) io"
  have "?B + UART_CR \<noteq> ?B + UART_IMSC" by (simp add: reg_defs)
  then have w: "leaves (?B + UART_IMSC) (\<lambda>v. v = BV 6 OR BV 4) (do { ?w; ?c })"
    by (intro leaves_here leaves_prims inert_intros emit_intros) simp_all
  have "effects (\<lambda>_. True) m"
    unfolding m_def calculate_baud_divisor_def get_uart_base_freq_def measure_clock_def set_divisor_def uart_flush_def Let_def
    by (intro emit_intros) simp_all
  from leaves_later [where f = "\<lambda>_. do { ?w; ?c }", OF this _ w]
  have "leaves (?B + UART_IMSC) (\<lambda>v. v = BV 6 OR BV 4) (do { m; do { ?w; ?c } })"
    by (auto intro: inert_intros)
  then show ?thesis by (simp add: uart_start_def m_def State_Monad.bind_assoc)
qed

lemma uart_init_vpu:
  fixes s :: "'r irq_mach_scheme"
  assumes s: "running s" "irq_wf s" and init: "keeps irq_wf (init 0)" "keeps (\<lambda>u. dev u = dev s) (init 0)"
    and plain: "\<And>j. j < 64 \<Longrightarrow> plain_at (dev s) (mask_reg IC0_BASE j)"
    and run: "run_state (uart_init register_int_handler unmask_interrupt init h True False xtal) s = ((), s1)"
    and r: "running s1"
  shows "handlers_of s1 57 = (h, 0) \<and> mask_nibble s1 IC0_BASE 57 = 0xF \<and>
    last_write (UART0_BASE + UART_IMSC) (bus s1) = Some (BV 6 OR BV 4)"
proof -
  let ?D = "\<lambda>u :: 'r irq_mach_scheme. dev u = dev s" and ?n = "do { _ \<leftarrow> unmask_interrupt 57; return () }"
  have st: "steady ?D" "steady irq_wf" by (simp_all add: steady_def log_def irq_wf_def)
  have i: "inert ?n" unfolding unmask_interrupt_def set_interrupt_def Let_def by (intro inert_intros)
  have i2: "inert (do { uart_start xtal; ?n })" by (intro inert_intros i)
  have i3: "inert (do { register_int_handler 57 h 0; do { uart_start xtal; ?n } })"
    unfolding register_int_handler_def set_handler_def by (intro inert_intros i2 i)
  have run': "run_state (do { uart_prepare init; do { register_int_handler 57 h 0; do { uart_start xtal; ?n } } }) s = ((), s1)"
    using run by (simp add: uart_init_parts)
  obtain x a where 1: "run_state (uart_prepare init) s = (x, a)" "running a"
      "run_state (do { register_int_handler 57 h 0; do { uart_start xtal; ?n } }) a = ((), s1)"
    by (rule inert_running [OF i3 run' r])
  have wa: "irq_wf a" "dev a = dev s"
    using keepsD [OF uart_prepare_keeps [where P = irq_wf and init = init, OF st(2) init(1)] s(2) 1(1)]
      keepsD [OF uart_prepare_keeps [where P = ?D and init = init, OF st(1) init(2)] refl 1(1)] by blast+
  obtain b where b: "run_state (register_int_handler 57 h 0) a = ((), b)" "handlers_of b = (handlers_of a)(57 := (h, 0))"
      "irq_wf b" "running b" "dev b = dev a"
    using vpu_ints.reg_ok [OF 1(2) wa(1), of 57 h 0] by auto
  have 2: "run_state (do { uart_start xtal; ?n }) b = ((), s1)" using 1(3) b(1) by simp
  obtain y c where 3: "run_state (uart_start xtal) b = (y, c)" "running c" "run_state ?n c = ((), s1)"
    by (rule inert_running [OF i 2 r])
  let ?H = "\<lambda>u :: 'r irq_mach_scheme. handlers_of u = handlers_of b \<and> dev u = dev s"
  have "steady ?H" by (simp add: steady_def log_def handlers_of_def fun_eq_iff)
  from keepsD [OF uart_start_keeps [OF this] _ 3(1)] have wc: "handlers_of c = handlers_of b" "dev c = dev s"
    using b(5) wa(2) by simp_all
  obtain es where es: "bus c = bus b @ es" "last_write (UART0_BASE + UART_IMSC) es = Some (BV 6 OR BV 4)"
    by (rule leavesE [OF uart_start_leaves b(4) 3(1,2)]) simp
  have u: "run_state (set_interrupt (int 57) True 0) c = ((), s1)"
    using 3(2,3) run_unmask [OF 3(2), of 57] run_unit [of "set_interrupt 57 True 0" c] by simp
  have s1: "handlers_of s1 = handlers_of c" "bus s1 = bus c @ [Rd (mask_reg IC0_BASE 57),
      Wr (mask_reg IC0_BASE 57) (set_field (4 * (57 mod 8)) 4 0xF (cur c (mask_reg IC0_BASE 57)))]"
    using u run_set_interrupt_nat [OF 3(2), of 57 True 0] by (auto simp: Let_def handlers_of_def fun_eq_iff log_def)
  have "mask_reg IC0_BASE 57 \<noteq> UART0_BASE + UART_IMSC" by (simp add: mask_reg_def reg_defs)
  then have "last_write (UART0_BASE + UART_IMSC) (bus s1) = Some (BV 6 OR BV 4)"
    using es by (simp add: s1(2))
  moreover have "mask_nibble s1 IC0_BASE 57 = 0xF"
    using mask_nibble_set [OF 3(2) _ _ _ _ u, of IC0_BASE 57] plain wc(2) by simp
  ultimately show ?thesis using s1(1) wc(1) b(2) by simp
qed

subsection \<open>Properties\<close>

text \<open>C9.  
  Reception, from the set-up of the UART to the bytes in its buffer.  When \<^verbatim>\<open>uart_init\<close> returns, its
  vector is enabled on the first core and the UART's receive interrupts are on.  An interrupt of the
  UART at any later time, with the table of handlers as it was then, goes through the VPU's dispatcher
  to the driver, which empties the receive FIFO: every word without a break or framing error reaches
  the buffer of port 0, in order, the others are dropped; the dispatcher returns, after it entered
  the scheduler exactly when a byte was delivered.
\<close>

theorem uart_reception:
  fixes s t :: "'r irq_mach_scheme"
  assumes "running s" and "irq_wf s" and "h \<noteq> 0"
    and init: "keeps irq_wf (init 0)" "keeps (\<lambda>u. dev u = dev s) (init 0)"
    and plain: "\<And>j. j < 64 \<Longrightarrow> plain_at (dev s) (mask_reg IC0_BASE j)"
    and made: "run_state (uart_init register_int_handler unmask_interrupt init h True False xtal) s = ((), s1)"
      "running s1"
    and call: "call h = uart_irq put" and buffer: "buffers (put 0) q enq"
    and later: "running t" "handlers_of t = handlers_of s1" "cur t IC0_S AND 0xFF = 121"
    and fifo: "rx_fifo (bus t) ws (dev t)"
    and pending: "cur (log [Rd IC0_S] t) (UART0_BASE + UART_TMIS) AND (BV 6 OR BV 4) \<noteq> 0"
  shows "mask_nibble s1 IC0_BASE 57 = 0xF \<and> last_write (UART0_BASE + UART_IMSC) (bus s1) = Some (BV 6 OR BV 4) \<and>
    (\<exists>t'. running t' \<and> q t' = fold enq (rx_bytes ws) (q t) \<and>
      run_state (sleh_irq call preempt pcb) t = (if \<exists>w \<in> set ws. accepted w then run_state preempt t' else ((), t')))"
proof -
  note u = uart_init_vpu [where init = init, OF assms(1,2) init plain made]
  have h: "handlers_of t 57 = (h, 0)" using u later(2) by simp
  have r: "vpu_reports t 57" using later(3) by (simp add: vpu_reports_def)
  let ?t = "log [Rd IC0_S] t"
  have "IC0_S \<noteq> UART0_BASE + UART_DR" by (simp add: reg_defs)
  then have b: "dr_reads [Rd IC0_S] = 0" by (simp add: dr_reads_def)
  have q: "q ?t = q t" using buffer by (simp add: buffers_def)
  obtain t' where t': "run_state (uart_irq put 0) ?t =
      (if \<exists>w \<in> set ws. accepted w then INT_RESCHEDULE else INT_NO_RESCHEDULE, t')"
    "running t'" "q t' = fold enq (rx_bytes ws) (q ?t)"
    using run_uart_irq [of ?t "bus t" ws "[Rd IC0_S]" put 0 q enq] later(1) fifo pending buffer b by auto
  have "run_state (sleh_irq call preempt pcb) t = (if \<exists>w \<in> set ws. accepted w then run_state preempt t' else ((), t'))"
    using vpu_dispatch.dispatch_ok [OF later(1) r h assms(3), of call preempt pcb] call t'(1) by auto
  with u t'(2,3) q show ?thesis by auto
qed

text \<open>A UART whose FIFO holds three words, one with a framing error; every clock counts 48000 kHz.\<close>

record rx_mach = irq_mach +
  rx_buf :: "u8 list"

definition rx_put :: "u32 \<Rightarrow> u8 \<Rightarrow> ('r rx_mach_ext irq_mach_ext, unit) io" where
  "rx_put port c = gset (\<lambda>s. s\<lparr>rx_buf := rx_buf s @ [c]\<rparr>)"

definition fifo_dev :: "u32 list \<Rightarrow> device" where
  "fifo_dev ws h a = (if a = UART0_BASE + UART_TFR then (if length ws \<le> dr_reads h then BV 4 else 0)
     else if a = UART0_BASE + UART_DR then (if dr_reads h < length ws then ws ! dr_reads h else 0)
     else if a = UART0_BASE + UART_TMIS then BV 6 else if a = IC0_S then 121 else rate_dev h a)"

lemma fifo_dev_other: "a \<notin> {UART0_BASE + UART_TFR, UART0_BASE + UART_DR, UART0_BASE + UART_TMIS, IC0_S} \<Longrightarrow>
  fifo_dev ws h a = rate_dev h a"
  by (simp add: fifo_dev_def)

lemma ticking_fifo_dev: "ticking (fifo_dev ws) 1000"
proof -
  have "ST_CLO \<notin> {UART0_BASE + UART_TFR, UART0_BASE + UART_DR, UART0_BASE + UART_TMIS, IC0_S}"
    by (simp add: reg_defs)
  from fifo_dev_other [OF this] show ?thesis
    using ticking_rate_dev by (simp add: ticking_def ticks_def answer_def cur_def)
qed

lemma uart_start_ends: "ends (fifo_dev ws) (uart_start xtal)"
proof -
  have o: "tx_drains CM_OSCCOUNT (\<lambda>x. x = 0) (fifo_dev ws)" "tx_drains CM_TCNTCTL (\<lambda>x. x AND CM_BUSY = 0) (fifo_dev ws)"
    unfolding tx_drains_def
    by (subst fifo_dev_other; simp add: reg_defs; simp add: rate_dev_def reg_defs)+
  have f: "tx_drains (UART0_BASE + UART_TFR) (\<lambda>x. x AND 0x20 = 0) (fifo_dev ws)"
    by (simp add: tx_drains_def fifo_dev_def BV_def)
  show ?thesis
    unfolding uart_start_def calculate_baud_divisor_def get_uart_base_freq_def measure_clock_def set_divisor_def
      uart_flush_def uart_to_ptr.simps Let_def
    by (intro ends_intros poll_drains udelay_returns [OF ticking_fifo_dev] o f) simp_all
qed

lemma uart_init_no_data:
  "effects (\<lambda>e. e \<noteq> Rd (UART0_BASE + UART_DR))
    (uart_init register_int_handler unmask_interrupt (\<lambda>_. return True) h True False xtal)"
  unfolding uart_init_parts uart_prepare_def uart_start_def calculate_baud_divisor_def get_uart_base_freq_def
    measure_clock_def set_divisor_def uart_flush_def register_int_handler_def set_handler_def unmask_interrupt_def set_interrupt_def
    arch_interrupt_save_def arch_interrupt_restore_def arch_ints_disabled_def arch_disable_ints_def arch_enable_ints_def
    Let_def uart_to_ptr.simps
  by (intro emit_intros) (simp_all add: reg_defs fsel_reg_def)

lemma fifo_dev_fifo: "dr_reads h0 = 0 \<Longrightarrow> rx_fifo h0 ws (fifo_dev ws)"
  using dr_ne by (auto simp: rx_fifo_def fifo_dev_def dr_reads_def BV_def)

lemma fifo_dev_plain: "j < 64 \<Longrightarrow> plain_at (fifo_dev ws) (mask_reg IC0_BASE j)"
proof -
  assume "j < 64"
  then have "j div 8 \<in> {0, 1, 2, 3, 4, 5, 6, 7}" by auto
  then have m: "fifo_dev ws h (mask_reg IC0_BASE j) = memory (\<lambda>_. 0) h (mask_reg IC0_BASE j)" for h
    by (auto simp: fifo_dev_def rate_dev_def clock_dev_def mask_reg_def reg_defs)
  show ?thesis unfolding plain_at_def m by (rule plain_memory [unfolded plain_at_def])
qed

definition rx_boot :: "u32 list \<Rightarrow> rx_mach" where
  "rx_boot ws = irq_mach.extend (irq_boot (fifo_dev ws)) \<lparr>rx_buf = []\<rparr>"

lemma rx_boot_simps [simp]:
  "dev (rx_boot ws) = fifo_dev ws" "bus (rx_boot ws) = []" "running (rx_boot ws)" "irq_wf (rx_boot ws)"
  by (simp_all add: rx_boot_def irq_mach.defs irq_boot_def irq_wf_def)

lemma uart_init_fifo_dev:
  assumes "dev s = fifo_dev ws" "running s" "irq_wf s"
    and run: "run_state (uart_init register_int_handler unmask_interrupt (\<lambda>_. return True) h True False xtal) s = ((), s1)"
  shows "running s1"
proof -
  have e: "ends (fifo_dev ws) (uart_prepare (\<lambda>_. return True))"
    unfolding uart_prepare_def gpio_config_def Let_def assert_that_def
    by (simp only: State_Monad.bind_left_identity if_True) (intro ends_intros)
  obtain a where a: "run_state (uart_prepare (\<lambda>_. return True)) s = ((), a)" using run_unit by blast
  have 1: "running a" "dev a = fifo_dev ws" "irq_wf a"
    using endsD [OF e assms(1,2) a] keepsD [OF uart_prepare_keeps [where P = irq_wf] assms(3) a]
    by (simp_all add: steady_def log_def irq_wf_def keeps_prims)
  obtain b where b: "run_state (register_int_handler 57 h 0) a = ((), b)" "irq_wf b" "running b" "dev b = dev a"
    using vpu_ints.reg_ok [OF 1(1,3), of 57 h 0] by auto
  obtain c where c: "run_state (uart_start xtal) b = ((), c)" using run_unit by blast
  have 2: "running c" "irq_wf c"
    using endsD [OF uart_start_ends _ b(3) c] keepsD [OF uart_start_keeps [where P = irq_wf] b(2) c] b(4) 1(2)
    by (simp_all add: steady_def log_def irq_wf_def)
  obtain s2 where "run_state (unmask_interrupt 57) c = (NO_ERROR, s2)" "running s2"
    using vpu_ints.unm_ok [OF 2, of 57] by auto
  with run a b(1) c show ?thesis by (simp add: uart_init_parts)
qed

theorem uart_reception_witness:
  "\<exists>s1 s2. run_state (uart_init register_int_handler unmask_interrupt (\<lambda>_. return True) 0x100 True False 19200000)
      (rx_boot [0x41, 0x142, 0x43]) = ((), s1) \<and>
    run_state (sleh_irq (\<lambda>_. uart_irq rx_put) (printf ''preempt'' []) demo_pcb) s1 = ((), s2) \<and>
    rx_buf s2 = rx_buf s1 @ [0x41, 0x43] \<and> last (bus s2) = Print ''preempt'' []"
proof -
  let ?ws = "[0x41, 0x142, 0x43] :: u32 list" and ?i = "\<lambda>_. return True :: (unit rx_mach_ext irq_mach_ext, bool) io"
  let ?s = "rx_boot ?ws" and ?u = "uart_init register_int_handler unmask_interrupt ?i 0x100 True False 19200000"
  have i: "keeps irq_wf (?i 0)" "keeps (\<lambda>u. dev u = dev ?s) (?i 0)" by (simp_all add: keeps_prims)
  obtain s1 where run: "run_state ?u ?s = ((), s1)" using run_unit by blast
  have r: "running s1" by (rule uart_init_fifo_dev [OF _ _ _ run]) simp_all
  obtain es where es: "dev s1 = dev ?s" "bus s1 = bus ?s @ es" "list_all (\<lambda>e. e \<noteq> Rd (UART0_BASE + UART_DR)) es"
    by (rule effects_run [OF uart_init_no_data run])
  then have n: "rx_fifo (bus s1) ?ws (dev s1)"
    by (auto simp: dr_reads_def list_all_iff filter_empty_conv intro!: fifo_dev_fifo)
  have a: "IC0_S \<noteq> UART0_BASE + UART_TFR" "IC0_S \<noteq> UART0_BASE + UART_DR" "IC0_S \<noteq> UART0_BASE + UART_TMIS"
    "UART_TMIS \<noteq> UART_TFR" "UART_TMIS \<noteq> UART_DR" by (simp_all add: reg_defs)
  have src: "cur s1 IC0_S AND 0xFF = 121"
    "cur (log [Rd IC0_S] s1) (UART0_BASE + UART_TMIS) AND (BV 6 OR BV 4) \<noteq> 0"
    using es(1) a by (simp_all add: cur_def fifo_dev_def BV_def)
  have b: "buffers (rx_put 0) rx_buf (\<lambda>c q. q @ [c])" by (auto simp: buffers_def rx_put_def log_def)
  obtain t' where t': "running t'" "rx_buf t' = fold (\<lambda>c q. q @ [c]) (rx_bytes ?ws) (rx_buf s1)"
    "run_state (sleh_irq (\<lambda>_. uart_irq rx_put) (printf ''preempt'' []) demo_pcb) s1 =
      (if \<exists>w \<in> set ?ws. accepted w then run_state (printf ''preempt'' []) t' else ((), t'))"
    using uart_reception [where init = ?i and preempt = "printf ''preempt'' []" and pcb = demo_pcb and h = "0x100"
        and call = "\<lambda>_. uart_irq rx_put" and put = rx_put, OF rx_boot_simps(3,4) _ i _ run r refl b r refl src(1) n src(2)] fifo_dev_plain by auto
  then have "run_state (sleh_irq (\<lambda>_. uart_irq rx_put) (printf ''preempt'' []) demo_pcb) s1 =
      ((), log [Print ''preempt'' []] t')" "rx_buf t' = rx_buf s1 @ [0x41, 0x43]"
    by (simp_all add: accepted_def rx_bytes_def u8_of_def)
  then show ?thesis
    by (intro exI [of _ s1] exI [of _ "log [Print ''preempt'' []] t'"] conjI run) (simp_all add: log_def)
qed

end
