(* ===== verification/Miniuart.thy ===== *)
theory Miniuart
  imports Uart Arm_Intc
begin

unbundle bit_operations_syntax

text \<open>
  The mini UART (\<^verbatim>\<open>platform/bcm28xx/miniuart.c\<close>), the console of the Raspberry Pi 3's ARM build:
  a second provider of \<open>char_device\<close>, installed on a second provider of \<open>int_controller\<close>.  The
  registers are structures at \<^verbatim>\<open>AUX_BASE\<close> and \<^verbatim>\<open>MINIUART_BASE\<close>; the peripheral base is the argument
  \<open>virt\<close>, and a field is an offset.  The buffer is LK's, as in the PL011 driver.
\<close>

subsection \<open>The code\<close>

definition miniuart_base :: "u32 \<Rightarrow> u32" where [reg_defs]: "miniuart_base virt = virt + 0x215040"
definition aux_base :: "u32 \<Rightarrow> u32" where [reg_defs]: "aux_base virt = virt + 0x215000"

definition mu_io :: "u32 \<Rightarrow> u32" where [reg_defs]: "mu_io virt = miniuart_base virt + 0"
definition mu_ier :: "u32 \<Rightarrow> u32" where [reg_defs]: "mu_ier virt = miniuart_base virt + 4"
definition mu_iir :: "u32 \<Rightarrow> u32" where [reg_defs]: "mu_iir virt = miniuart_base virt + 8"
definition mu_lsr :: "u32 \<Rightarrow> u32" where [reg_defs]: "mu_lsr virt = miniuart_base virt + 20"
definition aux_auxirq :: "u32 \<Rightarrow> u32" where [reg_defs]: "aux_auxirq virt = aux_base virt + 0"
definition aux_auxenb :: "u32 \<Rightarrow> u32" where [reg_defs]: "aux_auxenb virt = aux_base virt + 4"

definition AUX_IRQ_MINIUART :: u32 where [reg_defs]: "AUX_IRQ_MINIUART = BV 0"
definition AUX_ENB_MINIUART :: u32 where [reg_defs]: "AUX_ENB_MINIUART = BV 0"
definition MU_IIR_BYTE_AVAIL :: u32 where [reg_defs]: "MU_IIR_BYTE_AVAIL = BV 2"
definition MU_IIR_CLR_XMIT_FIFO :: u32 where [reg_defs]: "MU_IIR_CLR_XMIT_FIFO = BV 2"
definition MU_IIR_CLR_RECV_FIFO :: u32 where [reg_defs]: "MU_IIR_CLR_RECV_FIFO = BV 1"
definition MU_IIR_EN_RX_IRQ :: u32 where [reg_defs]: "MU_IIR_EN_RX_IRQ = BV 0"
definition MU_LSR_TX_EMPTY :: u32 where [reg_defs]: "MU_LSR_TX_EMPTY = BV 5"

definition aux_turn :: "(u8 \<Rightarrow> ('r, unit) io) \<Rightarrow> u32 \<Rightarrow> bool \<Rightarrow> ('r, bool + bool) io" where
  "aux_turn put virt resched = do {
     iir \<leftarrow> rd (mu_iir virt);
     if iir AND MU_IIR_BYTE_AVAIL = 0 then return (Inr resched)
     else do {
       ch \<leftarrow> rd (mu_io virt);
       put (u8_of ch);
       return (Inl True)
     }
   }"

definition aux_irq :: "(u8 \<Rightarrow> ('r, unit) io) \<Rightarrow> u32 \<Rightarrow> ('r, handler_return) io" where
  "aux_irq put virt = do {
     auxirq \<leftarrow> rd (aux_auxirq virt);
     if auxirq AND AUX_IRQ_MINIUART = 0 then return INT_NO_RESCHEDULE
     else do {
       resched \<leftarrow> loop False (aux_turn put virt) False;
       return (if resched then INT_RESCHEDULE else INT_NO_RESCHEDULE)
     }
   }"

definition mu_putc :: "u32 \<Rightarrow> u32 \<Rightarrow> u8 \<Rightarrow> ('r, int) io" where
  "mu_putc virt port c = do {
     _ \<leftarrow> poll (mu_lsr virt) (\<lambda>x. x AND MU_LSR_TX_EMPTY \<noteq> 0);
     wr (mu_io virt) (u32_of8 c);
     return 1
   }"

definition mu_init ::
  "(u32 \<Rightarrow> u32 \<Rightarrow> u32 \<Rightarrow> ('r, unit) io) \<Rightarrow> (u32 \<Rightarrow> ('r, status_t) io) \<Rightarrow> ('r, unit) io \<Rightarrow> u32 \<Rightarrow> u32 \<Rightarrow>
     ('r, unit) io" where
  "mu_init reg unm init h virt = do {
     init;
     reg INTERRUPT_AUX h 0;
     _ \<leftarrow> unm INTERRUPT_AUX;
     wr (mu_iir virt) (MU_IIR_CLR_RECV_FIFO OR MU_IIR_CLR_XMIT_FIFO);
     wr (aux_auxenb virt) AUX_ENB_MINIUART;
     wr (mu_ier virt) MU_IIR_EN_RX_IRQ
   }"

definition mu_init_early :: "('r, unit) io" where "mu_init_early = return ()"

definition mu_getc :: "(bool \<Rightarrow> ('r, u8 option) io) \<Rightarrow> int \<Rightarrow> bool \<Rightarrow> ('r, int) io" where
  "mu_getc get port wait = do {
     r \<leftarrow> get wait;
     return (case r of Some c \<Rightarrow> uint c | None \<Rightarrow> -1)
   }"

definition mu_flush_tx :: "u32 \<Rightarrow> u32 \<Rightarrow> ('r, unit) io" where
  "mu_flush_tx virt port = wr (mu_iir virt) MU_IIR_CLR_XMIT_FIFO"

definition mu_flush_rx :: "u32 \<Rightarrow> u32 \<Rightarrow> ('r, unit) io" where
  "mu_flush_rx virt port = wr (mu_iir virt) MU_IIR_CLR_RECV_FIFO"

definition mu_init_port :: "u32 \<Rightarrow> u32 \<Rightarrow> ('r, unit) io" where "mu_init_port port baud = return ()"

subsection \<open>The mini UART is a character device\<close>

interpretation mini: char_device "mu_putc virt port" "mu_io virt"
  "tx_drains (mu_lsr virt) (\<lambda>x. x AND MU_LSR_TX_EMPTY \<noteq> 0)" for virt port
proof
  fix c :: u8 and d :: device
  have p: "emits [] (poll (mu_lsr virt) (\<lambda>x. x AND MU_LSR_TX_EMPTY \<noteq> 0))"
    by (rule emits_quiet) (intro emit_intros, simp)
  have w: "emits [(mu_io virt, u32_of8 c)] (do { wr (mu_io virt) (u32_of8 c); return (1 :: int) })"
    by (rule emits_bind [OF emits_wr emits_return]) (auto intro: inert_intros)
  show "emits [(mu_io virt, u32_of8 c)] (mu_putc virt port c)"
    unfolding mu_putc_def by (rule emits_bind [OF p w]) (intro inert_intros, simp)
  show "inert (mu_putc virt port c)" unfolding mu_putc_def by (intro inert_intros)
  show "tx_drains (mu_lsr virt) (\<lambda>x. x AND MU_LSR_TX_EMPTY \<noteq> 0) d \<Longrightarrow> ends d (mu_putc virt port c)"
    unfolding mu_putc_def by (intro ends_intros poll_drains)
qed

subsection \<open>Properties\<close>

text \<open>The console on the mini UART sends the same bytes as on the PL011, to its own register.\<close>

theorem miniuart_console_line:
  assumes "running s" and "tx_drains (mu_lsr virt) (\<lambda>x. x AND MU_LSR_TX_EMPTY \<noteq> 0) (dev s)"
    and "run_state (for_each cs (platform_dputc (mu_putc virt port))) s = ((), s')"
  shows "running s' \<and> writes (bus s') = writes (bus s) @
    map (\<lambda>c. (mu_io virt, u32_of8 c)) (concat (map crlf cs))"
  by (rule mini.puts_line [OF assms])

theorem miniuart_console_line_witness:
  "\<exists>s'. run_state (for_each [10] (platform_dputc (mu_putc 0xe0000000 1))) (boot (\<lambda>_ _. 0x20)) = ((), s') \<and>
     writes (bus s') = [(0xe0215040, 13), (0xe0215040, 10)]"
proof -
  obtain s' where run: "run_state (for_each [10] (platform_dputc (mu_putc 0xe0000000 1))) (boot (\<lambda>_ _. 0x20)) = ((), s')"
    using run_unit by blast
  have "tx_drains (mu_lsr 0xe0000000) (\<lambda>x. x AND MU_LSR_TX_EMPTY \<noteq> 0) (dev (boot (\<lambda>_ _. 0x20)))"
    by (simp add: tx_drains_def reg_defs)
  from miniuart_console_line [OF _ this run] run show ?thesis
    by (simp add: crlf_def u32_of8_def mu_io_def miniuart_base_def)
qed

text \<open>Initialisation on the ARM interrupt controller: it returns, its handler is installed for
  the AUX vector, and the interrupt is unmasked before the driver enables reception in the
  device.\<close>

theorem miniuart_init_installs:
  assumes "running s" and "arm_wf s" and "run_state init s = ((), s)"
    and "run_state (mu_init (arm_register_int_handler arch_interrupt_save arch_interrupt_restore)
      (arm_unmask_interrupt arch_interrupt_save arch_interrupt_restore virt) init h virt) s = ((), s')"
  shows "running s' \<and> arm_handlers s' = (arm_handlers s)(INTERRUPT_AUX := (h, 0)) \<and>
    (\<exists>ws. writes (bus s') = ws @ [(mu_iir virt, 6), (aux_auxenb virt, 1), (mu_ier virt, 1)])"
proof -
  have v: "INTERRUPT_AUX < 100" by (simp add: reg_defs)
  obtain s1 s2 where 1: "run_state (arm_register_int_handler arch_interrupt_save arch_interrupt_restore INTERRUPT_AUX h 0) s = ((), s1)"
    and 2: "run_state (arm_unmask_interrupt arch_interrupt_save arch_interrupt_restore virt INTERRUPT_AUX) s1 = (NO_ERROR, s2)"
      "arm_handlers s2 = (arm_handlers s)(INTERRUPT_AUX := (h, 0))" "running s2"
    using arm_ints.ints.install [OF assms(1,2) v, of h 0 virt] by blast
  have m: "MU_IIR_CLR_RECV_FIFO OR MU_IIR_CLR_XMIT_FIFO = 6" "AUX_ENB_MINIUART = 1" "MU_IIR_EN_RX_IRQ = 1"
    by (simp_all add: reg_defs)
  have "s' = log [Wr (mu_iir virt) 6, Wr (aux_auxenb virt) 1, Wr (mu_ier virt) 1] s2"
    using assms(3,4) 1 2 by (simp add: mu_init_def m)
  moreover have "arm_handlers (log es s2) = arm_handlers s2" for es
    by (simp add: arm_handlers_def log_def fun_eq_iff)
  ultimately show ?thesis using 2 by simp
qed

theorem miniuart_init_installs_witness:
  "\<exists>s' :: arm_mach. arm_handlers s' INTERRUPT_AUX = (0x80001000, 0)"
proof -
  obtain s' where run: "run_state (mu_init (arm_register_int_handler arch_interrupt_save arch_interrupt_restore)
      (arm_unmask_interrupt arch_interrupt_save arch_interrupt_restore 0xe0000000) (return ()) 0x80001000 0xe0000000)
      (arm_boot (memory (\<lambda>_. 0))) = ((), s')"
    using run_unit by blast
  from miniuart_init_installs [OF _ _ _ run] show ?thesis by (intro exI [of _ s']) simp
qed

end
