(* ===== verification/Hvs.thy ===== *)
theory Hvs
  imports Uart
begin

unbundle bit_operations_syntax

text \<open>
  The display compositor (\<^verbatim>\<open>hvs/hvs.c\<close>, \<^verbatim>\<open>hvs.h\<close>): a display list in the compositor's memory.  The
  driver appends the words of a plane at \<^verbatim>\<open>display_slot\<close> and terminates the list; the hardware
  walks it from header to header.  \<open>gfx_surface\<close> holds the fields of LK's structure that the
  driver reads.  A local variable that the code leaves uninitialised is an argument (\<open>junk\<close>).
\<close>

subsection \<open>Registers and list words\<close>

definition SCALER_BASE :: u32 where [reg_defs]: "SCALER_BASE = BCM_PERIPH_BASE_VIRT + 0x400000"
definition SCALER_DISPCTRL :: u32 where [reg_defs]: "SCALER_DISPCTRL = SCALER_BASE + 0x00"
definition SCALER_DISPSTAT :: u32 where [reg_defs]: "SCALER_DISPSTAT = SCALER_BASE + 0x04"
definition SCALER_DISPCTRL_ENABLE :: u32 where [reg_defs]: "SCALER_DISPCTRL_ENABLE = BV 31"
definition SCALER_DISPEOLN :: u32 where [reg_defs]: "SCALER_DISPEOLN = SCALER_BASE + 0x18"
definition SCALER_DISPLIST0 :: u32 where [reg_defs]: "SCALER_DISPLIST0 = SCALER_BASE + 0x20"
definition SCALER_DISPLIST1 :: u32 where [reg_defs]: "SCALER_DISPLIST1 = SCALER_BASE + 0x24"
definition SCALER_DISPLIST2 :: u32 where [reg_defs]: "SCALER_DISPLIST2 = SCALER_BASE + 0x28"
definition SCALER_DISPCTRL0 :: u32 where [reg_defs]: "SCALER_DISPCTRL0 = SCALER_BASE + 0x40"
definition SCALER_DISPCTRLX_ENABLE :: u32 where [reg_defs]: "SCALER_DISPCTRLX_ENABLE = BV 31"
definition SCALER_DISPCTRLX_RESET :: u32 where [reg_defs]: "SCALER_DISPCTRLX_RESET = BV 30"
definition SCALER_DISPBKGND_AUTOHS :: u32 where [reg_defs]: "SCALER_DISPBKGND_AUTOHS = BV 31"
definition SCALER_DISPBKGND_INTERLACE :: u32 where [reg_defs]: "SCALER_DISPBKGND_INTERLACE = BV 30"
definition SCALER_DISPBKGND_FILL :: u32 where [reg_defs]: "SCALER_DISPBKGND_FILL = BV 24"
definition SCALER_LIST_MEMORY :: u32 where [reg_defs]: "SCALER_LIST_MEMORY = BCM_PERIPH_BASE_VIRT + 0x402000"

definition SCALER_STAT_LINE :: "u32 \<Rightarrow> u32" where "SCALER_STAT_LINE n = n AND 0xfff"
definition SCALER_DISPCTRL_W :: "u32 \<Rightarrow> u32" where "SCALER_DISPCTRL_W n = push_bit 12 (n AND 0xfff)"
definition SCALER_DISPCTRL_H :: "u32 \<Rightarrow> u32" where "SCALER_DISPCTRL_H n = n AND 0xfff"
definition BASE_BASE :: "u32 \<Rightarrow> u32" where "BASE_BASE n = n AND 0xffff"
definition BASE_TOP :: "u32 \<Rightarrow> u32" where "BASE_TOP n = push_bit 16 (n AND 0xffff)"

definition CONTROL_FORMAT :: "u32 \<Rightarrow> u32" where "CONTROL_FORMAT n = n AND 0xf"
definition CONTROL_END :: u32 where [reg_defs]: "CONTROL_END = BV 31"
definition CONTROL_VALID :: u32 where [reg_defs]: "CONTROL_VALID = BV 30"
definition CONTROL_WORDS :: "u32 \<Rightarrow> u32" where "CONTROL_WORDS n = push_bit 24 (n AND 0x3f)"
definition CONTROL0_HFLIP :: u32 where [reg_defs]: "CONTROL0_HFLIP = BV 16"
definition CONTROL_PIXEL_ORDER :: "u32 \<Rightarrow> u32" where "CONTROL_PIXEL_ORDER n = push_bit 13 (n AND 3)"
definition CONTROL_UNITY :: u32 where [reg_defs]: "CONTROL_UNITY = BV 4"
definition HVS_PIXEL_FORMAT_RGB332 :: u32 where "HVS_PIXEL_FORMAT_RGB332 = 0"
definition HVS_PIXEL_FORMAT_RGB565 :: u32 where "HVS_PIXEL_FORMAT_RGB565 = 4"
definition HVS_PIXEL_FORMAT_RGBA8888 :: u32 where "HVS_PIXEL_FORMAT_RGBA8888 = 7"
definition HVS_PIXEL_ORDER_ABGR :: u32 where "HVS_PIXEL_ORDER_ABGR = 3"
definition SCALER_CTL0_SCL_H_PPF_V_PPF :: u32 where "SCALER_CTL0_SCL_H_PPF_V_PPF = 0"
definition SCALER_CTL0_SCL_H_TPZ_V_PPF :: u32 where "SCALER_CTL0_SCL_H_TPZ_V_PPF = 1"
definition SCALER_CTL0_SCL_H_PPF_V_TPZ :: u32 where "SCALER_CTL0_SCL_H_PPF_V_TPZ = 2"
definition SCALER_CTL0_SCL_H_TPZ_V_TPZ :: u32 where "SCALER_CTL0_SCL_H_TPZ_V_TPZ = 3"
definition POS0_X :: "u32 \<Rightarrow> u32" where "POS0_X n = n AND 0xfff"
definition POS0_Y :: "u32 \<Rightarrow> u32" where "POS0_Y n = push_bit 12 (n AND 0xfff)"
definition POS0_ALPHA :: "u32 \<Rightarrow> u32" where "POS0_ALPHA n = push_bit 24 (n AND 0xff)"
definition POS2_W :: "u32 \<Rightarrow> u32" where "POS2_W n = n AND 0xffff"
definition POS2_H :: "u32 \<Rightarrow> u32" where "POS2_H n = push_bit 16 (n AND 0xffff)"

subsection \<open>State\<close>

datatype gfx_format = GFX_FORMAT_RGB_565 | GFX_FORMAT_RGB_332 | GFX_FORMAT_ARGB_8888
  | GFX_FORMAT_RGB_x888 | GFX_FORMAT_OTHER int

record gfx_surface =
  fb_ptr :: u32
  fb_format :: gfx_format
  fb_width :: u32
  fb_height :: u32
  fb_stride :: u32
  fb_pixelsize :: u32

record hvs_channel_config =
  ch_width :: u32
  ch_height :: u32
  ch_interlaced :: bool

record hvs_mach = mach +
  display_slot :: int
  scaled_layer_count :: int
  channels :: "hvs_channel_config list"

type_synonym ('r, 'a) hvs_io = "('r hvs_mach_ext, 'a) io"

definition dlist_addr :: "int \<Rightarrow> u32" where
  "dlist_addr i = SCALER_LIST_MEMORY + 4 * of_int i"

datatype scaling_mode = Scale_none | PPF | TPZ

subsection \<open>Building the list\<close>

text \<open>\<^verbatim>\<open>dlist_memory[display_slot++] = w;\<close>\<close>

definition emit_word :: "u32 \<Rightarrow> ('r, unit) hvs_io" where
  "emit_word w = do {
     i \<leftarrow> gget display_slot;
     wr (dlist_addr i) w;
     gset (\<lambda>s. s\<lparr>display_slot := display_slot s + 1\<rparr>)
   }"

definition gfx_to_hvs_pixel_format :: "gfx_format \<Rightarrow> ('r, u32) io" where
  "gfx_to_hvs_pixel_format fmt =
     (case fmt of
        GFX_FORMAT_RGB_565 \<Rightarrow> return HVS_PIXEL_FORMAT_RGB565
      | GFX_FORMAT_RGB_332 \<Rightarrow> return HVS_PIXEL_FORMAT_RGB332
      | GFX_FORMAT_ARGB_8888 \<Rightarrow> return HVS_PIXEL_FORMAT_RGBA8888
      | GFX_FORMAT_RGB_x888 \<Rightarrow> return HVS_PIXEL_FORMAT_RGBA8888
      | GFX_FORMAT_OTHER n \<Rightarrow> do {
          printf ''warning, unsupported pixel format: %d'' [I n];
          return 0
        })"

definition hvs_add_plane :: "gfx_surface option \<Rightarrow> int \<Rightarrow> int \<Rightarrow> bool \<Rightarrow> ('r, unit) hvs_io" where
  "hvs_add_plane fb x y hflip =
     (case fb of
        None \<Rightarrow> panic ''fb''
      | Some f \<Rightarrow> do {
          fmt \<leftarrow> gfx_to_hvs_pixel_format (fb_format f);
          for_each [CONTROL_VALID OR CONTROL_WORDS 7 OR CONTROL_PIXEL_ORDER HVS_PIXEL_ORDER_ABGR
              OR (if hflip then CONTROL0_HFLIP else 0) OR CONTROL_UNITY OR CONTROL_FORMAT fmt,
            POS0_X (of_int x) OR POS0_Y (of_int y) OR POS0_ALPHA 0xff,
            POS2_H (fb_height f) OR POS2_W (fb_width f),
            0xDEADBEEF,
            fb_ptr f OR 0xc0000000,
            0xDEADBEEF,
            fb_stride f * fb_pixelsize f] emit_word
        })"

text \<open>A division by zero is an exception of the processor.\<close>

definition write_tpz :: "u32 \<Rightarrow> u32 \<Rightarrow> ('r, unit) hvs_io" where
  "write_tpz source dest =
     (let scale = push_bit 16 1 * source div dest in
      if dest = 0 \<or> scale = 0 then panic ''Division by zero''
      else do {
        emit_word (push_bit 8 scale);
        emit_word (0xffffffff div scale)
      })"

definition scl0_of :: "u32 \<Rightarrow> scaling_mode \<Rightarrow> scaling_mode \<Rightarrow> ('r, u32) io" where
  "scl0_of junk xmode ymode =
     (if xmode = PPF \<and> ymode = PPF then return SCALER_CTL0_SCL_H_PPF_V_PPF
      else if xmode = TPZ \<and> ymode = PPF then return SCALER_CTL0_SCL_H_TPZ_V_PPF
      else if xmode = PPF \<and> ymode = TPZ then return SCALER_CTL0_SCL_H_PPF_V_TPZ
      else if xmode = TPZ \<and> ymode = TPZ then return SCALER_CTL0_SCL_H_TPZ_V_TPZ
      else do { printf ''unsupported scale combonation'' []; return junk })"

definition mode_of :: "u32 \<Rightarrow> u32 \<Rightarrow> scaling_mode" where
  "mode_of source dest = (if source > dest then TPZ else if source < dest then PPF else Scale_none)"

definition hvs_add_plane_scaled ::
  "u32 \<Rightarrow> gfx_surface option \<Rightarrow> int \<Rightarrow> int \<Rightarrow> u32 \<Rightarrow> u32 \<Rightarrow> bool \<Rightarrow> ('r, unit) hvs_io" where
  "hvs_add_plane_scaled junk fb x y width height hflip =
     (case fb of
        None \<Rightarrow> panic ''fb''
      | Some f \<Rightarrow> do {
          when_io (x < 0 \<or> y < 0)
            (printf ''rendering FB of size %dx%d at %dx%d, scaled down to %dx%d''
              [U (fb_width f), U (fb_height f), I x, I y, U width, U height]);
          let xmode = mode_of (fb_width f) width;
          let ymode = mode_of (fb_height f) height;
          scl0 \<leftarrow> scl0_of junk xmode ymode;
          start \<leftarrow> gget display_slot;
          fmt \<leftarrow> gfx_to_hvs_pixel_format (fb_format f);
          for_each [CONTROL_PIXEL_ORDER HVS_PIXEL_ORDER_ABGR OR (if hflip then CONTROL0_HFLIP else 0)
              OR CONTROL_FORMAT fmt OR push_bit 5 scl0 OR push_bit 8 scl0,
            POS0_X (of_int x) OR POS0_Y (of_int y) OR POS0_ALPHA 0xff,
            width OR push_bit 16 height,
            POS2_H (fb_height f) OR POS2_W (fb_width f),
            0xDEADBEEF,
            fb_ptr f OR 0x80000000,
            0xDEADBEEF,
            fb_stride f * fb_pixelsize f] emit_word;
          n \<leftarrow> gget scaled_layer_count;
          emit_word (of_int (n * 720));
          gset (\<lambda>s. s\<lparr>scaled_layer_count := scaled_layer_count s + 1\<rparr>);
          when_io (xmode = PPF) (printf ''unfinished'' []);
          when_io (ymode = PPF) (printf ''unfinished'' []);
          when_io (xmode = TPZ) (write_tpz (fb_width f) width);
          when_io (ymode = TPZ) (do { write_tpz (fb_height f) height; emit_word 0xDEADBEEF });
          end \<leftarrow> gget display_slot;
          reg_or (dlist_addr start) (CONTROL_VALID OR CONTROL_WORDS (of_int (end - start)))
        })"

definition hvs_terminate_list :: "('r, unit) hvs_io" where
  "hvs_terminate_list = do {
     emit_word CONTROL_END;
     gset (\<lambda>s. if scaled_layer_count s > 10 then s\<lparr>scaled_layer_count := 0\<rparr> else s)
   }"

definition hvs_wipe_displaylist :: "('r, unit) hvs_io" where
  "hvs_wipe_displaylist = do {
     for_each [0..<1024] (\<lambda>i. wr (dlist_addr (int i)) CONTROL_END);
     gset (\<lambda>s. s\<lparr>display_slot := 0\<rparr>)
   }"

subsection \<open>Channels\<close>

definition chan_dispctrl :: "nat \<Rightarrow> u32" where "chan_dispctrl i = SCALER_DISPCTRL0 + 16 * of_nat i"
definition chan_dispbkgnd :: "nat \<Rightarrow> u32" where "chan_dispbkgnd i = SCALER_DISPCTRL0 + 16 * of_nat i + 4"
definition chan_dispstat :: "nat \<Rightarrow> u32" where "chan_dispstat i = SCALER_DISPCTRL0 + 16 * of_nat i + 8"
definition chan_dispbase :: "nat \<Rightarrow> u32" where "chan_dispbase i = SCALER_DISPCTRL0 + 16 * of_nat i + 12"

text \<open>\<open>timer_init\<close> is LK's \<^verbatim>\<open>timer_initialize\<close>.\<close>

definition hvs_initialize :: "('r, unit) hvs_io \<Rightarrow> ('r, unit) hvs_io" where
  "hvs_initialize timer_init = do {
     timer_init;
     reg_and SCALER_DISPCTRL (NOT SCALER_DISPCTRL_ENABLE);
     wr SCALER_DISPCTRL (SCALER_DISPCTRL_ENABLE OR 0x9a0dddff);
     for_each [0..<3] (\<lambda>i. do {
       wr (chan_dispctrl i) SCALER_DISPCTRLX_RESET;
       wr (chan_dispctrl i) 0;
       wr (chan_dispbkgnd i) 0x1020202
     });
     wr (chan_dispbase 2) (BASE_BASE 0 OR BASE_TOP 0x7f0);
     wr (chan_dispbase 1) (BASE_BASE 0xf10 OR BASE_TOP 0x50f0);
     wr (chan_dispbase 0) (BASE_BASE 0x800 OR BASE_TOP 0xf00);
     hvs_wipe_displaylist;
     wr SCALER_DISPEOLN 0x40000000
   }"

definition hvs_irq :: "u32 \<Rightarrow> ('r, handler_return) io" where
  "hvs_irq a = do { printf ''hvs interrupt'' []; return INT_NO_RESCHEDULE }"

definition hvs_setup_irq ::
  "(u32 \<Rightarrow> u32 \<Rightarrow> u32 \<Rightarrow> ('r, unit) io) \<Rightarrow> (u32 \<Rightarrow> ('r, status_t) io) \<Rightarrow> u32 \<Rightarrow> ('r, unit) io" where
  "hvs_setup_irq reg unm h = do { reg 33 h 0; _ \<leftarrow> unm 33; return () }"

definition hvs_configure_channel :: "nat \<Rightarrow> u32 \<Rightarrow> u32 \<Rightarrow> bool \<Rightarrow> ('r, unit) hvs_io" where
  "hvs_configure_channel channel width height interlaced =
     (if channel \<ge> 3 then panic ''channels index''
      else do {
        gset (\<lambda>s. s\<lparr>channels := (channels s)[channel :=
          \<lparr>ch_width = width, ch_height = height, ch_interlaced = interlaced\<rparr>]\<rparr>);
        wr (chan_dispctrl channel) SCALER_DISPCTRLX_RESET;
        wr (chan_dispctrl channel)
          (SCALER_DISPCTRLX_ENABLE OR SCALER_DISPCTRL_W width OR SCALER_DISPCTRL_H height);
        il \<leftarrow> gget (\<lambda>s. ch_interlaced (channels s ! channel));
        wr (chan_dispbkgnd channel)
          (SCALER_DISPBKGND_AUTOHS OR 0x020202 OR (if il then SCALER_DISPBKGND_INTERLACE else 0))
      })"

definition hvs_set_background_color :: "nat \<Rightarrow> u32 \<Rightarrow> ('r, unit) hvs_io" where
  "hvs_set_background_color channel color =
     (if channel \<ge> 3 then panic ''channels index''
      else do {
        il \<leftarrow> gget (\<lambda>s. ch_interlaced (channels s ! channel));
        wr (chan_dispbkgnd channel) (SCALER_DISPBKGND_FILL OR SCALER_DISPBKGND_AUTOHS OR color
          OR (if il then SCALER_DISPBKGND_INTERLACE else 0))
      })"

subsection \<open>The load of the memory\<close>


text \<open>
  Single precision numbers are their 32-bit patterns; C leaves the accuracy of the operations to
  the implementation, so they are arguments.
\<close>

record float_ops =
  float_of :: "u64 \<Rightarrow> u32"
  float_sub :: "u32 \<Rightarrow> u32 \<Rightarrow> u32"
  float_div :: "u32 \<Rightarrow> u32 \<Rightarrow> u32"
  float_to_u32 :: "u32 \<Rightarrow> u32"

text \<open>\<open>last_time\<close> is the address of the static variable; no caller is compiled in.\<close>

definition hvs_check_sdram_usage :: "float_ops \<Rightarrow> u32 \<Rightarrow> ('r, unit) io" where
  "hvs_check_sdram_usage fl last_time = do {
     idle \<leftarrow> rd SD_IDL;
     total \<leftarrow> rd SD_CYC;
     wr SD_IDL 0;
     when_io (total = 0) (panic ''Division by zero'');
     let idle_percent = (ucast ((ucast idle * 100 :: u64) div ucast total) :: u32);
     t \<leftarrow> rd ST_CLO;
     let time = float_div fl (float_of fl (ucast t)) (float_of fl 1000000);
     last \<leftarrow> rd last_time;
     let clock = float_to_u32 fl (float_div fl (float_div fl
       (float_div fl (float_of fl (ucast total)) (float_sub fl time last)) (float_of fl 1000)) (float_of fl 1000));
     wr last_time time;
     printf ''[%f] DDR2 was idle 0x%x / 0x%x cycles (%d%%) %dMHz'' [U time, U idle, U total, U idle_percent, U clock]
   }"

definition ddr2_checker :: "float_ops \<Rightarrow> u32 \<Rightarrow> ('r, handler_return) io" where
  "ddr2_checker fl last_time = do { hvs_check_sdram_usage fl last_time; return INT_NO_RESCHEDULE }"

definition bcm_host_is_model_pi4 :: bool where "bcm_host_is_model_pi4 = False"

text \<open>The weak definition; \<^verbatim>\<open>mailbox.c\<close> has its own.\<close>

definition weak_display_get_framebuffer :: "('r, int) io" where
  "weak_display_get_framebuffer = return (- 1)"

subsection \<open>The dump command\<close>

definition hvs_print_position0 :: "u32 \<Rightarrow> ('r, unit) io" where
  "hvs_print_position0 w = do {
     printf ''position0: 0x%x'' [U w];
     printf ''    x: %d y: %d'' [U (w AND 0xfff), U (drop_bit 12 w AND 0xfff)]
   }"

definition hvs_print_control2 :: "u32 \<Rightarrow> ('r, unit) io" where
  "hvs_print_control2 w = do {
     printf ''control2: 0x%x'' [U w];
     printf ''  alpha: 0x%x'' [U (drop_bit 4 w AND 0xffff)];
     printf ''  alpha mode: %d'' [U (drop_bit 30 w AND 0x3)]
   }"

definition hvs_print_word1 :: "u32 \<Rightarrow> ('r, unit) io" where
  "hvs_print_word1 w = printf ''  word1: 0x%x'' [U w]"

definition hvs_print_position2 :: "u32 \<Rightarrow> ('r, unit) io" where
  "hvs_print_position2 w = do {
     printf ''position2: 0x%x'' [U w];
     printf ''  width: %d height: %d'' [U (w AND 0xffff), U (drop_bit 16 w AND 0xfff)]
   }"

definition hvs_print_position3 :: "u32 \<Rightarrow> ('r, unit) io" where
  "hvs_print_position3 w = printf ''position3: 0x%x'' [U w]"

definition hvs_print_pointer0 :: "u32 \<Rightarrow> ('r, unit) io" where
  "hvs_print_pointer0 w = printf ''pointer word: 0x%x'' [U w]"

definition hvs_print_pointerctx0 :: "u32 \<Rightarrow> ('r, unit) io" where
  "hvs_print_pointerctx0 w = printf ''pointer context word: 0x%x'' [U w]"

definition hvs_print_pitch0 :: "u32 \<Rightarrow> ('r, unit) io" where
  "hvs_print_pitch0 w = printf ''pitch word: 0x%x'' [U w]"

definition dl :: "u32 \<Rightarrow> ('r, u32) io" where
  "dl i = rd (SCALER_LIST_MEMORY + 4 * i)"

definition dump_channel :: "nat \<Rightarrow> ('r, unit) io" where
  "dump_channel i = do {
     x \<leftarrow> rd (chan_dispctrl i);
     printf ''SCALER_DISPCTRL%d: 0x%x'' [I (int i), U x];
     x \<leftarrow> rd (chan_dispctrl i);
     printf ''  width: %d'' [U (drop_bit 12 x AND 0xfff)];
     x \<leftarrow> rd (chan_dispctrl i);
     printf ''  height: %d'' [U (x AND 0xfff)];
     x \<leftarrow> rd (chan_dispbkgnd i);
     printf ''SCALER_DISPBKGND%d: 0x%x'' [I (int i), U x];
     stat \<leftarrow> rd (chan_dispstat i);
     printf ''SCALER_DISPSTAT%d: 0x%x'' [I (int i), U stat];
     printf ''mode: %d'' [U (drop_bit 30 stat AND 0x3)];
     when_io (stat AND BV 29 \<noteq> 0) (printf ''full'' []);
     when_io (stat AND BV 28 \<noteq> 0) (printf ''empty'' []);
     printf ''unknown: 0x%x'' [U (drop_bit 18 stat AND 0x3ff)];
     printf ''frame count: %d'' [U (drop_bit 12 stat AND 0x3f)];
     printf ''line: %d'' [U (SCALER_STAT_LINE stat)];
     base \<leftarrow> rd (chan_dispbase i);
     printf ''SCALER_DISPBASE%d: base 0x%x top 0x%x'' [I (int i), U (base AND 0xffff), U (drop_bit 16 base)]
   }"

text \<open>The description of one plane; the bcm2711 branches are switched off in the source.\<close>

definition dump_plane :: "u32 \<Rightarrow> u32 \<Rightarrow> ('r, unit) io" where
  "dump_plane i words = do {
     for_each (if i \<le> i + words then [0..<unat words] else []) (\<lambda>k. do {
       w \<leftarrow> dl (i + of_nat k);
       printf ''raw dlist[%d] == 0x%x'' [U (of_nat k), U w]
     });
     w \<leftarrow> dl i; printf ''  (3:0)format: %d'' [U (w AND 0xf)];
     w \<leftarrow> dl i; when_io (w AND BV 4 \<noteq> 0) (printf ''  (4)unity'' []);
     w \<leftarrow> dl i; printf ''  (7:5)SCL0: %d'' [U (drop_bit 5 w AND 0x7)];
     w \<leftarrow> dl i; printf ''  (10:8)SCL1: %d'' [U (drop_bit 8 w AND 0x7)];
     w \<leftarrow> dl i; printf ''  (12:11)rgb expand: %d'' [U (drop_bit 11 w AND 0x3)];
     w \<leftarrow> dl i; printf ''  (14:13)pixel order: %d'' [U (drop_bit 13 w AND 0x3)];
     w \<leftarrow> dl i;
     let unity = (w AND BV 4 \<noteq> 0);
     w \<leftarrow> dl i; when_io (w AND BV 15 \<noteq> 0) (printf ''  (15)vflip'' []);
     w \<leftarrow> dl i; when_io (w AND BV 16 \<noteq> 0) (printf ''  (16)hflip'' []);
     w \<leftarrow> dl i; printf ''  (18:17)key mode: %d'' [U (drop_bit 17 w AND 0x3)];
     w \<leftarrow> dl i; when_io (w AND BV 19 \<noteq> 0) (printf ''  (19)alpha mask'' []);
     w \<leftarrow> dl i; printf ''  (21:20)tiling mode: %d'' [U (drop_bit 20 w AND 0x3)];
     printf ''  (29:24)words: %d'' [U words];
     w \<leftarrow> dl (i + 1); hvs_print_position0 w;
     let x = (if unity then i + 2 else i + 3);
     (if unity then printf ''unity scaling'' [] else do { w \<leftarrow> dl (i + 2); hvs_print_word1 w });
     w \<leftarrow> dl x; hvs_print_position2 w;
     w \<leftarrow> dl (x + 1); hvs_print_position3 w;
     w \<leftarrow> dl (x + 2); hvs_print_pointer0 w;
     w \<leftarrow> dl (x + 3); hvs_print_pointerctx0 w;
     w \<leftarrow> dl (x + 4); hvs_print_pitch0 w
   }"

definition dump_turn :: "u32 \<Rightarrow> u32 \<Rightarrow> ('r, u32 + unit) io" where
  "dump_turn list1 i =
     (if \<not> i < list1 + 64 then return (Inr ())
      else do {
        w \<leftarrow> dl i;
        printf ''dlist[%x]: 0x%x'' [U i, U w];
        w \<leftarrow> dl i;
        if w AND BV 31 \<noteq> 0 then do { printf ''(31)END'' []; return (Inr ()) }
        else do {
          w \<leftarrow> dl i;
          if w AND BV 30 \<noteq> 0 then do {
            w \<leftarrow> dl i;
            let words = drop_bit 24 w AND 0x3f;
            dump_plane i words;
            return (Inl ((if words > 1 then i + (words - 1) else i) + 1))
          } else return (Inl (i + 1))
        }
      })"

definition cmd_hvs_dump :: "('r, int) io" where
  "cmd_hvs_dump = do {
     x \<leftarrow> rd SCALER_DISPCTRL; printf ''SCALER_DISPCTRL: 0x%x'' [U x];
     x \<leftarrow> rd SCALER_DISPSTAT; printf ''SCALER_DISPSTAT: 0x%x'' [U x];
     x \<leftarrow> rd SCALER_DISPEOLN; printf ''SCALER_DISPEOLN: 0x%08x'' [U x];
     x \<leftarrow> rd SCALER_DISPLIST0; printf ''SCALER_DISPLIST0: 0x%x'' [U x];
     list1 \<leftarrow> rd SCALER_DISPLIST1; printf ''SCALER_DISPLIST1: 0x%x'' [U list1];
     x \<leftarrow> rd SCALER_DISPLIST2; printf ''SCALER_DISPLIST2: 0x%x'' [U x];
     for_each [0..<3] dump_channel;
     loop () (dump_turn list1) list1;
     return 0
   }"

subsection \<open>Library: appending words\<close>

abbreviation slot :: "'r hvs_mach_scheme \<Rightarrow> int" where "slot \<equiv> display_slot"

lemma run_emit_word:
  "running s \<Longrightarrow> run_state (emit_word w) s =
     ((), (log [Wr (dlist_addr (slot s)) w] s)\<lparr>display_slot := slot s + 1\<rparr>)"
  by (simp add: emit_word_def log_def)

lemma dlist_addr_inj: "0 \<le> i \<Longrightarrow> i < 2 ^ 30 \<Longrightarrow> 0 \<le> j \<Longrightarrow> j < 2 ^ 30 \<Longrightarrow> dlist_addr i = dlist_addr j \<longleftrightarrow> i = j"
  using mult4_inj [of "nat i" "nat j"]
  by (auto simp: dlist_addr_def nat_less_iff)

text \<open>
  \<open>grows n m\<close>: the operation returns, moves the slot up by \<open>n\<close>, and writes nothing below the
  slot it started from.  The rules compose the drawing operations.
\<close>

definition grown :: "int \<Rightarrow> 'r hvs_mach_scheme \<Rightarrow> 'r hvs_mach_scheme \<Rightarrow> bool" where
  "grown n s s' \<longleftrightarrow> (\<exists>es c. s' = (log es s)\<lparr>display_slot := slot s + n, scaled_layer_count := c\<rparr> \<and>
     (\<forall>k. 0 \<le> k \<longrightarrow> k < slot s \<longrightarrow> last_write (dlist_addr k) es = None))"

definition grows :: "int \<Rightarrow> ('r, unit) hvs_io \<Rightarrow> bool" where
  "grows n m \<longleftrightarrow> 0 \<le> n \<and> (\<forall>s. running s \<longrightarrow> 0 \<le> slot s \<longrightarrow> slot s + n < 2 ^ 30 \<longrightarrow>
     (\<exists>s'. run_state m s = ((), s') \<and> grown n s s'))"

lemma grownD:
  assumes "grown n s s'"
  shows "slot s' = slot s + n" "dev s' = dev s" "status s' = status s" "channels s' = channels s"
  using assms by (auto simp: grown_def log_def)

lemma grown_trans:
  assumes "grown a s s1" "grown b s1 s2" "0 \<le> a"
  shows "grown (a + b) s s2"
proof -
  obtain es c fs d where "s1 = (log es s)\<lparr>display_slot := slot s + a, scaled_layer_count := c\<rparr>"
    "s2 = (log fs s1)\<lparr>display_slot := slot s1 + b, scaled_layer_count := d\<rparr>"
    "\<forall>k. 0 \<le> k \<longrightarrow> k < slot s \<longrightarrow> last_write (dlist_addr k) es = None"
    "\<forall>k. 0 \<le> k \<longrightarrow> k < slot s1 \<longrightarrow> last_write (dlist_addr k) fs = None"
    using assms(1,2) unfolding grown_def by blast
  then show ?thesis using assms(3)
    unfolding grown_def by (intro exI [of _ "es @ fs"] exI [of _ d]) (simp add: log_def)
qed

lemma grows_return: "grows 0 (return ())"
  by (auto simp: grows_def grown_def log_def intro!: exI [of _ "[]"] hvs_mach.equality)

lemma grows_bind:
  fixes m :: "('r, unit) hvs_io"
  assumes "grows a m" "grows b n"
  shows "grows (a + b) (m \<bind> (\<lambda>_. n))"
  unfolding grows_def
proof (intro conjI allI impI)
  show "0 \<le> a + b" using assms by (simp add: grows_def)
  fix s :: "'r hvs_mach_scheme" assume s: "running s" "0 \<le> slot s" "slot s + (a + b) < 2 ^ 30"
  have ab: "0 \<le> a" "0 \<le> b" using assms by (simp_all add: grows_def)
  obtain s1 where 1: "run_state m s = ((), s1)" "grown a s s1"
    using assms(1) s ab unfolding grows_def by fastforce
  have "running s1" "0 \<le> slot s1" "slot s1 + b < 2 ^ 30" using grownD [OF 1(2)] s ab by simp_all
  then obtain s2 where 2: "run_state n s1 = ((), s2)" "grown b s1 s2"
    using assms(2) unfolding grows_def by blast
  have "run_state (m \<bind> (\<lambda>_. n)) s = ((), s2)" using 1 2 by simp
  with grown_trans [OF 1(2) 2(2) ab(1)]
  show "\<exists>s'. run_state (m \<bind> (\<lambda>_. n)) s = ((), s') \<and> grown (a + b) s s'" by blast
qed

lemma grows_emit: "grows 1 (emit_word w)"
  unfolding grows_def
proof (intro conjI allI impI)
  fix s :: "'a hvs_mach_scheme" assume s: "running s" "0 \<le> slot s" "slot s + 1 < 2 ^ 30"
  have "grown 1 s ((log [Wr (dlist_addr (slot s)) w] s)\<lparr>display_slot := slot s + 1\<rparr>)"
    unfolding grown_def using s dlist_addr_inj [of _ "slot s"]
    by (intro exI [of _ "[Wr (dlist_addr (slot s)) w]"] exI [of _ "scaled_layer_count s"]) (simp add: log_def)
  then show "\<exists>s'. run_state (emit_word w) s = ((), s') \<and> grown 1 s s'"
    using run_emit_word [OF s(1)] by blast
qed simp

lemma grows_printf: "grows 0 (printf f xs)"
  unfolding grows_def grown_def
  by (auto simp: log_def intro!: exI [of _ "[Print f xs]"] hvs_mach.equality)

lemma grows_count: "grows 0 (gset (\<lambda>s. s\<lparr>scaled_layer_count := g s\<rparr>))"
  unfolding grows_def grown_def
  by (auto simp: log_def intro!: exI [of _ "[]"] exI hvs_mach.equality)

lemma grows_gget: "(\<And>x. grows a (f x)) \<Longrightarrow> grows a (gget g \<bind> f)"
  by (auto simp: grows_def)

lemma grows_when: "(b \<Longrightarrow> grows a m) \<Longrightarrow> n = (if b then a else 0) \<Longrightarrow> grows n (when_io b m)"
  by (auto simp: when_io_def grows_return)

lemma grows_words: "grows (int (length ws)) (for_each ws emit_word)"
proof (induction ws)
  case (Cons w ws)
  from grows_bind [OF grows_emit [of w] Cons.IH] show ?case by (simp add: add.commute)
qed (simp add: grows_return)

lemma grows_write_tpz:
  assumes "0 < dest" "dest < source" "source < 0x10000"
  shows "grows 2 (write_tpz source dest)"
proof -
  have n: "unat dest > 0" "unat dest < unat source" "unat source < 2 ^ 16"
    using assms by (simp_all add: word_less_nat_alt)
  then have "unat (push_bit 16 1 * source) = 2 ^ 16 * unat source" by (simp add: unat_word_ariths)
  then have "unat (push_bit 16 1 * source div dest) = 2 ^ 16 * unat source div unat dest" by (simp add: unat_div)
  moreover have "unat dest \<le> 2 ^ 16 * unat source" using n by simp
  then have "2 ^ 16 * unat source div unat dest > 0" using n(1) by (simp add: div_greater_zero_iff)
  ultimately have "push_bit 16 1 * source div dest \<noteq> 0" by (metis less_numeral_extra(3) unat_0)
  then show ?thesis
    using assms(1) grows_bind [OF grows_emit grows_emit] by (auto simp: write_tpz_def Let_def)
qed

lemma grows_format: "(\<And>x. grows a (f x)) \<Longrightarrow> grows a (gfx_to_hvs_pixel_format fmt \<bind> f)"
proof -
  assume f: "\<And>x. grows a (f x)"
  have p: "grows a (printf g xs \<bind> (\<lambda>_. f x))" for g xs x
    using grows_bind [OF grows_printf f] by simp
  show ?thesis using f p by (cases fmt) (simp_all add: gfx_to_hvs_pixel_format_def State_Monad.bind_assoc)
qed

subsection \<open>Library: list headers\<close>

definition low24 :: "u32 \<Rightarrow> bool" where
  "low24 w \<longleftrightarrow> (\<forall>b \<ge> 24. \<not> bit w b)"

lemma low24_or: "low24 v \<Longrightarrow> low24 w \<Longrightarrow> low24 (v OR w)"
  by (simp add: low24_def bit_or_iff)

lemma low24I: "unat w < 2 ^ 24 \<Longrightarrow> low24 w"
  unfolding low24_def using bit_less by blast

lemma low24_parts:
  "low24 (CONTROL_PIXEL_ORDER HVS_PIXEL_ORDER_ABGR)" "low24 (if hflip then CONTROL0_HFLIP else 0)"
  "low24 CONTROL_UNITY" "low24 (CONTROL_FORMAT n)"
proof -
  show "low24 (CONTROL_FORMAT n)"
    unfolding CONTROL_FORMAT_def using word_and_le_mask [of n "0xf"] by (intro low24I) simp
qed (rule low24I; simp add: CONTROL_PIXEL_ORDER_def HVS_PIXEL_ORDER_ABGR_def reg_defs)+

lemma low24_scl: "unat c < 4 \<Longrightarrow> low24 (push_bit 5 c)" "unat c < 4 \<Longrightarrow> low24 (push_bit 8 c)"
  by (rule low24I, simp add: push_bit_eq_mult unat_word_ariths)+

text \<open>A header: valid, not the end, and its length field.\<close>

definition header :: "u32 \<Rightarrow> int \<Rightarrow> bool" where
  "header w n \<longleftrightarrow> bit w 30 \<and> \<not> bit w 31 \<and> uint (field 24 6 w) = n"

lemma header_make:
  assumes "low24 r" "0 \<le> n" "n < 64"
  shows "header (r OR (CONTROL_VALID OR CONTROL_WORDS (of_int n))) n"
proof -
  let ?w = "r OR (CONTROL_VALID OR CONTROL_WORDS (of_int n))"
  have m: "(0x3f :: u32) = mask 6" by (simp add: mask_numeral)
  have b: "bit (CONTROL_WORDS (of_int n)) k \<longleftrightarrow> 24 \<le> k \<and> k < 30 \<and> bit (of_int n :: u32) (k - 24)" for k
    unfolding CONTROL_WORDS_def m by (auto simp: bit_push_bit_iff bit_and_iff bit_mask_iff)
  have v: "bit CONTROL_VALID k \<longleftrightarrow> k = 30" for k by (simp add: CONTROL_VALID_def bit_BV)
  have "field 24 6 ?w = take_bit 6 (of_int n)"
    using assms(1) by (intro bit_word_eqI) (auto simp: bit_field bit_or_iff b v low24_def bit_take_bit_iff)
  moreover have "uint (take_bit 6 (of_int n :: u32)) = n"
  proof -
    have "uint (of_int n :: u32) = n" using assms(2,3) by (simp add: uint_word_of_int)
    moreover have "take_bit 6 n = n" using assms(2,3) by (simp add: take_bit_int_eq_self)
    ultimately show ?thesis by (simp only: unsigned_take_bit_eq)
  qed
  moreover have "bit ?w 30" "\<not> bit ?w 31" using assms(1) by (auto simp: bit_or_iff b v low24_def)
  ultimately show ?thesis by (simp add: header_def)
qed

text \<open>The list as the hardware walks it: headers from slot \<open>i\<close> lead exactly to slot \<open>j\<close>.\<close>

inductive planes :: "(int \<Rightarrow> u32) \<Rightarrow> int \<Rightarrow> int \<Rightarrow> bool" for m where
  none: "planes m i i"
| plane: "header (m i) n \<Longrightarrow> 0 < n \<Longrightarrow> planes m (i + n) j \<Longrightarrow> planes m i j"

inductive_cases planesE: "planes m i j"

lemma planes_le: "planes m i j \<Longrightarrow> i \<le> j"
  by (induction rule: planes.induct) auto

lemma planes_snoc: "planes m i j \<Longrightarrow> header (m j) n \<Longrightarrow> 0 < n \<Longrightarrow> planes m i (j + n)"
proof (induction rule: planes.induct)
  case (none i)
  then show ?case using planes.plane [of m i n "i + n"] planes.none by blast
qed (blast intro: planes.plane)

lemma planes_cong: "planes m i j \<Longrightarrow> (\<And>k. i \<le> k \<Longrightarrow> k < j \<Longrightarrow> m' k = m k) \<Longrightarrow> planes m' i j"
proof (induction rule: planes.induct)
  case (plane i n j)
  have "i < j" using plane.hyps planes_le by fastforce
  then have "m' i = m i" using plane.prems by simp
  moreover have "planes m' (i + n) j" using plane by auto
  ultimately show ?case using plane.hyps planes.plane [of m' i n j] by simp
qed (rule planes.none)

definition slots :: "'r mach_scheme \<Rightarrow> int \<Rightarrow> u32" where
  "slots s k = cur s (dlist_addr k)"

definition dlist_plain :: "device \<Rightarrow> bool" where
  "dlist_plain d \<longleftrightarrow> (\<forall>k. 0 \<le> k \<longrightarrow> k < 4096 \<longrightarrow> plain_at d (dlist_addr k))"

lemma grown_slots:
  assumes "grown n s s'" "dlist_plain (dev s)" "0 \<le> k" "k < slot s" "k < 4096"
  shows "slots s' k = slots s k"
proof -
  obtain es c where e: "s' = (log es s)\<lparr>display_slot := slot s + n, scaled_layer_count := c\<rparr>"
    "last_write (dlist_addr k) es = None"
    using assms(1,3,4) unfolding grown_def by blast
  have "cur s' (dlist_addr k) = cur (log es s) (dlist_addr k)" by (simp add: e(1) cur_def)
  also have "\<dots> = cur s (dlist_addr k)"
    using plain_cur_log [of s "dlist_addr k" es] assms(2,3,5) e(2) by (simp add: dlist_plain_def)
  finally show ?thesis by (simp add: slots_def)
qed

text \<open>What a drawing operation achieves: one more plane at the end of the list.\<close>

definition drawn :: "'r hvs_mach_scheme \<Rightarrow> 'r hvs_mach_scheme \<Rightarrow> int \<Rightarrow> bool" where
  "drawn s s' n \<longleftrightarrow> running s' \<and> dev s' = dev s \<and> slot s' = slot s + n \<and>
     header (slots s' (slot s)) n \<and> (\<forall>k. 0 \<le> k \<longrightarrow> k < slot s \<longrightarrow> slots s' k = slots s k)"

lemma emitted_header:
  assumes "running s" "dlist_plain (dev s)" "0 \<le> slot s" "slot s + (n + 1) \<le> 4096" "grows n m"
  obtains s1 where "run_state (do { emit_word w; m }) s = ((), s1)" "grown (n + 1) s s1"
    "slots s1 (slot s) = w"
proof -
  let ?t = "(log [Wr (dlist_addr (slot s)) w] s)\<lparr>display_slot := slot s + 1\<rparr>"
  have n: "0 \<le> n" using assms(5) by (simp add: grows_def)
  have t: "running ?t" "0 \<le> slot ?t" "slot ?t + n < 2 ^ 30" using assms by simp_all
  then obtain s1 where s1: "run_state m ?t = ((), s1)" "grown n ?t s1"
    using assms(5) unfolding grows_def by blast
  have g: "grown 1 s ?t"
    unfolding grown_def using assms(3,4) n dlist_addr_inj [of _ "slot s"]
    by (intro exI [of _ "[Wr (dlist_addr (slot s)) w]"] exI [of _ "scaled_layer_count s"]) (simp add: log_def)
  have p: "plain_at (dev s) (dlist_addr (slot s))" using assms(2-4) n by (simp add: dlist_plain_def)
  have "slots s1 (slot s) = slots ?t (slot s)"
    by (rule grown_slots [OF s1(2)]) (use assms n in simp_all)
  also have "\<dots> = w" using plain_cur_wr [OF p] by (simp add: slots_def cur_def log_def)
  finally have "slots s1 (slot s) = w" .
  moreover have "run_state (do { emit_word w; m }) s = ((), s1)" using run_emit_word [OF assms(1)] s1(1) by simp
  moreover have "grown (n + 1) s s1" using grown_trans [OF g s1(2)] by (simp add: add.commute)
  ultimately show thesis using that by blast
qed

subsection \<open>Library: the drawing operations\<close>

lemma run_format:
  assumes "running s"
  shows "\<exists>v es. list_all quiet es \<and> run_state (gfx_to_hvs_pixel_format fmt) s = (v, log es s)"
proof (cases fmt)
  case (GFX_FORMAT_OTHER n)
  with assms show ?thesis
    by (intro exI [of _ 0] exI [of _ "[Print ''warning, unsupported pixel format: %d'' [I n]]"])
      (simp add: gfx_to_hvs_pixel_format_def)
qed (use assms in \<open>auto simp: gfx_to_hvs_pixel_format_def intro!: exI [of _ "[]"]\<close>)

lemma slots_log_quiet:
  assumes "list_all quiet es" "dlist_plain (dev s)" "0 \<le> k" "k < 4096"
  shows "slots (log es s) k = slots s k"
  using assms plain_cur_log [of s "dlist_addr k" es] last_write_quiet
  by (simp add: slots_def dlist_plain_def)

lemma drawn_grown:
  assumes "list_all quiet es" "dlist_plain (dev s)" "running s" "0 \<le> slot s" "slot s \<le> 4096"
    and "grown n (log es s) s'" "header (slots s' (slot s)) n"
  shows "drawn s s' n"
  unfolding drawn_def
proof (intro conjI allI impI)
  have sl: "slot (log es s) = slot s" by (simp add: log_def)
  show "running s'" "dev s' = dev s" "slot s' = slot s + n"
    using grownD [OF assms(6)] assms(3) sl by simp_all
  show "header (slots s' (slot s)) n" by (rule assms(7))
  fix k assume "0 \<le> k" "k < slot s"
  then show "slots s' k = slots s k"
    using grown_slots [OF assms(6)] slots_log_quiet [OF assms(1,2)] assms(2,5) sl by simp
qed

lemma draw_plane:
  assumes "running s" "dlist_plain (dev s)" "0 \<le> slot s" "slot s + 7 \<le> 4096"
  shows "\<exists>s'. run_state (hvs_add_plane (Some f) x y hflip) s = ((), s') \<and> drawn s s' 7"
proof -
  obtain fmt es where f: "list_all quiet es" "run_state (gfx_to_hvs_pixel_format (fb_format f)) s = (fmt, log es s)"
    using run_format [OF assms(1)] by blast
  define r where "r = CONTROL_PIXEL_ORDER HVS_PIXEL_ORDER_ABGR OR (if hflip then CONTROL0_HFLIP else 0)
    OR CONTROL_UNITY OR CONTROL_FORMAT fmt"
  define ws where "ws = [POS0_X (of_int x) OR POS0_Y (of_int y) OR POS0_ALPHA 0xff,
            POS2_H (fb_height f) OR POS2_W (fb_width f), 0xDEADBEEF, fb_ptr f OR 0xc0000000, 0xDEADBEEF,
            fb_stride f * fb_pixelsize f]"
  let ?w = "r OR (CONTROL_VALID OR CONTROL_WORDS (of_int 7))"
  have "grows 6 (for_each ws emit_word)" using grows_words [of ws] by (simp add: ws_def)
  then obtain s1 where s1: "run_state (do { emit_word ?w; for_each ws emit_word }) (log es s) = ((), s1)"
    "grown 7 (log es s) s1" "slots s1 (slot (log es s)) = ?w"
    by (rule emitted_header [of "log es s" 6, rotated 4]) (use assms in \<open>simp_all add: log_def\<close>)
  have "low24 r" unfolding r_def by (intro low24_or low24_parts)
  then have h: "header (slots s1 (slot s)) 7"
    using header_make [of r 7] s1(3) by (simp add: log_def)
  have eq: "?w = CONTROL_VALID OR CONTROL_WORDS 7 OR CONTROL_PIXEL_ORDER HVS_PIXEL_ORDER_ABGR
      OR (if hflip then CONTROL0_HFLIP else 0) OR CONTROL_UNITY OR CONTROL_FORMAT fmt"
    by (simp add: r_def or.assoc or.commute or.left_commute)
  have "run_state (hvs_add_plane (Some f) x y hflip) s = ((), s1)"
    using f(2) s1(1) unfolding hvs_add_plane_def option.case eq ws_def by simp
  with drawn_grown [OF f(1) assms(2,1,3) _ s1(2) h] assms(4) show ?thesis by auto
qed

text \<open>What follows the header of a scaled plane.\<close>

definition scaled_body :: "gfx_surface \<Rightarrow> int \<Rightarrow> int \<Rightarrow> u32 \<Rightarrow> u32 \<Rightarrow> ('r, unit) hvs_io" where
  "scaled_body f x y width height = do {
     for_each [POS0_X (of_int x) OR POS0_Y (of_int y) OR POS0_ALPHA 0xff, width OR push_bit 16 height,
       POS2_H (fb_height f) OR POS2_W (fb_width f), 0xDEADBEEF, fb_ptr f OR 0x80000000, 0xDEADBEEF,
       fb_stride f * fb_pixelsize f] emit_word;
     n \<leftarrow> gget scaled_layer_count;
     emit_word (of_int (n * 720));
     gset (\<lambda>s. s\<lparr>scaled_layer_count := scaled_layer_count s + 1\<rparr>);
     when_io (mode_of (fb_width f) width = PPF) (printf ''unfinished'' []);
     when_io (mode_of (fb_height f) height = PPF) (printf ''unfinished'' []);
     when_io (mode_of (fb_width f) width = TPZ) (write_tpz (fb_width f) width);
     when_io (mode_of (fb_height f) height = TPZ)
       (do { write_tpz (fb_height f) height; emit_word 0xDEADBEEF })
   }"

definition scalable :: "gfx_surface \<Rightarrow> u32 \<Rightarrow> u32 \<Rightarrow> bool" where
  "scalable f w h \<longleftrightarrow> fb_width f \<noteq> w \<and> fb_height f \<noteq> h \<and> 0 < w \<and> 0 < h \<and>
     fb_width f < 0x10000 \<and> fb_height f < 0x10000"

definition scaled_words :: "gfx_surface \<Rightarrow> u32 \<Rightarrow> u32 \<Rightarrow> int" where
  "scaled_words f w h = 9 + (if w < fb_width f then 2 else 0) + (if h < fb_height f then 3 else 0)"

lemma grows_scaled_body:
  assumes "scalable f w h"
  shows "grows (scaled_words f w h - 1) (scaled_body f x y w h)"
proof -
  have m: "mode_of a b = TPZ \<longleftrightarrow> b < a" for a b by (auto simp: mode_of_def)
  have a: "grows 7 (for_each [w1, w2, w3, w4, w5, w6, w7] emit_word)" for w1 w2 w3 w4 w5 w6 w7
    using grows_words [of "[w1, w2, w3, w4, w5, w6, w7]"] by simp
  have tx: "grows (if w < fb_width f then 2 else 0) (when_io (mode_of (fb_width f) w = TPZ) (write_tpz (fb_width f) w))"
    by (rule grows_when [where a = 2]) (use assms m in \<open>auto simp: scalable_def intro: grows_write_tpz\<close>)
  have ty: "grows (if h < fb_height f then 3 else 0) (when_io (mode_of (fb_height f) h = TPZ)
      (do { write_tpz (fb_height f) h; emit_word 0xDEADBEEF }))"
  proof (rule grows_when [where a = 3])
    assume "mode_of (fb_height f) h = TPZ"
    then have "grows 2 (write_tpz (fb_height f) h)"
      using assms m by (auto simp: scalable_def intro: grows_write_tpz)
    from grows_bind [OF this grows_emit] show "grows 3 (do { write_tpz (fb_height f) h; emit_word 0xDEADBEEF })"
      by simp
  qed (simp add: m)
  have p: "grows 0 (when_io b (printf g xs))" for b g xs by (rule grows_when [OF grows_printf]) simp
  have eq: "scaled_words f w h - 1 = 7 + (1 + (0 + (0 + (0 + ((if w < fb_width f then 2 else 0) +
      (if h < fb_height f then 3 else 0))))))" by (simp add: scaled_words_def)
  show ?thesis unfolding eq scaled_body_def
    by (intro grows_bind [OF a] grows_gget grows_bind [OF grows_emit] grows_bind [OF grows_count]
        grows_bind [OF p] grows_bind [OF tx] ty)
qed

lemma run_scl0:
  assumes "running s" "scalable f w h"
  shows "\<exists>c. unat c < 4 \<and> run_state (scl0_of junk (mode_of (fb_width f) w) (mode_of (fb_height f) h)) s = (c, s)"
  using assms by (auto simp: scl0_of_def mode_of_def scalable_def SCALER_CTL0_SCL_H_PPF_V_PPF_def
      SCALER_CTL0_SCL_H_TPZ_V_PPF_def SCALER_CTL0_SCL_H_PPF_V_TPZ_def SCALER_CTL0_SCL_H_TPZ_V_TPZ_def)

lemma scaled_split:
  "hvs_add_plane_scaled junk (Some f) x y w h hflip = do {
     when_io (x < 0 \<or> y < 0)
       (printf ''rendering FB of size %dx%d at %dx%d, scaled down to %dx%d''
         [U (fb_width f), U (fb_height f), I x, I y, U w, U h]);
     scl0 \<leftarrow> scl0_of junk (mode_of (fb_width f) w) (mode_of (fb_height f) h);
     start \<leftarrow> gget display_slot;
     fmt \<leftarrow> gfx_to_hvs_pixel_format (fb_format f);
     _ \<leftarrow> (do {
       emit_word (CONTROL_PIXEL_ORDER HVS_PIXEL_ORDER_ABGR OR (if hflip then CONTROL0_HFLIP else 0)
         OR CONTROL_FORMAT fmt OR push_bit 5 scl0 OR push_bit 8 scl0);
       scaled_body f x y w h });
     end \<leftarrow> gget display_slot;
     reg_or (dlist_addr start) (CONTROL_VALID OR CONTROL_WORDS (of_int (end - start)))
   }"
  unfolding hvs_add_plane_scaled_def scaled_body_def option.case Let_def
  by (simp only: for_each.simps State_Monad.bind_assoc State_Monad.bind_left_identity)

lemma draw_scaled:
  assumes "running s" "dlist_plain (dev s)" "0 \<le> slot s" "slot s + 14 \<le> 4096" "scalable f w h"
  shows "\<exists>s'. run_state (hvs_add_plane_scaled junk (Some f) x y w h hflip) s = ((), s') \<and>
    drawn s s' (scaled_words f w h)"
proof -
  let ?n = "scaled_words f w h"
  have n: "0 < ?n" "?n \<le> 14" by (auto simp: scaled_words_def)
  define pr where "pr = (if x < 0 \<or> y < 0 then [Print ''rendering FB of size %dx%d at %dx%d, scaled down to %dx%d''
      [U (fb_width f), U (fb_height f), I x, I y, U w, U h]] else [])"
  have p: "list_all quiet pr" "run_state (when_io (x < 0 \<or> y < 0)
       (printf ''rendering FB of size %dx%d at %dx%d, scaled down to %dx%d''
         [U (fb_width f), U (fb_height f), I x, I y, U w, U h])) s = ((), log pr s)"
    using assms(1) by (auto simp: pr_def)
  have r0: "running (log pr s)" using assms(1) by simp
  obtain c where c: "unat c < 4" "run_state (scl0_of junk (mode_of (fb_width f) w) (mode_of (fb_height f) h)) (log pr s) = (c, log pr s)"
    using run_scl0 [OF r0 assms(5)] by blast
  obtain fmt es where f: "list_all quiet es" "run_state (gfx_to_hvs_pixel_format (fb_format f)) (log pr s) = (fmt, log es (log pr s))"
    using run_format [OF r0] by blast
  let ?t = "log (pr @ es) s"
  have st: "slot ?t = slot s" "slot (log pr s) = slot s" by (simp_all add: log_def)
  have q: "list_all quiet (pr @ es)" using p f by simp
  define w0 where "w0 = CONTROL_PIXEL_ORDER HVS_PIXEL_ORDER_ABGR OR (if hflip then CONTROL0_HFLIP else 0)
         OR CONTROL_FORMAT fmt OR push_bit 5 c OR push_bit 8 c"
  have low: "low24 w0" unfolding w0_def by (intro low24_or low24_parts low24_scl c(1))
  obtain s1 where s1: "run_state (do { emit_word w0; scaled_body f x y w h }) ?t = ((), s1)"
    "grown ?n ?t s1" "slots s1 (slot s) = w0"
    by (rule emitted_header [of ?t "?n - 1" _ w0, OF _ _ _ _ grows_scaled_body [OF assms(5)]])
      (use assms n st in simp_all)
  define v where "v = w0 OR (CONTROL_VALID OR CONTROL_WORDS (of_int ?n))"
  let ?e = "[Rd (dlist_addr (slot s)), Wr (dlist_addr (slot s)) v]"
  have g: "running s1" "dev s1 = dev s" "slot s1 = slot s + ?n" using grownD [OF s1(2)] assms(1) st by simp_all
  have "run_state (hvs_add_plane_scaled junk (Some f) x y w h hflip) s = ((), log ?e s1)"
  proof -
    obtain t1 where t1: "run_state (emit_word w0) ?t = ((), t1)" using run_unit by blast
    then have "run_state (scaled_body f x y w h) t1 = ((), s1)" using s1(1) by simp
    then show ?thesis
      unfolding scaled_split
      using p(2) c(2) f(2) s1(3) g st t1 by (simp add: w0_def [symmetric] v_def slots_def del: run_when)
  qed
  moreover have "drawn s (log ?e s1) ?n"
    unfolding drawn_def
  proof (intro conjI allI impI)
    have pl: "plain_at (dev s1) (dlist_addr k)" if "0 \<le> k" "k \<le> slot s" for k
      using assms(2,4) that by (simp add: dlist_plain_def g)
    show "header (slots (log ?e s1) (slot s)) ?n"
      using plain_cur_log [OF pl [OF assms(3)], of ?e] header_make [OF low, of ?n] n
      by (simp add: slots_def v_def)
    fix k assume k: "0 \<le> k" "k < slot s"
    then have "dlist_addr k \<noteq> dlist_addr (slot s)" using assms(4) dlist_addr_inj [of k "slot s"] by auto
    then have "slots (log ?e s1) k = slots s1 k" using plain_cur_log [OF pl, of k ?e] k by (simp add: slots_def)
    also have "\<dots> = slots ?t k" using grown_slots [OF s1(2)] assms(2,4) k st by simp
    also have "\<dots> = slots s k" using slots_log_quiet [OF q assms(2)] k assms(4) by simp
    finally show "slots (log ?e s1) k = slots s k" .
  qed (use g in \<open>simp_all add: log_def\<close>)
  ultimately show ?thesis by blast
qed

subsection \<open>Properties\<close>

text \<open>A frame is a list of drawing requests.\<close>

datatype draw_req = Unity gfx_surface int int bool | Scaled gfx_surface int int u32 u32 bool

fun draw :: "u32 \<Rightarrow> draw_req \<Rightarrow> ('r, unit) hvs_io" where
  "draw junk (Unity f x y hflip) = hvs_add_plane (Some f) x y hflip"
| "draw junk (Scaled f x y w h hflip) = hvs_add_plane_scaled junk (Some f) x y w h hflip"

fun words_of :: "draw_req \<Rightarrow> int" where
  "words_of (Unity f x y hflip) = 7"
| "words_of (Scaled f x y w h hflip) = scaled_words f w h"

fun drawable :: "draw_req \<Rightarrow> bool" where
  "drawable (Unity f x y hflip) = True"
| "drawable (Scaled f x y w h hflip) = scalable f w h"

lemma words_of_bounds: "7 \<le> words_of r" "words_of r \<le> 14"
  by (cases r; simp add: scaled_words_def)+

lemma run_draw:
  assumes "running s" "dlist_plain (dev s)" "0 \<le> slot s" "slot s + 14 \<le> 4096" "drawable r"
  shows "\<exists>s'. run_state (draw junk r) s = ((), s') \<and> drawn s s' (words_of r)"
proof -
  have "slot s + 7 \<le> 4096" using assms(4) by simp
  then show ?thesis
    using draw_plane [OF assms(1-3)] draw_scaled [OF assms(1-4)] assms(5) by (cases r) simp_all
qed

lemma words_sum: "0 \<le> sum_list (map words_of rs)" "sum_list (map words_of rs) \<le> 14 * int (length rs)"
proof (induction rs)
  case (Cons r rs)
  case 1
  then show ?case using Cons words_of_bounds [of r] by simp
  case 2
  then show ?case using Cons words_of_bounds [of r] by simp
qed simp_all

lemma draw_list:
  assumes "running s" "dlist_plain (dev s)" "0 \<le> slot s" "slot s + 14 * int (length rs) \<le> 4096"
    and "list_all drawable rs"
  shows "\<exists>s'. run_state (for_each rs (draw junk)) s = ((), s') \<and> running s' \<and> dev s' = dev s \<and>
    slot s' = slot s + sum_list (map words_of rs) \<and> planes (slots s') (slot s) (slot s') \<and>
    (\<forall>k. 0 \<le> k \<longrightarrow> k < slot s \<longrightarrow> slots s' k = slots s k)"
  using assms(4,5)
proof (induction rs rule: rev_induct)
  case Nil
  then show ?case using assms(1) by (auto intro: planes.none)
next
  case (snoc r rs)
  then obtain s1 where s1: "run_state (for_each rs (draw junk)) s = ((), s1)" "running s1" "dev s1 = dev s"
    "slot s1 = slot s + sum_list (map words_of rs)" "planes (slots s1) (slot s) (slot s1)"
    "\<forall>k. 0 \<le> k \<longrightarrow> k < slot s \<longrightarrow> slots s1 k = slots s k" by auto
  have b: "0 \<le> slot s1" "slot s1 + 14 \<le> 4096"
    using words_sum [of rs] s1(4) assms(3) snoc.prems(1) by simp_all
  obtain s2 where s2: "run_state (draw junk r) s1 = ((), s2)" "drawn s1 s2 (words_of r)"
    using run_draw [OF s1(2) _ b] s1(3) assms(2) snoc.prems(2) by auto
  have d: "running s2" "dev s2 = dev s1" "slot s2 = slot s1 + words_of r" "header (slots s2 (slot s1)) (words_of r)"
    "\<And>k. 0 \<le> k \<Longrightarrow> k < slot s1 \<Longrightarrow> slots s2 k = slots s1 k"
    using s2(2) by (auto simp: drawn_def)
  have "planes (slots s2) (slot s) (slot s1)" by (rule planes_cong [OF s1(5)]) (use d(5) assms(3) in simp)
  then have "planes (slots s2) (slot s) (slot s2)"
    using planes_snoc [of "slots s2" "slot s" "slot s1" "words_of r", OF _ d(4)] words_of_bounds(1) [of r] d(3) by simp
  moreover have "slots s2 k = slots s k" if "0 \<le> k" "k < slot s" for k
    using that s1(6) d(5) [of k] planes_le [OF s1(5)] by simp
  moreover have "run_state (for_each (rs @ [r]) (draw junk)) s = ((), s2)"
    using s1(1) s2(1) by (simp add: run_for_each_append)
  ultimately show ?case using d s1(3,4) by auto
qed

text \<open>C6.  A display list is always well formed.  Whatever planes a frame draws (unscaled, or scaled
  in both directions from a source below 65536 pixels), if they fit, the drawing returns and
  the hardware, walking from the frame's first slot by the length field of each header, visits
  valid headers only and arrives exactly at the end marker; no slot of an earlier frame changes.\<close>

theorem display_list_well_formed:
  assumes "running s" and "dlist_plain (dev s)" and "0 \<le> slot s"
    and "slot s + 14 * int (length rs) + 1 \<le> 4096" and "list_all drawable rs"
    and "run_state (do { for_each rs (draw junk); hvs_terminate_list }) s = ((), s')"
  shows "running s' \<and> slot s' = slot s + sum_list (map words_of rs) + 1 \<and>
    planes (slots s') (slot s) (slot s' - 1) \<and> slots s' (slot s' - 1) = CONTROL_END \<and>
    (\<forall>k. 0 \<le> k \<longrightarrow> k < slot s \<longrightarrow> slots s' k = slots s k)"
proof -
  obtain s1 where s1: "run_state (for_each rs (draw junk)) s = ((), s1)" "running s1" "dev s1 = dev s"
    "slot s1 = slot s + sum_list (map words_of rs)" "planes (slots s1) (slot s) (slot s1)"
    "\<forall>k. 0 \<le> k \<longrightarrow> k < slot s \<longrightarrow> slots s1 k = slots s k"
    using draw_list [OF assms(1-3) _ assms(5), of junk] assms(4) by auto
  have b: "0 \<le> slot s1" "slot s1 < 4096" using words_sum(2) [of rs] s1(4) assms(3,4) planes_le [OF s1(5)] by simp_all
  have t: "running s'" "slot s' = slot s1 + 1" "dev s' = dev s1" "bus s' = bus s1 @ [Wr (dlist_addr (slot s1)) CONTROL_END]"
    using assms(6) s1(1,2) by (auto simp: hvs_terminate_list_def run_emit_word split: if_splits)
  have c: "cur s' a = cur (log [Wr (dlist_addr (slot s1)) CONTROL_END] s1) a" for a
    using t by (simp add: cur_def)
  have p: "plain_at (dev s1) (dlist_addr k)" if "0 \<le> k" "k \<le> slot s1" for k
    using assms(2) s1(3) b that by (simp add: dlist_plain_def)
  have e: "slots s' (slot s1) = CONTROL_END" using plain_cur_wr [OF p [OF b(1)]] by (simp add: slots_def c)
  have k: "slots s' k = slots s1 k" if "0 \<le> k" "k < slot s1" for k
  proof -
    have "dlist_addr k \<noteq> dlist_addr (slot s1)" using that b dlist_addr_inj [of k "slot s1"] by auto
    then show ?thesis using plain_cur_log [OF p [of k]] that by (simp add: slots_def c)
  qed
  have "planes (slots s') (slot s) (slot s1)" by (rule planes_cong [OF s1(5)]) (use k assms(3) in simp)
  with t e k s1(4,6) planes_le [OF s1(5)] show ?thesis by auto
qed

definition hvs_boot :: "device \<Rightarrow> hvs_mach" where
  "hvs_boot d = mach.extend (boot d) \<lparr>display_slot = 0, scaled_layer_count = 0,
     channels = replicate 3 \<lparr>ch_width = 0, ch_height = 0, ch_interlaced = False\<rparr>\<rparr>"

lemma hvs_boot_simps [simp]: "dev (hvs_boot d) = d" "bus (hvs_boot d) = []" "running (hvs_boot d)"
  "slot (hvs_boot d) = 0" "channels (hvs_boot d) = replicate 3 \<lparr>ch_width = 0, ch_height = 0, ch_interlaced = False\<rparr>"
  by (simp_all add: hvs_boot_def mach.defs boot_def)

definition demo_fb :: gfx_surface where
  "demo_fb = \<lparr>fb_ptr = 0x1000, fb_format = GFX_FORMAT_ARGB_8888, fb_width = 200, fb_height = 100,
     fb_stride = 200, fb_pixelsize = 4\<rparr>"

theorem display_list_well_formed_witness:
  "\<exists>s'. run_state (do { for_each [Unity demo_fb 0 0 False, Scaled demo_fb 10 20 100 120 True] (draw 0);
       hvs_terminate_list }) (hvs_boot (memory (\<lambda>_. 0))) = ((), s') \<and>
     slot s' = 19 \<and> planes (slots s') 0 18 \<and> slots s' 18 = CONTROL_END"
proof -
  let ?rs = "[Unity demo_fb 0 0 False, Scaled demo_fb 10 20 100 120 True]"
  let ?s = "hvs_boot (memory (\<lambda>_. 0))"
  obtain s' where run: "run_state (do { for_each ?rs (draw 0); hvs_terminate_list }) ?s = ((), s')"
    using run_unit by blast
  have h: "dlist_plain (dev ?s)" "list_all drawable ?rs"
    by (simp_all add: dlist_plain_def plain_memory scalable_def demo_fb_def)
  have p: "running ?s" "0 \<le> slot ?s" "slot ?s + 14 * int (length ?rs) + 1 \<le> 4096" by simp_all
  note w = display_list_well_formed [OF p(1) h(1) p(2,3) h(2) run]
  have r: "slot s' = slot ?s + sum_list (map words_of ?rs) + 1" "planes (slots s') (slot ?s) (slot s' - 1)"
    "slots s' (slot s' - 1) = CONTROL_END" using w by blast+
  have "slot s' = 19" using r(1) by (simp add: scaled_words_def demo_fb_def)
  with r(2,3) run show ?thesis by (intro exI [of _ s']) simp
qed

end
