(* ===== verification/Pixelvalve.thy ===== *)
theory Pixelvalve
  imports Hvs
begin

unbundle bit_operations_syntax

text \<open>
  The pixel valves (\<^verbatim>\<open>pixelvalve/pv.c\<close>, \<^verbatim>\<open>pv.h\<close>), which clock the compositor's output: timings and
  interrupts.  A register structure is a base address, its fields are offsets; \<^verbatim>\<open>NULL\<close> is 0.
\<close>

subsection \<open>The code\<close>

record pv_timings =
  vfp :: u16 vsync :: u16 vbp :: u16 vactive :: u16
  hfp :: u16 hsync :: u16 hbp :: u16 hactive :: u16
  vfp_even :: u16 vsync_even :: u16 vbp_even :: u16 vactive_even :: u16
  interlaced :: bool
  clock_mux :: int

definition pv_c :: u32 where "pv_c = 0x00"
definition pv_vc :: u32 where "pv_vc = 0x04"
definition pv_horza :: u32 where "pv_horza = 0x0c"
definition pv_horzb :: u32 where "pv_horzb = 0x10"
definition pv_verta :: u32 where "pv_verta = 0x14"
definition pv_vertb :: u32 where "pv_vertb = 0x18"
definition pv_verta_even :: u32 where "pv_verta_even = 0x1c"
definition pv_vertb_even :: u32 where "pv_vertb_even = 0x20"
definition pv_int_enable :: u32 where "pv_int_enable = 0x24"
definition pv_int_status :: u32 where "pv_int_status = 0x28"
definition pv_h_active :: u32 where "pv_h_active = 0x2c"

lemmas pv_offsets = pv_c_def pv_vc_def pv_horza_def pv_horzb_def pv_verta_def pv_vertb_def
  pv_verta_even_def pv_vertb_even_def pv_int_enable_def pv_int_status_def pv_h_active_def

definition PV_CONTROL_FIFO_CLR :: u32 where [reg_defs]: "PV_CONTROL_FIFO_CLR = BV 1"
definition PV_CONTROL_EN :: u32 where [reg_defs]: "PV_CONTROL_EN = BV 0"
definition PV_INTEN_HSYNC_START :: u32 where [reg_defs]: "PV_INTEN_HSYNC_START = BV 0"
definition PV_INTEN_HBP_START :: u32 where [reg_defs]: "PV_INTEN_HBP_START = BV 1"
definition PV_INTEN_HACT_START :: u32 where [reg_defs]: "PV_INTEN_HACT_START = BV 2"
definition PV_INTEN_HFP_START :: u32 where [reg_defs]: "PV_INTEN_HFP_START = BV 3"
definition PV_INTEN_VSYNC_START :: u32 where [reg_defs]: "PV_INTEN_VSYNC_START = BV 4"
definition PV_INTEN_VBP_START :: u32 where [reg_defs]: "PV_INTEN_VBP_START = BV 5"
definition PV_INTEN_VACT_START :: u32 where [reg_defs]: "PV_INTEN_VACT_START = BV 6"
definition PV_INTEN_VFP_START :: u32 where [reg_defs]: "PV_INTEN_VFP_START = BV 7"
definition PV_INTEN_VFP_END :: u32 where [reg_defs]: "PV_INTEN_VFP_END = BV 8"
definition PV_INTEN_IDLE :: u32 where [reg_defs]: "PV_INTEN_IDLE = BV 9"

definition CLK_SELECT :: "u32 \<Rightarrow> u32" where "CLK_SELECT n = push_bit 2 (n AND 3)"
definition PV_CONTROL_CLK_SELECT_VEC :: u32 where "PV_CONTROL_CLK_SELECT_VEC = 2"
definition PIXEL_REP :: "u32 \<Rightarrow> u32" where "PIXEL_REP n = push_bit 4 (n AND 0x3)"
definition FIFO_LEVEL :: "u32 \<Rightarrow> u32" where "FIFO_LEVEL n = push_bit 15 (n AND 0x3f)"

definition getPvAddr :: "int \<Rightarrow> ('r, u32) io" where
  "getPvAddr pvnr = do {
     assert_that ''pvnr <= 2'' (pvnr \<le> 2);
     return (if pvnr = 0 then BCM_PERIPH_BASE_VIRT + 0x206000
             else if pvnr = 1 then BCM_PERIPH_BASE_VIRT + 0x207000
             else if pvnr = 2 then BCM_PERIPH_BASE_VIRT + 0x807000
             else 0)
   }"

definition getPvIrq :: "int \<Rightarrow> ('r, u32) io" where
  "getPvIrq pvnr = do {
     assert_that ''pvnr <= 2'' (pvnr \<le> 2);
     return (if pvnr = 0 then 45 else if pvnr = 1 then 46 else if pvnr = 2 then 42 else 0xffffffff)
   }"

text \<open>\<^verbatim>\<open>(a << 16) | b\<close> of two 16-bit fields.\<close>

definition pair16 :: "u16 \<Rightarrow> u16 \<Rightarrow> u32" where
  "pair16 a b = push_bit 16 (ucast a) OR ucast b"

definition setup_pixelvalve :: "pv_timings \<Rightarrow> int \<Rightarrow> ('r, unit) io" where
  "setup_pixelvalve t pvnr = do {
     rawpv \<leftarrow> getPvAddr pvnr;
     wr (rawpv + pv_c) 0;
     wr (rawpv + pv_c) (PV_CONTROL_FIFO_CLR OR PV_CONTROL_EN);
     wr (rawpv + pv_c) 0;
     wr (rawpv + pv_horza) (pair16 (hbp t) (hsync t));
     wr (rawpv + pv_horzb) (pair16 (hfp t) (hactive t));
     wr (rawpv + pv_verta) (pair16 (vbp t) (vsync t));
     wr (rawpv + pv_vertb) (pair16 (vfp t) (vactive t));
     when_io (interlaced t) (do {
       wr (rawpv + pv_verta_even) (pair16 (vbp_even t) (vsync_even t));
       wr (rawpv + pv_vertb_even) (pair16 (vfp t) (vactive_even t))
     });
     wr (rawpv + pv_vc) (BV 0 OR BV 1 OR (if interlaced t then BV 4 else 0));
     wr (rawpv + pv_h_active) (ucast (hactive t));
     let fifo_len_bytes = 64 - 3 * 6;
     wr (rawpv + pv_c) (PV_CONTROL_EN OR PV_CONTROL_FIFO_CLR OR CLK_SELECT PV_CONTROL_CLK_SELECT_VEC
       OR PIXEL_REP (1 - 1) OR BV 12 OR BV 13 OR BV 14 OR FIFO_LEVEL fifo_len_bytes)
   }"

definition setup_pv_interrupt ::
  "(u32 \<Rightarrow> u32 \<Rightarrow> u32 \<Rightarrow> ('r, unit) io) \<Rightarrow> (u32 \<Rightarrow> ('r, status_t) io) \<Rightarrow> int \<Rightarrow> u32 \<Rightarrow> u32 \<Rightarrow> ('r, unit) io" where
  "setup_pv_interrupt reg unm pvnr handler a = do {
     irq \<leftarrow> getPvIrq pvnr;
     reg irq handler a;
     _ \<leftarrow> unm irq;
     return ()
   }"

subsection \<open>Properties\<close>

lemma pair16_fields: "ucast (pair16 a b) = b" "ucast (drop_bit 16 (pair16 a b)) = a"
proof -
  show "ucast (pair16 a b) = b"
    by (rule bit_word_eqI) (auto simp: pair16_def bit_simps)
  show "ucast (drop_bit 16 (pair16 a b)) = a"
    by (rule bit_word_eqI) (auto simp: pair16_def bit_simps dest: bit_imp_le_length)
qed

text \<open>What the valve is programmed with: a field of a register as the valve reads it.\<close>

definition lo16 :: "'r mach_scheme \<Rightarrow> u32 \<Rightarrow> u16" where "lo16 s a = ucast (cur s a)"
definition hi16 :: "'r mach_scheme \<Rightarrow> u32 \<Rightarrow> u16" where "hi16 s a = ucast (drop_bit 16 (cur s a))"

text \<open>Timing set-up of pixel valve 2 (the one the firmware uses): the valve ends enabled with
  its FIFO cleared, and reads every timing of the request at its place, with one exception: for an
  interlaced mode the even field's front porch is that of the odd field, \<^verbatim>\<open>vfp_even\<close> is never
  used.\<close>

theorem pixelvalve_timings:
  assumes "running s" and "\<And>k. k < 12 \<Longrightarrow> plain_at (dev s) (base + 4 * k)"
    and "base = BCM_PERIPH_BASE_VIRT + 0x807000"
    and "run_state (setup_pixelvalve t 2) s = ((), s')"
  shows "bit (cur s' (base + pv_c)) 0 \<and> bit (cur s' (base + pv_c)) 1 \<and>
    lo16 s' (base + pv_horza) = hsync t \<and> hi16 s' (base + pv_horza) = hbp t \<and>
    lo16 s' (base + pv_horzb) = hactive t \<and> hi16 s' (base + pv_horzb) = hfp t \<and>
    lo16 s' (base + pv_verta) = vsync t \<and> hi16 s' (base + pv_verta) = vbp t \<and>
    lo16 s' (base + pv_vertb) = vactive t \<and> hi16 s' (base + pv_vertb) = vfp t \<and>
    (interlaced t \<longrightarrow> lo16 s' (base + pv_verta_even) = vsync_even t \<and> hi16 s' (base + pv_verta_even) = vbp_even t \<and>
       lo16 s' (base + pv_vertb_even) = vactive_even t \<and> hi16 s' (base + pv_vertb_even) = vfp t)"
proof -
  have p: "plain_at (dev s) (base + pv_c)" "plain_at (dev s) (base + pv_horza)" "plain_at (dev s) (base + pv_horzb)"
    "plain_at (dev s) (base + pv_verta)" "plain_at (dev s) (base + pv_vertb)"
    "plain_at (dev s) (base + pv_verta_even)" "plain_at (dev s) (base + pv_vertb_even)"
    using assms(2) [of 0] assms(2) [of 3] assms(2) [of 4] assms(2) [of 5] assms(2) [of 6] assms(2) [of 7] assms(2) [of 8]
    by (simp_all add: pv_offsets)
  define v where "v = PV_CONTROL_EN OR PV_CONTROL_FIFO_CLR OR CLK_SELECT PV_CONTROL_CLK_SELECT_VEC
       OR PIXEL_REP (1 - 1) OR BV 12 OR BV 13 OR BV 14 OR FIFO_LEVEL (64 - 3 * 6)"
  have b: "bit v 0" "bit v 1"
    by (simp_all add: v_def bit_or_iff PV_CONTROL_EN_def PV_CONTROL_FIFO_CLR_def bit_BV)
  have "\<exists>es. run_state (setup_pixelvalve t 2) s = ((), log es s) \<and>
    last_write (base + pv_c) es = Some v \<and> last_write (base + pv_horza) es = Some (pair16 (hbp t) (hsync t)) \<and>
    last_write (base + pv_horzb) es = Some (pair16 (hfp t) (hactive t)) \<and>
    last_write (base + pv_verta) es = Some (pair16 (vbp t) (vsync t)) \<and>
    last_write (base + pv_vertb) es = Some (pair16 (vfp t) (vactive t)) \<and>
    (interlaced t \<longrightarrow> last_write (base + pv_verta_even) es = Some (pair16 (vbp_even t) (vsync_even t)) \<and>
      last_write (base + pv_vertb_even) es = Some (pair16 (vfp t) (vactive_even t)))"
    by (cases "interlaced t")
      (rule exI, rule conjI, (simp add: setup_pixelvalve_def getPvAddr_def Let_def assms(1) flip: assms(3); fail),
        (intro conjI impI; simp add: pv_offsets v_def))+
  then obtain es where s': "s' = log es s" and
    w: "last_write (base + pv_c) es = Some v" "last_write (base + pv_horza) es = Some (pair16 (hbp t) (hsync t))"
    "last_write (base + pv_horzb) es = Some (pair16 (hfp t) (hactive t))"
    "last_write (base + pv_verta) es = Some (pair16 (vbp t) (vsync t))"
    "last_write (base + pv_vertb) es = Some (pair16 (vfp t) (vactive t))"
    "interlaced t \<Longrightarrow> last_write (base + pv_verta_even) es = Some (pair16 (vbp_even t) (vsync_even t)) \<and>
      last_write (base + pv_vertb_even) es = Some (pair16 (vfp t) (vactive_even t))"
    using assms(4) by auto
  show ?thesis
    using w b by (auto simp: s' lo16_def hi16_def pair16_fields plain_cur_log [OF p(1)] plain_cur_log [OF p(2)]
        plain_cur_log [OF p(3)] plain_cur_log [OF p(4)] plain_cur_log [OF p(5)] plain_cur_log [OF p(6)] plain_cur_log [OF p(7)])
qed

theorem pixelvalve_timings_witness:
  "\<exists>s' :: mach. lo16 s' (0x7e807000 + pv_horza) = 17 \<and> hi16 s' (0x7e807000 + pv_vertb_even) = 5"
proof -
  let ?t = "\<lparr>vfp = 5, vsync = 6, vbp = 7, vactive = 288, hfp = 14, hsync = 17, hbp = 20, hactive = 720,
     vfp_even = 4, vsync_even = 6, vbp_even = 8, vactive_even = 288, interlaced = True, clock_mux = 0\<rparr> :: pv_timings"
  obtain s' where run: "run_state (setup_pixelvalve ?t 2) (boot (memory (\<lambda>_. 0))) = ((), s')"
    using run_unit by blast
  have b: "0x7e807000 = BCM_PERIPH_BASE_VIRT + 0x807000" by (simp add: reg_defs)
  from pixelvalve_timings [OF _ _ b run] show ?thesis
    by (intro exI [of _ s']) (simp add: plain_memory)
qed

end
