(* ===== verification/Dance.thy ===== *)
theory Dance
  imports Pixelvalve
begin

unbundle bit_operations_syntax

text \<open>
  The sprite demo (\<^verbatim>\<open>hvs-dance/dance.c\<close>): sprites that bounce on the screen, a new display list
  per frame from the pixel valve's interrupt.  The background is a callback and \<^verbatim>\<open>rand\<close> is LK's,
  both arguments.  A frame that overflows the list memory starts over by a recursive call in
  tail position, a \<open>loop\<close> here; reading outside \<^verbatim>\<open>items\<close> stops the machine.
\<close>

subsection \<open>State\<close>

record item =
  it_x :: int
  it_y :: int
  it_xd :: int
  it_yd :: int

definition ITEMS :: nat where "ITEMS = 580"

record dance_mach = hvs_mach +
  dance_fb :: "gfx_surface option"
  items :: "item list"
  sprite_limit :: u32
  delay :: int
  screen_width :: int
  screen_height :: int
  t_hsync :: u32 t_hbp :: u32 t_hact :: u32 t_hfp :: u32
  t_vsync :: u32 t_vbp :: u32 t_vfps :: u32 t_last_vfps :: u32

type_synonym ('r, 'a) dance_io = "('r dance_mach_ext hvs_mach_ext, 'a) io"

subsection \<open>A frame\<close>

text \<open>One coordinate of a sprite: position and velocity, the screen's sz and the sprite's.\<close>

definition turn_back :: "int \<Rightarrow> int \<Rightarrow> int \<times> int \<Rightarrow> int \<times> int" where
  "turn_back screen sz = (\<lambda>(x, d). (x, if x > screen - sz then - d else d))"

definition reflect_low :: "int \<times> int \<Rightarrow> int \<times> int" where
  "reflect_low = (\<lambda>(x, d). if x < 0 then (- x, - d) else (x, d))"

definition wrap_high :: "int \<Rightarrow> int \<times> int \<Rightarrow> int \<times> int" where
  "wrap_high screen = (\<lambda>(x, d). if x > screen then (x - screen, - d) else (x, d))"

definition move1 :: "int \<Rightarrow> int \<Rightarrow> int \<times> int \<Rightarrow> int \<times> int" where
  "move1 screen sz p =
     (let (x, d) = turn_back screen sz p in wrap_high screen (reflect_low (x + d, d)))"

definition move_item :: "int \<Rightarrow> int \<Rightarrow> int \<Rightarrow> int \<Rightarrow> item \<Rightarrow> item" where
  "move_item sw sh w h it =
     (let (x, xd) = move1 sw w (it_x it, it_xd it); (y, yd) = move1 sh h (it_y it, it_yd it) in
      \<lparr>it_x = x, it_y = y, it_xd = xd, it_yd = yd\<rparr>)"

definition draw_sprite :: "u32 \<Rightarrow> nat \<Rightarrow> ('r, unit) dance_io" where
  "draw_sprite junk i =
     (if i \<ge> ITEMS then panic ''items index''
      else do {
        gset (\<lambda>s. s\<lparr>items := (items s)[i := move_item (screen_width s) (screen_height s) 100 100 (items s ! i)]\<rparr>);
        it \<leftarrow> gget (\<lambda>s. items s ! i);
        fb \<leftarrow> gget dance_fb;
        hvs_add_plane_scaled junk fb (it_x it) (it_y it) 100 100 False
      })"

text \<open>One run of \<^verbatim>\<open>do_frame_update\<close>; \<open>Inl\<close> is the recursive call.\<close>

definition frame_turn :: "u32 \<Rightarrow> ('r, unit) dance_io \<Rightarrow> int \<Rightarrow> ('r, unit + unit) dance_io" where
  "frame_turn junk background frame = do {
     d \<leftarrow> gget delay;
     if d \<noteq> 0 \<and> frame mod d \<noteq> 0 then return (Inr ())
     else do {
       limit \<leftarrow> gget sprite_limit;
       i \<leftarrow> gget display_slot;
       when_io (of_int i + limit * 14 + 1 > (4096 :: u32)) (do {
         printf ''early dlist loop %d'' [I i];
         gset (\<lambda>s. s\<lparr>display_slot := 0\<rparr>)
       });
       start \<leftarrow> gget display_slot;
       background;
       limit \<leftarrow> gget sprite_limit;
       for_each [0..<unat limit] (draw_sprite junk);
       hvs_terminate_list;
       i \<leftarrow> gget display_slot;
       if i > 4096 then do {
         printf ''dlist overflow!!!: %d'' [I i];
         gset (\<lambda>s. s\<lparr>display_slot := 0\<rparr>);
         return (Inl ())
       } else do {
         wr SCALER_DISPLIST1 (of_int start);
         gset (\<lambda>s. if display_slot s > 4000 then s\<lparr>display_slot := 0\<rparr> else s);
         return (Inr ())
       }
     }
   }"

definition do_frame_update :: "u32 \<Rightarrow> ('r, unit) dance_io \<Rightarrow> int \<Rightarrow> ('r, unit) dance_io" where
  "do_frame_update junk background frame = loop () (\<lambda>_. frame_turn junk background frame) ()"

subsection \<open>Commands\<close>





text \<open>\<^verbatim>\<open>(rand() % 5)+1\<close>: C's remainder has the sign of the dividend.\<close>

definition speed :: "int \<Rightarrow> int" where
  "speed r = sgn r * (\<bar>r\<bar> mod 5) + 1"

text \<open>\<^verbatim>\<open>fb->width\<close>, \<^verbatim>\<open>fb->height\<close>: only a sprite too far right or down reads them.\<close>

definition fb_read :: "(gfx_surface \<Rightarrow> u32) \<Rightarrow> ('r, u32) dance_io" where
  "fb_read dim = do {
     fb \<leftarrow> gget dance_fb;
     (case fb of None \<Rightarrow> do { panic ''fb''; return 0 } | Some f \<Rightarrow> return (dim f))
   }"

definition scramble_item :: "('r dance_mach_ext hvs_mach_ext, int) io \<Rightarrow> nat \<Rightarrow> ('r, unit) dance_io" where
  "scramble_item rand i = do {
     sw \<leftarrow> gget screen_width;
     sh \<leftarrow> gget screen_height;
     if sw = 0 \<or> sh = 0 then panic ''Division by zero''
     else do {
       a \<leftarrow> rand;
       b \<leftarrow> rand;
       c \<leftarrow> rand;
       d \<leftarrow> rand;
       let x = sint (of_int a mod of_int sw :: u32);
       let y = sint (of_int b mod of_int sh :: u32);
       x \<leftarrow> (if x > sw - 100 then do { w \<leftarrow> fb_read fb_width; return (sint (of_int sw - w)) } else return x);
       y \<leftarrow> (if y > sh - 100 then do { h \<leftarrow> fb_read fb_height; return (sint (of_int sh - h)) } else return y);
       gset (\<lambda>s. s\<lparr>items := (items s)[i := \<lparr>it_x = x, it_y = y, it_xd = speed c, it_yd = speed d\<rparr>]\<rparr>)
     }
   }"

definition dance_scramble :: "('r dance_mach_ext hvs_mach_ext, int) io \<Rightarrow> ('r, unit) dance_io" where
  "dance_scramble rand = do {
     for_each [0..<ITEMS] (scramble_item rand);
     gset (\<lambda>s. s\<lparr>items := (items s)[0 := \<lparr>it_x = 40, it_y = 100, it_xd = 0, it_yd = 0\<rparr>]\<rparr>)
   }"


subsection \<open>The interrupt and the start-up\<close>



definition dance_start ::
  "(u32 \<Rightarrow> u32 \<Rightarrow> u32 \<Rightarrow> ('r, unit) dance_io) \<Rightarrow> (u32 \<Rightarrow> ('r, status_t) dance_io) \<Rightarrow>
     (u32 \<Rightarrow> ('r, unit) dance_io) \<Rightarrow> ('r dance_mach_ext hvs_mach_ext, int) io \<Rightarrow> u32 \<Rightarrow>
     gfx_surface option \<Rightarrow> nat \<Rightarrow> ('r, unit) dance_io" where
  "dance_start reg unm srand rand h fbin hvs_channel = do {
     gset (\<lambda>s. s\<lparr>dance_fb := fbin\<rparr>);
     hvs_set_background_color hvs_channel 0xffffff;
     a \<leftarrow> rd (chan_dispctrl hvs_channel);
     gset (\<lambda>s. s\<lparr>screen_width := uint (drop_bit 12 a AND 0xfff)\<rparr>);
     b \<leftarrow> rd (chan_dispctrl hvs_channel);
     gset (\<lambda>s. s\<lparr>screen_height := uint (b AND 0xfff)\<rparr>);
     sw \<leftarrow> gget screen_width;
     sh \<leftarrow> gget screen_height;
     printf ''detected a %dx%d screen'' [I sw, I sh];
     t \<leftarrow> rd ST_CLO;
     srand t;
     dance_scramble rand;
     printf ''setting up pv interrupt'' [];
     rawpv \<leftarrow> getPvAddr 2;
     wr (rawpv + pv_int_enable) 0;
     wr (rawpv + pv_int_status) 0xff;
     setup_pv_interrupt reg unm 2 h 2;
     wr (rawpv + pv_int_enable) (PV_INTEN_VFP_START OR 0x3f);
     printf ''done'' []
   }"

definition dance_init :: "('r, unit) dance_io" where
  "dance_init = gset (\<lambda>s. s\<lparr>screen_width := 0x500, screen_height := 0x400\<rparr>)"

subsection \<open>Library: sprites on the screen\<close>

definition on_screen :: "int \<Rightarrow> int \<Rightarrow> item \<Rightarrow> bool" where
  "on_screen sw sh it \<longleftrightarrow> 0 \<le> it_x it \<and> it_x it \<le> sw \<and> 0 \<le> it_y it \<and> it_y it \<le> sh \<and>
     \<bar>it_xd it\<bar> \<le> 5 \<and> \<bar>it_yd it\<bar> \<le> 5"






definition sprites_ok :: "gfx_surface \<Rightarrow> int \<Rightarrow> int \<Rightarrow> 'r dance_mach_scheme \<Rightarrow> bool" where
  "sprites_ok f sw sh s \<longleftrightarrow> dance_fb s = Some f \<and> screen_width s = sw \<and> screen_height s = sh \<and>
     length (items s) = ITEMS \<and> list_all (on_screen sw sh) (items s)"


lemma sprites_ok_steady: "steady (sprites_ok f sw sh)"
  by (simp add: steady_def sprites_ok_def log_def)


lemma sprites_ok_other [simp]:
  "sprites_ok f sw sh (s\<lparr>display_slot := i\<rparr>) = sprites_ok f sw sh s"
  "sprites_ok f sw sh (s\<lparr>scaled_layer_count := j\<rparr>) = sprites_ok f sw sh s"
  "sprites_ok f sw sh (s\<lparr>sprite_limit := l\<rparr>) = sprites_ok f sw sh s"
  "sprites_ok f sw sh (s\<lparr>delay := i\<rparr>) = sprites_ok f sw sh s"
  "sprites_ok f sw sh (s\<lparr>t_hsync := t\<rparr>) = sprites_ok f sw sh s"
  "sprites_ok f sw sh (s\<lparr>t_hbp := t\<rparr>) = sprites_ok f sw sh s"
  "sprites_ok f sw sh (s\<lparr>t_hact := t\<rparr>) = sprites_ok f sw sh s"
  "sprites_ok f sw sh (s\<lparr>t_hfp := t\<rparr>) = sprites_ok f sw sh s"
  "sprites_ok f sw sh (s\<lparr>t_vsync := t\<rparr>) = sprites_ok f sw sh s"
  "sprites_ok f sw sh (s\<lparr>t_vbp := t\<rparr>) = sprites_ok f sw sh s"
  "sprites_ok f sw sh (s\<lparr>t_vfps := t\<rparr>) = sprites_ok f sw sh s"
  "sprites_ok f sw sh (s\<lparr>t_last_vfps := t\<rparr>) = sprites_ok f sw sh s"
  by (simp_all add: sprites_ok_def)


subsection \<open>Library: every operation keeps the sprites on the screen\<close>

lemmas sprites_io = keeps_io [OF sprites_ok_steady]












lemma uint_small: "0 \<le> i \<Longrightarrow> i < 2 ^ 31 \<Longrightarrow> uint (of_int i :: u32) = i"
  by (simp add: unsigned_of_int take_bit_int_eq_self)






subsection \<open>Library: how far a frame moves the slot\<close>

text \<open>\<open>moves n m\<close>: the operation returns, moves the slot up by \<open>n\<close> and keeps all but the layer count.\<close>

definition moved :: "int \<Rightarrow> 'r hvs_mach_scheme \<Rightarrow> 'r hvs_mach_scheme \<Rightarrow> bool" where
  "moved n s s' \<longleftrightarrow> (\<exists>es c. s' = (log es s)\<lparr>display_slot := slot s + n, scaled_layer_count := c\<rparr>)"

definition moves :: "int \<Rightarrow> ('r, unit) hvs_io \<Rightarrow> bool" where
  "moves n m \<longleftrightarrow> 0 \<le> n \<and> (\<forall>s. running s \<longrightarrow> 0 \<le> slot s \<longrightarrow> slot s + n < 2 ^ 30 \<longrightarrow>
     (\<exists>s'. run_state m s = ((), s') \<and> moved n s s'))"

lemma moves_grows: "grows n m \<Longrightarrow> moves n m"
  unfolding grows_def moves_def grown_def moved_def by blast

lemma movedI: "s' = (log es s)\<lparr>display_slot := slot s + n, scaled_layer_count := c\<rparr> \<Longrightarrow> moved n s s'"
  by (auto simp: moved_def)

lemma moved_trans:
  assumes "moved a s s1" "moved b s1 s2"
  shows "moved (a + b) s s2"
proof -
  obtain es c fs d where "s1 = (log es s)\<lparr>display_slot := slot s + a, scaled_layer_count := c\<rparr>"
    "s2 = (log fs s1)\<lparr>display_slot := slot s1 + b, scaled_layer_count := d\<rparr>"
    using assms unfolding moved_def by blast
  then show ?thesis by (intro movedI [where es = "es @ fs" and c = d]) (simp add: log_def)
qed

lemma movedD:
  "moved n s s' \<Longrightarrow> slot s' = slot s + n \<and> status s' = status s \<and> hvs_mach.more s' = hvs_mach.more s"
  by (auto simp: moved_def log_def)

lemma moves_bind:
  fixes m :: "('r, unit) hvs_io"
  assumes "moves a m" "moves b n"
  shows "moves (a + b) (m \<bind> (\<lambda>_. n))"
  unfolding moves_def
proof (intro conjI allI impI)
  show "0 \<le> a + b" using assms by (simp add: moves_def)
  fix s :: "'r hvs_mach_scheme" assume s: "running s" "0 \<le> slot s" "slot s + (a + b) < 2 ^ 30"
  have ab: "0 \<le> a" "0 \<le> b" using assms by (simp_all add: moves_def)
  obtain s1 where 1: "run_state m s = ((), s1)" "moved a s s1"
    using assms(1) s ab unfolding moves_def by fastforce
  have "running s1" "0 \<le> slot s1" "slot s1 + b < 2 ^ 30" using movedD [OF 1(2)] s ab by simp_all
  then obtain s2 where 2: "run_state n s1 = ((), s2)" "moved b s1 s2"
    using assms(2) unfolding moves_def by blast
  have "run_state (m \<bind> (\<lambda>_. n)) s = ((), s2)" using 1 2 by simp
  with moved_trans [OF 1(2) 2(2)]
  show "\<exists>s'. run_state (m \<bind> (\<lambda>_. n)) s = ((), s') \<and> moved (a + b) s s'" by blast
qed

lemma moves_gget: "(\<And>x. moves a (f x)) \<Longrightarrow> moves a (gget g \<bind> f)"
  by (auto simp: moves_def)

lemma moves_reg_or: "moves 0 (reg_or a v)"
proof -
  have "moved 0 s (log [Rd a, Wr a (cur s a OR v)] s)" for s :: "'a hvs_mach_scheme"
    by (rule movedI [where es = "[Rd a, Wr a (cur s a OR v)]" and c = "scaled_layer_count s"]) (simp add: log_def)
  then show ?thesis by (simp add: moves_def)
qed

lemma moves_scl0:
  assumes "scalable f w h" "\<And>x. moves a (k x)"
  shows "moves a (scl0_of junk (mode_of (fb_width f) w) (mode_of (fb_height f) h) \<bind> k)"
  using assms by (auto simp: scl0_of_def mode_of_def scalable_def)

lemma moves_format:
  assumes "\<And>x. moves a (k x)"
  shows "moves a (gfx_to_hvs_pixel_format fmt \<bind> k)"
proof -
  have "moves a (printf g xs \<bind> (\<lambda>_. k x))" for g xs x
    using moves_bind [OF moves_grows [OF grows_printf] assms] by simp
  then show ?thesis using assms by (cases fmt) (simp_all add: gfx_to_hvs_pixel_format_def State_Monad.bind_assoc)
qed

lemma moves_add_plane_scaled:
  assumes "scalable f w h"
  shows "moves (scaled_words f w h) (hvs_add_plane_scaled junk (Some f) x y w h hflip)"
proof -
  have p: "moves 0 (when_io b (printf g xs))" for b g xs
    by (rule moves_grows [OF grows_when [OF grows_printf]]) simp
  have b: "moves (scaled_words f w h) (do { emit_word v; scaled_body f x y w h })" for v
    using moves_grows [OF grows_bind [OF grows_emit grows_scaled_body [OF assms]], of v] by simp
  have r: "moves (scaled_words f w h + 0) (do { _ \<leftarrow> (do { emit_word v; scaled_body f x y w h });
      e \<leftarrow> gget display_slot; reg_or a (g e) })" for v a g
    by (intro moves_bind [OF b] moves_gget moves_reg_or)
  have "moves (0 + (scaled_words f w h + 0)) (hvs_add_plane_scaled junk (Some f) x y w h hflip)"
    unfolding scaled_split by (intro moves_bind [OF p] moves_scl0 [OF assms] moves_gget moves_format r)
  then show ?thesis by simp
qed

lemma moved_0: "moved 0 s (s\<lparr>scaled_layer_count := 0\<rparr>)" "moved 0 s s"
  by (rule movedI [where es = "[]" and c = 0]; simp)
    (rule movedI [where es = "[]" and c = "scaled_layer_count s"]; simp)

lemma moves_terminate: "moves 1 hvs_terminate_list"
proof -
  have "moves 0 (gset (\<lambda>s. if scaled_layer_count s > 10 then s\<lparr>scaled_layer_count := 0\<rparr> else s))"
    by (auto simp: moves_def moved_0)
  from moves_bind [OF moves_grows [OF grows_emit] this] show ?thesis by (simp add: hvs_terminate_list_def)
qed

text \<open>A state in which a frame is due: the image is larger than a sprite, \<open>n\<close> sprites are shown.\<close>

definition large :: "gfx_surface \<Rightarrow> bool" where
  "large f \<longleftrightarrow> 100 < fb_width f \<and> fb_width f < 0x10000 \<and> 100 < fb_height f \<and> fb_height f < 0x10000"

definition frame_due :: "gfx_surface \<Rightarrow> nat \<Rightarrow> int \<Rightarrow> 'r dance_mach_scheme \<Rightarrow> bool" where
  "frame_due f n frame s \<longleftrightarrow> running s \<and> dance_fb s = Some f \<and> unat (sprite_limit s) = n \<and> n \<le> ITEMS \<and>
     (delay s = 0 \<or> frame mod delay s = 0) \<and> 0 \<le> slot s \<and> slot s \<le> 4096"

text \<open>What drawing leaves alone.\<close>

definition same_demo :: "'r dance_mach_scheme \<Rightarrow> 'r dance_mach_scheme \<Rightarrow> bool" where
  "same_demo s s' \<longleftrightarrow> running s' = running s \<and> dance_fb s' = dance_fb s \<and>
     sprite_limit s' = sprite_limit s \<and> delay s' = delay s"

lemma moved_same: "moved n s s' \<Longrightarrow> same_demo s s' \<and> slot s' = slot s + n"
  by (auto simp: moved_def same_demo_def log_def)

lemma movesD:
  fixes m :: "('r, unit) dance_io"
  assumes "moves n m" "running s" "0 \<le> slot s" "slot s + n < 2 ^ 30"
  shows "\<exists>s'. run_state m s = ((), s') \<and> same_demo s s' \<and> slot s' = slot s + n" "0 \<le> n"
  using assms moved_same unfolding moves_def by blast+

lemma run_draw_sprite:
  fixes s :: "'r dance_mach_scheme"
  assumes "running s" "dance_fb s = Some f" "large f" "i < ITEMS" "0 \<le> slot s" "slot s + 14 < 2 ^ 30"
  shows "\<exists>s'. run_state (draw_sprite junk i) s = ((), s') \<and> same_demo s s' \<and> slot s' = slot s + 14"
proof -
  let ?s = "s\<lparr>items := (items s)[i := move_item (screen_width s) (screen_height s) 100 100 (items s ! i)]\<rparr>"
  have sc: "scalable f 100 100" "scaled_words f 100 100 = 14"
    using assms(3) by (auto simp: large_def scalable_def scaled_words_def)
  define it where "it = items ?s ! i"
  have "moves 14 (hvs_add_plane_scaled junk (Some f) (it_x it) (it_y it) 100 100 False :: ('r, unit) dance_io)"
    using moves_add_plane_scaled [OF sc(1)] sc(2) by simp
  moreover have "running ?s" "0 \<le> slot ?s" "slot ?s + 14 < 2 ^ 30" using assms(1,5,6) by simp_all
  ultimately obtain s' where
    "run_state (hvs_add_plane_scaled junk (Some f) (it_x it) (it_y it) 100 100 False) ?s = ((), s')" "moved 14 ?s s'"
    unfolding moves_def by blast
  then show ?thesis
    using moved_same [of 14 ?s s'] assms(1,2,4)
    by (intro exI [of _ s']) (simp add: draw_sprite_def it_def same_demo_def)
qed

lemma run_draw_sprites:
  fixes s :: "'r dance_mach_scheme"
  assumes "running s" "dance_fb s = Some f" "large f" "0 \<le> slot s" "slot s + 14 * int n < 2 ^ 30" "n \<le> ITEMS"
  shows "\<exists>s'. run_state (for_each [0..<n] (draw_sprite junk)) s = ((), s') \<and> same_demo s s' \<and>
    slot s' = slot s + 14 * int n"
  using assms(5,6)
proof (induction n)
  case 0
  then show ?case by (simp add: same_demo_def)
next
  case (Suc n)
  then obtain s1 where 1: "run_state (for_each [0..<n] (draw_sprite junk)) s = ((), s1)" "same_demo s s1"
    "slot s1 = slot s + 14 * int n" by auto
  obtain s2 where 2: "run_state (draw_sprite junk n) s1 = ((), s2)" "same_demo s1 s2" "slot s2 = slot s1 + 14"
    using run_draw_sprite [of s1 f n junk] 1 assms(1-4) Suc.prems by (auto simp: same_demo_def)
  then show ?case
    using 1 by (intro exI [of _ s2]) (simp add: run_for_each_append same_demo_def)
qed

lemma list_room:
  fixes limit :: u32
  assumes "0 \<le> i" "i \<le> 4096" "unat limit \<le> ITEMS"
  shows "(of_int i + limit * 14 + 1 > (4096 :: u32)) \<longleftrightarrow> i + 14 * int (unat limit) + 1 > 4096"
proof -
  have u: "uint limit = int (unat limit)" by simp
  have l: "uint limit \<le> 580" "0 \<le> uint limit" unfolding u using assms(3) by (simp_all add: ITEMS_def del: of_nat_unat)
  have "of_int i + limit * 14 + 1 = (of_int (i + uint limit * 14 + 1) :: u32)" by simp
  moreover have "0 \<le> i + uint limit * 14 + 1" "i + uint limit * 14 + 1 < 2 ^ 31" using l assms by simp_all
  ultimately have "uint (of_int i + limit * 14 + 1 :: u32) = i + uint limit * 14 + 1" using uint_small by metis
  then show ?thesis by (simp add: word_less_def mult.commute)
qed

definition frame_start :: "nat \<Rightarrow> 'r dance_mach_scheme \<Rightarrow> int" where
  "frame_start n s = (if slot s + 14 * int n + 1 > 4096 then 0 else slot s)"

lemma run_frame_turn:
  fixes s :: "'r dance_mach_scheme"
  assumes "frame_due f n frame s" "large f" "moves k background" "k \<le> 4096"
    and "e = frame_start n s + k + 14 * int n + 1"
  shows "\<exists>s'. run_state (frame_turn junk background frame) s = (if e > 4096 then Inl () else Inr (), s') \<and>
    running s' \<and> (e > 4096 \<longrightarrow> frame_due f n frame s' \<and> slot s' = 0)"
proof -
  have s: "running s" "dance_fb s = Some f" "unat (sprite_limit s) = n" "n \<le> ITEMS" "n \<le> 580" "0 \<le> slot s" "slot s \<le> 4096"
    "\<not> (delay s \<noteq> 0 \<and> frame mod delay s \<noteq> 0)"
    using assms(1) by (auto simp: frame_due_def ITEMS_def)
  define s0 where "s0 = (if slot s + 14 * int n + 1 > 4096
    then (log [Print ''early dlist loop %d'' [I (slot s)]] s)\<lparr>display_slot := 0\<rparr> else s)"
  have 0: "same_demo s s0" "slot s0 = frame_start n s" "0 \<le> slot s0" "slot s0 \<le> 4096"
    using s by (auto simp: s0_def same_demo_def frame_start_def log_def)
  have early: "run_state (when_io (of_int (slot s) + sprite_limit s * 14 + 1 > (4096 :: u32)) (do {
         printf ''early dlist loop %d'' [I (slot s)];
         gset (\<lambda>s. s\<lparr>display_slot := 0\<rparr>)
       })) s = ((), s0)"
    using list_room [of "slot s" "sprite_limit s"] s by (simp add: s0_def)
  obtain s1 where 1: "run_state background s0 = ((), s1)" "same_demo s0 s1" "slot s1 = slot s0 + k" "0 \<le> k"
    using movesD [OF assms(3), of s0] 0 s(1) assms(4) by (auto simp: same_demo_def)
  obtain s2 where 2: "run_state (for_each [0..<n] (draw_sprite junk)) s1 = ((), s2)" "same_demo s1 s2"
    "slot s2 = slot s1 + 14 * int n"
    using run_draw_sprites [of s1 f n junk] 0 1 s assms(2,4) by (auto simp: same_demo_def)
  obtain s3 where 3: "run_state hvs_terminate_list s2 = ((), s3)" "same_demo s2 s3" "slot s3 = slot s2 + 1"
    using movesD [OF moves_terminate, of s2] 0 1 2 s(1,5) assms(4) by (auto simp: same_demo_def)
  have e: "slot s3 = e" "running s3" "same_demo s s3"
    using 0 1 2 3 s assms(5) by (simp_all add: same_demo_def)
  have limit: "sprite_limit s1 = sprite_limit s" using 0(1) 1(2) by (simp add: same_demo_def)
  have run: "run_state (frame_turn junk background frame) s =
    run_state (if e > 4096 then do {
         printf ''dlist overflow!!!: %d'' [I e];
         gset (\<lambda>s. s\<lparr>display_slot := 0\<rparr>);
         return (Inl ())
       } else do {
         wr SCALER_DISPLIST1 (of_int (slot s0));
         gset (\<lambda>s. if display_slot s > 4000 then s\<lparr>display_slot := 0\<rparr> else s);
         return (Inr ())
       }) s3"
    using s(3) early 1(1) 2(1) 3(1) e(1) limit
    by (cases "delay s = 0") (use s(8) in \<open>simp_all add: frame_turn_def del: run_when\<close>)
  show ?thesis
  proof (cases "e > 4096")
    case True
    then show ?thesis
      using run e s by (auto simp: frame_due_def same_demo_def log_def)
  next
    case False
    then show ?thesis using run e by simp
  qed
qed

subsection \<open>Properties\<close>






definition still_sprites :: "item list" where
  "still_sprites = replicate 580 \<lparr>it_x = 0, it_y = 0, it_xd = 0, it_yd = 0\<rparr>"

lemma still_sprites: "length still_sprites = 580" "list_all P still_sprites \<longleftrightarrow> P \<lparr>it_x = 0, it_y = 0, it_xd = 0, it_yd = 0\<rparr>"
  unfolding still_sprites_def by (simp_all only: list_all_replicate length_replicate) simp

definition dance_boot :: "device \<Rightarrow> gfx_surface \<Rightarrow> u32 \<Rightarrow> dance_mach" where
  "dance_boot d f limit = hvs_mach.extend (hvs_boot d) \<lparr>dance_fb = Some f,
     items = still_sprites, sprite_limit = limit, delay = 0,
     screen_width = 0x500, screen_height = 0x400, t_hsync = 0, t_hbp = 0, t_hact = 0, t_hfp = 0,
     t_vsync = 0, t_vbp = 0, t_vfps = 0, t_last_vfps = 0\<rparr>"

lemma dance_boot_simps [simp]:
  "dance_fb (dance_boot d f limit) = Some f" "screen_width (dance_boot d f limit) = 0x500"
  "screen_height (dance_boot d f limit) = 0x400" "sprite_limit (dance_boot d f limit) = limit"
  "items (dance_boot d f limit) = still_sprites"
  "delay (dance_boot d f limit) = 0" "slot (dance_boot d f limit) = 0" "running (dance_boot d f limit)"
  by (simp_all add: dance_boot_def hvs_mach.defs hvs_boot_def mach.defs boot_def)


text \<open>C30.  How many sprites a frame can show.  With an image larger than a sprite, a frame that is due
  returns exactly when the background's \<open>k\<close> words, 14 words for each of the \<open>n\<close> sprites and the end
  marker fit the list memory together; otherwise \<^verbatim>\<open>do_frame_update\<close> starts over for ever, although
  the limit command admits 580 sprites.\<close>

theorem frame_returns_iff_fits:
  fixes s :: "'r dance_mach_scheme"
  assumes "frame_due f n frame s" and "large f" and "moves k background" and "k \<le> 4096"
    and "run_state (do_frame_update junk background frame) s = ((), s')"
  shows "status s' = (if k + 14 * int n + 1 \<le> 4096 then Running else Hung)"
proof (cases "k + 14 * int n + 1 \<le> 4096")
  case True
  define P where "P = (\<lambda>(_ :: unit) (s :: 'r dance_mach_scheme). frame_due f n frame s)"
  have "\<exists>y s'. run_state (do_frame_update junk background frame) s = (y, s') \<and> running s' \<and> True"
    unfolding do_frame_update_def
  proof (rule loop_total [where P = P and \<mu> = "\<lambda>_ s. if slot s = 0 then 0 else 1"])
    show "running s" "P () s" using assms(1) by (simp_all add: P_def frame_due_def)
    fix x and s :: "'r dance_mach_scheme" assume "P x s" "running s"
    then obtain s1 where s1: "run_state (frame_turn junk background frame) s =
        (if frame_start n s + k + 14 * int n + 1 > 4096 then Inl () else Inr (), s1)" "running s1"
      "frame_start n s + k + 14 * int n + 1 > 4096 \<longrightarrow> frame_due f n frame s1 \<and> slot s1 = 0"
      using run_frame_turn [OF _ assms(2-4) refl, of n frame s junk] by (auto simp: P_def)
    have "slot s \<noteq> 0" if "frame_start n s + k + 14 * int n + 1 > 4096"
      using that True by (auto simp: frame_start_def split: if_splits)
    with s1 show "(\<exists>y s1. run_state (frame_turn junk background frame) s = (Inr y, s1) \<and> running s1 \<and> True) \<or>
      (\<exists>x' s1. run_state (frame_turn junk background frame) s = (Inl x', s1) \<and> running s1 \<and> P x' s1 \<and>
        (if slot s1 = 0 then 0 else 1 :: nat) < (if slot s = 0 then 0 else 1))"
      by (simp add: P_def)
  qed
  with True assms(5) show ?thesis by auto
next
  case False
  have no: "iterates (\<lambda>_. frame_turn junk background frame) x s r s' \<Longrightarrow> frame_due f n frame s \<Longrightarrow> \<not> running s \<or> False"
    for x r and s s' :: "'r dance_mach_scheme"
  proof (induction rule: iterates.induct)
    case (finish x s y s')
    then show ?case
      using run_frame_turn [OF finish(2) assms(2-4) refl, of junk] False
      by (auto simp: frame_start_def frame_due_def split: if_splits)
  next
    case (stop x s x' s')
    then show ?case using run_frame_turn [OF stop(3) assms(2-4) refl, of junk] by auto
  next
    case (again x s x' s' r s'')
    then show ?case
      using run_frame_turn [OF again(5) assms(2-4) refl, of junk] by (auto split: if_splits)
  qed
  have "running s" using assms(1) by (simp add: frame_due_def)
  moreover have "\<not> iterates (\<lambda>_. frame_turn junk background frame) () s r s'" for r s'
    using no assms(1) \<open>running s\<close> by blast
  ultimately have "run_state (do_frame_update junk background frame) s = ((), s\<lparr>status := Hung\<rparr>)"
    unfolding do_frame_update_def by (rule loop_hangs)
  with False assms(5) show ?thesis by auto
qed

theorem frame_returns_iff_fits_witness:
  "\<exists>s' t'. run_state (do_frame_update 0 (return ()) 0) (dance_boot (memory (\<lambda>_. 0)) (demo_fb\<lparr>fb_height := 200\<rparr>) 292) = ((), s') \<and>
     status s' = Running \<and>
     run_state (do_frame_update 0 (return ()) 0) (dance_boot (memory (\<lambda>_. 0)) (demo_fb\<lparr>fb_height := 200\<rparr>) 293) = ((), t') \<and>
     status t' = Hung"
proof -
  let ?f = "demo_fb\<lparr>fb_height := 200\<rparr>"
  let ?s = "\<lambda>l. dance_boot (memory (\<lambda>_. 0)) ?f l"
  obtain s' where s: "run_state (do_frame_update 0 (return ()) 0) (?s 292) = ((), s')" using run_unit by blast
  obtain t' where t: "run_state (do_frame_update 0 (return ()) 0) (?s 293) = ((), t')" using run_unit by blast
  have f: "large ?f" by (simp add: large_def demo_fb_def)
  have m: "moves 0 (return ())" by (rule moves_grows [OF grows_return])
  have d: "frame_due ?f 292 0 (?s 292)" "frame_due ?f 293 0 (?s 293)" by (simp_all add: frame_due_def ITEMS_def)
  show ?thesis
    using frame_returns_iff_fits [OF d(1) f m _ s] frame_returns_iff_fits [OF d(2) f m _ t] s t
    by (intro exI [of _ s'] exI [of _ t']) simp
qed

end
