(* ===== verification/Stage1.thy ===== *)
theory Stage1
  imports Uart
begin

unbundle bit_operations_syntax

text \<open>
  The first stage (\<^verbatim>\<open>app/vc4-stage1/stage1.c\<close>): it receives the second stage over the serial line by
  XMODEM, or loads it from the SD card, and jumps to it.  LK's file systems, ELF loader, threads,
  heap and console stream are not part of this repository; they are the fields of \<open>lk_ops\<close>.  A
  handle, file or entry address is a word.  \<^verbatim>\<open>free\<close> has no effect the model could see.
\<close>

subsection \<open>LK's operations\<close>

record 'r lk_ops =
  io_read :: "nat \<Rightarrow> ('r, int \<times> u8 list) io"       \<comment> \<open>result and the bytes put in the buffer\<close>
  io_write :: "u8 list \<Rightarrow> ('r, unit) io"
  malloc :: "nat \<Rightarrow> ('r, u8 list) io"               \<comment> \<open>the block's content\<close>
  elf_open_handle_memory :: "u8 list \<Rightarrow> int \<Rightarrow> ('r, int \<times> u32) io"
  elf_open_handle :: "u32 \<Rightarrow> ('r, int \<times> u32) io"
  elf_load :: "u32 \<Rightarrow> ('r, int) io"
  elf_close_handle :: "u32 \<Rightarrow> ('r, unit) io"
  elf_entry :: "u32 \<Rightarrow> ('r, u32) io"
  fs_mount :: "string \<Rightarrow> string \<Rightarrow> string \<Rightarrow> ('r, int) io"
  fs_open_file :: "string \<Rightarrow> ('r, int \<times> u32) io"
  fs_close_file :: "u32 \<Rightarrow> ('r, unit) io"
  rpi_sdhost_init :: "('r, unit) io"
  partition_publish :: "string \<Rightarrow> u32 \<Rightarrow> ('r, unit) io"
  arch_chain_load :: "u32 \<Rightarrow> ('r, unit) io"
  sdram_init :: "('r, unit) io"
  novm_add_arena :: "string \<Rightarrow> u32 \<Rightarrow> u32 \<Rightarrow> ('r, unit) io"
  wait_queue_wake_all :: "u8 \<Rightarrow> ('r, unit) io"
  wait_queue_block :: "u32 \<Rightarrow> ('r, int) io"
  start_waker :: "('r, unit) io"                    \<comment> \<open>\<^verbatim>\<open>thread_create\<close>, \<^verbatim>\<open>thread_resume\<close>\<close>

subsection \<open>Loading from a file\<close>

definition UNCACHED_RAM :: u32 where "UNCACHED_RAM = 0xc0000000"
definition MB :: u32 where "MB = 1024 * 1024"

definition stage2_dram_init :: "'r lk_ops \<Rightarrow> ('r, unit) io" where
  "stage2_dram_init lk = do {
     sdram_init lk;
     novm_add_arena lk ''dram'' (UNCACHED_RAM OR 1 * MB) (10 * MB)
   }"

definition stage2_init :: "('r, unit) io" where
  "stage2_init = printf ''stage2_init'' []"

definition waker_entry :: "'r lk_ops \<Rightarrow> ('r, int \<times> u8) io \<Rightarrow> ('r, int) io" where
  "waker_entry lk dgetc = do {
     (ret, c) \<leftarrow> dgetc;
     if ret \<noteq> 0 then do { printf ''failed to getc'' []; return 0 }
     else do {
       when_io (c = of_char CHR ''X'') (do {
         printf ''got char 0x%x'' [U (u32_of8 c)];
         wait_queue_wake_all lk c
       });
       return 0
     }
   }"

text \<open>After a failed load the C function returns without a value: the caller reads \<open>junk\<close>.\<close>

definition load_and_run_elf :: "'r lk_ops \<Rightarrow> u32 \<Rightarrow> u32 \<Rightarrow> ('r, u32) io" where
  "load_and_run_elf lk junk elf = do {
     ret \<leftarrow> elf_load lk elf;
     if ret \<noteq> 0 then do {
       printf ''failed to load elf: %d'' [I ret];
       return junk
     } else do {
       elf_close_handle lk elf;
       elf_entry lk elf
     }
   }"

definition load_stage2 :: "'r lk_ops \<Rightarrow> u32 \<Rightarrow> ('r, unit) io" where
  "load_stage2 lk junk = do {
     rpi_sdhost_init lk;
     partition_publish lk ''sdhost'' 0;
     ret \<leftarrow> fs_mount lk ''/root'' ''ext2'' ''sdhostp1'';
     if ret \<noteq> 0 then printf ''mount failure: %d'' [I ret]
     else do {
       (ret, stage2) \<leftarrow> fs_open_file lk ''/root/lk.elf'';
       if ret \<noteq> 0 then printf ''open failed: %d'' [I ret]
       else do {
         (ret, elf) \<leftarrow> elf_open_handle lk stage2;
         if ret \<noteq> 0 then printf ''failed to elf open: %d'' [I ret]
         else do {
           entry \<leftarrow> load_and_run_elf lk junk elf;
           fs_close_file lk stage2;
           arch_chain_load lk entry
         }
       }
     }
   }"

subsection \<open>XMODEM\<close>

record xmodem_packet =
  magic :: u8
  block_num :: u8
  block_num_invert :: u8
  payload :: "u8 list"
  checksum :: u8

text \<open>The packet structure over the bytes read: the first, and the 131 others.\<close>

definition packet_of :: "u8 \<Rightarrow> u8 list \<Rightarrow> xmodem_packet" where
  "packet_of m bs = \<lparr>magic = m, block_num = bs ! 0, block_num_invert = bs ! 1,
     payload = take 128 (drop 2 bs), checksum = bs ! 130\<rparr>"

definition read_repeat :: "'r lk_ops \<Rightarrow> int \<Rightarrow> ('r, int \<times> u8 list) io" where
  "read_repeat lk len = loop (0, [])
     (\<lambda>(got, total_read, len). do {
        (ret, bs) \<leftarrow> io_read lk (nat len);
        if ret > 0 then
          (if len - ret \<le> 0 then return (Inr (total_read + ret, got @ bs))
           else return (Inl (got @ bs, total_read + ret, len - ret)))
        else return (Inr (-1, got))
      }) ([], 0, len)"

text \<open>\<^verbatim>\<open>memcpy(buffer + off, src, 128)\<close>; a write outside the block stops the machine.\<close>

definition copy_block :: "u8 list \<Rightarrow> int \<Rightarrow> u8 list \<Rightarrow> ('r, u8 list) io" where
  "copy_block buffer off src =
     (if 0 \<le> off \<and> off + 128 \<le> int (length buffer)
      then return (take (nat off) buffer @ src @ drop (nat off + 128) buffer)
      else do { panic ''buffer''; return buffer })"

definition ACK :: u8 where "ACK = 6"
definition NAK :: u8 where "NAK = 0x15"

definition handle_packet :: "'r lk_ops \<Rightarrow> xmodem_packet \<Rightarrow> u8 list \<times> int \<Rightarrow> ('r, u8 list \<times> int) io" where
  "handle_packet lk p = (\<lambda>(buffer, blockNr). do {
     let sum = foldl (+) 0 (payload p);
     (buffer, blockNr, fail) \<leftarrow>
       (if checksum p = sum then
          if uint (block_num_invert p) = 255 - uint (block_num p) then
            if uint (block_num p) = take_bit 8 blockNr then do {
              buffer \<leftarrow> copy_block buffer (128 * (blockNr - 1)) (payload p);
              io_write lk [ACK];
              return (buffer, blockNr + 1, False)
            }
            else if uint (block_num p) = take_bit 8 (blockNr - 1) then do {
              io_write lk [ACK];
              return (buffer, blockNr, True)
            }
            else do { io_write lk [NAK]; return (buffer, blockNr, True) }
          else do { io_write lk [NAK]; return (buffer, blockNr, True) }
        else do { io_write lk [NAK]; return (buffer, blockNr, True) });
     when_io fail (printf ''got packet: %d %d %d %d/%d''
       [U (u32_of8 (magic p)), U (u32_of8 (block_num p)), U (u32_of8 (block_num_invert p)),
        U (u32_of8 (checksum p)), U (u32_of8 sum)]);
     return (buffer, blockNr)
   })"

text \<open>One turn of the receiver; the result of the loop is \<^verbatim>\<open>ret\<close>, \<^verbatim>\<open>success\<close>, the buffer and \<^verbatim>\<open>blockNr\<close>.\<close>

definition xmodem_turn ::
  "'r lk_ops \<Rightarrow> u8 list \<times> int \<Rightarrow> ('r, (u8 list \<times> int) + (int \<times> bool \<times> u8 list \<times> int)) io" where
  "xmodem_turn lk = (\<lambda>(buffer, blockNr). do {
     (ret, bs) \<leftarrow> io_read lk 1;
     if ret \<noteq> 1 then return (Inr (ret, False, buffer, blockNr))
     else if bs ! 0 = 4 then do {
       printf ''R: EOF!'' [];
       return (Inr (ret, True, buffer, blockNr))
     } else do {
       (ret, rs) \<leftarrow> read_repeat lk (132 - 1);
       if ret \<noteq> 132 - 1 then do {
         printf ''read error'' [];
         return (Inr (ret, False, buffer, blockNr))
       } else do {
         st \<leftarrow> handle_packet lk (packet_of (bs ! 0) rs) (buffer, blockNr);
         return (Inl st)
       }
     }
   })"

definition boot_image :: "'r lk_ops \<Rightarrow> u32 \<Rightarrow> u8 list \<Rightarrow> int \<Rightarrow> ('r, unit) io" where
  "boot_image lk junk buffer len = do {
     (ret, elf) \<leftarrow> elf_open_handle_memory lk buffer len;
     if ret \<noteq> 0 then printf ''failed to elf open: %d'' [I ret]
     else do {
       entry \<leftarrow> load_and_run_elf lk junk elf;
       arch_chain_load lk entry
     }
   }"

definition xmodem_receive :: "'r lk_ops \<Rightarrow> u32 \<Rightarrow> ('r, unit) io" where
  "xmodem_receive lk junk = do {
     buffer \<leftarrow> malloc lk (unat (2 * MB));
     io_write lk [NAK];
     (ret, success, buffer, blockNr) \<leftarrow> loop (0, False, [], 0) (xmodem_turn lk) (buffer, 1);
     printf ''final ret was %ld'' [I ret];
     if success then boot_image lk junk buffer (blockNr * 128) else return ()
   }"

definition stage2_entry :: "'r lk_ops \<Rightarrow> u32 \<Rightarrow> ('r, unit) io" where
  "stage2_entry lk junk = do {
     printf ''stage2 entry'' [];
     printf ''press X to stop autoboot and go into xmodem mode...'' [];
     start_waker lk;
     ret \<leftarrow> wait_queue_block lk 10000;
     printf ''wait result: %d'' [I ret];
     if ret = of_char CHR ''X'' then do {
       printf ''going into xmodem mode'' [];
       rsts \<leftarrow> rd PM_RSTS;
       printf ''%x'' [U rsts];
       xmodem_receive lk junk
     } else load_stage2 lk junk
   }"

subsection \<open>Library: the serial line\<close>

text \<open>
  What the receiver relies on: a read delivers at least one and at most the requested number of
  the next bytes of the line, while there are any; a write sends its bytes and consumes nothing;
  neither stops the machine, and a stopped machine does not write.
\<close>

definition serial_line :: "'r lk_ops \<Rightarrow> ('r mach_scheme \<Rightarrow> u8 list) \<Rightarrow> ('r mach_scheme \<Rightarrow> u8 list) \<Rightarrow> bool" where
  "serial_line lk rest sent \<longleftrightarrow>
     (\<forall>s es. rest (log es s) = rest s \<and> sent (log es s) = sent s) \<and>
     (\<forall>s n. running s \<longrightarrow> 0 < n \<longrightarrow> rest s \<noteq> [] \<longrightarrow>
        (\<exists>k s'. 1 \<le> k \<and> k \<le> n \<and> k \<le> length (rest s) \<and>
           run_state (io_read lk n) s = ((int k, take k (rest s)), s') \<and>
           running s' \<and> rest s' = drop k (rest s) \<and> sent s' = sent s)) \<and>
     (\<forall>s bs. running s \<longrightarrow> (\<exists>s'. run_state (io_write lk bs) s = ((), s') \<and>
        running s' \<and> rest s' = rest s \<and> sent s' = sent s @ bs)) \<and>
     (\<forall>s bs. \<not> running s \<longrightarrow> run_state (io_write lk bs) s = ((), s))"

lemma line_log: "serial_line lk rest sent \<Longrightarrow> rest (log es s) = rest s"
  "serial_line lk rest sent \<Longrightarrow> sent (log es s) = sent s"
  unfolding serial_line_def by blast+

lemma line_read:
  assumes "serial_line lk rest sent" "running s" "0 < n" "rest s \<noteq> []"
  obtains k s' where "1 \<le> k" "k \<le> n" "k \<le> length (rest s)"
    "run_state (io_read lk n) s = ((int k, take k (rest s)), s')"
    "running s'" "rest s' = drop k (rest s)" "sent s' = sent s"
  using assms unfolding serial_line_def by blast

lemma line_write:
  assumes "serial_line lk rest sent" "running s"
  obtains s' where "run_state (io_write lk bs) s = ((), s')" "running s'" "rest s' = rest s" "sent s' = sent s @ bs"
  using assms unfolding serial_line_def by blast

lemma line_write_stopped: "serial_line lk rest sent \<Longrightarrow> \<not> running s \<Longrightarrow> run_state (io_write lk bs) s = ((), s)"
  unfolding serial_line_def by blast

lemma run_read_repeat:
  assumes line: "serial_line lk rest sent" and "running s" "0 < n" "n \<le> length (rest s)"
  shows "\<exists>s'. run_state (read_repeat lk (int n)) s = ((int n, take n (rest s)), s') \<and>
    running s' \<and> rest s' = drop n (rest s) \<and> sent s' = sent s"
proof -
  let ?body = "\<lambda>(got, total_read, len). do {
        (ret, bs) \<leftarrow> io_read lk (nat len);
        if ret > 0 then
          (if len - ret \<le> 0 then return (Inr (total_read + ret, got @ bs))
           else return (Inl (got @ bs, total_read + ret, len - ret)))
        else return (Inr (-1, got))
      }"
  define P where "P = (\<lambda>(got, total_read, len) t. \<exists>k. k < n \<and> got = take k (rest s) \<and> total_read = int k \<and>
    len = int (n - k) \<and> rest t = drop k (rest s) \<and> sent t = sent s)"
  have "\<exists>y s'. run_state (loop (0, []) ?body ([], 0, int n)) s = (y, s') \<and> running s' \<and>
    (y = (int n, take n (rest s)) \<and> rest s' = drop n (rest s) \<and> sent s' = sent s)"
  proof (rule loop_total [where P = P and \<mu> = "\<lambda>x t. case x of (got, total_read, len) \<Rightarrow> nat len"])
    show "P ([], 0, int n) s" using assms(3) by (auto simp: P_def)
    fix x t assume P: "P x t" and t: "running t"
    obtain k where x: "x = (take k (rest s), int k, int (n - k))" and k: "k < n"
      "rest t = drop k (rest s)" "sent t = sent s"
      using P by (cases x) (auto simp: P_def)
    have "rest t \<noteq> []" using k assms(4) by simp
    then obtain j t' where j: "1 \<le> j" "j \<le> n - k" "j \<le> length (rest t)"
      "run_state (io_read lk (n - k)) t = ((int j, take j (rest t)), t')"
      "running t'" "rest t' = drop j (rest t)" "sent t' = sent t"
      using line_read [OF line t] k(1) by (metis zero_less_diff)
    have tk: "take k (rest s) @ take j (rest t) = take (k + j) (rest s)" using k(2) by (simp add: take_add)
    have more: "k + j < n \<Longrightarrow> P (take (k + j) (rest s), int (k + j), int (n - (k + j))) t'"
      unfolding P_def using j k by (auto simp: add.commute)
    have run: "run_state (?body x) t = (if k + j < n
        then Inl (take (k + j) (rest s), int (k + j), int (n - (k + j))) else Inr (int n, take n (rest s)), t')"
    proof (cases "k + j < n")
      case True
      then have "int (n - k) - int j = int (n - (k + j))" "\<not> int (n - (k + j)) \<le> 0" by linarith+
      with True j k tk show ?thesis by (simp add: x del: of_nat_diff)
    next
      case False
      then have "j = n - k" using j(2) k(1) by simp
      with j k tk show ?thesis by (simp add: x del: of_nat_diff)
    qed
    show "(\<exists>y s1. run_state (?body x) t = (Inr y, s1) \<and> running s1 \<and>
        (y = (int n, take n (rest s)) \<and> rest s1 = drop n (rest s) \<and> sent s1 = sent s)) \<or>
      (\<exists>x' s1. run_state (?body x) t = (Inl x', s1) \<and> running s1 \<and> P x' s1 \<and>
        (case x' of (got, total_read, len) \<Rightarrow> nat len) < (case x of (got, total_read, len) \<Rightarrow> nat len))"
    proof (cases "k + j < n")
      case True
      then have "n - (k + j) < n - k" using j(1) by linarith
      with more [OF True] True j(5) show ?thesis unfolding run by (simp add: x del: of_nat_diff)
    next
      case False
      then have "k + j = n" using j(2) k(1) by simp
      with False j(5-7) k show ?thesis unfolding run by (simp add: add.commute)
    qed
  qed (use assms in simp_all)
  then show ?thesis by (auto simp: read_repeat_def)
qed

subsection \<open>Library: packets\<close>

definition encode :: "xmodem_packet \<Rightarrow> u8 list" where
  "encode p = magic p # block_num p # block_num_invert p # payload p @ [checksum p]"

definition framed :: "xmodem_packet \<Rightarrow> bool" where
  "framed p \<longleftrightarrow> length (payload p) = 128 \<and> magic p \<noteq> 4"

definition valid :: "xmodem_packet \<Rightarrow> bool" where
  "valid p \<longleftrightarrow> checksum p = foldl (+) 0 (payload p) \<and> uint (block_num_invert p) = 255 - uint (block_num p)"

definition numbered :: "int \<Rightarrow> xmodem_packet \<Rightarrow> bool" where
  "numbered n p \<longleftrightarrow> uint (block_num p) = take_bit 8 n"

lemma packet_of_encode: "length (payload p) = 128 \<Longrightarrow> packet_of (magic p) (tl (encode p)) = p"
  by (simp add: packet_of_def encode_def nth_append)

lemma run_turn_eof:
  assumes "serial_line lk rest sent" "running s" "rest s = 4 # xs"
  shows "\<exists>s'. run_state (xmodem_turn lk (buf, nr)) s = (Inr (1, True, buf, nr), s') \<and>
    running s' \<and> rest s' = xs \<and> sent s' = sent s"
proof -
  obtain k s1 where 1: "1 \<le> k" "k \<le> 1" "run_state (io_read lk 1) s = ((int k, take k (rest s)), s1)"
    "running s1" "rest s1 = drop k (rest s)" "sent s1 = sent s"
    by (rule line_read [OF assms(1,2), of 1]) (use assms(3) in auto)
  then have "k = 1" by simp
  with 1 assms(3) show ?thesis
    by (simp add: xmodem_turn_def line_log [OF assms(1)])
qed

lemma run_turn_packet:
  assumes line: "serial_line lk rest sent" and "running s" "rest s = encode p @ xs" "framed p"
  shows "\<exists>s1. run_state (xmodem_turn lk (buf, nr)) s = map_prod Inl id (run_state (handle_packet lk p (buf, nr)) s1) \<and>
    running s1 \<and> rest s1 = xs \<and> sent s1 = sent s"
proof -
  have f: "length (payload p) = 128" "magic p \<noteq> 4" using assms(4) by (simp_all add: framed_def)
  have r: "rest s = magic p # tl (encode p) @ xs" using assms(3) by (simp add: encode_def)
  have l: "length (tl (encode p)) = 131" using f by (simp add: encode_def)
  obtain k s1 where 1: "1 \<le> k" "k \<le> 1" "run_state (io_read lk 1) s = ((int k, take k (rest s)), s1)"
    "running s1" "rest s1 = drop k (rest s)" "sent s1 = sent s"
    by (rule line_read [OF assms(1,2), of 1]) (use r in auto)
  then have k: "k = 1" by simp
  have r1: "rest s1 = tl (encode p) @ xs" using 1(5) r k by simp
  obtain s2 where 2: "run_state (read_repeat lk (int 131)) s1 = ((int 131, take 131 (rest s1)), s2)"
    "running s2" "rest s2 = drop 131 (rest s1)" "sent s2 = sent s1"
    using run_read_repeat [OF line 1(4), of 131] r1 l by auto
  have t: "take 131 (rest s1) = tl (encode p)" "drop 131 (rest s1) = xs" using r1 l by simp_all
  have "run_state (xmodem_turn lk (buf, nr)) s = map_prod Inl id (run_state (handle_packet lk p (buf, nr)) s2)"
    using 1(3) 2(1) r k t f packet_of_encode [OF f(1)]
    by (simp add: xmodem_turn_def map_prod_def split_beta)
  with 1(6) 2 t show ?thesis by auto
qed

lemma handle_next:
  assumes line: "serial_line lk rest sent" and "running s" "valid p" "numbered nr p" "1 \<le> nr" "128 * nr \<le> int (length buf)"
  shows "\<exists>s'. run_state (handle_packet lk p (buf, nr)) s =
      ((take (nat (128 * (nr - 1))) buf @ payload p @ drop (nat (128 * (nr - 1)) + 128) buf, nr + 1), s') \<and>
    running s' \<and> rest s' = rest s \<and> sent s' = sent s @ [ACK]"
proof -
  obtain s' where "run_state (io_write lk [ACK]) s = ((), s')" "running s'" "rest s' = rest s" "sent s' = sent s @ [ACK]"
    by (rule line_write [OF line assms(2)])
  with assms(2-6) show ?thesis
    by (simp add: handle_packet_def copy_block_def valid_def numbered_def Let_def)
qed

lemma handle_full:
  assumes line: "serial_line lk rest sent" and "running s" "valid p" "numbered nr p" "int (length buf) < 128 * nr"
  shows "\<exists>st s'. run_state (handle_packet lk p (buf, nr)) s = (st, s') \<and> status s' = Panicked ''buffer''"
  using assms(2-5) line_write_stopped [OF line]
  by (simp add: handle_packet_def copy_block_def valid_def numbered_def Let_def)

lemma handle_other:
  assumes line: "serial_line lk rest sent" and "running s" "\<not> (valid p \<and> numbered nr p)"
  shows "\<exists>s'. run_state (handle_packet lk p (buf, nr)) s = ((buf, nr), s') \<and> running s' \<and> rest s' = rest s \<and>
    sent s' = sent s @ [if valid p \<and> numbered (nr - 1) p then ACK else NAK]"
proof -
  define r where "r = (if valid p \<and> numbered (nr - 1) p then ACK else NAK)"
  obtain s' where "run_state (io_write lk [r]) s = ((), s')" "running s'" "rest s' = rest s" "sent s' = sent s @ [r]"
    by (rule line_write [OF line assms(2)])
  with assms(3) show ?thesis unfolding r_def
    by (auto simp: handle_packet_def valid_def numbered_def Let_def line_log [OF line] split: if_splits)
qed

lemma run_turn_skip:
  assumes line: "serial_line lk rest sent" and "running s" "rest s = encode p @ xs" "framed p"
    and "\<not> (valid p \<and> numbered n p)"
  shows "\<exists>s1. run_state (xmodem_turn lk (buf, n)) s = (Inl (buf, n), s1) \<and> running s1 \<and> rest s1 = xs \<and>
    length (sent s1) = Suc (length (sent s))"
proof -
  obtain s1 where 1: "run_state (xmodem_turn lk (buf, n)) s = map_prod Inl id (run_state (handle_packet lk p (buf, n)) s1)"
    "running s1" "rest s1 = xs" "sent s1 = sent s"
    using run_turn_packet [OF line assms(2-4)] by blast
  with handle_other [OF line 1(2) assms(5), of buf] show ?thesis by auto
qed

text \<open>
  What a sender puts on the line from block \<open>k\<close> on: the blocks in order, each before the next, with
  damaged packets and repetitions of the block before anywhere between them.
\<close>

inductive transmits :: "int \<Rightarrow> u8 list list \<Rightarrow> xmodem_packet list \<Rightarrow> bool" where
  finished: "transmits k [] []"
| sends: "framed p \<Longrightarrow> valid p \<Longrightarrow> numbered k p \<Longrightarrow> transmits (k + 1) bs ps \<Longrightarrow> transmits k (payload p # bs) (p # ps)"
| damaged: "framed p \<Longrightarrow> \<not> valid p \<Longrightarrow> transmits k bs ps \<Longrightarrow> transmits k bs (p # ps)"
| repeats: "framed p \<Longrightarrow> valid p \<Longrightarrow> numbered (k - 1) p \<Longrightarrow> transmits k bs ps \<Longrightarrow> transmits k bs (p # ps)"

lemma numbered_pred: "numbered (k - 1) p \<Longrightarrow> \<not> numbered k p"
proof
  assume "numbered (k - 1) p" "numbered k p"
  then have "(k - 1) mod 256 = k mod 256" by (simp add: numbered_def take_bit_eq_mod)
  then have "(256 :: int) dvd (k - 1) - k" by (simp only: mod_eq_dvd_iff)
  then show False by simp
qed

lemma transmits_blocks: "transmits k bs ps \<Longrightarrow> list_all (\<lambda>b. length b = 128) bs"
  by (induction rule: transmits.induct) (simp_all add: framed_def)

definition filled_to :: "nat \<Rightarrow> u8 list list \<Rightarrow> u8 list \<Rightarrow> u8 list" where
  "filled_to k bs buf = take (128 * k) buf @ concat bs @ drop (128 * (k + length bs)) buf"

lemma filled_to_step:
  assumes "length b = 128" "128 * Suc k \<le> length buf"
  shows "filled_to (Suc k) bs (take (128 * k) buf @ b @ drop (128 * k + 128) buf) = filled_to k (b # bs) buf"
  using assms by (simp add: filled_to_def min_def add_ac)

lemma receive_packets:
  assumes line: "serial_line lk rest sent"
  shows "transmits n bs ps \<Longrightarrow> n = int k + 1 \<Longrightarrow> running s \<Longrightarrow> rest s = concat (map encode ps) @ 4 # xs \<Longrightarrow>
    128 * k \<le> length buf \<Longrightarrow>
    (if 128 * (k + length bs) \<le> length buf then
       \<exists>s'. iterates (xmodem_turn lk) (buf, n) s (Some (1, True, filled_to k bs buf, int (k + length bs) + 1)) s' \<and>
         running s' \<and> rest s' = xs \<and> length (sent s') = length (sent s) + length ps
     else \<exists>s'. iterates (xmodem_turn lk) (buf, n) s None s' \<and> status s' = Panicked ''buffer'')"
proof (induction arbitrary: k s buf rule: transmits.induct)
  case (finished n)
  then obtain s' where "run_state (xmodem_turn lk (buf, n)) s = (Inr (1, True, buf, n), s')" "running s'" "rest s' = xs" "sent s' = sent s"
    using run_turn_eof [OF line finished(2), of xs buf n] by auto
  with finished show ?case
    by (auto simp: filled_to_def intro!: exI [of _ s'] iterates.finish)
next
  case (sends p n bs ps)
  obtain s1 where 1: "run_state (xmodem_turn lk (buf, n)) s = map_prod Inl id (run_state (handle_packet lk p (buf, n)) s1)"
    "running s1" "rest s1 = concat (map encode ps) @ 4 # xs" "sent s1 = sent s"
    using run_turn_packet [OF line sends.prems(2), of p "concat (map encode ps) @ 4 # xs" buf n] sends by auto
  show ?case
  proof (cases "128 * Suc k \<le> length buf")
    case True
    let ?buf = "take (128 * k) buf @ payload p @ drop (128 * k + 128) buf"
    have len: "length (payload p) = 128" using sends.hyps by (simp add: framed_def)
    have l: "length ?buf = length buf" using True len by simp
    obtain s2 where 2: "run_state (handle_packet lk p (buf, n)) s1 = ((?buf, n + 1), s2)"
      "running s2" "rest s2 = rest s1" "sent s2 = sent s1 @ [ACK]"
      using handle_next [OF line 1(2) sends.hyps(2,3), of buf] True sends.prems(1) by (auto simp: nat_mult_distrib)
    have IH: "if 128 * (Suc k + length bs) \<le> length buf then
       \<exists>s'. iterates (xmodem_turn lk) (?buf, n + 1) s2 (Some (1, True, filled_to (Suc k) bs ?buf, int (Suc k + length bs) + 1)) s' \<and>
         running s' \<and> rest s' = xs \<and> length (sent s') = length (sent s2) + length ps
     else \<exists>s'. iterates (xmodem_turn lk) (?buf, n + 1) s2 None s' \<and> status s' = Panicked ''buffer''"
      using sends.IH [of "Suc k" s2 ?buf] sends.prems(1) 1(3) 2(2,3) l True by simp
    have st: "run_state (xmodem_turn lk (buf, n)) s = (Inl (?buf, n + 1), s2)" using 1(1) 2(1) by simp
    note go = iterates.again [of "xmodem_turn lk", OF st 2(2)]
    show ?thesis
    proof (cases "128 * (Suc k + length bs) \<le> length buf")
      case fit: True
      then obtain s' where "iterates (xmodem_turn lk) (?buf, n + 1) s2 (Some (1, True, filled_to (Suc k) bs ?buf, int (Suc k + length bs) + 1)) s'"
        "running s'" "rest s' = xs" "length (sent s') = length (sent s2) + length ps"
        using IH by auto
      with go [OF this(1)] fit 1(4) 2(4) show ?thesis
        by (simp add: filled_to_step [OF len True]) (auto simp: add.commute)
    next
      case False
      then obtain s' where "iterates (xmodem_turn lk) (?buf, n + 1) s2 None s'" "status s' = Panicked ''buffer''"
        using IH by auto
      with go [OF this(1)] False show ?thesis by auto
    qed
  next
    case False
    obtain st s2 where 2: "run_state (handle_packet lk p (buf, n)) s1 = (st, s2)" "status s2 = Panicked ''buffer''"
      using handle_full [OF line 1(2) sends.hyps(2,3), of buf] False sends.prems(1) by auto
    have "run_state (xmodem_turn lk (buf, n)) s = (Inl st, s2)" using 1(1) 2(1) by simp
    then have "iterates (xmodem_turn lk) (buf, n) s None s2" using 2(2) by (auto intro: iterates.stop)
    moreover have "\<not> 128 * (k + length (payload p # bs)) \<le> length buf" using False by simp
    ultimately show ?thesis using 2(2) by auto
  qed
next
  case (damaged p n bs ps)
  obtain s1 where 1: "run_state (xmodem_turn lk (buf, n)) s = (Inl (buf, n), s1)" "running s1"
    "rest s1 = concat (map encode ps) @ 4 # xs" "length (sent s1) = Suc (length (sent s))"
    using run_turn_skip [OF line damaged.prems(2), of p "concat (map encode ps) @ 4 # xs" n buf] damaged.hyps damaged.prems(3)
    by auto
  with damaged.IH [OF damaged.prems(1) 1(2,3) damaged.prems(4)] iterates.again [of "xmodem_turn lk", OF 1(1,2)]
  show ?case by (auto split: if_splits)
next
  case (repeats p n bs ps)
  obtain s1 where 1: "run_state (xmodem_turn lk (buf, n)) s = (Inl (buf, n), s1)" "running s1"
    "rest s1 = concat (map encode ps) @ 4 # xs" "length (sent s1) = Suc (length (sent s))"
    using run_turn_skip [OF line repeats.prems(2), of p "concat (map encode ps) @ 4 # xs" n buf]
      repeats.hyps numbered_pred repeats.prems(3) by auto
  with repeats.IH [OF repeats.prems(1) 1(2,3) repeats.prems(4)] iterates.again [of "xmodem_turn lk", OF 1(1,2)]
  show ?case by (auto split: if_splits)
qed

lemma malloc_size: "unat (2 * MB) = 0x200000"
  by (simp add: MB_def)

lemma run_receive_loop:
  assumes line: "serial_line lk rest sent" and "running s" and "transmits 1 bs ps"
    and "rest s = concat (map encode ps) @ 4 # xs"
  shows "128 * length bs \<le> length buf \<Longrightarrow>
      \<exists>s'. run_state (loop d (xmodem_turn lk) (buf, 1)) s =
        ((1, True, concat bs @ drop (128 * length bs) buf, int (length bs) + 1), s') \<and>
      running s' \<and> rest s' = xs \<and> length (sent s') = length (sent s) + length ps"
    and "length buf < 128 * length bs \<Longrightarrow>
      \<exists>s'. run_state (loop d (xmodem_turn lk) (buf, 1)) s = (d, s') \<and> status s' = Panicked ''buffer''"
proof -
  note r = receive_packets [OF line assms(3), of 0 s xs buf]
  show "128 * length bs \<le> length buf \<Longrightarrow>
      \<exists>s'. run_state (loop d (xmodem_turn lk) (buf, 1)) s =
        ((1, True, concat bs @ drop (128 * length bs) buf, int (length bs) + 1), s') \<and>
      running s' \<and> rest s' = xs \<and> length (sent s') = length (sent s) + length ps"
    using r assms(2,4) loop_iterates [OF assms(2), of "xmodem_turn lk" "(buf, 1)" _ _ d]
    by (fastforce simp: filled_to_def)
  show "length buf < 128 * length bs \<Longrightarrow>
      \<exists>s'. run_state (loop d (xmodem_turn lk) (buf, 1)) s = (d, s') \<and> status s' = Panicked ''buffer''"
    using r assms(2,4) loop_iterates [OF assms(2), of "xmodem_turn lk" "(buf, 1)" _ _ d] by fastforce
qed

text \<open>The whole transfer, with an invariant of the two console operations.\<close>

lemma keeps_xmodem_turn:
  assumes P: "steady P" and io: "\<And>n. keeps P (io_read lk n)" "\<And>bs. keeps P (io_write lk bs)"
  shows "keeps P (xmodem_turn lk st)"
proof -
  have repeat: "keeps P (read_repeat lk n)" for n
    unfolding read_repeat_def by (intro keep_intros P) (auto intro!: keep_intros P io split: prod.split)
  have copy: "keeps P (copy_block b n p)" for b n p
    unfolding copy_block_def Let_def by (auto intro!: keep_intros P)
  have packet: "keeps P (handle_packet lk p x)" for p x
    unfolding handle_packet_def Let_def by (auto intro!: keep_intros P io copy split: prod.split)
  show ?thesis
    unfolding xmodem_turn_def by (auto intro!: keep_intros P io repeat packet split: prod.split)
qed

lemma run_xmodem_receive:
  assumes "running s" and "serial_line lk rest sent"
    and "run_state (malloc lk 0x200000) s = (buf, s0)" and "running s0" and "length buf = 0x200000"
    and "transmits 1 bs ps" and "length bs \<le> 16384" and "rest s0 = concat (map encode ps) @ 4 # xs"
    and P: "steady P" "\<And>n. keeps P (io_read lk n)" "\<And>bs. keeps P (io_write lk bs)" "P s0"
  shows "\<exists>s'. run_state (xmodem_receive lk junk) s =
      run_state (boot_image lk junk (concat bs @ drop (128 * length bs) buf) ((int (length bs) + 1) * 128)) s' \<and>
    running s' \<and> rest s' = xs \<and> length (sent s') = length (sent s0) + 1 + length ps \<and> P s'"
proof -
  obtain s1 where 1: "run_state (io_write lk [NAK]) s0 = ((), s1)" "running s1" "rest s1 = rest s0" "sent s1 = sent s0 @ [NAK]"
    by (rule line_write [OF assms(2,4)])
  obtain s2 where 2: "run_state (loop (0, False, [], 0) (xmodem_turn lk) (buf, 1)) s1 =
      ((1, True, concat bs @ drop (128 * length bs) buf, int (length bs) + 1), s2)"
    "running s2" "rest s2 = xs" "length (sent s2) = length (sent s1) + length ps"
    using run_receive_loop(1) [OF assms(2) 1(2) assms(6), where xs = xs and buf = buf and d = "(0, False, [], 0)"] 1(3) assms(5,7,8) by auto
  have "P s1" by (rule keepsD [OF P(3,4) 1(1)])
  then have "P s2" using keepsD [OF keeps_loop [OF P(1) keeps_xmodem_turn [OF P(1-3)]] _ 2(1)] by blast
  then have "P (log [Print ''final ret was %ld'' [I 1]] s2)" using P(1) by (simp add: steady_def)
  then show ?thesis
    using assms(1,3) 1(1,4) 2
    by (intro exI [of _ "log [Print ''final ret was %ld'' [I 1]] s2"])
      (simp add: xmodem_receive_def malloc_size line_log [OF assms(2)])
qed

text \<open>A program that fails to load is entered all the same, at an address the C code leaves undefined.\<close>

lemma failed_load_enters_junk:
  assumes "run_state (elf_open_handle_memory lk img n) s = ((0, elf), s1)"
    and "run_state (elf_load lk elf) s1 = (r, s2)" "r \<noteq> 0" "running s2"
  shows "run_state (boot_image lk junk img n) s =
    run_state (arch_chain_load lk junk) (log [Print ''failed to load elf: %d'' [I r]] s2)"
  using assms by (simp add: boot_image_def load_and_run_elf_def)

subsection \<open>Properties\<close>

text \<open>A concrete line for the witnesses: it delivers at most 50 bytes per read.\<close>

record line_mach = mach +
  line_in :: "u8 list"
  line_out :: "u8 list"

definition demo_lk :: "unit line_mach_ext lk_ops" where
  "demo_lk = \<lparr>io_read = (\<lambda>n. State (\<lambda>s. let k = min (min n 50) (length (line_in s)) in
       ((int k, take k (line_in s)), s\<lparr>line_in := drop k (line_in s)\<rparr>))),
     io_write = (\<lambda>bs. gset (\<lambda>s. s\<lparr>line_out := line_out s @ bs\<rparr>)),
     malloc = (\<lambda>n. return (replicate n 0)),
     elf_open_handle_memory = (\<lambda>bs n. return (0, 1)), elf_open_handle = (\<lambda>f. return (0, 1)),
     elf_load = (\<lambda>h. return 0), elf_close_handle = (\<lambda>h. return ()), elf_entry = (\<lambda>h. return 0x80000000),
     fs_mount = (\<lambda>a b c. return 0), fs_open_file = (\<lambda>f. return (0, 2)), fs_close_file = (\<lambda>f. return ()),
     rpi_sdhost_init = return (), partition_publish = (\<lambda>a b. return ()),
     arch_chain_load = (\<lambda>e. wr e 0), sdram_init = return (), novm_add_arena = (\<lambda>n a l. return ()),
     wait_queue_wake_all = (\<lambda>c. return ()), wait_queue_block = (\<lambda>t. return (of_char CHR ''X'')),
     start_waker = return ()\<rparr>"

lemma demo_line: "serial_line demo_lk line_in line_out"
  unfolding serial_line_def demo_lk_def
  by (auto simp: log_def Let_def intro!: exI [of _ "min (min n 50) (length (line_in s))" for n s])
    (simp_all add: Suc_le_eq)

definition demo_packet :: "int \<Rightarrow> xmodem_packet" where
  "demo_packet n = \<lparr>magic = 1, block_num = of_int n, block_num_invert = of_int (255 - n),
     payload = replicate 128 0, checksum = 0\<rparr>"

definition line_boot :: "u8 list \<Rightarrow> line_mach" where
  "line_boot bs = mach.extend (boot (memory (\<lambda>_. 0))) \<lparr>line_in = bs, line_out = []\<rparr>"

lemma line_boot_simps [simp]: "running (line_boot bs)" "line_in (line_boot bs) = bs" "line_out (line_boot bs) = []"
  by (simp_all add: line_boot_def mach.defs boot_def)

lemma foldl_zeros: "foldl (+) 0 (replicate n (0 :: u8)) = 0"
  by (induction n) simp_all

lemma demo_packet_ok: "framed (demo_packet n)" "valid (demo_packet n)" "numbered n (demo_packet n)"
proof -
  show "framed (demo_packet n)" by (simp add: framed_def demo_packet_def)
  show "numbered n (demo_packet n)" by (simp add: numbered_def demo_packet_def unsigned_of_int)
  have "(255 - n) mod 256 = 255 - n mod 256" by (smt (verit) pos_mod_bound pos_mod_sign mod_diff_eq mod_pos_pos_trivial)
  then show "valid (demo_packet n)"
    by (simp add: valid_def demo_packet_def foldl_zeros unsigned_of_int take_bit_eq_mod del: of_int_diff)
qed

lemma demo_transmits:
  "transmits k (replicate n (replicate 128 0)) (map demo_packet [k..k + int n - 1])"
proof (induction n arbitrary: k)
  case (Suc n)
  have "[k..k + int (Suc n) - 1] = k # [k + 1..k + 1 + int n - 1]" by (simp add: upto_rec1)
  then show ?case
    using transmits.sends [OF demo_packet_ok(1,2,3) Suc.IH, of k] by (simp add: demo_packet_def)
qed (simp add: transmits.finished)

text \<open>C22.  XMODEM over a lossy line.  Whatever the sizes in which the line delivers its bytes, if a
  sender transmits at most 16384 blocks of 128 bytes in order, with damaged packets and repeated
  blocks anywhere between them, and then the end mark, the receiver consumes all of it, answers
  every packet with one byte, and continues with its 2 MB buffer, which starts with exactly the
  sender's blocks.  The size it passes on is one block more than was sent, as \<^verbatim>\<open>blockNr\<close> counts
  from 1.  A damaged packet keeps its framing: it has 132 bytes and does not start with
  the end mark, and its two numbers or its checksum do not fit; lost bytes are not covered.\<close>

theorem xmodem_delivers:
  assumes "running s" and "serial_line lk rest sent"
    and "run_state (malloc lk 0x200000) s = (buf, s0)" and "running s0" and "length buf = 0x200000"
    and "transmits 1 bs ps" and "length bs \<le> 16384" and "rest s0 = concat (map encode ps) @ 4 # xs"
  shows "\<exists>s'. run_state (xmodem_receive lk junk) s =
      run_state (boot_image lk junk (concat bs @ drop (128 * length bs) buf) ((int (length bs) + 1) * 128)) s' \<and>
    running s' \<and> rest s' = xs \<and> length (sent s') = length (sent s0) + 1 + length ps"
  using run_xmodem_receive [OF assms, of "\<lambda>_. True"] by (simp add: steady_def keeps_def)

theorem xmodem_delivers_witness:
  "\<exists>s'. run_state (xmodem_receive demo_lk 0)
      (line_boot (concat (map encode [demo_packet 1, (demo_packet 2)\<lparr>checksum := 1\<rparr>, demo_packet 1, demo_packet 2]) @ [4])) =
      run_state (boot_image demo_lk 0 (replicate 256 0 @ drop 256 (replicate 0x200000 0)) 384) s' \<and>
    line_in s' = [] \<and> length (line_out s') = 5"
proof -
  let ?z = "replicate 128 0 :: u8 list"
  let ?bad = "(demo_packet 2)\<lparr>checksum := 1\<rparr>"
  let ?ps = "[demo_packet 1, ?bad, demo_packet 1, demo_packet 2]"
  let ?s = "line_boot (concat (map encode ?ps) @ [4])"
  have bad: "framed ?bad" "\<not> valid ?bad"
    using demo_packet_ok(1) [of 2] by (simp_all add: framed_def valid_def demo_packet_def foldl_zeros)
  have one: "numbered (2 - 1) (demo_packet 1)" using demo_packet_ok(3) [of 1] by simp
  have "transmits 2 [?z] [?bad, demo_packet 1, demo_packet 2]"
    using transmits.damaged [OF bad transmits.repeats [OF demo_packet_ok(1,2) one demo_transmits [of 2 1]]] by simp
  then have t: "transmits 1 [?z, ?z] ?ps"
    using transmits.sends [OF demo_packet_ok(1,2,3) [of 1], where bs = "[?z]"] by (simp add: demo_packet_def)
  have m: "run_state (malloc demo_lk 0x200000) ?s = (replicate 0x200000 0, ?s)" by (simp add: demo_lk_def)
  have b: "length (replicate 0x200000 (0 :: u8)) = 0x200000" by (rule length_replicate)
  have r: "line_in ?s = concat (map encode ?ps) @ 4 # []" by simp
  obtain s' where s': "run_state (xmodem_receive demo_lk 0) ?s =
      run_state (boot_image demo_lk 0 (concat [?z, ?z] @ drop (128 * length [?z, ?z]) (replicate 0x200000 0))
        ((int (length [?z, ?z]) + 1) * 128)) s'"
    "running s'" "line_in s' = []" "length (line_out s') = length (line_out ?s) + 1 + length ?ps"
    using xmodem_delivers [OF _ demo_line m _ b t _ r, of 0] by auto
  have z: "concat [?z, ?z] = replicate 256 0" by (simp flip: replicate_add)
  show ?thesis
    using s' unfolding z by (intro exI [of _ s']) simp
qed

text \<open>The capacity is never checked: one block more, and the receiver writes past the end of its
  2 MB buffer.\<close>

theorem xmodem_capacity_unchecked:
  assumes "running s" and "serial_line lk rest sent"
    and "run_state (malloc lk 0x200000) s = (buf, s0)" and "running s0" and "length buf = 0x200000"
    and "transmits 1 bs ps" and "16384 < length bs" and "rest s0 = concat (map encode ps) @ 4 # xs"
  shows "status (snd (run_state (xmodem_receive lk junk) s)) = Panicked ''buffer''"
proof -
  obtain s1 where 1: "run_state (io_write lk [NAK]) s0 = ((), s1)" "running s1" "rest s1 = rest s0" "sent s1 = sent s0 @ [NAK]"
    by (rule line_write [OF assms(2,4)])
  obtain s2 where 2: "run_state (loop (0, False, [], 0) (xmodem_turn lk) (buf, 1)) s1 = ((0, False, [], 0), s2)"
    "status s2 = Panicked ''buffer''"
    using run_receive_loop(2) [OF assms(2) 1(2) assms(6), where xs = xs and buf = buf and d = "(0, False, [], 0)"] 1(3) assms(5,7,8) by auto
  then show ?thesis using assms(1,3) 1(1) by (simp add: xmodem_receive_def malloc_size)
qed

theorem xmodem_capacity_unchecked_witness:
  "status (snd (run_state (xmodem_receive demo_lk 0)
     (line_boot (concat (map encode (map demo_packet [1..16385])) @ [4])))) = Panicked ''buffer''"
proof -
  let ?s = "line_boot (concat (map encode (map demo_packet [1..16385])) @ [4])"
  have m: "run_state (malloc demo_lk 0x200000) ?s = (replicate 0x200000 0, ?s)" by (simp add: demo_lk_def)
  have b: "length (replicate 0x200000 (0 :: u8)) = 0x200000" by (rule length_replicate)
  have t: "transmits 1 (replicate 16385 (replicate 128 0)) (map demo_packet [1..16385])"
  proof -
    have "1 + int 16385 - 1 = 16385" by simp
    then show ?thesis using demo_transmits [of 1 16385] by (simp only:)
  qed
  have l: "16384 < length (replicate 16385 (replicate 128 (0 :: u8)))" by (simp only: length_replicate)
  show ?thesis
    by (rule xmodem_capacity_unchecked [OF _ demo_line m _ b t l, of "[]"]) simp_all
qed

end
