(* ===== verification/Start4.thy ===== *)
theory Start4
  imports Vc4_Timer
begin

unbundle bit_operations_syntax

text \<open>
  What the Raspberry Pi 4's earlier boot stages left behind (\<^verbatim>\<open>start4/start4.c\<close>): a chain of tagged
  records in memory, each with its size in the third word, printed at start-up.  Memory is read
  word by word, little endian; a structure is its address, its fields are offsets; \<^verbatim>\<open>%s\<close> gets the
  address of the string.  \<^verbatim>\<open>bootloader_state\<close> lies at an address the linker chooses.
\<close>

subsection \<open>The records\<close>

definition rd8 :: "u32 \<Rightarrow> ('r, u32) io" where
  "rd8 a = do { w \<leftarrow> rd (a AND NOT 3); return (drop_bit (8 * unat (a AND 3)) w AND 0xff) }"

definition bver_revision :: u32 where "bver_revision = 0"
definition bver_type :: u32 where "bver_type = 41"
definition bver_date :: u32 where "bver_date = 49"
definition bver_time :: u32 where "bver_time = 65"
definition bver_something :: u32 where "bver_something = 84"
definition bver_serial :: u32 where "bver_serial = 88"
definition bver_something2 :: u32 where "bver_something2 = 92"

definition bstn_macend :: u32 where "bstn_macend = 0"
definition bstn_macstart :: u32 where "bstn_macstart = 4"
definition bstn_mac :: u32 where "bstn_mac = 8"
definition bstn_serial_str :: u32 where "bstn_serial_str = 24"
definition bstn_myip :: u32 where "bstn_myip = 36"
definition bstn_tftp_ip :: u32 where "bstn_tftp_ip = 48"
definition bstn_prefix :: u32 where "bstn_prefix = 52"

definition print_bver :: "u32 \<Rightarrow> ('r, unit) io" where
  "print_bver bver = do {
     something \<leftarrow> rd (bver + bver_something);
     serial \<leftarrow> rd (bver + bver_serial);
     something2 \<leftarrow> rd (bver + bver_something2);
     printf ''revision: %s, type: %s, %s %s, 0x%x, serial: 0x%x something 0x%x''
       [U (bver + bver_revision), U (bver + bver_type), U (bver + bver_date), U (bver + bver_time),
        U something, U serial, U something2]
   }"

definition print_bstn :: "u32 \<Rightarrow> ('r, unit) io" where
  "print_bstn bstn = do {
     macstart \<leftarrow> rd (bstn + bstn_macstart);
     macend \<leftarrow> rd (bstn + bstn_macend);
     printf ''mac1: %08x%08x'' [U macstart, U macend];
     m0 \<leftarrow> rd8 (bstn + bstn_mac);
     m1 \<leftarrow> rd8 (bstn + bstn_mac + 1);
     m2 \<leftarrow> rd8 (bstn + bstn_mac + 2);
     m3 \<leftarrow> rd8 (bstn + bstn_mac + 3);
     m4 \<leftarrow> rd8 (bstn + bstn_mac + 4);
     m5 \<leftarrow> rd8 (bstn + bstn_mac + 5);
     printf ''mac2: %02x:%02x:%02x:%02x:%02x:%02x'' [U m0, U m1, U m2, U m3, U m4, U m5];
     printf ''serial1: %s'' [U (bstn + bstn_serial_str)];
     i3 \<leftarrow> rd8 (bstn + bstn_myip + 3);
     i2 \<leftarrow> rd8 (bstn + bstn_myip + 2);
     i1 \<leftarrow> rd8 (bstn + bstn_myip + 1);
     i0 \<leftarrow> rd8 (bstn + bstn_myip);
     printf ''myip: %d.%d.%d.%d'' [U i3, U i2, U i1, U i0];
     t3 \<leftarrow> rd8 (bstn + bstn_tftp_ip + 3);
     t2 \<leftarrow> rd8 (bstn + bstn_tftp_ip + 2);
     t1 \<leftarrow> rd8 (bstn + bstn_tftp_ip + 1);
     t0 \<leftarrow> rd8 (bstn + bstn_tftp_ip);
     printf ''tftp_server: %d.%d.%d.%d'' [U t3, U t2, U t1, U t0];
     printf ''tftp_prefix: %s'' [U (bstn + bstn_prefix)]
   }"

definition print_busb :: "u32 \<Rightarrow> ('r, unit) io" where
  "print_busb busb = do {
     hub_addr \<leftarrow> rd busb;
     hub_size \<leftarrow> rd (busb + 4);
     printf ''vl805hub: 0x%x + %d'' [U hub_addr, U hub_size];
     mcu_addr \<leftarrow> rd (busb + 8);
     mcu_size \<leftarrow> rd (busb + 12);
     printf ''vl805mcu: 0x%x + %d'' [U mcu_addr, U mcu_size];
     bitfield \<leftarrow> rd (busb + 16);
     printf ''bitfield: 0x%x'' [U bitfield];
     buf \<leftarrow> rd (busb + 20);
     handle \<leftarrow> rd (busb + 24);
     printf ''buffer: 0x%x, handle: 0x%x'' [U buf, U handle]
   }"

definition print_bstm :: "u32 \<Rightarrow> ('r, unit) io" where
  "print_bstm bstm = do {
     a \<leftarrow> rd bstm;
     b \<leftarrow> rd (bstm + 4);
     c \<leftarrow> rd (bstm + 8);
     printf ''A: 0x%x, B: 0x%x, C: 0x%x'' [U a, U b, U c];
     b \<leftarrow> rd (bstm + 4);
     when_io (b = 0) (printf ''SD'' []);
     b \<leftarrow> rd (bstm + 4);
     when_io (b = 1) (printf ''NET'' []);
     b \<leftarrow> rd (bstm + 4);
     when_io (b = 2) (printf ''USB-MSD'' []);
     b \<leftarrow> rd (bstm + 4);
     when_io (b = 3) (printf ''USB-DEV'' []);
     b \<leftarrow> rd (bstm + 4);
     when_io (b = 4) (printf ''USB-BCM-MSD'' [])
   }"

definition guard :: "u32 \<Rightarrow> u32" where
  "guard c = (if 0x20 \<le> c \<and> c \<le> 0x7e then c else 0x2e)"

definition print_word :: "int \<Rightarrow> u32 \<Rightarrow> ('r, unit) io" where
  "print_word i w = printf ''%d: 0x%x (%c%c%c%c)''
     [I i, U w, U (guard (w AND 0xff)), U (guard (drop_bit 8 w AND 0xff)),
      U (guard (drop_bit 16 w AND 0xff)), U (guard (drop_bit 24 w AND 0xff))]"

subsection \<open>The chain\<close>

definition tag_format :: string where "tag_format = ''TAG 0x%x(%c%c%c%c), 0x%x 0x%x''"

definition tag_line :: "u32 \<Rightarrow> u32 \<Rightarrow> u32 \<Rightarrow> event" where
  "tag_line tag a b = Print tag_format
     [U tag, U (tag AND 0xff), U (drop_bit 8 tag AND 0xff), U (drop_bit 16 tag AND 0xff),
      U (drop_bit 24 tag AND 0xff), U a, U b]"

definition print_tag :: "u32 \<Rightarrow> ('r, unit) io" where
  "print_tag st = do {
     tag \<leftarrow> rd st;
     if tag = 0x52455642 then print_bver (st + 12)
     else if tag = 0x4e545342 then print_bstn (st + 12)
     else if tag = 0x42535542 then print_busb (st + 12)
     else if tag = 0x4d545342 then print_bstm (st + 12)
     else do {
       sz \<leftarrow> rd (st + 8);
       sz \<leftarrow> (if sz = 0 then rd (st + 4) else return sz);
       for_each [3..<unat (sz div 4)] (\<lambda>i. do {
         w \<leftarrow> rd (st + 4 * of_nat i);
         print_word (int i) w
       })
     }
   }"

definition tag_turn :: "u32 \<Rightarrow> ('r, u32 + unit) io" where
  "tag_turn st = do {
     tag \<leftarrow> rd st;
     a \<leftarrow> rd (st + 4);
     b \<leftarrow> rd (st + 8);
     printf tag_format [U tag, U (tag AND 0xff), U (drop_bit 8 tag AND 0xff),
       U (drop_bit 16 tag AND 0xff), U (drop_bit 24 tag AND 0xff), U a, U b];
     print_tag st;
     sz \<leftarrow> rd (st + 8);
     if sz = 0 then return (Inr ())
     else do {
       sz \<leftarrow> rd (st + 8);
       return (Inl (st + 4 * (sz div 4)))
     }
   }"

definition start4_print_state :: "u32 \<Rightarrow> ('r, unit) io" where
  "start4_print_state bootloader_state = do {
     t \<leftarrow> rd ST_CLO;
     printf ''ST_CLO: %d'' [U t];
     b0 \<leftarrow> rd bootloader_state;
     b1 \<leftarrow> rd (bootloader_state + 4);
     b2 \<leftarrow> rd (bootloader_state + 8);
     b3 \<leftarrow> rd (bootloader_state + 12);
     printf ''bootloader state 0x%x 0x%x 0x%x 0x%x'' [U b0, U b1, U b2, U b3];
     st \<leftarrow> rd (bootloader_state + 4);
     if st \<noteq> 0 then do {
       printf ''some state exists'' [];
       loop () tag_turn st
     } else return ()
   }"

subsection \<open>Library: walking the chain\<close>

text \<open>Events that are not the line of a tag, and the lines of tags in a trace.\<close>

definition aside :: "event \<Rightarrow> bool" where
  "aside e \<longleftrightarrow> (case e of Rd a \<Rightarrow> True | Wr a v \<Rightarrow> False | Print f xs \<Rightarrow> f \<noteq> tag_format)"

definition tag_lines :: "event list \<Rightarrow> event list" where
  "tag_lines es = filter (\<lambda>e. \<not> aside e) es"

lemma aside_simps [simp]: "aside (Rd a)" "aside (Print f xs) \<longleftrightarrow> f \<noteq> tag_format" "\<not> aside (Wr a v)"
  by (simp_all add: aside_def)

lemma tag_lines_simps [simp]: "tag_lines (es @ fs) = tag_lines es @ tag_lines fs"
  "list_all aside es \<Longrightarrow> tag_lines es = []"
  by (simp_all add: tag_lines_def filter_empty_conv list_all_iff)

text \<open>A printing operation: it returns, reads and prints only, and prints no line of a tag.\<close>

definition prints :: "('r, 'a) io \<Rightarrow> bool" where
  "prints m \<longleftrightarrow> effects aside m \<and> (\<forall>d. ends d m)"

lemma prints_intros [intro]:
  "prints (rd a)" "prints (return x)" "f \<noteq> tag_format \<Longrightarrow> prints (printf f xs)"
  "prints m \<Longrightarrow> (\<And>x. prints (g x)) \<Longrightarrow> prints (m \<bind> g)"
  "(b \<Longrightarrow> prints m) \<Longrightarrow> (\<not> b \<Longrightarrow> prints n) \<Longrightarrow> prints (if b then m else n)"
  "(b \<Longrightarrow> prints u) \<Longrightarrow> prints (when_io b u)"
  "(\<And>x. prints (h x)) \<Longrightarrow> prints (for_each ys h)"
  unfolding prints_def by (auto intro!: emit_intros ends_intros)

lemma prints_rd8: "prints (rd8 a)"
  unfolding rd8_def by (intro prints_intros)

lemma prints_tag: "prints (print_tag st)"
  unfolding print_tag_def print_bver_def print_bstn_def print_busb_def print_bstm_def print_word_def
  by (intro prints_intros prints_rd8) (simp_all add: tag_format_def)

lemma run_prints:
  assumes "prints m" "running s" "run_state m s = (x, s')"
  shows "running s'" "dev s' = dev s" "\<exists>es. bus s' = bus s @ es \<and> list_all aside es"
proof -
  have e: "effects aside m" "ends (dev s) m" using assms(1) by (simp_all add: prints_def)
  show "running s'" using endsD [OF e(2) refl assms(2,3)] by simp
  show "dev s' = dev s" "\<exists>es. bus s' = bus s @ es \<and> list_all aside es"
    using effectsE [OF e(1), of s] assms(3) by (metis snd_conv)+
qed

text \<open>Memory that holds \<open>m\<close>: nothing but plain words, and nothing written yet.\<close>

definition holds :: "'r mach_scheme \<Rightarrow> (u32 \<Rightarrow> u32) \<Rightarrow> bool" where
  "holds s m \<longleftrightarrow> (\<forall>h. writes h = writes (bus s) \<longrightarrow> (\<forall>a. dev s h a = m a))"

lemma holds_cur: "holds s m \<Longrightarrow> cur s a = m a"
  by (simp add: holds_def cur_def)

lemma aside_quiet: "list_all aside es \<Longrightarrow> writes es = []"
  by (induction es rule: writes.induct) simp_all

lemma holds_step: "holds s m \<Longrightarrow> dev s' = dev s \<Longrightarrow> bus s' = bus s @ es \<Longrightarrow> writes es = [] \<Longrightarrow> holds s' m"
  by (simp add: holds_def)

text \<open>A chain in memory: the addresses of its records, each size leading to the next.\<close>

inductive tag_chain :: "(u32 \<Rightarrow> u32) \<Rightarrow> u32 \<Rightarrow> u32 list \<Rightarrow> bool" for m where
  last: "m (st + 8) = 0 \<Longrightarrow> tag_chain m st [st]"
| further: "m (st + 8) \<noteq> 0 \<Longrightarrow> tag_chain m (st + 4 * (m (st + 8) div 4)) sts \<Longrightarrow> tag_chain m st (st # sts)"

definition line_of :: "(u32 \<Rightarrow> u32) \<Rightarrow> u32 \<Rightarrow> event" where
  "line_of m st = tag_line (m st) (m (st + 4)) (m (st + 8))"

lemma run_tag_turn:
  assumes "running s" "holds s m"
  shows "\<exists>s' es. run_state (tag_turn st) s =
      (if m (st + 8) = 0 then Inr () else Inl (st + 4 * (m (st + 8) div 4)), s') \<and>
    running s' \<and> holds s' m \<and> dev s' = dev s \<and> bus s' = bus s @ es \<and> writes es = [] \<and>
    tag_lines es = [line_of m st]"
proof -
  let ?e = "[Rd st, Rd (st + 4), Rd (st + 8), line_of m st]"
  have c: "holds (log es s) m" if "writes es = []" for es
    using assms(2) that by (auto intro: holds_step)
  have c0: "cur s st = m st" "cur (log [Rd st] s) (st + 4) = m (st + 4)"
    "cur (log [Rd st, Rd (st + 4)] s) (st + 8) = m (st + 8)"
    using holds_cur [OF assms(2)] holds_cur [OF c [of "[Rd st]"]] holds_cur [OF c [of "[Rd st, Rd (st + 4)]"]]
    by simp_all
  obtain s1 where 1: "run_state (print_tag st) (log ?e s) = ((), s1)" using run_unit by blast
  obtain es where p: "running s1" "dev s1 = dev s" "bus s1 = bus s @ ?e @ es" "list_all aside es"
    using run_prints [OF prints_tag _ 1] assms(1) by auto
  have h: "holds (log fs s1) m" if "writes fs = []" for fs
    by (rule holds_step [where es = "?e @ es @ fs", OF assms(2)])
      (use p that aside_quiet [OF p(4)] in \<open>simp_all add: line_of_def tag_line_def\<close>)
  have h0: "cur s1 (st + 8) = m (st + 8)" "cur (log [Rd (st + 8)] s1) (st + 8) = m (st + 8)"
    using holds_cur [OF h [of "[]"]] holds_cur [OF h [of "[Rd (st + 8)]"]] by simp_all
  define fs where "fs = (if m (st + 8) = 0 then [Rd (st + 8)] else [Rd (st + 8), Rd (st + 8)])"
  have "run_state (tag_turn st) s =
      (if m (st + 8) = 0 then Inr () else Inl (st + 4 * (m (st + 8) div 4)), log fs s1)"
    using assms(1) c0 1 p(1) h0 by (simp add: tag_turn_def line_of_def tag_line_def fs_def)
  moreover have "writes (?e @ es @ fs) = []"
    using aside_quiet [OF p(4)] by (simp add: fs_def line_of_def tag_line_def)
  moreover have "tag_lines (?e @ es @ fs) = [line_of m st]"
    using p(4) by (simp add: fs_def tag_lines_def line_of_def tag_line_def filter_empty_conv list_all_iff)
  ultimately show ?thesis
    using p h [of fs] by (intro exI [of _ "log fs s1"] exI [of _ "?e @ es @ fs"]) (simp add: fs_def)
qed

lemma tag_chain_iterates:
  assumes "tag_chain m st sts" "running s" "holds s m"
  shows "\<exists>s' es. iterates tag_turn st s (Some ()) s' \<and> running s' \<and> bus s' = bus s @ es \<and>
    writes es = [] \<and> tag_lines es = map (line_of m) sts"
  using assms
proof (induction arbitrary: s rule: tag_chain.induct)
  case (last st)
  then show ?case using run_tag_turn [OF last(2,3), of st] by (auto intro: iterates.finish)
next
  case (further st sts)
  obtain s1 es where 1: "run_state (tag_turn st) s = (Inl (st + 4 * (m (st + 8) div 4)), s1)" "running s1" "holds s1 m"
    "bus s1 = bus s @ es" "writes es = []" "tag_lines es = [line_of m st]"
    using run_tag_turn [OF further.prems, of st] further.hyps(1) by auto
  obtain s2 fs where "iterates tag_turn (st + 4 * (m (st + 8) div 4)) s1 (Some ()) s2" "running s2" "bus s2 = bus s1 @ fs"
    "writes fs = []" "tag_lines fs = map (line_of m) sts"
    using further.IH [OF 1(2,3)] by blast
  with 1 iterates.again [of tag_turn, OF 1(1,2)] show ?case
    by (intro exI [of _ s2] exI [of _ "es @ fs"]) simp
qed

lemma stuck_chain:
  assumes "m (st + 8) \<noteq> 0" "m (st + 8) < 4"
  shows "iterates tag_turn x s r s' \<Longrightarrow> x = st \<Longrightarrow> running s \<Longrightarrow> holds s m \<Longrightarrow> False"
proof (induction rule: iterates.induct)
  case (finish x s y s')
  then show ?case using run_tag_turn [OF finish(3,4), of x] assms(1) by auto
next
  case (stop x s x' s')
  then show ?case using run_tag_turn [OF stop(4,5), of x] by auto
next
  case (again x s x' s' r s'')
  have "m (st + 8) div 4 = 0" using assms(2) by (simp add: div_word_less)
  then show ?case using run_tag_turn [OF again(6,7), of x] assms(1) again by auto
qed

definition preamble :: "(u32 \<Rightarrow> u32) \<Rightarrow> u32 \<Rightarrow> event list" where
  "preamble m bls = [Rd ST_CLO, Print ''ST_CLO: %d'' [U (m ST_CLO)], Rd bls, Rd (bls + 4), Rd (bls + 8), Rd (bls + 12),
    Print ''bootloader state 0x%x 0x%x 0x%x 0x%x'' [U (m bls), U (m (bls + 4)), U (m (bls + 8)), U (m (bls + 12))],
    Rd (bls + 4), Print ''some state exists'' []]"

lemma run_start4:
  assumes "running s" "holds s m" "m (bls + 4) \<noteq> 0"
  shows "run_state (start4_print_state bls) s = run_state (loop () tag_turn (m (bls + 4))) (log (preamble m bls) s)"
    and "holds (log (preamble m bls) s) m"
proof -
  have h: "holds (log fs s) m" if "writes fs = []" for fs
    using assms(2) that by (auto intro: holds_step)
  have c: "cur (log fs s) a = m a" if "writes fs = []" for fs a by (rule holds_cur [OF h [OF that]])
  show "run_state (start4_print_state bls) s = run_state (loop () tag_turn (m (bls + 4))) (log (preamble m bls) s)"
    using assms(1,3) holds_cur [OF assms(2)] c by (simp add: start4_print_state_def preamble_def)
  show "holds (log (preamble m bls) s) m" by (rule h) (simp add: preamble_def)
qed

subsection \<open>Properties\<close>

text \<open>C32.  The walk.  If the bootloader left a chain of records whose sizes lead to a record of size 0,
  the print-out ends, prints one line per record, in order, each with its tag and first two
  words, and writes nothing; the memory is only read.\<close>

theorem start4_prints_every_record:
  assumes "running s" and "holds s m" and "m (bls + 4) \<noteq> 0" and "tag_chain m (m (bls + 4)) sts"
    and "run_state (start4_print_state bls) s = ((), s')"
  shows "running s' \<and> writes (bus s') = writes (bus s) \<and>
    tag_lines (drop (length (bus s)) (bus s')) = map (line_of m) sts"
proof -
  note r = run_start4 [OF assms(1-3)]
  obtain s1 es where 1: "iterates tag_turn (m (bls + 4)) (log (preamble m bls) s) (Some ()) s1" "running s1"
    "bus s1 = bus (log (preamble m bls) s) @ es" "writes es = []" "tag_lines es = map (line_of m) sts"
    using tag_chain_iterates [OF assms(4) _ r(2)] assms(1) by auto
  then have "s' = s1" using loop_iterates [OF _ 1(1), of "()"] r(1) assms(1,5) by simp
  then show ?thesis using 1 by (simp add: tag_lines_def tag_format_def preamble_def)
qed

text \<open>A record whose size is 1, 2 or 3 bytes: the size is divided by 4, the walk stays where it is
  and never ends.\<close>

theorem start4_small_size_hangs:
  assumes "running s" and "holds s m" and "m (bls + 4) = st" and "st \<noteq> 0"
    and "m (st + 8) \<noteq> 0" and "m (st + 8) < 4"
  shows "status (snd (run_state (start4_print_state bls) s)) = Hung"
proof -
  have st: "m (bls + 4) \<noteq> 0" using assms(3,4) by simp
  note r = run_start4 [OF assms(1,2) st]
  have "\<not> iterates tag_turn st (log (preamble m bls) s) r s'" for r s'
    using stuck_chain [where m = m and st = st, OF assms(5,6) _ refl _ r(2)] assms(1) by auto
  then have "run_state (loop () tag_turn st) (log (preamble m bls) s) = ((), (log (preamble m bls) s)\<lparr>status := Hung\<rparr>)"
    using loop_hangs assms(1) by (metis log_simps(3))
  then show ?thesis using r(1) assms(3) by simp
qed

text \<open>Two records at 0x1000, the second with size 0.\<close>

definition demo_mem :: "u32 \<Rightarrow> u32 \<Rightarrow> u32" where
  "demo_mem sz a = (if a = 0x104 then 0x1000 else if a = 0x1000 then 0x4d545342 else if a = 0x1008 then sz else 0)"

definition rom_boot :: "(u32 \<Rightarrow> u32) \<Rightarrow> mach" where
  "rom_boot m = boot (\<lambda>h. m)"

lemma rom_boot: "running (rom_boot m)" "bus (rom_boot m) = []" "holds (rom_boot m) m"
  by (simp_all add: rom_boot_def holds_def)

theorem start4_prints_every_record_witness:
  "\<exists>s'. run_state (start4_print_state 0x100) (rom_boot (demo_mem 24)) = ((), s') \<and> running s' \<and>
     tag_lines (bus s') = [tag_line 0x4d545342 0 24, tag_line 0 0 0]"
proof -
  let ?m = "demo_mem 24"
  obtain s' where run: "run_state (start4_print_state 0x100) (rom_boot ?m) = ((), s')" using run_unit by blast
  have "tag_chain ?m 0x1018 [0x1018]" by (rule tag_chain.last) (simp add: demo_mem_def)
  then have c: "tag_chain ?m (?m (0x100 + 4)) [0x1000, 0x1018]"
    using tag_chain.further [of ?m "0x1000" "[0x1018]"] by (simp add: demo_mem_def)
  have nz: "?m (0x100 + 4) \<noteq> 0" by (simp add: demo_mem_def)
  note w = start4_prints_every_record [OF rom_boot(1,3) nz c run]
  then show ?thesis
    using run by (intro exI [of _ s']) (simp add: rom_boot(2) line_of_def demo_mem_def)
qed

theorem start4_small_size_hangs_witness:
  "status (snd (run_state (start4_print_state 0x100) (rom_boot (demo_mem 3)))) = Hung"
  by (rule start4_small_size_hangs [OF rom_boot(1,3), where st = "0x1000"]) (simp_all add: demo_mem_def)

end
