(* ===== verification/I2c.thy ===== *)
theory I2c
  imports Pll
begin

unbundle bit_operations_syntax

text \<open>
  The I2C controllers (\<^verbatim>\<open>i2c.c\<close>, \<^verbatim>\<open>i2c.h\<close>): the bus rate, one transfer of bytes out and in, and the
  console commands with their hexadecimal argument.  The bytes to send are a list, the bytes
  received come back with the result.  An access outside the table of controllers and a division
  by zero stop the machine.
\<close>

subsection \<open>Registers\<close>

definition I2C0_BASE :: u32 where [reg_defs]: "I2C0_BASE = BCM_PERIPH_BASE_VIRT + 0x205000"
definition I2C1_BASE :: u32 where [reg_defs]: "I2C1_BASE = BCM_PERIPH_BASE_VIRT + 0x804000"
definition I2C2_BASE :: u32 where [reg_defs]: "I2C2_BASE = BCM_PERIPH_BASE_VIRT + 0x805000"
definition I2C3_BASE :: u32 where [reg_defs]: "I2C3_BASE = BCM_PERIPH_BASE_VIRT + 0x205600"
definition I2C4_BASE :: u32 where [reg_defs]: "I2C4_BASE = BCM_PERIPH_BASE_VIRT + 0x205800"
definition I2C5_BASE :: u32 where [reg_defs]: "I2C5_BASE = BCM_PERIPH_BASE_VIRT + 0x205a00"
definition I2C6_BASE :: u32 where [reg_defs]: "I2C6_BASE = BCM_PERIPH_BASE_VIRT + 0x205c00"
definition I2C7_BASE :: u32 where [reg_defs]: "I2C7_BASE = BCM_PERIPH_BASE_VIRT + 0x205e00"

definition I2C_C_READ :: u32 where [reg_defs]: "I2C_C_READ = 0x00000001"
definition I2C_C_CLEAR0 :: u32 where [reg_defs]: "I2C_C_CLEAR0 = 0x00000010"
definition I2C_C_CLEAR1 :: u32 where [reg_defs]: "I2C_C_CLEAR1 = 0x00000020"
definition I2C_C_ST :: u32 where [reg_defs]: "I2C_C_ST = 0x00000080"
definition I2C_C_I2CEN :: u32 where [reg_defs]: "I2C_C_I2CEN = 0x00008000"
definition I2C_S_TA :: u32 where [reg_defs]: "I2C_S_TA = 0x00000001"
definition I2C_S_DONE :: u32 where [reg_defs]: "I2C_S_DONE = 0x00000002"
definition I2C_S_TXD :: u32 where [reg_defs]: "I2C_S_TXD = 0x00000010"
definition I2C_S_RXD :: u32 where [reg_defs]: "I2C_S_RXD = 0x00000020"
definition I2C_S_ERR :: u32 where [reg_defs]: "I2C_S_ERR = 0x00000100"
definition I2C_S_CLKT :: u32 where [reg_defs]: "I2C_S_CLKT = 0x00000200"

definition i2c_base :: "u32 list" where
  "i2c_base = [I2C0_BASE, I2C1_BASE, I2C2_BASE, I2C3_BASE, I2C4_BASE, I2C5_BASE, I2C6_BASE, I2C7_BASE]"

definition i2c_ctrl :: "u32 \<Rightarrow> u32" where "i2c_ctrl r = r"
definition i2c_stat :: "u32 \<Rightarrow> u32" where "i2c_stat r = r + 0x04"
definition i2c_dlen :: "u32 \<Rightarrow> u32" where "i2c_dlen r = r + 0x08"
definition i2c_addr :: "u32 \<Rightarrow> u32" where "i2c_addr r = r + 0x0c"
definition i2c_fifo :: "u32 \<Rightarrow> u32" where "i2c_fifo r = r + 0x10"
definition i2c_div :: "u32 \<Rightarrow> u32" where "i2c_div r = r + 0x14"
definition i2c_del :: "u32 \<Rightarrow> u32" where "i2c_del r = r + 0x18"

lemmas i2c_regs = i2c_ctrl_def i2c_stat_def i2c_dlen_def i2c_addr_def i2c_fifo_def i2c_div_def i2c_del_def

subsection \<open>The rate\<close>

definition i2c_set_rate :: "(pll_chan \<Rightarrow> u32) \<Rightarrow> bool \<Rightarrow> u32 \<Rightarrow> u32 \<Rightarrow> u32 \<Rightarrow> ('r, unit) io" where
  "i2c_set_rate entry rpi4 xtal_freq busnum rate =
     (if unat busnum \<ge> length i2c_base then panic ''i2c_base index''
      else do {
        let regs = i2c_base ! unat busnum;
        base_freq \<leftarrow> get_vpu_per_freq entry rpi4 xtal_freq;
        if rate = 0 then panic ''Division by zero''
        else do {
          let d = base_freq div rate;
          let d = (if d \<ge> push_bit 16 1 then 0xffff else d);
          let fedl = (if drop_bit 4 d \<noteq> 0 then drop_bit 4 d else 1);
          let redl = (if drop_bit 2 d \<noteq> 0 then drop_bit 2 d else 1);
          wr (i2c_div regs) (d AND 0xffff);
          wr (i2c_del regs) (push_bit 16 fedl OR redl)
        }
      })"

definition cmd_i2c_set_rate :: "(pll_chan \<Rightarrow> u32) \<Rightarrow> bool \<Rightarrow> u32 \<Rightarrow> cmd_arg list \<Rightarrow> ('r, int) io" where
  "cmd_i2c_set_rate entry rpi4 xtal_freq argv =
     (if length argv \<noteq> 3 then do { printf ''usage: i2c_set_rate <bus> <rate>'' []; return (-1) }
      else do {
        i2c_set_rate entry rpi4 xtal_freq (arg_u (argv ! 1)) (arg_u (argv ! 2));
        return 0
      })"

subsection \<open>A transfer\<close>

definition i2c_clear_fifo :: "u32 \<Rightarrow> ('r, unit) io" where
  "i2c_clear_fifo regs = reg_or (i2c_ctrl regs) (I2C_C_CLEAR0 OR I2C_C_CLEAR1)"

text \<open>The loop that sends; \<open>False\<close> is the early return of the whole transfer.\<close>

primrec send_bytes :: "u32 \<Rightarrow> u8 list \<Rightarrow> ('r, bool) io" where
  "send_bytes regs [] = return True"
| "send_bytes regs (b # bs) = do {
     _ \<leftarrow> poll (i2c_stat regs) (\<lambda>v. v AND (I2C_S_CLKT OR I2C_S_ERR OR I2C_S_TXD) \<noteq> 0);
     v \<leftarrow> rd (i2c_stat regs);
     if v AND (I2C_S_CLKT OR I2C_S_ERR) \<noteq> 0 then do {
       wr (i2c_stat regs) (I2C_S_CLKT OR I2C_S_ERR OR I2C_S_DONE);
       return False
     } else do {
       wr (i2c_fifo regs) (u32_of8 b);
       send_bytes regs bs
     }
   }"

text \<open>The loop that receives; its state is what has come and what is still to come.\<close>

definition recv_turn :: "u32 \<Rightarrow> u8 list \<times> u32 \<Rightarrow> ('r, (u8 list \<times> u32) + (u8 list \<times> u32)) io" where
  "recv_turn regs = (\<lambda>(got, recvsz). do {
     v \<leftarrow> rd (i2c_stat regs);
     if v AND I2C_S_ERR \<noteq> 0 then return (Inr (got, recvsz))
     else do {
       v \<leftarrow> rd (i2c_stat regs);
       if v AND I2C_S_RXD \<noteq> 0 then do {
         b \<leftarrow> rd (i2c_fifo regs);
         let recvsz = recvsz - 1;
         return (if recvsz = 0 then Inr (got @ [u8_of b], recvsz) else Inl (got @ [u8_of b], recvsz))
       } else return (Inl (got, recvsz))
     }
   })"

text \<open>The sending half: \<open>None\<close> is the early return, otherwise \<^verbatim>\<open>ret\<close> and \<^verbatim>\<open>recvsz\<close> after it.\<close>

definition i2c_send :: "u32 \<Rightarrow> u8 list \<Rightarrow> u32 \<Rightarrow> ('r, (int \<times> u32) option) io" where
  "i2c_send regs sendbuf recvsz =
     (if sendbuf = [] then return (Some (0, recvsz))
      else do {
        wr (i2c_dlen regs) (of_nat (length sendbuf));
        reg_or (i2c_ctrl regs) I2C_C_ST;
        _ \<leftarrow> poll (i2c_stat regs) (\<lambda>v. v AND (I2C_S_ERR OR I2C_S_TA) \<noteq> 0);
        ok \<leftarrow> send_bytes regs sendbuf;
        if \<not> ok then return None
        else do {
          _ \<leftarrow> poll (i2c_stat regs) (\<lambda>v. v AND (I2C_S_CLKT OR I2C_S_ERR OR I2C_S_DONE) \<noteq> 0);
          v \<leftarrow> rd (i2c_stat regs);
          if v AND (I2C_S_CLKT OR I2C_S_ERR) \<noteq> 0 then do {
            _ \<leftarrow> poll (i2c_stat regs) (\<lambda>v. v AND I2C_S_TA = 0);
            st \<leftarrow> rd (i2c_stat regs);
            printf ''Write failed, status 0x%08x'' [U st];
            return (Some (-1, 0))
          } else return (Some (0, recvsz))
        }
      })"

definition i2c_recv :: "u32 \<Rightarrow> int \<Rightarrow> u32 \<Rightarrow> ('r, int \<times> u8 list) io" where
  "i2c_recv regs ret recvsz =
     (if recvsz = 0 then return (ret, [])
      else do {
        wr (i2c_dlen regs) recvsz;
        reg_or (i2c_ctrl regs) (I2C_C_ST OR I2C_C_READ);
        _ \<leftarrow> poll (i2c_stat regs) (\<lambda>v. v AND (I2C_S_ERR OR I2C_S_DONE OR I2C_S_TA) \<noteq> 0);
        (got, recvsz) \<leftarrow> loop ([], 0) (recv_turn regs) ([], recvsz);
        left \<leftarrow> (if recvsz = 0 then rd (i2c_dlen regs) else return 1);
        if left = 0 then do {
          _ \<leftarrow> poll (i2c_stat regs) (\<lambda>v. v AND I2C_S_DONE \<noteq> 0);
          return (ret, got)
        } else do {
          st \<leftarrow> rd (i2c_stat regs);
          printf ''Read failed, status 0x%08x'' [U st];
          return (-1, got)
        }
      })"

definition i2c_settle :: "u32 \<Rightarrow> ('r, unit) io" where
  "i2c_settle regs = do {
     v \<leftarrow> rd (i2c_stat regs);
     when_io (v AND (I2C_S_CLKT OR I2C_S_ERR) \<noteq> 0)
       (while_io (do {
          v \<leftarrow> rd (i2c_stat regs);
          if v AND I2C_S_TA = 0 then return False
          else do { v \<leftarrow> rd (i2c_stat regs); return (v AND I2C_S_RXD = 0) }
        }) (return ()))
   }"

definition i2c_start :: "u32 \<Rightarrow> u32 \<Rightarrow> ('r, unit) io" where
  "i2c_start regs addr = do {
     wr (i2c_ctrl regs) I2C_C_I2CEN;
     wr (i2c_stat regs) (I2C_S_CLKT OR I2C_S_ERR OR I2C_S_DONE);
     i2c_clear_fifo regs;
     wr (i2c_addr regs) addr
   }"

definition i2c_stop :: "u32 \<Rightarrow> ('r, unit) io" where
  "i2c_stop regs = do {
     i2c_settle regs;
     wr (i2c_stat regs) (I2C_S_CLKT OR I2C_S_ERR OR I2C_S_DONE);
     i2c_clear_fifo regs;
     wr (i2c_ctrl regs) 0
   }"

definition i2c_xfer :: "u32 \<Rightarrow> u32 \<Rightarrow> u8 list \<Rightarrow> u32 \<Rightarrow> ('r, int \<times> u8 list) io" where
  "i2c_xfer busnum addr sendbuf recvsz =
     (if busnum > 7 then return (-1, [])
      else do {
        let regs = i2c_base ! unat busnum;
        i2c_start regs addr;
        r \<leftarrow> i2c_send regs sendbuf recvsz;
        (case r of
           None \<Rightarrow> return (-1, [])
         | Some (ret, recvsz) \<Rightarrow> do {
             x \<leftarrow> i2c_recv regs ret recvsz;
             i2c_stop regs;
             return x
           })
      })"

subsection \<open>The transfer command\<close>

definition unhex :: "char \<Rightarrow> int" where
  "unhex c = (let n = int (of_char c) in
     if 0x30 \<le> n \<and> n \<le> 0x39 then n - 0x30
     else if 0x61 \<le> n \<and> n \<le> 0x66 then n - 0x61 + 10
     else if 0x41 \<le> n \<and> n \<le> 0x46 then n - 0x41 + 10
     else -1)"

text \<open>The bytes of a string of digit pairs; \<open>None\<close> is the error of an odd number of digits.\<close>

fun unhex_pairs :: "string \<Rightarrow> u8 list option" where
  "unhex_pairs [] = Some []"
| "unhex_pairs [c] = None"
| "unhex_pairs (c # d # cs) =
     map_option ((#) (push_bit 4 (of_int (unhex c)) OR of_int (unhex d))) (unhex_pairs cs)"

definition cmd_i2c_xfer :: "cmd_arg list \<Rightarrow> ('r, int) io" where
  "cmd_i2c_xfer argv =
     (if length argv \<noteq> 5 then do { printf ''usage: i2c_xfer <bus> <addr> <hex_str> <recv_len>'' []; return (-1) }
      else (case unhex_pairs (arg_str (argv ! 3)) of
          None \<Rightarrow> do { printf ''Hex string must have an even number of digits!'' []; return (-1) }
        | Some send_buf \<Rightarrow> do {
            (status, got) \<leftarrow> i2c_xfer (arg_u (argv ! 1)) (arg_u (argv ! 2)) send_buf (arg_u (argv ! 4));
            if status < 0 then do { printf ''Transfer failed: %d'' [I status]; return (-1) }
            else do {
              for_each got (\<lambda>b. printf ''%02x '' [U (u32_of8 b)]);
              printf '''' [];
              return 0
            }
          }))"

subsection \<open>Library: what goes into the FIFO\<close>

definition fifo_out :: "u32 \<Rightarrow> event list \<Rightarrow> u32 list" where
  "fifo_out regs es = map snd (filter (\<lambda>(a, v). a = i2c_fifo regs) (writes es))"

lemma fifo_out_simps [simp]:
  "fifo_out regs [] = []" "fifo_out regs (es @ fs) = fifo_out regs es @ fifo_out regs fs"
  "fifo_out regs (Rd a # es) = fifo_out regs es" "fifo_out regs (Print f xs # es) = fifo_out regs es"
  "fifo_out regs (Wr a v # es) = (if a = i2c_fifo regs then [v] else []) @ fifo_out regs es"
  by (simp_all add: fifo_out_def)

definition no_fifo :: "u32 \<Rightarrow> event \<Rightarrow> bool" where
  "no_fifo regs e \<longleftrightarrow> (case e of Wr a v \<Rightarrow> a \<noteq> i2c_fifo regs | _ \<Rightarrow> True)"

lemma no_fifo_simps [simp]: "no_fifo regs (Rd a)" "no_fifo regs (Print f xs)"
  "no_fifo regs (Wr a v) \<longleftrightarrow> a \<noteq> i2c_fifo regs"
  by (simp_all add: no_fifo_def)

lemma fifo_out_none: "list_all (no_fifo regs) es \<Longrightarrow> fifo_out regs es = []"
  by (induction es rule: writes.induct) simp_all

lemma other_regs: "i2c_ctrl regs \<noteq> i2c_fifo regs" "i2c_stat regs \<noteq> i2c_fifo regs"
  "i2c_dlen regs \<noteq> i2c_fifo regs" "i2c_addr regs \<noteq> i2c_fifo regs"
  by (simp_all add: i2c_regs)

lemma run_no_fifo:
  assumes "effects (no_fifo regs) m" "run_state m s = (x, s')"
  shows "fifo_out regs (bus s') = fifo_out regs (bus s)"
proof -
  obtain es where "bus s' = bus s @ es" "list_all (no_fifo regs) es"
    using effectsE [OF assms(1), of s] assms(2) by (metis snd_conv)
  then show ?thesis by (simp add: fifo_out_none)
qed

lemma no_fifo_clear: "effects (no_fifo regs) (i2c_clear_fifo regs)"
  unfolding i2c_clear_fifo_def by (intro emit_intros) (simp_all add: other_regs)

lemma no_fifo_recv: "effects (no_fifo regs) (i2c_recv regs ret recvsz)"
proof -
  have "effects (no_fifo regs) (recv_turn regs x)" for x
    by (cases x) (auto simp: recv_turn_def Let_def intro!: emit_intros)
  then show ?thesis
    unfolding i2c_recv_def
    by (auto intro!: emit_intros simp: other_regs)
qed

lemma no_fifo_settle: "effects (no_fifo regs) (i2c_settle regs)"
  unfolding i2c_settle_def by (intro emit_intros) (simp_all add: other_regs)

lemma no_fifo_start: "effects (no_fifo regs) (i2c_start regs addr)"
  unfolding i2c_start_def by (intro emit_intros no_fifo_clear) (simp_all add: other_regs)

lemma no_fifo_stop: "effects (no_fifo regs) (i2c_stop regs)"
  unfolding i2c_stop_def by (intro emit_intros no_fifo_clear no_fifo_settle) (simp_all add: other_regs)

lemma send_bytes_inert: "inert (send_bytes regs bs)"
  by (induction bs) (auto intro!: inert_intros)

lemma i2c_parts_inert: "inert (i2c_send regs bs n)" "inert (i2c_recv regs ret n)" "inert (i2c_stop regs)"
  unfolding i2c_send_def i2c_recv_def i2c_stop_def i2c_settle_def i2c_clear_fifo_def
  by (auto intro!: inert_intros send_bytes_inert)

lemma i2c_stop_off:
  assumes "run_state (i2c_stop regs) s = (x, s')" "running s'"
  shows "last_write (i2c_ctrl regs) (bus s') = Some 0"
proof -
  let ?m = "do {
     i2c_settle regs;
     wr (i2c_stat regs) (I2C_S_CLKT OR I2C_S_ERR OR I2C_S_DONE);
     i2c_clear_fifo regs }"
  have "run_state (?m \<bind> (\<lambda>_. wr (i2c_ctrl regs) 0)) s = (x, s')" using assms(1) by (simp add: i2c_stop_def)
  then obtain y s1 where "running s1" "run_state (wr (i2c_ctrl regs) 0) s1 = (x, s')"
    by (rule inert_running [where f = "\<lambda>_. wr (i2c_ctrl regs) 0", OF inert_prims(3) _ assms(2)])
  then show ?thesis by auto
qed

lemma send_bytes_fifo:
  assumes "run_state (send_bytes regs bs) s = (ok, s')" "running s" "running s'"
  shows "\<exists>k. fifo_out regs (bus s') = fifo_out regs (bus s) @ map u32_of8 (take k bs) \<and> (ok \<longrightarrow> k = length bs)"
  using assms
proof (induction bs arbitrary: s)
  case Nil
  then show ?case by simp
next
  case (Cons b bs)
  let ?c = "\<lambda>v. v AND (I2C_S_CLKT OR I2C_S_ERR OR I2C_S_TXD) \<noteq> 0"
  let ?err = "\<lambda>v. v AND (I2C_S_CLKT OR I2C_S_ERR) \<noteq> 0"
  let ?k = "\<lambda>v. if ?err v then do {
       wr (i2c_stat regs) (I2C_S_CLKT OR I2C_S_ERR OR I2C_S_DONE);
       return False
     } else do { wr (i2c_fifo regs) (u32_of8 b); send_bytes regs bs }"
  have i: "inert (do { v \<leftarrow> rd (i2c_stat regs); ?k v })" for v :: u32
    by (auto intro!: inert_intros send_bytes_inert)
  have "run_state (poll (i2c_stat regs) ?c \<bind> (\<lambda>_. do { v \<leftarrow> rd (i2c_stat regs); ?k v })) s = (ok, s')"
    using Cons.prems(1) by simp
  then obtain x s1 where 1: "run_state (poll (i2c_stat regs) ?c) s = (x, s1)" "running s1"
    "run_state (do { v \<leftarrow> rd (i2c_stat regs); ?k v }) s1 = (ok, s')"
    by (rule inert_running [OF i _ Cons.prems(3)])
  have f1: "fifo_out regs (bus s1) = fifo_out regs (bus s)"
    by (rule run_no_fifo [OF _ 1(1)]) (auto intro!: emit_intros)
  show ?case
  proof (cases "?err (cur s1 (i2c_stat regs))")
    case True
    then show ?thesis using 1(2,3) f1 by (auto simp: other_regs intro!: exI [of _ 0])
  next
    case False
    let ?t = "log [Rd (i2c_stat regs), Wr (i2c_fifo regs) (u32_of8 b)] s1"
    have "run_state (send_bytes regs bs) ?t = (ok, s')" using 1(2,3) False by simp
    then obtain k where "fifo_out regs (bus s') = fifo_out regs (bus ?t) @ map u32_of8 (take k bs)" "ok \<longrightarrow> k = length bs"
      using Cons.IH [of ?t] 1(2) Cons.prems(3) by auto
    then show ?thesis using f1 by (intro exI [of _ "Suc k"]) simp
  qed
qed

lemma i2c_send_fifo:
  assumes "run_state (i2c_send regs bs n) s = (r, s')" "running s" "running s'"
  shows "\<exists>k. fifo_out regs (bus s') = fifo_out regs (bus s) @ map u32_of8 (take k bs) \<and>
    (case r of None \<Rightarrow> True | Some (ret, m) \<Rightarrow> k = length bs \<and> (ret = 0 \<and> m = n \<or> ret = -1 \<and> m = 0))"
proof (cases "bs = []")
  case True
  then show ?thesis using assms(1) by (intro exI [of _ 0]) (auto simp: i2c_send_def)
next
  case False
  let ?finish = "do {
          _ \<leftarrow> poll (i2c_stat regs) (\<lambda>v. v AND (I2C_S_CLKT OR I2C_S_ERR OR I2C_S_DONE) \<noteq> 0);
          v \<leftarrow> rd (i2c_stat regs);
          if v AND (I2C_S_CLKT OR I2C_S_ERR) \<noteq> 0 then do {
            _ \<leftarrow> poll (i2c_stat regs) (\<lambda>v. v AND I2C_S_TA = 0);
            st \<leftarrow> rd (i2c_stat regs);
            printf ''Write failed, status 0x%08x'' [U st];
            return (Some (-1, 0))
          } else return (Some (0, n)) }"
  let ?front = "do {
        wr (i2c_dlen regs) (of_nat (length bs));
        reg_or (i2c_ctrl regs) I2C_C_ST;
        poll (i2c_stat regs) (\<lambda>v. v AND (I2C_S_ERR OR I2C_S_TA) \<noteq> 0) }"
  let ?given = "\<lambda>ok. if \<not> ok then return None else ?finish"
  have i: "inert (?given ok)" "inert (do { ok \<leftarrow> send_bytes regs bs; ?given ok })" for ok
    by (auto intro!: inert_intros send_bytes_inert)
  have "run_state (?front \<bind> (\<lambda>_. do { ok \<leftarrow> send_bytes regs bs; ?given ok })) s = (r, s')"
    using assms(1) False by (simp add: i2c_send_def)
  then obtain x s1 where 1: "run_state ?front s = (x, s1)" "running s1"
    "run_state (do { ok \<leftarrow> send_bytes regs bs; ?given ok }) s1 = (r, s')"
    by (rule inert_running [OF i(2) _ assms(3)])
  obtain ok s2 where 2: "run_state (send_bytes regs bs) s1 = (ok, s2)" "running s2" "run_state (?given ok) s2 = (r, s')"
    by (rule inert_running [OF i(1) 1(3) assms(3)])
  have f1: "fifo_out regs (bus s1) = fifo_out regs (bus s)"
    by (rule run_no_fifo [OF _ 1(1)]) (auto intro!: emit_intros simp: other_regs)
  have f2: "fifo_out regs (bus s') = fifo_out regs (bus s2)"
    by (rule run_no_fifo [OF _ 2(3)]) (auto intro!: emit_intros simp: other_regs)
  have "yields (\<lambda>r. case r of None \<Rightarrow> \<not> ok | Some (ret, m) \<Rightarrow> ok \<and> (ret = 0 \<and> m = n \<or> ret = -1 \<and> m = 0)) (?given ok)"
    by (cases ok) (auto intro!: yields_intros)
  from yieldsD [OF this 2(3)] send_bytes_fifo [OF 2(1) 1(2) 2(2)] f1 f2 show ?thesis
    by (auto split: option.splits)
qed

lemma recv_turn_result:
  assumes "run_state (recv_turn regs (g, m)) t = (r, t')"
  shows "r = Inr (g, m) \<or> r = Inl (g, m) \<or>
    (\<exists>b. r = (if m - 1 = 0 then Inr (g @ [b], m - 1) else Inl (g @ [b], m - 1)))"
proof -
  have "yields (\<lambda>r. r = Inr (g, m) \<or> r = Inl (g, m) \<or>
    (\<exists>b. r = (if m - 1 = 0 then Inr (g @ [b], m - 1) else Inl (g @ [b], m - 1)))) (recv_turn regs (g, m))"
    unfolding recv_turn_def Let_def by (simp only: prod.case) (intro yields_intros; blast)
  from yieldsD [OF this assms] show ?thesis .
qed

lemma i2c_recv_length:
  fixes s s' :: "'r mach_scheme"
  assumes "run_state (i2c_recv regs ret n) s = ((r, got), s')" "running s" "running s'"
  shows "(r = ret \<and> length got = unat n) \<or> r = -1"
proof (cases "n = 0")
  case True
  then show ?thesis using assms(1) by (simp add: i2c_recv_def)
next
  case False
  let ?given = "\<lambda>(got, recvsz). do {
        left \<leftarrow> (if recvsz = 0 then rd (i2c_dlen regs) else return 1);
        if left = 0 then do {
          _ \<leftarrow> poll (i2c_stat regs) (\<lambda>v. v AND I2C_S_DONE \<noteq> 0);
          return (ret, got)
        } else do {
          st \<leftarrow> rd (i2c_stat regs);
          printf ''Read failed, status 0x%08x'' [U st];
          return (-1, got)
        } }"
  let ?front = "do {
        wr (i2c_dlen regs) n;
        reg_or (i2c_ctrl regs) (I2C_C_ST OR I2C_C_READ);
        poll (i2c_stat regs) (\<lambda>v. v AND (I2C_S_ERR OR I2C_S_DONE OR I2C_S_TA) \<noteq> 0) }"
  have i: "inert (?given x)" "inert (loop ([], 0) (recv_turn regs) ([], n) \<bind> ?given)" for x
    by (cases x; auto intro!: inert_intros)+
  have "run_state (?front \<bind> (\<lambda>_. loop ([], 0) (recv_turn regs) ([], n) \<bind> ?given)) s = ((r, got), s')"
    using assms(1) False by (simp add: i2c_recv_def)
  then obtain x s1 where 1: "running s1" "run_state (loop ([], 0) (recv_turn regs) ([], n) \<bind> ?given) s1 = ((r, got), s')"
    by (rule inert_running [OF i(2) _ assms(3)])
  obtain y s2 where 2: "run_state (loop ([], 0) (recv_turn regs) ([], n)) s1 = (y, s2)" "running s2"
    "run_state (?given y) s2 = ((r, got), s')"
    by (rule inert_running [OF i(1) 1(2) assms(3)])
  define P where "P = (\<lambda>(g :: u8 list, m :: u32) (t :: 'r mach_scheme). m \<noteq> 0 \<and> length g + unat m = unat n)"
  have dec: "unat (m - 1) = unat m - 1" if "m \<noteq> 0" for m :: u32
    using that by (simp add: unat_sub unat_minus_one)
  have pos: "unat m > 0" if "m \<noteq> 0" for m :: u32
    using that by (simp add: unat_gt_0)
  have turn: "P x' s1'" if "P x t" "running t" "run_state (recv_turn regs x) t = (Inl x', s1')" "running s1'" for x t x' s1'
  proof (cases x)
    case (Pair g m)
    with that(1) have m: "m \<noteq> 0" "length g + unat m = unat n" by (simp_all add: P_def)
    from recv_turn_result [of regs g m t "Inl x'" s1'] that(3)
    consider "x' = (g, m)" | b where "m - 1 \<noteq> 0" "x' = (g @ [b], m - 1)"
      by (auto simp: Pair split: if_splits)
    then show ?thesis using m dec [OF m(1)] pos [OF m(1)] by cases (simp_all only: P_def, simp_all)
  qed
  have p: "P ([], n) s1" using False by (simp add: P_def)
  have "\<exists>x t. P x t \<and> running t \<and> run_state (recv_turn regs x) t = (Inr y, s2)"
    by (rule loop_last [where P = P, OF 1(1) 2(1,2) p]) (rule turn)
  then obtain x t where t: "P x t" "running t" "run_state (recv_turn regs x) t = (Inr y, s2)" by blast
  have "snd y = 0 \<longrightarrow> length (fst y) = unat n"
  proof (cases x)
    case (Pair g m)
    with t(1) have m: "m \<noteq> 0" "length g + unat m = unat n" by (simp_all add: P_def)
    from recv_turn_result [of regs g m t "Inr y" s2] t(3)
    consider "y = (g, m)" | b where "m - 1 = 0" "y = (g @ [b], m - 1)"
      by (auto simp: Pair split: if_splits)
    then show ?thesis using m dec [OF m(1)] pos [OF m(1)] by cases (simp_all del: diff_eq_eq)
  qed
  moreover have "yields (\<lambda>(r, got). got = fst y \<and> (r = ret \<and> snd y = 0 \<or> r = -1)) (?given y)"
    by (cases y) (auto intro!: yields_intros)
  ultimately show ?thesis using yieldsD [OF _ 2(3)] by fastforce
qed

subsection \<open>Errors that are not handled\<close>

text \<open>An error while sending ends the transfer at once: the controller stays enabled.\<close>

lemma i2c_send_error_stops_nothing:
  assumes "running s" "busnum \<le> 7"
    and "run_state (i2c_start (i2c_base ! unat busnum) addr) s = ((), s1)"
    and "run_state (i2c_send (i2c_base ! unat busnum) bs n) s1 = (None, s2)"
  shows "run_state (i2c_xfer busnum addr bs n) s = ((- 1, []), s2)"
  using assms by (simp add: i2c_xfer_def Let_def not_less)

text \<open>A character that is no digit is sent as ones; a rate of zero and a ninth bus stop the machine.\<close>

lemma i2c_no_digit_accepted: "unhex_pairs ''g0'' = Some [0xf0]" "unhex_pairs ''0g'' = Some [0xff]"
  by code_simp+

lemma i2c_rate_arguments_unchecked:
  "running s \<Longrightarrow> status (snd (run_state (i2c_set_rate entry rpi4 xtal 8 rate) s)) = Panicked ''i2c_base index''"
  by (simp add: i2c_set_rate_def i2c_base_def)

subsection \<open>Properties\<close>

text \<open>C31.  A transfer, whatever the bus does.  When \<^verbatim>\<open>i2c_xfer\<close> returns, only a first part of the bytes has
  gone into the FIFO, in order; it returns 0 only if that part is all of them and exactly the
  requested number of bytes has come back, and then the controller is switched off.\<close>

theorem i2c_xfer_complete:
  assumes "running s" and "busnum \<le> 7" and "run_state (i2c_xfer busnum addr bs n) s = ((r, got), s')"
    and "running s'" and "regs = i2c_base ! unat busnum"
  shows "(\<exists>k. fifo_out regs (bus s') = fifo_out regs (bus s) @ map u32_of8 (take k bs) \<and> (r = 0 \<longrightarrow> k = length bs)) \<and>
    (r = 0 \<longrightarrow> length got = unat n \<and> last_write (i2c_ctrl regs) (bus s') = Some 0) \<and> r \<in> {0, -1}"
proof -
  let ?tail = "\<lambda>(ret, recvsz). do { x \<leftarrow> i2c_recv regs ret recvsz; i2c_stop regs; return x }"
  let ?rest = "\<lambda>r. case r of None \<Rightarrow> return (-1, []) | Some p \<Rightarrow> ?tail p"
  have i: "inert (i2c_stop regs \<bind> (\<lambda>_. return x))" "inert (?tail p)" "inert (?rest q)" "inert (i2c_send regs bs n \<bind> ?rest)"
    for x p q by (auto intro!: inert_intros i2c_parts_inert split: option.splits prod.splits)
  have nb: "(busnum > 7) = False" using assms(2) by auto
  have "run_state (i2c_start regs addr \<bind> (\<lambda>_. i2c_send regs bs n \<bind> ?rest)) s = ((r, got), s')"
    using assms(3,5) nb by (simp add: i2c_xfer_def Let_def)
  then obtain x s1 where 1: "run_state (i2c_start regs addr) s = (x, s1)" "running s1"
    "run_state (i2c_send regs bs n \<bind> ?rest) s1 = ((r, got), s')"
    by (rule inert_running [OF i(4) _ assms(4)])
  obtain q s2 where 2: "run_state (i2c_send regs bs n) s1 = (q, s2)" "running s2" "run_state (?rest q) s2 = ((r, got), s')"
    by (rule inert_running [OF i(3) 1(3) assms(4)])
  obtain k where k: "fifo_out regs (bus s2) = fifo_out regs (bus s) @ map u32_of8 (take k bs)"
    "case q of None \<Rightarrow> True | Some (ret, m) \<Rightarrow> k = length bs \<and> (ret = 0 \<and> m = n \<or> ret = -1 \<and> m = 0)"
    using i2c_send_fifo [OF 2(1) 1(2) 2(2)] run_no_fifo [OF no_fifo_start 1(1)] by auto
  show ?thesis
  proof (cases q)
    case None
    then show ?thesis using 2(3) k(1) by auto
  next
    case (Some p)
    obtain ret m where p: "p = (ret, m)" by fastforce
    have "run_state (i2c_recv regs ret m \<bind> (\<lambda>x. i2c_stop regs \<bind> (\<lambda>_. return x))) s2 = ((r, got), s')"
      using 2(3) Some p by simp
    then obtain y s3 where 3: "run_state (i2c_recv regs ret m) s2 = (y, s3)" "running s3"
      "run_state (i2c_stop regs \<bind> (\<lambda>_. return y)) s3 = ((r, got), s')"
      by (rule inert_running [OF i(1) _ assms(4)])
    obtain z where 4: "run_state (i2c_stop regs) s3 = (z, s')" and y: "y = (r, got)"
      using 3(3) by (auto split: prod.splits)
    have "fifo_out regs (bus s') = fifo_out regs (bus s) @ map u32_of8 bs"
      using k Some p run_no_fifo [OF no_fifo_recv 3(1)] run_no_fifo [OF no_fifo_stop 4] by simp
    moreover have "r = ret \<and> length got = unat m \<or> r = -1"
      using i2c_recv_length [of regs ret m s2 r got] 2(2) 3(1,2) y by simp
    ultimately show ?thesis
      using k(2) Some p i2c_stop_off [OF 4 assms(4)] by (auto intro!: exI [of _ "length bs"])
  qed
qed

text \<open>A bus that is always ready: it sends, receives 0xA5 and is done at once.\<close>

definition ready_i2c :: device where
  "ready_i2c h a =
     (if a = i2c_stat I2C1_BASE then I2C_S_TA OR I2C_S_DONE OR I2C_S_TXD OR I2C_S_RXD
      else if a = i2c_fifo I2C1_BASE then 0xA5 else 0)"

theorem i2c_xfer_complete_witness:
  "\<exists>s'. run_state (i2c_xfer 1 0x50 [1, 2] 1) (boot ready_i2c) = ((0, [0xA5]), s') \<and>
     fifo_out I2C1_BASE (bus s') = [1, 2]"
proof -
  have c: "dev s = ready_i2c \<Longrightarrow> cur s (i2c_stat I2C1_BASE) = 0x33"
    "dev s = ready_i2c \<Longrightarrow> cur s (i2c_fifo I2C1_BASE) = 0xA5"
    "dev s = ready_i2c \<Longrightarrow> cur s (i2c_dlen I2C1_BASE) = 0" for s :: mach
    by (simp_all add: cur_def ready_i2c_def i2c_regs reg_defs)
  have l: "dev s = ready_i2c \<Longrightarrow> running s \<Longrightarrow> run_state (loop ([], 0) (recv_turn I2C1_BASE) ([], 1)) s =
     (([0xA5], 0), log [Rd (i2c_stat I2C1_BASE), Rd (i2c_stat I2C1_BASE), Rd (i2c_fifo I2C1_BASE)] s)" for s :: mach
    by (rule loop_finish) (simp_all add: recv_turn_def c I2C_S_ERR_def I2C_S_RXD_def u8_of_def)
  have "fst (run_state (i2c_xfer 1 0x50 [1, 2] 1) (boot ready_i2c)) = (0, [0xA5]) \<and>
      running (snd (run_state (i2c_xfer 1 0x50 [1, 2] 1) (boot ready_i2c)))"
    by (simp add: i2c_xfer_def i2c_base_def i2c_start_def i2c_send_def i2c_recv_def i2c_stop_def
        i2c_settle_def i2c_clear_fifo_def poll_now c l I2C_S_ERR_def I2C_S_RXD_def I2C_S_TA_def I2C_S_TXD_def
        I2C_S_CLKT_def I2C_S_DONE_def)
  then obtain s' where run: "run_state (i2c_xfer 1 0x50 [1, 2] 1) (boot ready_i2c) = ((0, [0xA5]), s')" "running s'"
    by (metis prod.collapse)
  have r: "I2C1_BASE = i2c_base ! unat (1 :: u32)" by (simp add: i2c_base_def)
  have w: "fifo_out I2C1_BASE (bus s') = map u32_of8 [1, 2]"
    using i2c_xfer_complete [OF _ _ run r] by auto
  then show ?thesis using run by (auto simp: u32_of8_def)
qed

text \<open>The printed form of the bytes received, without the blanks, reads back as the bytes.\<close>

definition hex_digit :: "nat \<Rightarrow> char" where
  "hex_digit n = (if n < 10 then char_of (0x30 + n) else char_of (0x57 + n))"

definition hex_of :: "u8 list \<Rightarrow> string" where
  "hex_of bs = concat (map (\<lambda>b. [hex_digit (unat (drop_bit 4 b)), hex_digit (unat (b AND 0xf))]) bs)"

lemma unhex_digit: "n < 16 \<Longrightarrow> unhex (hex_digit n) = int n"
  by (auto simp: unhex_def hex_digit_def Let_def of_char_of take_bit_eq_mod)

lemma u8_nibbles: "push_bit 4 (drop_bit 4 b) OR (b AND 0xf) = (b :: u8)"
proof (rule bit_word_eqI)
  fix n assume "n < LENGTH(8)"
  have "bit (0xf :: u8) n \<longleftrightarrow> n < 4" using bit_mask_iff [of 4 n, where 'a = "8 word"] \<open>n < LENGTH(8)\<close> by (simp add: mask_numeral)
  then show "bit (push_bit 4 (drop_bit 4 b) OR (b AND 0xf)) n = bit b n"
    using \<open>n < LENGTH(8)\<close> by (auto simp: bit_simps)
qed

text \<open>The hexadecimal argument of the transfer command: the two-digit form in which the command
  prints received bytes reads back as those bytes, and a string with an odd number of digits is
  refused.\<close>

theorem i2c_hex_roundtrip:
  "unhex_pairs (hex_of bs) = Some bs \<and> unhex_pairs (hex_of bs @ [c]) = None"
proof (induction bs)
  case (Cons b bs)
  have "unat b < 2 ^ LENGTH(8)" by (rule unsigned_less)
  then have "unat b < 16 * 16" by simp
  then have h: "unat (drop_bit 4 b) < 16" "unat (b AND 0xf) < 16"
    using word_and_le_mask [of b "0xf"] by (simp_all add: drop_bit_eq_div unat_div less_mult_imp_div_less)
  have "push_bit 4 (of_int (unhex (hex_digit (unat (drop_bit 4 b))))) OR
      of_int (unhex (hex_digit (unat (b AND 0xf)))) = b"
    using unhex_digit [OF h(1)] unhex_digit [OF h(2)] u8_nibbles [of b] by simp
  then show ?case using Cons by (simp add: hex_of_def)
qed (simp add: hex_of_def)

end
