(* ===== verification/Platform.thy ===== *)
theory Platform
  imports Uart "HOL-Library.Signed_Division"
begin

unbundle bit_operations_syntax

text \<open>
  The platform's set-up (\<^verbatim>\<open>platform/bcm28xx/platform.c\<close>): the order in which the early drivers are
  brought up, the switch of the VPU's own clock to PLL C, the size of memory from the device tree,
  the start of the secondary cores, halting and the debug LED.  The memory map of the MMU builds is
  data for LK and is not modelled.
\<close>

subsection \<open>The code\<close>

text \<open>The builds the source distinguishes by macros.\<close>

datatype variant = Bcm2835 | Bcm2836 | Bcm2837 | Arch_vpu

text \<open>
  What is not part of this repository: LK's physical memory manager and ARM timer, and the device
  tree library.  \<open>fdt_getprop\<close> gives the property as big-endian 64-bit cells and its length in bytes.
  \<open>set_spin_table i\<close> enters the address of \<^verbatim>\<open>arm_reset\<close> for core \<open>i\<close> of the 64-bit build and wakes it.
\<close>

record 'r platform_ops =
  arm_generic_timer_init :: "u32 \<Rightarrow> u32 \<Rightarrow> ('r, unit) io"
  fdt_check_header :: int
  fdt_next_node :: "int \<Rightarrow> int \<Rightarrow> int \<times> int"
  fdt_get_name :: "int \<Rightarrow> string option"
  fdt_getprop :: "int \<Rightarrow> string \<Rightarrow> u64 list option \<times> int"
  pmm_add_arena :: "u64 \<Rightarrow> ('r, unit) io"
  pmm_alloc_range :: "('r, unit) io"
  set_spin_table :: "nat \<Rightarrow> ('r, unit) io"

record platform_mach = irq_mach +
  arena_size :: u64

type_synonym ('r, 'a) plat_io = "('r platform_mach_ext irq_mach_ext, 'a) io"

definition cmd_what_are_you :: "bool \<Rightarrow> ('r, int) io" where
  "cmd_what_are_you arch_vpu = do {
     printf (if arch_vpu then ''i am VPU'' else ''i am arm'') [];
     return 0
   }"

definition switch_vpu_to_pllc :: "u32 \<Rightarrow> ('r, unit) io" where
  "switch_vpu_to_pllc xtal_freq = do {
     switch_vpu_to_src CM_SRC_OSC;
     wr CM_VPUDIV (CM_PASSWORD OR push_bit 12 1);
     let core0_div = 4;
     let per_div = 4;
     let pllc_mhz = (108 * 4 * 4 :: u64);
     setup_pllc xtal_freq (pllc_mhz * 1000 * 1000) core0_div per_div;
     let vpu_divisor = 1;
     wr CM_VPUCTL (CM_PASSWORD OR CM_VPUCTL_FRAC_SET OR CM_SRC_OSC OR CM_VPUCTL_GATE_SET);
     wr CM_VPUDIV (CM_PASSWORD OR push_bit 12 vpu_divisor);
     wr CM_VPUCTL (CM_PASSWORD OR CM_SRC_PLLC_CORE0 OR CM_VPUCTL_GATE_SET);
     wr CM_VPUCTL (CM_PASSWORD OR CM_SRC_PLLC_CORE0 OR CM_VPUCTL_GATE_SET OR 0x10);
     vpu \<leftarrow> measure_clock xtal_freq 5;
     let pllc_core0 = vpu * vpu_divisor;
     let pllc = pllc_core0 * core0_div;
     printf ''VPU now at %dmhz, '' [I (sint vpu sdiv 1000 sdiv 1000)];
     printf ''PLLC_CORE0 at %dmhz, '' [I (sint pllc_core0 sdiv 1000 sdiv 1000)];
     printf ''PLLC at %dmhz'' [U (pllc div 1000 div 1000)]
   }"

text \<open>The device tree: a memory node with a 16-byte \<^verbatim>\<open>reg\<close> sets the size of the arena.\<close>

definition memory_node :: "'a platform_ops \<Rightarrow> bool \<Rightarrow> int \<Rightarrow> ('r, unit) plat_io" where
  "memory_node p arch_arm offset = do {
     printf ''Found memory in fdt'' [];
     (case fdt_getprop p offset ''reg'' of
        (Some cells, lenp) \<Rightarrow> when_io (lenp = 0x10) (do {
          let len = cells ! 1;
          let big = arch_arm \<and> len > 1024 * 1024 * 1024;
          when_io big (printf ''trimming memory to 1GB'' []);
          gset (\<lambda>s. s\<lparr>arena_size := (if big then 1024 * 1024 * 1024 else len)\<rparr>)
        })
      | (None, lenp) \<Rightarrow> return ())
   }"

definition fdt_turn ::
  "'a platform_ops \<Rightarrow> bool \<Rightarrow> int \<times> int \<Rightarrow> ('r, int \<times> int + unit) plat_io" where
  "fdt_turn p arch_arm = (\<lambda>(offset, depth).
     let (offset, depth) = fdt_next_node p offset depth in
     if offset < 0 then return (Inr ())
     else (case fdt_get_name p offset of
         None \<Rightarrow> return (Inl (offset, depth))
       | Some name \<Rightarrow> do {
           when_io (name = ''memory'') (memory_node p arch_arm offset);
           return (Inl (offset, depth))
         }))"

definition read_fdt :: "'a platform_ops \<Rightarrow> bool \<Rightarrow> ('r, unit) plat_io" where
  "read_fdt p arch_arm = when_io (fdt_check_header p \<ge> 0) (loop () (fdt_turn p arch_arm) (0, 0))"

text \<open>
  \<open>early\<close>, \<open>ic\<close>: \<^verbatim>\<open>uart_init_early\<close> and \<^verbatim>\<open>intc_init\<close> of the drivers the build links; \<open>sec_entry\<close>: the
  physical address of \<^verbatim>\<open>arm_reset\<close>; \<open>with_vm\<close>, \<open>with_smp\<close>, \<open>arch_arm\<close>: build switches.
\<close>

definition platform_early_init ::
  "'r platform_mach_ext irq_mach_ext platform_ops \<Rightarrow> variant \<Rightarrow> bool \<Rightarrow> bool \<Rightarrow> bool \<Rightarrow> u32 \<Rightarrow> u32 \<Rightarrow>
     ('r, unit) plat_io \<Rightarrow> ('r, unit) plat_io \<Rightarrow> ('r, unit) plat_io" where
  "platform_early_init p v with_vm with_smp arch_arm sec_entry xtal_freq early ic = do {
     early;
     ic;
     when_io (v = Arch_vpu) (switch_vpu_to_pllc xtal_freq);
     (case v of
        Bcm2837 \<Rightarrow> do {
          arm_generic_timer_init p INTERRUPT_ARM_LOCAL_CNTPNSIRQ 0;
          read_fdt p arch_arm
        }
      | Bcm2836 \<Rightarrow> arm_generic_timer_init p INTERRUPT_ARM_LOCAL_CNTPNSIRQ 1000000
      | _ \<Rightarrow> return ());
     when_io with_vm (do { sz \<leftarrow> gget arena_size; pmm_add_arena p sz });
     when_io (v = Bcm2837) (pmm_alloc_range p);
     when_io with_smp
       (if v = Bcm2837 then for_each [1..<4] (set_spin_table p)
        else for_each [1..<4] (\<lambda>i. wr (ARM_LOCAL_BASE + 0x8c + 0x10 * of_nat i) sec_entry));
     printf ''done platform early init'' []
   }"

text \<open>
  \<open>init_uart\<close>, \<open>init_fb\<close>: \<^verbatim>\<open>uart_init\<close> of the linked driver and \<^verbatim>\<open>init_framebuffer\<close>.  The crystal's
  frequency is printed in MHz, as a \<^verbatim>\<open>double\<close>; the argument here is in Hz.
\<close>

definition BCM_PERIPH_BASE_PHYS :: u32 where "BCM_PERIPH_BASE_PHYS = 0x7e000000"

definition platform_init ::
  "variant \<Rightarrow> bool \<Rightarrow> u32 \<Rightarrow> ('r, unit) io \<Rightarrow> ('r, unit) io \<Rightarrow> ('r, unit) io" where
  "platform_init v rpi4 xtal_freq init_uart init_fb = do {
     when_io (v = Bcm2835) (do { _ \<leftarrow> gpio_config 16 (pinmux_code PinmuxOut); return () });
     when_io rpi4 (do { _ \<leftarrow> gpio_config 42 (pinmux_code PinmuxOut); return () });
     init_uart;
     when_io (v = Bcm2837) init_fb;
     printf ''crystal is %lf MHz'' [U xtal_freq];
     printf ''BCM_PERIPH_BASE_VIRT: 0x%x'' [U BCM_PERIPH_BASE_VIRT];
     printf ''BCM_PERIPH_BASE_PHYS: 0x%x'' [U BCM_PERIPH_BASE_PHYS]
   }"

text \<open>\<open>reboot\<close>: the suggested action is LK's \<^verbatim>\<open>HALT_ACTION_REBOOT\<close>.\<close>

definition platform_halt :: "bool \<Rightarrow> int \<Rightarrow> ('r, unit) io" where
  "platform_halt reboot reason = do {
     printf ''PM_WDOG: 0x%x'' [U PM_WDOG];
     if reboot then do {
       printf ''waiting for watchdog'' [];
       uart_flush_tx 0;
       arch_disable_ints;
       wr PM_WDOG (PM_PASSWORD OR (1 AND PM_WDOG_MASK));
       t \<leftarrow> rd PM_RSTC;
       let t = t AND PM_RSTC_WRCFG_CLR;
       let t = t OR 0x20;
       wr PM_RSTC (PM_PASSWORD OR t);
       spin_forever
     } else do {
       printf ''HALT: spinning forever... (reason = %d)'' [I reason];
       arch_disable_ints;
       spin_forever
     }
   }"

definition target_set_debug_led :: "variant \<Rightarrow> bool \<Rightarrow> u32 \<Rightarrow> bool \<Rightarrow> ('r, unit) io" where
  "target_set_debug_led v rpi4 led on =
     (if led = 0 then
        if rpi4 then gpio_set 42 (of_bool on)
        else when_io (v = Bcm2835) (gpio_set 16 (of_bool (\<not> on)))
      else return ())"


text \<open>The version of the Ethernet controller (\<^verbatim>\<open>genet.c\<close>).\<close>

definition SYS_REV_CTRL :: u32 where [reg_defs]: "SYS_REV_CTRL = GENET_BASE + 0x0"

definition cmd_genet_dump :: "('r, int) io" where
  "cmd_genet_dump = do {
     reg \<leftarrow> rd SYS_REV_CTRL;
     let major = u8_of (drop_bit 24 reg AND 0x0f);
     let major = (if major = 6 then 5 else if major = 5 then 4 else if major = 0 then 1 else major);
     printf ''found GENET controller version %d'' [U (u32_of8 major)];
     return 0
   }"

text \<open>The weak definition, used where \<^verbatim>\<open>pll_read.c\<close> is not linked, and an empty hook.\<close>

definition weak_get_uart_base_freq :: "('r, u32) io" where
  "weak_get_uart_base_freq = return (48 * 1000 * 1000)"

definition platform_init_mmu_mappings :: "('r, unit) io" where
  "platform_init_mmu_mappings = return ()"

subsection \<open>Library: switching the clock of the VPU\<close>

definition pllc_reg :: "u32 \<Rightarrow> bool" where
  "pllc_reg a \<longleftrightarrow> a \<in> {CM_PLLC, A2W_PLLC_FRAC, A2W_PLLC_CTRL, A2W_PLLC_ANA0, A2W_PLLC_ANA1, A2W_PLLC_ANA2,
     A2W_PLLC_ANA3, A2W_PLLC_DIG0, A2W_PLLC_DIG1, A2W_PLLC_DIG2, A2W_PLLC_DIG3, A2W_PLLC_CORE0, A2W_PLLC_PER}"

text \<open>
  After the events \<open>h\<close> (\<open>b\<close> is what happened before): the VPU's clock was last set to the source
  \<open>src\<close>, and the hardware has since reported that the switch is done; PLL C has reported its lock
  since its mode register was last written.
\<close>

definition vpu_runs_on :: "device \<Rightarrow> event list \<Rightarrow> event list \<Rightarrow> u32 \<Rightarrow> bool" where
  "vpu_runs_on d b h src \<longleftrightarrow> (\<exists>v k l. last_write CM_VPUCTL h = Some v \<and> v AND 0xf = src \<and>
     h = k @ Rd CM_VPUCTL # l \<and> last_write CM_VPUCTL k = Some v \<and> d (b @ k) CM_VPUCTL AND CM_VPUCTL_BUSY_SET = 0)"

definition pllc_locked :: "device \<Rightarrow> event list \<Rightarrow> event list \<Rightarrow> bool" where
  "pllc_locked d b h \<longleftrightarrow> (\<exists>k l. h = k @ Rd CM_LOCK # l \<and> BIT_SET (d (b @ k) CM_LOCK) CM_LOCK_FLOCKC_BIT \<and>
     last_write CM_PLLC l = None)"

lemma switch_vpu_to_src_inert [inert_intros]: "inert (switch_vpu_to_src src)"
  unfolding switch_vpu_to_src_def by (intro inert_intros)

lemma setup_pllc_inert [inert_intros]: "inert (setup_pllc x f c p)"
  unfolding setup_pllc_def Let_def print_pllc_def by (intro inert_intros)

lemma measure_clock_inert [inert_intros]: "inert (measure_clock x m)"
  unfolding measure_clock_def Let_def by (intro inert_intros)

lemma measure_clock_avoids:
  "\<not> A CM_TCNTCTL \<Longrightarrow> \<not> A CM_OSCCOUNT \<Longrightarrow> \<not> A CM_TCNTCNT \<Longrightarrow> effects (avoids A) (measure_clock x m)"
  unfolding measure_clock_def Let_def by (intro emit_intros) simp_all

lemma source_field: "(CM_PASSWORD OR (x AND NOT 0xf) OR (src AND 0xf)) AND 0xf = src AND 0xf"
proof -
  have "(x AND NOT 0xf) AND 0xf = (0 :: u32)" by (simp add: and.assoc)
  then show ?thesis by (simp add: bit.conj_disj_distrib2 and.assoc reg_defs)
qed

lemma run_switch_vpu:
  assumes "running s" "run_state (switch_vpu_to_src src) s = ((), s')" "running s'"
  obtains v n where "v AND 0xf = src AND 0xf" "dev s' = dev s"
    "bus s' = bus s @ [Rd CM_VPUCTL, Wr CM_VPUCTL v] @ replicate n (Rd CM_VPUCTL) @ [Rd CM_VPUCTL]"
    "dev s (bus s @ [Rd CM_VPUCTL, Wr CM_VPUCTL v] @ replicate n (Rd CM_VPUCTL)) CM_VPUCTL AND CM_VPUCTL_BUSY_SET = 0"
proof -
  define v where "v = CM_PASSWORD OR (cur s CM_VPUCTL AND NOT 0xf) OR (src AND 0xf)"
  let ?s = "log [Rd CM_VPUCTL, Wr CM_VPUCTL v] s"
  obtain w where "run_state (poll CM_VPUCTL (\<lambda>x. x AND CM_VPUCTL_BUSY_SET = 0)) ?s = (w, s')"
    using assms(1,2) by (auto simp: switch_vpu_to_src_def v_def split: prod.splits)
  then obtain n where n: "w AND CM_VPUCTL_BUSY_SET = 0" "w = answer ?s CM_VPUCTL n"
      "s' = log (replicate (Suc n) (Rd CM_VPUCTL)) ?s"
    using assms(1,3) by (auto elim: poll_running [rotated])
  show thesis
  proof (rule that [of v n])
    show "v AND 0xf = src AND 0xf" unfolding v_def by (rule source_field)
    show "bus s' = bus s @ [Rd CM_VPUCTL, Wr CM_VPUCTL v] @ replicate n (Rd CM_VPUCTL) @ [Rd CM_VPUCTL]"
      using n(3) by (simp add: replicate_append_same)
  qed (use n in \<open>simp_all add: answer_def cur_def\<close>)
qed

lemma setup_pllc_passes:
  "passes (avoids (\<lambda>a. a = CM_VPUCTL)) CM_LOCK (\<lambda>x. BIT_SET x CM_LOCK_FLOCKC_BIT)
     (avoids (\<lambda>a. a \<in> {CM_VPUCTL, CM_PLLC})) (setup_pllc x f c p)"
  unfolding setup_pllc_def Let_def print_pllc_def
  by (intro passes_bind passes_poll emit_intros inert_intros) (simp_all add: reg_defs)


text \<open>The three parts of the trace.\<close>

lemma run_switch_to_pllc:
  assumes "running s" "run_state (switch_vpu_to_pllc x) s = ((), s')" "running s'"
  obtains v n k l e where "v AND 0xf = CM_SRC_OSC" "dev s' = dev s"
    "bus s' = bus s @ ([Rd CM_VPUCTL, Wr CM_VPUCTL v] @ replicate n (Rd CM_VPUCTL) @ [Rd CM_VPUCTL]) @ (k @ Rd CM_LOCK # l) @ e"
    "dev s (bus s @ [Rd CM_VPUCTL, Wr CM_VPUCTL v] @ replicate n (Rd CM_VPUCTL)) CM_VPUCTL AND CM_VPUCTL_BUSY_SET = 0"
    "list_all (avoids (\<lambda>a. a = CM_VPUCTL)) k" "list_all (avoids (\<lambda>a. a \<in> {CM_VPUCTL, CM_PLLC})) l"
    "BIT_SET (dev s (bus s @ ([Rd CM_VPUCTL, Wr CM_VPUCTL v] @ replicate n (Rd CM_VPUCTL) @ [Rd CM_VPUCTL]) @ k) CM_LOCK) CM_LOCK_FLOCKC_BIT"
    "list_all (avoids pllc_reg) e"
proof -
  let ?prog = "do { wr CM_VPUDIV (CM_PASSWORD OR push_bit 12 1); setup_pllc x (108 * 4 * 4 * 1000 * 1000) 4 4 }"
  let ?tail = "do {
     wr CM_VPUCTL (CM_PASSWORD OR CM_VPUCTL_FRAC_SET OR CM_SRC_OSC OR CM_VPUCTL_GATE_SET);
     wr CM_VPUDIV (CM_PASSWORD OR push_bit 12 1);
     wr CM_VPUCTL (CM_PASSWORD OR CM_SRC_PLLC_CORE0 OR CM_VPUCTL_GATE_SET);
     wr CM_VPUCTL (CM_PASSWORD OR CM_SRC_PLLC_CORE0 OR CM_VPUCTL_GATE_SET OR 0x10);
     vpu \<leftarrow> measure_clock x 5;
     printf ''VPU now at %dmhz, '' [I (sint vpu sdiv 1000 sdiv 1000)];
     printf ''PLLC_CORE0 at %dmhz, '' [I (sint vpu sdiv 1000 sdiv 1000)];
     printf ''PLLC at %dmhz'' [U (vpu * 4 div 1000 div 1000)] }"
  have tail: "inert ?tail" "inert (do { _ \<leftarrow> ?prog; ?tail })" by (intro inert_intros)+
  have tail_effects: "effects (avoids pllc_reg) ?tail"
    by (intro emit_intros measure_clock_avoids) (simp_all add: pllc_reg_def reg_defs)
  have middle: "passes (avoids (\<lambda>a. a = CM_VPUCTL)) CM_LOCK (\<lambda>x. BIT_SET x CM_LOCK_FLOCKC_BIT)
     (avoids (\<lambda>a. a \<in> {CM_VPUCTL, CM_PLLC})) ?prog"
    by (intro passes_bind setup_pllc_passes emit_intros inert_intros) (simp_all add: reg_defs)
  have "run_state (do { switch_vpu_to_src CM_SRC_OSC; _ \<leftarrow> ?prog; ?tail }) s = ((), s')"
    using assms(2) by (simp add: switch_vpu_to_pllc_def Let_def State_Monad.bind_assoc)
  then obtain s1 where 1: "run_state (switch_vpu_to_src CM_SRC_OSC) s = ((), s1)" "running s1"
    "run_state (do { _ \<leftarrow> ?prog; ?tail }) s1 = ((), s')"
    by (rule inert_running [OF tail(2) _ assms(3)]) auto
  obtain s2 where 2: "run_state ?prog s1 = ((), s2)" "running s2" "run_state ?tail s2 = ((), s')"
    by (rule inert_running [OF tail(1) 1(3) assms(3)]) auto
  obtain k l where kl: "dev s2 = dev s1" "bus s2 = bus s1 @ k @ Rd CM_LOCK # l"
      "BIT_SET (dev s1 (bus s1 @ k) CM_LOCK) CM_LOCK_FLOCKC_BIT" "list_all (avoids (\<lambda>a. a = CM_VPUCTL)) k"
      "list_all (avoids (\<lambda>a. a \<in> {CM_VPUCTL, CM_PLLC})) l"
    by (rule passesE [OF middle 1(2) 2(1,2)])
  obtain e where e: "dev s' = dev s2" "bus s' = bus s2 @ e" "list_all (avoids pllc_reg) e"
    by (rule effects_run [OF tail_effects 2(3)])
  obtain v n where "v AND 0xf = CM_SRC_OSC AND 0xf" "dev s1 = dev s"
    "bus s1 = bus s @ [Rd CM_VPUCTL, Wr CM_VPUCTL v] @ replicate n (Rd CM_VPUCTL) @ [Rd CM_VPUCTL]"
    "dev s (bus s @ [Rd CM_VPUCTL, Wr CM_VPUCTL v] @ replicate n (Rd CM_VPUCTL)) CM_VPUCTL AND CM_VPUCTL_BUSY_SET = 0"
    by (rule run_switch_vpu [OF assms(1) 1(1,2)])
  with kl e show thesis
    by (intro that [of v n k l e]) (simp_all add: reg_defs)
qed

subsection \<open>Properties\<close>

text \<open>C12.  The VPU never runs on an unstable clock.  In every run of \<^verbatim>\<open>switch_vpu_to_pllc\<close> that returns,
  PLL C is only reprogrammed while the VPU runs on the crystal, which the hardware has confirmed,
  and the VPU is switched to PLL C only after the PLL's lock was seen with its mode unchanged
  since.\<close>

theorem vpu_clock_switch_safe:
  assumes "running s" and "run_state (switch_vpu_to_pllc x) s = ((), s')" and "running s'"
  shows "(\<forall>h a v t. bus s' = bus s @ h @ Wr a v # t \<and> pllc_reg a \<longrightarrow> vpu_runs_on (dev s) (bus s) h CM_SRC_OSC) \<and>
    (\<forall>h v t. bus s' = bus s @ h @ Wr CM_VPUCTL v # t \<and> v AND 0xf = CM_SRC_PLLC_CORE0 \<longrightarrow> pllc_locked (dev s) (bus s) h)"
proof -
  obtain v0 n k l e where *: "v0 AND 0xf = CM_SRC_OSC" "dev s' = dev s"
    "bus s' = bus s @ ([Rd CM_VPUCTL, Wr CM_VPUCTL v0] @ replicate n (Rd CM_VPUCTL) @ [Rd CM_VPUCTL]) @ (k @ Rd CM_LOCK # l) @ e"
    "dev s (bus s @ [Rd CM_VPUCTL, Wr CM_VPUCTL v0] @ replicate n (Rd CM_VPUCTL)) CM_VPUCTL AND CM_VPUCTL_BUSY_SET = 0"
    "list_all (avoids (\<lambda>a. a = CM_VPUCTL)) k" "list_all (avoids (\<lambda>a. a \<in> {CM_VPUCTL, CM_PLLC})) l"
    "BIT_SET (dev s (bus s @ ([Rd CM_VPUCTL, Wr CM_VPUCTL v0] @ replicate n (Rd CM_VPUCTL) @ [Rd CM_VPUCTL]) @ k) CM_LOCK) CM_LOCK_FLOCKC_BIT"
    "list_all (avoids pllc_reg) e"
    by (rule run_switch_to_pllc [OF assms])
  define e1 where "e1 = [Rd CM_VPUCTL, Wr CM_VPUCTL v0] @ replicate n (Rd CM_VPUCTL) @ [Rd CM_VPUCTL]"
  define e2 where "e2 = k @ Rd CM_LOCK # l"
  have e2: "list_all (avoids (\<lambda>a. a = CM_VPUCTL)) e2"
    using *(5,6) by (auto simp: e2_def list_all_iff avoids_def split: event.splits)
  have all: "bus s' = bus s @ e1 @ e2 @ e" using *(3) by (simp add: e1_def e2_def)
  have "vpu_runs_on (dev s) (bus s) h CM_SRC_OSC" if "bus s' = bus s @ h @ Wr a v # t" "pllc_reg a" for h a v t
  proof -
    have "h @ Wr a v # t = e1 @ e2 @ e" using that(1) all by simp
    moreover have "Wr a v \<notin> set e1" using that(2) by (auto simp: e1_def pllc_reg_def reg_defs)
    ultimately obtain h' where h: "h = e1 @ h'" "h' @ Wr a v # t = e2 @ e" by (rule split_skip)
    have "Wr a v \<notin> set e" by (rule avoids_absent [OF *(8) that(2)])
    with h(2) obtain t' where "h' @ Wr a v # t' = e2" by (rule split_stop)
    with e2 have "last_write CM_VPUCTL h' = None" by (auto intro: avoids_last_write)
    with h(1) *(1,4) show ?thesis
      unfolding vpu_runs_on_def
      by (intro exI [of _ v0] exI [of _ "[Rd CM_VPUCTL, Wr CM_VPUCTL v0] @ replicate n (Rd CM_VPUCTL)"] exI [of _ h'])
        (simp add: e1_def last_write_quiet)
  qed
  moreover have "pllc_locked (dev s) (bus s) h"
    if "bus s' = bus s @ h @ Wr CM_VPUCTL v # t" "v AND 0xf = CM_SRC_PLLC_CORE0" for h v t
  proof -
    have "h @ Wr CM_VPUCTL v # t = e1 @ e2 @ e" using that(1) all by simp
    moreover have "Wr CM_VPUCTL v \<notin> set e1" using that(2) *(1) by (auto simp: e1_def reg_defs)
    ultimately obtain h1 where h1: "h = e1 @ h1" "h1 @ Wr CM_VPUCTL v # t = e2 @ e" by (rule split_skip)
    obtain h2 where h2: "h1 = e2 @ h2" "h2 @ Wr CM_VPUCTL v # t = e"
      by (rule split_skip [OF h1(2) avoids_absent [OF e2 refl]])
    with *(8) have "last_write CM_PLLC h2 = None" by (auto intro: avoids_last_write simp: pllc_reg_def)
    moreover have "last_write CM_PLLC l = None" by (rule avoids_last_write [OF *(6)]) simp
    ultimately show ?thesis
      unfolding pllc_locked_def using *(7) h1(1) h2(1)
      by (intro exI [of _ "e1 @ k"] exI [of _ "l @ h2"]) (simp add: e1_def e2_def)
  qed
  ultimately show ?thesis by blast
qed


text \<open>The device of the witness: never busy, the PLL locked, a clock that runs.\<close>

definition vpu_dev :: device where
  "vpu_dev h a = (if a = CM_LOCK then 0x400 else if a \<in> {CM_OSCCOUNT, CM_TCNTCTL, CM_VPUCTL} then 0
     else clock_dev (\<lambda>_. 0) h a)"

lemma ticking_vpu_dev: "ticking vpu_dev 1000"
proof -
  have "vpu_dev h ST_CLO = clock_dev (\<lambda>_. 0) h ST_CLO" for h by (simp add: vpu_dev_def reg_defs)
  then show ?thesis
    using ticking_clock_dev [of "\<lambda>_. 0"] by (simp add: ticking_def ticks_def answer_def cur_def)
qed

lemma poll_vpu_dev: "(\<And>h. c (vpu_dev h a)) \<Longrightarrow> ends vpu_dev (poll a c)"
  by (rule poll_drains) (auto simp: tx_drains_def)

lemma vpu_dev_ends: "ends vpu_dev (switch_vpu_to_pllc x)"
  unfolding switch_vpu_to_pllc_def switch_vpu_to_src_def setup_pllc_def print_pllc_def measure_clock_def Let_def
  by (intro ends_intros poll_vpu_dev udelay_returns [OF ticking_vpu_dev])
    (simp_all add: vpu_dev_def reg_defs BIT_SET_def bit_numeral_rec)

theorem vpu_clock_switch_safe_witness:
  "\<exists>s'. run_state (switch_vpu_to_pllc 19200000) (boot vpu_dev) = ((), s') \<and> running s' \<and>
    (\<forall>h v t. bus s' = h @ Wr CM_VPUCTL v # t \<and> v AND 0xf = CM_SRC_PLLC_CORE0 \<longrightarrow> pllc_locked vpu_dev [] h)"
proof -
  let ?s = "boot vpu_dev"
  obtain s' where run: "run_state (switch_vpu_to_pllc 19200000) ?s = ((), s')" using run_unit by blast
  have "running s'" by (rule endsD [OF vpu_dev_ends _ _ run]) simp_all
  moreover from vpu_clock_switch_safe [OF _ run this]
  have "\<forall>h v t. bus s' = h @ Wr CM_VPUCTL v # t \<and> v AND 0xf = CM_SRC_PLLC_CORE0 \<longrightarrow> pllc_locked vpu_dev [] h" by simp
  ultimately show ?thesis using run by blast
qed

text \<open>Halting never returns.  Once the console's FIFO has drained, \<^verbatim>\<open>platform_halt\<close> hangs with
  interrupts off; for a reboot it has armed the watchdog before, with exactly two writes: a time-out
  of one tick, then the reset configuration with its other fields kept.  Otherwise it writes
  nothing.\<close>

theorem platform_halt_hangs:
  assumes "running s" and "\<And>h. dev s h (UART0_BASE + UART_TFR) AND 0x88 = 0x80"
    and "run_state (platform_halt reboot reason) s = ((), s')"
  shows "status s' = Hung \<and> \<not> ints_on s' \<and>
    (if reboot then \<exists>h. writes (bus s') = writes (bus s) @
       [(PM_WDOG, PM_PASSWORD OR 1), (PM_RSTC, PM_PASSWORD OR (dev s h PM_RSTC AND PM_RSTC_WRCFG_CLR) OR 0x20)]
     else writes (bus s') = writes (bus s))"
proof -
  let ?T = "UART0_BASE + UART_TFR"
  have "(dev s h ?T AND 0x88) AND 0x80 = 0x80" "(dev s h ?T AND 0x88) AND 8 = 0" for h
    by (simp_all add: assms(2))
  then have tfr: "dev s h ?T AND 0x80 \<noteq> 0" "dev s h ?T AND 0x8 = 0" for h
    by (simp_all add: and.assoc)
  have drain: "run_state (uart_flush_tx 0) t = ((), log [Rd ?T, Rd ?T] t)" if "running t" "dev t = dev s"
    for t :: "'a mach_scheme"
  proof -
    have "run_state (poll ?T (\<lambda>x. x AND 0x80 \<noteq> 0)) t = (cur t ?T, log [Rd ?T] t)"
      by (rule poll_now) (simp_all add: that cur_def tfr)
    moreover have "run_state (poll ?T (\<lambda>x. x AND 0x8 = 0)) (log [Rd ?T] t) = (cur (log [Rd ?T] t) ?T, log [Rd ?T] (log [Rd ?T] t))"
      by (rule poll_now) (simp_all add: that cur_def tfr)
    ultimately show ?thesis by (simp add: uart_flush_tx_def)
  qed
  have wdog: "1 AND PM_WDOG_MASK = 1" by (simp add: reg_defs)
  show ?thesis
  proof (cases reboot)
    case False
    then show ?thesis
      using assms(1,3) by (auto simp: platform_halt_def arch_disable_ints_def ints_on_def and.assoc)
  next
    case True
    then show ?thesis
      using assms(1,3)
      by (auto simp: platform_halt_def drain arch_disable_ints_def ints_on_def and.assoc wdog Let_def cur_def or.assoc)
  qed
qed

theorem platform_halt_hangs_witness:
  "\<exists>s'. run_state (platform_halt True 0) (boot (\<lambda>_ _. 0x80)) = ((), s') \<and> status s' = Hung \<and>
     writes (bus s') = [(PM_WDOG, PM_PASSWORD OR 1), (PM_RSTC, PM_PASSWORD OR (0x80 AND PM_RSTC_WRCFG_CLR) OR 0x20)]"
proof -
  obtain s' where run: "run_state (platform_halt True 0) (boot (\<lambda>_ _. 0x80)) = ((), s')" using run_unit by blast
  from platform_halt_hangs [OF _ _ this] show ?thesis by (intro exI [of _ s']) (simp add: run)
qed

text \<open>The nodes the walk of the tree visits, and the size a node asks for.\<close>

inductive fdt_walk :: "'a platform_ops \<Rightarrow> int \<times> int \<Rightarrow> int list \<Rightarrow> bool" for p where
  fdt_end: "fdt_next_node p offset depth = (offset', depth') \<Longrightarrow> offset' < 0 \<Longrightarrow> fdt_walk p (offset, depth) []"
| fdt_node: "fdt_next_node p offset depth = (offset', depth') \<Longrightarrow> 0 \<le> offset' \<Longrightarrow>
    fdt_walk p (offset', depth') nodes \<Longrightarrow> fdt_walk p (offset, depth) (offset' # nodes)"

definition node_size :: "'a platform_ops \<Rightarrow> bool \<Rightarrow> int \<Rightarrow> u64 option" where
  "node_size p arch_arm offset = (if fdt_get_name p offset = Some ''memory'' then
     (case fdt_getprop p offset ''reg'' of
        (Some cells, lenp) \<Rightarrow> if lenp = 0x10 then Some (if arch_arm then min (cells ! 1) (1024 * 1024 * 1024) else cells ! 1) else None
      | _ \<Rightarrow> None) else None)"

definition wanted :: "'a platform_ops \<Rightarrow> bool \<Rightarrow> u64 \<Rightarrow> int list \<Rightarrow> u64" where
  "wanted p arch_arm sz nodes = foldl (\<lambda>z offset. case node_size p arch_arm offset of Some n \<Rightarrow> n | None \<Rightarrow> z) sz nodes"

lemma arena_log [simp]: "arena_size (log es s) = arena_size s"
  by (simp add: log_def)

lemma run_memory_node:
  assumes "running s" "fdt_get_name p offset = Some ''memory''"
  shows "\<exists>s'. run_state (memory_node p arch_arm offset) s = ((), s') \<and> running s' \<and>
    arena_size s' = wanted p arch_arm (arena_size s) [offset]"
  using assms
  by (cases "fdt_getprop p offset ''reg''") (auto simp: memory_node_def wanted_def node_size_def min_def not_less Let_def split: option.split)

lemma run_fdt_turn:
  assumes "running s" "fdt_next_node p offset depth = (offset', depth')" "0 \<le> offset'"
  shows "\<exists>s'. run_state (fdt_turn p arch_arm (offset, depth)) s = (Inl (offset', depth'), s') \<and> running s' \<and>
    arena_size s' = wanted p arch_arm (arena_size s) [offset']"
  using assms run_memory_node [OF assms(1), of p offset' arch_arm]
  by (auto simp: fdt_turn_def wanted_def node_size_def split: option.split)

lemma fdt_iterates:
  assumes "fdt_walk p x nodes" "running s"
  shows "\<exists>s'. iterates (fdt_turn p arch_arm) x s (Some ()) s' \<and> running s' \<and>
    arena_size s' = wanted p arch_arm (arena_size s) nodes"
  using assms
proof (induction arbitrary: s rule: fdt_walk.induct)
  case (fdt_end offset depth offset' depth')
  then show ?case
    by (intro exI [of _ s] conjI iterates.finish) (simp_all add: fdt_turn_def wanted_def)
next
  case (fdt_node offset depth offset' depth' nodes)
  obtain s1 where 1: "run_state (fdt_turn p arch_arm (offset, depth)) s = (Inl (offset', depth'), s1)" "running s1"
    "arena_size s1 = wanted p arch_arm (arena_size s) [offset']"
    using run_fdt_turn [OF fdt_node.prems fdt_node.hyps(1,2)] by blast
  from fdt_node.IH [OF 1(2)] 1 show ?case by (auto simp: wanted_def intro: iterates.again)
qed

text \<open>Memory from the device tree.  If the tree's walk is finite, reading it ends, and the size of
  LK's memory arena is what the last node called \<^verbatim>\<open>memory\<close> with a 16-byte \<^verbatim>\<open>reg\<close> asks for, at
  most 1 GB on 32-bit ARM; without such a node it is unchanged.\<close>

theorem memory_from_tree:
  assumes "running s" and "fdt_walk p (0, 0) nodes" and "fdt_check_header p \<ge> 0"
  shows "\<exists>s'. run_state (read_fdt p arch_arm) s = ((), s') \<and> running s' \<and>
    arena_size s' = foldl (\<lambda>z offset. case node_size p arch_arm offset of Some n \<Rightarrow> n | None \<Rightarrow> z) (arena_size s) nodes"
  using fdt_iterates [OF assms(2,1)] loop_iterates [OF assms(1)] assms(3)
  by (fastforce simp: read_fdt_def wanted_def)


text \<open>A tree with two nodes, the second of them memory of 3 GB.\<close>

definition demo_tree :: "'r platform_ops" where
  "demo_tree = \<lparr>arm_generic_timer_init = \<lambda>_ _. return (), fdt_check_header = 0,
     fdt_next_node = \<lambda>offset depth. if offset < 2 then (offset + 1, 1) else (-1, 0),
     fdt_get_name = \<lambda>offset. Some (if offset = 2 then ''memory'' else ''cpus''),
     fdt_getprop = \<lambda>_ _. (Some [0, 0xC0000000], 0x10),
     pmm_add_arena = \<lambda>_. return (), pmm_alloc_range = return (), set_spin_table = \<lambda>_. return ()\<rparr>"

definition plat_boot :: platform_mach where
  "plat_boot = \<lparr>dev = \<lambda>_ _. 0, bus = [], status = Running, sr = 0, core_r = of_nat, irq_h = [], irq_arg = [], vectorTable = [],
     arena_size = 0\<rparr>"

theorem memory_from_tree_witness:
  "\<exists>s'. run_state (read_fdt (demo_tree :: unit platform_ops) True) plat_boot = ((), s') \<and> arena_size s' = 0x40000000"
proof -
  have w: "fdt_walk (demo_tree :: unit platform_ops) (0, 0) [1, 2]"
    by (rule fdt_node [of _ _ _ _ 1], simp add: demo_tree_def, simp, rule fdt_node [of _ _ _ _ 1],
        simp add: demo_tree_def, simp, rule fdt_end [of _ _ _ "-1" 0]) (simp_all add: demo_tree_def)
  obtain s' where "run_state (read_fdt (demo_tree :: unit platform_ops) True) plat_boot = ((), s')"
    "arena_size s' = foldl (\<lambda>z offset. case node_size (demo_tree :: unit platform_ops) True offset of Some n \<Rightarrow> n | None \<Rightarrow> z)
      (arena_size plat_boot) [1, 2]"
    using memory_from_tree [OF _ w, of plat_boot True] by (auto simp: plat_boot_def demo_tree_def)
  then show ?thesis by (auto simp: node_size_def demo_tree_def plat_boot_def)
qed

end
