(* ===== verification/Arm_Bridge.thy ===== *)
theory Arm_Bridge
  imports Platform
begin

unbundle bit_operations_syntax

text \<open>
  The start of the ARM cores by the VPU (\<^verbatim>\<open>arm/arm.c\<close>): the ARM's view of memory and of the
  peripherals, the ARM's clock, and the asynchronous bridge.  The payload is a build product; its
  copy to the bottom of memory and LK's \<^verbatim>\<open>timer_initialize\<close> are arguments.
\<close>

subsection \<open>Registers\<close>

definition ARM_CONTROL0 :: u32 where [reg_defs]: "ARM_CONTROL0 = ARM_BASE + 0x000"
definition ARM_C0_SIZ1G :: u32 where [reg_defs]: "ARM_C0_SIZ1G = 0x00000003"
definition ARM_C0_BRESP1 :: u32 where [reg_defs]: "ARM_C0_BRESP1 = 0x00000004"
definition ARM_C0_BRESP2 :: u32 where [reg_defs]: "ARM_C0_BRESP2 = 0x00000008"
definition ARM_C0_FULLPERI :: u32 where [reg_defs]: "ARM_C0_FULLPERI = 0x00000040"
definition ARM_C0_APROTPASS :: u32 where [reg_defs]: "ARM_C0_APROTPASS = 0x0000A000"
definition ARM_C0_APROTMSK :: u32 where [reg_defs]: "ARM_C0_APROTMSK = 0x0000F000"
definition ARM_TRANSLATE :: u32 where [reg_defs]: "ARM_TRANSLATE = ARM_BASE + 0x100"
definition ARM_CONTROL1 :: u32 where [reg_defs]: "ARM_CONTROL1 = ARM_BASE + 0x440"
definition ARM_C1_PERSON :: u32 where [reg_defs]: "ARM_C1_PERSON = 0x00000100"
definition ARM_C1_REQSTOP :: u32 where [reg_defs]: "ARM_C1_REQSTOP = 0x00000200"
definition ARM_ERRHALT :: u32 where [reg_defs]: "ARM_ERRHALT = ARM_BASE + 0x448"
definition ARM_ID :: u32 where [reg_defs]: "ARM_ID = ARM_BASE + 0x44C"

definition g_BrespTab :: "u32 list" where
  "g_BrespTab =
    [0x10, 0x14, 0x10, 0x14, 0x10, 0x14, 0x10, 0x14, 0x10, 0x1C, 0x18, 0x1C, 0x18, 0x0,
     0x10, 0x14, 0x10, 0x1C, 0x10, 0x14, 0x10, 0x14, 0x10, 0x14, 0x10, 0x14, 0x10, 0x0,
     0x10, 0x14, 0x10, 0x1C, 0x18, 0x1C, 0x10, 0x14, 0x18, 0x1C, 0x10, 0x14, 0x10, 0x0,
     0x10, 0x14, 0x18, 0x14, 0x10, 0x14, 0x10, 0x14, 0x10, 0x14, 0x10, 0x14, 0x10, 0x0,
     0x10, 0x14, 0x18, 0x14, 0x18, 0x14, 0x10, 0x14, 0x10, 0x14, 0x10, 0x14, 0x18, 0x0]"

subsection \<open>The code\<close>

definition printregs :: "('r, unit) io" where
  "printregs = do {
     c0 \<leftarrow> rd ARM_CONTROL0; c1 \<leftarrow> rd ARM_CONTROL1; e \<leftarrow> rd ARM_ERRHALT;
     printf ''C0: 0x%x, C1: 0x%x, ERRHALT: 0x%x'' [U c0, U c1, U e];
     l \<leftarrow> rd CM_LOCK;
     printf ''CM_LOCK: 0x%x'' [U l]
   }"

text \<open>\<^verbatim>\<open>arm_checker\<close> with its static variable.\<close>

record checker_mach = mach +
  checker_last :: u32

definition arm_checker :: "('r checker_mach_ext, handler_return) io" where
  "arm_checker = do {
     current \<leftarrow> rd 0xc0000100;
     last_seen \<leftarrow> gget checker_last;
     when_io (last_seen \<noteq> current)
       (printf ''X changed 0x%x -> 0x%x, delta: %d'' [U last_seen, U current, U (current - last_seen)]);
     gset (\<lambda>s. s\<lparr>checker_last := current\<rparr>);
     return INT_NO_RESCHEDULE
   }"

definition mapBusToArm :: "u32 \<Rightarrow> u32 \<Rightarrow> ('r, unit) io" where
  "mapBusToArm busAddr armAddr = do {
     let index = drop_bit 24 armAddr;
     let pte = drop_bit 21 busAddr;
     printf ''mapBusToArm index:%x, pte:%x'' [U index, U pte];
     wr (ARM_TRANSLATE + 4 * index) pte
   }"

definition setupClock :: "('r, unit) io" where
  "setupClock = do {
     printf ''initializing PLLB ...'' [];
     reg_or A2W_XOSC_CTRL (A2W_PASSWORD OR A2W_XOSC_CTRL_PLLBEN_SET);
     wr A2W_PLLB_FRAC (A2W_PASSWORD OR 0xeaaa8);
     wr A2W_PLLB_CTRL (A2W_PASSWORD OR 48 OR 0x1000);
     wr CM_PLLB (CM_PASSWORD OR CM_PLLB_DIGRST_SET OR CM_PLLB_ANARST_SET);
     wr CM_PLLB (CM_PASSWORD OR CM_PLLB_DIGRST_SET OR CM_PLLB_ANARST_SET OR CM_PLLB_HOLDARM_SET);
     wr A2W_PLLB_ANA3 (A2W_PASSWORD OR 0x100);
     wr A2W_PLLB_ANA2 (A2W_PASSWORD OR 0x0);
     wr A2W_PLLB_ANA1 (A2W_PASSWORD OR 0x140000);
     wr A2W_PLLB_ANA0 (A2W_PASSWORD OR 0x0);
     wr CM_PLLB (CM_PASSWORD OR 0xAA);
     dig0 \<leftarrow> rd A2W_PLLB_DIG0;
     dig1 \<leftarrow> rd A2W_PLLB_DIG1;
     dig2 \<leftarrow> rd A2W_PLLB_DIG2;
     dig3 \<leftarrow> rd A2W_PLLB_DIG3;
     wr A2W_PLLB_DIG3 (A2W_PASSWORD OR dig3);
     wr A2W_PLLB_DIG2 (A2W_PASSWORD OR (dig2 AND 0xFFEFFBFE));
     wr A2W_PLLB_DIG1 (A2W_PASSWORD OR (dig1 AND NOT (BV 14)));
     wr A2W_PLLB_DIG0 (A2W_PASSWORD OR dig0);
     reg_or A2W_PLLB_CTRL (A2W_PASSWORD OR 0x20000);
     let dig3 = dig3 OR 0x42;
     wr A2W_PLLB_DIG3 (A2W_PASSWORD OR dig3);
     wr A2W_PLLB_DIG2 (A2W_PASSWORD OR dig2);
     wr A2W_PLLB_DIG1 (A2W_PASSWORD OR dig1);
     wr A2W_PLLB_DIG0 (A2W_PASSWORD OR dig0);
     wr A2W_PLLB_ARM (A2W_PASSWORD OR 8);
     wr CM_PLLB (CM_PASSWORD OR CM_PLLB_DIGRST_SET OR CM_PLLB_ANARST_SET OR CM_PLLB_HOLDARM_SET OR CM_PLLB_LOADARM_SET);
     wr CM_PLLB (CM_PASSWORD OR CM_PLLB_DIGRST_SET OR CM_PLLB_ANARST_SET OR CM_PLLB_HOLDARM_SET);
     wr CM_PLLB CM_PASSWORD;
     wr CM_ARMCTL (CM_PASSWORD OR 4 OR CM_ARMCTL_ENAB_SET);
     k \<leftarrow> rd A2W_PLLB_ANA_KAIP;
     printf ''KAIP  = 0x%X'' [U k];
     m \<leftarrow> rd A2W_PLLB_ANA_MULTI;
     printf ''MULTI = 0x%X'' [U m];
     printf ''ARM clock succesfully initialized!'' []
   }"

definition bridgeWriteBresp :: "u32 \<Rightarrow> ('r, unit) io" where
  "bridgeWriteBresp bits = do {
     c \<leftarrow> rd ARM_CONTROL0;
     wr ARM_CONTROL0 ((c AND NOT (ARM_C0_BRESP1 OR ARM_C0_BRESP2)) OR bits);
     udelay 30
   }"

definition bridgeCycleBresp :: "('r, unit) io" where
  "bridgeCycleBresp = for_each g_BrespTab bridgeWriteBresp"

definition bridgeStart :: "bool \<Rightarrow> ('r, unit) io" where
  "bridgeStart cycleBrespBits = do {
     when_io cycleBrespBits (do {
       reg_or PM_PROC (PM_PASSWORD OR NOT PM_PROC_ARMRSTN_CLR);
       bridgeCycleBresp;
       reg_or PM_PROC (PM_PASSWORD OR NOT PM_PROC_ARMRSTN_CLR);
       udelay 300
     });
     printf ''starting async bridge now!'' [];
     udelay 1000000;
     reg_and ARM_CONTROL1 (NOT ARM_C1_REQSTOP);
     when_io (\<not> cycleBrespBits) (reg_or PM_PROC (PM_PASSWORD OR NOT PM_PROC_ARMRSTN_CLR));
     udelay 300000;
     p \<leftarrow> rd PM_PROC;
     printf ''bridge init done, PM_PROC is now: 0x%X!'' [U p]
   }"

text \<open>\<open>timer_init\<close>: \<^verbatim>\<open>timer_initialize(&arm_check)\<close>; \<open>copy_payload\<close>: the \<^verbatim>\<open>memcpy\<close>.\<close>

definition arm_init :: "('r, unit) io \<Rightarrow> ('r, unit) io \<Rightarrow> ('r, unit) io" where
  "arm_init timer_init copy_payload = do {
     timer_init;
     power_arm_start;
     printregs;
     printf ''arm starting...'' [];
     copy_payload;
     mapBusToArm 0xc0000000 0;
     mapBusToArm 0x7e000000 0x20000000;
     i \<leftarrow> rd ARM_ID; c0 \<leftarrow> rd ARM_CONTROL0;
     printf ''armid 0x%x, C0 0x%x'' [U i, U c0];
     reg_or ARM_CONTROL0 (ARM_C0_BRESP2 OR ARM_C0_SIZ1G OR ARM_C0_APROTPASS OR ARM_C0_APROTMSK OR
       ARM_C0_FULLPERI OR push_bit 20 0x8 OR push_bit 24 0x5 OR push_bit 28 0xa);
     reg_or ARM_CONTROL1 ARM_C1_PERSON;
     setupClock;
     power_arm_start;
     bridgeStart True;
     printregs
   }"

subsection \<open>Library: the ARM's view of the bus\<close>

text \<open>
  The hardware's translation: an ARM address selects by its upper 8 bits one of the 16 MB windows,
  whose table entry is the bus address in units of 2 MB.
\<close>

definition window :: "u32 \<Rightarrow> u32" where
  "window i = ARM_TRANSLATE + 4 * i"

definition arm_to_bus :: "'r mach_scheme \<Rightarrow> u32 \<Rightarrow> u32" where
  "arm_to_bus s x = push_bit 21 (cur s (window (drop_bit 24 x))) + (x AND 0xffffff)"

lemma split_window:
  fixes x off :: u32
  assumes "x AND 0xffffff = 0" "off < 0x1000000"
  shows "drop_bit 24 (x + off) = drop_bit 24 x" "(x + off) AND 0xffffff = off"
proof -
  have m: "(0xffffff :: u32) = mask 24" by (simp add: mask_eq_exp_minus_1)
  have "unat off < 2 ^ 24" using assms(2) by (simp add: word_less_nat_alt)
  then have t: "take_bit 24 off = off"
    by (simp add: word_unat_eq_iff unsigned_take_bit_eq take_bit_nat_eq_self_iff)
  have b: "\<not> bit off n" if "24 \<le> n" for n using that t by (metis bit_take_bit_iff linorder_not_less)
  have "x AND off = 0"
  proof (rule bit_word_eqI)
    fix n
    have "take_bit 24 x = 0" using assms(1) m by (simp add: take_bit_eq_mask)
    then have "\<not> bit (take_bit 24 x) n" by simp
    then have "bit x n \<Longrightarrow> \<not> n < 24" by (simp add: bit_take_bit_iff)
    then show "bit (x AND off) n = bit 0 n" using b by (auto simp: bit_simps)
  qed
  then have or: "x + off = x OR off" by (rule disjunctive_add_eq_or)
  show "drop_bit 24 (x + off) = drop_bit 24 x"
    unfolding or using b by (auto intro!: bit_word_eqI simp: bit_simps)
  show "(x + off) AND 0xffffff = off"
    unfolding or using assms(1) t m by (simp add: bit.conj_disj_distrib2 take_bit_eq_mask)
qed


lemma window_inj:
  assumes "window i = window j" "i < 64" "j < 64"
  shows "i = j"
proof -
  have "4 * i = 4 * j" using assms(1) by (simp add: window_def)
  moreover have "unat (4 * k) = 4 * unat k" if "k < 64" for k :: u32
    using that by (simp add: unat_word_ariths word_less_nat_alt)
  ultimately show ?thesis using assms(2,3) by (metis mult_left_cancel unat_eq_iff_eq zero_neq_numeral)
qed

lemma pte_back:
  fixes b :: u32
  assumes "b AND 0x1fffff = 0"
  shows "push_bit 21 (drop_bit 21 b) = b"
proof -
  have "(0x1fffff :: u32) = mask 21" by (simp add: mask_eq_exp_minus_1)
  then have "take_bit 21 b = 0" using assms by (simp add: take_bit_eq_mask)
  then show ?thesis using bits_ident [of 21 b] by simp
qed

subsection \<open>Properties\<close>

text \<open>A window of the ARM.  When the first gigabyte's table entries are storage, after
  \<^verbatim>\<open>mapBusToArm\<close> of a 16 MB window every address in it reaches the bus address at the same offset,
  and every other window of the gigabyte is as before.\<close>

theorem arm_window_maps:
  assumes "running s" and "\<And>i. i < 64 \<Longrightarrow> plain_at (dev s) (window i)"
    and "b AND 0x1fffff = 0" and "arm AND 0xffffff = 0" and "drop_bit 24 arm < 64"
    and "run_state (mapBusToArm b arm) s = ((), s')"
  shows "running s' \<and> (\<forall>off < 0x1000000. arm_to_bus s' (arm + off) = b + off) \<and>
    (\<forall>x. drop_bit 24 x < 64 \<and> drop_bit 24 x \<noteq> drop_bit 24 arm \<longrightarrow> arm_to_bus s' x = arm_to_bus s x)"
proof -
  let ?i = "drop_bit 24 arm"
  have s': "s' = log [Print ''mapBusToArm index:%x, pte:%x'' [U ?i, U (drop_bit 21 b)], Wr (window ?i) (drop_bit 21 b)] s"
    using assms(1,6) by (auto simp: mapBusToArm_def window_def Let_def)
  have c: "cur s' (window j) = (if j = ?i then drop_bit 21 b else cur s (window j))" if "j < 64" for j
    using plain_cur_log [OF assms(2) [OF that]] window_inj [OF _ that assms(5)] by (auto simp: s')
  have "arm_to_bus s' (arm + off) = b + off" if "off < 0x1000000" for off
    using split_window [OF assms(4) that] c [OF assms(5)] pte_back [OF assms(3)] by (simp add: arm_to_bus_def)
  moreover have "arm_to_bus s' x = arm_to_bus s x" if "drop_bit 24 x < 64 \<and> drop_bit 24 x \<noteq> ?i" for x
    using c that by (simp add: arm_to_bus_def)
  ultimately show ?thesis using assms(1) s' by simp
qed

theorem arm_window_maps_witness:
  "\<exists>s'. run_state (mapBusToArm 0x7e000000 0x20000000) (boot (memory (\<lambda>_. 0))) = ((), s') \<and>
     arm_to_bus s' 0x20200000 = 0x7e200000"
proof -
  let ?s = "boot (memory (\<lambda>_. 0))"
  obtain s' where run: "run_state (mapBusToArm 0x7e000000 0x20000000) ?s = ((), s')" using run_unit by blast
  from arm_window_maps [OF _ _ _ _ _ run]
  have "\<forall>off < 0x1000000. arm_to_bus s' (0x20000000 + off) = 0x7e000000 + off"
    by (simp add: plain_memory)
  then have "arm_to_bus s' (0x20000000 + 0x200000) = 0x7e000000 + 0x200000" by (rule allE [of _ "0x200000"]) simp
  with run show ?thesis by auto
qed

text \<open>What the drivers called do to the bridge's registers.\<close>

lemma await_effects [emit_intros]: "R (Rd reg) \<Longrightarrow> R (Rd ST_CLO) \<Longrightarrow> effects R (await reg flag)"
  unfolding await_def by (intro emit_intros)

lemma power_arm_start_effects:
  "\<not> A PM_PROC \<Longrightarrow> effects (avoids A) power_arm_start"
  unfolding power_arm_start_def power_domain_on_def by (intro emit_intros) simp_all

lemma printregs_effects [emit_intros]:
  "(\<And>a. R (Rd a)) \<Longrightarrow> (\<And>f xs. R (Print f xs)) \<Longrightarrow> effects R printregs"
  unfolding printregs_def by (intro emit_intros)

lemma bridgeCycleBresp_effects: "\<not> A ARM_CONTROL0 \<Longrightarrow> effects (avoids A) bridgeCycleBresp"
  unfolding bridgeCycleBresp_def bridgeWriteBresp_def by (intro emit_intros) simp_all

lemma setupClock_effects:
  "effects (avoids (\<lambda>a. a \<in> {window 0, window 0x20, PM_PROC, ARM_CONTROL0, ARM_CONTROL1})) setupClock"
  unfolding setupClock_def Let_def by (intro emit_intros) (simp_all add: reg_defs window_def)

lemma bridge_inert [inert_intros]:
  "inert printregs" "inert power_arm_start" "inert bridgeCycleBresp" "inert setupClock" "inert (mapBusToArm b a)"
  unfolding printregs_def power_arm_start_def bridgeCycleBresp_def bridgeWriteBresp_def setupClock_def mapBusToArm_def Let_def
  by (intro inert_intros)+


text \<open>The stages of \<^verbatim>\<open>arm_init\<close>: up to the bridge's configuration, the clock, the bridge's reset
cycle, and what follows the release.\<close>

abbreviation bridge_config :: u32 where
  "bridge_config \<equiv> ARM_C0_BRESP2 OR ARM_C0_SIZ1G OR ARM_C0_APROTPASS OR ARM_C0_APROTMSK OR
     ARM_C0_FULLPERI OR push_bit 20 0x8 OR push_bit 24 0x5 OR push_bit 28 0xa"

definition bridge_setup :: "('r, unit) io \<Rightarrow> ('r, unit) io \<Rightarrow> ('r, unit) io" where
  "bridge_setup timer_init copy_payload = do {
     timer_init; power_arm_start; printregs; printf ''arm starting...'' []; copy_payload;
     mapBusToArm 0xc0000000 0;
     mapBusToArm 0x7e000000 0x20000000;
     i \<leftarrow> rd ARM_ID; c0 \<leftarrow> rd ARM_CONTROL0;
     printf ''armid 0x%x, C0 0x%x'' [U i, U c0];
     reg_or ARM_CONTROL0 bridge_config }"

definition bridge_clock :: "('r, unit) io" where
  "bridge_clock = do { setupClock; power_arm_start }"

definition bridge_reset :: "('r, unit) io" where
  "bridge_reset = do {
     reg_or PM_PROC (PM_PASSWORD OR NOT PM_PROC_ARMRSTN_CLR);
     bridgeCycleBresp;
     reg_or PM_PROC (PM_PASSWORD OR NOT PM_PROC_ARMRSTN_CLR);
     udelay 300; printf ''starting async bridge now!'' []; udelay 1000000 }"

definition after_release :: "('r, unit) io" where
  "after_release = do {
     udelay 300000;
     p \<leftarrow> rd PM_PROC;
     printf ''bridge init done, PM_PROC is now: 0x%X!'' [U p];
     printregs }"

lemma arm_init_parts:
  "arm_init timer_init copy_payload = do {
     bridge_setup timer_init copy_payload;
     reg_or ARM_CONTROL1 ARM_C1_PERSON;
     bridge_clock;
     bridge_reset;
     reg_and ARM_CONTROL1 (NOT ARM_C1_REQSTOP);
     after_release }"
  by (simp add: arm_init_def bridgeStart_def bridge_setup_def bridge_clock_def bridge_reset_def after_release_def
      when_io_def State_Monad.bind_assoc)

lemma map_leaves: "P (drop_bit 21 b) \<Longrightarrow> leaves (window (drop_bit 24 arm)) P (mapBusToArm b arm)"
  unfolding mapBusToArm_def Let_def window_def
  by (rule leaves_later, (intro emit_intros inert_intros; simp)+, rule leaves_prims) simp

lemma armctl_leaves: "leaves CM_ARMCTL (\<lambda>v. v = CM_PASSWORD OR 4 OR CM_ARMCTL_ENAB_SET) setupClock"
  unfolding setupClock_def Let_def
  by ((rule leaves_here, rule leaves_prims, simp | rule leaves_later), (intro emit_intros inert_intros; simp add: reg_defs)+)+


lemma avoids_mono: "effects (avoids A) m \<Longrightarrow> (\<And>a. B a \<Longrightarrow> A a) \<Longrightarrow> effects (avoids B) m"
  by (erule effects_mono) (auto simp: avoids_def split: event.splits)

lemma window_effects [emit_intros]:
  "a \<in> {window 0, window 0x20, PM_PROC, ARM_CONTROL0, ARM_CONTROL1} \<Longrightarrow> effects (avoids (\<lambda>b. b = a)) setupClock"
  "a \<noteq> ARM_CONTROL0 \<Longrightarrow> effects (avoids (\<lambda>b. b = a)) bridgeCycleBresp"
  "a \<noteq> PM_PROC \<Longrightarrow> effects (avoids (\<lambda>b. b = a)) power_arm_start"
  "window (drop_bit 24 arm) \<noteq> a \<Longrightarrow> effects (avoids (\<lambda>b. b = a)) (mapBusToArm b arm)"
  by (auto intro: avoids_mono [OF setupClock_effects] bridgeCycleBresp_effects power_arm_start_effects)
    (auto simp: mapBusToArm_def Let_def window_def intro!: emit_intros)

lemma any_effects: "effects (avoids A) m \<Longrightarrow> effects (\<lambda>_. True) m"
  by (erule effects_mono) simp

lemma grows_all [emit_intros]:
  "effects (\<lambda>_. True) setupClock" "effects (\<lambda>_. True) bridgeCycleBresp" "effects (\<lambda>_. True) power_arm_start"
  "effects (\<lambda>_. True) (mapBusToArm b arm)"
  by (rule any_effects [OF window_effects(1) [of PM_PROC]], simp)
    (auto intro: any_effects [OF bridgeCycleBresp_effects [of "\<lambda>_. False"]]
      any_effects [OF power_arm_start_effects [of "\<lambda>_. False"]] any_effects [OF window_effects(4) [of _ "window (drop_bit 24 arm) + 1"]])

lemma bridge_stages_inert [inert_intros]:
  "inert ti \<Longrightarrow> inert cp \<Longrightarrow> inert (bridge_setup ti cp)" "inert bridge_clock" "inert bridge_reset" "inert after_release"
  unfolding bridge_setup_def bridge_clock_def bridge_reset_def after_release_def by (assumption | intro inert_intros)+

lemma bridge_setup_leaves:
  assumes "effects (\<lambda>_. True) ti" "effects (\<lambda>_. True) cp" "inert ti" "inert cp"
  shows "leaves (window 0) (\<lambda>v. v = 0x600) (bridge_setup ti cp)"
    "leaves (window 0x20) (\<lambda>v. v = 0x3f0) (bridge_setup ti cp)"
    "leaves ARM_CONTROL0 (\<lambda>v. \<exists>x. v = x OR bridge_config) (bridge_setup ti cp)"
proof -
  have m: "leaves (window 0) (\<lambda>v. v = 0x600) (mapBusToArm 0xc0000000 0)"
    "leaves (window 0x20) (\<lambda>v. v = 0x3f0) (mapBusToArm 0x7e000000 0x20000000)"
    using map_leaves [of "\<lambda>v. v = 0x600" "0xc0000000" 0] map_leaves [of "\<lambda>v. v = 0x3f0" "0x7e000000" "0x20000000"] by simp_all
  show "leaves (window 0) (\<lambda>v. v = 0x600) (bridge_setup ti cp)"
    unfolding bridge_setup_def
    by ((rule leaves_here, rule m | rule leaves_later), (rule assms | intro emit_intros inert_intros assms; simp add: reg_defs window_def)+)+
  show "leaves (window 0x20) (\<lambda>v. v = 0x3f0) (bridge_setup ti cp)"
    unfolding bridge_setup_def
    by ((rule leaves_here, rule m | rule leaves_later), (rule assms | intro emit_intros inert_intros assms; simp add: reg_defs window_def)+)+
  show "leaves ARM_CONTROL0 (\<lambda>v. \<exists>x. v = x OR bridge_config) (bridge_setup ti cp)"
    unfolding bridge_setup_def
    by (rule leaves_later, (rule assms | intro emit_intros inert_intros assms; simp)+)+ (rule leaves_prims, blast)
qed

lemma bridge_setup_effects:
  assumes "effects (avoids (\<lambda>a. a = ARM_CONTROL1)) ti" "effects (avoids (\<lambda>a. a = ARM_CONTROL1)) cp"
  shows "effects (avoids (\<lambda>a. a = ARM_CONTROL1)) (bridge_setup ti cp)"
  unfolding bridge_setup_def by (intro emit_intros assms) (simp_all add: reg_defs window_def)

lemma bridge_clock_leaves: "leaves CM_ARMCTL (\<lambda>v. v = CM_PASSWORD OR 4 OR CM_ARMCTL_ENAB_SET) bridge_clock"
  unfolding bridge_clock_def
  by (rule leaves_here, rule armctl_leaves) (intro inert_intros emit_intros; simp add: reg_defs)+

lemma bridge_clock_effects:
  "effects (avoids (\<lambda>a. a \<in> {window 0, window 0x20, ARM_CONTROL0, ARM_CONTROL1})) bridge_clock"
  unfolding bridge_clock_def
  by (intro emit_intros avoids_mono [OF setupClock_effects] power_arm_start_effects) (auto simp: reg_defs window_def)

lemma bridge_reset_effects:
  "effects (avoids (\<lambda>a. a \<in> {window 0, window 0x20, CM_ARMCTL, ARM_CONTROL1})) bridge_reset"
  unfolding bridge_reset_def
  by (intro emit_intros bridgeCycleBresp_effects) (simp_all add: reg_defs window_def)

lemma bridge_reset_leaves:
  "leaves PM_PROC (\<lambda>v. v AND NOT PM_PROC_ARMRSTN_CLR = NOT PM_PROC_ARMRSTN_CLR) bridge_reset"
proof -
  have p: "(x OR (PM_PASSWORD OR NOT PM_PROC_ARMRSTN_CLR)) AND NOT PM_PROC_ARMRSTN_CLR = NOT PM_PROC_ARMRSTN_CLR" for x
    by (rule bit_word_eqI) (auto simp: bit_simps)
  show ?thesis
    unfolding bridge_reset_def
    by (rule leaves_later, (intro emit_intros inert_intros; simp)+, rule leaves_later, (intro emit_intros inert_intros; simp)+,
        rule leaves_here, rule leaves_prims, rule p) (intro inert_intros emit_intros; simp)+
qed

text \<open>What the reset cycle writes to the bridge's control register: the bits of the table in order,
each in the place of the two response bits.\<close>

definition bresp_write :: "u32 \<Rightarrow> u32 \<Rightarrow> bool" where
  "bresp_write bits v \<longleftrightarrow> (\<exists>x. v = (x AND NOT (ARM_C0_BRESP1 OR ARM_C0_BRESP2)) OR bits)"

definition control0_writes :: "event list \<Rightarrow> u32 list" where
  "control0_writes es = map snd (filter (\<lambda>(a, v). a = ARM_CONTROL0) (writes es))"

lemma control0_writes_append [simp]: "control0_writes (es @ fs) = control0_writes es @ control0_writes fs"
  by (simp add: control0_writes_def)

lemma avoids_part: "list_all (avoids A) es \<Longrightarrow> A a \<Longrightarrow> list_all (avoids (\<lambda>b. b = a)) es"
  by (erule list.pred_mono_strong) (auto simp: avoids_def split: event.splits)

lemma control0_writes_none: "list_all (avoids (\<lambda>a. a = ARM_CONTROL0)) es \<Longrightarrow> control0_writes es = []"
  by (induction es rule: writes.induct) (simp_all add: control0_writes_def)

lemma bresp_cycle:
  assumes "running s" "run_state (for_each bs bridgeWriteBresp) s = ((), s')" "running s'"
  obtains es where "bus s' = bus s @ es" "list_all2 bresp_write bs (control0_writes es)"
  using assms(1,2)
proof (induction bs arbitrary: s thesis)
  case Nil
  then show ?case by (simp add: control0_writes_def)
next
  case (Cons b bs)
  have i: "inert (for_each bs bridgeWriteBresp)" unfolding bridgeWriteBresp_def by (intro inert_intros)
  from Cons.prems(3) have r: "run_state (bridgeWriteBresp b \<bind> (\<lambda>_. for_each bs bridgeWriteBresp)) s = ((), s')" by simp
  obtain s1 where 1: "run_state (bridgeWriteBresp b) s = ((), s1)" "running s1"
    "run_state (for_each bs bridgeWriteBresp) s1 = ((), s')"
    by (rule inert_running [OF i r assms(3)]) auto
  obtain es where es: "bus s' = bus s1 @ es" "list_all2 bresp_write bs (control0_writes es)"
    by (rule Cons.IH [OF _ 1(2,3)])
  define w where "w = (cur s ARM_CONTROL0 AND NOT (ARM_C0_BRESP1 OR ARM_C0_BRESP2)) OR b"
  have u: "run_state (udelay 30) (log [Rd ARM_CONTROL0, Wr ARM_CONTROL0 w] s) = ((), s1)"
    using 1(1) Cons.prems(2) by (simp add: bridgeWriteBresp_def w_def)
  have "effects quiet (udelay 30)" by (intro emit_intros) simp
  from effects_run [OF this u] obtain q where q: "bus s1 = bus s @ [Rd ARM_CONTROL0, Wr ARM_CONTROL0 w] @ q" "list_all quiet q"
    by auto
  have "control0_writes ([Rd ARM_CONTROL0, Wr ARM_CONTROL0 w] @ q @ es) = w # control0_writes es"
    using q(2) by (simp add: control0_writes_def writes_quiet)
  moreover have "bresp_write b w" unfolding bresp_write_def w_def by blast
  ultimately show ?case
    using Cons.prems(1) [of "[Rd ARM_CONTROL0, Wr ARM_CONTROL0 w] @ q @ es"] es q(1) by simp
qed

lemma bridge_reset_cycle:
  assumes "running s" "run_state bridge_reset s = ((), s')" "running s'"
  obtains es where "bus s' = bus s @ es" "list_all2 bresp_write g_BrespTab (control0_writes es)"
proof -
  let ?r = "reg_or PM_PROC (PM_PASSWORD OR NOT PM_PROC_ARMRSTN_CLR) :: ('a, unit) io"
  let ?t = "do { ?r; udelay 300; printf ''starting async bridge now!'' []; udelay 1000000 } :: ('a, unit) io"
  let ?s = "snd (run_state ?r s)"
  have t: "effects (avoids (\<lambda>a. a = ARM_CONTROL0)) ?t" "inert ?t"
    by (intro emit_intros inert_intros; simp add: reg_defs)+
  have s: "running ?s" "bus ?s = bus s @ [Rd PM_PROC, Wr PM_PROC (cur s PM_PROC OR (PM_PASSWORD OR NOT PM_PROC_ARMRSTN_CLR))]"
    using assms(1) by simp_all
  have r: "run_state (bridgeCycleBresp \<bind> (\<lambda>_. ?t)) ?s = ((), s')"
    using assms(1,2) by (simp add: bridge_reset_def)
  obtain s1 where 1: "run_state bridgeCycleBresp ?s = ((), s1)" "running s1" "run_state ?t s1 = ((), s')"
    by (rule inert_running [OF t(2) r assms(3)]) auto
  obtain es where es: "bus s1 = bus ?s @ es" "list_all2 bresp_write g_BrespTab (control0_writes es)"
    by (rule bresp_cycle [OF s(1) 1(1) [unfolded bridgeCycleBresp_def] 1(2)])
  obtain fs where fs: "bus s' = bus s1 @ fs" "list_all (avoids (\<lambda>a. a = ARM_CONTROL0)) fs"
    by (rule effects_run [OF t(1) 1(3)])
  have "PM_PROC \<noteq> ARM_CONTROL0" by (simp add: reg_defs)
  then have c: "control0_writes ([Rd PM_PROC, Wr PM_PROC w] @ es @ fs) = control0_writes es" for w
    using control0_writes_none [OF fs(2)] by (simp add: control0_writes_def)
  have "bus s' = bus s @ ([Rd PM_PROC, Wr PM_PROC (cur s PM_PROC OR (PM_PASSWORD OR NOT PM_PROC_ARMRSTN_CLR))] @ es @ fs)"
    using es(1) fs(1) s(2) by simp
  moreover have "list_all2 bresp_write g_BrespTab
      (control0_writes ([Rd PM_PROC, Wr PM_PROC (cur s PM_PROC OR (PM_PASSWORD OR NOT PM_PROC_ARMRSTN_CLR))] @ es @ fs))"
    by (simp only: c es(2))
  ultimately show thesis by (rule that)
qed

lemma arm_init_stages:
  assumes "running s" "run_state (arm_init timer_init copy_payload) s = ((), s')" "running s'"
  obtains s1 s2 s3 s4 where "run_state (bridge_setup timer_init copy_payload) s = ((), s1)" "running s1"
    "s2 = log [Rd ARM_CONTROL1, Wr ARM_CONTROL1 (cur s1 ARM_CONTROL1 OR ARM_C1_PERSON)] s1"
    "run_state bridge_clock s2 = ((), s3)" "running s3" "run_state bridge_reset s3 = ((), s4)" "running s4"
    "run_state (do { reg_and ARM_CONTROL1 (NOT ARM_C1_REQSTOP); after_release }) s4 = ((), s')"
proof -
  let ?p = "reg_or ARM_CONTROL1 ARM_C1_PERSON :: ('a, unit) io"
    and ?q = "reg_and ARM_CONTROL1 (NOT ARM_C1_REQSTOP) :: ('a, unit) io"
  obtain s1 where 1: "run_state (bridge_setup timer_init copy_payload) s = ((), s1)" "running s1"
    "run_state (do { ?p; bridge_clock; bridge_reset; ?q; after_release }) s1 = ((), s')"
    by (rule inert_running [OF _ assms(2) [unfolded arm_init_parts] assms(3)]) (intro inert_intros, auto)
  define s2 where "s2 = log [Rd ARM_CONTROL1, Wr ARM_CONTROL1 (cur s1 ARM_CONTROL1 OR ARM_C1_PERSON)] s1"
  have 2: "run_state (do { bridge_clock; bridge_reset; ?q; after_release }) s2 = ((), s')"
    using 1(2,3) by (simp add: s2_def)
  obtain s3 where 3: "run_state bridge_clock s2 = ((), s3)" "running s3"
    "run_state (do { bridge_reset; ?q; after_release }) s3 = ((), s')"
    by (rule inert_running [OF _ 2 assms(3)]) (intro inert_intros, auto)
  obtain s4 where 4: "run_state bridge_reset s3 = ((), s4)" "running s4" "run_state (do { ?q; after_release }) s4 = ((), s')"
    by (rule inert_running [OF _ 3(3) assms(3)]) (intro inert_intros, auto)
  show thesis by (rule that [OF 1(1,2) s2_def 3(1,2) 4])
qed

text \<open>C34.  The ARM starts last.  Every run of \<^verbatim>\<open>arm_init\<close> that returns writes the bridge's
  \<^verbatim>\<open>ARM_CONTROL1\<close> exactly twice, given that \<^verbatim>\<open>timer_init\<close> and the copy of the payload leave it alone.
  The first write adds the PERSON bit to the value read and keeps the stop request as it was; by then
  the bridge is configured in \<^verbatim>\<open>ARM_CONTROL0\<close>.  Then the ARM's clock is enabled from PLL B; then its
  reset is released and \<^verbatim>\<open>ARM_CONTROL0\<close> gets the words of the reset cycle, in the order of the
  table.  Only then the second write takes the stop request back, and nothing is written after it;
  by then memory is mapped at the ARM's address 0 and the peripherals at \<open>0x20000000\<close>.\<close>

theorem arm_released_last:
  assumes "running s" and "effects (avoids (\<lambda>a. a = ARM_CONTROL1)) timer_init" and "inert timer_init"
    and "effects (avoids (\<lambda>a. a = ARM_CONTROL1)) copy_payload" and "inert copy_payload"
    and "run_state (arm_init timer_init copy_payload) s = ((), s')" and "running s'"
  shows "\<exists>a b c h t. h = bus s @ a @
        [Rd ARM_CONTROL1, Wr ARM_CONTROL1 (dev s (bus s @ a) ARM_CONTROL1 OR ARM_C1_PERSON)] @ b @ c \<and>
      bus s' = h @ [Rd ARM_CONTROL1, Wr ARM_CONTROL1 (dev s h ARM_CONTROL1 AND NOT ARM_C1_REQSTOP)] @ t \<and>
      list_all (avoids (\<lambda>a. a = ARM_CONTROL1)) (a @ b @ c) \<and> list_all quiet t \<and>
      (\<exists>x. last_write ARM_CONTROL0 a = Some (x OR bridge_config)) \<and>
      last_write CM_ARMCTL b = Some (CM_PASSWORD OR 4 OR CM_ARMCTL_ENAB_SET) \<and> last_write CM_ARMCTL c = None \<and>
      (\<exists>w. last_write PM_PROC c = Some w \<and> w AND NOT PM_PROC_ARMRSTN_CLR = NOT PM_PROC_ARMRSTN_CLR) \<and>
      control0_writes b = [] \<and> list_all2 bresp_write g_BrespTab (control0_writes c) \<and>
      last_write (window 0) h = Some (drop_bit 21 0xc0000000) \<and>
      last_write (window 0x20) h = Some (drop_bit 21 0x7e000000)"
proof -
  let ?q = "reg_and ARM_CONTROL1 (NOT ARM_C1_REQSTOP) :: ('a, unit) io"
  obtain s1 s2 s3 s4 where 1: "run_state (bridge_setup timer_init copy_payload) s = ((), s1)" "running s1"
    and s2: "s2 = log [Rd ARM_CONTROL1, Wr ARM_CONTROL1 (cur s1 ARM_CONTROL1 OR ARM_C1_PERSON)] s1"
    and 3: "run_state bridge_clock s2 = ((), s3)" "running s3"
    and 4: "run_state bridge_reset s3 = ((), s4)" "running s4" "run_state (do { ?q; after_release }) s4 = ((), s')"
    by (rule arm_init_stages [OF assms(1,6,7)])
  have 2: "running s2" using 1(2) by (simp add: s2)
  obtain a where a: "dev s1 = dev s" "bus s1 = bus s @ a" "list_all (avoids (\<lambda>a. a = ARM_CONTROL1)) a"
    by (rule effects_run [OF bridge_setup_effects [OF assms(2,4)] 1(1)])
  note l = bridge_setup_leaves [OF any_effects [OF assms(2)] any_effects [OF assms(4)] assms(3,5)]
  have la: "last_write (window 0) a = Some 0x600" "last_write (window 0x20) a = Some 0x3f0"
    "\<exists>x. last_write ARM_CONTROL0 a = Some (x OR bridge_config)"
    by (rule leavesE [OF l(1) assms(1) 1(1,2)], use a(2) in simp)
      (rule leavesE [OF l(2) assms(1) 1(1,2)], use a(2) in simp,
       rule leavesE [OF l(3) assms(1) 1(1,2)], use a(2) in auto)
  obtain b where b: "dev s3 = dev s2" "bus s3 = bus s2 @ b"
    "list_all (avoids (\<lambda>a. a \<in> {window 0, window 0x20, ARM_CONTROL0, ARM_CONTROL1})) b"
    by (rule effects_run [OF bridge_clock_effects 3(1)])
  have lb: "last_write CM_ARMCTL b = Some (CM_PASSWORD OR 4 OR CM_ARMCTL_ENAB_SET)"
    by (rule leavesE [OF bridge_clock_leaves 2 3(1,2)]) (use b(2) in simp)
  obtain c where c: "dev s4 = dev s3" "bus s4 = bus s3 @ c"
    "list_all (avoids (\<lambda>a. a \<in> {window 0, window 0x20, CM_ARMCTL, ARM_CONTROL1})) c"
    by (rule effects_run [OF bridge_reset_effects 4(1)])
  have lc: "\<exists>w. last_write PM_PROC c = Some w \<and> w AND NOT PM_PROC_ARMRSTN_CLR = NOT PM_PROC_ARMRSTN_CLR"
    by (rule leavesE [OF bridge_reset_leaves 3(2) 4(1,2)]) (use c(2) in auto)
  have cyc: "list_all2 bresp_write g_BrespTab (control0_writes c)"
    by (rule bridge_reset_cycle [OF 3(2) 4(1,2)]) (use c(2) in simp)
  let ?w = "[Rd ARM_CONTROL1, Wr ARM_CONTROL1 (cur s4 ARM_CONTROL1 AND NOT ARM_C1_REQSTOP)]"
  have "run_state after_release (log ?w s4) = ((), s')" using 4(2,3) by simp
  moreover have "effects quiet after_release" unfolding after_release_def by (intro emit_intros) simp_all
  ultimately obtain t where t: "bus s' = bus s4 @ ?w @ t" "list_all quiet t"
    using effects_run [of quiet after_release "log ?w s4"] by auto
  have n: "window 0 \<noteq> ARM_CONTROL1" "window 0x20 \<noteq> ARM_CONTROL1" by (simp_all add: reg_defs window_def)
  have d: "dev s4 = dev s" "bus s4 = bus s2 @ b @ c"
    "bus s2 = bus s @ a @ [Rd ARM_CONTROL1, Wr ARM_CONTROL1 (dev s (bus s @ a) ARM_CONTROL1 OR ARM_C1_PERSON)]"
    using a(1,2) b(1,2) c(1,2) by (simp_all add: s2 cur_def)
  have none: "list_all (avoids (\<lambda>a. a = ARM_CONTROL1)) (b @ c)" "control0_writes b = []"
    using avoids_part [OF b(3)] avoids_part [OF c(3)] by (auto intro: control0_writes_none)
  note lw = avoids_last_write [OF b(3)] avoids_last_write [OF c(3)]
  show ?thesis
    by (intro exI [of _ a] exI [of _ b] exI [of _ c] exI [of _ "bus s4"] exI [of _ t] conjI)
      (use t a(3) la lb lc cyc d none lw n in \<open>simp_all add: cur_def\<close>)
qed

text \<open>The device of the witness: the power domain answers at once, and the clock runs.\<close>

definition bridge_dev :: device where
  "bridge_dev h a = (if a = PM_PROC then 0x12 else clock_dev (\<lambda>_. 0) h a)"

lemma bridge_dev_ends: "ends bridge_dev (arm_init (return ()) (return ()))"
proof -
  have "bridge_dev h ST_CLO = clock_dev (\<lambda>_. 0) h ST_CLO" for h by (simp add: bridge_dev_def reg_defs)
  then have t: "ticking bridge_dev 1000"
    using ticking_clock_dev [of "\<lambda>_. 0"] by (simp add: ticking_def ticks_def answer_def cur_def)
  have a: "ends bridge_dev (await PM_PROC flag)" if "0x12 AND flag \<noteq> 0" for flag
    using that by (auto simp: ends_def await_now cur_def bridge_dev_def)
  show ?thesis
    unfolding arm_init_def power_arm_start_def power_domain_on_def printregs_def mapBusToArm_def setupClock_def
      bridgeStart_def bridgeCycleBresp_def bridgeWriteBresp_def Let_def
    by (intro ends_intros a udelay_returns [OF t]) (simp_all add: reg_defs)
qed

theorem arm_released_last_witness:
  "\<exists>s' h t. run_state (arm_init (return ()) (return ())) (boot bridge_dev) = ((), s') \<and>
     bus s' = h @ [Rd ARM_CONTROL1, Wr ARM_CONTROL1 (bridge_dev h ARM_CONTROL1 AND NOT ARM_C1_REQSTOP)] @ t \<and>
     list_all quiet t \<and> last_write (window 0x20) h = Some 0x3f0"
proof -
  obtain s' where run: "run_state (arm_init (return ()) (return ())) (boot bridge_dev) = ((), s')" using run_unit by blast
  have "running s'" by (rule endsD [OF bridge_dev_ends _ _ run]) simp_all
  moreover have "running (boot bridge_dev)" "inert (return () :: (unit, unit) io)" by (simp, intro inert_intros)
  ultimately obtain h t where "bus s' = h @
      [Rd ARM_CONTROL1, Wr ARM_CONTROL1 (dev (boot bridge_dev) h ARM_CONTROL1 AND NOT ARM_C1_REQSTOP)] @ t"
    "list_all quiet t" "last_write (window 0x20) h = Some (drop_bit 21 0x7e000000)"
    using arm_released_last [OF _ effects_return _ effects_return _ run] by blast
  with run show ?thesis by auto
qed

end
