(* ===== verification/Dpi.thy ===== *)
theory Dpi
  imports Pixelvalve
begin

unbundle bit_operations_syntax

text \<open>
  The parallel display output (\<^verbatim>\<open>dpi/dpi.c\<close>, \<^verbatim>\<open>dpi.h\<close>), in its \<^verbatim>\<open>HYPERPIXEL\<close> build: clock, timings,
  control word and pins, and two timer callbacks that draw on the frame buffer.  LK's graphics
  library and timers are arguments: \<open>new_surface w h\<close> is \<^verbatim>\<open>gfx_create_surface\<close> in \<^verbatim>\<open>ARGB_8888\<close>,
  \<open>put fb x y c\<close> is \<^verbatim>\<open>gfx_putpixel\<close>.
\<close>

subsection \<open>The control register\<close>

definition DPI_C :: u32 where [reg_defs]: "DPI_C = BCM_PERIPH_BASE_VIRT + 0x208000"

definition FORMAT :: "u32 \<Rightarrow> u32" where "FORMAT n = push_bit 11 (n AND 0x7)"
definition ORDER :: "u32 \<Rightarrow> u32" where "ORDER n = push_bit 14 (n AND 0x3)"

definition DPI_OUTPUT_ENABLE_MODE :: u32 where [reg_defs]: "DPI_OUTPUT_ENABLE_MODE = BV 16"
definition DPI_PIXEL_CLK_INVERT :: u32 where [reg_defs]: "DPI_PIXEL_CLK_INVERT = BV 10"
definition DPI_HSYNC_DISABLE :: u32 where [reg_defs]: "DPI_HSYNC_DISABLE = BV 3"
definition DPI_VSYNC_DISABLE :: u32 where [reg_defs]: "DPI_VSYNC_DISABLE = BV 2"
definition DPI_ENABLE :: u32 where [reg_defs]: "DPI_ENABLE = BV 0"

subsection \<open>The code\<close>

record dpi_mach = hvs_mach +
  dpi_fb :: "gfx_surface option"
  dpi_width :: int
  dpi_height :: int
  dpi_stride :: int
  count :: u8
  count2 :: u32

type_synonym ('r, 'a) dpi_io = "('r dpi_mach_ext hvs_mach_ext, 'a) io"
type_synonym 'r putpixel = "gfx_surface option \<Rightarrow> int \<Rightarrow> int \<Rightarrow> u32 \<Rightarrow> ('r, unit) dpi_io"

text \<open>The timings; the fields the function does not set are those of \<open>junk\<close>.\<close>

definition hyperpixel :: "pv_timings \<Rightarrow> pv_timings" where
  "hyperpixel junk = junk\<lparr>vfp := 15, vsync := 113, vbp := 15, vactive := 800,
     hfp := 10, hsync := 16, hbp := 59, hactive := 480\<rparr>"

definition dpi_surface :: "(int \<Rightarrow> int \<Rightarrow> ('r, gfx_surface option) dpi_io) \<Rightarrow> pv_timings \<Rightarrow> ('r, unit) dpi_io" where
  "dpi_surface new_surface t = do {
     fb \<leftarrow> gget dpi_fb;
     when_io (fb = None) (do {
       gset (\<lambda>s. s\<lparr>dpi_width := uint (hactive t)\<rparr>);
       gset (\<lambda>s. s\<lparr>dpi_height := uint (vactive t)\<rparr>);
       gset (\<lambda>s. s\<lparr>dpi_stride := uint (hactive t)\<rparr>);
       w \<leftarrow> gget dpi_width;
       h \<leftarrow> gget dpi_height;
       fb \<leftarrow> new_surface w h;
       gset (\<lambda>s. s\<lparr>dpi_fb := fb\<rparr>)
     })
   }"

definition grey :: "int \<Rightarrow> u32" where
  "grey y = push_bit 24 0xff OR push_bit 16 (of_int y) OR push_bit 8 (of_int y) OR of_int y"

definition dpi_fill :: "'r putpixel \<Rightarrow> ('r, unit) dpi_io" where
  "dpi_fill put = do {
     h \<leftarrow> gget dpi_height;
     w \<leftarrow> gget dpi_width;
     fb \<leftarrow> gget dpi_fb;
     for_each [0..h - 1] (\<lambda>x. for_each [0..w - 1] (\<lambda>y. put fb x y (grey y)))
   }"

definition dpi_clock :: "u32 \<Rightarrow> ('r, unit) io" where
  "dpi_clock xtal_freq = do {
     wr CM_DPIDIV (CM_PASSWORD OR push_bit 4 0xe00);
     wr CM_DPICTL (CM_PASSWORD OR CM_DPICTL_KILL_SET OR CM_SRC_PLLC_CORE0);
     _ \<leftarrow> poll CM_DPICTL (\<lambda>x. x AND CM_DPICTL_BUSY_SET = 0);
     wr CM_DPICTL (CM_PASSWORD OR CM_DPICTL_ENAB_SET OR CM_SRC_PLLC_CORE0);
     _ \<leftarrow> poll CM_DPICTL (\<lambda>x. x AND CM_DPICTL_BUSY_SET = 0);
     printf ''DPI clock set'' [];
     rate \<leftarrow> measure_clock xtal_freq 17;
     printf ''DPI clock measured at %d'' [U rate]
   }"

text \<open>The control word of an output format in the firmware's notation; the messages in between.\<close>

definition fmt_bit :: "u32 \<Rightarrow> nat \<Rightarrow> bool" where
  "fmt_bit fmt n \<longleftrightarrow> drop_bit n fmt AND 0x1 \<noteq> 0"

definition control_word :: "u32 \<Rightarrow> u32" where
  "control_word fmt = DPI_ENABLE OR FORMAT ((fmt AND 0xf) - 1) OR ORDER (drop_bit 4 fmt AND 0xf)
     OR (if fmt_bit fmt 8 then DPI_OUTPUT_ENABLE_MODE else 0)
     OR (if fmt_bit fmt 9 then DPI_PIXEL_CLK_INVERT else 0)
     OR (if fmt_bit fmt 12 then DPI_HSYNC_DISABLE else 0)
     OR (if fmt_bit fmt 13 then DPI_VSYNC_DISABLE else 0)"

definition print_format :: "u32 \<Rightarrow> ('r, unit) io" where
  "print_format fmt = do {
     printf ''format: %d'' [I (sint ((fmt AND 0xf) - 1))];
     printf ''rgb order: %d'' [U (drop_bit 4 fmt AND 0xf)];
     when_io (fmt_bit fmt 8) (printf ''output enable mode'' []);
     when_io (fmt_bit fmt 9) (printf ''invert pixel clock'' []);
     when_io (fmt_bit fmt 12) (printf ''hsync disable'' []);
     when_io (fmt_bit fmt 13) (printf ''vsync disable'' []);
     when_io (fmt_bit fmt 14) (printf ''output_enable_disable'' []);
     when_io (fmt_bit fmt 16) (printf ''hsync polarity'' []);
     when_io (fmt_bit fmt 17) (printf ''vsync polarity'' []);
     when_io (fmt_bit fmt 18) (printf ''output_enable_polarity'' []);
     when_io (fmt_bit fmt 20) (printf ''hsync_phase'' []);
     when_io (fmt_bit fmt 21) (printf ''vsync_phase'' []);
     when_io (fmt_bit fmt 22) (printf ''output_enable_phase'' [])
   }"

definition dpi_pins :: "('r, unit) io" where
  "dpi_pins = for_each [0..<26] (\<lambda>x.
     when_io (x \<noteq> 10 \<and> x \<noteq> 11 \<and> x \<noteq> 18 \<and> x \<noteq> 19) (do {
       _ \<leftarrow> gpio_config (of_nat x) (pinmux_code Pinmux_ALT2);
       return ()
     }))"

definition cmd_dpi_start ::
  "('r, unit) dpi_io \<Rightarrow> (int \<Rightarrow> int \<Rightarrow> ('r, gfx_surface option) dpi_io) \<Rightarrow> 'r putpixel \<Rightarrow> pv_timings \<Rightarrow> u32 \<Rightarrow> ('r, int) dpi_io" where
  "cmd_dpi_start timer_init new_surface put junk xtal_freq = do {
     hvs_initialize timer_init;
     let t = hyperpixel junk;
     dpi_surface new_surface t;
     dpi_fill put;
     w \<leftarrow> gget dpi_width;
     h \<leftarrow> gget dpi_height;
     hvs_configure_channel 0 (of_int w) (of_int h) True;
     list_start \<leftarrow> gget display_slot;
     fb \<leftarrow> gget dpi_fb;
     hvs_add_plane fb 0 0 False;
     hvs_terminate_list;
     wr SCALER_DISPLIST0 (of_int list_start);
     wr SCALER_DISPLIST1 (of_int list_start);
     wr SCALER_DISPLIST2 (of_int list_start);
     dpi_clock xtal_freq;
     setup_pixelvalve t 0;
     let dpi_output_format = 0x7f226;
     print_format dpi_output_format;
     wr DPI_C (control_word dpi_output_format);
     dpi_pins;
     return 0
   }"

definition updater_entry :: "'r putpixel \<Rightarrow> ('r, handler_return) dpi_io" where
  "updater_entry put = do {
     h \<leftarrow> gget dpi_height;
     w \<leftarrow> gget dpi_width;
     fb \<leftarrow> gget dpi_fb;
     for_each [0..h - 1] (\<lambda>y. for_each [0..w - 1] (\<lambda>x. do {
       c \<leftarrow> gget count;
       put fb x y (0xff000000 OR push_bit 16 (u32_of8 c))
     }));
     gset (\<lambda>s. s\<lparr>count := count s + 1\<rparr>);
     return INT_NO_RESCHEDULE
   }"

text \<open>The two \<^verbatim>\<open>int\<close> operands are converted to the unsigned type of \<^verbatim>\<open>count2\<close>; a zero divisor is an
  exception of the processor.\<close>

definition mover_entry :: "'r putpixel \<Rightarrow> ('r, handler_return) dpi_io" where
  "mover_entry put = do {
     w \<leftarrow> gget dpi_width;
     h \<leftarrow> gget dpi_height;
     if of_int w = (0 :: u32) \<or> of_int (w * h) = (0 :: u32) then do { panic ''Division by zero''; return INT_NO_RESCHEDULE }
     else do {
       fb \<leftarrow> gget dpi_fb;
       c \<leftarrow> gget count2;
       let y = sint (c div of_int w);
       let x = sint (c mod of_int w);
       put fb x y 0xff000000;
       gset (\<lambda>s. s\<lparr>count2 := (count2 s + 1) mod of_int (w * h)\<rparr>);
       c \<leftarrow> gget count2;
       let y = sint (c div of_int w);
       let x = sint (c mod of_int w);
       put fb x y 0xffffffff;
       return INT_NO_RESCHEDULE
     }
   }"

text \<open>\<open>periodic ms\<close> is \<^verbatim>\<open>timer_initialize(&updater)\<close> and \<^verbatim>\<open>timer_set_periodic\<close> with the callback.\<close>

definition cmd_dpi_count :: "(u32 \<Rightarrow> ('r, handler_return) dpi_io \<Rightarrow> ('r, unit) dpi_io) \<Rightarrow> 'r putpixel \<Rightarrow> ('r, int) dpi_io" where
  "cmd_dpi_count periodic put = do { periodic 1000 (updater_entry put); return 0 }"

definition cmd_dpi_move :: "(u32 \<Rightarrow> ('r, handler_return) dpi_io \<Rightarrow> ('r, unit) dpi_io) \<Rightarrow> 'r putpixel \<Rightarrow> ('r, int) dpi_io" where
  "cmd_dpi_move periodic put = do { periodic 10 (mover_entry put); return 0 }"


subsection \<open>Library: drawing\<close>

definition dpi_vars :: "'r dpi_mach_scheme \<Rightarrow> gfx_surface option \<times> int \<times> int \<times> u8 \<times> u32" where
  "dpi_vars s = (dpi_fb s, dpi_width s, dpi_height s, count s, count2 s)"

lemma dpi_vars_log [simp]: "dpi_vars (log es s) = dpi_vars s"
  by (simp add: dpi_vars_def log_def)

text \<open>
  What the callbacks rely on: \<open>put\<close> sets one pixel of the surface \<open>f\<close>, of size \<open>w\<close> by \<open>h\<close>, and ignores
  a position outside it; \<open>pix\<close> reads the surface.
\<close>

definition inside :: "int \<Rightarrow> int \<Rightarrow> int \<times> int \<Rightarrow> bool" where
  "inside w h = (\<lambda>(x, y). 0 \<le> x \<and> x < w \<and> 0 \<le> y \<and> y < h)"

definition draws ::
  "'r putpixel \<Rightarrow> gfx_surface \<Rightarrow> int \<Rightarrow> int \<Rightarrow> ('r dpi_mach_scheme \<Rightarrow> int \<times> int \<Rightarrow> u32) \<Rightarrow> bool" where
  "draws put f w h pix \<longleftrightarrow> (\<forall>s c. pix (s\<lparr>count2 := c\<rparr>) = pix s) \<and>
     (\<forall>s x y c. running s \<longrightarrow> (\<exists>s'. run_state (put (Some f) x y c) s = ((), s') \<and> running s' \<and>
        dpi_vars s' = dpi_vars s \<and> pix s' = (if inside w h (x, y) then (pix s)((x, y) := c) else pix s)))"

lemma drawsE:
  assumes "draws put f w h pix" "running s"
  obtains s' where "run_state (put (Some f) x y c) s = ((), s')" "running s'" "dpi_vars s' = dpi_vars s"
    "pix s' = (if inside w h (x, y) then (pix s)((x, y) := c) else pix s)"
  using assms unfolding draws_def by blast

lemma draw_column:
  assumes "draws put f w h pix" "running s"
  shows "\<exists>s'. run_state (for_each ys (\<lambda>y. put (Some f) x y (col y))) s = ((), s') \<and> running s' \<and>
    dpi_vars s' = dpi_vars s \<and>
    pix s' = (\<lambda>(a, b). if a = x \<and> b \<in> set ys \<and> inside w h (a, b) then col b else pix s (a, b))"
  using assms(2)
proof (induction ys arbitrary: s)
  case (Cons y ys)
  obtain s1 where 1: "run_state (put (Some f) x y (col y)) s = ((), s1)" "running s1" "dpi_vars s1 = dpi_vars s"
    "pix s1 = (if inside w h (x, y) then (pix s)((x, y) := col y) else pix s)"
    by (rule drawsE [OF assms(1) Cons.prems])
  from Cons.IH [OF 1(2)] 1 show ?case by (fastforce simp: fun_eq_iff)
qed auto

lemma draw_rectangle:
  assumes "draws put f w h pix" "running s"
  shows "\<exists>s'. run_state (for_each xs (\<lambda>x. for_each ys (\<lambda>y. put (Some f) x y (col y)))) s = ((), s') \<and> running s' \<and>
    dpi_vars s' = dpi_vars s \<and>
    pix s' = (\<lambda>(a, b). if a \<in> set xs \<and> b \<in> set ys \<and> inside w h (a, b) then col b else pix s (a, b))"
  using assms(2)
proof (induction xs arbitrary: s)
  case (Cons x xs)
  obtain s1 where 1: "run_state (for_each ys (\<lambda>y. put (Some f) x y (col y))) s = ((), s1)" "running s1" "dpi_vars s1 = dpi_vars s"
    "pix s1 = (\<lambda>(a, b). if a = x \<and> b \<in> set ys \<and> inside w h (a, b) then col b else pix s (a, b))"
    using draw_column [OF assms(1) Cons.prems] by blast
  obtain s' where "run_state (for_each xs (\<lambda>x. for_each ys (\<lambda>y. put (Some f) x y (col y)))) s1 = ((), s')" "running s'"
    "dpi_vars s' = dpi_vars s1"
    "pix s' = (\<lambda>(a, b). if a \<in> set xs \<and> b \<in> set ys \<and> inside w h (a, b) then col b else pix s1 (a, b))"
    using Cons.IH [OF 1(2)] by blast
  with 1 show ?case by (intro exI [of _ s']) (auto simp: fun_eq_iff)
qed auto









subsection \<open>Properties\<close>


text \<open>The surface of the witness is in the machine.\<close>

record screen_mach = dpi_mach +
  screen :: "int \<times> int \<Rightarrow> u32"

definition set_pixel :: "int \<Rightarrow> int \<Rightarrow> unit screen_mach_ext putpixel" where
  "set_pixel w h fb x y c = gset (\<lambda>s. if inside w h (x, y) then s\<lparr>screen := (screen s)((x, y) := c)\<rparr> else s)"

lemma set_pixel_draws: "draws (set_pixel w h) f w h screen"
  by (simp add: draws_def set_pixel_def dpi_vars_def)

definition screen_boot :: "gfx_surface \<Rightarrow> screen_mach" where
  "screen_boot f = \<lparr>dev = \<lambda>_ _. 0, bus = [], status = Running, sr = 0, display_slot = 0, scaled_layer_count = 0,
     channels = [], dpi_fb = Some f, dpi_width = 3, dpi_height = 2, dpi_stride = 3, count = 0, count2 = 0,
     screen = \<lambda>_. 0\<rparr>"


text \<open>The first picture has its loops swapped: the column runs to the height and the line to the
  width.  Of a surface that is higher than wide only the upper square is drawn, each line in its
  grey; the lines below keep what the memory held.\<close>

theorem dpi_fill_square:
  assumes "draws put f w h pix" and "running s" and "dpi_vars s = (Some f, w, h, k, c)" and "w \<le> h"
    and "inside w h (x, y)" and "run_state (dpi_fill put) s = ((), s')"
  shows "pix s' (x, y) = (if y < w then grey y else pix s (x, y))"
proof -
  have v: "dpi_fb s = Some f" "dpi_width s = w" "dpi_height s = h"
    using assms(3) by (simp_all add: dpi_vars_def)
  have "run_state (for_each [0..h - 1] (\<lambda>x. for_each [0..w - 1] (\<lambda>y. put (Some f) x y (grey y)))) s = ((), s')"
    using assms(6) v by (simp add: dpi_fill_def)
  with draw_rectangle [OF assms(1,2), of "[0..h - 1]" "[0..w - 1]" grey] assms(4,5)
  show ?thesis by (auto simp: inside_def)
qed

theorem dpi_fill_square_witness:
  "\<forall>f. \<exists>s'. run_state (dpi_fill (set_pixel 1 2)) (screen_boot f\<lparr>dpi_width := 1\<rparr>) = ((), s') \<and>
    screen s' (0, 0) = grey 0 \<and> screen s' (0, 1) = 0"
proof
  fix f
  let ?s = "screen_boot f\<lparr>dpi_width := 1\<rparr>"
  obtain s' where run: "run_state (dpi_fill (set_pixel 1 2)) ?s = ((), s')" using run_unit by blast
  have s: "running ?s" "dpi_vars ?s = (Some f, 1, 2, 0, 0)" "screen ?s = (\<lambda>_. 0)"
    by (simp_all add: screen_boot_def dpi_vars_def)
  from dpi_fill_square [OF set_pixel_draws s(1,2) _ _ run, of 0 0] dpi_fill_square [OF set_pixel_draws s(1,2) _ _ run, of 0 1] s(3) run
  show "\<exists>s'. run_state (dpi_fill (set_pixel 1 2)) ?s = ((), s') \<and> screen s' (0, 0) = grey 0 \<and> screen s' (0, 1) = 0"
    by (simp add: inside_def)
qed

end
