(* ===== verification/Vec.thy ===== *)
theory Vec
  imports Dance Platform
begin

unbundle bit_operations_syntax

text \<open>
  The composite video output (\<^verbatim>\<open>vec/vec.c\<close>, \<^verbatim>\<open>vec.h\<close>): the encoder's registers, the grid drawn on the
  frame buffer, and the display list with the logo, handed to the sprite demo.  LK's graphics
  library, its image decoder and the demo's arguments are parameters (as in \<open>Dpi\<close> and \<open>Dance\<close>).
\<close>

subsection \<open>Registers\<close>

definition VEC_BASE :: u32 where [reg_defs]: "VEC_BASE = BCM_PERIPH_BASE_VIRT + 0x806000"
definition VEC_WSE_RESET :: u32 where [reg_defs]: "VEC_WSE_RESET = VEC_BASE + 0x0c0"
definition VEC_WSE_CONTROL :: u32 where [reg_defs]: "VEC_WSE_CONTROL = VEC_BASE + 0x0c4"
definition VEC_CONFIG0 :: u32 where [reg_defs]: "VEC_CONFIG0 = VEC_BASE + 0x104"
definition VEC_CONFIG0_NTSC_STD :: u32 where [reg_defs]: "VEC_CONFIG0_NTSC_STD = 0"
definition VEC_CONFIG0_PAL_BDGHI_STD :: u32 where [reg_defs]: "VEC_CONFIG0_PAL_BDGHI_STD = 1"
definition VEC_CONFIG0_PDEN :: u32 where [reg_defs]: "VEC_CONFIG0_PDEN = BV 6"
definition VEC_SCHPH :: u32 where [reg_defs]: "VEC_SCHPH = VEC_BASE + 0x108"
definition VEC_SOFT_RESET :: u32 where [reg_defs]: "VEC_SOFT_RESET = VEC_BASE + 0x10c"
definition VEC_CLMP0_START :: u32 where [reg_defs]: "VEC_CLMP0_START = VEC_BASE + 0x144"
definition VEC_CLMP0_END :: u32 where [reg_defs]: "VEC_CLMP0_END = VEC_BASE + 0x148"
definition VEC_FREQ3_2 :: u32 where [reg_defs]: "VEC_FREQ3_2 = VEC_BASE + 0x180"
definition VEC_FREQ1_0 :: u32 where [reg_defs]: "VEC_FREQ1_0 = VEC_BASE + 0x184"
definition VEC_CONFIG1 :: u32 where [reg_defs]: "VEC_CONFIG1 = VEC_BASE + 0x188"
definition VEC_CONFIG1_CUSTOM_FREQ :: u32 where [reg_defs]: "VEC_CONFIG1_CUSTOM_FREQ = BV 0"
definition VEC_CONFIG1_C_CVBS_CVBS :: u32 where [reg_defs]: "VEC_CONFIG1_C_CVBS_CVBS = push_bit 10 7"
definition VEC_CONFIG2 :: u32 where [reg_defs]: "VEC_CONFIG2 = VEC_BASE + 0x18c"
definition VEC_CONFIG2_UV_DIG_DIS :: u32 where [reg_defs]: "VEC_CONFIG2_UV_DIG_DIS = BV 6"
definition VEC_CONFIG2_RGB_DIG_DIS :: u32 where [reg_defs]: "VEC_CONFIG2_RGB_DIG_DIS = BV 5"
definition VEC_CONFIG3 :: u32 where [reg_defs]: "VEC_CONFIG3 = VEC_BASE + 0x1a0"
definition VEC_CONFIG3_HORIZ_LEN_STD :: u32 where [reg_defs]: "VEC_CONFIG3_HORIZ_LEN_STD = push_bit 0 0"
definition VEC_MASK0 :: u32 where [reg_defs]: "VEC_MASK0 = VEC_BASE + 0x204"
definition VEC_CFG :: u32 where [reg_defs]: "VEC_CFG = VEC_BASE + 0x208"
definition VEC_CFG_VEC_EN :: u32 where [reg_defs]: "VEC_CFG_VEC_EN = BV 3"
definition VEC_DAC_CONFIG :: u32 where [reg_defs]: "VEC_DAC_CONFIG = VEC_BASE + 0x210"
definition VEC_DAC_CONFIG_LDO_BIAS_CTRL :: "u32 \<Rightarrow> u32" where "VEC_DAC_CONFIG_LDO_BIAS_CTRL x = push_bit 24 x"
definition VEC_DAC_CONFIG_DRIVER_CTRL :: "u32 \<Rightarrow> u32" where "VEC_DAC_CONFIG_DRIVER_CTRL x = push_bit 16 x"
definition VEC_DAC_CONFIG_DAC_CTRL :: "u32 \<Rightarrow> u32" where "VEC_DAC_CONFIG_DAC_CTRL x = x"
definition VEC_DAC_MISC :: u32 where [reg_defs]: "VEC_DAC_MISC = VEC_BASE + 0x214"
definition VEC_DAC_MISC_DAC_RST_N :: u32 where [reg_defs]: "VEC_DAC_MISC_DAC_RST_N = BV 0"
definition VEC_DAC_MISC_VID_ACT :: u32 where [reg_defs]: "VEC_DAC_MISC_VID_ACT = BV 8"

subsection \<open>The code\<close>

datatype vec_mode = Ntsc | Ntscj | Pal | Palm

record vec_mach = dance_mach +
  vec_fb :: "gfx_surface option"
  vec_logo :: "gfx_surface option"
  vec_width :: int
  vec_height :: int
  vec_stride :: int

type_synonym ('r, 'a) vec_io = "('r vec_mach_ext dance_mach_ext hvs_mach_ext, 'a) io"

definition draw_background_grid :: "('r, unit) io" where
  "draw_background_grid = return ()"

definition vec_set_mode :: "vec_mode \<Rightarrow> ('r, unit) io" where
  "vec_set_mode mode = (case mode of
       Ntsc \<Rightarrow> do {
         wr VEC_CONFIG0 (VEC_CONFIG0_NTSC_STD OR VEC_CONFIG0_PDEN);
         wr VEC_CONFIG1 VEC_CONFIG1_C_CVBS_CVBS
       }
     | Ntscj \<Rightarrow> do {
         wr VEC_CONFIG0 VEC_CONFIG0_NTSC_STD;
         wr VEC_CONFIG1 VEC_CONFIG1_C_CVBS_CVBS
       }
     | Pal \<Rightarrow> do {
         wr VEC_CONFIG0 VEC_CONFIG0_PAL_BDGHI_STD;
         wr VEC_CONFIG1 VEC_CONFIG1_C_CVBS_CVBS
       }
     | Palm \<Rightarrow> do {
         wr VEC_CONFIG0 VEC_CONFIG0_PAL_BDGHI_STD;
         wr VEC_CONFIG1 (VEC_CONFIG1_C_CVBS_CVBS OR VEC_CONFIG1_CUSTOM_FREQ);
         wr VEC_FREQ3_2 0x223b;
         wr VEC_FREQ1_0 0x61d1
       })"

definition vec_clock :: "u32 \<Rightarrow> ('r, unit) io" where
  "vec_clock xtal_freq = do {
     wr CM_VECDIV (CM_PASSWORD OR push_bit 12 4);
     wr CM_VECCTL (CM_PASSWORD OR CM_SRC_PLLC_CORE0);
     wr CM_VECCTL (CM_PASSWORD OR CM_VECCTL_ENAB_SET OR CM_SRC_PLLC_CORE0);
     rate \<leftarrow> measure_clock xtal_freq 29;
     printf ''vec rate: %f'' [U rate]
   }"

definition vec_encoder :: "vec_mode \<Rightarrow> ('r, unit) io" where
  "vec_encoder mode = do {
     wr VEC_WSE_RESET 1;
     wr VEC_SOFT_RESET 1;
     wr VEC_WSE_CONTROL 0;
     wr VEC_SCHPH 0x28;
     wr VEC_CLMP0_START 0xac;
     wr VEC_CLMP0_END 0xac;
     wr VEC_CONFIG2 (VEC_CONFIG2_UV_DIG_DIS OR VEC_CONFIG2_RGB_DIG_DIS);
     wr VEC_CONFIG3 VEC_CONFIG3_HORIZ_LEN_STD;
     wr VEC_DAC_CONFIG (VEC_DAC_CONFIG_DAC_CTRL 0xc OR VEC_DAC_CONFIG_DRIVER_CTRL 0xc OR VEC_DAC_CONFIG_LDO_BIAS_CTRL 0x46);
     wr VEC_MASK0 0;
     vec_set_mode mode;
     wr VEC_DAC_MISC (VEC_DAC_MISC_VID_ACT OR VEC_DAC_MISC_DAC_RST_N);
     wr VEC_CFG VEC_CFG_VEC_EN
   }"

text \<open>The timings; \<^verbatim>\<open>clock_mux\<close> is not set.\<close>

definition ntsc_timings :: "int \<Rightarrow> pv_timings" where
  "ntsc_timings junk = \<lparr>vfp = 3, vsync = 4, vbp = 16, vactive = 240, hfp = 14, hsync = 64, hbp = 60, hactive = 720,
     vfp_even = 4, vsync_even = 3, vbp_even = 16, vactive_even = 240, interlaced = True, clock_mux = junk\<rparr>"

definition vec_surface :: "(int \<Rightarrow> int \<Rightarrow> ('r, gfx_surface option) vec_io) \<Rightarrow> pv_timings \<Rightarrow> ('r, unit) vec_io" where
  "vec_surface new_surface t = do {
     fb \<leftarrow> gget vec_fb;
     when_io (fb = None) (do {
       gset (\<lambda>s. s\<lparr>vec_width := uint (hactive t)\<rparr>);
       gset (\<lambda>s. s\<lparr>vec_height := uint (vactive t) * 2\<rparr>);
       gset (\<lambda>s. s\<lparr>vec_stride := uint (hactive t)\<rparr>);
       w \<leftarrow> gget vec_width;
       h \<leftarrow> gget vec_height;
       fb \<leftarrow> new_surface w h;
       gset (\<lambda>s. s\<lparr>vec_fb := fb\<rparr>)
     })
   }"

definition grid_color :: "int \<Rightarrow> int \<Rightarrow> u32" where
  "grid_color x y = 0xff000000
     OR (if y mod 20 = 0 then 0xffffff else 0) OR (if y mod 20 = 1 then 0xffffff else 0)
     OR (if x mod 20 = 0 then 0xffffff else 0) OR (if x mod 20 = 1 then 0xffffff else 0)"

definition vec_grid :: "(gfx_surface option \<Rightarrow> int \<Rightarrow> int \<Rightarrow> u32 \<Rightarrow> ('r, unit) vec_io) \<Rightarrow> ('r, unit) vec_io" where
  "vec_grid put = do {
     w \<leftarrow> gget vec_width;
     h \<leftarrow> gget vec_height;
     fb \<leftarrow> gget vec_fb;
     for_each [0..w - 1] (\<lambda>x. for_each [0..h - 1] (\<lambda>y. put fb x y (grid_color x y)))
   }"

text \<open>A list with the grid, then one with the grid and the logo on it; \<open>decode\<close> is \<^verbatim>\<open>tga_decode\<close> of the logo.\<close>

definition vec_lists :: "u32 \<Rightarrow> ('r, gfx_surface option) vec_io \<Rightarrow> ('r, unit) vec_io" where
  "vec_lists junk decode = do {
     list_start \<leftarrow> gget display_slot;
     fb \<leftarrow> gget vec_fb;
     hvs_add_plane fb 0 0 False;
     hvs_terminate_list;
     wr SCALER_DISPLIST1 (of_int list_start);
     w \<leftarrow> gget vec_width;
     h \<leftarrow> gget vec_height;
     hvs_configure_channel 1 (of_int w) (of_int h) True;
     l \<leftarrow> decode;
     gset (\<lambda>s. s\<lparr>vec_logo := l\<rparr>);
     list_start \<leftarrow> gget display_slot;
     hvs_add_plane fb 0 0 False;
     (case l of
        None \<Rightarrow> panic ''logo''
      | Some f \<Rightarrow> hvs_add_plane_scaled junk l (sint (of_int (w div 2) - fb_width f div 2)) 0 100 100 False);
     hvs_terminate_list;
     wr SCALER_DISPLIST1 (of_int list_start)
   }"

definition vec_init ::
  "('r, unit) vec_io \<Rightarrow> (int \<Rightarrow> int \<Rightarrow> ('r, gfx_surface option) vec_io) \<Rightarrow>
     (gfx_surface option \<Rightarrow> int \<Rightarrow> int \<Rightarrow> u32 \<Rightarrow> ('r, unit) vec_io) \<Rightarrow> ('r, gfx_surface option) vec_io \<Rightarrow>
     (gfx_surface option \<Rightarrow> nat \<Rightarrow> ('r, unit) vec_io) \<Rightarrow> u32 \<Rightarrow> int \<Rightarrow> u32 \<Rightarrow> ('r, unit) vec_io" where
  "vec_init timer_init new_surface put decode start_dance junk junk_mux xtal_freq = do {
     power_up_usb;
     hvs_initialize timer_init;
     vec_clock xtal_freq;
     vec_encoder Ntsc;
     let t = ntsc_timings junk_mux;
     setup_pixelvalve t 2;
     vec_surface new_surface t;
     vec_grid put;
     vec_lists junk decode;
     l \<leftarrow> gget vec_logo;
     start_dance l 1
   }"

end
