(* ===== verification/Stage2.thy ===== *)
theory Stage2
  imports Stage1 Dpi
begin

text \<open>
  The second stage (\<^verbatim>\<open>app/vc4-stage2/stage2.c\<close>): it mounts the file system of the SD card and starts
  the display with the moving pixel.
\<close>

definition stage2_app_init :: "'r lk_ops \<Rightarrow> ('r, unit) io" where
  "stage2_app_init lk = do {
     printf ''stage2 init'' [];
     rpi_sdhost_init lk;
     partition_publish lk ''sdhost'' 0;
     _ \<leftarrow> fs_mount lk ''/root'' ''ext2'' ''sdhostp0'';
     return ()
   }"

definition stage2_app_entry ::
  "('r, unit) dpi_io \<Rightarrow> (int \<Rightarrow> int \<Rightarrow> ('r, gfx_surface option) dpi_io) \<Rightarrow> 'r putpixel \<Rightarrow> pv_timings \<Rightarrow> u32 \<Rightarrow>
     (u32 \<Rightarrow> ('r, handler_return) dpi_io \<Rightarrow> ('r, unit) dpi_io) \<Rightarrow> ('r, unit) dpi_io" where
  "stage2_app_entry timer_init new_surface put junk xtal_freq periodic = do {
     printf ''stage2 entry'' [];
     _ \<leftarrow> cmd_dpi_start timer_init new_surface put junk xtal_freq;
     _ \<leftarrow> cmd_dpi_move periodic put;
     return ()
   }"

end
