(* ===== verification/Sdram.thy ===== *)
theory Sdram
  imports Platform
begin

unbundle bit_operations_syntax

text \<open>
  The set-up of the LPDDR2 memory (\<^verbatim>\<open>rpi-ddr2/sdram.c\<close>, \<^verbatim>\<open>ddr2.h\<close>): the controller is first run from
  the crystal to calibrate it and to ask the memory for its size, then stopped, moved to its own
  PLL with the final timings, started again and tested.  The processor's version register is the
  argument \<open>cpuid\<close>.
\<close>

subsection \<open>Registers\<close>

definition SD_CS_SDUP_SET :: u32 where [reg_defs]: "SD_CS_SDUP_SET = 0x00008000"
definition SD_CS_DEL_KEEP_SET :: u32 where [reg_defs]: "SD_CS_DEL_KEEP_SET = 0x00040000"
definition SD_MR_RDATA_SET :: u32 where [reg_defs]: "SD_MR_RDATA_SET = 0x00ff0000"
definition SD_MR_RDATA_LSB :: nat where [reg_defs]: "SD_MR_RDATA_LSB = 16"
definition SD_MR_RW_SET :: u32 where [reg_defs]: "SD_MR_RW_SET = 0x10000000"
definition SD_MR_HI_Z_SET :: u32 where [reg_defs]: "SD_MR_HI_Z_SET = 0x20000000"
definition SD_MR_TIMEOUT_SET :: u32 where [reg_defs]: "SD_MR_TIMEOUT_SET = 0x40000000"
definition SD_MR_DONE_SET :: u32 where [reg_defs]: "SD_MR_DONE_SET = 0x80000000"
definition CM_SDCCTL :: u32 where [reg_defs]: "CM_SDCCTL = 0x7e1011a8"
definition CM_SDCCTL_SRC_CLR :: u32 where [reg_defs]: "CM_SDCCTL_SRC_CLR = 0xfffffff0"
definition CM_SDCCTL_ENAB_SET :: u32 where [reg_defs]: "CM_SDCCTL_ENAB_SET = 0x00000010"
definition CM_SDCCTL_BUSY_SET :: u32 where [reg_defs]: "CM_SDCCTL_BUSY_SET = 0x00000080"
definition CM_SDCCTL_CTRL_CLR :: u32 where [reg_defs]: "CM_SDCCTL_CTRL_CLR = 0xffff0fff"
definition CM_SDCCTL_CTRL_LSB :: nat where [reg_defs]: "CM_SDCCTL_CTRL_LSB = 12"
definition CM_SDCCTL_ACCPT_SET :: u32 where [reg_defs]: "CM_SDCCTL_ACCPT_SET = 0x00010000"
definition CM_SDCCTL_UPDATE_SET :: u32 where [reg_defs]: "CM_SDCCTL_UPDATE_SET = 0x00020000"
definition CM_SDCCTL_UPDATE_CLR :: u32 where [reg_defs]: "CM_SDCCTL_UPDATE_CLR = 0xfffdffff"
definition CM_SDCDIV :: u32 where [reg_defs]: "CM_SDCDIV = 0x7e1011ac"
definition CM_SDCDIV_DIV_LSB :: nat where [reg_defs]: "CM_SDCDIV_DIV_LSB = 12"
definition CM_SDCCTL_CTRL_SET :: u32 where [reg_defs]: "CM_SDCCTL_CTRL_SET = 0x0000f000"
definition SD_CS :: u32 where [reg_defs]: "SD_CS = 0x7ee00000"
definition SD_CS_RESTRT_SET :: u32 where [reg_defs]: "SD_CS_RESTRT_SET = 0x00000001"
definition SD_CS_EN_SET :: u32 where [reg_defs]: "SD_CS_EN_SET = 0x00000002"
definition SD_CS_DPD_SET :: u32 where [reg_defs]: "SD_CS_DPD_SET = 0x00000004"
definition SD_CS_STBY_SET :: u32 where [reg_defs]: "SD_CS_STBY_SET = 0x00000008"
definition SD_CS_STATEN_SET :: u32 where [reg_defs]: "SD_CS_STATEN_SET = 0x00000040"
definition SD_CS_STOP_SET :: u32 where [reg_defs]: "SD_CS_STOP_SET = 0x00000080"
definition SD_CS_ASHDN_T_LSB :: nat where [reg_defs]: "SD_CS_ASHDN_T_LSB = 19"
definition SD_SA :: u32 where [reg_defs]: "SD_SA = 0x7ee00004"
definition SD_SA_POWSAVE_SET :: u32 where [reg_defs]: "SD_SA_POWSAVE_SET = 0x00000001"
definition SD_SA_CLKSTOP_SET :: u32 where [reg_defs]: "SD_SA_CLKSTOP_SET = 0x00000080"
definition SD_SA_PGEHLDE_SET :: u32 where [reg_defs]: "SD_SA_PGEHLDE_SET = 0x00000100"
definition SD_SA_RFSH_T_LSB :: nat where [reg_defs]: "SD_SA_RFSH_T_LSB = 16"
definition SD_SB :: u32 where [reg_defs]: "SD_SB = 0x7ee00008"
definition SD_SB_COLBITS_LSB :: nat where [reg_defs]: "SD_SB_COLBITS_LSB = 0"
definition SD_SB_ROWBITS_LSB :: nat where [reg_defs]: "SD_SB_ROWBITS_LSB = 2"
definition SD_SB_BANKLOW_LSB :: nat where [reg_defs]: "SD_SB_BANKLOW_LSB = 5"
definition SD_SB_EIGHTBANK_SET :: u32 where [reg_defs]: "SD_SB_EIGHTBANK_SET = 0x00000010"
definition SD_SB_REORDER_SET :: u32 where [reg_defs]: "SD_SB_REORDER_SET = 0x00000080"
definition SD_SC :: u32 where [reg_defs]: "SD_SC = 0x7ee0000c"
definition SD_SC_WL_LSB :: nat where [reg_defs]: "SD_SC_WL_LSB = 0"
definition SD_SC_T_WTR_LSB :: nat where [reg_defs]: "SD_SC_T_WTR_LSB = 4"
definition SD_SC_T_WR_LSB :: nat where [reg_defs]: "SD_SC_T_WR_LSB = 8"
definition SD_SC_T_RRD_LSB :: nat where [reg_defs]: "SD_SC_T_RRD_LSB = 20"
definition SD_SC_T_RFC_LSB :: nat where [reg_defs]: "SD_SC_T_RFC_LSB = 24"
definition SD_PT2 :: u32 where [reg_defs]: "SD_PT2 = 0x7ee00010"
definition SD_PT2_T_INIT5_LSB :: nat where [reg_defs]: "SD_PT2_T_INIT5_LSB = 0"
definition SD_PT1 :: u32 where [reg_defs]: "SD_PT1 = 0x7ee00014"
definition SD_PT1_T_INIT1_LSB :: nat where [reg_defs]: "SD_PT1_T_INIT1_LSB = 0"
definition SD_PT1_T_INIT3_LSB :: nat where [reg_defs]: "SD_PT1_T_INIT3_LSB = 8"
definition SD_PHYC :: u32 where [reg_defs]: "SD_PHYC = 0x7ee00060"
definition SD_PHYC_PHYRST_SET :: u32 where [reg_defs]: "SD_PHYC_PHYRST_SET = 0x00000001"
definition SD_MRT :: u32 where [reg_defs]: "SD_MRT = 0x7ee00064"
definition SD_MRT_T_MRW_LSB :: nat where [reg_defs]: "SD_MRT_T_MRW_LSB = 0"
definition SD_MR :: u32 where [reg_defs]: "SD_MR = 0x7ee00090"
definition SD_SD :: u32 where [reg_defs]: "SD_SD = 0x7ee00094"
definition SD_SD_T_RCD_LSB :: nat where [reg_defs]: "SD_SD_T_RCD_LSB = 0"
definition SD_SD_T_RPpb_LSB :: nat where [reg_defs]: "SD_SD_T_RPpb_LSB = 4"
definition SD_SD_T_RAS_LSB :: nat where [reg_defs]: "SD_SD_T_RAS_LSB = 8"
definition SD_SD_T_XP_LSB :: nat where [reg_defs]: "SD_SD_T_XP_LSB = 16"
definition SD_SD_T_RC_LSB :: nat where [reg_defs]: "SD_SD_T_RC_LSB = 20"
definition SD_SD_T_RPab_LSB :: nat where [reg_defs]: "SD_SD_T_RPab_LSB = 28"
definition SD_SE :: u32 where [reg_defs]: "SD_SE = 0x7ee00098"
definition SD_SE_T_XSR_LSB :: nat where [reg_defs]: "SD_SE_T_XSR_LSB = 0"
definition SD_SE_T_RTP_LSB :: nat where [reg_defs]: "SD_SE_T_RTP_LSB = 8"
definition SD_SE_T_FAW_LSB :: nat where [reg_defs]: "SD_SE_T_FAW_LSB = 12"
definition SD_SE_RL_LSB :: nat where [reg_defs]: "SD_SE_RL_LSB = 20"
definition SD_SE_RL_EN_LSB :: nat where [reg_defs]: "SD_SE_RL_EN_LSB = 28"
definition APHY_CSR_GLBL_ADDR_DLL_RESET :: u32 where [reg_defs]: "APHY_CSR_GLBL_ADDR_DLL_RESET = 0x7ee06004"
definition APHY_CSR_GLBL_ADR_DLL_LOCK_STAT :: u32 where [reg_defs]: "APHY_CSR_GLBL_ADR_DLL_LOCK_STAT = 0x7ee06020"
definition APHY_CSR_DDR_PLL_GLOBAL_RESET :: u32 where [reg_defs]: "APHY_CSR_DDR_PLL_GLOBAL_RESET = 0x7ee06024"
definition APHY_CSR_DDR_PLL_POST_DIV_RESET :: u32 where [reg_defs]: "APHY_CSR_DDR_PLL_POST_DIV_RESET = 0x7ee06028"
definition APHY_CSR_DDR_PLL_VCO_FREQ_CNTRL0 :: u32 where [reg_defs]: "APHY_CSR_DDR_PLL_VCO_FREQ_CNTRL0 = 0x7ee0602c"
definition APHY_CSR_DDR_PLL_VCO_FREQ_CNTRL1 :: u32 where [reg_defs]: "APHY_CSR_DDR_PLL_VCO_FREQ_CNTRL1 = 0x7ee06030"
definition APHY_CSR_DDR_PLL_MDIV_VALUE :: u32 where [reg_defs]: "APHY_CSR_DDR_PLL_MDIV_VALUE = 0x7ee06034"
definition APHY_CSR_DDR_PLL_LOCK_STATUS :: u32 where [reg_defs]: "APHY_CSR_DDR_PLL_LOCK_STATUS = 0x7ee06048"
definition APHY_CSR_DDR_PLL_PWRDWN :: u32 where [reg_defs]: "APHY_CSR_DDR_PLL_PWRDWN = 0x7ee06058"
definition APHY_CSR_ADDR_PAD_DRV_SLEW_CTRL :: u32 where [reg_defs]: "APHY_CSR_ADDR_PAD_DRV_SLEW_CTRL = 0x7ee06068"
definition APHY_CSR_ADDR_PVT_COMP_CTRL :: u32 where [reg_defs]: "APHY_CSR_ADDR_PVT_COMP_CTRL = 0x7ee06070"
definition APHY_CSR_ADDR_PVT_COMP_STATUS :: u32 where [reg_defs]: "APHY_CSR_ADDR_PVT_COMP_STATUS = 0x7ee06078"
definition APHY_CSR_PHY_BIST_CNTRL_SPR :: u32 where [reg_defs]: "APHY_CSR_PHY_BIST_CNTRL_SPR = 0x7ee06080"
definition DPHY_CSR_GLBL_DQ_DLL_RESET :: u32 where [reg_defs]: "DPHY_CSR_GLBL_DQ_DLL_RESET = 0x7ee07004"
definition DPHY_CSR_GLBL_MSTR_DLL_LOCK_STAT :: u32 where [reg_defs]: "DPHY_CSR_GLBL_MSTR_DLL_LOCK_STAT = 0x7ee07018"
definition DPHY_CSR_BOOT_READ_DQS_GATE_CTRL :: u32 where [reg_defs]: "DPHY_CSR_BOOT_READ_DQS_GATE_CTRL = 0x7ee07040"
definition DPHY_CSR_DQ_PHY_MISC_CTRL :: u32 where [reg_defs]: "DPHY_CSR_DQ_PHY_MISC_CTRL = 0x7ee07048"
definition DPHY_CSR_DQ_PAD_DRV_SLEW_CTRL :: u32 where [reg_defs]: "DPHY_CSR_DQ_PAD_DRV_SLEW_CTRL = 0x7ee0704c"
definition DPHY_CSR_DQ_PAD_MISC_CTRL :: u32 where [reg_defs]: "DPHY_CSR_DQ_PAD_MISC_CTRL = 0x7ee07050"
definition DPHY_CSR_DQ_PVT_COMP_CTRL :: u32 where [reg_defs]: "DPHY_CSR_DQ_PVT_COMP_CTRL = 0x7ee07054"
definition DPHY_CSR_DQ_PVT_COMP_STATUS :: u32 where [reg_defs]: "DPHY_CSR_DQ_PVT_COMP_STATUS = 0x7ee0705c"
definition A2W_SMPS_LDO0 :: u32 where [reg_defs]: "A2W_SMPS_LDO0 = 0x7e1020d0"
definition A2W_SMPS_LDO1 :: u32 where [reg_defs]: "A2W_SMPS_LDO1 = 0x7e1020d4"
definition LPDDR2_MR_DEVICE_FEATURE_2 :: u32 where [reg_defs]: "LPDDR2_MR_DEVICE_FEATURE_2 = 2"
definition LPDDR2_MR_IO_CONFIG :: u32 where [reg_defs]: "LPDDR2_MR_IO_CONFIG = 3"
definition LPDDR2_MR_MANUFACTURER_ID :: u32 where [reg_defs]: "LPDDR2_MR_MANUFACTURER_ID = 5"
definition LPDDR2_MR_METRICS :: u32 where [reg_defs]: "LPDDR2_MR_METRICS = 8"
definition LPDDR2_MR_CALIBRATION :: u32 where [reg_defs]: "LPDDR2_MR_CALIBRATION = 10"

subsection \<open>Types\<close>

datatype RamSize = kRamSize1GB | kRamSize512MB | kRamSize256MB | kRamSize128MB | kRamSize2GB | kRamSize4GB
  | kRamSizeUnknown

fun size_to_string :: "RamSize \<Rightarrow> string" where
  "size_to_string kRamSize1GB = ''1GB''"
| "size_to_string kRamSize512MB = ''512MB''"
| "size_to_string kRamSize256MB = ''256MB''"
| "size_to_string kRamSize128MB = ''128MB''"
| "size_to_string kRamSize2GB = ''2GB''"
| "size_to_string kRamSize4GB = ''4GB''"
| "size_to_string kRamSizeUnknown = ''UNKNOWN''"

record lpddr2_timings =
  max_freq :: u32
  RL :: u32
  tRPab :: u32
  tRPpb :: u32
  tRCD :: u32
  tWR :: u32
  tRASmin :: u32
  tRRD :: u32
  tWTR :: u32
  tXSR :: u32
  tXP :: u32
  tRFCab :: u32
  tRTP :: u32
  tCKE :: u32
  tCKESR :: u32
  tDQSCKMAXx2 :: u32
  tRASmax :: u32
  tFAW :: u32
  tRC :: u32
  tREFI :: u32
  tINIT1 :: u32
  tINIT3 :: u32
  tINIT5 :: u32
  rowbits :: u32
  colbits :: u32
  banklow :: u32

definition g_InitSdramParameters :: lpddr2_timings where
  "g_InitSdramParameters = \<lparr>max_freq = 0, RL = 0, tRPab = 7, tRPpb = 6, tRCD = 6, tWR = 7, tRASmin = 15, tRRD = 2,
     tWTR = 4, tXSR = 54, tXP = 1, tRFCab = 50, tRTP = 1, tCKE = 0, tCKESR = 0, tDQSCKMAXx2 = 0, tRASmax = 0,
     tFAW = 18, tRC = 24, tREFI = 3113, tINIT1 = 40, tINIT3 = 79800, tINIT5 = 3990, rowbits = 2, colbits = 1,
     banklow = 2\<rparr>"

text \<open>The globals: the size found, and the timings, which start as \<open>g_InitSdramParameters\<close>.\<close>

record sdram_mach = mach +
  g_RAMSize :: RamSize
  sdram_params :: lpddr2_timings

type_synonym ('r, 'a) sdram_io = "('r sdram_mach_ext, 'a) io"

definition MR_REQUEST_SUCCESS :: "u32 \<Rightarrow> bool" where
  "MR_REQUEST_SUCCESS x \<longleftrightarrow> SD_MR_TIMEOUT_SET AND x \<noteq> SD_MR_TIMEOUT_SET"

definition MR_GET_RDATA :: "u32 \<Rightarrow> u32" where
  "MR_GET_RDATA x = drop_bit SD_MR_RDATA_LSB (x AND SD_MR_RDATA_SET)"

definition BIST_pvt :: u32 where [reg_defs]: "BIST_pvt = 0x20"
definition PVT_calibrate_request :: u32 where [reg_defs]: "PVT_calibrate_request = 0x1"

text \<open>\<^verbatim>\<open>logf\<close>: the arguments are evaluated after the time stamp.\<close>

definition logf :: "string \<Rightarrow> string \<Rightarrow> ('r, arg list) io \<Rightarrow> ('r, unit) io" where
  "logf fn fmt args = do {
     print_timestamp;
     xs \<leftarrow> args;
     printf (''[SDRAM:'' @ fn @ '']: '' @ fmt) xs
   }"

definition reads_arg :: "u32 \<Rightarrow> ('r, arg list) io" where
  "reads_arg a = do { v \<leftarrow> rd a; return [U v] }"

definition lpddr2_manufacturer_name :: "u32 \<Rightarrow> string" where
  "lpddr2_manufacturer_name mr =
     (if mr = 1 then ''Samsung'' else if mr = 2 then ''Qimonda'' else if mr = 3 then ''Elpida''
      else if mr = 4 then ''Etron'' else if mr = 5 then ''Nanya'' else if mr = 6 then ''Hynix''
      else ''Unknown'')"

definition lpddr2_size :: "u32 \<Rightarrow> RamSize" where
  "lpddr2_size mr =
     (if mr = 0x58 then kRamSize1GB else if mr = 0x18 then kRamSize512MB
      else if mr = 0x14 then kRamSize256MB else if mr = 0x10 then kRamSize128MB else kRamSizeUnknown)"

subsection \<open>Clock and DLLs\<close>

definition clkman_update_begin :: "('r, unit) io" where
  "clkman_update_begin = do {
     reg_or CM_SDCCTL (CM_PASSWORD OR CM_SDCCTL_UPDATE_SET);
     _ \<leftarrow> poll CM_SDCCTL (\<lambda>x. x AND CM_SDCCTL_ACCPT_SET \<noteq> 0);
     return ()
   }"

definition clkman_update_end :: "('r, unit) io" where
  "clkman_update_end = do {
     x \<leftarrow> rd CM_SDCCTL;
     wr CM_SDCCTL (CM_PASSWORD OR (x AND CM_SDCCTL_UPDATE_CLR));
     _ \<leftarrow> poll CM_SDCCTL (\<lambda>x. x AND CM_SDCCTL_ACCPT_SET = 0);
     return ()
   }"

definition reset_phy_dll :: "('r, unit) io" where
  "reset_phy_dll = do {
     logf ''reset_phy_dll'' ''resetting aphy and dphy dlls ...'' (return []);
     wr APHY_CSR_PHY_BIST_CNTRL_SPR 0x30;
     wr DPHY_CSR_GLBL_DQ_DLL_RESET 0x1;
     wr APHY_CSR_GLBL_ADDR_DLL_RESET 0x1;
     _ \<leftarrow> rd SD_CS; _ \<leftarrow> rd SD_CS; _ \<leftarrow> rd SD_CS; _ \<leftarrow> rd SD_CS;
     wr DPHY_CSR_GLBL_DQ_DLL_RESET 0x0;
     wr APHY_CSR_GLBL_ADDR_DLL_RESET 0x0;
     logf ''reset_phy_dll'' ''waiting for dphy master dll to lock ...'' (return []);
     _ \<leftarrow> poll DPHY_CSR_GLBL_MSTR_DLL_LOCK_STAT (\<lambda>x. x AND 0xFFFF = 0xFFFF);
     logf ''reset_phy_dll'' ''dphy master dll locked!'' (return [])
   }"

text \<open>The words of the timing registers.\<close>

definition sa_word :: "lpddr2_timings \<Rightarrow> u32" where
  "sa_word T = push_bit SD_SA_RFSH_T_LSB (tREFI T) OR SD_SA_PGEHLDE_SET OR SD_SA_CLKSTOP_SET OR SD_SA_POWSAVE_SET OR 0x3214"

definition sb_word :: "lpddr2_timings \<Rightarrow> u32" where
  "sb_word T = SD_SB_REORDER_SET OR push_bit SD_SB_BANKLOW_LSB (banklow T) OR SD_SB_EIGHTBANK_SET
     OR push_bit SD_SB_ROWBITS_LSB (rowbits T) OR push_bit SD_SB_COLBITS_LSB (colbits T)"

definition sc_word :: "lpddr2_timings \<Rightarrow> u32" where
  "sc_word T = push_bit SD_SC_T_RFC_LSB (tRFCab T) OR push_bit SD_SC_T_RRD_LSB (tRRD T) OR push_bit SD_SC_T_WR_LSB (tWR T)
     OR push_bit SD_SC_T_WTR_LSB (tWTR T) OR push_bit SD_SC_WL_LSB 3"

definition sd_word :: "lpddr2_timings \<Rightarrow> u32" where
  "sd_word T = push_bit SD_SD_T_RPab_LSB (tRPab T) OR push_bit SD_SD_T_RC_LSB (tRC T) OR push_bit SD_SD_T_XP_LSB (tXP T)
     OR push_bit SD_SD_T_RAS_LSB (tRASmin T) OR push_bit SD_SD_T_RPpb_LSB (tRPpb T) OR push_bit SD_SD_T_RCD_LSB (tRCD T)"

definition se_word :: "lpddr2_timings \<Rightarrow> u32" where
  "se_word T = push_bit SD_SE_RL_EN_LSB 1 OR push_bit SD_SE_RL_LSB 4 OR push_bit SD_SE_T_FAW_LSB (tFAW T)
     OR push_bit SD_SE_T_RTP_LSB (tRTP T) OR push_bit SD_SE_T_XSR_LSB (tXSR T)"

definition pt1_word :: "lpddr2_timings \<Rightarrow> u32" where
  "pt1_word T = push_bit SD_PT1_T_INIT3_LSB (tINIT3 T) OR push_bit SD_PT1_T_INIT1_LSB (tINIT1 T)"

definition pt2_word :: "lpddr2_timings \<Rightarrow> u32" where
  "pt2_word T = push_bit SD_PT2_T_INIT5_LSB (tINIT5 T)"

definition write_timings :: "lpddr2_timings \<Rightarrow> ('r, unit) io" where
  "write_timings T = do {
     wr SD_SA (sa_word T);
     wr SD_SB (sb_word T);
     logf ''reset_with_timing'' ''SDRAM Addressing Mode: Bank=%d Row=%d Col=%d SB=0x%X''
       (do { sb \<leftarrow> rd SD_SB; return [U (banklow T), U (rowbits T), U (colbits T), U sb] });
     wr SD_SC (sc_word T);
     wr SD_SD (sd_word T);
     wr SD_SE (se_word T);
     wr SD_PT1 (pt1_word T);
     wr SD_PT2 (pt2_word T);
     wr SD_MRT (push_bit SD_MRT_T_MRW_LSB 0x3)
   }"

definition master_pll :: "('r, unit) io" where
  "master_pll = do {
     wr APHY_CSR_DDR_PLL_PWRDWN 0;
     wr APHY_CSR_DDR_PLL_GLOBAL_RESET 0;
     wr APHY_CSR_DDR_PLL_POST_DIV_RESET 0;
     wr APHY_CSR_DDR_PLL_VCO_FREQ_CNTRL0 (BV 16 OR 0x53);
     wr APHY_CSR_DDR_PLL_VCO_FREQ_CNTRL1 0;
     wr APHY_CSR_DDR_PLL_MDIV_VALUE 0;
     wr APHY_CSR_DDR_PLL_GLOBAL_RESET 1;
     logf ''reset_with_timing'' ''waiting for master ddr pll to lock ...'' (return []);
     _ \<leftarrow> poll APHY_CSR_DDR_PLL_LOCK_STATUS (\<lambda>x. x AND BV 16 \<noteq> 0);
     logf ''reset_with_timing'' ''master ddr pll locked!'' (return []);
     wr APHY_CSR_DDR_PLL_POST_DIV_RESET 1
   }"

definition controller_down :: "('r, unit) io" where
  "controller_down = do {
     x \<leftarrow> rd SD_CS;
     wr SD_CS ((x AND NOT (SD_CS_DEL_KEEP_SET OR SD_CS_DPD_SET OR SD_CS_RESTRT_SET)) OR SD_CS_STBY_SET);
     logf ''reset_with_timing'' ''waiting for SDRAM controller to go down (%X) ...'' (reads_arg SD_CS);
     _ \<leftarrow> poll SD_CS (\<lambda>x. x AND SD_CS_SDUP_SET = 0);
     logf ''reset_with_timing'' ''SDRAM controller down!'' (return []);
     clkman_update_begin;
     x \<leftarrow> rd CM_SDCCTL;
     wr CM_SDCCTL ((x AND NOT (CM_SDCCTL_ENAB_SET OR CM_SDCCTL_CTRL_SET)) OR CM_PASSWORD);
     clkman_update_end;
     logf ''reset_with_timing'' ''SDRAM clock disabled!'' (return [])
   }"

text \<open>\<^verbatim>\<open>init_clkman\<close> for the value \<open>ctrl\<close> of the clock's control field.\<close>

definition set_clkman :: "u32 \<Rightarrow> ('r, unit) io" where
  "set_clkman ctrl = do {
     clkman_update_begin;
     x \<leftarrow> rd CM_SDCCTL;
     wr CM_SDCCTL (CM_PASSWORD OR push_bit CM_SDCCTL_CTRL_LSB ctrl OR (x AND CM_SDCCTL_CTRL_CLR));
     clkman_update_end
   }"

definition controller_up :: "('r, unit) io" where
  "controller_up = do {
     logf ''reset_with_timing'' ''waiting for address dll to lock ...'' (return []);
     _ \<leftarrow> poll APHY_CSR_GLBL_ADR_DLL_LOCK_STAT (\<lambda>x. x = 3);
     logf ''reset_with_timing'' ''address dll locked!'' (return []);
     wr APHY_CSR_PHY_BIST_CNTRL_SPR 0x0;
     wr SD_CS (((push_bit SD_CS_ASHDN_T_LSB 4 OR SD_CS_STATEN_SET OR SD_CS_EN_SET)
       AND NOT (SD_CS_STOP_SET OR SD_CS_STBY_SET)) OR SD_CS_RESTRT_SET)
   }"

definition reset_with_timing :: "lpddr2_timings \<Rightarrow> ('r, unit) io" where
  "reset_with_timing T = do {
     let ctrl = 0x4;
     controller_down;
     master_pll;
     set_clkman ctrl;
     write_timings T;
     reset_phy_dll;
     controller_up
   }"


subsection \<open>Mode registers\<close>

definition mr_done :: "('r, u32) io" where
  "mr_done = poll SD_MR (\<lambda>x. x AND SD_MR_DONE_SET = SD_MR_DONE_SET)"

definition read_mr :: "u32 \<Rightarrow> ('r, u32) io" where
  "read_mr addr = do {
     _ \<leftarrow> mr_done;
     wr SD_MR (addr AND 0xFF);
     mrr \<leftarrow> mr_done;
     return mrr
   }"

definition mr_command :: "u32 \<Rightarrow> u32 \<Rightarrow> u32" where
  "mr_command addr data = (addr AND 0xFF) OR push_bit 8 (data AND 0xFF) OR SD_MR_RW_SET"

definition write_mr :: "u32 \<Rightarrow> u32 \<Rightarrow> bool \<Rightarrow> ('r, u32) io" where
  "write_mr addr data wait = do {
     _ \<leftarrow> mr_done;
     wr SD_MR (mr_command addr data);
     if wait then do {
       mrr \<leftarrow> mr_done;
       when_io (mrr AND SD_MR_TIMEOUT_SET \<noteq> 0) (panic ''MR write timed out'');
       return mrr
     } else return 0
   }"

subsection \<open>Calibration\<close>

definition reset_phy :: "('r, unit) io" where
  "reset_phy = do {
     logf ''reset_phy'' ''%s: resetting SDRAM PHY ...'' (return [S ''reset_phy'']);
     wr SD_PHYC SD_PHYC_PHYRST_SET;
     udelay 64;
     wr SD_PHYC 0;
     logf ''reset_phy'' ''%s: resetting DPHY CTRL ...'' (return [S ''reset_phy'']);
     wr DPHY_CSR_DQ_PHY_MISC_CTRL 0x7;
     wr DPHY_CSR_DQ_PAD_MISC_CTRL 0x0;
     wr DPHY_CSR_BOOT_READ_DQS_GATE_CTRL 0x11;
     reset_phy_dll;
     wr APHY_CSR_PHY_BIST_CNTRL_SPR 0x0
   }"

definition switch_to_cprman_clock :: "u32 \<Rightarrow> u32 \<Rightarrow> ('r, unit) io" where
  "switch_to_cprman_clock source d = do {
     wr CM_SDCDIV (CM_PASSWORD OR push_bit CM_SDCDIV_DIV_LSB d);
     x \<leftarrow> rd CM_SDCCTL;
     wr CM_SDCCTL (CM_PASSWORD OR (x AND CM_SDCCTL_SRC_CLR) OR source);
     reg_or CM_SDCCTL (CM_PASSWORD OR CM_SDCCTL_ENAB_SET);
     logf ''switch_to_cprman_clock'' ''switching sdram to cprman clock (src=%d, div=%d), waiting for busy (0x%X) ...''
       (do { v \<leftarrow> rd CM_SDCCTL; return [U source, U d, U v] });
     _ \<leftarrow> poll CM_SDCCTL (\<lambda>x. x AND CM_SDCCTL_BUSY_SET \<noteq> 0);
     logf ''switch_to_cprman_clock'' ''busy set, switch complete!'' (return [])
   }"

definition init_clkman :: "('r, unit) io" where
  "init_clkman = set_clkman 0"

definition calibrate_pvt_early :: "u32 \<Rightarrow> ('r, unit) io" where
  "calibrate_pvt_early cpuid = do {
     let st = (drop_bit 4 cpuid AND 0xFFF = 0x14);
     let dq_slew = (if st then 2 else 3);
     logf ''calibrate_pvt_early'' ''cpuid 0x%x and dq_slew %d'' (return [U cpuid, U dq_slew]);
     _ \<leftarrow> write_mr 0xFF 0 True;
     _ \<leftarrow> write_mr LPDDR2_MR_DEVICE_FEATURE_2 4 True;
     wr APHY_CSR_ADDR_PAD_DRV_SLEW_CTRL 0x333;
     wr DPHY_CSR_DQ_PAD_DRV_SLEW_CTRL (push_bit 8 dq_slew OR push_bit 4 dq_slew OR 3);
     logf ''calibrate_pvt_early'' ''DPHY_CSR_DQ_PAD_DRV_SLEW_CTRL = 0x%X'' (reads_arg DPHY_CSR_DQ_PAD_DRV_SLEW_CTRL);
     wr APHY_CSR_PHY_BIST_CNTRL_SPR BIST_pvt;
     wr APHY_CSR_ADDR_PVT_COMP_CTRL PVT_calibrate_request;
     logf ''calibrate_pvt_early'' ''waiting for address PVT calibration ...'' (return []);
     _ \<leftarrow> poll APHY_CSR_ADDR_PVT_COMP_STATUS (\<lambda>x. x AND 2 \<noteq> 0);
     wr DPHY_CSR_DQ_PVT_COMP_CTRL PVT_calibrate_request;
     logf ''calibrate_pvt_early'' ''waiting for data PVT calibration ...'' (return []);
     _ \<leftarrow> poll DPHY_CSR_DQ_PVT_COMP_STATUS (\<lambda>x. x AND 2 \<noteq> 0);
     wr APHY_CSR_PHY_BIST_CNTRL_SPR 0x0;
     old_mrt \<leftarrow> rd SD_MRT;
     wr SD_MRT 20;
     logf ''calibrate_pvt_early'' ''waiting for SDRAM calibration command ...'' (return []);
     wr SD_MR (LPDDR2_MR_CALIBRATION OR push_bit 8 0xFF OR SD_MR_RW_SET OR SD_MR_HI_Z_SET);
     _ \<leftarrow> mr_done;
     wr SD_MRT old_mrt;
     _ \<leftarrow> write_mr LPDDR2_MR_IO_CONFIG (if st then 3 else 2) False;
     return ()
   }"

definition init_late :: "('r, unit) io" where "init_late = return ()"

subsection \<open>The self test\<close>

definition RT_BASE :: u32 where "RT_BASE = 0xC0000000"
definition RT_PAT0 :: u32 where "RT_PAT0 = 0xAAAAAAAA"
definition RT_PAT1 :: u32 where "RT_PAT1 = 0xFF00AA00"
definition RT_PAT2 :: u32 where "RT_PAT2 = 0x99999999"

definition rt_assert :: "u32 \<Rightarrow> nat \<Rightarrow> u32 \<Rightarrow> ('r, unit) io" where
  "rt_assert ram i expected = do {
     v \<leftarrow> rd (ram + 4 * of_nat i);
     when_io (v \<noteq> expected) (do {
       logf ''selftest_at'' ''ERROR: At 0x%p, was expecting 0x%X from read, got 0x%X instead!''
         (do { v \<leftarrow> rd (ram + 4 * of_nat i); return [U (ram + 4 * of_nat i), U expected, U v] });
       panic ''SDRAM self test failed!''
     })
   }"

text \<open>The two loops run over every fourth word.\<close>

definition selftest_at :: "u32 \<Rightarrow> ('r, unit) io" where
  "selftest_at addr = do {
     logf ''selftest_at'' ''Testing region at 0x%X ...'' (return [U addr]);
     let ram = addr OR RT_BASE;
     for_each (map (\<lambda>k. 4 * k) [0..<0x400]) (\<lambda>i. do {
       wr (ram + 4 * of_nat i) RT_PAT0;
       wr (ram + 4 * of_nat (i + 1)) RT_PAT1;
       wr (ram + 4 * of_nat (i + 2)) RT_PAT2;
       wr (ram + 4 * of_nat (i + 3)) RT_PAT0
     });
     for_each (map (\<lambda>k. 4 * k) [0..<0x400]) (\<lambda>i. do {
       rt_assert ram i RT_PAT0;
       rt_assert ram (i + 1) RT_PAT1;
       rt_assert ram (i + 2) RT_PAT2;
       rt_assert ram (i + 3) RT_PAT0
     })
   }"

definition selftest :: "('r, unit) sdram_io" where
  "selftest = do {
     logf ''selftest'' ''Starting self test ...'' (return []);
     sz \<leftarrow> gget g_RAMSize;
     when_io (sz = kRamSize1GB) (do { selftest_at 0x3FF00000; selftest_at 0x2FF00000 });
     when_io (sz \<in> {kRamSize1GB, kRamSize512MB}) (selftest_at 0x1FF00000);
     when_io (sz \<in> {kRamSize1GB, kRamSize512MB, kRamSize256MB}) (selftest_at 0xFF00000);
     selftest_at 0x0;
     logf ''selftest'' ''Self test successful!'' (return [])
   }"

subsection \<open>Initialisation\<close>

text \<open>The first configuration, from the crystal.\<close>

definition slow_start :: "u32 \<Rightarrow> ('r, unit) io" where
  "slow_start cpuid = do {
     logf ''sdram_init'' ''(0) SD_CS = 0x%X'' (reads_arg SD_CS);
     wr PM_SMPS (PM_PASSWORD OR 0x1);
     wr A2W_SMPS_LDO1 (A2W_PASSWORD OR 0x40000);
     wr A2W_SMPS_LDO0 (A2W_PASSWORD OR 0x0);
     reg_or A2W_XOSC_CTRL (A2W_PASSWORD OR A2W_XOSC_CTRL_DDREN_SET);
     switch_to_cprman_clock CM_SRC_OSC 1;
     init_clkman;
     reset_phy;
     wr SD_SA 0x006E3395;
     wr SD_SB 0x0F9;
     wr SD_SC 0x6000431;
     wr SD_SD 0x10000011;
     wr SD_SE 0x10106000;
     wr SD_PT1 0x0AF002;
     wr SD_PT2 0x8C;
     wr SD_MRT 0x3;
     wr SD_CS 0x200042;
     logf ''sdram_init'' ''waiting for SDUP (%X) ...'' (reads_arg SD_CS);
     _ \<leftarrow> poll SD_CS (\<lambda>x. x AND SD_CS_SDUP_SET \<noteq> 0);
     logf ''sdram_init'' ''SDRAM controller has arrived! (%X)'' (reads_arg SD_CS);
     _ \<leftarrow> write_mr LPDDR2_MR_DEVICE_FEATURE_2 4 False;
     calibrate_pvt_early cpuid
   }"

definition identify :: "('r, unit) sdram_io" where
  "identify = do {
     vendor_id \<leftarrow> read_mr LPDDR2_MR_MANUFACTURER_ID;
     when_io (\<not> MR_REQUEST_SUCCESS vendor_id) (panic ''vendor id memory register read timed out'');
     let vendor_id = MR_GET_RDATA vendor_id;
     bc \<leftarrow> read_mr LPDDR2_MR_METRICS;
     when_io (\<not> MR_REQUEST_SUCCESS bc) (panic ''basic configuration memory register read timed out'');
     let bc = MR_GET_RDATA bc;
     gset (\<lambda>s. s\<lparr>g_RAMSize := lpddr2_size bc\<rparr>);
     sz \<leftarrow> gget g_RAMSize;
     logf ''sdram_init'' ''SDRAM Type: %s %s LPDDR2 (BC=0x%X)''
       (return [S (lpddr2_manufacturer_name vendor_id), S (size_to_string sz), U bc]);
     when_io (sz = kRamSizeUnknown) (panic ''unknown ram size'')
   }"

definition sdram_geometry :: "RamSize \<Rightarrow> lpddr2_timings \<Rightarrow> lpddr2_timings" where
  "sdram_geometry sz T =
     (if sz = kRamSize1GB then T\<lparr>colbits := 3, rowbits := 3, banklow := 3\<rparr>
      else if sz = kRamSize512MB then T\<lparr>colbits := 2\<rparr> else T)"

definition sdram_init :: "u32 \<Rightarrow> ('r, unit) sdram_io" where
  "sdram_init cpuid = do {
     slow_start cpuid;
     identify;
     gset (\<lambda>s. s\<lparr>sdram_params := sdram_geometry (g_RAMSize s) (sdram_params s)\<rparr>);
     T \<leftarrow> gget sdram_params;
     reset_with_timing T;
     init_late;
     selftest
   }"


text \<open>The hook of \<^verbatim>\<open>autoram\<close>; \<^verbatim>\<open>novm_add_arena\<close> is LK's.\<close>

definition autoram_dram_init :: "(string \<Rightarrow> u32 \<Rightarrow> u32 \<Rightarrow> ('r, unit) sdram_io) \<Rightarrow> u32 \<Rightarrow> ('r, unit) sdram_io" where
  "autoram_dram_init add_arena cpuid = do {
     sdram_init cpuid;
     let start = 0xc0000000 OR 1 * (1024 * 1024);
     let len = 10 * (1024 * 1024);
     add_arena ''dram'' start len
   }"

subsection \<open>Library: the self test\<close>

lemma for_each_append: "for_each (xs @ ys) f = do { for_each xs f; for_each ys f }"
  by (induction xs) (simp_all add: State_Monad.bind_assoc)

lemma for_each_four:
  "for_each (map (\<lambda>k. 4 * k) [0..<n]) (\<lambda>i. do { f i; f (i + 1); f (i + 2); f (i + 3) }) = for_each [0..<4 * n] f"
proof (induction n)
  case (Suc n)
  have u: "[0..<4 * Suc n] = [0..<4 * n] @ [4 * n, 4 * n + 1, 4 * n + 2, 4 * n + 3]"
  proof -
    have "[0..<4 * n + 4] = [0..<4 * n] @ [4 * n..<4 * n + 4]" by (rule upt_add_eq_append) simp
    moreover have "[4 * n..<4 * n + 4] = [4 * n, 4 * n + 1, 4 * n + 2, 4 * n + 3]" by (simp add: upt_rec)
    ultimately show ?thesis by (simp add: add.commute)
  qed
  show ?case unfolding u using Suc by (simp add: for_each_append State_Monad.bind_assoc)
qed simp

definition pattern :: "nat \<Rightarrow> u32" where
  "pattern i = [RT_PAT0, RT_PAT1, RT_PAT2, RT_PAT0] ! (i mod 4)"

definition word_at :: "u32 \<Rightarrow> nat \<Rightarrow> u32" where
  "word_at ram i = ram + 4 * of_nat i"

lemma pattern_four:
  "pattern (4 * k) = RT_PAT0" "pattern (4 * k + 1) = RT_PAT1" "pattern (4 * k + 2) = RT_PAT2" "pattern (4 * k + 3) = RT_PAT0"
proof -
  have "(4 * k + 1) mod 4 = 1" "(4 * k + 2) mod 4 = 2" "(4 * k + 3) mod 4 = 3" by presburger+
  then show "pattern (4 * k) = RT_PAT0" "pattern (4 * k + 1) = RT_PAT1" "pattern (4 * k + 2) = RT_PAT2" "pattern (4 * k + 3) = RT_PAT0"
    by (simp_all add: pattern_def)
qed

text \<open>The test of a region writes every word and then checks every word.\<close>

lemma selftest_at_words:
  "selftest_at addr = do {
     logf ''selftest_at'' ''Testing region at 0x%X ...'' (return [U addr]);
     for_each [0..<0x1000] (\<lambda>i. wr (word_at (addr OR RT_BASE) i) (pattern i));
     for_each [0..<0x1000] (\<lambda>i. rt_assert (addr OR RT_BASE) i (pattern i)) }"
proof -
  have w: "for_each (map (\<lambda>k. 4 * k) [0..<0x400]) (\<lambda>i. do {
       wr (r + 4 * of_nat i) RT_PAT0; wr (r + 4 * of_nat (i + 1)) RT_PAT1;
       wr (r + 4 * of_nat (i + 2)) RT_PAT2; wr (r + 4 * of_nat (i + 3)) RT_PAT0 }) =
     for_each [0..<0x1000] (\<lambda>i. wr (word_at r i) (pattern i))" for r
  proof -
    have "for_each (map (\<lambda>k. 4 * k) [0..<n]) (\<lambda>i. do {
         wr (r + 4 * of_nat i) RT_PAT0; wr (r + 4 * of_nat (i + 1)) RT_PAT1;
         wr (r + 4 * of_nat (i + 2)) RT_PAT2; wr (r + 4 * of_nat (i + 3)) RT_PAT0 }) =
       for_each (map (\<lambda>k. 4 * k) [0..<n]) (\<lambda>i. do {
         wr (word_at r i) (pattern i); wr (word_at r (i + 1)) (pattern (i + 1));
         wr (word_at r (i + 2)) (pattern (i + 2)); wr (word_at r (i + 3)) (pattern (i + 3)) })" for n
      by (induction n) (simp_all only: upt_Suc if_True zero_le map_append for_each_append list.map for_each.simps
        pattern_four word_at_def upt_0 le0)
    from trans [OF this [of "0x400"] for_each_four [of "0x400" "\<lambda>i. wr (word_at r i) (pattern i)"]]
    show ?thesis by (simp only: numeral_times_numeral semiring_norm)
  qed
  have c: "for_each (map (\<lambda>k. 4 * k) [0..<0x400]) (\<lambda>i. do {
       rt_assert r i RT_PAT0; rt_assert r (i + 1) RT_PAT1; rt_assert r (i + 2) RT_PAT2; rt_assert r (i + 3) RT_PAT0 }) =
     for_each [0..<0x1000] (\<lambda>i. rt_assert r i (pattern i))" for r
  proof -
    have "for_each (map (\<lambda>k. 4 * k) [0..<n]) (\<lambda>i. do {
         rt_assert r i RT_PAT0; rt_assert r (i + 1) RT_PAT1; rt_assert r (i + 2) RT_PAT2; rt_assert r (i + 3) RT_PAT0 }) =
       for_each (map (\<lambda>k. 4 * k) [0..<n]) (\<lambda>i. do {
         rt_assert r i (pattern i); rt_assert r (i + 1) (pattern (i + 1));
         rt_assert r (i + 2) (pattern (i + 2)); rt_assert r (i + 3) (pattern (i + 3)) })" for n
      by (induction n) (simp_all only: upt_Suc if_True zero_le map_append for_each_append list.map for_each.simps
        pattern_four upt_0 le0)
    from trans [OF this [of "0x400"] for_each_four [of "0x400" "\<lambda>i. rt_assert r i (pattern i)"]]
    show ?thesis by (simp only: numeral_times_numeral semiring_norm)
  qed
  show ?thesis unfolding selftest_at_def Let_def by (simp only: w c)
qed


lemma run_logf: "running s \<Longrightarrow> run_state (logf fn f (return xs)) s =
    ((), log [Rd ST_CLO, Print ''%3d.%06d '' [U (cur s ST_CLO div 1000000), U (cur s ST_CLO mod 1000000)],
       Print (''[SDRAM:'' @ fn @ '']: '' @ f) xs] s)"
  by (simp add: logf_def print_timestamp_def)

lemma logf_inert [inert_intros]: "inert a \<Longrightarrow> inert (logf fn f a)"
  unfolding logf_def by (intro inert_intros)

lemma logf_effects [emit_intros]:
  "(\<And>a. R (Rd a)) \<Longrightarrow> (\<And>f xs. R (Print f xs)) \<Longrightarrow> effects R a \<Longrightarrow> effects R (logf fn f a)"
  unfolding logf_def by (intro emit_intros)

lemma logf_ends [ends_intros]: "ends d (logf fn f (return xs))"
  by (simp add: ends_def run_logf)

lemma rt_assert_inert [inert_intros]: "inert (rt_assert r i e)"
  unfolding rt_assert_def by (intro inert_intros)

lemma run_rt_assert:
  assumes "running s"
  shows "cur s (word_at r i) = e \<Longrightarrow> run_state (rt_assert r i e) s = ((), log [Rd (word_at r i)] s)"
    "cur s (word_at r i) \<noteq> e \<Longrightarrow> status (snd (run_state (rt_assert r i e) s)) = Panicked ''SDRAM self test failed!''"
    "dev (snd (run_state (rt_assert r i e) s)) = dev s"
  using assms by (simp_all add: rt_assert_def word_at_def logf_def print_timestamp_def)

text \<open>\<open>verdict P m\<close>: from a running machine \<open>m\<close> runs on or fails the self test; it fails if \<open>P\<close> holds of the device.\<close>

definition verdict :: "(device \<Rightarrow> bool) \<Rightarrow> ('r, 'a) io \<Rightarrow> bool" where
  "verdict P m \<longleftrightarrow> inert m \<and> (\<forall>s. running s \<longrightarrow> dev (snd (run_state m s)) = dev s \<and>
     (running (snd (run_state m s)) \<or> status (snd (run_state m s)) = Panicked ''SDRAM self test failed!'') \<and>
     (P (dev s) \<longrightarrow> status (snd (run_state m s)) = Panicked ''SDRAM self test failed!''))"

lemma verdict_bind:
  fixes m n :: "('r, unit) io"
  assumes "verdict P m" "verdict Q n"
  shows "verdict (\<lambda>d. P d \<or> Q d) (do { m; n })"
  unfolding verdict_def
proof (intro conjI allI impI)
  show "inert (do { m; n })" using assms by (auto simp: verdict_def intro: inert_intros)
  fix s :: "'r mach_scheme" assume s: "running s"
  obtain s1 where 1: "run_state m s = ((), s1)" using run_unit by blast
  obtain s2 where 2: "run_state n s1 = ((), s2)" using run_unit by blast
  have r: "snd (run_state (do { m; n }) s) = s2" using 1 2 by simp
  have m: "dev s1 = dev s" "running s1 \<or> status s1 = Panicked ''SDRAM self test failed!''"
    "P (dev s) \<Longrightarrow> status s1 = Panicked ''SDRAM self test failed!''"
    using assms(1) s 1 by (auto simp: verdict_def)
  have n: "running s1 \<Longrightarrow> dev s2 = dev s1" "running s1 \<Longrightarrow> running s2 \<or> status s2 = Panicked ''SDRAM self test failed!''"
    "running s1 \<Longrightarrow> Q (dev s1) \<Longrightarrow> status s2 = Panicked ''SDRAM self test failed!''"
    using assms(2) 2 by (auto simp: verdict_def)
  have i: "\<not> running s1 \<Longrightarrow> s2 = s1" using assms(2) 2 inertD [of n s1] by (auto simp: verdict_def)
  show "dev (snd (run_state (do { m; n }) s)) = dev s" using m n i r by (cases "running s1") auto
  show "running (snd (run_state (do { m; n }) s)) \<or> status (snd (run_state (do { m; n }) s)) = Panicked ''SDRAM self test failed!''"
    using m n i r by (cases "running s1") auto
  assume "P (dev s) \<or> Q (dev s)"
  then show "status (snd (run_state (do { m; n }) s)) = Panicked ''SDRAM self test failed!''"
    using m n i r by (cases "running s1") auto
qed

lemma verdict_log: "verdict (\<lambda>_. False) (logf fn f (return xs))"
  by (auto simp: verdict_def run_logf inert_intros)

lemma verdict_wr: "verdict (\<lambda>_. False) (wr a v)"
  by (auto simp: verdict_def inert_intros)

lemma verdict_assert: "verdict (\<lambda>d. \<forall>h. d h (word_at r i) \<noteq> e) (rt_assert r i e)"
  unfolding verdict_def
proof (intro conjI allI impI inert_intros)
  fix s :: "'r mach_scheme" assume s: "running s"
  show "dev (snd (run_state (rt_assert r i e) s)) = dev s" by (rule run_rt_assert(3) [OF s])
  show "running (snd (run_state (rt_assert r i e) s)) \<or>
      status (snd (run_state (rt_assert r i e) s)) = Panicked ''SDRAM self test failed!''"
    using run_rt_assert(1,2) [OF s, of r i e] s by (cases "cur s (word_at r i) = e") auto
  assume "\<forall>h. dev s h (word_at r i) \<noteq> e"
  then show "status (snd (run_state (rt_assert r i e) s)) = Panicked ''SDRAM self test failed!''"
    using run_rt_assert(2) [OF s] by (simp add: cur_def)
qed

lemma verdict_weaken: "verdict P m \<Longrightarrow> (\<And>d. Q d \<Longrightarrow> P d) \<Longrightarrow> verdict Q m"
  unfolding verdict_def by blast

lemma verdict_for_each:
  fixes f :: "'x \<Rightarrow> ('r, unit) io"
  assumes "\<And>x. verdict (P x) (f x)"
  shows "verdict (\<lambda>d. \<exists>x\<in>set xs. P x d) (for_each xs f)"
proof (induction xs)
  case Nil
  then show ?case by (auto simp: verdict_def intro: inert_intros)
next
  case (Cons x xs)
  have "verdict (\<lambda>d. P x d \<or> (\<exists>x\<in>set xs. P x d)) (do { f x; for_each xs f })"
    by (rule verdict_bind [OF assms Cons.IH])
  then show ?case by simp
qed

text \<open>A region has a fault if one of its words never answers with the test's pattern.\<close>

definition faulty :: "device \<Rightarrow> u32 \<Rightarrow> bool" where
  "faulty d addr \<longleftrightarrow> (\<exists>i<0x1000. \<forall>h. d h (word_at (addr OR RT_BASE) i) \<noteq> pattern i)"

lemma verdict_region: "verdict (\<lambda>d. faulty d addr) (selftest_at addr)"
proof -
  have w: "verdict (\<lambda>_. False) (for_each [0..<0x1000] (\<lambda>i. wr (word_at (addr OR RT_BASE) i) (pattern i)))"
    by (rule verdict_weaken [OF verdict_for_each [OF verdict_wr]]) simp
  show ?thesis
    unfolding selftest_at_words
    by (rule verdict_weaken [OF verdict_bind [OF verdict_log verdict_bind [OF w verdict_for_each [OF verdict_assert]]]])
      (auto simp: faulty_def)
qed

lemma run_writes:
  "running s \<Longrightarrow> run_state (for_each xs (\<lambda>i. wr (f i) (g i))) s = ((), log (map (\<lambda>i. Wr (f i) (g i)) xs) s)"
  by (induction xs arbitrary: s) simp_all

lemma last_write_map:
  "inj_on f (set xs) \<Longrightarrow> x \<in> set xs \<Longrightarrow> last_write (f x) (map (\<lambda>i. Wr (f i) (g i)) xs) = Some (g x)"
proof (induction xs)
  case (Cons y ys)
  show ?case
  proof (cases "x \<in> set ys")
    case True
    then show ?thesis using Cons by simp
  next
    case False
    have "last_write (f x) (map (\<lambda>i. Wr (f i) (g i)) zs) = None" if "\<forall>z\<in>set zs. f z \<noteq> f x" for zs
      using that by (induction zs) auto
    moreover have "x = y" "\<forall>z\<in>set ys. f z \<noteq> f x" using False Cons.prems by (auto simp: inj_on_def)
    ultimately show ?thesis by simp
  qed
qed simp

lemma run_asserts:
  assumes "running s" "\<And>i. i \<in> set xs \<Longrightarrow> plain_at (dev s) (word_at r i) \<and> cur s (word_at r i) = pattern i"
  shows "run_state (for_each xs (\<lambda>i. rt_assert r i (pattern i))) s = ((), log (map (\<lambda>i. Rd (word_at r i)) xs) s)"
  using assms
proof (induction xs arbitrary: s)
  case (Cons x xs)
  have "run_state (rt_assert r x (pattern x)) s = ((), log [Rd (word_at r x)] s)"
    using Cons.prems by (intro run_rt_assert(1)) auto
  moreover have "run_state (for_each xs (\<lambda>i. rt_assert r i (pattern i))) (log [Rd (word_at r x)] s) =
      ((), log (map (\<lambda>i. Rd (word_at r i)) xs) (log [Rd (word_at r x)] s))"
    using Cons.prems by (intro Cons.IH) (auto simp: plain_cur_log)
  ultimately show ?case by simp
qed simp

lemma word_at_inj: "inj_on (word_at r) (set [0..<0x1000])"
proof (rule inj_onI)
  fix i j assume "i \<in> set [0..<0x1000]" "j \<in> set [0..<0x1000]" "word_at r i = word_at r j"
  then have i: "i < 0x1000" "j < 0x1000" "4 * of_nat i = (4 * of_nat j :: u32)" by (auto simp: word_at_def)
  with mult4_inj [of i j] show "i = j" by simp
qed

text \<open>A region that is storage.\<close>

definition sound :: "device \<Rightarrow> u32 \<Rightarrow> bool" where
  "sound d addr \<longleftrightarrow> (\<forall>i<0x1000. plain_at d (word_at (addr OR RT_BASE) i))"

lemma sound_region: "sound d addr \<Longrightarrow> ends d (selftest_at addr)"
  unfolding ends_def
proof (intro allI impI)
  fix s :: "'r mach_scheme" assume d: "sound d addr" "dev s = d" and s: "running s"
  let ?r = "addr OR RT_BASE" let ?ws = "map (\<lambda>i. Wr (word_at (addr OR RT_BASE) i) (pattern i)) [0..<0x1000]"
  obtain s1 :: "'r mach_scheme" where 1: "run_state (logf ''selftest_at'' ''Testing region at 0x%X ...'' (return [U addr])) s = ((), s1)"
    "running s1" "dev s1 = d" using run_logf [OF s] d s by force
  have c: "plain_at (dev (log ?ws s1)) (word_at ?r i) \<and> cur (log ?ws s1) (word_at ?r i) = pattern i"
    if "i \<in> set [0..<0x1000]" for i
  proof
    show p: "plain_at (dev (log ?ws s1)) (word_at ?r i)" using that d 1(3) by (simp add: sound_def)
    show "cur (log ?ws s1) (word_at ?r i) = pattern i"
      unfolding plain_cur_log [OF p [simplified log_simps]] last_write_map [OF word_at_inj that] by simp
  qed
  have "running (log ?ws s1)" using 1 by simp
  from run_asserts [OF this c]
  have "run_state (selftest_at addr) s = ((), log (map (\<lambda>i. Rd (word_at ?r i)) [0..<0x1000]) (log ?ws s1))"
    unfolding selftest_at_words by (simp only: run_state_bind run_writes [OF 1(2)] 1(1) prod.case)
  then show "running (snd (run_state (selftest_at addr) s)) \<and> dev (snd (run_state (selftest_at addr) s)) = d"
    using 1 by simp
qed

text \<open>The regions the test visits.\<close>

definition tested :: "RamSize \<Rightarrow> u32 list" where
  "tested sz =
     (case sz of
        kRamSize1GB \<Rightarrow> [0x3FF00000, 0x2FF00000, 0x1FF00000, 0xFF00000, 0]
      | kRamSize512MB \<Rightarrow> [0x1FF00000, 0xFF00000, 0]
      | kRamSize256MB \<Rightarrow> [0xFF00000, 0]
      | _ \<Rightarrow> [0])"

lemma run_selftest:
  assumes "running s"
  shows "run_state selftest s = run_state (do {
    logf ''selftest'' ''Starting self test ...'' (return []);
    for_each (tested (g_RAMSize s)) selftest_at;
    logf ''selftest'' ''Self test successful!'' (return []) }) s"
  using assms by (cases "g_RAMSize s") (simp_all add: selftest_def tested_def run_logf log_def when_io_def State_Monad.bind_assoc split: prod.splits)

lemma selftest_verdicts:
  assumes "running s" and run: "run_state selftest s = ((), s')"
  shows "running s' \<or> status s' = Panicked ''SDRAM self test failed!''"
    and "(\<exists>a\<in>set (tested (g_RAMSize s)). faulty (dev s) a) \<Longrightarrow> status s' = Panicked ''SDRAM self test failed!''"
    and "(\<And>a. a \<in> set (tested (g_RAMSize s)) \<Longrightarrow> sound (dev s) a) \<Longrightarrow> running s'"
proof -
  let ?sz = "g_RAMSize s"
  let ?m = "do {
    logf ''selftest'' ''Starting self test ...'' (return []);
    for_each (tested ?sz) selftest_at;
    logf ''selftest'' ''Self test successful!'' (return []) } :: ('a, unit) sdram_io"
  have m: "run_state ?m s = ((), s')" using run_selftest [OF assms(1)] run by simp
  have v: "verdict (\<lambda>d. \<exists>a\<in>set (tested ?sz). faulty d a) ?m"
    by (rule verdict_weaken [OF verdict_bind [OF verdict_log verdict_bind [OF verdict_for_each [OF verdict_region] verdict_log]]])
      auto
  from v assms(1) m show "running s' \<or> status s' = Panicked ''SDRAM self test failed!''"
    by (auto simp: verdict_def)
  show "status s' = Panicked ''SDRAM self test failed!''" if "\<exists>a\<in>set (tested ?sz). faulty (dev s) a"
    using v assms(1) m that by (auto simp: verdict_def)
  assume a: "\<And>a. a \<in> set (tested (g_RAMSize s)) \<Longrightarrow> sound (dev s) a"
  have "ends (dev s) (do {
    logf ''selftest'' ''Starting self test ...'' (return []);
    for_each (tested (g_RAMSize s)) selftest_at;
    logf ''selftest'' ''Self test successful!'' (return []) } :: ('a, unit) sdram_io)"
    by (intro ends_bind ends_for_each logf_ends sound_region a)
  from endsD(1) [OF this refl assms(1) run [unfolded run_selftest [OF assms(1)]]] show "running s'" .
qed

text \<open>C16.  The self test is sound and complete for what it looks at: for every size it visits the
regions \<open>tested\<close>; if all of them are storage it returns, if a word of one of them never answers
with the pattern written there the machine panics, and there is no third outcome.\<close>

theorem selftest_verdict:
  assumes "running s" and "run_state selftest s = ((), s')"
  shows "(running s' \<or> status s' = Panicked ''SDRAM self test failed!'') \<and>
    ((\<exists>a\<in>set (tested (g_RAMSize s)). faulty (dev s) a) \<longrightarrow> status s' = Panicked ''SDRAM self test failed!'') \<and>
    ((\<forall>a\<in>set (tested (g_RAMSize s)). sound (dev s) a) \<longrightarrow> running s')"
  using selftest_verdicts [OF assms] by blast

lemma selftest_verdict_witness:
  "\<exists>(s :: sdram_mach) (d :: sdram_mach) s' d'. g_RAMSize s = kRamSize512MB \<and> run_state selftest s = ((), s') \<and> running s' \<and>
     run_state selftest d = ((), d') \<and> status d' = Panicked ''SDRAM self test failed!''"
proof -
  define s :: "sdram_mach" where
    "s = mach.extend (boot (memory (\<lambda>_. 0))) \<lparr>g_RAMSize = kRamSize512MB, sdram_params = g_InitSdramParameters\<rparr>"
  define d :: "sdram_mach" where
    "d = mach.extend (boot (\<lambda>_ _. 0)) \<lparr>g_RAMSize = kRamSize512MB, sdram_params = g_InitSdramParameters\<rparr>"
  note defs = s_def d_def mach.defs boot_def
  obtain s' where 1: "run_state selftest s = ((), s')" using run_unit by blast
  obtain d' where 2: "run_state selftest d = ((), d')" using run_unit by blast
  have r: "running s" "running d" by (simp_all add: defs)
  have "faulty (dev d) 0" unfolding faulty_def
    by (rule exI [of _ 0]) (simp add: defs pattern_def RT_PAT0_def)
  then have "status d' = Panicked ''SDRAM self test failed!''"
    using selftest_verdict [OF r(2) 2] by (auto simp: defs tested_def)
  moreover have "running s'"
    using selftest_verdict [OF r(1) 1] by (simp add: defs sound_def plain_memory)
  moreover have "g_RAMSize s = kRamSize512MB" by (simp add: defs)
  ultimately show ?thesis using 1 2 by blast
qed

subsection \<open>Reprogramming the controller\<close>

definition timing_reg :: "u32 \<Rightarrow> bool" where
  "timing_reg a \<longleftrightarrow> a \<in> {SD_SA, SD_SB, SD_SC, SD_SD, SD_SE, SD_PT1, SD_PT2, SD_MRT}"

definition timing_words :: "lpddr2_timings \<Rightarrow> (u32 \<times> u32) list" where
  "timing_words T =
     [(SD_SA, sa_word T), (SD_SB, sb_word T), (SD_SC, sc_word T), (SD_SD, sd_word T), (SD_SE, se_word T),
      (SD_PT1, pt1_word T), (SD_PT2, pt2_word T), (SD_MRT, push_bit SD_MRT_T_MRW_LSB 0x3)]"

definition controller_reg :: "u32 \<Rightarrow> bool" where
  "controller_reg a \<longleftrightarrow> a = SD_CS \<or> timing_reg a"

abbreviation restart_word :: u32 where
  "restart_word \<equiv> ((push_bit SD_CS_ASHDN_T_LSB 4 OR SD_CS_STATEN_SET OR SD_CS_EN_SET)
     AND NOT (SD_CS_STOP_SET OR SD_CS_STBY_SET)) OR SD_CS_RESTRT_SET"

lemma avoids_writes: "list_all (avoids A) es \<Longrightarrow> filter (\<lambda>(a, v). A a) (writes es) = []"
  by (induction es rule: writes.induct) simp_all

lemma avoids_weaken: "effects (avoids A) m \<Longrightarrow> (\<And>a. B a \<Longrightarrow> A a) \<Longrightarrow> effects (avoids B) m"
  by (erule effects_mono) (auto simp: avoids_def split: event.splits)

lemma reads_arg_intros [inert_intros]: "inert (reads_arg a)"
  unfolding reads_arg_def by (intro inert_intros)

lemma reads_arg_effects [emit_intros]: "R (Rd a) \<Longrightarrow> effects R (reads_arg a)"
  unfolding reads_arg_def by (intro emit_intros)

lemma timing_steps_inert [inert_intros]:
  "inert clkman_update_begin" "inert clkman_update_end" "inert reset_phy_dll" "inert (write_timings T)" "inert master_pll"
  "inert controller_down" "inert (set_clkman c)" "inert controller_up"
  unfolding clkman_update_begin_def clkman_update_end_def reset_phy_dll_def write_timings_def master_pll_def
    controller_down_def set_clkman_def controller_up_def
  by (intro inert_intros)+

lemma timing_steps_effects:
  "effects (avoids controller_reg) clkman_update_begin" "effects (avoids controller_reg) clkman_update_end"
  "effects (avoids controller_reg) reset_phy_dll" "effects (avoids controller_reg) (set_clkman c)"
  unfolding clkman_update_begin_def clkman_update_end_def reset_phy_dll_def set_clkman_def
  by (intro emit_intros; simp add: controller_reg_def timing_reg_def reg_defs)+

lemma controller_down_passes:
  "passes (avoids timing_reg) SD_CS (\<lambda>x. x AND SD_CS_SDUP_SET = 0) (avoids controller_reg) controller_down"
  unfolding controller_down_def
  by (intro passes_bind passes_poll emit_intros inert_intros timing_steps_effects)
    (simp_all add: controller_reg_def timing_reg_def reg_defs)

lemma master_pll_passes:
  "passes (avoids controller_reg) APHY_CSR_DDR_PLL_LOCK_STATUS (\<lambda>x. x AND BV 16 \<noteq> 0) (avoids controller_reg) master_pll"
  unfolding master_pll_def
  by (intro passes_bind passes_poll emit_intros inert_intros)
    (simp_all add: controller_reg_def timing_reg_def reg_defs)

lemma controller_up_passes:
  "passes quiet APHY_CSR_GLBL_ADR_DLL_LOCK_STAT (\<lambda>x. x = 3) (\<lambda>_. True) controller_up"
  unfolding controller_up_def by (intro passes_bind passes_poll emit_intros inert_intros) simp_all

lemma controller_up_emits: "emits [(APHY_CSR_PHY_BIST_CNTRL_SPR, 0), (SD_CS, restart_word)] controller_up"
proof -
  have "emits ([] @ [] @ [] @ [(APHY_CSR_PHY_BIST_CNTRL_SPR, 0)] @ [(SD_CS, restart_word)]) controller_up"
    unfolding controller_up_def
    by (rule emits_seq emits_bind emits_wr emits_quiet inert_intros emit_intros refl quiet_simps)+
  then show ?thesis by simp
qed

lemma write_timings_emits: "emits (timing_words T) (write_timings T)"
proof -
  have "emits ([(SD_SA, sa_word T)] @ [(SD_SB, sb_word T)] @ [] @ [(SD_SC, sc_word T)] @ [(SD_SD, sd_word T)] @ [(SD_SE, se_word T)] @
      [(SD_PT1, pt1_word T)] @ [(SD_PT2, pt2_word T)] @ [(SD_MRT, push_bit SD_MRT_T_MRW_LSB 0x3)]) (write_timings T)"
    unfolding write_timings_def
    by (rule emits_seq emits_wr emits_quiet inert_intros emit_intros refl quiet_simps)+
  then show ?thesis by (simp add: timing_words_def)
qed

lemma write_timings_effects: "effects (avoids (\<lambda>a. a = SD_CS)) (write_timings T)"
  unfolding write_timings_def by (intro emit_intros) (simp_all add: reg_defs)

lemma controller_phases:
  fixes s :: "'r mach_scheme"
  assumes "running s" and "run_state (reset_with_timing T) s = ((), s')" and "running s'"
  obtains s1 s2 s3 s4 s5 where "run_state controller_down s = ((), s1)" "running s1"
    "run_state master_pll s1 = ((), s2)" "running s2" "run_state (set_clkman 4) s2 = ((), s3)" "running s3"
    "run_state (write_timings T) s3 = ((), s4)" "running s4" "run_state reset_phy_dll s4 = ((), s5)" "running s5"
    "run_state controller_up s5 = ((), s')"
proof -
  have e: "reset_with_timing T = do { controller_down; master_pll; set_clkman 4; write_timings T; reset_phy_dll; controller_up }"
    by (simp add: reset_with_timing_def)
  obtain x1 s1 where 1: "run_state controller_down s = (x1, s1)" "running s1"
      "run_state (do { master_pll; set_clkman 4; write_timings T; reset_phy_dll; controller_up }) s1 = ((), s')"
    by (rule inert_running [OF _ assms(2) [unfolded e] assms(3)]) (intro inert_intros)
  obtain x2 s2 where 2: "run_state master_pll s1 = (x2, s2)" "running s2"
      "run_state (do { set_clkman 4; write_timings T; reset_phy_dll; controller_up }) s2 = ((), s')"
    by (rule inert_running [OF _ 1(3) assms(3)]) (intro inert_intros)
  obtain x3 s3 where 3: "run_state (set_clkman 4) s2 = (x3, s3)" "running s3"
      "run_state (do { write_timings T; reset_phy_dll; controller_up }) s3 = ((), s')"
    by (rule inert_running [OF _ 2(3) assms(3)]) (intro inert_intros)
  obtain x4 s4 where 4: "run_state (write_timings T) s3 = (x4, s4)" "running s4"
      "run_state (do { reset_phy_dll; controller_up }) s4 = ((), s')"
    by (rule inert_running [OF _ 3(3) assms(3)]) (intro inert_intros)
  obtain x5 s5 where 5: "run_state reset_phy_dll s4 = (x5, s5)" "running s5" "run_state controller_up s5 = ((), s')"
    by (rule inert_running [OF _ 4(3) assms(3)]) (intro inert_intros)
  show thesis using that 1(1,2) 2(1,2) 3(1,2) 4(1,2) 5 by simp
qed

text \<open>C15.  The SDRAM controller is reprogrammed in order.  In every run of \<^verbatim>\<open>reset_with_timing\<close> that
returns, no timing register is written before the controller was seen down and, after that, the
master PLL was seen locked; then exactly the eight words of the timings are written, in order, while
\<^verbatim>\<open>SD_CS\<close> stays as it is; and only after the address DLL was seen locked is the controller restarted.\<close>

theorem sdram_reprogram_order:
  assumes "running s" and "run_state (reset_with_timing T) s = ((), s')" and "running s'"
  shows "\<exists>A B C D. bus s' = bus s @ A @ [Rd SD_CS] @ B @ [Rd APHY_CSR_DDR_PLL_LOCK_STATUS] @
        C @ [Rd APHY_CSR_GLBL_ADR_DLL_LOCK_STAT] @ D \<and>
      list_all (avoids timing_reg) A \<and> dev s (bus s @ A) SD_CS AND SD_CS_SDUP_SET = 0 \<and>
      list_all (avoids controller_reg) B \<and>
      dev s (bus s @ A @ [Rd SD_CS] @ B) APHY_CSR_DDR_PLL_LOCK_STATUS AND BV 16 \<noteq> 0 \<and>
      filter (\<lambda>(a, v). controller_reg a) (writes C) = timing_words T \<and>
      dev s (bus s @ A @ [Rd SD_CS] @ B @ [Rd APHY_CSR_DDR_PLL_LOCK_STATUS] @ C) APHY_CSR_GLBL_ADR_DLL_LOCK_STAT = 3 \<and>
      writes D = [(APHY_CSR_PHY_BIST_CNTRL_SPR, 0), (SD_CS, restart_word)]"
proof -
  obtain s1 s2 s3 s4 s5 where 1: "run_state controller_down s = ((), s1)" "running s1"
    and 2: "run_state master_pll s1 = ((), s2)" "running s2" and 3: "run_state (set_clkman 4) s2 = ((), s3)" "running s3"
    and 4: "run_state (write_timings T) s3 = ((), s4)" "running s4" and 5: "run_state reset_phy_dll s4 = ((), s5)" "running s5"
    and 6: "run_state controller_up s5 = ((), s')"
    by (rule controller_phases [OF assms])
  obtain k1 l1 where a: "dev s1 = dev s" "bus s1 = bus s @ k1 @ Rd SD_CS # l1" "dev s (bus s @ k1) SD_CS AND SD_CS_SDUP_SET = 0"
      "list_all (avoids timing_reg) k1" "list_all (avoids controller_reg) l1"
    by (rule passesE [OF controller_down_passes assms(1) 1])
  obtain k2 l2 where b: "dev s2 = dev s1" "bus s2 = bus s1 @ k2 @ Rd APHY_CSR_DDR_PLL_LOCK_STATUS # l2"
      "dev s1 (bus s1 @ k2) APHY_CSR_DDR_PLL_LOCK_STATUS AND BV 16 \<noteq> 0"
      "list_all (avoids controller_reg) k2" "list_all (avoids controller_reg) l2"
    by (rule passesE [OF master_pll_passes 1(2) 2])
  obtain c where c: "dev s3 = dev s2" "bus s3 = bus s2 @ c" "list_all (avoids controller_reg) c"
    by (rule effects_run [OF timing_steps_effects(4) 3(1)])
  obtain t where t: "dev s4 = dev s3" "bus s4 = bus s3 @ t"
    by (rule effects_run [OF write_timings_effects 4(1)])
  have "writes t = timing_words T" using emitsD [OF write_timings_emits 3(2) 4] t(2) by simp
  then have tw: "filter (\<lambda>(a, v). controller_reg a) (writes t) = timing_words T"
    by (simp add: timing_words_def controller_reg_def timing_reg_def)
  obtain d where d: "dev s5 = dev s4" "bus s5 = bus s4 @ d" "list_all (avoids controller_reg) d"
    by (rule effects_run [OF timing_steps_effects(3) 5(1)])
  obtain k6 l6 where e: "dev s' = dev s5" "bus s' = bus s5 @ k6 @ Rd APHY_CSR_GLBL_ADR_DLL_LOCK_STAT # l6"
      "dev s5 (bus s5 @ k6) APHY_CSR_GLBL_ADR_DLL_LOCK_STAT = 3" "list_all quiet k6"
    by (rule passesE [OF controller_up_passes 5(2) 6 assms(3)])
  have "writes l6 = [(APHY_CSR_PHY_BIST_CNTRL_SPR, 0), (SD_CS, restart_word)]"
    using emitsD [OF controller_up_emits 5(2) 6 assms(3)] e(2,4) by (simp add: writes_quiet)
  moreover have "filter (\<lambda>(a, v). controller_reg a) (writes (l2 @ c @ t @ d @ k6)) = timing_words T"
    using b(5) c(3) d(3) e(4) tw by (simp add: avoids_writes writes_quiet)
  ultimately show ?thesis
    using a b c(1,2) t d(1,2) e
    by (intro exI [of _ k1] exI [of _ "l1 @ k2"] exI [of _ "l2 @ c @ t @ d @ k6"] exI [of _ l6]) simp
qed

text \<open>
  The device of the witness: everything locks, the clock accepts an update when it is asked for, the
  controller goes up and down, and the memory is of 512 MB.
\<close>

definition sdram_dev :: device where
  "sdram_dev h a =
     (if a = CM_SDCCTL then CM_SDCCTL_BUSY_SET OR (case last_write a h of
          Some v \<Rightarrow> if v AND CM_SDCCTL_UPDATE_SET \<noteq> 0 then CM_SDCCTL_ACCPT_SET else 0 | None \<Rightarrow> 0)
      else if a = SD_CS then (if even (length h) then SD_CS_SDUP_SET else 0)
      else if a = SD_MR then 0x80180000
      else if a = APHY_CSR_DDR_PLL_LOCK_STATUS then 0x10000
      else if a = APHY_CSR_GLBL_ADR_DLL_LOCK_STAT then 3
      else if a = DPHY_CSR_GLBL_MSTR_DLL_LOCK_STAT then 0xFFFF
      else if a \<in> {APHY_CSR_ADDR_PVT_COMP_STATUS, DPHY_CSR_DQ_PVT_COMP_STATUS} then 2
      else clock_dev (\<lambda>_. 0) h a)"

lemma sdram_dev_clkman [ends_intros]: "ends sdram_dev clkman_update_begin" "ends sdram_dev clkman_update_end"
proof -
  have b: "(x OR (CM_PASSWORD OR CM_SDCCTL_UPDATE_SET)) AND CM_SDCCTL_UPDATE_SET \<noteq> 0" for x
  proof -
    have "bit ((x OR (CM_PASSWORD OR CM_SDCCTL_UPDATE_SET)) AND CM_SDCCTL_UPDATE_SET) 17"
      by (simp add: bit_simps reg_defs bit_numeral_rec)
    then show ?thesis by (metis bit_0_eq bot_apply bot_bool_def)
  qed
  have e: "(CM_PASSWORD OR (x AND CM_SDCCTL_UPDATE_CLR)) AND CM_SDCCTL_UPDATE_SET = 0" for x
    by (simp add: reg_defs bit.conj_disj_distrib2 and.assoc)
  have n: "(CM_SDCCTL_BUSY_SET OR CM_SDCCTL_ACCPT_SET) AND CM_SDCCTL_ACCPT_SET \<noteq> 0" "CM_SDCCTL_ACCPT_SET \<noteq> 0"
    "CM_SDCCTL_BUSY_SET AND CM_SDCCTL_ACCPT_SET = 0" by (simp_all add: reg_defs)
  show "ends sdram_dev clkman_update_begin"
    unfolding ends_def clkman_update_begin_def
    by (intro allI impI) (simp add: poll_now cur_def sdram_dev_def b n)
  show "ends sdram_dev clkman_update_end"
    unfolding ends_def clkman_update_end_def
    by (intro allI impI) (simp add: poll_now cur_def sdram_dev_def e n)
qed

lemma reads_logf_ends [ends_intros]: "ends d a \<Longrightarrow> ends d (logf fn f a)"
  unfolding logf_def print_timestamp_def Let_def by (intro ends_intros)

lemma sdram_dev_poll: "(\<And>h. c (sdram_dev h a)) \<Longrightarrow> ends sdram_dev (poll a c)"
  unfolding ends_def by (auto simp: poll_now cur_def)

lemma sdram_dev_SD_CS: "ends sdram_dev (poll SD_CS (\<lambda>x. x AND SD_CS_SDUP_SET = 0))"
  "ends sdram_dev (poll SD_CS (\<lambda>x. x AND SD_CS_SDUP_SET \<noteq> 0))"
proof -
  have "SD_CS \<noteq> CM_SDCCTL" by (simp add: reg_defs)
  then have cs: "sdram_dev h SD_CS = (if even (length h) then SD_CS_SDUP_SET else 0)" for h by (simp add: sdram_dev_def)
  have s: "SD_CS_SDUP_SET \<noteq> 0" by (simp add: reg_defs)
  have "\<exists>n. sdram_dev (h @ replicate n (Rd SD_CS)) SD_CS AND SD_CS_SDUP_SET = 0" for h
    by (rule exI [of _ "if even (length h) then 1 else 0"]) (simp add: cs)
  then show "ends sdram_dev (poll SD_CS (\<lambda>x. x AND SD_CS_SDUP_SET = 0))"
    by (intro poll_drains) (simp add: tx_drains_def)
  have "\<exists>n. sdram_dev (h @ replicate n (Rd SD_CS)) SD_CS AND SD_CS_SDUP_SET \<noteq> 0" for h
    by (rule exI [of _ "if even (length h) then 0 else 1"]) (simp add: cs s)
  then show "ends sdram_dev (poll SD_CS (\<lambda>x. x AND SD_CS_SDUP_SET \<noteq> 0))"
    by (intro poll_drains) (simp add: tx_drains_def)
qed

lemma sdram_dev_ends: "ends sdram_dev (reset_with_timing T)"
  unfolding reset_with_timing_def controller_down_def master_pll_def set_clkman_def write_timings_def
    reset_phy_dll_def controller_up_def reads_arg_def Let_def
  by (intro ends_intros sdram_dev_SD_CS) (rule sdram_dev_poll, simp add: sdram_dev_def reg_defs)+

theorem sdram_reprogram_order_witness:
  "\<exists>s'. run_state (reset_with_timing g_InitSdramParameters) (boot sdram_dev) = ((), s') \<and> running s' \<and>
     (SD_SA, sa_word g_InitSdramParameters) \<in> set (writes (bus s'))"
proof -
  obtain s' where run: "run_state (reset_with_timing g_InitSdramParameters) (boot sdram_dev) = ((), s')"
    using run_unit by blast
  have r: "running s'" by (rule endsD [OF sdram_dev_ends _ _ run]) simp_all
  from sdram_reprogram_order [OF _ run r] obtain A B C D where
    "bus s' = A @ [Rd SD_CS] @ B @ [Rd APHY_CSR_DDR_PLL_LOCK_STATUS] @ C @ [Rd APHY_CSR_GLBL_ADR_DLL_LOCK_STAT] @ D"
    "filter (\<lambda>(a, v). controller_reg a) (writes C) = timing_words g_InitSdramParameters" by auto
  moreover have "(SD_SA, sa_word g_InitSdramParameters) \<in> set (timing_words g_InitSdramParameters)"
    by (simp add: timing_words_def)
  ultimately have "(SD_SA, sa_word g_InitSdramParameters) \<in> set (writes (bus s'))"
    by (auto simp flip: \<open>filter _ _ = _\<close>)
  with run r show ?thesis by blast
qed

subsection \<open>The whole initialisation\<close>

lemma logf_keeps [keep_intros]: "steady P \<Longrightarrow> keeps P a \<Longrightarrow> keeps P (logf fn f a)"
  unfolding logf_def print_timestamp_def Let_def by (intro keep_intros)

lemma mr_keeps [keep_intros]: "steady P \<Longrightarrow> keeps P (read_mr a)" "steady P \<Longrightarrow> keeps P (write_mr a v w)"
  unfolding read_mr_def write_mr_def mr_done_def by (intro keep_intros; assumption)+

lemma clkman_keeps [keep_intros]:
  "steady P \<Longrightarrow> keeps P clkman_update_begin" "steady P \<Longrightarrow> keeps P clkman_update_end" "steady P \<Longrightarrow> keeps P (set_clkman c)"
  unfolding clkman_update_begin_def clkman_update_end_def set_clkman_def by (intro keep_intros; assumption)+

lemma reset_keeps [keep_intros]: "steady P \<Longrightarrow> keeps P reset_phy_dll" "steady P \<Longrightarrow> keeps P (reset_with_timing T)"
  unfolding reset_phy_dll_def reset_with_timing_def controller_down_def master_pll_def write_timings_def
    controller_up_def reads_arg_def Let_def
  by (intro keep_intros; assumption)+

lemma slow_start_keeps [keep_intros]: "steady P \<Longrightarrow> keeps P (slow_start cpuid)"
  unfolding slow_start_def switch_to_cprman_clock_def init_clkman_def reset_phy_def calibrate_pvt_early_def mr_done_def
    reads_arg_def Let_def
  by (intro keep_intros; assumption)

lemma sdram_inert [inert_intros]:
  "inert (read_mr a)" "inert identify" "inert init_late" "inert (selftest_at r)" "inert selftest" "inert (reset_with_timing T)"
  unfolding read_mr_def mr_done_def identify_def init_late_def selftest_at_def selftest_def reset_with_timing_def Let_def
  by (intro inert_intros)+

lemma sdram_effects [emit_intros]:
  "effects (\<lambda>_. True) (slow_start cpuid)" "effects (\<lambda>_. True) identify" "effects (\<lambda>_. True) (reset_with_timing T)"
  unfolding slow_start_def switch_to_cprman_clock_def init_clkman_def reset_phy_def calibrate_pvt_early_def mr_done_def
    reads_arg_def identify_def read_mr_def write_mr_def reset_with_timing_def controller_down_def master_pll_def set_clkman_def
    write_timings_def reset_phy_dll_def controller_up_def clkman_update_begin_def clkman_update_end_def udelay_def Let_def
  by (intro emit_intros; simp)+

text \<open>What \<open>identify\<close> found, when it returns.\<close>

lemma identified: "returns (\<lambda>_ s. g_RAMSize s \<noteq> kRamSizeUnknown) identify"
proof -
  have tail: "returns (\<lambda>_ s. g_RAMSize s \<noteq> kRamSizeUnknown) (do {
      gset (\<lambda>s. s\<lparr>g_RAMSize := lpddr2_size bc\<rparr>);
      sz \<leftarrow> gget g_RAMSize;
      logf ''sdram_init'' ''SDRAM Type: %s %s LPDDR2 (BC=0x%X)''
        (return [S (lpddr2_manufacturer_name v), S (size_to_string sz), U bc]);
      when_io (sz = kRamSizeUnknown) (panic ''unknown ram size'') })" for bc v
    by (auto simp: returns_def run_logf log_def split: if_splits)
  show ?thesis
    unfolding identify_def Let_def by (intro returns_bind tail inert_intros)
qed

lemma identify_keeps: "keeps (\<lambda>s. sdram_params s = T) identify"
  unfolding identify_def Let_def by (intro keep_intros) (simp_all add: steady_def log_def)

text \<open>After \<^verbatim>\<open>reset_with_timing\<close>, every timing register holds its word of the timings.\<close>

lemma map_of_filter_key: "P a \<Longrightarrow> map_of (filter (\<lambda>(x, v). P x) ws) a = map_of ws a"
  by (induction ws) auto

lemma last_write_filter:
  assumes "P a"
  shows "last_write a es = map_of (rev (filter (\<lambda>(x, v). P x) (writes es))) a"
  using map_of_filter_key [of P a "rev (writes es)"] assms by (simp add: last_write_writes rev_filter)

lemma reset_timings:
  assumes "running s" "run_state (reset_with_timing T) s = ((), s')" "running s'" "(a, v) \<in> set (timing_words T)"
  shows "last_write a (bus s') = Some v"
proof -
  from sdram_reprogram_order [OF assms(1-3)] obtain A B C D where
    b: "bus s' = bus s @ A @ [Rd SD_CS] @ B @ [Rd APHY_CSR_DDR_PLL_LOCK_STATUS] @ C @
      [Rd APHY_CSR_GLBL_ADR_DLL_LOCK_STAT] @ D"
    and C: "filter (\<lambda>(a, v). controller_reg a) (writes C) = timing_words T"
    and D: "writes D = [(APHY_CSR_PHY_BIST_CNTRL_SPR, 0), (SD_CS, restart_word)]" by blast
  have a: "controller_reg a" using assms(4) by (auto simp: timing_words_def controller_reg_def timing_reg_def)
  have "map_of (rev (timing_words T)) a = Some v"
    using assms(4) unfolding timing_words_def by (elim set_ConsD [elim_format] disjE) (simp_all add: reg_defs)
  then have "last_write a C = Some v" using last_write_filter [of controller_reg a C] a C by simp
  moreover have "last_write a D = None"
    using assms(4) D unfolding last_write_writes timing_words_def by (auto simp: reg_defs)
  ultimately show ?thesis unfolding b by simp
qed

text \<open>The self test writes to memory only.\<close>

lemma ram_not_register:
  assumes "a \<in> {0x3FF00000, 0x2FF00000, 0x1FF00000, 0xFF00000, 0}" "i < 0x1000"
  shows "0xC0000000 \<le> word_at (a OR RT_BASE) i"
proof -
  have "unat (of_nat (4 * i) :: u32) = 4 * i" using assms(2) unfolding unat_of_nat by simp
  then have i: "unat (4 * of_nat i :: u32) = 4 * i" by simp
  have a: "unat (a OR RT_BASE) + 4 * i < 2 ^ 32" "0xC0000000 \<le> unat (a OR RT_BASE)"
    using assms by (auto simp: RT_BASE_def)
  then show ?thesis
    unfolding word_at_def word_le_nat_alt unat_word_ariths(1) i by simp
qed

lemma selftest_at_effects:
  assumes "a \<in> {0x3FF00000, 0x2FF00000, 0x1FF00000, 0xFF00000, 0}"
  shows "effects (avoids (\<lambda>x. x < 0xC0000000)) (selftest_at a)"
proof -
  have w: "\<not> (a OR RT_BASE) + 4 * of_nat i < 0xC0000000" if "i < 0x1000" for i
    using ram_not_register [OF assms that] by (simp add: word_at_def not_less)
  have w': "\<not> (a OR RT_BASE) + (4 + 4 * of_nat i) < 0xC0000000" "\<not> (a OR RT_BASE) + (8 + 4 * of_nat i) < 0xC0000000"
    "\<not> (a OR RT_BASE) + (4 * of_nat i + 12) < 0xC0000000" if "i + 3 < 0x1000" for i
    using w [of "i + 1"] w [of "i + 2"] w [of "i + 3"] that by simp_all
  have "i + k < 0x1000" if "i \<in> set (map (\<lambda>k. 4 * k) [0..<0x400])" "k < 4" for i k :: nat
    using that by auto
  note this [of _ 0] this [of _ 1] this [of _ 2] this [of _ 3]
  then show ?thesis
    unfolding selftest_at_def rt_assert_def logf_def print_timestamp_def Let_def
    by (intro emit_intros) (simp_all add: w w')
qed

lemma selftest_effects: "effects (avoids (\<lambda>x. x < 0xC0000000)) selftest"
  unfolding selftest_def logf_def print_timestamp_def Let_def
  by (intro emit_intros selftest_at_effects) simp_all

text \<open>What a return of \<^verbatim>\<open>sdram_init\<close> guarantees: the size of the memory is known, the timings
are the default ones with the geometry of that size, what was written last to each of the
controller's timing registers is the word of these timings, and no region the self test visits for
the size has a faulty word.\<close>

theorem sdram_init_guarantee:
  assumes "running s" and "run_state (sdram_init cpuid) s = ((), s')" and "running s'"
  shows "g_RAMSize s' \<noteq> kRamSizeUnknown \<and>
    sdram_params s' = sdram_geometry (g_RAMSize s') (sdram_params s) \<and>
    (\<forall>(a, v)\<in>set (timing_words (sdram_params s')). last_write a (bus s') = Some v) \<and>
    (\<forall>a\<in>set (tested (g_RAMSize s')). \<not> faulty (dev s) a)"
proof -
  let ?geo = "gset (\<lambda>s. s\<lparr>sdram_params := sdram_geometry (g_RAMSize s) (sdram_params s)\<rparr>) :: ('a, unit) sdram_io"
  obtain x1 s1 where 1: "run_state (slow_start cpuid) s = (x1, s1)" "running s1"
      "run_state (do { identify; ?geo; T \<leftarrow> gget sdram_params; reset_with_timing T; init_late; selftest }) s1 = ((), s')"
    by (rule inert_running [OF _ assms(2) [unfolded sdram_init_def] assms(3)]) (intro inert_intros)
  obtain x2 s2 where 2: "run_state identify s1 = (x2, s2)" "running s2"
      "run_state (do { ?geo; T \<leftarrow> gget sdram_params; reset_with_timing T; init_late; selftest }) s2 = ((), s')"
    by (rule inert_running [OF _ 1(3) assms(3)]) (intro inert_intros)
  define s3 where "s3 = s2\<lparr>sdram_params := sdram_geometry (g_RAMSize s2) (sdram_params s2)\<rparr>"
  have 3: "run_state (do { reset_with_timing (sdram_params s3); selftest }) s3 = ((), s')"
    using 2(2,3) by (simp add: s3_def init_late_def)
  obtain x4 s4 where 4: "run_state (reset_with_timing (sdram_params s3)) s3 = (x4, s4)" "running s4" "run_state selftest s4 = ((), s')"
    by (rule inert_running [OF _ 3 assms(3)]) (intro inert_intros)
  let ?P = "\<lambda>T z t. sdram_params t = T \<and> g_RAMSize t = z"
  have P: "steady (?P T z)" for T z by (simp add: steady_def log_def)
  have "sdram_params s1 = sdram_params s"
    using keepsD [OF slow_start_keeps [OF P] _ 1(1), of "sdram_params s" "g_RAMSize s"] by simp
  then have p2: "sdram_params s2 = sdram_params s" using keepsD [OF identify_keeps _ 2(1)] by simp
  have p4: "?P (sdram_params s3) (g_RAMSize s3) s4"
    using keepsD [OF reset_keeps(2) [OF P] _ 4(1)] by simp
  have "keeps (?P T z) selftest" for T z :: _
    unfolding selftest_def selftest_at_def rt_assert_def Let_def by (intro keep_intros P)
  from keepsD [OF this p4 4(3)] have p': "?P (sdram_params s3) (g_RAMSize s3) s'" .
  obtain es1 where d1: "dev s1 = dev s" by (rule effects_run [OF sdram_effects(1) 1(1)])
  have d2: "dev s2 = dev s1" by (rule effects_run [OF sdram_effects(2) 2(1)])
  have d4: "dev s4 = dev s3" by (rule effects_run [OF sdram_effects(3) 4(1)])
  have "\<not> (\<exists>a\<in>set (tested (g_RAMSize s4)). faulty (dev s4) a)"
    using selftest_verdicts(2) [OF 4(2,3)] assms(3) by auto
  moreover have "last_write a (bus s') = Some v" if a: "(a, v) \<in> set (timing_words (sdram_params s'))" for a v
  proof -
    obtain es where es: "bus s' = bus s4 @ es" "list_all (avoids (\<lambda>x. x < 0xC0000000)) es"
      by (rule effects_run [OF selftest_effects 4(3)])
    have "last_write a (bus s4) = Some v"
      using reset_timings [OF _ _ 4(2), of s3 "sdram_params s3"] 4(1) 2(2) a p' by (simp add: s3_def)
    moreover have "a < 0xC0000000" using a by (auto simp: timing_words_def reg_defs)
    ultimately show ?thesis using avoids_last_write [OF es(2)] es(1) by simp
  qed
  ultimately show ?thesis
    using p4 p' d1 d2 d4 returnsD [OF identified 1(2) 2(1,2)] p2 by (simp add: s3_def split_beta)
qed

lemma sdram_dev_mr:
  assumes "dev s = sdram_dev" "running s"
  shows "run_state mr_done s = (0x80180000, log [Rd SD_MR] s)"
proof -
  have c: "cur t SD_MR = 0x80180000" if "dev t = sdram_dev" for t :: "'a mach_scheme"
    using that by (simp add: cur_def sdram_dev_def reg_defs)
  have "run_state mr_done s = (cur s SD_MR, log [Rd SD_MR] s)"
    unfolding mr_done_def by (rule poll_now) (simp_all add: assms c, simp add: reg_defs)
  then show ?thesis by (simp add: c assms)
qed

lemma sdram_dev_read_mr:
  assumes "dev s = sdram_dev" "running s"
  shows "run_state (read_mr a) s = (0x80180000, log [Rd SD_MR, Wr SD_MR (a AND 0xFF), Rd SD_MR] s)"
  using assms by (simp add: read_mr_def sdram_dev_mr)

lemma sdram_dev_write_mr [ends_intros]: "ends sdram_dev (write_mr a v w)"
  by (auto simp: ends_def write_mr_def sdram_dev_mr) (simp_all add: reg_defs)

lemma sdram_dev_mr_done [ends_intros]: "ends sdram_dev mr_done"
  by (simp add: ends_def sdram_dev_mr)

lemma ticking_sdram_dev: "ticking sdram_dev 1000"
proof -
  have "sdram_dev h ST_CLO = clock_dev (\<lambda>_. 0) h ST_CLO" for h by (simp add: sdram_dev_def reg_defs)
  then show ?thesis
    using ticking_clock_dev [of "\<lambda>_. 0"] by (simp add: ticking_def ticks_def answer_def cur_def)
qed

lemma sdram_dev_slow_start: "ends sdram_dev (slow_start cpuid)"
  unfolding slow_start_def switch_to_cprman_clock_def init_clkman_def set_clkman_def reset_phy_def reset_phy_dll_def
    calibrate_pvt_early_def reads_arg_def Let_def
  by (intro ends_intros sdram_dev_SD_CS udelay_returns [OF ticking_sdram_dev])
    (simp | rule sdram_dev_poll, simp add: sdram_dev_def reg_defs)+

lemma sdram_dev_identify: "ends sdram_dev identify"
  by (auto simp: ends_def identify_def sdram_dev_read_mr run_logf log_def MR_REQUEST_SUCCESS_def MR_GET_RDATA_def
      lpddr2_size_def reg_defs)

lemma sdram_dev_ram: "0xC0000000 \<le> a \<Longrightarrow> plain_at sdram_dev a"
proof -
  assume a: "0xC0000000 \<le> a"
  have "a \<noteq> r" if "r < 0xC0000000" for r using a that by auto
  then have eq: "sdram_dev h a = memory (\<lambda>_. 0) h a" for h
    by (simp add: sdram_dev_def clock_dev_def reg_defs)
  show ?thesis using plain_memory [of "\<lambda>_. 0" a] unfolding plain_at_def eq .
qed

lemma sdram_dev_sound: "a \<in> set (tested kRamSize512MB) \<Longrightarrow> sound sdram_dev a"
  unfolding sound_def by (intro allI impI sdram_dev_ram ram_not_register) (auto simp: tested_def)

lemma sdram_dev_size:
  assumes "dev s = sdram_dev" "running s" "run_state identify s = (x, s')"
  shows "g_RAMSize s' = kRamSize512MB"
  using assms by (auto simp: identify_def sdram_dev_read_mr run_logf log_def MR_REQUEST_SUCCESS_def MR_GET_RDATA_def
      lpddr2_size_def reg_defs)

lemma sdram_dev_init:
  assumes s: "dev s = sdram_dev" "running s" and run: "run_state (sdram_init cpuid) s = ((), s')"
  shows "running s'"
proof -
  obtain s1 where 1: "run_state (slow_start cpuid) s = ((), s1)" using run_unit by blast
  note d1 = endsD [OF sdram_dev_slow_start s 1]
  obtain s2 where 2: "run_state identify s1 = ((), s2)" using run_unit by blast
  note d2 = endsD [OF sdram_dev_identify d1(2,1) 2]
  define s3 where "s3 = s2\<lparr>sdram_params := sdram_geometry (g_RAMSize s2) (sdram_params s2)\<rparr>"
  have d3: "dev s3 = sdram_dev" "running s3" "g_RAMSize s3 = kRamSize512MB"
    using d2 sdram_dev_size [OF d1(2,1) 2] by (simp_all add: s3_def)
  obtain s4 where 4: "run_state (reset_with_timing (sdram_params s3)) s3 = ((), s4)" using run_unit by blast
  note d4 = endsD [OF sdram_dev_ends d3(1,2) 4]
  have "steady (\<lambda>t. g_RAMSize t = kRamSize512MB)" by (simp add: steady_def log_def)
  from keepsD [OF reset_keeps(2) [OF this] d3(3) 4] have z: "g_RAMSize s4 = kRamSize512MB" .
  have "run_state selftest s4 = ((), s')"
    using run 1 2 d2 4 by (simp add: sdram_init_def init_late_def s3_def)
  from selftest_verdicts(3) [OF d4(1) this] show ?thesis using d4(2) z sdram_dev_sound by simp
qed

theorem sdram_init_guarantee_witness:
  "\<exists>(s :: sdram_mach) s'. run_state (sdram_init 0) s = ((), s') \<and> running s' \<and>
     (\<forall>a\<in>set (tested (g_RAMSize s')). \<not> faulty sdram_dev a)"
proof -
  define s :: sdram_mach where
    "s = mach.extend (boot sdram_dev) \<lparr>g_RAMSize = kRamSizeUnknown, sdram_params = g_InitSdramParameters\<rparr>"
  have s: "dev s = sdram_dev" "running s" by (simp_all add: s_def mach.defs boot_def)
  obtain s' where run: "run_state (sdram_init 0) s = ((), s')" using run_unit by blast
  have r: "running s'" by (rule sdram_dev_init [OF s run])
  from sdram_init_guarantee [OF s(2) run r] have "\<forall>a\<in>set (tested (g_RAMSize s')). \<not> faulty sdram_dev a" using s(1) by simp
  with run r show ?thesis by blast
qed

end
