(* ===== verification/Sd_Proto.thy ===== *)
theory Sd_Proto
  imports Machine
begin

unbundle bit_operations_syntax

text \<open>
  The SD card protocol (\<^verbatim>\<open>sdhost/sd_proto.hpp\<close>): the commands the driver sends, the status bits it
  looks at and the fields of the card's registers.  A response is the array of four words; the
  byte-wise reader of bit fields sees it in little-endian order.
\<close>

definition MMC_GO_IDLE_STATE :: u32 where [reg_defs]: "MMC_GO_IDLE_STATE = 0"
definition MMC_ALL_SEND_CID :: u32 where [reg_defs]: "MMC_ALL_SEND_CID = 2"
definition MMC_SET_RELATIVE_ADDR :: u32 where [reg_defs]: "MMC_SET_RELATIVE_ADDR = 3"
definition MMC_SELECT_CARD :: u32 where [reg_defs]: "MMC_SELECT_CARD = 7"
definition MMC_SEND_CSD :: u32 where [reg_defs]: "MMC_SEND_CSD = 9"
definition MMC_SEND_CID :: u32 where [reg_defs]: "MMC_SEND_CID = 10"
definition MMC_STOP_TRANSMISSION :: u32 where [reg_defs]: "MMC_STOP_TRANSMISSION = 12"
definition MMC_SET_BLOCKLEN :: u32 where [reg_defs]: "MMC_SET_BLOCKLEN = 16"
definition MMC_READ_BLOCK_MULTIPLE :: u32 where [reg_defs]: "MMC_READ_BLOCK_MULTIPLE = 18"
definition MMC_APP_CMD :: u32 where [reg_defs]: "MMC_APP_CMD = 55"
definition SD_SEND_IF_COND :: u32 where [reg_defs]: "SD_SEND_IF_COND = 8"
definition SD_APP_OP_COND :: u32 where [reg_defs]: "SD_APP_OP_COND = 41"

definition MMC_OCR_MEM_READY :: u32 where [reg_defs]: "MMC_OCR_MEM_READY = BV 31"
definition MMC_OCR_HCS :: u32 where [reg_defs]: "MMC_OCR_HCS = BV 30"
definition MMC_OCR_3_3V_3_4V :: u32 where [reg_defs]: "MMC_OCR_3_3V_3_4V = BV 21"

definition SD_R6 :: "u32 list \<Rightarrow> u32" where "SD_R6 resp = resp ! 0"
definition SD_R6_RCA :: "u32 list \<Rightarrow> u32" where "SD_R6_RCA resp = drop_bit 16 (SD_R6 resp)"
definition MMC_ARG_RCA :: "u32 \<Rightarrow> u32" where "MMC_ARG_RCA rca = push_bit 16 rca"

subsection \<open>Bit fields\<close>

definition resp_byte :: "u32 list \<Rightarrow> nat \<Rightarrow> u8" where
  "resp_byte src k = ucast (drop_bit (8 * (k mod 4)) (src ! (k div 4)))"

function bitfield_loop :: "u32 list \<Rightarrow> nat \<Rightarrow> nat \<Rightarrow> nat \<Rightarrow> u32 \<Rightarrow> u32" where
  "bitfield_loop src start len shift dst =
     (if len > 0 then
        let sp = resp_byte src (start div 8); bs = start mod 8; bc = 8 - bs;
            bc = (if bc > len then len else bc);
            dst = dst OR push_bit shift (ucast (drop_bit bs sp))
        in bitfield_loop src (start + bc) (len - bc) (shift + bc) dst
      else dst)"
  by pat_completeness auto
termination by (relation "measure (\<lambda>(src, start, len, shift, dst). len)") (auto simp: Let_def)

declare bitfield_loop.simps [simp del]

definition bitfield :: "u32 list \<Rightarrow> int \<Rightarrow> int \<Rightarrow> u32" where
  "bitfield src start len =
     (if start < 0 \<or> len < 0 \<or> len > 32 then 0
      else
        let mask = (if len mod 32 \<noteq> 0 then drop_bit (nat (32 - len mod 32)) (- 1) else - 1)
        in bitfield_loop src (nat start) (nat len) 0 0 AND mask)"

text \<open>The fields of the card specific data and of the card identification.\<close>

definition SD_CSD_CSDVER :: "u32 list \<Rightarrow> u32" where "SD_CSD_CSDVER resp = bitfield resp 126 2"
definition SD_CSD_CSDVER_1_0 :: u32 where "SD_CSD_CSDVER_1_0 = 0"
definition SD_CSD_CSDVER_2_0 :: u32 where "SD_CSD_CSDVER_2_0 = 1"
definition SD_CSD_READ_BL_LEN :: "u32 list \<Rightarrow> u32" where "SD_CSD_READ_BL_LEN resp = bitfield resp 80 4"
definition SD_CSD_C_SIZE :: "u32 list \<Rightarrow> u32" where "SD_CSD_C_SIZE resp = bitfield resp 62 12"
definition SD_CSD_C_SIZE_MULT :: "u32 list \<Rightarrow> u32" where "SD_CSD_C_SIZE_MULT resp = bitfield resp 47 3"

definition SD_CSD_CAPACITY :: "u32 list \<Rightarrow> u32" where
  "SD_CSD_CAPACITY resp = push_bit (unat (SD_CSD_C_SIZE_MULT resp + 2)) (SD_CSD_C_SIZE resp + 1)"

definition SD_CSD_V2_C_SIZE :: "u32 list \<Rightarrow> u32" where "SD_CSD_V2_C_SIZE resp = bitfield resp 48 22"

definition SD_CSD_V2_CAPACITY :: "u32 list \<Rightarrow> u32" where
  "SD_CSD_V2_CAPACITY resp = push_bit 10 (SD_CSD_V2_C_SIZE resp + 1)"

definition SD_CSD_V2_BL_LEN :: nat where "SD_CSD_V2_BL_LEN = 9"

definition SD_CID_PNM_CPY :: "u32 list \<Rightarrow> u8 list" where
  "SD_CID_PNM_CPY resp = map (\<lambda>p. ucast (bitfield resp p 8)) [96, 88, 80, 72, 64] @ [0]"

subsection \<open>Library: the reader of bit fields\<close>

definition resp_bit :: "u32 list \<Rightarrow> nat \<Rightarrow> bool" where
  "resp_bit src n \<longleftrightarrow> bit (src ! (n div 32)) (n mod 32)"

lemma bit_resp_byte: "k + start mod 8 < 8 \<Longrightarrow>
   bit (resp_byte src (start div 8)) (start mod 8 + k) \<longleftrightarrow> resp_bit src (start + k)"
proof -
  assume k: "k + start mod 8 < 8"
  define p where "p = start div 8"
  have s: "start + k = 32 * (p div 4) + (8 * (p mod 4) + (start mod 8 + k))" "8 * (p mod 4) + (start mod 8 + k) < 32"
  proof -
    have "start = 8 * p + start mod 8" "p = 4 * (p div 4) + p mod 4" "p mod 4 < 4" by (simp_all add: p_def)
    then show "start + k = 32 * (p div 4) + (8 * (p mod 4) + (start mod 8 + k))" "8 * (p mod 4) + (start mod 8 + k) < 32"
      using k by linarith+
  qed
  have "(start + k) div 32 = p div 4" "(start + k) mod 32 = 8 * (p mod 4) + (start mod 8 + k)"
    unfolding s(1) using s(2) by simp_all
  then show ?thesis
    using k s(2) by (simp add: resp_bit_def resp_byte_def p_def bit_simps add.commute)
qed

lemma bit_bitfield_loop:
  "n < shift + len \<Longrightarrow> n < 32 \<Longrightarrow>
   bit (bitfield_loop src start len shift dst) n \<longleftrightarrow> bit dst n \<or> shift \<le> n \<and> resp_bit src (start + (n - shift))"
proof (induction src start len shift dst rule: bitfield_loop.induct)
  case (1 src start len shift dst)
  show ?case
  proof (cases "len > 0")
    case False
    then show ?thesis using 1(2) by (subst bitfield_loop.simps) simp
  next
    case True
    define bs where "bs = start mod 8"
    define bc where "bc = (if 8 - bs > len then len else 8 - bs)"
    define d where "d = dst OR push_bit shift (ucast (drop_bit bs (resp_byte src (start div 8))) :: u32)"
    have eq: "bitfield_loop src start len shift dst = bitfield_loop src (start + bc) (len - bc) (shift + bc) d"
      using True by (subst bitfield_loop.simps) (simp add: bs_def bc_def d_def Let_def)
    have b: "bs < 8" "bc \<le> len" "0 < bc" "bc \<le> 8 - bs" using True by (auto simp: bs_def bc_def)
    have "n < shift + bc + (len - bc)" using 1(2) b(2) by simp
    then have ih: "bit (bitfield_loop src (start + bc) (len - bc) (shift + bc) d) n \<longleftrightarrow>
        bit d n \<or> shift + bc \<le> n \<and> resp_bit src (start + bc + (n - (shift + bc)))"
      using True 1(3) unfolding d_def bc_def bs_def by (intro 1(1)) (auto simp: Let_def)
    have dn: "bit d n \<longleftrightarrow> bit dst n \<or> shift \<le> n \<and> n - shift < 8 - bs \<and> resp_bit src (start + (n - shift))"
    proof (cases "shift \<le> n \<and> n - shift < 8 - bs")
      case True
      then have "bit (resp_byte src (start div 8)) (bs + (n - shift)) \<longleftrightarrow> resp_bit src (start + (n - shift))"
        using True unfolding bs_def by (intro bit_resp_byte) linarith
      with True 1(3) show ?thesis by (auto simp: d_def bit_simps add.commute)
    next
      case False
      then have "\<not> (shift \<le> n \<and> bs + (n - shift) < 8)" by auto
      with False 1(3) show ?thesis by (auto simp: d_def bit_simps add.commute dest: bit_imp_le_length)
    qed
    show ?thesis
    proof (cases "shift + bc \<le> n")
      case True
      then have "start + bc + (n - (shift + bc)) = start + (n - shift)" by simp
      with True dn show ?thesis unfolding eq ih by auto
    next
      case False
      then show ?thesis using b(4) dn unfolding eq ih by auto
    qed
  qed
qed

lemma bit_bitfield:
  assumes "0 \<le> start" "0 \<le> len" "len \<le> 32" "n < 32"
  shows "bit (bitfield src start len) n \<longleftrightarrow> n < nat len \<and> resp_bit src (nat start + n)"
proof (cases "0 < len")
  case False
  then show ?thesis using assms by (simp add: bitfield_def bitfield_loop.simps)
next
  case True
  have mask: "bit (if len mod 32 \<noteq> 0 then drop_bit (nat (32 - len mod 32)) (- 1) else - 1 :: u32) n \<longleftrightarrow> n < nat len"
  proof (cases "len = 32")
    case False
    then have "len mod 32 = len" using assms True by simp
    then show ?thesis using assms False True by (auto simp: bit_simps)
  qed (use assms in simp)
  have "bit (bitfield_loop src (nat start) (nat len) 0 0) n \<longleftrightarrow> resp_bit src (nat start + n)" if "n < nat len"
    using bit_bitfield_loop [of n 0 "nat len" src "nat start" 0] that assms by simp
  then show ?thesis
    using assms mask unfolding bitfield_def by (auto simp: bit_and_iff Let_def)
qed

text \<open>C20.  The reader of bit fields takes the response apart byte by byte; for a field inside the 128
bits it gives the number whose binary digits are the field's bits, least significant first.\<close>

theorem bitfield_reads_bits:
  assumes "0 \<le> start" "0 \<le> len" "len \<le> 32" "start + len \<le> 128"
  shows "bitfield src start len = horner_sum of_bool 2 (map (resp_bit src) [nat start..<nat start + nat len])"
  by (rule bit_word_eqI) (auto simp: bit_bitfield [OF assms(1-3)] bit_horner_sum_bit_iff simp del: upt.simps)

theorem bitfield_reads_bits_witness:
  "bitfield [0, 0, 0, 0x40000000] 126 2 = horner_sum of_bool 2 (map (resp_bit [0, 0, 0, 0x40000000]) [126, 127]) \<and>
   bitfield [0, 0, 0, 0x40000000] 126 2 = 1"
proof -
  have l: "[126..<126 + 2] = [126, 127 :: nat]" by (simp add: upt_rec)
  have "bitfield [0, 0, 0, 0x40000000] 126 2 = horner_sum of_bool 2 (map (resp_bit [0, 0, 0, 0x40000000]) [126, 127])"
    using bitfield_reads_bits [of 126 2 "[0, 0, 0, 0x40000000]"] l by simp
  then show ?thesis by (simp add: resp_bit_def bit_numeral_rec)
qed

end
