(* ===== verification/Sdhost.thy ===== *)
theory Sdhost
  imports Sd_Proto Gpio
begin

unbundle bit_operations_syntax

text \<open>
  The SD card host (\<^verbatim>\<open>sdhost/sdhost_impl.cpp\<close>, \<^verbatim>\<open>block_device.hpp\<close>, \<^verbatim>\<open>sdhost.h\<close>): the controller is
  reset, the card asked for its type, identification and size, and blocks are read word by word from
  the controller's FIFO.  The object of class \<^verbatim>\<open>BCM2708SDHost\<close> is one; its members are fields of the
  machine, and the constructor leaves those it does not set as the heap had them.  A buffer is an
  address, written word by word.  \<^verbatim>\<open>__sync_synchronize\<close> orders memory accesses, which are in order here
  anyway.
\<close>

definition SH_BASE :: u32 where [reg_defs]: "SH_BASE = BCM_PERIPH_BASE_VIRT + 0x202000"
definition SH_CMD :: u32 where [reg_defs]: "SH_CMD = SH_BASE + 0x00"
definition SH_CMD_NEW_FLAG_SET :: u32 where [reg_defs]: "SH_CMD_NEW_FLAG_SET = 0x8000"
definition SH_CMD_FAIL_FLAG_SET :: u32 where [reg_defs]: "SH_CMD_FAIL_FLAG_SET = 0x4000"
definition SH_CMD_BUSY_CMD_SET :: u32 where [reg_defs]: "SH_CMD_BUSY_CMD_SET = 0x0800"
definition SH_CMD_NO_RESPONSE_SET :: u32 where [reg_defs]: "SH_CMD_NO_RESPONSE_SET = 0x0400"
definition SH_CMD_LONG_RESPONSE_SET :: u32 where [reg_defs]: "SH_CMD_LONG_RESPONSE_SET = 0x0200"
definition SH_CMD_READ_CMD_SET :: u32 where [reg_defs]: "SH_CMD_READ_CMD_SET = 0x0040"
definition SH_CMD_COMMAND_SET :: u32 where [reg_defs]: "SH_CMD_COMMAND_SET = 0x003f"
definition SH_ARG :: u32 where [reg_defs]: "SH_ARG = SH_BASE + 0x04"
definition SH_TOUT :: u32 where [reg_defs]: "SH_TOUT = SH_BASE + 0x08"
definition SH_CDIV :: u32 where [reg_defs]: "SH_CDIV = SH_BASE + 0x0c"
definition SH_RSP0 :: u32 where [reg_defs]: "SH_RSP0 = SH_BASE + 0x10"
definition SH_RSP1 :: u32 where [reg_defs]: "SH_RSP1 = SH_BASE + 0x14"
definition SH_RSP2 :: u32 where [reg_defs]: "SH_RSP2 = SH_BASE + 0x18"
definition SH_RSP3 :: u32 where [reg_defs]: "SH_RSP3 = SH_BASE + 0x1c"
definition SH_HSTS :: u32 where [reg_defs]: "SH_HSTS = SH_BASE + 0x20"
definition SH_HSTS_DATA_FLAG_SET :: u32 where [reg_defs]: "SH_HSTS_DATA_FLAG_SET = 0x01"
definition SH_VDD :: u32 where [reg_defs]: "SH_VDD = SH_BASE + 0x30"
definition SH_VDD_POWER_ON_SET :: u32 where [reg_defs]: "SH_VDD_POWER_ON_SET = 0x01"
definition SH_EDM :: u32 where [reg_defs]: "SH_EDM = SH_BASE + 0x34"
definition SH_HCFG :: u32 where [reg_defs]: "SH_HCFG = SH_BASE + 0x38"
definition SH_HCFG_SLOW_CARD_SET :: u32 where [reg_defs]: "SH_HCFG_SLOW_CARD_SET = 0x8"
definition SH_HCFG_WIDE_EXT_BUS_SET :: u32 where [reg_defs]: "SH_HCFG_WIDE_EXT_BUS_SET = 0x4"
definition SH_HCFG_WIDE_INT_BUS_SET :: u32 where [reg_defs]: "SH_HCFG_WIDE_INT_BUS_SET = 0x2"
definition SH_HBCT :: u32 where [reg_defs]: "SH_HBCT = SH_BASE + 0x3c"
definition SH_DATA :: u32 where [reg_defs]: "SH_DATA = SH_BASE + 0x40"
definition SH_HBLC :: u32 where [reg_defs]: "SH_HBLC = SH_BASE + 0x50"

definition SDEDM_WRITE_THRESHOLD_SHIFT :: nat where [reg_defs]: "SDEDM_WRITE_THRESHOLD_SHIFT = 9"
definition SDEDM_READ_THRESHOLD_SHIFT :: nat where [reg_defs]: "SDEDM_READ_THRESHOLD_SHIFT = 14"
definition SDEDM_THRESHOLD_MASK :: u32 where [reg_defs]: "SDEDM_THRESHOLD_MASK = 0x1f"
definition SAFE_READ_THRESHOLD :: u32 where [reg_defs]: "SAFE_READ_THRESHOLD = 4"
definition SAFE_WRITE_THRESHOLD :: u32 where [reg_defs]: "SAFE_WRITE_THRESHOLD = 4"
definition SDHSTS_REW_TIME_OUT :: u32 where [reg_defs]: "SDHSTS_REW_TIME_OUT = 0x80"
definition SDHSTS_CMD_TIME_OUT :: u32 where [reg_defs]: "SDHSTS_CMD_TIME_OUT = 0x40"
definition SDHSTS_CRC16_ERROR :: u32 where [reg_defs]: "SDHSTS_CRC16_ERROR = 0x20"
definition SDHSTS_CRC7_ERROR :: u32 where [reg_defs]: "SDHSTS_CRC7_ERROR = 0x10"
definition SDHSTS_FIFO_ERROR :: u32 where [reg_defs]: "SDHSTS_FIFO_ERROR = 0x08"
definition SDHSTS_TRANSFER_ERROR_MASK :: u32 where [reg_defs]:
  "SDHSTS_TRANSFER_ERROR_MASK = SDHSTS_CRC7_ERROR OR SDHSTS_CRC16_ERROR OR SDHSTS_REW_TIME_OUT OR SDHSTS_FIFO_ERROR"
definition SDHSTS_ERROR_MASK :: u32 where [reg_defs]: "SDHSTS_ERROR_MASK = SDHSTS_CMD_TIME_OUT OR SDHSTS_TRANSFER_ERROR_MASK"
definition kIdentSafeClockRate :: u32 where [reg_defs]: "kIdentSafeClockRate = 0x148"

record sdhost_mach = mach +
  block_size :: u32
  is_sdhc :: bool
  is_high_capacity :: bool
  card_ready :: bool
  ocr :: u32
  rca :: u32
  cid :: "u32 list"
  csd :: "u32 list"
  capacity_bytes :: u64
  resp :: "u32 list"          \<comment> \<open>\<^verbatim>\<open>r\<close>\<close>
  current_cmd :: u32
  sdhost :: bool              \<comment> \<open>the global pointer is set\<close>

type_synonym ('r, 'a) sd_io = "('r sdhost_mach_ext, 'a) io"

definition emmc_logf :: "string \<Rightarrow> string \<Rightarrow> arg list \<Rightarrow> ('r, unit) io" where
  "emmc_logf fn fmt xs = do { print_timestamp; printf (''[EMMC:%s]: '' @ fmt) (S fn # xs) }"

subsection \<open>Commands and responses\<close>

definition set_power :: "bool \<Rightarrow> ('r, unit) io" where
  "set_power on = wr SH_VDD (if on then SH_VDD_POWER_ON_SET else 0)"

text \<open>Waiting for the command flag to clear; \<open>t\<close> turns with a pause of 10 microseconds.\<close>

definition wait_turn :: "u32 \<Rightarrow> u32 \<Rightarrow> ('r, u32 + bool) io" where
  "wait_turn timeout t = do {
     x \<leftarrow> rd SH_CMD;
     if x AND SH_CMD_NEW_FLAG_SET \<noteq> 0 then
       if t = 0 then do { emmc_logf ''wait'' ''timed out after %dus!'' [U timeout]; return (Inr False) }
       else do { udelay 10; return (Inl (t - 1)) }
     else return (Inr True)
   }"

definition wait :: "u32 \<Rightarrow> ('r, bool) io" where
  "wait timeout = loop False (wait_turn timeout) timeout"

definition send_raw :: "u32 \<Rightarrow> u32 \<Rightarrow> ('r, bool) sd_io" where
  "send_raw command arg = do {
     _ \<leftarrow> wait 100000;
     sts \<leftarrow> rd SH_HSTS;
     when_io (sts AND SDHSTS_ERROR_MASK \<noteq> 0) (wr SH_HSTS sts);
     gset (\<lambda>s. s\<lparr>current_cmd := command AND SH_CMD_COMMAND_SET\<rparr>);
     wr SH_ARG arg;
     wr SH_CMD (command OR SH_CMD_NEW_FLAG_SET);
     return True
   }"

definition send :: "u32 \<Rightarrow> u32 \<Rightarrow> ('r, bool) sd_io" where
  "send command arg = send_raw (command AND SH_CMD_COMMAND_SET) arg"

definition send_136_resp :: "u32 \<Rightarrow> u32 \<Rightarrow> ('r, bool) sd_io" where
  "send_136_resp command arg = send_raw ((command AND SH_CMD_COMMAND_SET) OR SH_CMD_LONG_RESPONSE_SET) arg"

definition send_no_resp :: "u32 \<Rightarrow> u32 \<Rightarrow> ('r, bool) sd_io" where
  "send_no_resp command arg = send_raw ((command AND SH_CMD_COMMAND_SET) OR SH_CMD_NO_RESPONSE_SET) arg"

definition sd_pins :: "nat list" where "sd_pins = [48, 49, 50, 51, 52, 53]"

definition configure_pinmux :: "('r, unit) io" where
  "configure_pinmux = do {
     for_each sd_pins (\<lambda>n. do { _ \<leftarrow> gpio_config (of_nat n) (pinmux_code Pinmux_ALT0); return () });
     let pullBatch = foldl (\<lambda>b n. gpio_pull_set b n PullUp) gpio_pull_clear sd_pins;
     gpio_apply_batch pullBatch
   }"

definition reset :: "('r, unit) io" where
  "reset = do {
     emmc_logf ''reset'' ''resetting controller ...'' [];
     set_power False;
     wr SH_CMD 0;
     wr SH_ARG 0;
     wr SH_TOUT 0xF00000;
     wr SH_CDIV 0;
     wr SH_HSTS 0x7f8;
     wr SH_HCFG 0;
     wr SH_HBCT 0;
     wr SH_HBLC 0;
     temp \<leftarrow> rd SH_EDM;
     let temp = temp AND NOT (push_bit SDEDM_READ_THRESHOLD_SHIFT SDEDM_THRESHOLD_MASK OR
       push_bit SDEDM_WRITE_THRESHOLD_SHIFT SDEDM_THRESHOLD_MASK);
     let temp = temp OR push_bit SDEDM_READ_THRESHOLD_SHIFT SAFE_READ_THRESHOLD OR
       push_bit SDEDM_WRITE_THRESHOLD_SHIFT SAFE_WRITE_THRESHOLD;
     wr SH_EDM temp;
     udelay 300;
     set_power True;
     udelay 300
   }"

definition get_response :: "('r, unit) sd_io" where
  "get_response = do {
     r0 \<leftarrow> rd SH_RSP0; r1 \<leftarrow> rd SH_RSP1; r2 \<leftarrow> rd SH_RSP2; r3 \<leftarrow> rd SH_RSP3;
     gset (\<lambda>s. s\<lparr>resp := [r0, r1, r2, r3]\<rparr>)
   }"

definition wait_and_get_response :: "('r, bool) sd_io" where
  "wait_and_get_response = do {
     ok \<leftarrow> wait 100000;
     if \<not> ok then return False
     else do {
       get_response;
       c \<leftarrow> rd SH_CMD;
       if c AND SH_CMD_FAIL_FLAG_SET \<noteq> 0 then do {
         sts \<leftarrow> rd SH_HSTS;
         if sts AND SDHSTS_ERROR_MASK \<noteq> 0 then do {
           print_timestamp;
           sts \<leftarrow> rd SH_HSTS;
           printf ''[EMMC:%s]: ERROR: sdhost status: 0x%x'' [S ''wait_and_get_response'', U sts];
           return False
         } else do {
           print_timestamp;
           c \<leftarrow> rd SH_CMD;
           printf ''[EMMC:%s]: ERROR: unknown error, SH_CMD=0x%x'' [S ''wait_and_get_response'', U c];
           return False
         }
       } else return True
     }
   }"

subsection \<open>Identification\<close>

definition query_turn :: "u32 \<Rightarrow> ('r, unit + bool) sd_io" where
  "query_turn t = do {
     _ \<leftarrow> send MMC_APP_CMD 0;
     _ \<leftarrow> send_no_resp SD_APP_OP_COND t;
     ok \<leftarrow> wait_and_get_response;
     if \<not> ok then return (Inr False)
     else do {
       r \<leftarrow> gget resp;
       if r ! 0 AND MMC_OCR_MEM_READY \<noteq> 0 then return (Inr True)
       else do { udelay 100; return (Inl ()) }
     }
   }"

definition query_voltage_and_type :: "('r, bool) sd_io" where
  "query_voltage_and_type = do {
     _ \<leftarrow> send SD_SEND_IF_COND 0x1AA;
     _ \<leftarrow> wait_and_get_response;
     r \<leftarrow> gget resp;
     let v2 = (r ! 0 = 0x1AA);
     let t = (if v2 then MMC_OCR_3_3V_3_4V OR MMC_OCR_HCS else MMC_OCR_3_3V_3_4V);
     when_io v2 (gset (\<lambda>s. s\<lparr>is_sdhc := True\<rparr>));
     ok \<leftarrow> loop False (\<lambda>_. query_turn t) ();
     if \<not> ok then return False
     else do {
       emmc_logf ''query_voltage_and_type'' ''SD card has arrived!'' [];
       gset (\<lambda>s. s\<lparr>is_high_capacity := (resp s ! 0 AND MMC_OCR_HCS = MMC_OCR_HCS)\<rparr>);
       hc \<leftarrow> gget is_high_capacity;
       when_io hc (emmc_logf ''query_voltage_and_type'' ''This is an SDHC card!'' []);
       return True
     }
   }"

definition identify_card :: "('r, bool) sd_io" where
  "identify_card = do {
     emmc_logf ''identify_card'' ''identifying card ...'' [];
     _ \<leftarrow> send_136_resp MMC_ALL_SEND_CID 0;
     ok \<leftarrow> wait_and_get_response;
     if \<not> ok then return False
     else do {
       _ \<leftarrow> send MMC_SET_RELATIVE_ADDR 0;
       ok \<leftarrow> wait_and_get_response;
       if \<not> ok then return False
       else do {
         gset (\<lambda>s. s\<lparr>rca := SD_R6_RCA (resp s)\<rparr>);
         a \<leftarrow> gget rca;
         _ \<leftarrow> send_136_resp MMC_SEND_CID (MMC_ARG_RCA a);
         ok \<leftarrow> wait_and_get_response;
         if \<not> ok then return False
         else do {
           gset (\<lambda>s. s\<lparr>cid := resp s\<rparr>);
           a \<leftarrow> gget rca;
           _ \<leftarrow> send_136_resp MMC_SEND_CSD (MMC_ARG_RCA a);
           ok \<leftarrow> wait_and_get_response;
           if \<not> ok then return False
           else do { gset (\<lambda>s. s\<lparr>csd := resp s\<rparr>); return True }
         }
       }
     }
   }"

subsection \<open>Reading\<close>

definition fifo_turn :: "u32 \<Rightarrow> u32 \<Rightarrow> ('r, u32 + bool) io" where
  "fifo_turn timeout t = do {
     x \<leftarrow> rd SH_HSTS;
     if x AND SH_HSTS_DATA_FLAG_SET = 0 then
       if t = 0 then do {
         printf [CHR 0x0A] [];
         emmc_logf ''wait_for_fifo_data'' ''ERROR: no FIFO data, timed out after %dus!'' [U timeout];
         return (Inr False)
       } else do { udelay 10; return (Inl (t - 1)) }
     else return (Inr True)
   }"

definition wait_for_fifo_data :: "u32 \<Rightarrow> ('r, bool) io" where
  "wait_for_fifo_data timeout = loop False (fifo_turn timeout) timeout"

definition drain_fifo :: "('r, unit) io" where
  "drain_fifo = do {
     _ \<leftarrow> wait 100000;
     while_io (do { x \<leftarrow> rd SH_HSTS; return (x AND SH_HSTS_DATA_FLAG_SET \<noteq> 0) }) (do { _ \<leftarrow> rd SH_DATA; return () })
   }"

definition drain_fifo_nowait :: "('r, unit) io" where
  "drain_fifo_nowait = loop () (\<lambda>_. do {
     _ \<leftarrow> rd SH_DATA;
     hsts \<leftarrow> rd SH_HSTS;
     return (if hsts \<noteq> SH_HSTS_DATA_FLAG_SET then Inr () else Inl ())
   }) ()"

text \<open>
  One word.  \<open>Inl\<close>: go on with the next word; \<open>Inr\<close>: the loop ends (after 128 words, a time-out or an
  error).  The inner \<^verbatim>\<open>hsts_err\<close> is a new variable.
\<close>

definition read_turn :: "u32 option \<Rightarrow> nat \<Rightarrow> ('r, nat + unit) io" where
  "read_turn buf i =
     (if i < 128 then do {
        ok \<leftarrow> wait_for_fifo_data 100000;
        if \<not> ok then return (Inr ())
        else do {
          x \<leftarrow> rd SH_HSTS;
          let hsts_err = x AND SDHSTS_ERROR_MASK;
          if hsts_err \<noteq> 0 then do {
            print_timestamp;
            sts \<leftarrow> rd SH_HSTS;
            printf ''[EMMC:%s]: ERROR: transfer error on FIFO word %d: 0x%x'' [S ''real_read_block'', U (of_nat i), U sts];
            return (Inr ())
          } else do {
            data \<leftarrow> rd SH_DATA;
            (case buf of Some b \<Rightarrow> wr (b + 4 * of_nat i) data | None \<Rightarrow> return ());
            return (Inl (i + 1))
          }
        }
      } else return (Inr ()))"

definition real_read_block :: "u32 \<Rightarrow> u32 option \<Rightarrow> ('r, bool) sd_io" where
  "real_read_block sector buf = do {
     ready \<leftarrow> gget card_ready;
     when_io (\<not> ready) (panic ''card not ready'');
     hc \<leftarrow> gget is_high_capacity;
     let sector = (if hc then sector else push_bit 9 sector);
     drain_fifo;
     _ \<leftarrow> send_raw (MMC_READ_BLOCK_MULTIPLE OR SH_CMD_READ_CMD_SET) sector;
     let hsts_err = (0 :: u32);
     loop () (read_turn buf) 0;
     _ \<leftarrow> send_raw (MMC_STOP_TRANSMISSION OR SH_CMD_BUSY_CMD_SET) 0;
     if hsts_err \<noteq> 0 then do {
       print_timestamp;
       sts \<leftarrow> rd SH_HSTS;
       printf ''[EMMC:%s]: ERROR: Transfer error, status: 0x%x'' [S ''real_read_block'', U sts];
       return False
     } else return True
   }"

definition select_card :: "('r, bool) sd_io" where
  "select_card = do {
     a \<leftarrow> gget rca;
     _ \<leftarrow> send MMC_SELECT_CARD (MMC_ARG_RCA a);
     ok \<leftarrow> wait 100000;
     return ok
   }"

subsection \<open>Initialisation\<close>

definition product_name :: "u32 list \<Rightarrow> string" where
  "product_name c = map (\<lambda>b. char_of (unat b)) (takeWhile (\<lambda>b. b \<noteq> 0) (SD_CID_PNM_CPY c))"

text \<open>The product of an \<^verbatim>\<open>int\<close> and a 64-bit word extends the sign of the \<^verbatim>\<open>int\<close>.\<close>

definition v2_capacity :: "u32 list \<Rightarrow> u64" where
  "v2_capacity c = scast (SD_CSD_V2_CAPACITY c) * push_bit SD_CSD_V2_BL_LEN 1"

definition v1_capacity :: "u32 list \<Rightarrow> u64" where
  "v1_capacity c = scast (SD_CSD_CAPACITY c) * push_bit (unat (SD_CSD_READ_BL_LEN c)) 1"

text \<open>From \<^verbatim>\<open>BlockLen\<close> on: data mode, for a block length and a clock divider.\<close>

definition data_mode :: "string \<Rightarrow> u64 \<Rightarrow> u32 \<Rightarrow> ('r, bool) sd_io" where
  "data_mode pnm block_length clock_div = do {
     printf ''    BlockLen: 0x%x'' [U (ucast block_length)];
     ok \<leftarrow> select_card;
     if \<not> ok then return False
     else do {
       c \<leftarrow> gget csd;
       ok \<leftarrow> (if SD_CSD_CSDVER c = SD_CSD_CSDVER_1_0 then do {
           _ \<leftarrow> send MMC_SET_BLOCKLEN 512;
           ok \<leftarrow> wait 100000;
           when_io (\<not> ok) (emmc_logf ''init_card'' ''ERROR: Failed to set block length!'' []);
           return ok
         } else return True);
       if \<not> ok then return False
       else do {
         gset (\<lambda>s. s\<lparr>block_size := 512\<rparr>);
         bytes \<leftarrow> gget capacity_bytes;
         hc \<leftarrow> gget is_high_capacity;
         emmc_logf ''init_card'' ''Card initialization complete: %s %dMB SD%s Card''
           [S pnm, U (ucast (drop_bit 20 bytes)), S (if hc then ''HC'' else [])];
         when_io (clock_div \<noteq> 0) (do {
           emmc_logf ''init_card'' ''Identification complete, changing clock to %dMHz for data mode ...'' [U (250 div clock_div)];
           wr SH_CDIV (clock_div - 2)
         });
         return True
       }
     }
   }"

definition init_card :: "('r, bool) sd_io" where
  "init_card = do {
     _ \<leftarrow> send_no_resp MMC_GO_IDLE_STATE 0;
     ok \<leftarrow> query_voltage_and_type;
     if \<not> ok then return False
     else do {
       ok \<leftarrow> identify_card;
       if \<not> ok then return False
       else do {
         id \<leftarrow> gget cid;
         let pnm = product_name id;
         printf ''    Product : %s'' [S pnm];
         c \<leftarrow> gget csd;
         if SD_CSD_CSDVER c = SD_CSD_CSDVER_2_0 then do {
           printf ''    CSD     : Ver 2.0'' [];
           printf ''    Capacity: %d'' [I (sint (SD_CSD_V2_CAPACITY c))];
           printf ''    Size    : %d'' [I (sint (SD_CSD_V2_C_SIZE c))];
           gset (\<lambda>s. s\<lparr>capacity_bytes := v2_capacity c\<rparr>);
           data_mode pnm (push_bit SD_CSD_V2_BL_LEN 1) 5
         } else if SD_CSD_CSDVER c = SD_CSD_CSDVER_1_0 then do {
           printf ''    CSD     : Ver 1.0'' [];
           printf ''    Capacity: %d'' [I (sint (SD_CSD_CAPACITY c))];
           printf ''    Size    : %d'' [I (sint (SD_CSD_C_SIZE c))];
           gset (\<lambda>s. s\<lparr>capacity_bytes := v1_capacity c\<rparr>);
           data_mode pnm (push_bit (unat (SD_CSD_READ_BL_LEN c)) 1) 10
         } else do {
           printf ''ERROR: Unknown CSD version 0x%x!'' [I (sint (SD_CSD_CSDVER c))];
           return False
         }
       }
     }
   }"

definition flush_cycle :: "nat \<Rightarrow> ('r, unit) sd_io" where
  "flush_cycle i = do {
     ok \<leftarrow> real_read_block 0 None;
     when_io (\<not> ok) (panic ''fifo flush cycle failed'')
   }"

definition restart_controller :: "('r, unit) sd_io" where
  "restart_controller = do {
     gset (\<lambda>s. s\<lparr>is_sdhc := False\<rparr>);
     print_timestamp;
     hcfg \<leftarrow> rd SH_HCFG; cdiv \<leftarrow> rd SH_CDIV; edm \<leftarrow> rd SH_EDM; hsts \<leftarrow> rd SH_HSTS;
     printf ''[EMMC:%s]: hcfg 0x%X, cdiv 0x%X, edm 0x%X, hsts 0x%X''
       [S ''restart_controller'', U hcfg, U cdiv, U edm, U hsts];
     emmc_logf ''restart_controller'' ''Restarting the eMMC controller ...'' [];
     configure_pinmux;
     reset;
     reg_and SH_HCFG (NOT SH_HCFG_WIDE_EXT_BUS_SET);
     wr SH_HCFG (SH_HCFG_SLOW_CARD_SET OR SH_HCFG_WIDE_INT_BUS_SET);
     wr SH_CDIV kIdentSafeClockRate;
     udelay 300;
     ok \<leftarrow> init_card;
     if ok then do {
       gset (\<lambda>s. s\<lparr>card_ready := True\<rparr>);
       for_each [0..<3] flush_cycle
     } else panic ''failed to reinitialize the eMMC controller''
   }"

definition stop_sdhost :: "('r, unit) sd_io" where
  "stop_sdhost = do {
     ready \<leftarrow> gget card_ready;
     when_io ready (do {
       emmc_logf ''stop'' ''flushing fifo ...'' [];
       drain_fifo_nowait;
       emmc_logf ''stop'' ''asking card to enter idle state ...'' [];
       wr SH_CDIV kIdentSafeClockRate;
       udelay 150;
       _ \<leftarrow> send_no_resp MMC_GO_IDLE_STATE 0;
       udelay 500
     });
     emmc_logf ''stop'' ''stopping sdhost controller driver ...'' [];
     wr SH_CMD 0;
     wr SH_ARG 0;
     wr SH_TOUT 0xA00000;
     wr SH_CDIV 0x1FB;
     emmc_logf ''stop'' ''powering down controller ...'' [];
     wr SH_VDD 0;
     wr SH_HCFG 0;
     wr SH_HBCT 0x400;
     wr SH_HBLC 0;
     wr SH_HSTS 0x7F8;
     emmc_logf ''stop'' ''resetting state machine ...'' [];
     wr SH_CMD 0;
     wr SH_ARG 0
   }"

definition BCM2708SDHost :: "('r, unit) sd_io" where
  "BCM2708SDHost = do {
     restart_controller;
     emmc_logf ''BCM2708SDHost'' ''eMMC driver sucessfully started!'' []
   }"

subsection \<open>The block device\<close>

definition get_block_size :: "('r, u32) sd_io" where
  "get_block_size = gget block_size"

text \<open>The loop over the blocks; the answer is \<open>-1\<close> after a failed read, else the number of bytes.\<close>

primrec read_blocks :: "nat \<Rightarrow> u32 \<Rightarrow> u32 \<Rightarrow> nat \<Rightarrow> ('r, bool) sd_io" where
  "read_blocks 0 buf block i = return True"
| "read_blocks (Suc n) buf block i = do {
     sz \<leftarrow> get_block_size;
     let dest = buf + sz * of_nat i;
     ok \<leftarrow> real_read_block (block + of_nat i) (Some dest);
     if \<not> ok then return False else read_blocks n buf block (i + 1)
   }"

definition sdhost_read_block_wrap :: "u32 \<Rightarrow> u32 \<Rightarrow> u32 \<Rightarrow> ('r, int) sd_io" where
  "sdhost_read_block_wrap buf block count = do {
     ok \<leftarrow> read_blocks (unat count) buf block 0;
     if \<not> ok then return (- 1)
     else do { sz \<leftarrow> get_block_size; return (sint (sz * count)) }
   }"

text \<open>\<open>init_bdev\<close>, \<open>register\<close>: \<^verbatim>\<open>bio_initialize_bdev\<close> (block size, number of blocks) and
\<^verbatim>\<open>bio_register_device\<close>.\<close>

definition rpi_sdhost_init :: "(u32 \<Rightarrow> u64 \<Rightarrow> ('r, unit) sd_io) \<Rightarrow> ('r, unit) sd_io \<Rightarrow> ('r, unit) sd_io" where
  "rpi_sdhost_init init_bdev register = do {
     there \<leftarrow> gget sdhost;
     when_io (\<not> there) (do {
       BCM2708SDHost;
       gset (\<lambda>s. s\<lparr>sdhost := True\<rparr>);
       blocksize \<leftarrow> get_block_size;
       printf ''a'' [];
       bytes \<leftarrow> gget capacity_bytes;
       let blocks = bytes div ucast blocksize;
       printf ''b'' [];
       init_bdev blocksize blocks;
       printf ''c'' [];
       printf ''d'' [];
       register;
       printf ''e'' []
     })
   }"

definition cmd_sdhost_init :: "(u32 \<Rightarrow> u64 \<Rightarrow> ('r, unit) sd_io) \<Rightarrow> ('r, unit) sd_io \<Rightarrow> ('r, int) sd_io" where
  "cmd_sdhost_init init_bdev register = do {
     rpi_sdhost_init init_bdev register;
     return 0
   }"

subsection \<open>Library: the size of a card\<close>

lemma bitfield_less:
  assumes "0 \<le> len" "len < 32"
  shows "unat (bitfield src start len) < 2 ^ nat len"
proof -
  have "len mod 32 = len" using assms by simp
  then have "(if len mod 32 \<noteq> 0 then drop_bit (nat (32 - len mod 32)) (- 1) else - 1 :: u32) = mask (nat len)" if "0 < len"
    using assms that by (intro bit_word_eqI) (auto simp: bit_simps)
  then have "bitfield src start len = bitfield src start len AND mask (nat len)"
    using assms by (cases "0 < len") (auto simp: bitfield_def Let_def ac_simps bitfield_loop.simps)
  then have "bitfield src start len = take_bit (nat len) (bitfield src start len)" by (simp add: take_bit_eq_mask)
  then show ?thesis by (metis take_bit_nat_less_exp unsigned_take_bit_eq)
qed

lemma sint_large: "2 ^ 31 \<le> uint w \<Longrightarrow> sint w = uint w - 2 ^ 32" for w :: u32
proof -
  assume a: "2 ^ 31 \<le> uint w"
  have b: "uint w < 2 ^ 32" using uint_lt2p [of w] by simp
  have "signed_take_bit 31 (uint w) = signed_take_bit 31 (uint w - 2 ^ 32)"
    unfolding signed_take_bit_eq_iff_take_bit_eq by (simp add: take_bit_eq_mod)
  also have "\<dots> = uint w - 2 ^ 32" using a b by (intro signed_take_bit_int_eq_self) simp_all
  finally show ?thesis by (simp add: sint_uint)
qed

lemma uint_scast_times: "uint (scast (x :: u32) * push_bit n (1 :: u64)) = sint x * 2 ^ n mod 2 ^ 64"
proof -
  have "push_bit n (1 :: u64) = word_of_int (2 ^ n)" by (simp add: push_bit_eq_mult)
  then have e: "scast x * push_bit n (1 :: u64) = word_of_int (sint x * 2 ^ n)"
    by (simp only: scast_eq wi_hom_mult)
  show ?thesis unfolding e uint_word_of_int by simp
qed

lemma uint_less_nat: "unat w < n \<Longrightarrow> uint w < int n" for w :: u32
  by (metis of_nat_less_iff of_nat_unat uint_nat)

lemma v2_capacity_word:
  "uint (SD_CSD_V2_CAPACITY c) = (int (unat (SD_CSD_V2_C_SIZE c)) + 1) * 1024 mod 2 ^ 32"
  "unat (SD_CSD_V2_C_SIZE c) < 2 ^ 22"
proof -
  show s: "unat (SD_CSD_V2_C_SIZE c) < 2 ^ 22" using bitfield_less [of 22 c 48] by (simp add: SD_CSD_V2_C_SIZE_def)
  have e: "SD_CSD_V2_CAPACITY c = word_of_int ((uint (SD_CSD_V2_C_SIZE c) + 1) * 1024)"
    by (simp add: SD_CSD_V2_CAPACITY_def push_bit_eq_mult)
  have i: "int (unat w) = uint w" for w :: u32 by simp
  show "uint (SD_CSD_V2_CAPACITY c) = (int (unat (SD_CSD_V2_C_SIZE c)) + 1) * 1024 mod 2 ^ 32"
    unfolding e uint_word_of_int i by simp
qed

lemma v1_capacity_word:
  "uint (SD_CSD_CAPACITY c) = (int (unat (SD_CSD_C_SIZE c)) + 1) * 2 ^ (unat (SD_CSD_C_SIZE_MULT c) + 2)"
  "uint (SD_CSD_CAPACITY c) \<le> 2 ^ 21"
proof -
  have s: "unat (SD_CSD_C_SIZE c) < 2 ^ 12" using bitfield_less [of 12 c 62] by (simp add: SD_CSD_C_SIZE_def)
  have m: "unat (SD_CSD_C_SIZE_MULT c) < 2 ^ 3" using bitfield_less [of 3 c 47] by (simp add: SD_CSD_C_SIZE_MULT_def)
  have m2: "unat (SD_CSD_C_SIZE_MULT c + 2) = unat (SD_CSD_C_SIZE_MULT c) + 2"
    using m by (simp add: unat_word_ariths)
  have e: "SD_CSD_CAPACITY c = word_of_int ((uint (SD_CSD_C_SIZE c) + 1) * 2 ^ (unat (SD_CSD_C_SIZE_MULT c) + 2))"
    by (simp add: SD_CSD_CAPACITY_def push_bit_eq_mult m2)
  have i: "int (unat w) = uint w" for w :: u32 by simp
  have s': "uint (SD_CSD_C_SIZE c) + 1 \<le> 2 ^ 12" using uint_less_nat [OF s] by simp
  have p: "(2 :: int) ^ (unat (SD_CSD_C_SIZE_MULT c) + 2) \<le> 2 ^ 9" using m by (intro power_increasing) simp_all
  have "(uint (SD_CSD_C_SIZE c) + 1) * 2 ^ (unat (SD_CSD_C_SIZE_MULT c) + 2) \<le> 2 ^ 12 * 2 ^ 9"
    using s' p by (intro mult_mono) simp_all
  then have b: "(uint (SD_CSD_C_SIZE c) + 1) * 2 ^ (unat (SD_CSD_C_SIZE_MULT c) + 2) \<le> 2 ^ 21" by simp
  have n: "0 \<le> (uint (SD_CSD_C_SIZE c) + 1) * 2 ^ (unat (SD_CSD_C_SIZE_MULT c) + 2)" by simp
  from b n show u: "uint (SD_CSD_CAPACITY c) = (int (unat (SD_CSD_C_SIZE c)) + 1) * 2 ^ (unat (SD_CSD_C_SIZE_MULT c) + 2)"
    unfolding e uint_word_of_int i by (intro mod_pos_pos_trivial) (auto intro: order_le_less_trans)
  show "uint (SD_CSD_CAPACITY c) \<le> 2 ^ 21" unfolding u i by (rule b)
qed

lemma v1_capacity_value:
  "unat (v1_capacity c) = (unat (SD_CSD_C_SIZE c) + 1) * 2 ^ (unat (SD_CSD_C_SIZE_MULT c) + 2) * 2 ^ unat (SD_CSD_READ_BL_LEN c)"
proof -
  let ?n = "int (unat (SD_CSD_C_SIZE c)) + 1" and ?m = "unat (SD_CSD_C_SIZE_MULT c) + 2" and ?b = "unat (SD_CSD_READ_BL_LEN c)"
  have i: "int (unat w) = uint w" for w :: u64 by simp
  have b: "?b < 16" using bitfield_less [of 4 c 80] by (simp add: SD_CSD_READ_BL_LEN_def)
  have "sint (SD_CSD_CAPACITY c) = uint (SD_CSD_CAPACITY c)" using v1_capacity_word(2) [of c] by (intro sint_small) simp
  then have e: "uint (v1_capacity c) = uint (SD_CSD_CAPACITY c) * 2 ^ ?b mod 2 ^ 64"
    unfolding v1_capacity_def uint_scast_times by simp
  have "(2 :: int) ^ ?b \<le> 2 ^ 15" using b by (intro power_increasing) simp_all
  then have "uint (SD_CSD_CAPACITY c) * 2 ^ ?b \<le> 2 ^ 21 * 2 ^ 15" using v1_capacity_word(2) [of c] by (intro mult_mono) simp_all
  then have "uint (SD_CSD_CAPACITY c) * 2 ^ ?b mod 2 ^ 64 = uint (SD_CSD_CAPACITY c) * 2 ^ ?b"
    by (intro mod_pos_pos_trivial) simp_all
  then have "int (unat (v1_capacity c)) = ?n * 2 ^ ?m * 2 ^ ?b" using e v1_capacity_word(1) [of c] unfolding i by simp
  also have "\<dots> = int ((unat (SD_CSD_C_SIZE c) + 1) * 2 ^ ?m * 2 ^ ?b)" by (simp only: of_nat_mult of_nat_power of_nat_add) simp
  finally show ?thesis by (simp only: of_nat_eq_iff)
qed

lemma v2_capacity_value:
  "int (unat (v2_capacity c)) =
     (if unat (SD_CSD_V2_C_SIZE c) + 1 < 2 ^ 21 then (int (unat (SD_CSD_V2_C_SIZE c)) + 1) * 1024 * 512
      else ((int (unat (SD_CSD_V2_C_SIZE c)) + 1) * 1024 * 512 - 2 ^ 41) mod 2 ^ 64)"
proof -
  let ?n = "int (unat (SD_CSD_V2_C_SIZE c)) + 1"
  have i: "int (unat w) = uint w" for w :: u64 by simp
  note w = v2_capacity_word [of c]
  have e: "uint (v2_capacity c) = sint (SD_CSD_V2_CAPACITY c) * 512 mod 2 ^ 64"
    unfolding v2_capacity_def uint_scast_times by (simp add: SD_CSD_V2_BL_LEN_def)
  have small: "unat (SD_CSD_V2_C_SIZE c) + 1 < 2 ^ 21 \<longleftrightarrow> ?n < 2 ^ 21"
    using of_nat_less_iff [of "unat (SD_CSD_V2_C_SIZE c) + 1" "2 ^ 21", where 'a = int]
    by (simp only: of_nat_add of_nat_1 of_nat_power of_nat_numeral)
  have n: "0 < ?n" "?n \<le> 2 ^ 22" using uint_less_nat [OF w(2)] by simp_all
  show "int (unat (v2_capacity c)) =
     (if unat (SD_CSD_V2_C_SIZE c) + 1 < 2 ^ 21 then ?n * 1024 * 512 else (?n * 1024 * 512 - 2 ^ 41) mod 2 ^ 64)"
  proof (cases "?n < 2 ^ 21")
    case True
    then have u: "uint (SD_CSD_V2_CAPACITY c) = ?n * 1024" using w(1) n(1) by simp
    with True have "sint (SD_CSD_V2_CAPACITY c) = ?n * 1024" by (subst sint_small) simp_all
    then have "uint (v2_capacity c) = ?n * 1024 * 512 mod 2 ^ 64" using e by simp
    also have "\<dots> = ?n * 1024 * 512" using True n(1) by (intro mod_pos_pos_trivial) simp_all
    finally show ?thesis using True unfolding i small by simp
  next
    case False
    have "sint (SD_CSD_V2_CAPACITY c) = ?n * 1024 - 2 ^ 32"
    proof (cases "?n = 2 ^ 22")
      case True
      then have "uint (SD_CSD_V2_CAPACITY c) = 0" using w(1) by simp
      then show ?thesis using True by (subst sint_small) simp_all
    next
      case eq: False
      then have "uint (SD_CSD_V2_CAPACITY c) = ?n * 1024" using w(1) n by simp
      with False show ?thesis by (subst sint_large) simp_all
    qed
    then have "sint (SD_CSD_V2_CAPACITY c) * 512 = ?n * 1024 * 512 - 2 ^ 41" by simp
    then have "uint (v2_capacity c) = (?n * 1024 * 512 - 2 ^ 41) mod 2 ^ 64" using e by (simp only:)
    with False show ?thesis unfolding i small by simp
  qed
qed

text \<open>C21.  The size of a card.  For a card of version 1 it is the size of the specification; for one of
version 2 it is if the card has less than 1 TB, and from there on it is the size less 2 TB, modulo
\<open>2\<^sup>6\<^sup>4\<close>, since the number of blocks is computed in a signed word.\<close>

theorem sd_card_size:
  "unat (v1_capacity c) = (unat (SD_CSD_C_SIZE c) + 1) * 2 ^ (unat (SD_CSD_C_SIZE_MULT c) + 2) * 2 ^ unat (SD_CSD_READ_BL_LEN c) \<and>
   int (unat (v2_capacity c)) =
     (if unat (SD_CSD_V2_C_SIZE c) + 1 < 2 ^ 21 then (int (unat (SD_CSD_V2_C_SIZE c)) + 1) * 1024 * 512
      else ((int (unat (SD_CSD_V2_C_SIZE c)) + 1) * 1024 * 512 - 2 ^ 41) mod 2 ^ 64)"
  by (rule conjI [OF v1_capacity_value v2_capacity_value])

subsection \<open>Library: commands and the data phase\<close>

lemma emmc_logf_rules [inert_intros, emit_intros]:
  "inert (emmc_logf fn f xs)"
  "(\<And>a. R (Rd a)) \<Longrightarrow> (\<And>f xs. R (Print f xs)) \<Longrightarrow> effects R (emmc_logf fn f xs)"
  unfolding emmc_logf_def by (intro inert_intros emit_intros; simp)+

lemma wait_quiet: "effects quiet (wait n)" "effects quiet (wait_for_fifo_data n)"
  unfolding wait_def wait_turn_def wait_for_fifo_data_def fifo_turn_def udelay_def Let_def
  by (intro emit_intros; simp)+

lemma wait_inert [inert_intros]: "inert (wait n)" "inert (wait_for_fifo_data n)" "inert drain_fifo"
  unfolding wait_def wait_for_fifo_data_def drain_fifo_def by (intro inert_intros)+

lemma drain_fifo_quiet: "effects quiet drain_fifo"
  unfolding drain_fifo_def by (intro emit_intros wait_quiet) simp_all

lemma send_raw_inert [inert_intros]: "inert (send_raw c a)"
  unfolding send_raw_def by (intro inert_intros)

text \<open>The registers a command may write.\<close>

definition ctl :: "u32 \<Rightarrow> bool" where
  "ctl a \<longleftrightarrow> a \<in> {SH_HSTS, SH_ARG, SH_CMD}"

lemma send_raw_sends:
  assumes "running s" "run_state (send_raw c arg) s = (r, s')" "running s'"
  obtains es where "dev s' = dev s" "bus s' = bus s @ es" "list_all (avoids (\<lambda>a. \<not> ctl a)) es"
    "last_write SH_ARG es = Some arg" "last_write SH_CMD es = Some (c OR SH_CMD_NEW_FLAG_SET)" "r"
proof -
  let ?rest = "do {
     sts \<leftarrow> rd SH_HSTS;
     when_io (sts AND SDHSTS_ERROR_MASK \<noteq> 0) (wr SH_HSTS sts);
     gset (\<lambda>s. s\<lparr>current_cmd := c AND SH_CMD_COMMAND_SET\<rparr>);
     wr SH_ARG arg;
     wr SH_CMD (c OR SH_CMD_NEW_FLAG_SET);
     return True }"
  obtain x s1 where 1: "run_state (wait 100000) s = (x, s1)" "running s1" "run_state ?rest s1 = (r, s')"
    by (rule inert_running [OF _ assms(2) [unfolded send_raw_def] assms(3)]) (intro inert_intros)
  obtain es where es: "dev s1 = dev s" "bus s1 = bus s @ es" "list_all quiet es"
    by (rule effects_run [OF wait_quiet(1) 1(1)])
  have q: "list_all (avoids (\<lambda>a. \<not> ctl a)) es" using es(3) by (simp add: list_all_iff avoids_quiet)
  have ne: "SH_ARG \<noteq> SH_CMD" "SH_CMD \<noteq> SH_ARG" by (simp_all add: reg_defs)
  have dev: "dev (s\<lparr>current_cmd := v\<rparr>) = dev s" "bus (s\<lparr>current_cmd := v\<rparr>) = bus s" for v and s :: "'a sdhost_mach_scheme"
    by simp_all
  show thesis
  proof (cases "cur s1 SH_HSTS AND SDHSTS_ERROR_MASK \<noteq> 0")
    case True
    then show thesis
      using that [of "es @ [Rd SH_HSTS, Wr SH_HSTS (cur s1 SH_HSTS), Wr SH_ARG arg, Wr SH_CMD (c OR SH_CMD_NEW_FLAG_SET)]"]
        1(2,3) es(1,2) q ne by (auto simp: ctl_def log_def)
  next
    case False
    then show thesis
      using that [of "es @ [Rd SH_HSTS, Wr SH_ARG arg, Wr SH_CMD (c OR SH_CMD_NEW_FLAG_SET)]"]
        1(2,3) es(1,2) q ne by (auto simp: ctl_def log_def)
  qed
qed

text \<open>
  The data phase from the history \<open>h\<close>: each word is read from the FIFO after a status without an
  error, and stored at the next place of the buffer.
\<close>

definition store :: "u32 option \<Rightarrow> nat \<Rightarrow> u32 \<Rightarrow> event list" where
  "store buf i v = (case buf of Some b \<Rightarrow> [Wr (b + 4 * of_nat i) v] | None \<Rightarrow> [])"

inductive reading :: "device \<Rightarrow> u32 option \<Rightarrow> event list \<Rightarrow> u32 list \<Rightarrow> event list \<Rightarrow> bool" for d buf h where
  reading_start: "reading d buf h [] h"
| reading_word: "reading d buf h ws h' \<Longrightarrow> list_all quiet w \<Longrightarrow> d (h' @ w) SH_HSTS AND SDHSTS_ERROR_MASK = 0 \<Longrightarrow>
    v = d (h' @ w @ [Rd SH_HSTS]) SH_DATA \<Longrightarrow>
    reading d buf h (ws @ [v]) (h' @ w @ [Rd SH_HSTS, Rd SH_DATA] @ store buf (length ws) v)"

definition stores :: "u32 option \<Rightarrow> u32 list \<Rightarrow> (u32 \<times> u32) list" where
  "stores buf ws = (case buf of Some b \<Rightarrow> map (\<lambda>i. (b + 4 * of_nat i, ws ! i)) [0..<length ws] | None \<Rightarrow> [])"

lemma reading_stores: "reading d buf h ws h' \<Longrightarrow> writes h' = writes h @ stores buf ws"
proof (induction rule: reading.induct)
  case (reading_word ws h' w v)
  have "map (\<lambda>i. (b + 4 * of_nat i, (ws @ [v]) ! i)) [0..<length ws] = map (\<lambda>i. (b + 4 * of_nat i, ws ! i)) [0..<length ws]" for b :: u32
    by (simp add: nth_append)
  then show ?case
    using reading_word by (simp add: writes_quiet store_def stores_def nth_append split: option.split)
qed (simp add: stores_def split: option.split)

text \<open>Why the data phase ends: all words are there, or an error or no data was seen.\<close>

definition read_stops :: "device \<Rightarrow> event list \<Rightarrow> nat \<Rightarrow> bool" where
  "read_stops d h n \<longleftrightarrow> n = 128 \<or> (\<exists>w. list_all quiet w \<and>
     (d (h @ w) SH_HSTS AND SDHSTS_ERROR_MASK \<noteq> 0 \<or> d (h @ w) SH_HSTS AND SH_HSTS_DATA_FLAG_SET = 0))"

lemma no_fifo_data:
  fixes s :: "'r mach_scheme"
  assumes "running s" "run_state (wait_for_fifo_data n) s = (False, s')" "running s'"
  shows "\<exists>w. list_all quiet w \<and> dev s (bus s @ w) SH_HSTS AND SH_HSTS_DATA_FLAG_SET = 0"
proof -
  let ?P = "\<lambda>t (s1 :: 'r mach_scheme). dev s1 = dev s \<and> (\<exists>w. bus s1 = bus s @ w \<and> list_all quiet w)"
  have q: "effects quiet (fifo_turn n t :: ('r, u32 + bool) io)" for t
    unfolding fifo_turn_def udelay_def Let_def by (intro emit_intros; simp)
  have turn: "?P x' s1" if p: "?P x t" and r: "run_state (fifo_turn n x) t = (Inl x', s1)" for x t x' s1
  proof -
    obtain es where "dev s1 = dev t" "bus s1 = bus t @ es" "list_all quiet es"
      by (rule effects_run [OF q r])
    with p show ?thesis by fastforce
  qed
  have start: "?P n s" by (auto intro: exI [of _ "[]"])
  have "\<exists>x t. ?P x t \<and> running t \<and> run_state (fifo_turn n x) t = (Inr False, s')"
    by (rule loop_last [where P = ?P, OF assms(1) assms(2) [unfolded wait_for_fifo_data_def] assms(3) start]) (rule turn)
  then obtain x t where t: "?P x t" "running t" "run_state (fifo_turn n x) t = (Inr False, s')" by blast
  then have "cur t SH_HSTS AND SH_HSTS_DATA_FLAG_SET = 0"
    by (auto simp: fifo_turn_def split: if_splits prod.splits)
  with t(1) show ?thesis by (auto simp: cur_def)
qed

lemma read_turn_word:
  assumes "running t" "run_state (read_turn buf i) t = (Inl i', t')" "running t'"
  shows "i < 128 \<and> i' = i + 1 \<and> dev t' = dev t \<and> (\<exists>w v. list_all quiet w \<and>
     bus t' = bus t @ w @ [Rd SH_HSTS, Rd SH_DATA] @ store buf i v \<and>
     dev t (bus t @ w) SH_HSTS AND SDHSTS_ERROR_MASK = 0 \<and> v = dev t (bus t @ w @ [Rd SH_HSTS]) SH_DATA)"
proof -
  obtain ok t1 where w: "run_state (wait_for_fifo_data 100000) t = (ok, t1)" by fastforce
  obtain es where es: "dev t1 = dev t" "bus t1 = bus t @ es" "list_all quiet es"
    by (rule effects_run [OF wait_quiet(2) w])
  have i: "i < 128" using assms(2) by (auto simp: read_turn_def split: if_splits)
  have r: "running t1"
    using assms(2,3) i w by (auto simp: read_turn_def print_timestamp_def split: if_splits option.splits)
  have "ok" "cur t1 SH_HSTS AND SDHSTS_ERROR_MASK = 0" "i' = i + 1"
    "t' = log ([Rd SH_HSTS, Rd SH_DATA] @ store buf i (cur (log [Rd SH_HSTS] t1) SH_DATA)) t1"
    using assms(2) i w r by (auto simp: read_turn_def store_def print_timestamp_def split: if_splits option.splits)
  with i es show ?thesis
    by (intro conjI exI [of _ es] exI [of _ "cur (log [Rd SH_HSTS] t1) SH_DATA"]) (simp_all add: cur_def)
qed

lemma read_turn_end:
  assumes "running t" "run_state (read_turn buf i) t = (Inr (), t')" "running t'" "i \<le> 128"
  shows "dev t' = dev t \<and> read_stops (dev t) (bus t) i \<and> (\<exists>w. list_all quiet w \<and> bus t' = bus t @ w)"
proof (cases "i < 128")
  case False
  then show ?thesis using assms by (auto simp: read_turn_def read_stops_def intro: exI [of _ "[]"])
next
  case True
  obtain ok t1 where w: "run_state (wait_for_fifo_data 100000) t = (ok, t1)" by fastforce
  obtain es where es: "dev t1 = dev t" "bus t1 = bus t @ es" "list_all quiet es"
    by (rule effects_run [OF wait_quiet(2) w])
  have r: "running t1"
    using assms(2,3) True w by (auto simp: read_turn_def print_timestamp_def split: if_splits option.splits)
  show ?thesis
  proof (cases ok)
    case False
    then have "t' = t1" using assms(2) True w by (simp add: read_turn_def)
    moreover have "read_stops (dev t) (bus t) i"
      using no_fifo_data [OF assms(1) w [unfolded False [THEN eq_False [THEN iffD2]]] r] by (auto simp: read_stops_def)
    ultimately show ?thesis using es by auto
  next
    case ok: True
    then have e: "cur t1 SH_HSTS AND SDHSTS_ERROR_MASK \<noteq> 0" and "\<exists>l. t' = log l t1 \<and> list_all quiet l"
      using assms(2) True w r by (auto simp: read_turn_def print_timestamp_def split: if_splits option.splits)
    then obtain l where "t' = log l t1" "list_all quiet l" by blast
    moreover have "read_stops (dev t) (bus t) i"
      using e es by (auto simp: read_stops_def cur_def)
    ultimately show ?thesis using es by auto
  qed
qed

lemma read_data:
  fixes s :: "'r mach_scheme"
  assumes "running s" "run_state (loop () (read_turn buf) 0) s = ((), s')" "running s'"
  obtains ws h' w where "reading (dev s) buf (bus s) ws h'" "length ws \<le> 128" "read_stops (dev s) h' (length ws)"
    "bus s' = h' @ w" "list_all quiet w" "dev s' = dev s"
proof -
  let ?P = "\<lambda>i (t :: 'r mach_scheme). dev t = dev s \<and> i \<le> 128 \<and> (\<exists>ws. length ws = i \<and> reading (dev s) buf (bus s) ws (bus t))"
  have turn: "?P i' t'" if p: "?P i t" and r: "running t" and run: "run_state (read_turn buf i) t = (Inl i', t')" and r': "running t'"
    for i t i' t'
  proof -
    obtain ws where ws: "length ws = i" "reading (dev s) buf (bus s) ws (bus t)" using p by blast
    from read_turn_word [OF r run r'] obtain w v where t: "i < 128" "i' = i + 1" "dev t' = dev t" "list_all quiet w"
      "bus t' = bus t @ w @ [Rd SH_HSTS, Rd SH_DATA] @ store buf i v"
      "dev t (bus t @ w) SH_HSTS AND SDHSTS_ERROR_MASK = 0" "v = dev t (bus t @ w @ [Rd SH_HSTS]) SH_DATA" by blast
    have "reading (dev s) buf (bus s) (ws @ [v]) (bus t')"
      unfolding t(5) ws(1) [symmetric] using t p by (intro reading_word ws(2)) simp_all
    then show ?thesis using t(1-3) p ws(1) by (intro conjI exI [of _ "ws @ [v]"]) simp_all
  qed
  have start: "?P 0 s" by (auto intro: reading_start)
  have "\<exists>i t. ?P i t \<and> running t \<and> run_state (read_turn buf i) t = (Inr (), s')"
    by (rule loop_last [where P = ?P, OF assms(1-3) start]) (rule turn)
  then obtain i t ws where t: "dev t = dev s" "length ws \<le> 128" "reading (dev s) buf (bus s) ws (bus t)" "i = length ws"
    "running t" "run_state (read_turn buf i) t = (Inr (), s')" by blast
  from read_turn_end [OF t(5,6) assms(3)] t(1,2,4) obtain w where
    "dev s' = dev s" "read_stops (dev s) (bus t) (length ws)" "list_all quiet w" "bus s' = bus t @ w" by auto
  with t(2,3) show thesis using that by blast
qed

lemma read_loop_effects_inert [inert_intros]: "inert (real_read_block sector buf)"
  unfolding real_read_block_def Let_def by (intro inert_intros)

subsection \<open>Library: what the set-up leaves\<close>

lemma sd_keeps [keep_intros]:
  assumes "steady P"
  shows "keeps P print_timestamp" "keeps P (udelay n)" "keeps P (emmc_logf fn f xs)" "keeps P (wait n)" "keeps P (wait_for_fifo_data n)"
    "keeps P drain_fifo" "keeps P (poll a c)" "keeps P configure_pinmux" "keeps P reset"
  using assms
  unfolding print_timestamp_def udelay_def emmc_logf_def wait_def wait_turn_def wait_for_fifo_data_def fifo_turn_def drain_fifo_def
    while_io_def poll_def configure_pinmux_def gpio_config_def gpio_apply_batch_def apply_mode_def reset_def set_power_def Let_def
  by (intro keep_intros; simp)+

text \<open>What no command changes.\<close>

definition card_data :: "'r sdhost_mach_scheme \<Rightarrow> bool \<times> u32 \<times> u32 list \<times> u64 \<times> bool" where
  "card_data s = (card_ready s, block_size s, csd s, capacity_bytes s, sdhost s)"

lemma card_data_steady: "steady (\<lambda>s. P (card_data s))"
  by (simp add: steady_def card_data_def log_def)

lemma send_raw_keeps: "keeps (\<lambda>s. P (card_data s)) (send_raw c a)"
  unfolding send_raw_def by (intro keep_intros card_data_steady) (simp add: card_data_def)

lemma send_keeps [keep_intros]:
  "keeps (\<lambda>s. P (card_data s)) (send c a)" "keeps (\<lambda>s. P (card_data s)) (send_136_resp c a)" "keeps (\<lambda>s. P (card_data s)) (send_no_resp c a)"
  unfolding send_def send_136_resp_def send_no_resp_def by (rule send_raw_keeps)+

lemma real_read_keeps: "keeps (\<lambda>s. P (card_data s)) (real_read_block sector buf)"
  unfolding real_read_block_def read_turn_def print_timestamp_def Let_def
  by (intro keep_intros card_data_steady send_raw_keeps)
    (auto split: option.split intro!: keep_intros card_data_steady)

lemma sd_inert [inert_intros]:
  "inert (send c a)" "inert (send_136_resp c a)" "inert (send_no_resp c a)" "inert wait_and_get_response" "inert query_voltage_and_type"
  "inert identify_card" "inert select_card" "inert (data_mode pnm l d)" "inert init_card" "inert configure_pinmux" "inert reset"
  "inert (flush_cycle i)"
  unfolding send_def send_136_resp_def send_no_resp_def wait_and_get_response_def get_response_def query_voltage_and_type_def
    identify_card_def select_card_def data_mode_def init_card_def configure_pinmux_def gpio_config_def gpio_apply_batch_def apply_mode_def
    reset_def set_power_def flush_cycle_def print_timestamp_def Let_def
  by (intro inert_intros)+

definition data_mode_ready :: "bool \<Rightarrow> 'r sdhost_mach_scheme \<Rightarrow> bool" where
  "data_mode_ready r s \<longleftrightarrow> (r \<longrightarrow> block_size s = 512)"

lemma data_mode_returns: "returns data_mode_ready (data_mode pnm l d)"
proof -
  have tail: "returns data_mode_ready (do {
         gset (\<lambda>s. s\<lparr>block_size := 512\<rparr>);
         bytes \<leftarrow> gget capacity_bytes;
         hc \<leftarrow> gget is_high_capacity;
         emmc_logf ''init_card'' ''Card initialization complete: %s %dMB SD%s Card''
           [S pnm, U (ucast (drop_bit 20 bytes)), S (if hc then ''HC'' else [])];
         when_io (d \<noteq> 0) (do {
           emmc_logf ''init_card'' ''Identification complete, changing clock to %dMHz for data mode ...'' [U (250 div d)];
           wr SH_CDIV (d - 2)
         });
         return True })"
    by (auto simp: returns_def data_mode_ready_def emmc_logf_def print_timestamp_def log_def)
  show ?thesis
    unfolding data_mode_def
    by (intro returns_bind returns_if returns_return tail inert_intros) (simp_all add: data_mode_ready_def)
qed

lemma data_mode_keeps: "keeps (\<lambda>s. csd s = c \<and> capacity_bytes s = b) (data_mode pnm l d)"
proof -
  have P: "steady (\<lambda>s. csd s = c \<and> capacity_bytes s = b)" by (simp add: steady_def log_def)
  have s: "keeps (\<lambda>s. csd s = c \<and> capacity_bytes s = b) (send n a)" for n a
    using send_keeps(1) [of "\<lambda>(_, _, c', b', _). c' = c \<and> b' = b" n a] by (simp add: card_data_def)
  show ?thesis
    unfolding data_mode_def select_card_def by (intro keep_intros s P; simp)
qed

text \<open>A card whose size and block length are set.\<close>

definition sized :: "'r sdhost_mach_scheme \<Rightarrow> bool" where
  "sized s \<longleftrightarrow> block_size s = 512 \<and>
     (SD_CSD_CSDVER (csd s) = SD_CSD_CSDVER_2_0 \<and> capacity_bytes s = v2_capacity (csd s) \<or>
      SD_CSD_CSDVER (csd s) = SD_CSD_CSDVER_1_0 \<and> capacity_bytes s = v1_capacity (csd s))"

lemma sized_data_mode:
  assumes "running s" "run_state (data_mode pnm l d) s = (True, s')" "running s'"
    and "SD_CSD_CSDVER (csd s) = SD_CSD_CSDVER_2_0 \<and> capacity_bytes s = v2_capacity (csd s) \<or>
      SD_CSD_CSDVER (csd s) = SD_CSD_CSDVER_1_0 \<and> capacity_bytes s = v1_capacity (csd s)"
  shows "sized s'"
proof -
  have "block_size s' = 512" using returnsD [OF data_mode_returns assms(1-3)] by (simp add: data_mode_ready_def)
  moreover have "csd s' = csd s \<and> capacity_bytes s' = capacity_bytes s"
    using keepsD [OF data_mode_keeps _ assms(2)] by simp
  ultimately show ?thesis using assms(4) by (simp add: sized_def)
qed

lemma init_card_returns: "returns (\<lambda>r s. r \<longrightarrow> sized s) init_card"
proof -
  let ?tail = "\<lambda>pnm c. (if SD_CSD_CSDVER c = SD_CSD_CSDVER_2_0 then do {
           printf ''    CSD     : Ver 2.0'' [];
           printf ''    Capacity: %d'' [I (sint (SD_CSD_V2_CAPACITY c))];
           printf ''    Size    : %d'' [I (sint (SD_CSD_V2_C_SIZE c))];
           gset (\<lambda>s. s\<lparr>capacity_bytes := v2_capacity c\<rparr>);
           data_mode pnm (push_bit SD_CSD_V2_BL_LEN 1) 5
         } else if SD_CSD_CSDVER c = SD_CSD_CSDVER_1_0 then do {
           printf ''    CSD     : Ver 1.0'' [];
           printf ''    Capacity: %d'' [I (sint (SD_CSD_CAPACITY c))];
           printf ''    Size    : %d'' [I (sint (SD_CSD_C_SIZE c))];
           gset (\<lambda>s. s\<lparr>capacity_bytes := v1_capacity c\<rparr>);
           data_mode pnm (push_bit (unat (SD_CSD_READ_BL_LEN c)) 1) 10
         } else do {
           printf ''ERROR: Unknown CSD version 0x%x!'' [I (sint (SD_CSD_CSDVER c))];
           return False
         })"
  have tail: "returns (\<lambda>r s. r \<longrightarrow> sized s) (do { c \<leftarrow> gget csd; ?tail pnm c })" for pnm
    unfolding returns_def
  proof (intro allI impI)
    fix s s' and r
    assume s: "running s" "run_state (do { c \<leftarrow> gget csd; ?tail pnm c }) s = (r, s')" "running s'" "r"
    show "sized s'"
    proof (cases "SD_CSD_CSDVER (csd s) = SD_CSD_CSDVER_2_0")
      case True
      define t where "t = log [Print ''    CSD     : Ver 2.0'' [], Print ''    Capacity: %d'' [I (sint (SD_CSD_V2_CAPACITY (csd s)))],
        Print ''    Size    : %d'' [I (sint (SD_CSD_V2_C_SIZE (csd s)))]] s \<lparr>capacity_bytes := v2_capacity (csd s)\<rparr>"
      have "run_state (data_mode pnm (push_bit SD_CSD_V2_BL_LEN 1) 5) t = (True, s')"
        using s True by (simp add: t_def)
      moreover have "running t" "csd t = csd s" "capacity_bytes t = v2_capacity (csd s)" using s(1) by (simp_all add: t_def log_def)
      ultimately show ?thesis using sized_data_mode [of t] s(3) True by simp
    next
      case False
      then have v: "SD_CSD_CSDVER (csd s) = SD_CSD_CSDVER_1_0" using s by (auto split: if_splits)
      define t where "t = log [Print ''    CSD     : Ver 1.0'' [], Print ''    Capacity: %d'' [I (sint (SD_CSD_CAPACITY (csd s)))],
        Print ''    Size    : %d'' [I (sint (SD_CSD_C_SIZE (csd s)))]] s \<lparr>capacity_bytes := v1_capacity (csd s)\<rparr>"
      have "run_state (data_mode pnm (push_bit (unat (SD_CSD_READ_BL_LEN (csd s))) 1) 10) t = (True, s')"
        using s False v by (simp add: t_def)
      moreover have "running t" "csd t = csd s" "capacity_bytes t = v1_capacity (csd s)" using s(1) by (simp_all add: t_def log_def)
      ultimately show ?thesis using sized_data_mode [of t] s(3) v by simp
    qed
  qed
  show ?thesis
    unfolding init_card_def Let_def
    by (intro returns_bind returns_if returns_return tail inert_intros) simp_all
qed

subsection \<open>Library: the driver returns\<close>

lemma unat_pred: "t \<noteq> 0 \<Longrightarrow> unat (t - 1) < unat t" for t :: u32
  by (simp add: unat_minus_one unat_gt_0)

lemma logf_returns [ends_intros]: "ends d (emmc_logf fn f xs)"
  unfolding emmc_logf_def print_timestamp_def Let_def by (intro ends_intros)

text \<open>The bounded waits end on every device whose clock runs.\<close>

lemma wait_returns:
  assumes "ticking d 1000"
  shows "ends d (wait n)" "ends d (wait_for_fifo_data n)"
proof -
  show "ends d (wait n)"
    unfolding wait_def
  proof (rule ends_loop [where \<mu> = unat])
    show "ends d (wait_turn n x)" for x
      unfolding wait_turn_def by (intro ends_intros udelay_returns [OF assms]) simp
  qed (auto simp: wait_turn_def unat_pred split: if_splits prod.splits)
  show "ends d (wait_for_fifo_data n)"
    unfolding wait_for_fifo_data_def
  proof (rule ends_loop [where \<mu> = unat])
    show "ends d (fifo_turn n x)" for x
      unfolding fifo_turn_def by (intro ends_intros udelay_returns [OF assms]) simp
  qed (auto simp: fifo_turn_def unat_pred split: if_splits prod.splits)
qed

lemma send_returns:
  assumes "ticking d 1000"
  shows "ends d (send_raw c a)" "ends d (send c a)" "ends d (send_136_resp c a)" "ends d (send_no_resp c a)"
proof -
  show s: "ends d (send_raw c a)" for c a
    unfolding send_raw_def by (intro ends_intros wait_returns [OF assms]) simp_all
  show "ends d (send c a)" "ends d (send_136_resp c a)" "ends d (send_no_resp c a)"
    unfolding send_def send_136_resp_def send_no_resp_def by (rule s)+
qed

lemma response_returns:
  assumes "ticking d 1000"
  shows "ends d wait_and_get_response"
  unfolding wait_and_get_response_def get_response_def print_timestamp_def Let_def
  by (intro ends_intros wait_returns [OF assms]) simp_all

lemma read_returns:
  assumes "ticking d 1000"
  shows "ends d (loop () (read_turn buf) i)"
proof (rule ends_loop [where \<mu> = "\<lambda>i. 128 - i"])
  show "ends d (read_turn buf i)" for i
    unfolding read_turn_def print_timestamp_def Let_def
    by (intro ends_intros wait_returns [OF assms]) (auto split: option.split intro: ends_intros)
qed (auto simp: read_turn_def split: if_splits prod.splits)

lemma pins_return:
  assumes "ticking d 1000"
  shows "ends d configure_pinmux" "ends d reset"
proof -
  show "ends d configure_pinmux"
    unfolding configure_pinmux_def gpio_config_def Let_def
    by (intro ends_intros gpio_apply_batch_returns [OF assms]) simp_all
  show "ends d reset"
    unfolding reset_def set_power_def Let_def by (intro ends_intros udelay_returns [OF assms]) simp_all
qed

text \<open>The FIFO runs empty when it is read.\<close>

definition fifo_empties :: "device \<Rightarrow> bool" where
  "fifo_empties d \<longleftrightarrow>
     (\<forall>h. \<exists>n. d (h @ concat (replicate n [Rd SH_HSTS, Rd SH_DATA])) SH_HSTS AND SH_HSTS_DATA_FLAG_SET = 0)"

definition fifo_left :: "device \<Rightarrow> event list \<Rightarrow> nat" where
  "fifo_left d h = (LEAST n. d (h @ concat (replicate n [Rd SH_HSTS, Rd SH_DATA])) SH_HSTS AND SH_HSTS_DATA_FLAG_SET = 0)"

lemma fifo_left_less:
  assumes "fifo_empties d" "d h SH_HSTS AND SH_HSTS_DATA_FLAG_SET \<noteq> 0"
  shows "fifo_left d (h @ [Rd SH_HSTS, Rd SH_DATA]) < fifo_left d h"
proof -
  let ?c = "\<lambda>h n. d (h @ concat (replicate n [Rd SH_HSTS, Rd SH_DATA])) SH_HSTS AND SH_HSTS_DATA_FLAG_SET = 0"
  have "?c h (fifo_left d h)" unfolding fifo_left_def by (rule LeastI_ex) (use assms(1) in \<open>auto simp: fifo_empties_def\<close>)
  with assms(2) obtain m where m: "fifo_left d h = Suc m" by (cases "fifo_left d h") auto
  with \<open>?c h (fifo_left d h)\<close> have "?c (h @ [Rd SH_HSTS, Rd SH_DATA]) m" by simp
  then have "fifo_left d (h @ [Rd SH_HSTS, Rd SH_DATA]) \<le> m" unfolding fifo_left_def by (rule Least_le)
  with m show ?thesis by simp
qed

lemma drain_returns:
  assumes "ticking d 1000" "fifo_empties d"
  shows "ends d drain_fifo"
proof -
  let ?cond = "do { x \<leftarrow> rd SH_HSTS; return (x AND SH_HSTS_DATA_FLAG_SET \<noteq> 0) } :: ('a, bool) io"
  let ?body = "\<lambda>_ :: unit. do { t \<leftarrow> ?cond; if t then do { do { _ \<leftarrow> rd SH_DATA; return () }; return (Inl ()) } else return (Inr ()) }"
  have "ends d (while_io ?cond (do { _ \<leftarrow> rd SH_DATA; return () }))"
    unfolding ends_def while_io_def
  proof (intro allI impI)
    fix s :: "'a mach_scheme" assume s: "dev s = d" "running s"
    have "\<exists>y s'. run_state (loop () ?body ()) s = (y, s') \<and> running s' \<and> dev s' = d"
    proof (rule loop_total [where P = "\<lambda>_ t. dev t = d" and \<mu> = "\<lambda>_ t. fifo_left d (bus t)", OF s(2,1)])
      fix x and t :: "'a mach_scheme" assume t: "dev t = d" "running t"
      show "(\<exists>y s1. run_state (?body x) t = (Inr y, s1) \<and> running s1 \<and> dev s1 = d) \<or>
        (\<exists>x' s1. run_state (?body x) t = (Inl x', s1) \<and> running s1 \<and> dev s1 = d \<and> fifo_left d (bus s1) < fifo_left d (bus t))"
      proof (cases "cur t SH_HSTS AND SH_HSTS_DATA_FLAG_SET = 0")
        case True
        then show ?thesis using t by simp
      next
        case False
        then have "fifo_left d (bus t @ [Rd SH_HSTS, Rd SH_DATA]) < fifo_left d (bus t)"
          using t by (intro fifo_left_less assms(2)) (simp add: cur_def)
        with False show ?thesis using t by simp
      qed
    qed
    then show "running (snd (run_state (loop () ?body ()) s)) \<and> dev (snd (run_state (loop () ?body ()) s)) = d" by auto
  qed
  then show ?thesis unfolding drain_fifo_def by (intro ends_intros wait_returns [OF assms(1)])
qed

lemma real_read_returns:
  assumes "ticking d 1000" "fifo_empties d" "dev s = d" "running s" "card_ready s"
  shows "running (snd (run_state (real_read_block sector buf) s))" "dev (snd (run_state (real_read_block sector buf) s)) = d"
proof -
  let ?m = "do { drain_fifo; _ \<leftarrow> send_raw (MMC_READ_BLOCK_MULTIPLE OR SH_CMD_READ_CMD_SET) (if is_high_capacity s then sector else push_bit 9 sector);
    loop () (read_turn buf) 0; _ \<leftarrow> send_raw (MMC_STOP_TRANSMISSION OR SH_CMD_BUSY_CMD_SET) 0; return True } :: ('a, bool) sd_io"
  have "run_state (real_read_block sector buf) s = run_state ?m s"
    using assms(5) by (simp add: real_read_block_def)
  moreover have "ends d ?m"
    by (intro ends_intros drain_returns assms(1,2) send_returns read_returns)
  ultimately show "running (snd (run_state (real_read_block sector buf) s))" "dev (snd (run_state (real_read_block sector buf) s)) = d"
    using assms(3,4) by (simp_all add: ends_def)
qed

lemma real_read_true: "yields (\<lambda>r. r) (real_read_block sector buf)"
  unfolding real_read_block_def Let_def by (intro yields_intros) simp_all

subsection \<open>Properties\<close>

definition block_address :: "'r sdhost_mach_scheme \<Rightarrow> u32 \<Rightarrow> u32" where
  "block_address s sector = (if is_high_capacity s then sector else push_bit 9 sector)"

text \<open>C17.  A block read, whatever the card does.  Between the read command with the block's address and the
stop command, words are taken from the FIFO, each after a status without an error, and stored at
consecutive places of the buffer, 128 of them or as many as came before an error or a time-out; but
the answer is true in every case, the error never reaches the caller.\<close>

theorem sd_read_block:
  assumes "running s" "card_ready s" "run_state (real_read_block sector buf) s = (r, s')" "running s'"
  shows "r \<and> (\<exists>a ws h e. reading (dev s) buf (bus s @ a) ws h \<and> bus s' = h @ e \<and>
    length ws \<le> 128 \<and> read_stops (dev s) h (length ws) \<and>
    writes h = writes (bus s) @ writes a @ stores buf ws \<and>
    list_all (avoids (\<lambda>x. \<not> ctl x)) a \<and> last_write SH_ARG a = Some (block_address s sector) \<and>
    last_write SH_CMD a = Some (MMC_READ_BLOCK_MULTIPLE OR SH_CMD_READ_CMD_SET OR SH_CMD_NEW_FLAG_SET) \<and>
    list_all (avoids (\<lambda>x. \<not> ctl x)) e \<and>
    last_write SH_CMD e = Some (MMC_STOP_TRANSMISSION OR SH_CMD_BUSY_CMD_SET OR SH_CMD_NEW_FLAG_SET))"
proof -
  let ?read = "MMC_READ_BLOCK_MULTIPLE OR SH_CMD_READ_CMD_SET" and ?stop = "MMC_STOP_TRANSMISSION OR SH_CMD_BUSY_CMD_SET"
  let ?data = "do { loop () (read_turn buf) 0; _ \<leftarrow> send_raw ?stop 0; return True } :: ('a, bool) sd_io"
  let ?A = "avoids (\<lambda>x. \<not> ctl x)"
  have run: "run_state (do { drain_fifo; _ \<leftarrow> send_raw ?read (block_address s sector); ?data }) s = (r, s')"
    using assms(2,3) by (simp add: real_read_block_def block_address_def)
  obtain x1 s1 where 1: "run_state drain_fifo s = (x1, s1)" "running s1"
      "run_state (do { _ \<leftarrow> send_raw ?read (block_address s sector); ?data }) s1 = (r, s')"
    by (rule inert_running [OF _ run assms(4)]) (intro inert_intros)
  obtain x2 s2 where 2: "run_state (send_raw ?read (block_address s sector)) s1 = (x2, s2)" "running s2" "run_state ?data s2 = (r, s')"
    by (rule inert_running [OF _ 1(3) assms(4)]) (intro inert_intros)
  obtain x3 s3 where 3: "run_state (loop () (read_turn buf) 0) s2 = (x3, s3)" "running s3"
      "run_state (do { _ \<leftarrow> send_raw ?stop 0; return True }) s3 = (r, s')"
    by (rule inert_running [OF _ 2(3) assms(4)]) (intro inert_intros)
  obtain x4 where 4: "run_state (send_raw ?stop 0) s3 = (x4, s')" "r" using 3(3) by (auto split: prod.splits)
  obtain a1 where a1: "dev s1 = dev s" "bus s1 = bus s @ a1" "list_all quiet a1" by (rule effects_run [OF drain_fifo_quiet 1(1)])
  obtain a2 where a2: "dev s2 = dev s1" "bus s2 = bus s1 @ a2" "list_all ?A a2"
      "last_write SH_ARG a2 = Some (block_address s sector)" "last_write SH_CMD a2 = Some (?read OR SH_CMD_NEW_FLAG_SET)"
    by (rule send_raw_sends [OF 1(2) 2(1,2)])
  obtain ws h w where d: "reading (dev s2) buf (bus s2) ws h" "length ws \<le> 128" "read_stops (dev s2) h (length ws)"
      "bus s3 = h @ w" "list_all quiet w" "dev s3 = dev s2"
    by (rule read_data [OF 2(2)]) (use 3(1,2) in auto)
  obtain e where e: "bus s' = bus s3 @ e" "list_all ?A e" "last_write SH_CMD e = Some (?stop OR SH_CMD_NEW_FLAG_SET)"
    by (rule send_raw_sends [OF 3(2) 4(1) assms(4)])
  have q: "list_all ?A a1" "list_all ?A w" using a1(3) d(5) by (auto simp: list_all_iff avoids_quiet)
  have "reading (dev s) buf (bus s @ a1 @ a2) ws h" using d(1) a1(1,2) a2(1,2) by simp
  moreover from reading_stores [OF this] have "writes h = writes (bus s) @ writes (a1 @ a2) @ stores buf ws" by simp
  ultimately show ?thesis
    using 4(2) d a1 a2 e q
    by (intro conjI exI [of _ "a1 @ a2"] exI [of _ ws] exI [of _ h] exI [of _ "w @ e"]) (simp_all add: or.assoc)
qed

text \<open>The device of the witness: a card whose first word arrives with a wrong check sum.\<close>

definition bad_card :: device where
  "bad_card h a = (if a = SH_HSTS then (if last_write SH_CMD h = None then 0 else 0x21) else 0)"

definition sd_boot :: "device \<Rightarrow> sdhost_mach" where
  "sd_boot d = mach.extend (boot d) \<lparr>block_size = 512, is_sdhc = True, is_high_capacity = True, card_ready = True, ocr = 0, rca = 0,
     cid = [0, 0, 0, 0], csd = [0, 0, 0, 0], capacity_bytes = 0, resp = [0, 0, 0, 0], current_cmd = 0, sdhost = True\<rparr>"

lemma sd_boot_simps [simp]: "dev (sd_boot d) = d" "running (sd_boot d)" "bus (sd_boot d) = []" "card_ready (sd_boot d)"
  "is_high_capacity (sd_boot d)"
  by (simp_all add: sd_boot_def mach.defs boot_def)

lemma wait_now: "running s \<Longrightarrow> cur s SH_CMD AND SH_CMD_NEW_FLAG_SET = 0 \<Longrightarrow> run_state (wait n) s = (True, log [Rd SH_CMD] s)"
  unfolding wait_def by (rule loop_finish) (simp_all add: wait_turn_def)

lemma fifo_now: "running s \<Longrightarrow> cur s SH_HSTS AND SH_HSTS_DATA_FLAG_SET \<noteq> 0 \<Longrightarrow>
    run_state (wait_for_fifo_data n) s = (True, log [Rd SH_HSTS] s)"
  unfolding wait_for_fifo_data_def by (rule loop_finish) (simp_all add: fifo_turn_def)

lemma drain_now:
  assumes "running s" "cur s SH_CMD AND SH_CMD_NEW_FLAG_SET = 0" "cur (log [Rd SH_CMD] s) SH_HSTS AND SH_HSTS_DATA_FLAG_SET = 0"
  shows "run_state drain_fifo s = ((), log [Rd SH_CMD, Rd SH_HSTS] s)"
proof -
  have "run_state (while_io (do { x \<leftarrow> rd SH_HSTS; return (x AND SH_HSTS_DATA_FLAG_SET \<noteq> 0) }) (do { _ \<leftarrow> rd SH_DATA; return () }))
      (log [Rd SH_CMD] s) = ((), log [Rd SH_HSTS] (log [Rd SH_CMD] s))"
    unfolding while_io_def using assms by (intro loop_finish) simp_all
  then show ?thesis by (simp add: drain_fifo_def wait_now [OF assms(1,2)])
qed

lemma bad_card_cmd: "dev t = bad_card \<Longrightarrow> cur t SH_CMD AND SH_CMD_NEW_FLAG_SET = 0"
  by (simp add: cur_def bad_card_def reg_defs)

lemma bad_card_hsts: "dev t = bad_card \<Longrightarrow> cur t SH_HSTS = (if last_write SH_CMD (bus t) = None then 0 else 0x21)"
  by (simp add: cur_def bad_card_def)

lemma bad_card_ends: "ends bad_card (send_raw c a)"
proof -
  have "ends bad_card (wait n)" for n by (simp add: ends_def wait_now bad_card_cmd)
  then show ?thesis unfolding send_raw_def by (intro ends_intros) simp_all
qed

theorem sd_read_block_witness:
  "\<exists>s'. run_state (real_read_block 7 (Some 0x1000)) (sd_boot bad_card) = (True, s') \<and> running s' \<and>
    (\<exists>h (ws :: u32 list) e. bus s' = h @ e \<and> read_stops bad_card h (length ws) \<and> last_write SH_CMD e \<noteq> None)"
proof -
  let ?s = "sd_boot bad_card" and ?read = "MMC_READ_BLOCK_MULTIPLE OR SH_CMD_READ_CMD_SET"
  have ne: "SH_HSTS \<noteq> SH_CMD" by (simp add: reg_defs)
  have 1: "run_state drain_fifo ?s = ((), log [Rd SH_CMD, Rd SH_HSTS] ?s)"
    by (rule drain_now) (simp_all add: bad_card_cmd bad_card_hsts)
  let ?s1 = "log [Rd SH_CMD, Rd SH_HSTS] ?s"
  obtain x2 s2 where 2: "run_state (send_raw ?read 7) ?s1 = (x2, s2)" by fastforce
  have r2: "running s2" "dev s2 = bad_card" using endsD [OF bad_card_ends _ _ 2] by simp_all
  have c2: "last_write SH_CMD (bus s2) \<noteq> None"
    by (rule send_raw_sends [OF _ 2 r2(1)]) (auto split: option.splits)
  have bits: "0x21 AND SH_HSTS_DATA_FLAG_SET \<noteq> 0" "0x21 AND SDHSTS_ERROR_MASK \<noteq> 0" by (simp_all add: reg_defs)
  obtain l where 3: "run_state (read_turn (Some 0x1000) 0) s2 = (Inr (), log l s2)"
    using r2 c2 bits by (auto simp: read_turn_def fifo_now bad_card_hsts print_timestamp_def)
  obtain x4 s4 where 4: "run_state (send_raw (MMC_STOP_TRANSMISSION OR SH_CMD_BUSY_CMD_SET) 0) (log l s2) = (x4, s4)" by fastforce
  have r4: "running s4" using endsD [OF bad_card_ends _ _ 4] r2 by simp
  have 5: "run_state (loop () (read_turn (Some 0x1000)) 0) s2 = ((), log l s2)" by (rule loop_finish) (simp_all add: r2 3)
  have run: "run_state (real_read_block 7 (Some 0x1000)) ?s = (True, s4)"
    by (simp add: real_read_block_def 1 2 5 4)
  have s: "running ?s" "card_ready ?s" "dev ?s = bad_card" by simp_all
  from sd_read_block [OF s(1,2) run r4, unfolded s(3)]
  have "\<exists>h (ws :: u32 list) e. bus s4 = h @ e \<and> read_stops bad_card h (length ws) \<and> last_write SH_CMD e \<noteq> None" by auto
  then show ?thesis using run r4 by (intro exI [of _ s4] conjI)
qed

lemma restart_parts:
  assumes "running s" "run_state restart_controller s = ((), s')" "running s'"
  shows "card_ready s' \<and> sized s'"
proof -
  let ?front = "do {
     gset (\<lambda>s. s\<lparr>is_sdhc := False\<rparr>);
     print_timestamp;
     hcfg \<leftarrow> rd SH_HCFG; cdiv \<leftarrow> rd SH_CDIV; edm \<leftarrow> rd SH_EDM; hsts \<leftarrow> rd SH_HSTS;
     printf ''[EMMC:%s]: hcfg 0x%X, cdiv 0x%X, edm 0x%X, hsts 0x%X''
       [S ''restart_controller'', U hcfg, U cdiv, U edm, U hsts];
     emmc_logf ''restart_controller'' ''Restarting the eMMC controller ...'' [];
     configure_pinmux;
     reset;
     reg_and SH_HCFG (NOT SH_HCFG_WIDE_EXT_BUS_SET);
     wr SH_HCFG (SH_HCFG_SLOW_CARD_SET OR SH_HCFG_WIDE_INT_BUS_SET);
     wr SH_CDIV kIdentSafeClockRate;
     udelay 300 } :: ('a, unit) sd_io"
  let ?rest = "\<lambda>ok. (if ok then do { gset (\<lambda>s. s\<lparr>card_ready := True\<rparr>); for_each [0..<3] flush_cycle }
     else panic ''failed to reinitialize the eMMC controller'') :: ('a, unit) sd_io"
  have e: "restart_controller = do { ?front; ok \<leftarrow> init_card; ?rest ok }"
    by (simp add: restart_controller_def State_Monad.bind_assoc)
  obtain x1 s1 where 1: "running s1" "run_state (do { ok \<leftarrow> init_card; ?rest ok }) s1 = ((), s')"
    by (rule inert_running [OF _ assms(2) [unfolded e] assms(3)]) (intro inert_intros)
  obtain ok s2 where 2: "run_state init_card s1 = (ok, s2)" "running s2" "run_state (?rest ok) s2 = ((), s')"
    by (rule inert_running [OF _ 1(2) assms(3)]) (intro inert_intros)
  have ok using 2(2,3) assms(3) by (auto split: if_splits)
  then have "sized s2" using returnsD [OF init_card_returns 1(1) 2(1,2)] by simp
  moreover define s3 where "s3 = s2\<lparr>card_ready := True\<rparr>"
  ultimately have s3: "sized s3" "card_ready s3" by (simp_all add: sized_def)
  have 3: "run_state (for_each [0..<3] flush_cycle) s3 = ((), s')" using 2(2,3) \<open>ok\<close> by (simp add: s3_def)
  have "keeps (\<lambda>t. card_data t = D) (flush_cycle i)" for D and i
    unfolding flush_cycle_def by (intro keep_intros real_read_keeps card_data_steady)
  then have "keeps (\<lambda>t. card_data t = card_data s3) (for_each [0..<3] flush_cycle)" by (intro keep_intros)
  from keepsD [OF this refl 3] have "card_data s' = card_data s3" .
  with s3 show ?thesis by (auto simp: card_data_def sized_def)
qed

text \<open>Setting up the card leaves the hardware what it is.\<close>

lemma steady_dev: "steady (\<lambda>s. dev s = d)" by (simp add: steady_def)

lemma restart_keeps_dev: "keeps (\<lambda>s. dev s = d) restart_controller"
proof -
  have r: "keeps (\<lambda>s. dev s = d) (send_raw c a)" for c a
    unfolding send_raw_def by (intro keep_intros steady_dev) simp
  have w: "keeps (\<lambda>s. dev s = d) wait_and_get_response"
    unfolding wait_and_get_response_def get_response_def by (intro keep_intros steady_dev) simp
  have l: "keeps (\<lambda>s. dev s = d) query_voltage_and_type"
    unfolding query_voltage_and_type_def query_turn_def send_def send_no_resp_def Let_def
    by (intro keep_intros steady_dev r w) simp_all
  have i: "keeps (\<lambda>s. dev s = d) (flush_cycle n)" for n
    unfolding flush_cycle_def real_read_block_def read_turn_def Let_def
    by (intro keep_intros steady_dev r) (auto split: option.split intro!: keep_intros steady_dev)
  have m: "keeps (\<lambda>s. dev s = d) (data_mode pnm l c)" for pnm l c
    unfolding data_mode_def select_card_def send_def Let_def by (intro keep_intros steady_dev r) simp_all
  show ?thesis
    unfolding restart_controller_def init_card_def identify_card_def send_136_resp_def send_no_resp_def send_def Let_def
    by (intro keep_intros steady_dev r w l i m) simp_all
qed

lemma sd_init_ready:
  assumes "running s" "\<not> sdhost s" "run_state (rpi_sdhost_init init_bdev register) s = ((), s')" "running s'"
    and "\<And>b n. inert (init_bdev b n)" "inert register"
  shows "\<exists>t. running t \<and> dev t = dev s \<and> card_ready t \<and> sized t \<and> sdhost t \<and>
    run_state (do { printf ''b'' []; init_bdev 512 (capacity_bytes t div 512); printf ''c'' []; printf ''d'' []; register; printf ''e'' [] }) t
      = ((), s')"
proof -
  note i = assms(5,6)
  let ?rest = "do {
       gset (\<lambda>s. s\<lparr>sdhost := True\<rparr>);
       blocksize \<leftarrow> get_block_size;
       printf ''a'' [];
       bytes \<leftarrow> gget capacity_bytes;
       let blocks = bytes div ucast blocksize;
       printf ''b'' [];
       init_bdev blocksize blocks;
       printf ''c'' [];
       printf ''d'' [];
       register;
       printf ''e'' [] }"
  have inert: "inert ?rest" unfolding get_block_size_def Let_def by (intro inert_intros i)
  have run: "run_state (do { restart_controller; emmc_logf ''BCM2708SDHost'' ''eMMC driver sucessfully started!'' []; ?rest }) s = ((), s')"
    using assms(2,3) by (simp add: rpi_sdhost_init_def BCM2708SDHost_def)
  obtain x1 s1 where 1: "run_state restart_controller s = (x1, s1)" "running s1"
      "run_state (do { emmc_logf ''BCM2708SDHost'' ''eMMC driver sucessfully started!'' []; ?rest }) s1 = ((), s')"
    by (rule inert_running [OF _ run assms(4)]) (intro inert_intros inert)
  obtain x2 s2 where 2: "run_state (emmc_logf ''BCM2708SDHost'' ''eMMC driver sucessfully started!'' []) s1 = (x2, s2)" "running s2"
      "run_state ?rest s2 = ((), s')"
    by (rule inert_running [OF _ 1(3) assms(4)]) (intro inert)
  have s1: "card_ready s1" "sized s1" using restart_parts [OF assms(1) _ 1(2)] 1(1) by auto
  have "steady (\<lambda>t. card_data t = card_data s1)" by (rule card_data_steady)
  from keepsD [OF sd_keeps(3) [OF this] _ 2(1)] have "card_data s2 = card_data s1" by simp
  with s1 have s2: "card_ready s2" "sized s2" by (auto simp: card_data_def sized_def)
  define t where "t = log [Print ''a'' []] (s2\<lparr>sdhost := True\<rparr>)"
  have dev: "dev s1 = dev s" by (rule keepsD [OF restart_keeps_dev refl 1(1)])
  from keepsD [OF sd_keeps(3) [OF steady_dev] _ 2(1)] have "dev s2 = dev s1" by simp
  then have t: "running t" "dev t = dev s" "card_ready t" "sized t" "sdhost t" "block_size s2 = 512"
    using 2(2) s2 dev by (simp_all add: t_def sized_def log_def)
  have "run_state (do { printf ''b'' []; init_bdev 512 (capacity_bytes t div 512); printf ''c'' []; printf ''d'' []; register; printf ''e'' [] }) t
      = ((), s')"
    using 2(2,3) t(6) by (simp add: t_def get_block_size_def log_def)
  with t show ?thesis by blast
qed

text \<open>C19.  The block device.  When \<^verbatim>\<open>rpi_sdhost_init\<close> returns from a machine without a device, the card
has been identified with a known version, and the device handed to LK has blocks of 512 bytes and as
many as the size of the card holds.\<close>

theorem sd_device_ready:
  assumes "running s" "\<not> sdhost s" "run_state (rpi_sdhost_init init_bdev register) s = ((), s')" "running s'"
    and "\<And>b n. inert (init_bdev b n)" "inert register"
  shows "\<exists>t. running t \<and> card_ready t \<and> sized t \<and> sdhost t \<and>
    run_state (do { printf ''b'' []; init_bdev 512 (capacity_bytes t div 512); printf ''c'' []; printf ''d'' []; register; printf ''e'' [] }) t
      = ((), s')"
  using sd_init_ready [where init_bdev = init_bdev and register = register, OF assms] by blast

text \<open>The device of the witness: a card of version 2 that is ready at once; no block ever has data.  The
  serial port is idle.\<close>

definition good_card :: device where
  "good_card h a =
     (if a \<in> {SH_CMD, SH_HSTS, SH_RSP1, SH_RSP2} then 0 else if a = SH_RSP0 then 0xC0000000
      else if a = SH_RSP3 then 0x40000000 else if a = UART0_BASE + 0x18 then 0x80 else clock_dev (\<lambda>_. 0) h a)"

abbreviation good_resp :: "u32 list" where
  "good_resp \<equiv> [0xC0000000, 0, 0, 0x40000000]"

lemma good_card_simps:
  "dev t = good_card \<Longrightarrow> cur t SH_CMD = 0" "dev t = good_card \<Longrightarrow> cur t SH_HSTS = 0"
  "dev t = good_card \<Longrightarrow> cur t SH_RSP0 = 0xC0000000" "dev t = good_card \<Longrightarrow> cur t SH_RSP1 = 0"
  "dev t = good_card \<Longrightarrow> cur t SH_RSP2 = 0" "dev t = good_card \<Longrightarrow> cur t SH_RSP3 = 0x40000000"
  by (simp_all add: cur_def good_card_def reg_defs)

lemma ticking_good_card: "ticking good_card 1000"
proof -
  have "good_card h ST_CLO = clock_dev (\<lambda>_. 0) h ST_CLO" for h by (simp add: good_card_def reg_defs)
  then show ?thesis
    using ticking_clock_dev [of "\<lambda>_. 0"] by (simp add: ticking_def ticks_def answer_def cur_def)
qed

lemma good_card_empties: "fifo_empties good_card"
  unfolding fifo_empties_def by (simp add: good_card_def)

lemma good_version: "SD_CSD_CSDVER good_resp = SD_CSD_CSDVER_2_0"
  by code_simp

definition does :: "('r, 'a) sd_io \<Rightarrow> 'a \<Rightarrow> ('r sdhost_mach_scheme \<Rightarrow> bool) \<Rightarrow> bool" where
  "does m r Q \<longleftrightarrow> (\<forall>s. dev s = good_card \<longrightarrow> running s \<longrightarrow>
     (\<exists>s'. run_state m s = (r, s') \<and> dev s' = good_card \<and> running s' \<and> Q s'))"

lemma doesE:
  assumes "does m r Q" "dev s = good_card" "running s"
  obtains s' where "run_state m s = (r, s')" "dev s' = good_card" "running s'" "Q s'"
  using assms unfolding does_def by blast

lemma does_ends: "ends good_card m \<Longrightarrow> yields (\<lambda>x. x = r) m \<Longrightarrow> does m r (\<lambda>_. True)"
  unfolding does_def ends_def yields_def by (metis prod.collapse)

lemma does_bind:
  fixes m :: "('r, 'a) sd_io"
  assumes "does m r P" "does (f r) x Q"
  shows "does (m \<bind> f) x Q"
  unfolding does_def
proof (intro allI impI)
  fix s :: "'r sdhost_mach_scheme" assume s: "dev s = good_card" "running s"
  obtain s1 where 1: "run_state m s = (r, s1)" "dev s1 = good_card" "running s1" by (rule doesE [OF assms(1) s])
  obtain s2 where 2: "run_state (f r) s1 = (x, s2)" "dev s2 = good_card" "running s2" "Q s2" by (rule doesE [OF assms(2) 1(2,3)])
  then show "\<exists>s'. run_state (m \<bind> f) s = (x, s') \<and> dev s' = good_card \<and> running s' \<and> Q s'" using 1(1) by simp
qed

lemma does_unit: "ends good_card m \<Longrightarrow> does m () (\<lambda>_. True)" for m :: "('r, unit) sd_io"
  by (rule does_ends) (simp_all add: yields_def)

lemma good_send: "does (send_raw c a) True (\<lambda>_. True)" "does (send c a) True (\<lambda>_. True)"
  "does (send_136_resp c a) True (\<lambda>_. True)" "does (send_no_resp c a) True (\<lambda>_. True)"
proof -
  show s: "does (send_raw c a) True (\<lambda>_. True)" for c a
    by (rule does_ends [OF send_returns(1) [OF ticking_good_card]])
      (unfold send_raw_def, intro yields_intros, simp)
  show "does (send c a) True (\<lambda>_. True)" "does (send_136_resp c a) True (\<lambda>_. True)" "does (send_no_resp c a) True (\<lambda>_. True)"
    unfolding send_def send_136_resp_def send_no_resp_def by (rule s)+
qed

lemma good_wait: "does (wait n) True (\<lambda>_. True)"
  by (auto simp: does_def wait_now good_card_simps)

lemma good_response: "does wait_and_get_response True (\<lambda>s. resp s = good_resp)"
  by (auto simp: does_def wait_and_get_response_def get_response_def wait_now good_card_simps log_def)

lemma does_mono: "does m r P \<Longrightarrow> (\<And>s. P s \<Longrightarrow> Q s) \<Longrightarrow> does m r Q"
  unfolding does_def by blast

lemma does_gset: "(\<And>s. dev (f s) = dev s) \<Longrightarrow> (\<And>s. running (f s) = running s) \<Longrightarrow> (\<And>s. Q (f s)) \<Longrightarrow> does (gset f) () Q"
  by (auto simp: does_def)

lemma does_return: "does (return r) r (\<lambda>_. True)"
  by (simp add: does_def)

text \<open>After a response, the code that looks at it.\<close>

lemma does_response:
  assumes "\<And>s. dev s = good_card \<Longrightarrow> running s \<Longrightarrow> resp s = good_resp \<Longrightarrow>
    \<exists>s'. run_state (f True) s = (x, s') \<and> dev s' = good_card \<and> running s' \<and> Q s'"
  shows "does (wait_and_get_response \<bind> f) x Q"
  unfolding does_def
proof (intro allI impI)
  fix s :: "'a sdhost_mach_scheme" assume s: "dev s = good_card" "running s"
  obtain s1 where 1: "run_state wait_and_get_response s = (True, s1)" "dev s1 = good_card" "running s1" "resp s1 = good_resp"
    by (rule doesE [OF good_response s])
  from assms [OF 1(2-4)] 1(1) show "\<exists>s'. run_state (wait_and_get_response \<bind> f) s = (x, s') \<and> dev s' = good_card \<and> running s' \<and> Q s'"
    by auto
qed

lemma good_query_turn: "does (query_turn t) (Inr True) (\<lambda>s. resp s = good_resp)"
proof -
  have "3221225472 AND MMC_OCR_MEM_READY \<noteq> 0" by (simp add: reg_defs BV_def)
  note ready = this
  show ?thesis
    unfolding query_turn_def by (rule does_bind [OF good_send(2) does_bind [OF good_send(4) does_response]]) (simp add: ready)
qed

lemma good_query_loop: "does (loop False (\<lambda>_. query_turn t) ()) True (\<lambda>s. resp s = good_resp)"
  unfolding does_def
proof (intro allI impI)
  fix s :: "'a sdhost_mach_scheme" assume s: "dev s = good_card" "running s"
  obtain s1 where 1: "run_state (query_turn t) s = (Inr True, s1)" "dev s1 = good_card" "running s1" "resp s1 = good_resp"
    by (rule doesE [OF good_query_turn s])
  have "run_state (loop False (\<lambda>_. query_turn t) ()) s = (True, s1)" by (rule loop_finish) (simp_all add: s 1(1))
  with 1 show "\<exists>s'. run_state (loop False (\<lambda>_. query_turn t) ()) s = (True, s') \<and> dev s' = good_card \<and> running s' \<and> resp s' = good_resp"
    by blast
qed

lemma good_query: "does query_voltage_and_type True (\<lambda>_. True)"
proof -
  have tail: "does (do {
       emmc_logf ''query_voltage_and_type'' ''SD card has arrived!'' [];
       gset (\<lambda>s. s\<lparr>is_high_capacity := (resp s ! 0 AND MMC_OCR_HCS = MMC_OCR_HCS)\<rparr>);
       hc \<leftarrow> gget is_high_capacity;
       when_io hc (emmc_logf ''query_voltage_and_type'' ''This is an SDHC card!'' []);
       return True }) True (\<lambda>_. True)"
    by (rule does_ends) (intro ends_intros yields_intros; simp)+
  have rest: "\<exists>s'. run_state (do {
     r \<leftarrow> gget resp;
     let v2 = (r ! 0 = 0x1AA);
     let t = (if v2 then MMC_OCR_3_3V_3_4V OR MMC_OCR_HCS else MMC_OCR_3_3V_3_4V);
     when_io v2 (gset (\<lambda>s. s\<lparr>is_sdhc := True\<rparr>));
     ok \<leftarrow> loop False (\<lambda>_. query_turn t) ();
     if \<not> ok then return False
     else do {
       emmc_logf ''query_voltage_and_type'' ''SD card has arrived!'' [];
       gset (\<lambda>s. s\<lparr>is_high_capacity := (resp s ! 0 AND MMC_OCR_HCS = MMC_OCR_HCS)\<rparr>);
       hc \<leftarrow> gget is_high_capacity;
       when_io hc (emmc_logf ''query_voltage_and_type'' ''This is an SDHC card!'' []);
       return True } }) s = (True, s') \<and> dev s' = good_card \<and> running s' \<and> True"
    if s: "dev s = good_card" "running s" "resp s = good_resp" for s
  proof -
    obtain s1 where 1: "run_state (loop False (\<lambda>_. query_turn MMC_OCR_3_3V_3_4V) ()) s = (True, s1)" "dev s1 = good_card" "running s1"
      by (rule doesE [OF good_query_loop s(1,2)])
    from doesE [OF tail 1(2,3)] obtain s2 where "run_state (do {
       emmc_logf ''query_voltage_and_type'' ''SD card has arrived!'' [];
       gset (\<lambda>s. s\<lparr>is_high_capacity := (resp s ! 0 AND MMC_OCR_HCS = MMC_OCR_HCS)\<rparr>);
       hc \<leftarrow> gget is_high_capacity;
       when_io hc (emmc_logf ''query_voltage_and_type'' ''This is an SDHC card!'' []);
       return True }) s1 = (True, s2)" "dev s2 = good_card" "running s2" by blast
    with 1 s(3) show ?thesis by simp
  qed
  show ?thesis
    unfolding query_voltage_and_type_def by (rule does_bind [OF good_send(2) does_response]) (rule rest)
qed

lemma does_gget: "(\<And>x. does (f x) r Q) \<Longrightarrow> does (gget g \<bind> f) r Q"
  by (simp add: does_def)

lemma does_gset_then:
  "(\<And>s. dev (f s) = dev s) \<Longrightarrow> (\<And>s. status (f s) = status s) \<Longrightarrow> does (n ()) r Q \<Longrightarrow> does (gset f \<bind> n) r Q"
  by (simp add: does_def)

lemma does_response_then: "does (f True) x Q \<Longrightarrow> does (wait_and_get_response \<bind> f) x Q"
  by (rule does_response) (simp add: does_def)

lemma good_identify: "does identify_card True (\<lambda>s. csd s = good_resp)"
proof -
  have last: "does (do { _ \<leftarrow> send_136_resp MMC_SEND_CSD (MMC_ARG_RCA a); ok \<leftarrow> wait_and_get_response;
      if \<not> ok then return False else do { gset (\<lambda>s. s\<lparr>csd := resp s\<rparr>); return True } }) True (\<lambda>s. csd s = good_resp)" for a
    by (rule does_bind [OF good_send(3) does_response]) simp
  have second: "does (do { _ \<leftarrow> send_136_resp MMC_SEND_CID (MMC_ARG_RCA a); ok \<leftarrow> wait_and_get_response;
      if \<not> ok then return False else do { gset (\<lambda>s. s\<lparr>cid := resp s\<rparr>); a \<leftarrow> gget rca; _ \<leftarrow> send_136_resp MMC_SEND_CSD (MMC_ARG_RCA a);
        ok \<leftarrow> wait_and_get_response;
        if \<not> ok then return False else do { gset (\<lambda>s. s\<lparr>csd := resp s\<rparr>); return True } } }) True (\<lambda>s. csd s = good_resp)" for a
    by (rule does_bind [OF good_send(3) does_response_then], unfold not_True_eq_False if_False, rule does_gset_then)
      (simp_all add: does_gget last)
  have first: "does (do { _ \<leftarrow> send MMC_SET_RELATIVE_ADDR 0; ok \<leftarrow> wait_and_get_response;
      if \<not> ok then return False else do {
        gset (\<lambda>s. s\<lparr>rca := SD_R6_RCA (resp s)\<rparr>);
        a \<leftarrow> gget rca;
        _ \<leftarrow> send_136_resp MMC_SEND_CID (MMC_ARG_RCA a); ok \<leftarrow> wait_and_get_response;
        if \<not> ok then return False else do { gset (\<lambda>s. s\<lparr>cid := resp s\<rparr>); a \<leftarrow> gget rca; _ \<leftarrow> send_136_resp MMC_SEND_CSD (MMC_ARG_RCA a);
          ok \<leftarrow> wait_and_get_response;
          if \<not> ok then return False else do { gset (\<lambda>s. s\<lparr>csd := resp s\<rparr>); return True } } } }) True (\<lambda>s. csd s = good_resp)"
    by (rule does_bind [OF good_send(2) does_response_then], unfold not_True_eq_False if_False, rule does_gset_then)
      (simp_all add: does_gget second)
  show ?thesis
    unfolding identify_card_def
    by (rule does_bind [OF does_unit [OF logf_returns] does_bind [OF good_send(3) does_response_then]])
      (unfold not_True_eq_False if_False, rule first)
qed

lemma good_data_mode:
  assumes "dev s = good_card" "running s" "csd s = good_resp"
  shows "\<exists>s'. run_state (data_mode pnm l n) s = (True, s') \<and> dev s' = good_card \<and> running s'"
proof -
  let ?rest = "\<lambda>c. do {
      ok \<leftarrow> (if SD_CSD_CSDVER c = SD_CSD_CSDVER_1_0 then do {
           _ \<leftarrow> send MMC_SET_BLOCKLEN 512;
           ok \<leftarrow> wait 100000;
           when_io (\<not> ok) (emmc_logf ''init_card'' ''ERROR: Failed to set block length!'' []);
           return ok
         } else return True);
      if \<not> ok then return False
      else do {
         gset (\<lambda>s. s\<lparr>block_size := 512\<rparr>);
         bytes \<leftarrow> gget capacity_bytes;
         hc \<leftarrow> gget is_high_capacity;
         emmc_logf ''init_card'' ''Card initialization complete: %s %dMB SD%s Card''
           [S pnm, U (ucast (drop_bit 20 bytes)), S (if hc then ''HC'' else [])];
         when_io (n \<noteq> 0) (do {
           emmc_logf ''init_card'' ''Identification complete, changing clock to %dMHz for data mode ...'' [U (250 div n)];
           wr SH_CDIV (n - 2)
         });
         return True } } :: ('a, bool) sd_io"
  have sel: "does select_card True (\<lambda>_. True)"
    unfolding select_card_def by (intro does_gget) (rule does_bind [OF good_send(2)], simp add: good_wait)
  have ne: "SD_CSD_CSDVER good_resp \<noteq> SD_CSD_CSDVER_1_0"
    unfolding good_version by (simp add: SD_CSD_CSDVER_1_0_def SD_CSD_CSDVER_2_0_def)
  have rest: "does (?rest good_resp) True (\<lambda>_. True)"
    unfolding if_not_P [OF ne] bind_left_identity not_True_eq_False if_False
    by (rule does_ends) (intro ends_intros yields_intros; simp)+
  obtain s1 where 1: "run_state select_card (log [Print ''    BlockLen: 0x%x'' [U (ucast l)]] s) = (True, s1)" "dev s1 = good_card" "running s1"
    by (rule doesE [OF sel, of "log [Print ''    BlockLen: 0x%x'' [U (ucast l)]] s"]) (use assms in auto)
  have "keeps (\<lambda>s. csd s = good_resp) (send c a)" for c a
    using send_keeps(1) [of "\<lambda>(_, _, c', _). c' = good_resp"] by (simp add: card_data_def)
  then have "keeps (\<lambda>s. csd s = good_resp) select_card"
    unfolding select_card_def by (intro keep_intros) (simp_all add: steady_def log_def)
  from keepsD [OF this _ 1(1)] have c: "csd s1 = good_resp" using assms(3) by (simp add: log_def)
  from doesE [OF rest 1(2,3)] obtain s2 where "run_state (?rest good_resp) s1 = (True, s2)" "dev s2 = good_card" "running s2" by blast
  then have "run_state (data_mode pnm l n) s = (True, s2)"
    using assms(2) 1(1) c by (simp add: data_mode_def)
  with \<open>dev s2 = good_card\<close> \<open>running s2\<close> show ?thesis by blast
qed

lemma good_init_card: "does init_card True (\<lambda>_. True)"
proof -
  let ?rest = "do {
         id \<leftarrow> gget cid;
         let pnm = product_name id;
         printf ''    Product : %s'' [S pnm];
         c \<leftarrow> gget csd;
         if SD_CSD_CSDVER c = SD_CSD_CSDVER_2_0 then do {
           printf ''    CSD     : Ver 2.0'' [];
           printf ''    Capacity: %d'' [I (sint (SD_CSD_V2_CAPACITY c))];
           printf ''    Size    : %d'' [I (sint (SD_CSD_V2_C_SIZE c))];
           gset (\<lambda>s. s\<lparr>capacity_bytes := v2_capacity c\<rparr>);
           data_mode pnm (push_bit SD_CSD_V2_BL_LEN 1) 5
         } else if SD_CSD_CSDVER c = SD_CSD_CSDVER_1_0 then do {
           printf ''    CSD     : Ver 1.0'' [];
           printf ''    Capacity: %d'' [I (sint (SD_CSD_CAPACITY c))];
           printf ''    Size    : %d'' [I (sint (SD_CSD_C_SIZE c))];
           gset (\<lambda>s. s\<lparr>capacity_bytes := v1_capacity c\<rparr>);
           data_mode pnm (push_bit (unat (SD_CSD_READ_BL_LEN c)) 1) 10
         } else do {
           printf ''ERROR: Unknown CSD version 0x%x!'' [I (sint (SD_CSD_CSDVER c))];
           return False
         } } :: ('a, bool) sd_io"
  have rest: "\<exists>s'. run_state ?rest s = (True, s') \<and> dev s' = good_card \<and> running s'"
    if s: "dev s = good_card" "running s" "csd s = good_resp" for s :: "'a sdhost_mach_scheme"
  proof -
    define t where "t = log [Print ''    Product : %s'' [S (product_name (cid s))], Print ''    CSD     : Ver 2.0'' [],
      Print ''    Capacity: %d'' [I (sint (SD_CSD_V2_CAPACITY (csd s)))], Print ''    Size    : %d'' [I (sint (SD_CSD_V2_C_SIZE (csd s)))]] s
      \<lparr>capacity_bytes := v2_capacity (csd s)\<rparr>"
    have "dev t = good_card" "running t" "csd t = good_resp" using s by (simp_all add: t_def log_def)
    from good_data_mode [OF this] obtain s' where
      "run_state (data_mode (product_name (cid s)) (push_bit SD_CSD_V2_BL_LEN 1) 5) t = (True, s')" "dev s' = good_card" "running s'" by blast
    then show ?thesis using s good_version by (simp add: t_def log_def Let_def)
  qed
  show ?thesis
    unfolding does_def
  proof (intro allI impI)
    fix s :: "'a sdhost_mach_scheme" assume s: "dev s = good_card" "running s"
    obtain s1 where 1: "run_state (send_no_resp MMC_GO_IDLE_STATE 0) s = (True, s1)" "dev s1 = good_card" "running s1"
      by (rule doesE [OF good_send(4) s])
    obtain s2 where 2: "run_state query_voltage_and_type s1 = (True, s2)" "dev s2 = good_card" "running s2"
      by (rule doesE [OF good_query 1(2,3)])
    obtain s3 where 3: "run_state identify_card s2 = (True, s3)" "dev s3 = good_card" "running s3" "csd s3 = good_resp"
      by (rule doesE [OF good_identify 2(2,3)])
    from rest [OF 3(2-4)] obtain s4 where 4: "run_state ?rest s3 = (True, s4)" "dev s4 = good_card" "running s4" by blast
    have "run_state init_card s = run_state ?rest s3" unfolding init_card_def by (simp add: 1(1) 2(1) 3(1))
    with 4 show "\<exists>s'. run_state init_card s = (True, s') \<and> dev s' = good_card \<and> running s' \<and> True" by simp
  qed
qed

lemma good_flush:
  assumes "dev s = good_card" "running s" "card_ready s"
  shows "\<exists>s'. run_state (flush_cycle i) s = ((), s') \<and> dev s' = good_card \<and> running s' \<and> card_ready s'"
proof -
  obtain r s1 where 1: "run_state (real_read_block 0 None) s = (r, s1)" by fastforce
  note e = real_read_returns [OF ticking_good_card good_card_empties assms, of 0 None, unfolded 1 snd_conv]
  have r: r by (rule yieldsD [OF real_read_true 1])
  have "card_ready s1"
    using keepsD [OF real_read_keeps [of "\<lambda>x. fst x" 0 None] _ 1] assms(3) by (simp add: card_data_def)
  then show ?thesis using 1 e r by (simp add: flush_cycle_def)
qed

lemma good_flushes:
  assumes "dev s = good_card" "running s" "card_ready s"
  shows "\<exists>s'. run_state (for_each xs flush_cycle) s = ((), s') \<and> dev s' = good_card \<and> running s'"
  using assms
proof (induction xs arbitrary: s)
  case (Cons x xs)
  from good_flush [OF Cons.prems] obtain s1 where
    "run_state (flush_cycle x) s = ((), s1)" "dev s1 = good_card" "running s1" "card_ready s1" by blast
  with Cons.IH [of s1] show ?case by simp
qed simp

lemma good_restart_end:
  "does (if True then do { gset (\<lambda>s. s\<lparr>card_ready := True\<rparr>); for_each [0..<3] flush_cycle }
     else panic ''failed to reinitialize the eMMC controller'') () (\<lambda>_. True)"
    unfolding does_def
proof (intro allI impI)
  fix s :: "'a sdhost_mach_scheme" assume s: "dev s = good_card" "running s"
  then have "dev (s\<lparr>card_ready := True\<rparr>) = good_card" "running (s\<lparr>card_ready := True\<rparr>)" "card_ready (s\<lparr>card_ready := True\<rparr>)" by simp_all
  from good_flushes [OF this, of "[0..<3]"] s
  show "\<exists>s'. run_state (if True then do { gset (\<lambda>s. s\<lparr>card_ready := True\<rparr>); for_each [0..<3] flush_cycle }
     else panic ''failed to reinitialize the eMMC controller'') s = ((), s') \<and> dev s' = good_card \<and> running s' \<and> True"
    by (simp del: upt_rec_numeral)
qed

lemma good_restart: "does restart_controller () (\<lambda>_. True)"
proof -
  let ?front = "do {
     gset (\<lambda>s. s\<lparr>is_sdhc := False\<rparr>);
     print_timestamp;
     hcfg \<leftarrow> rd SH_HCFG; cdiv \<leftarrow> rd SH_CDIV; edm \<leftarrow> rd SH_EDM; hsts \<leftarrow> rd SH_HSTS;
     printf ''[EMMC:%s]: hcfg 0x%X, cdiv 0x%X, edm 0x%X, hsts 0x%X''
       [S ''restart_controller'', U hcfg, U cdiv, U edm, U hsts];
     emmc_logf ''restart_controller'' ''Restarting the eMMC controller ...'' [];
     configure_pinmux;
     reset;
     reg_and SH_HCFG (NOT SH_HCFG_WIDE_EXT_BUS_SET);
     wr SH_HCFG (SH_HCFG_SLOW_CARD_SET OR SH_HCFG_WIDE_INT_BUS_SET);
     wr SH_CDIV kIdentSafeClockRate;
     udelay 300 } :: ('a, unit) sd_io"
  have front: "does ?front () (\<lambda>_. True)"
    unfolding print_timestamp_def Let_def
    by (rule does_unit) (intro ends_intros pins_return [OF ticking_good_card] udelay_returns [OF ticking_good_card]; simp)
  have e: "restart_controller = do { ?front; ok \<leftarrow> init_card; (if ok then do { gset (\<lambda>s. s\<lparr>card_ready := True\<rparr>); for_each [0..<3] flush_cycle }
     else panic ''failed to reinitialize the eMMC controller'') }"
    by (simp add: restart_controller_def State_Monad.bind_assoc)
  show ?thesis unfolding e by (rule does_bind [OF front], rule does_bind [OF good_init_card], rule good_restart_end)
qed

theorem sd_device_ready_witness:
  "\<exists>(s :: sdhost_mach) s'. \<not> sdhost s \<and> run_state (rpi_sdhost_init (\<lambda>b n. wr 0x1000 (ucast n)) (return ())) s = ((), s') \<and>
     running s' \<and> (\<exists>t :: sdhost_mach. sized t \<and> cur s' 0x1000 = ucast (capacity_bytes t div 512))"
proof -
  define s where "s = sd_boot good_card \<lparr>sdhost := False\<rparr>"
  let ?m = "rpi_sdhost_init (\<lambda>b n. wr 0x1000 (ucast n)) (return ())" 
  have s: "dev s = good_card" "running s" "\<not> sdhost s" by (simp_all add: s_def)
  obtain s1 where 1: "run_state restart_controller s = ((), s1)" "dev s1 = good_card" "running s1"
    by (rule doesE [OF good_restart s(1,2)])
  obtain s' where run: "run_state ?m s = ((), s')" using run_unit by blast
  have r: "running s'" "dev s' = good_card"
    using run s(3) 1 by (auto simp: rpi_sdhost_init_def BCM2708SDHost_def emmc_logf_def print_timestamp_def get_block_size_def Let_def)
  have "\<exists>t. running t \<and> card_ready t \<and> sized t \<and> sdhost t \<and>
      run_state (do { printf ''b'' []; wr 0x1000 (ucast (capacity_bytes t div 512)); printf ''c'' []; printf ''d'' []; return (); printf ''e'' [] }) t
      = ((), s')"
    by (rule sd_device_ready [OF s(2,3) run r(1)]) (intro inert_intros)+
  then obtain t where t: "running t" "sized t" "s' = log [Print ''b'' [], Wr 0x1000 (ucast (capacity_bytes t div 512)), Print ''c'' [], Print ''d'' [], Print ''e'' []] t"
    by auto
  have "good_card h 0x1000 = memory (\<lambda>_. 0) h 0x1000" for h
    by (simp add: good_card_def clock_dev_def reg_defs)
  then have "cur s' 0x1000 = ucast (capacity_bytes t div 512)"
    using r(2) t(3) by (simp add: cur_def memory_def)
  with s(3) run r(1) t(2) show ?thesis by - (rule exI [of _ s], rule exI [of _ s'], auto)
qed


text \<open>Reading several blocks: it returns, with the number of bytes, and the card stays ready.\<close>

lemma read_blocks_return:
  assumes "ticking d 1000" "fifo_empties d" "dev s = d" "running s" "card_ready s"
  shows "\<exists>s'. run_state (read_blocks n buf block i) s = (True, s') \<and> running s' \<and> dev s' = d \<and>
    card_data s' = card_data s"
  using assms(3-5)
proof (induction n arbitrary: s i)
  case (Suc n)
  let ?m = "real_read_block (block + of_nat i) (Some (buf + block_size s * of_nat i))"
  obtain r s1 where 1: "run_state ?m s = (r, s1)" by fastforce
  have r: r by (rule yieldsD [OF real_read_true 1])
  note e = real_read_returns [OF assms(1,2) Suc.prems, of "block + of_nat i"
      "Some (buf + block_size s * of_nat i)", unfolded 1 snd_conv]
  have c: "card_data s1 = card_data s"
    using keepsD [OF real_read_keeps [of "\<lambda>x. x = card_data s"] _ 1] by simp
  then have "card_ready s1" using Suc.prems(3) by (simp add: card_data_def)
  from Suc.IH [OF e(2,1) this, of "i + 1"] obtain s' where
    "run_state (read_blocks n buf block (i + 1)) s1 = (True, s')" "running s'" "dev s' = d"
    "card_data s' = card_data s1" by blast
  with r 1 c show ?case by (simp add: get_block_size_def)
qed simp

lemma sint_product:
  fixes a b :: u32
  assumes "unat a * unat b < 2 ^ 31"
  shows "sint (a * b) = int (unat a * unat b)"
proof -
  have "unat (a * b) = unat a * unat b" using assms by (simp add: unat_word_ariths)
  then have "uint (a * b) = int (unat a * unat b)" by (metis uint_nat)
  moreover have "int (unat a * unat b) < int (2 ^ 31)" using assms by (simp only: of_nat_less_iff)
  moreover have "- (2 ^ 31) \<le> int (unat a * unat b)" by (rule order_trans [OF _ of_nat_0_le_iff]) simp
  ultimately show ?thesis
    unfolding sint_uint by (simp only:) (simp only: signed_take_bit_int_eq_self_iff, simp)
qed

text \<open>C18.  
A read of the block device always comes back.  On a card whose FIFO empties and with a microsecond
counter that runs, a read of any number of blocks at any place returns, whatever words the card
delivers and however often it reports errors, and the card stays ready for the next.  The result is
the product of block size and count in signed 32 bits: the number of bytes asked for when that is
below 2 GB, the wrapped value beyond.
\<close>

theorem sd_reads_return:
  assumes "ticking (dev s) 1000" "fifo_empties (dev s)" "running s" "card_ready s"
  shows "\<exists>r s'. run_state (sdhost_read_block_wrap buf block count) s = (r, s') \<and>
    running s' \<and> dev s' = dev s \<and> card_ready s' \<and> r = sint (block_size s * count) \<and>
    (unat (block_size s) * unat count < 2 ^ 31 \<longrightarrow> r = int (unat (block_size s) * unat count))"
proof -
  obtain s' where "run_state (read_blocks (unat count) buf block 0) s = (True, s')" "running s'"
    "dev s' = dev s" "card_data s' = card_data s"
    using read_blocks_return [OF assms(1,2) refl assms(3,4)] by blast
  then show ?thesis
    using assms(4) sint_product by (simp add: sdhost_read_block_wrap_def get_block_size_def card_data_def)
qed

theorem sd_reads_return_witness:
  "\<exists>s'. run_state (sdhost_read_block_wrap 0xc0000000 9 3) (sd_boot good_card) = (1536, s') \<and> running s'"
proof -
  have "ticking (dev (sd_boot good_card)) 1000" "fifo_empties (dev (sd_boot good_card))"
    "running (sd_boot good_card)" "card_ready (sd_boot good_card)"
    by (simp_all add: ticking_good_card good_card_empties)
  moreover have "block_size (sd_boot good_card) = 512" by (simp add: sd_boot_def mach.defs)
  ultimately show ?thesis
    using sd_reads_return [of "sd_boot good_card" "0xc0000000" 9 3] by auto
qed

end
