(* ===== verification/Vpu_Threads.thy ===== *)
theory Vpu_Threads
  imports Uart Gpio
begin

unbundle bit_operations_syntax

text \<open>
  Threads of the VPU: the register file, the context switch (\<^verbatim>\<open>arch/vpu/thread_asm.S\<close>,
  \<^verbatim>\<open>thread.c\<close>), the start of a new thread, and the current thread of \<^verbatim>\<open>arch_ops.h\<close>.  The relation
  \<open>scheduled\<close> lets any number of threads compute and switch; each keeps its context.

  The assembly is modelled instruction by instruction.  A multiple store pushes its registers in
  ascending order, a multiple load pops them in descending order: that is the layout of
  \<^verbatim>\<open>vc4_saved_state_t\<close>, whose first word is \<open>r23\<close>.
\<close>

subsection \<open>The register file\<close>

text \<open>\<open>r0\<close> to \<open>r29\<close> are \<^const>\<open>core_r\<close>.\<close>

record core_mach = irq_mach +
  core_sp :: u32
  core_lr :: u32
  core_pc :: u32

type_synonym 'r core_scheme = "'r core_mach_ext irq_mach_scheme"
type_synonym ('r, 'a) core_io = "('r core_mach_ext irq_mach_ext, 'a) io"

lemma core_log_simps [simp]:
  "core_r (log es s) = core_r s" "core_sp (log es s) = core_sp s" "core_lr (log es s) = core_lr s"
  "core_pc (log es s) = core_pc s" "irq_h (log es s) = irq_h s" "irq_arg (log es s) = irq_arg s"
  by (simp_all add: log_def)

definition set_r :: "nat \<Rightarrow> u32 \<Rightarrow> ('r, unit) core_io" where
  "set_r k v = gset (\<lambda>s. s\<lparr>core_r := (core_r s)(k := v)\<rparr>)"

text \<open>\<open>st x, (--sp)\<close> and \<open>ld x, (sp++)\<close>.\<close>

definition push_word :: "u32 \<Rightarrow> ('r, unit) core_io" where
  "push_word v = do {
     gset (\<lambda>s. s\<lparr>core_sp := core_sp s - 4\<rparr>);
     p \<leftarrow> gget core_sp;
     wr p v
   }"

definition pop_word :: "('r, u32) core_io" where
  "pop_word = do {
     p \<leftarrow> gget core_sp;
     v \<leftarrow> rd p;
     gset (\<lambda>s. s\<lparr>core_sp := core_sp s + 4\<rparr>);
     return v
   }"

definition stm_lr :: "('r, unit) core_io" where
  "stm_lr = do { v \<leftarrow> gget core_lr; push_word v }"

definition ld_lr :: "('r, unit) core_io" where
  "ld_lr = do { v \<leftarrow> pop_word; gset (\<lambda>s. s\<lparr>core_lr := v\<rparr>) }"

text \<open>\<open>stm ri-rj, (--sp)\<close> and \<open>ldm ri-rj, (sp++)\<close>.\<close>

definition stm :: "nat \<Rightarrow> nat \<Rightarrow> ('r, unit) core_io" where
  "stm i j = for_each [i..<Suc j] (\<lambda>k. do { v \<leftarrow> gget (\<lambda>s. core_r s k); push_word v })"

definition ldm :: "nat \<Rightarrow> nat \<Rightarrow> ('r, unit) core_io" where
  "ldm i j = for_each (rev [i..<Suc j]) (\<lambda>k. do { v \<leftarrow> pop_word; set_r k v })"

text \<open>Return from an exception: the status register, then the program counter.\<close>

definition rti :: "('r, unit) core_io" where
  "rti = do {
     st \<leftarrow> pop_word;
     target \<leftarrow> pop_word;
     gset (\<lambda>s. s\<lparr>sr := st\<rparr>);
     gset (\<lambda>s. s\<lparr>core_pc := target\<rparr>)
   }"

definition rts :: "('r, unit) core_io" where
  "rts = gset (\<lambda>s. s\<lparr>core_pc := core_lr s\<rparr>)"

subsection \<open>The context switch\<close>

text \<open>
  \<open>finish\<close> is the address of \<^verbatim>\<open>vc4_context_switch_finish\<close>, where \<open>rti\<close> lands with the status
  register of the new thread; the instruction there is \<open>rts\<close>.
\<close>

definition vc4_context_switch_finish :: "('r, unit) core_io" where
  "vc4_context_switch_finish = rts"

definition vc4_context_switch :: "u32 \<Rightarrow> ('r, unit) core_io" where
  "vc4_context_switch finish = do {
     stm_lr;
     stm 6 15;
     stm 16 23;
     p \<leftarrow> gget core_sp;
     old \<leftarrow> gget (\<lambda>s. core_r s 0);
     wr old p;
     st \<leftarrow> gget sr;
     set_r 2 st;
     wr (old + 4) st;
     new \<leftarrow> gget (\<lambda>s. core_r s 1);
     q \<leftarrow> rd new;
     gset (\<lambda>s. s\<lparr>core_sp := q\<rparr>);
     set_r 3 q;
     ldm 16 23;
     ldm 6 15;
     l \<leftarrow> pop_word;
     set_r 0 l;
     gset (\<lambda>s. s\<lparr>core_lr := l\<rparr>);
     set_r 0 finish;
     push_word finish;
     new' \<leftarrow> gget (\<lambda>s. core_r s 1);
     st' \<leftarrow> rd (new' + 4);
     set_r 1 st';
     push_word st';
     rti;
     target \<leftarrow> gget core_pc;
     when_io (target = finish) vc4_context_switch_finish
   }"

text \<open>The C function around it: the arguments go to \<open>r0\<close> and \<open>r1\<close>, the call sets the link register.\<close>

definition arch_context_switch :: "u32 \<Rightarrow> u32 \<Rightarrow> u32 \<Rightarrow> u32 \<Rightarrow> ('r, unit) core_io" where
  "arch_context_switch finish ret oldthread newthread = do {
     set_r 0 oldthread;
     set_r 1 newthread;
     gset (\<lambda>s. s\<lparr>core_lr := ret\<rparr>);
     vc4_context_switch finish
   }"

subsection \<open>Stacks\<close>

text \<open>What a run printed.\<close>

primrec printed_lines :: "event list \<Rightarrow> (string \<times> arg list) list" where
  "printed_lines [] = []"
| "printed_lines (e # es) = (case e of Print f xs \<Rightarrow> [(f, xs)] | _ \<Rightarrow> []) @ printed_lines es"

lemma printed_lines_append [simp]: "printed_lines (es @ fs) = printed_lines es @ printed_lines fs"
  by (induction es) simp_all

text \<open>The words from \<open>p\<close> upwards are \<open>vs\<close>.\<close>

primrec stack_at :: "'r mach_scheme \<Rightarrow> u32 \<Rightarrow> u32 list \<Rightarrow> bool" where
  "stack_at s p [] \<longleftrightarrow> True"
| "stack_at s p (v # vs) \<longleftrightarrow> cur s p = v \<and> stack_at s (p + 4) vs"

text \<open>Every address is storage.\<close>

definition ram :: "device \<Rightarrow> bool" where
  "ram d \<longleftrightarrow> (\<forall>a. plain_at d a)"

text \<open>The addresses of \<open>n\<close> words from \<open>p\<close> upwards.\<close>

definition words :: "u32 \<Rightarrow> nat \<Rightarrow> u32 set" where
  "words p n = (\<lambda>i. p + 4 * of_nat i) ` {..<n}"

lemma words_Suc: "words p (Suc n) = insert p (words (p + 4) n)"
proof -
  have "words p (Suc n) = (\<lambda>i. p + 4 * of_nat i) ` insert 0 (Suc ` {..<n})"
    by (simp add: words_def lessThan_Suc_eq_insert_0)
  then show ?thesis by (simp add: words_def image_image algebra_simps)
qed

lemma words_0 [simp]: "words p 0 = {}"
  by (simp add: words_def)

lemma below_words: "n < 2 ^ 30 \<Longrightarrow> p - 4 \<notin> words p n"
proof
  assume n: "n < 2 ^ 30" and "p - 4 \<in> words p n"
  then obtain i where i: "i < n" "p - 4 = p + 4 * of_nat i" by (auto simp: words_def)
  from i(2) have "(4 :: u32) * of_nat (Suc i) = 4 * of_nat 0" by (simp add: algebra_simps)
  from mult4_inj [OF this] i(1) n show False by simp
qed

lemma stack_at_cong:
  "(\<And>a. a \<in> words p (length vs) \<Longrightarrow> cur s' a = cur s a) \<Longrightarrow> stack_at s' p vs \<longleftrightarrow> stack_at s p vs"
  by (induction vs arbitrary: p) (simp_all add: words_Suc)

lemma stack_at_append: "stack_at s p (vs @ ws) \<longleftrightarrow> stack_at s p vs \<and> stack_at s (p + 4 * of_nat (length vs)) ws"
  by (induction vs arbitrary: p) (simp_all add: algebra_simps)

lemma stack_at_nth: "stack_at s p vs \<longleftrightarrow> (\<forall>i < length vs. cur s (p + 4 * of_nat i) = vs ! i)"
proof (induction vs arbitrary: p)
  case (Cons v vs)
  show ?case by (simp add: Cons All_less_Suc2 algebra_simps)
qed simp

lemma ram_read:
  "ram d \<Longrightarrow> d (h @ es) a = (case last_write a es of Some v \<Rightarrow> v | None \<Rightarrow> d h a)"
proof -
  assume "ram d"
  then have p: "d h' a = (case last_write a h' of Some v \<Rightarrow> v | None \<Rightarrow> d [] a)" for h'
    unfolding ram_def plain_at_def by blast
  show ?thesis unfolding p [of "h @ es"] p [of h] by (simp split: option.split)
qed

lemma cur_wr: "ram (dev s) \<Longrightarrow> cur (log [Wr a v] s) b = (if a = b then v else cur s b)"
  by (simp add: ram_def plain_cur_log)

lemma cur_rd: "ram (dev s) \<Longrightarrow> cur (log [Rd a] s) b = cur s b"
  by (simp add: ram_def plain_cur_log)

text \<open>Pushing a word, and popping one.\<close>

definition at_sp :: "u32 \<Rightarrow> event list \<Rightarrow> 'r core_scheme \<Rightarrow> 'r core_scheme" where
  "at_sp p es s = log es (s\<lparr>core_sp := p\<rparr>)"

lemma at_sp_simps [simp]:
  "core_sp (at_sp p es s) = p" "core_r (at_sp p es s) = core_r s" "core_lr (at_sp p es s) = core_lr s"
  "core_pc (at_sp p es s) = core_pc s" "sr (at_sp p es s) = sr s" "dev (at_sp p es s) = dev s"
  "status (at_sp p es s) = status s" "bus (at_sp p es s) = bus s @ es"
  "at_sp q fs (at_sp p es s) = at_sp q (es @ fs) s"
  by (simp_all add: at_sp_def log_def)

lemma cur_at_sp: "cur (at_sp p es s) a = cur (log es s) a"
  by (simp add: cur_def)

lemma run_push_word:
  "running s \<Longrightarrow> run_state (push_word v) s = ((), at_sp (core_sp s - 4) [Wr (core_sp s - 4) v] s)"
  by (simp add: push_word_def at_sp_def log_def)

lemma run_pop_word:
  "running s \<Longrightarrow> run_state pop_word s = (cur s (core_sp s), at_sp (core_sp s + 4) [Rd (core_sp s)] s)"
  by (simp add: pop_word_def at_sp_def log_def)

text \<open>
  What a sequence of pushes leaves: the words on the stack, the first pushed uppermost; nothing
  outside them has changed.
\<close>

lemma run_pushes:
  fixes s :: "'r core_scheme"
  assumes "running s" "ram (dev s)" "stack_at s (core_sp s) vs" "length ks + length vs < 2 ^ 30"
    and "run_state (for_each ks (\<lambda>k. do { v \<leftarrow> gget (\<lambda>s. core_r s k); push_word v })) s = ((), s')"
  shows "\<exists>es. s' = at_sp (core_sp s - 4 * of_nat (length ks)) es s \<and> printed_lines es = [] \<and>
    stack_at s' (core_sp s') (map (core_r s) (rev ks) @ vs) \<and>
    (\<forall>a. a \<notin> words (core_sp s') (length ks) \<longrightarrow> cur s' a = cur s a)"
  using assms
proof (induction ks arbitrary: s vs)
  case Nil
  then show ?case by (intro exI [of _ "[]"]) (simp add: at_sp_def)
next
  case (Cons k ks)
  let ?p = "core_sp s - 4"
  let ?s = "at_sp ?p [Wr ?p (core_r s k)] s"
  have ram: "ram (dev ?s)" using Cons.prems(2) by simp
  have c: "cur ?s a = (if ?p = a then core_r s k else cur s a)" for a
    by (simp add: cur_at_sp cur_wr [OF Cons.prems(2)])
  have "?p \<notin> words (core_sp s) (length vs)"
    using below_words [of "length vs" "core_sp s"] Cons.prems(4) by simp
  then have "cur ?s a = cur s a" if "a \<in> words (core_sp s) (length vs)" for a
    using that unfolding c by (metis (full_types))
  then have "stack_at ?s (core_sp s) vs"
    using stack_at_cong [of "core_sp s" vs ?s s] Cons.prems(3) by blast
  then have st: "stack_at ?s (core_sp ?s) (core_r s k # vs)" by (simp add: c)
  have run: "run_state (for_each ks (\<lambda>k. do { v \<leftarrow> gget (\<lambda>s. core_r s k); push_word v })) ?s = ((), s')"
    using Cons.prems(1,5) by (simp add: run_push_word)
  obtain es where es: "s' = at_sp (core_sp ?s - 4 * of_nat (length ks)) es ?s"
    "stack_at s' (core_sp s') (map (core_r ?s) (rev ks) @ core_r s k # vs)"
    "printed_lines es = []"
    and mem: "\<forall>a. a \<notin> words (core_sp s') (length ks) \<longrightarrow> cur s' a = cur ?s a"
    using Cons.IH [OF _ ram st _ run] Cons.prems(1,4) by auto
  have top: "?p = core_sp s' + 4 * of_nat (length ks)" by (simp add: es(1))
  then have "?p \<in> words (core_sp s') (length (k # ks))" by (auto simp: words_def)
  moreover have "words (core_sp s') (length ks) \<subseteq> words (core_sp s') (length (k # ks))"
    by (auto simp: words_def)
  ultimately have "cur s' a = cur s a" if "a \<notin> words (core_sp s') (length (k # ks))" for a
    using that mem unfolding c by (cases "?p = a") auto
  moreover have "s' = at_sp (core_sp s - 4 * of_nat (length (k # ks))) (Wr ?p (core_r s k) # es) s"
    by (simp add: es(1) algebra_simps)
  ultimately show ?case using es(2,3) by (intro exI [of _ "Wr ?p (core_r s k) # es"]) simp
qed

text \<open>What a sequence of pops into registers leaves.\<close>

definition with_r :: "(nat \<Rightarrow> u32) \<Rightarrow> 'r core_scheme \<Rightarrow> 'r core_scheme" where
  "with_r R s = s\<lparr>core_r := R\<rparr>"

lemma with_r_simps [simp]:
  "core_sp (with_r R s) = core_sp s" "core_r (with_r R s) = R" "core_lr (with_r R s) = core_lr s"
  "core_pc (with_r R s) = core_pc s" "sr (with_r R s) = sr s" "dev (with_r R s) = dev s"
  "status (with_r R s) = status s" "bus (with_r R s) = bus s"
  "with_r Q (with_r R s) = with_r Q s" "at_sp p es (with_r R s) = with_r R (at_sp p es s)"
  by (simp_all add: with_r_def at_sp_def log_def)

lemma cur_with_r [simp]: "cur (with_r R s) = cur s"
  by (simp add: cur_def fun_eq_iff)

lemma run_set_r: "running s \<Longrightarrow> run_state (set_r k v) s = ((), with_r ((core_r s)(k := v)) s)"
  by (simp add: set_r_def with_r_def)

lemma run_pops:
  fixes s :: "'r core_scheme"
  assumes "running s" "ram (dev s)" "stack_at s (core_sp s) (map f ks @ vs)"
    and "run_state (for_each ks (\<lambda>k. do { v \<leftarrow> pop_word; set_r k v })) s = ((), s')"
  shows "\<exists>es. s' = with_r (\<lambda>k. if k \<in> set ks then f k else core_r s k)
      (at_sp (core_sp s + 4 * of_nat (length ks)) es s) \<and>
    stack_at s' (core_sp s') vs \<and> (\<forall>a. cur s' a = cur s a)"
  using assms
proof (induction ks arbitrary: s)
  case Nil
  then show ?case by (intro exI [of _ "[]"]) (simp add: at_sp_def with_r_def)
next
  case (Cons k ks)
  let ?s = "with_r ((core_r s)(k := f k)) (at_sp (core_sp s + 4) [Rd (core_sp s)] s)"
  have c: "cur ?s a = cur s a" for a by (simp add: cur_at_sp cur_rd [OF Cons.prems(2)])
  have st: "stack_at ?s (core_sp ?s) (map f ks @ vs)"
    using Cons.prems(3) stack_at_cong [of "core_sp s + 4" "map f ks @ vs" ?s s] c by simp
  have run: "run_state (for_each ks (\<lambda>k. do { v \<leftarrow> pop_word; set_r k v })) ?s = ((), s')"
    using Cons.prems by (simp add: run_pop_word run_set_r)
  obtain es where es: "s' = with_r (\<lambda>k. if k \<in> set ks then f k else core_r ?s k)
      (at_sp (core_sp ?s + 4 * of_nat (length ks)) es ?s)"
    "stack_at s' (core_sp s') vs" "\<forall>a. cur s' a = cur ?s a"
    using Cons.IH [OF _ _ st run] Cons.prems(1,2) by auto
  have R: "(\<lambda>j. if j \<in> set ks then f j else core_r ?s j) =
      (\<lambda>j. if j \<in> set (k # ks) then f j else core_r s j)"
    by (auto simp: fun_eq_iff)
  have "s' = with_r (\<lambda>j. if j \<in> set (k # ks) then f j else core_r s j)
      (at_sp (core_sp s + 4 * of_nat (length (k # ks))) (Rd (core_sp s) # es) s)"
    unfolding es(1) R by (simp add: add.assoc)
  then show ?case using es(2,3) c by (intro exI [of _ "Rd (core_sp s) # es"]) simp
qed

subsection \<open>A suspended thread\<close>

text \<open>What a thread resumes with.\<close>

record thread_context =
  c_regs :: "nat \<Rightarrow> u32"
  c_lr :: u32
  c_sp :: u32
  c_sr :: u32

definition context_of :: "'r core_scheme \<Rightarrow> thread_context" where
  "context_of s = \<lparr>c_regs = core_r s, c_lr = core_lr s, c_sp = core_sp s, c_sr = sr s\<rparr>"

lemma context_of_simps [simp]:
  "c_regs (context_of s) = core_r s" "c_lr (context_of s) = core_lr s"
  "c_sp (context_of s) = core_sp s" "c_sr (context_of s) = sr s"
  by (simp_all add: context_of_def)

definition regs_down :: "nat \<Rightarrow> nat \<Rightarrow> nat list" where
  "regs_down i j = rev [i..<Suc j]"

definition saved_regs :: "nat list" where
  "saved_regs = regs_down 16 23 @ regs_down 6 15"

lemma regs_down_simps [simp]:
  "set (regs_down i j) = {i..j}" "length (regs_down i j) = Suc j - i"
  by (auto simp: regs_down_def)

lemma run_stm:
  fixes s :: "'r core_scheme"
  assumes "running s" "ram (dev s)" "stack_at s (core_sp s) vs" "Suc j - i + length vs < 2 ^ 30"
    and run: "run_state (stm i j) s = ((), s')"
  shows "\<exists>es. s' = at_sp (core_sp s - 4 * of_nat (Suc j - i)) es s \<and> printed_lines es = [] \<and>
    stack_at s' (core_sp s') (map (core_r s) (regs_down i j) @ vs) \<and>
    (\<forall>a. a \<notin> words (core_sp s') (Suc j - i) \<longrightarrow> cur s' a = cur s a)"
  using run_pushes [OF assms(1-3) _ run [unfolded stm_def]] assms(4)
  by (simp add: regs_down_def del: upt_Suc)

lemma run_ldm:
  fixes s :: "'r core_scheme"
  assumes "running s" "ram (dev s)" "stack_at s (core_sp s) (map f (regs_down i j) @ vs)"
    and run: "run_state (ldm i j) s = ((), s')"
  shows "\<exists>es. s' = with_r (\<lambda>k. if k \<in> {i..j} then f k else core_r s k)
      (at_sp (core_sp s + 4 * of_nat (Suc j - i)) es s) \<and>
    stack_at s' (core_sp s') vs \<and> (\<forall>a. cur s' a = cur s a)"
  using run_pops [OF assms(1,2) _ run [unfolded ldm_def], of f vs] assms(3)
  by (simp add: regs_down_def atLeastLessThanSuc_atLeastAtMost del: upt_Suc)

text \<open>
  The memory of the thread whose \<^verbatim>\<open>arch_thread\<close> lies at \<open>t\<close>: its stack pointer, its status
  register, and 19 words on its stack.
\<close>

definition suspended :: "'r mach_scheme \<Rightarrow> u32 \<Rightarrow> thread_context \<Rightarrow> bool" where
  "suspended s t c \<longleftrightarrow> cur s t = c_sp c - 76 \<and> cur s (t + 4) = c_sr c \<and>
     stack_at s (c_sp c - 76) (map (c_regs c) saved_regs @ [c_lr c])"

definition footprint :: "u32 \<Rightarrow> u32 \<Rightarrow> u32 set" where
  "footprint t p = {t, t + 4} \<union> words (p - 76) 19"

definition resumes :: "'r core_scheme \<Rightarrow> thread_context \<Rightarrow> bool" where
  "resumes s c \<longleftrightarrow> (\<forall>k \<in> {6..23}. core_r s k = c_regs c k) \<and> core_sp s = c_sp c \<and>
     core_lr s = c_lr c \<and> core_pc s = c_lr c \<and> sr s = c_sr c"

lemma set_saved_regs: "set saved_regs = {6..23}"
  by (auto simp: saved_regs_def)

lemma length_saved: "length (map f saved_regs @ [l]) = 19"
  by (simp add: saved_regs_def)

lemma suspended_cong:
  "(\<And>a. a \<in> footprint t (c_sp c) \<Longrightarrow> cur s' a = cur s a) \<Longrightarrow> suspended s' t c \<longleftrightarrow> suspended s t c"
  using stack_at_cong [of "c_sp c - 76" "map (c_regs c) saved_regs @ [c_lr c]" s' s]
  unfolding suspended_def footprint_def length_saved by auto

lemma words_part: "i + n \<le> m \<Longrightarrow> words (p + 4 * of_nat i) n \<subseteq> words p m"
proof
  fix a assume "i + n \<le> m" "a \<in> words (p + 4 * of_nat i) n"
  then obtain k where "k < n" "a = p + 4 * of_nat (i + k)" by (auto simp: words_def algebra_simps)
  with \<open>i + n \<le> m\<close> show "a \<in> words p m"
    unfolding words_def by (intro image_eqI [where x = "i + k"]) auto
qed

lemma word_part: "i < m \<Longrightarrow> p + 4 * of_nat i \<in> words p m"
  by (auto simp: words_def)

text \<open>The two halves of the switch: saving the registers, and loading the others.\<close>

definition save_frame :: "('r, unit) core_io" where
  "save_frame = do { stm_lr; stm 6 15; stm 16 23 }"

definition load_frame :: "('r, u32) core_io" where
  "load_frame = do { ldm 16 23; ldm 6 15; pop_word }"

lemma run_save_frame:
  fixes s :: "'r core_scheme"
  assumes s: "running s" "ram (dev s)" and run: "run_state save_frame s = ((), s')"
  shows "\<exists>es. s' = at_sp (core_sp s - 76) es s \<and>
    stack_at s' (core_sp s - 76) (map (core_r s) saved_regs @ [core_lr s]) \<and>
    (\<forall>a. a \<notin> words (core_sp s - 76) 19 \<longrightarrow> cur s' a = cur s a)"
proof -
  let ?p = "core_sp s - 4"
  let ?s1 = "at_sp ?p [Wr ?p (core_lr s)] s"
  obtain s2 where r2: "run_state (stm 6 15) ?s1 = ((), s2)" using run_unit by blast
  have st1: "stack_at ?s1 (core_sp ?s1) [core_lr s]" by (simp add: cur_at_sp cur_wr [OF s(2)])
  obtain es where e2: "s2 = at_sp (core_sp s - 44) es ?s1"
    "stack_at s2 (core_sp s2) (map (core_r s) (regs_down 6 15) @ [core_lr s])"
    "\<forall>a. a \<notin> words (core_sp s - 44) 10 \<longrightarrow> cur s2 a = cur ?s1 a"
    using run_stm [OF _ _ st1 _ r2] s by auto
  have d2: "running s2" "ram (dev s2)" using s by (simp_all add: e2(1))
  have r3: "run_state (stm 16 23) s2 = ((), s')"
    using run s(1) r2 by (simp add: save_frame_def stm_lr_def run_push_word)
  obtain fs where e3: "s' = at_sp (core_sp s - 76) fs s2"
    "stack_at s' (core_sp s - 76) (map (core_r s) saved_regs @ [core_lr s])"
    "\<forall>a. a \<notin> words (core_sp s - 76) 8 \<longrightarrow> cur s' a = cur s2 a"
    using run_stm [OF d2 e2(2) _ r3] by (auto simp: e2(1) saved_regs_def)
  have s': "s' = at_sp (core_sp s - 76) (Wr ?p (core_lr s) # es @ fs) s"
    by (simp add: e3(1) e2(1))
  have w: "words (core_sp s - 76) 8 \<subseteq> words (core_sp s - 76) 19"
    "words (core_sp s - 44) 10 \<subseteq> words (core_sp s - 76) 19" "?p \<in> words (core_sp s - 76) 19"
    using words_part [of 0 8 19 "core_sp s - 76"] words_part [of 8 10 19 "core_sp s - 76"]
      word_part [of 18 19 "core_sp s - 76"] by simp_all
  have "cur s' a = cur s a" if a: "a \<notin> words (core_sp s - 76) 19" for a
  proof -
    have "cur s' a = cur s2 a" using e3(3) w(1) a by blast
    also have "\<dots> = cur ?s1 a" using e2(3) w(2) a by blast
    also have "\<dots> = cur s a" using w(3) a by (auto simp: cur_at_sp cur_wr [OF s(2)])
    finally show ?thesis .
  qed
  then show ?thesis using s' e3(2) by blast
qed

lemma run_load_frame:
  fixes s :: "'r core_scheme"
  assumes s: "running s" "ram (dev s)" "stack_at s (core_sp s) (map f saved_regs @ [l])"
    and run: "run_state load_frame s = (v, s')"
  shows "v = l \<and> (\<exists>es. s' = with_r (\<lambda>k. if k \<in> {6..23} then f k else core_r s k) (at_sp (core_sp s + 76) es s)) \<and>
    (\<forall>a. cur s' a = cur s a)"
proof -
  obtain s1 where r1: "run_state (ldm 16 23) s = ((), s1)" using run_unit by blast
  have st: "stack_at s (core_sp s) (map f (regs_down 16 23) @ map f (regs_down 6 15) @ [l])"
    using s(3) by (simp add: saved_regs_def)
  from run_ldm [OF s(1,2) st r1] obtain es where e1:
    "s1 = with_r (\<lambda>k. if k \<in> {16..23} then f k else core_r s k) (at_sp (core_sp s + 32) es s)"
    "stack_at s1 (core_sp s1) (map f (regs_down 6 15) @ [l])" "\<forall>a. cur s1 a = cur s a" by auto
  have d1: "running s1" "ram (dev s1)" using s by (simp_all add: e1(1))
  obtain s2 where r2: "run_state (ldm 6 15) s1 = ((), s2)" using run_unit by blast
  from run_ldm [OF d1 e1(2) r2] obtain fs where e2:
    "s2 = with_r (\<lambda>k. if k \<in> {6..15} then f k else core_r s1 k) (at_sp (core_sp s1 + 40) fs s1)"
    "stack_at s2 (core_sp s2) [l]" "\<forall>a. cur s2 a = cur s1 a" by auto
  have d2: "running s2" "ram (dev s2)" using d1 by (simp_all add: e2(1))
  have fin: "v = l" "s' = at_sp (core_sp s2 + 4) [Rd (core_sp s2)] s2"
    using run e2(2) by (simp_all add: load_frame_def r1 r2 run_pop_word [OF d2(1)])
  have R: "(\<lambda>k. if k \<in> {6..15} then f k else core_r s1 k) =
      (\<lambda>k. if k \<in> {6..23} then f k else core_r s k)"
    by (auto simp: fun_eq_iff e1(1))
  have "s' = with_r (\<lambda>k. if k \<in> {6..23} then f k else core_r s k)
      (at_sp (core_sp s + 76) (es @ fs @ [Rd (core_sp s2)]) s)"
    unfolding fin(2) e2(1) R by (simp add: e1(1) add.assoc)
  moreover have "\<forall>a. cur s' a = cur s a"
    by (simp add: fin(2) cur_at_sp cur_rd [OF d2(2)] e2(3) e1(3))
  ultimately show ?thesis using fin(1) by blast
qed

text \<open>Between them the stacks are swapped; after them the switch returns to the new thread.\<close>

definition swap_stacks :: "('r, unit) core_io" where
  "swap_stacks = do {
     p \<leftarrow> gget core_sp;
     old \<leftarrow> gget (\<lambda>s. core_r s 0);
     wr old p;
     st \<leftarrow> gget sr;
     set_r 2 st;
     wr (old + 4) st;
     new \<leftarrow> gget (\<lambda>s. core_r s 1);
     q \<leftarrow> rd new;
     gset (\<lambda>s. s\<lparr>core_sp := q\<rparr>);
     set_r 3 q
   }"

definition switch_return :: "u32 \<Rightarrow> u32 \<Rightarrow> ('r, unit) core_io" where
  "switch_return finish l = do {
     set_r 0 l;
     gset (\<lambda>s. s\<lparr>core_lr := l\<rparr>);
     set_r 0 finish;
     push_word finish;
     new' \<leftarrow> gget (\<lambda>s. core_r s 1);
     st' \<leftarrow> rd (new' + 4);
     set_r 1 st';
     push_word st';
     rti;
     target \<leftarrow> gget core_pc;
     when_io (target = finish) vc4_context_switch_finish
   }"

lemma vc4_context_switch_parts:
  "vc4_context_switch finish =
     do { save_frame; swap_stacks; l \<leftarrow> load_frame; switch_return finish l }"
  by (simp only: vc4_context_switch_def save_frame_def load_frame_def swap_stacks_def
      switch_return_def State_Monad.bind_assoc)

text \<open>
  The end of the switch: \<open>rti\<close> takes the new status register and lands at \<open>finish\<close>, which
  returns to the new thread's link register.
\<close>

lemma run_switch_end:
  fixes s :: "'r core_scheme"
  assumes s: "running s" "ram (dev s)" and n: "core_r s 1 = new" "new + 4 \<noteq> core_sp s - 4"
    and run: "run_state (switch_return finish l) s = ((), s')"
  shows "running s' \<and> dev s' = dev s \<and> core_r s' = (core_r s)(0 := finish, 1 := cur s (new + 4)) \<and>
    core_sp s' = core_sp s \<and> core_lr s' = l \<and> core_pc s' = l \<and> sr s' = cur s (new + 4) \<and>
    (\<forall>a. a \<notin> {core_sp s - 4, core_sp s - 8} \<longrightarrow> cur s' a = cur s a)"
proof -
  have s': "s' = log [Rd (core_sp s - 4)]
      (log [Wr (core_sp s - 8) (cur s (new + 4)), Rd (core_sp s - 8)]
        (log [Wr (core_sp s - 4) finish, Rd (new + 4)]
          (s\<lparr>core_lr := l, core_r := (core_r s)(0 := finish), core_sp := core_sp s - 4\<rparr>)
         \<lparr>core_r := (core_r s)(0 := finish, 1 := cur s (new + 4)), core_sp := core_sp s - 8\<rparr>)
       \<lparr>core_sp := core_sp s - 4\<rparr>)
     \<lparr>core_sp := core_sp s, sr := cur s (new + 4), core_pc := l\<rparr>"
    using run s n
    by (simp add: switch_return_def set_r_def push_word_def pop_word_def rti_def rts_def vc4_context_switch_finish_def
        cur_def ram_read)
  have "bus s' = bus s @ [Wr (core_sp s - 4) finish, Rd (new + 4), Wr (core_sp s - 8) (cur s (new + 4)),
      Rd (core_sp s - 8), Rd (core_sp s - 4)]" "dev s' = dev s"
    by (simp_all add: s')
  then have "cur s' a = cur s a" if "a \<notin> {core_sp s - 4, core_sp s - 8}" for a
    using that by (simp add: cur_def ram_read [OF s(2)])
  then show ?thesis using s(1) by (simp add: s')
qed

text \<open>
  One switch, from the running thread, whose \<^verbatim>\<open>arch_thread\<close> is at \<open>old\<close>, to a suspended one.
\<close>

lemma run_context_switch:
  fixes s :: "'r core_scheme"
  assumes s: "running s" "ram (dev s)" and susp: "suspended s new c"
    and own: "old \<notin> words (core_sp s - 76) 19" "old + 4 \<notin> words (core_sp s - 76) 19"
    and other: "footprint new (c_sp c) \<inter> footprint old (core_sp s) = {}" "new + 4 \<notin> words (c_sp c - 76) 19"
    and run: "run_state (arch_context_switch finish ret old new) s = ((), s')"
  shows "running s' \<and> dev s' = dev s \<and> resumes s' c \<and>
    suspended s' old (context_of s\<lparr>c_lr := ret\<rparr>) \<and>
    (\<forall>a. a \<notin> footprint old (core_sp s) \<union> words (c_sp c - 76) 19 \<longrightarrow> cur s' a = cur s a)"
proof -
  define t where "t = (with_r ((core_r s)(0 := old, 1 := new)) s)\<lparr>core_lr := ret\<rparr>"
  have t: "running t" "ram (dev t)" "core_sp t = core_sp s" "core_lr t = ret" "sr t = sr s" "dev t = dev s"
    "core_r t = (core_r s)(0 := old, 1 := new)" "\<And>a. cur t a = cur s a"
    using s by (simp_all add: t_def cur_def)
  have run_t: "run_state (vc4_context_switch finish) t = ((), s')"
    using run s(1) by (simp add: arch_context_switch_def run_set_r t_def)
  have saved: "map (core_r t) saved_regs = map (core_r s) saved_regs"
    by (simp add: t set_saved_regs)
  obtain s1 where r1: "run_state save_frame t = ((), s1)" using run_unit by blast
  from run_save_frame [OF t(1,2) r1] obtain es where e1: "s1 = at_sp (core_sp s - 76) es t"
    "stack_at s1 (core_sp s - 76) (map (core_r s) saved_regs @ [ret])"
    "\<forall>a. a \<notin> words (core_sp s - 76) 19 \<longrightarrow> cur s1 a = cur s a"
    unfolding saved by (auto simp: t)
  define s2 where "s2 = with_r ((core_r s)(0 := old, 1 := new, 2 := sr s))
    (log [Wr old (core_sp s - 76), Wr (old + 4) (sr s)] s1)"
  have m2: "cur s2 a = (if a = old then core_sp s - 76 else if a = old + 4 then sr s else cur s1 a)" for a
    using t(2) by (simp add: s2_def e1(1) cur_def ram_read)
  have old: "cur s2 a = cur s a" if "a \<notin> footprint old (core_sp s)" for a
    using that e1(3) by (simp add: m2 footprint_def)
  have susp2: "suspended s2 new c"
    using suspended_cong [of new c s2 s] old other(1) susp by blast
  then have q: "cur s2 new = c_sp c - 76" "cur s2 (new + 4) = c_sr c"
    "stack_at s2 (c_sp c - 76) (map (c_regs c) saved_regs @ [c_lr c])"
    by (simp_all add: suspended_def)
  define s3 where "s3 = with_r ((core_r s)(0 := old, 1 := new, 2 := sr s, 3 := c_sp c - 76))
    (at_sp (c_sp c - 76) [Rd new] s2)"
  have m3: "cur s3 a = cur s2 a" for a
    using t(2) by (simp add: s3_def s2_def e1(1) cur_def ram_read)
  have d3: "running s3" "ram (dev s3)" using t(1,2) by (simp_all add: s3_def s2_def e1(1))
  have st3: "stack_at s3 (core_sp s3) (map (c_regs c) saved_regs @ [c_lr c])"
    using q(3) stack_at_cong [of "c_sp c - 76" "map (c_regs c) saved_regs @ [c_lr c]" s3 s2] m3
    by (simp add: s3_def)
  obtain l s4 where r4: "run_state load_frame s3 = (l, s4)" by fastforce
  from run_load_frame [OF d3 st3 r4] obtain fs where e4: "l = c_lr c"
    "s4 = with_r (\<lambda>k. if k \<in> {6..23} then c_regs c k else core_r s3 k) (at_sp (c_sp c) fs s3)"
    "\<forall>a. cur s4 a = cur s3 a"
    by (auto simp: s3_def)
  have d4: "running s4" "ram (dev s4)" "core_r s4 1 = new" "core_sp s4 = c_sp c" "dev s4 = dev s"
    using d3 t(6) by (simp_all add: e4(2) s3_def s2_def e1(1))
  have top: "c_sp c - 4 \<in> words (c_sp c - 76) 19" "c_sp c - 8 \<in> words (c_sp c - 76) 19"
    using word_part [of 18 19 "c_sp c - 76"] word_part [of 17 19 "c_sp c - 76"] by simp_all
  have ne: "new + 4 \<noteq> core_sp s4 - 4"
    using other(2) top unfolding d4(4) by metis
  have [simp]: "running s1" using t(1) by (simp add: e1(1))
  have c1: "core_sp s1 = core_sp s - 76" "core_r s1 = (core_r s)(0 := old, 1 := new)" "sr s1 = sr s"
    by (simp_all add: e1(1) t)
  have r3: "run_state swap_stacks s1 = ((), s3)"
    using q(1)
    by (simp add: swap_stacks_def set_r_def s3_def s2_def at_sp_def with_r_def log_def c1 cur_def)
  have "run_state (switch_return finish l) s4 = ((), s')"
    using run_t unfolding vc4_context_switch_parts by (simp add: r1 r3 r4)
  note fin = run_switch_end [OF d4(1,2,3) ne this]
  have keep: "cur s' a = cur s2 a" if "a \<notin> words (c_sp c - 76) 19" for a
  proof -
    have "a \<noteq> c_sp c - 4" "a \<noteq> c_sp c - 8" using that top by blast+
    then show ?thesis using fin by (simp add: d4(4) e4(3) m3)
  qed
  have "suspended s2 old (context_of s\<lparr>c_lr := ret\<rparr>)"
  proof -
    have "cur s2 a = cur s1 a" if "a \<in> words (core_sp s - 76) 19" for a
    proof -
      from that own have "a \<noteq> old" "a \<noteq> old + 4" by blast+
      then show ?thesis by (simp add: m2)
    qed
    then have "stack_at s2 (core_sp s - 76) (map (core_r s) saved_regs @ [ret])"
      using e1(2) stack_at_cong [of "core_sp s - 76" "map (core_r s) saved_regs @ [ret]" s2 s1]
      unfolding length_saved by blast
    then show ?thesis using m2 [of old] m2 [of "old + 4"] by (simp add: suspended_def)
  qed
  moreover have "cur s' a = cur s2 a" if "a \<in> footprint old (core_sp s)" for a
    using that keep other(1) by (auto simp: footprint_def)
  ultimately have "suspended s' old (context_of s\<lparr>c_lr := ret\<rparr>)"
    using suspended_cong [of old "context_of s\<lparr>c_lr := ret\<rparr>" s' s2] by simp
  moreover have "cur s' a = cur s a"
    if "a \<notin> footprint old (core_sp s) \<union> words (c_sp c - 76) 19" for a
    using that keep old by simp
  moreover have "resumes s' c"
  proof -
    have "sr s' = c_sr c" using fin e4(3) m3 q(2) by simp
    moreover have "core_r s4 k = c_regs c k" if "k \<in> {6..23}" for k using that by (simp add: e4(2))
    ultimately show ?thesis using fin by (simp add: resumes_def d4(4) e4(1))
  qed
  moreover have "running s'" "dev s' = dev s" using fin d4(5) by simp_all
  ultimately show ?thesis by blast
qed

subsection \<open>Any number of threads\<close>

text \<open>
  The threads of the system are the addresses of their \<^verbatim>\<open>arch_thread\<close>s; \<open>stk t\<close> is the stack memory
  of \<open>t\<close>, the addresses of its words: its own stack, and the words of \<^verbatim>\<open>irq_stack0\<close> that an interrupt
  taken in \<open>t\<close> uses.  It need not be one range; all that is asked of it is that the stack memory
  of one thread is apart from that of another and from the structures.
\<close>

definition layout :: "u32 set \<Rightarrow> (u32 \<Rightarrow> u32 set) \<Rightarrow> bool" where
  "layout T stk \<longleftrightarrow>
     (\<forall>t \<in> T. \<forall>u \<in> T. {t, t + 4} \<inter> stk u = {} \<and>
        (t \<noteq> u \<longrightarrow> stk t \<inter> stk u = {} \<and> {t, t + 4} \<inter> {u, u + 4} = {}))"

text \<open>Every thread but the running one is suspended, on its own stack, with its context.\<close>

definition all_suspended ::
  "u32 set \<Rightarrow> (u32 \<Rightarrow> u32 set) \<Rightarrow> u32 \<Rightarrow> (u32 \<Rightarrow> thread_context) \<Rightarrow> 'r core_scheme \<Rightarrow> bool" where
  "all_suspended T stk r ctx s \<longleftrightarrow> r \<in> T \<and> running s \<and> ram (dev s) \<and>
     (\<forall>t \<in> T - {r}. suspended s t (ctx t) \<and> words (c_sp (ctx t) - 76) 19 \<subseteq> stk t)"

text \<open>
  The system: the running thread computes, which leaves the stacks and structures of the others
  alone, or it switches to another, with room for the frame on its own stack.  \<open>ctx\<close> records, in
  no memory of the machine, the context each thread had when it was switched away.
\<close>

inductive scheduled ::
  "u32 set \<Rightarrow> (u32 \<Rightarrow> u32 set) \<Rightarrow> u32 \<Rightarrow> (u32 \<Rightarrow> thread_context) \<Rightarrow> 'r core_scheme \<Rightarrow> bool"
  for T stk where
  start: "all_suspended T stk r ctx s \<Longrightarrow> scheduled T stk r ctx s"
| compute: "scheduled T stk r ctx s \<Longrightarrow> running s' \<Longrightarrow> ram (dev s') \<Longrightarrow>
    (\<And>t a. t \<in> T - {r} \<Longrightarrow> a \<in> {t, t + 4} \<union> stk t \<Longrightarrow> cur s' a = cur s a) \<Longrightarrow>
    scheduled T stk r ctx s'"
| switch: "scheduled T stk r ctx s \<Longrightarrow> n \<in> T - {r} \<Longrightarrow> words (core_sp s - 76) 19 \<subseteq> stk r \<Longrightarrow>
    run_state (arch_context_switch finish ret r n) s = ((), s') \<Longrightarrow>
    scheduled T stk n (ctx(r := context_of s\<lparr>c_lr := ret\<rparr>)) s'"

text \<open>The registers the switch does not load.\<close>

lemma keeps_for_each_in: "(\<And>x. x \<in> set xs \<Longrightarrow> keeps P (f x)) \<Longrightarrow> keeps P (for_each xs f)"
  by (induction xs) (simp_all add: keeps_prims keeps_bind)

lemma run_switch_high:
  fixes s :: "'r core_scheme"
  assumes "run_state (arch_context_switch finish ret old new) s = ((), s')" "k > 23"
  shows "core_r s' k = core_r s k"
proof -
  let ?P = "\<lambda>t :: 'r core_scheme. core_r t k = core_r s k"
  have st: "steady ?P" by (simp add: steady_def)
  have set: "keeps ?P (set_r j v)" if "j \<le> 23" for j v
    using that assms(2) by (simp add: set_r_def keeps_gset)
  have pop: "keeps ?P pop_word" unfolding pop_word_def by (intro keep_intros st) simp
  have push: "keeps ?P (push_word v)" for v unfolding push_word_def by (intro keep_intros st) simp
  have ldm: "keeps ?P (ldm i j)" if "j \<le> 23" for i j
    unfolding ldm_def
    by (rule keeps_for_each_in) (use that in \<open>auto intro!: keep_intros pop set\<close>)
  have "keeps ?P (arch_context_switch finish ret old new)"
    unfolding arch_context_switch_def vc4_context_switch_def vc4_context_switch_finish_def
      stm_def stm_lr_def rti_def rts_def
    by (intro keep_intros st set pop push ldm) simp_all
  then show ?thesis using keepsD [OF _ _ assms(1)] by blast
qed

lemma all_suspended_compute:
  assumes "all_suspended T stk r ctx s" "running s'" "ram (dev s')"
    and "\<And>t a. t \<in> T - {r} \<Longrightarrow> a \<in> {t, t + 4} \<union> stk t \<Longrightarrow> cur s' a = cur s a"
  shows "all_suspended T stk r ctx s'"
proof -
  have "suspended s' t (ctx t)" if t: "t \<in> T - {r}" for t
  proof -
    from assms(1) t have "suspended s t (ctx t)" "words (c_sp (ctx t) - 76) 19 \<subseteq> stk t"
      by (auto simp: all_suspended_def)
    with assms(4) [OF t] show ?thesis
      using suspended_cong [of t "ctx t" s' s] by (auto simp: footprint_def)
  qed
  with assms(1-3) show ?thesis by (simp add: all_suspended_def)
qed

lemma all_suspended_switch:
  assumes lay: "layout T stk" and all: "all_suspended T stk r ctx s" and n: "n \<in> T - {r}"
    and room: "words (core_sp s - 76) 19 \<subseteq> stk r"
    and run: "run_state (arch_context_switch finish ret r n) s = ((), s')"
  shows "all_suspended T stk n (ctx(r := context_of s\<lparr>c_lr := ret\<rparr>)) s' \<and> resumes s' (ctx n) \<and>
    dev s' = dev s \<and>
    (\<forall>a. a \<notin> footprint r (core_sp s) \<union> words (c_sp (ctx n) - 76) 19 \<longrightarrow> cur s' a = cur s a)"
proof -
  let ?ctx = "ctx(r := context_of s\<lparr>c_lr := ret\<rparr>)"
  from all n have rn: "r \<in> T" "n \<in> T" "r \<noteq> n" "running s" "ram (dev s)" "suspended s n (ctx n)"
    and frame: "words (c_sp (ctx n) - 76) 19 \<subseteq> stk n"
    by (auto simp: all_suspended_def)
  have apart: "({t, t + 4} \<union> stk t) \<inter> ({u, u + 4} \<union> stk u) = {}" if "t \<in> T" "u \<in> T" "t \<noteq> u" for t u
    using lay that unfolding layout_def by blast
  have own: "{t, t + 4} \<inter> stk t = {}" if "t \<in> T" for t
    using lay that unfolding layout_def by blast
  have fp: "footprint t p \<subseteq> {t, t + 4} \<union> stk t" if "words (p - 76) 19 \<subseteq> stk t" for t p
    using that by (auto simp: footprint_def)
  have step: "running s' \<and> dev s' = dev s \<and> resumes s' (ctx n) \<and>
    suspended s' r (context_of s\<lparr>c_lr := ret\<rparr>) \<and>
    (\<forall>a. a \<notin> footprint r (core_sp s) \<union> words (c_sp (ctx n) - 76) 19 \<longrightarrow> cur s' a = cur s a)"
  proof (rule run_context_switch [OF rn(4-6) _ _ _ _ run])
    show "r \<notin> words (core_sp s - 76) 19" "r + 4 \<notin> words (core_sp s - 76) 19"
      using own [OF rn(1)] room by auto
    show "n + 4 \<notin> words (c_sp (ctx n) - 76) 19" using own [OF rn(2)] frame by auto
    show "footprint n (c_sp (ctx n)) \<inter> footprint r (core_sp s) = {}"
      using fp [OF frame] fp [OF room] apart [OF rn(2,1)] rn(3) by blast
  qed
  have "suspended s' t (?ctx t) \<and> words (c_sp (?ctx t) - 76) 19 \<subseteq> stk t" if t: "t \<in> T - {n}" for t
  proof (cases "t = r")
    case True
    with step room show ?thesis by simp
  next
    case False
    with all t have st: "suspended s t (ctx t)" "words (c_sp (ctx t) - 76) 19 \<subseteq> stk t"
      by (auto simp: all_suspended_def)
    have "cur s' a = cur s a" if "a \<in> footprint t (c_sp (ctx t))" for a
    proof -
      from that fp [OF st(2)] have "a \<in> {t, t + 4} \<union> stk t" by blast
      with apart [of t r] apart [of t n] rn(1,2) t False fp [OF room] frame
      have "a \<notin> footprint r (core_sp s) \<union> words (c_sp (ctx n) - 76) 19" by blast
      with step show ?thesis by blast
    qed
    with st False show ?thesis using suspended_cong [of t "ctx t" s' s] by simp
  qed
  with step rn show ?thesis by (simp add: all_suspended_def)
qed

lemma scheduled_all_suspended:
  "scheduled T stk r ctx s \<Longrightarrow> layout T stk \<Longrightarrow> all_suspended T stk r ctx s"
proof (induction rule: scheduled.induct)
  case (compute r ctx s s')
  then show ?case using all_suspended_compute by blast
next
  case (switch r ctx s n finish ret s')
  then show ?case using all_suspended_switch by blast
qed

subsection \<open>A new thread\<close>

text \<open>\<^verbatim>\<open>arch_ops.h\<close>: the current thread is kept in \<open>r29\<close>.\<close>

definition arch_get_current_thread :: "('r, u32) core_io" where
  "arch_get_current_thread = gget (\<lambda>s. core_r s 29)"

definition arch_set_current_thread :: "u32 \<Rightarrow> ('r, unit) core_io" where
  "arch_set_current_thread t = set_r 29 t"

definition arch_cycle_count :: "('r, u32) io" where "arch_cycle_count = return 0"

definition arch_curr_cpu_num :: "('r, u32) io" where "arch_curr_cpu_num = return 0"

text \<open>
  Where a new thread starts.  \<open>entry ct\<close> calls the entry point of the thread \<open>ct\<close> with its argument,
  \<open>thread_exit\<close> is LK's.
\<close>

definition initial_thread_func ::
  "u32 \<Rightarrow> (u32 \<Rightarrow> ('r, int) core_io) \<Rightarrow> (int \<Rightarrow> ('r, unit) core_io) \<Rightarrow> ('r, unit) core_io" where
  "initial_thread_func thread_lock entry thread_exit = do {
     ct \<leftarrow> arch_get_current_thread;
     arch_spin_unlock thread_lock;
     arch_enable_ints;
     ret \<leftarrow> entry ct;
     thread_exit ret
   }"

text \<open>\<open>suspended_thread\<close>: the thread's state is not \<^verbatim>\<open>THREAD_RUNNING\<close>.\<close>

definition arch_dump_thread :: "bool \<Rightarrow> thread \<Rightarrow> ('r, unit) io" where
  "arch_dump_thread suspended_thread t =
     when_io suspended_thread (printf ''arch: sp 0x%x, sr: 0x%x'' [U (arch_sp t), U (arch_sr t)])"

text \<open>An initialised thread is a suspended one.\<close>

definition new_context :: "u32 \<Rightarrow> u32 \<Rightarrow> u32 \<Rightarrow> thread_context" where
  "new_context base entry st = \<lparr>c_regs = (\<lambda>_. 0), c_lr = entry, c_sp = base, c_sr = st\<rparr>"

lemma initialized_frame:
  fixes s :: "'r mach_scheme" and t :: thread
  defines "base \<equiv> t_stack t + t_stack_size t - 4"
  assumes s: "running s" "ram (dev s)" "base AND 3 = 0"
    and run: "run_state (arch_thread_initialize entry t) s = (t', s')"
  shows "arch_sp t' = base - 76 \<and> arch_sr t' = sr s AND NOT SR_INTS \<and>
    stack_at s' (base - 76) (map (\<lambda>_. 0) saved_regs @ [entry])"
proof -
  let ?ws = "map (\<lambda>i. Wr (base - 8 - 4 * of_nat i) 0) [0..<18]"
  have eq: "t' = t\<lparr>arch_sp := base - 76, arch_sr := sr s AND NOT SR_INTS\<rparr>"
      "s' = log (Wr (base - 4) entry # ?ws) s"
    using run_arch_thread_initialize [OF s(1), of t entry] s(3) run
    by (simp_all add: base_def del: upt_Suc)
  have lw: "last_write a (Wr (base - 4) entry # ?ws) =
      (if a \<in> (\<lambda>i. base - 8 - 4 * of_nat i) ` {0..<18} then Some 0
       else if a = base - 4 then Some entry else None)" for a
    by (simp only: last_write.simps last_write_map_const set_upt) simp
  have c: "cur s' a = (if a \<in> (\<lambda>i. base - 8 - 4 * of_nat i) ` {0..<18} then 0
       else if a = base - 4 then entry else cur s a)" for a
    using s(2) by (simp add: eq(2) plain_cur_log ram_def lw del: last_write.simps)
  have len: "length saved_regs = 18" by (simp add: saved_regs_def)
  have "cur s' (base - 76 + 4 * of_nat i) = (map (\<lambda>_. 0) saved_regs @ [entry]) ! i" if "i < 19" for i
  proof (cases "i < 18")
    case True
    then have "17 - i \<in> {0..<18}" "base - 76 + 4 * of_nat i = base - 8 - 4 * of_nat (17 - i)"
      by (auto simp: of_nat_diff algebra_simps)
    then have "base - 76 + 4 * of_nat i \<in> (\<lambda>i. base - 8 - 4 * of_nat i) ` {0..<18}" by blast
    with True len show ?thesis by (simp add: c nth_append)
  next
    case False
    with that have "i = 18" by simp
    moreover have "base - 4 \<notin> (\<lambda>i. base - 8 - 4 * of_nat i) ` {0..<18}"
      using frame_offsets [of _ base] by auto
    ultimately show ?thesis using len by (simp add: c nth_append)
  qed
  then show ?thesis unfolding stack_at_nth length_saved by (simp add: eq(1))
qed

text \<open>The first instructions of a new thread: lock released, interrupts on, then the entry point.\<close>

lemma run_initial_thread_func:
  fixes s :: "'r core_scheme"
  assumes "running s" "ram (dev s)"
  shows "\<exists>s2. run_state (initial_thread_func lock entry thread_exit) s =
      run_state (do { ret \<leftarrow> entry (core_r s 29); thread_exit ret }) s2 \<and>
    running s2 \<and> ints_on s2 \<and> cur s2 lock = 0 \<and> core_sp s2 = core_sp s"
proof -
  let ?s2 = "(log [Wr lock 0] s)\<lparr>sr := sr s OR SR_INTS\<rparr>"
  have "cur ?s2 lock = 0" using assms(2) by (simp add: cur_def ram_read)
  moreover have "run_state (initial_thread_func lock entry thread_exit) s =
      run_state (do { ret \<leftarrow> entry (core_r s 29); thread_exit ret }) ?s2"
    using assms(1)
    by (simp add: initial_thread_func_def arch_get_current_thread_def arch_spin_unlock_def arch_enable_ints_def)
  moreover have "ints_on ?s2" "running ?s2" "core_sp ?s2 = core_sp s"
    using assms(1) by (simp_all add: ints_on_def reg_defs)
  ultimately show ?thesis by blast
qed

subsection \<open>Properties\<close>

text \<open>C4.  
  Threads do not see each other.  However any number of threads compute on their own stacks and
  switch, a thread that is switched to continues with the callee-saved registers, stack pointer,
  return address and interrupt state it had when it was switched away, and every other thread is
  still suspended with its own.
\<close>

theorem threads_resume:
  fixes s :: "'r core_scheme"
  assumes "layout T stk" and "scheduled T stk r ctx s" and "n \<in> T - {r}"
    and "words (core_sp s - 76) 19 \<subseteq> stk r"
    and "run_state (arch_context_switch finish ret r n) s = ((), s')"
  shows "resumes s' (ctx n) \<and>
    all_suspended T stk n (ctx(r := context_of s\<lparr>c_lr := ret\<rparr>)) s'"
  using all_suspended_switch [OF assms(1) scheduled_all_suspended [OF assms(2,1)] assms(3-5)] by blast

text \<open>Two threads, \<open>A\<close> running and \<open>B\<close> about to start, for the examples.\<close>

definition thread_A :: u32 where "thread_A = 0xc0000100"
definition thread_B :: u32 where "thread_B = 0xc0000200"

definition two_stacks :: "u32 \<Rightarrow> u32 set" where
  "two_stacks t = (if t = thread_A then words 0xc0001000 64 else words 0xc0002000 64)"

definition core_boot :: "device \<Rightarrow> u32 \<Rightarrow> unit core_scheme" where
  "core_boot d p = \<lparr>dev = d, bus = [], status = Running, sr = SR_INTS, core_r = of_nat,
     irq_h = replicate 64 0, irq_arg = replicate 64 0, vectorTable = replicate 128 0,
     core_sp = p, core_lr = 0, core_pc = 0\<rparr>"

lemma core_boot_simps [simp]:
  "dev (core_boot d p) = d" "status (core_boot d p) = Running" "core_sp (core_boot d p) = p"
  "core_r (core_boot d p) = of_nat" "sr (core_boot d p) = SR_INTS" "bus (core_boot d p) = []"
  "irq_wf (core_boot d p)"
  by (simp_all add: core_boot_def irq_wf_def)

definition demo_ram :: device where
  "demo_ram = memory (\<lambda>a. if a = thread_B then 0xc0002080 - 76 else if a = 0xc000207c then 0x80001234 else 0)"

lemma ram_memory: "ram (memory f)"
  by (simp add: ram_def plain_memory)

lemma words_range:
  assumes "a \<in> words p n" "unat p + 4 * n \<le> 2 ^ 32"
  shows "unat p \<le> unat a \<and> unat a < unat p + 4 * n"
proof -
  from assms(1) obtain i where i: "i < n" "a = p + of_nat (4 * i)" by (auto simp: words_def)
  then have "unat (of_nat (4 * i) :: u32) = 4 * i" using assms(2) unfolding unat_of_nat by simp
  then have "unat a = unat p + 4 * i"
    using i assms(2) unat_add_lem [of p "of_nat (4 * i)"] by simp
  with i(1) show ?thesis by simp
qed

lemma two_layout: "layout {thread_A, thread_B} two_stacks"
proof -
  have A: "0xc0001000 \<le> unat a \<and> unat a < 0xc0001100" if "a \<in> words 0xc0001000 64" for a
    using words_range [OF that] by simp
  have B: "0xc0002000 \<le> unat a \<and> unat a < 0xc0002100" if "a \<in> words 0xc0002000 64" for a
    using words_range [OF that] by simp
  have "words 0xc0001000 64 \<inter> words 0xc0002000 64 = {}" using A B by fastforce
  moreover have "unat thread_A = 0xc0000100" "unat (thread_A + 4) = 0xc0000104"
    "unat thread_B = 0xc0000200" "unat (thread_B + 4) = 0xc0000204"
    by (simp_all add: thread_A_def thread_B_def)
  ultimately have "x \<notin> words 0xc0001000 64 \<and> x \<notin> words 0xc0002000 64"
    if "x \<in> {thread_A, thread_A + 4, thread_B, thread_B + 4}" for x
    using that A [of x] B [of x] by auto
  then show ?thesis
    using \<open>words 0xc0001000 64 \<inter> words 0xc0002000 64 = {}\<close>
    by (auto simp: layout_def two_stacks_def) (simp_all add: thread_A_def thread_B_def)
qed

lemma demo_suspended:
  "all_suspended {thread_A, thread_B} two_stacks thread_A (\<lambda>_. new_context 0xc0002080 0x80001234 0)
     (core_boot demo_ram 0xc0001080)"
proof -
  have c: "cur (core_boot demo_ram 0xc0001080) a = (if a = thread_B then 0xc0002080 - 76
      else if a = 0xc000207c then 0x80001234 else 0)" for a
    by (simp add: cur_def demo_ram_def memory_def)
  have "stack_at (core_boot demo_ram 0xc0001080) 0xc0002034 (map (\<lambda>_. 0) saved_regs @ [0x80001234])"
    by (simp add: saved_regs_def regs_down_def c thread_B_def)
  moreover have "words (0xc0002080 - 76) 19 \<subseteq> two_stacks thread_B"
    using words_part [of 13 19 64 "0xc0002000"] by (simp add: two_stacks_def thread_A_def thread_B_def)
  moreover have "cur (core_boot demo_ram 0xc0001080) (thread_B + 4) = 0"
    by (simp add: c thread_B_def)
  ultimately show ?thesis
    using c [of thread_B]
    by (simp add: all_suspended_def suspended_def new_context_def insert_Diff_if demo_ram_def ram_memory)
qed

theorem threads_resume_witness:
  "\<exists>s'. run_state (arch_context_switch 0x80000100 0x80000200 thread_A thread_B) (core_boot demo_ram 0xc0001080)
      = ((), s') \<and> core_pc s' = 0x80001234 \<and> core_sp s' = 0xc0002080 \<and>
    suspended s' thread_A \<lparr>c_regs = of_nat, c_lr = 0x80000200, c_sp = 0xc0001080, c_sr = SR_INTS\<rparr>"
proof -
  let ?s = "core_boot demo_ram 0xc0001080" and ?c = "\<lambda>_ :: u32. new_context 0xc0002080 0x80001234 0"
  obtain s' where run: "run_state (arch_context_switch 0x80000100 0x80000200 thread_A thread_B) ?s = ((), s')"
    using run_unit by blast
  have ne: "thread_A \<noteq> thread_B" by (simp add: thread_A_def thread_B_def)
  have n: "thread_B \<in> {thread_A, thread_B} - {thread_A}" using ne by simp
  have room: "words (core_sp ?s - 76) 19 \<subseteq> two_stacks thread_A"
    using words_part [of 13 19 64 "0xc0001000"] by (simp add: two_stacks_def)
  from threads_resume [OF two_layout scheduled.start [OF demo_suspended] n room run] run ne
  show ?thesis by (auto simp: resumes_def new_context_def all_suspended_def context_of_def insert_Diff_if)
qed

text \<open>C11.  
  A new thread starts at its entry point.  After \<^verbatim>\<open>arch_thread_initialize\<close>, when the thread's fields
  are in memory and its stack is untouched, the first switch to it jumps to \<^verbatim>\<open>initial_thread_func\<close>
  at the top of its stack, with zeros in the callee-saved registers and interrupts off; there the
  thread lock is released and interrupts are on before its entry point is called.
\<close>

theorem new_thread_starts:
  fixes s :: "'r mach_scheme" and s2 :: "'q core_scheme"
  assumes init: "running s" "ram (dev s)" "(t_stack t + t_stack_size t - 4) AND 3 = 0"
      "run_state (arch_thread_initialize initial t) s = (t', s1)"
    and mem: "running s2" "ram (dev s2)" "cur s2 n = arch_sp t'" "cur s2 (n + 4) = arch_sr t'"
      "\<And>a. a \<in> words (arch_sp t') 19 \<Longrightarrow> cur s2 a = cur s1 a"
    and apart: "old \<notin> words (core_sp s2 - 76) 19" "old + 4 \<notin> words (core_sp s2 - 76) 19"
      "n + 4 \<notin> words (arch_sp t') 19"
      "footprint n (arch_sp t' + 76) \<inter> footprint old (core_sp s2) = {}"
    and run: "run_state (arch_context_switch finish ret old n) s2 = ((), s')"
  shows "core_pc s' = initial \<and> core_sp s' = t_stack t + t_stack_size t - 4 \<and>
    (\<forall>k \<in> {6..23}. core_r s' k = 0) \<and> \<not> ints_on s' \<and>
    (\<exists>s3. run_state (initial_thread_func lock entry thread_exit) s' =
        run_state (do { res \<leftarrow> entry (core_r s' 29); thread_exit res }) s3 \<and>
      running s3 \<and> ints_on s3 \<and> cur s3 lock = 0 \<and> core_sp s3 = core_sp s')"
proof -
  let ?p = "t_stack t + t_stack_size t - 4" and ?st = "sr s AND NOT SR_INTS"
  note fr = initialized_frame [OF init]
  have "stack_at s2 (?p - 76) (map (\<lambda>_. 0) saved_regs @ [initial])"
    using fr mem(5) stack_at_cong [of "?p - 76" "map (\<lambda>_. 0) saved_regs @ [initial]" s2 s1]
    unfolding length_saved by simp
  then have "suspended s2 n (new_context ?p initial ?st)"
    using fr mem(3,4) by (simp add: suspended_def new_context_def)
  from run_context_switch [OF mem(1,2) this apart(1,2) _ _ run] apart(3,4) fr
  have sw: "running s'" "dev s' = dev s2" "resumes s' (new_context ?p initial ?st)"
    by (auto simp: new_context_def)
  moreover have "\<not> ints_on s'"
    using sw(3) by (simp add: resumes_def new_context_def ints_on_bit bit_simps bit_SR_INTS)
  ultimately show ?thesis
    using run_initial_thread_func [of s' lock entry thread_exit] mem(2)
    by (auto simp: resumes_def new_context_def)
qed

theorem new_thread_starts_witness:
  "\<exists>t' s1 s'. run_state (arch_thread_initialize 0x80001234 demo_thread) (boot (memory (\<lambda>_. 0))) = (t', s1) \<and>
    run_state (arch_context_switch 0x80000100 0x80000200 thread_A thread_B)
      (core_boot (memory (\<lambda>a. if a = thread_B then arch_sp t' else if a = thread_B + 4 then arch_sr t'
         else cur s1 a)) 0xc0000f80) = ((), s') \<and>
    core_pc s' = 0x80001234 \<and> \<not> ints_on s'"
proof -
  let ?s = "boot (memory (\<lambda>_. 0))"
  have al: "(t_stack demo_thread + t_stack_size demo_thread - 4) AND 3 = 0" by (simp add: demo_thread_def)
  obtain t' s1 where i: "run_state (arch_thread_initialize 0x80001234 demo_thread) ?s = (t', s1)"
    by fastforce
  have sp: "arch_sp t' = 0xc0002fb0"
    using run_arch_thread_initialize [of ?s demo_thread "0x80001234"] i al by (auto simp: demo_thread_def)
  let ?m = "\<lambda>a. if a = thread_B then arch_sp t' else if a = thread_B + 4 then arch_sr t' else cur s1 a"
  let ?s2 = "core_boot (memory ?m) 0xc0000f80"
  obtain s' where run: "run_state (arch_context_switch 0x80000100 0x80000200 thread_A thread_B) ?s2 = ((), s')"
    using run_unit by blast
  have m: "cur ?s2 a = ?m a" for a by (simp add: cur_def memory_def)
  have w: "0xc0002fb0 \<le> unat a \<and> unat a < 0xc0002ffc" if "a \<in> words (arch_sp t') 19" for a
    using words_range [of a "0xc0002fb0" 19] that by (simp add: sp)
  have v: "0xc0000f34 \<le> unat a \<and> unat a < 0xc0000f80" if "a \<in> words (core_sp ?s2 - 76) 19" for a
    using words_range [of a "0xc0000f34" 19] that by simp
  have u: "unat thread_A = 0xc0000100" "unat (thread_A + 4) = 0xc0000104"
    "unat thread_B = 0xc0000200" "unat (thread_B + 4) = 0xc0000204"
    by (simp_all add: thread_A_def thread_B_def)
  have "a \<noteq> thread_B \<and> a \<noteq> thread_B + 4" if "a \<in> words (arch_sp t') 19" for a
    using w [OF that] u(3,4) by auto
  then have keep: "cur ?s2 a = cur s1 a" if "a \<in> words (arch_sp t') 19" for a using that by (simp add: m)
  have dis: "footprint thread_B (arch_sp t' + 76) \<inter> footprint thread_A (core_sp ?s2) = {}"
  proof -
    have "a \<notin> footprint thread_A (core_sp ?s2)" if "a \<in> footprint thread_B (arch_sp t' + 76)" for a
      using that w [of a] v [of a] u unfolding footprint_def by auto
    then show ?thesis by blast
  qed
  have apart: "thread_A \<notin> words (core_sp ?s2 - 76) 19" "thread_A + 4 \<notin> words (core_sp ?s2 - 76) 19"
    "thread_B + 4 \<notin> words (arch_sp t') 19"
    using v [of thread_A] v [of "thread_A + 4"] w [of "thread_B + 4"] u by auto
  have b: "cur ?s2 thread_B = arch_sp t'" "cur ?s2 (thread_B + 4) = arch_sr t'" by (simp_all add: m)
  have "running ?s" "ram (dev ?s)" "running ?s2" "ram (dev ?s2)" by (simp_all add: ram_memory)
  from new_thread_starts [OF this(1,2) al i this(3,4) b keep apart dis run] i run show ?thesis
    by blast
qed

end
