(* ===== verification/Vpu_Traps.thy ===== *)
theory Vpu_Traps
  imports Vpu_Threads
begin

unbundle bit_operations_syntax

text \<open>
  The entry and exit of exceptions (\<^verbatim>\<open>arch/vpu/interrupt.S\<close>), around the handlers of \<^verbatim>\<open>intc.c\<close>.
  The processor has pushed the program counter and the status register on the stack the vector
  selects; the code pushes the registers, which completes the frame \<^verbatim>\<open>vc4_saved_state_t\<close>, and calls
  the C handler with its address.

  By \<^verbatim>\<open>intc.c\<close>, \<open>sp\<close> is an alias of \<open>r28\<close> in an exception, and the stack is \<^verbatim>\<open>irq_stack0\<close>.  The code
  here only says \<open>sp\<close>: \<open>core_sp\<close> is the register it names from the entry to \<^verbatim>\<open>rti\<close>, with any value.
\<close>

subsection \<open>The code\<close>

definition SaveRegsLower :: "('r, unit) core_io" where
  "SaveRegsLower = do { stm_lr; stm 0 5 }"

definition SaveRegsUpper :: "('r, unit) core_io" where
  "SaveRegsUpper = do { stm 6 15; stm 16 23 }"

definition SaveRegsAll :: "('r, unit) core_io" where
  "SaveRegsAll = do { SaveRegsLower; SaveRegsUpper }"

text \<open>What a C function finds at the address of the frame.\<close>

definition pcb_at :: "'r mach_scheme \<Rightarrow> u32 \<Rightarrow> vc4_saved_state" where
  "pcb_at s p = \<lparr>r23 = cur s p, r22 = cur s (p + 4), r21 = cur s (p + 8), r20 = cur s (p + 12),
     r19 = cur s (p + 16), r18 = cur s (p + 20), r17 = cur s (p + 24), r16 = cur s (p + 28),
     r15 = cur s (p + 32), r14 = cur s (p + 36), r13 = cur s (p + 40), r12 = cur s (p + 44),
     r11 = cur s (p + 48), r10 = cur s (p + 52), r9 = cur s (p + 56), r8 = cur s (p + 60),
     r7 = cur s (p + 64), r6 = cur s (p + 68), r5 = cur s (p + 72), r4 = cur s (p + 76),
     r3 = cur s (p + 80), r2 = cur s (p + 84), r1 = cur s (p + 88), r0 = cur s (p + 92),
     lr = cur s (p + 96), saved_sr = cur s (p + 100), pc = cur s (p + 104)\<rparr>"

definition return_from_exception :: "('r, unit) core_io" where
  "return_from_exception = do {
     ldm 16 23;
     ldm 6 15;
     ldm 0 5;
     ld_lr;
     rti
   }"

text \<open>\<open>ret\<close> is the address after the call, which \<open>bl\<close> puts in the link register.\<close>

definition fleh_irq :: "(vc4_saved_state \<Rightarrow> ('r, unit) core_io) \<Rightarrow> u32 \<Rightarrow> ('r, unit) core_io" where
  "fleh_irq sleh ret = do {
     SaveRegsAll;
     p \<leftarrow> gget core_sp;
     set_r 0 p;
     t \<leftarrow> gget (\<lambda>s. core_r s 29);
     set_r 1 t;
     gset (\<lambda>s. s\<lparr>core_lr := ret\<rparr>);
     pcb \<leftarrow> gget (\<lambda>s. pcb_at s p);
     sleh pcb;
     return_from_exception
   }"

definition fleh_swi :: "(vc4_saved_state \<Rightarrow> ('r, unit) core_io) \<Rightarrow> u32 \<Rightarrow> ('r, unit) core_io" where
  "fleh_swi sleh ret = do {
     stm_lr;
     stm 0 5;
     stm 6 15;
     stm 16 23;
     p \<leftarrow> gget core_sp;
     set_r 0 p;
     gset (\<lambda>s. s\<lparr>core_lr := ret\<rparr>);
     pcb \<leftarrow> gget (\<lambda>s. pcb_at s p);
     sleh pcb;
     ldm 16 23;
     ldm 6 15;
     ldm 0 5;
     ld_lr;
     rti
   }"

definition irq_fatal :: "(vc4_saved_state \<Rightarrow> u32 \<Rightarrow> ('r, unit) core_io) \<Rightarrow> ('r, unit) core_io" where
  "irq_fatal sleh = do {
     SaveRegsUpper;
     p \<leftarrow> gget core_sp;
     set_r 0 p;
     n \<leftarrow> gget (\<lambda>s. core_r s 1);
     pcb \<leftarrow> gget (\<lambda>s. pcb_at s p);
     sleh pcb n
   }"

definition ExceptionHandler ::
  "u32 \<Rightarrow> (vc4_saved_state \<Rightarrow> u32 \<Rightarrow> ('r, unit) core_io) \<Rightarrow> ('r, unit) core_io" where
  "ExceptionHandler exception_number sleh = do {
     SaveRegsLower;
     set_r 1 exception_number;
     irq_fatal sleh
   }"

text \<open>The numbers the exception entries pass; the names \<^verbatim>\<open>sleh_fatal\<close> prints are indexed by them.\<close>

fun exception_number :: "fleh \<Rightarrow> u32 option" where
  "exception_number Fleh_zero = Some 0"
| "exception_number Fleh_misaligned = Some 1"
| "exception_number Fleh_dividebyzero = Some 2"
| "exception_number Fleh_undefinedinstruction = Some 3"
| "exception_number Fleh_forbiddeninstruction = Some 4"
| "exception_number Fleh_illegalmemory = Some 5"
| "exception_number Fleh_buserror = Some 6"
| "exception_number Fleh_floatingpoint = Some 7"
| "exception_number Fleh_isp = Some 8"
| "exception_number Fleh_dummy = Some 9"
| "exception_number Fleh_icache = Some 10"
| "exception_number Fleh_veccore = Some 11"
| "exception_number Fleh_badl2alias = Some 12"
| "exception_number Fleh_breakpoint = Some 13"
| "exception_number Fleh_unknown = Some 14"
| "exception_number Fleh_swi = None"
| "exception_number Fleh_irq = None"

text \<open>The entry of a vector, with the C handlers.\<close>

definition fleh_entry ::
  "(vc4_saved_state \<Rightarrow> u32 \<Rightarrow> ('r, unit) core_io) \<Rightarrow> (vc4_saved_state \<Rightarrow> ('r, unit) core_io) \<Rightarrow>
   (vc4_saved_state \<Rightarrow> ('r, unit) core_io) \<Rightarrow> u32 \<Rightarrow> fleh \<Rightarrow> ('r, unit) core_io" where
  "fleh_entry fatal swi irq ret f =
     (case exception_number f of
        Some n \<Rightarrow> ExceptionHandler n fatal
      | None \<Rightarrow> if f = Fleh_swi then fleh_swi swi ret else fleh_irq irq ret)"

subsection \<open>The frame\<close>

definition trap_regs :: "nat list" where
  "trap_regs = regs_down 16 23 @ regs_down 6 15 @ regs_down 0 5"

lemma set_trap_regs: "set trap_regs = {0..23}"
  by (auto simp: trap_regs_def)

lemma length_trap: "length (map f trap_regs @ [a, b, c]) = 27"
  by (simp add: trap_regs_def)

text \<open>The registers of the interrupted code, with the two words the processor pushed.\<close>

definition interrupted :: "'r core_scheme \<Rightarrow> vc4_saved_state" where
  "interrupted s = (let R = core_r s in \<lparr>r23 = R 23, r22 = R 22, r21 = R 21, r20 = R 20, r19 = R 19,
     r18 = R 18, r17 = R 17, r16 = R 16, r15 = R 15, r14 = R 14, r13 = R 13, r12 = R 12,
     r11 = R 11, r10 = R 10, r9 = R 9, r8 = R 8, r7 = R 7, r6 = R 6, r5 = R 5, r4 = R 4,
     r3 = R 3, r2 = R 2, r1 = R 1, r0 = R 0, lr = core_lr s,
     saved_sr = cur s (core_sp s), pc = cur s (core_sp s + 4)\<rparr>)"

lemma pcb_at_frame:
  assumes "stack_at t p (map (core_r s) trap_regs @ [core_lr s, cur s (core_sp s), cur s (core_sp s + 4)])"
  shows "pcb_at t p = interrupted s"
proof -
  have "trap_regs = [23, 22, 21, 20, 19, 18, 17, 16, 15, 14, 13, 12, 11, 10, 9, 8, 7, 6, 5, 4, 3, 2, 1, 0]"
    by (simp add: trap_regs_def regs_down_def upt_rec)
  from assms [unfolded this] show ?thesis
    by (simp add: pcb_at_def interrupted_def Let_def ac_simps)
qed

lemma words_shift: "words (p + 4 * of_nat i) n \<subseteq> words p (i + n)"
  by (rule words_part) simp

lemma run_SaveRegsLower:
  fixes s :: "'r core_scheme"
  assumes s: "running s" "ram (dev s)" and run: "run_state SaveRegsLower s = ((), s')"
  shows "\<exists>es. s' = at_sp (core_sp s - 28) es s \<and> printed_lines es = [] \<and>
    stack_at s' (core_sp s - 28)
      (map (core_r s) (regs_down 0 5) @ [core_lr s, cur s (core_sp s), cur s (core_sp s + 4)]) \<and>
    (\<forall>a. a \<notin> words (core_sp s - 28) 7 \<longrightarrow> cur s' a = cur s a)"
proof -
  let ?p = "core_sp s - 4"
  let ?s1 = "at_sp ?p [Wr ?p (core_lr s)] s"
  let ?old = "[cur s (core_sp s), cur s (core_sp s + 4)]"
  have ne: "core_sp s \<noteq> ?p" "core_sp s + 4 \<noteq> ?p" by simp_all
  have st1: "stack_at ?s1 (core_sp ?s1) (core_lr s # ?old)"
    using ne by (simp add: cur_at_sp cur_wr [OF s(2)])
  have r2: "run_state (stm 0 5) ?s1 = ((), s')"
    using run s(1) by (simp add: SaveRegsLower_def stm_lr_def run_push_word)
  obtain es where e2: "s' = at_sp (core_sp s - 28) es ?s1" "printed_lines es = []"
    "stack_at s' (core_sp s') (map (core_r s) (regs_down 0 5) @ core_lr s # ?old)"
    "\<forall>a. a \<notin> words (core_sp s - 28) 6 \<longrightarrow> cur s' a = cur ?s1 a"
    using run_stm [OF _ _ st1 _ r2] s by auto
  have w: "words (core_sp s - 28) 6 \<subseteq> words (core_sp s - 28) 7" "?p \<in> words (core_sp s - 28) 7"
    using words_part [of 0 6 7 "core_sp s - 28"] word_part [of 6 7 "core_sp s - 28"] by simp_all
  have "cur s' a = cur s a" if a: "a \<notin> words (core_sp s - 28) 7" for a
  proof -
    have "cur s' a = cur ?s1 a" using e2(4) w(1) a by blast
    also have "\<dots> = cur s a" using w(2) a by (auto simp: cur_at_sp cur_wr [OF s(2)])
    finally show ?thesis .
  qed
  with e2 show ?thesis by (intro exI [of _ "Wr ?p (core_lr s) # es"]) simp
qed

lemma run_SaveRegsUpper:
  fixes s :: "'r core_scheme"
  assumes s: "running s" "ram (dev s)" "stack_at s (core_sp s) vs" "length vs < 100"
    and run: "run_state SaveRegsUpper s = ((), s')"
  shows "\<exists>es. s' = at_sp (core_sp s - 72) es s \<and> printed_lines es = [] \<and>
    stack_at s' (core_sp s - 72) (map (core_r s) (regs_down 16 23 @ regs_down 6 15) @ vs) \<and>
    (\<forall>a. a \<notin> words (core_sp s - 72) 18 \<longrightarrow> cur s' a = cur s a)"
proof -
  obtain s1 where r1: "run_state (stm 6 15) s = ((), s1)" using run_unit by blast
  obtain es where e1: "s1 = at_sp (core_sp s - 40) es s" "printed_lines es = []"
    "stack_at s1 (core_sp s1) (map (core_r s) (regs_down 6 15) @ vs)"
    "\<forall>a. a \<notin> words (core_sp s - 40) 10 \<longrightarrow> cur s1 a = cur s a"
    using run_stm [OF s(1-3) _ r1] s(4) by auto
  have d1: "running s1" "ram (dev s1)" using s by (simp_all add: e1(1))
  have r2: "run_state (stm 16 23) s1 = ((), s')"
    using run r1 by (simp add: SaveRegsUpper_def)
  obtain fs where e2: "s' = at_sp (core_sp s - 72) fs s1" "printed_lines fs = []"
    "stack_at s' (core_sp s - 72) (map (core_r s) (regs_down 16 23 @ regs_down 6 15) @ vs)"
    "\<forall>a. a \<notin> words (core_sp s - 72) 8 \<longrightarrow> cur s' a = cur s1 a"
    using run_stm [OF d1 e1(3) _ r2] s(4) by (auto simp: e1(1))
  have w: "words (core_sp s - 72) 8 \<subseteq> words (core_sp s - 72) 18"
    "words (core_sp s - 40) 10 \<subseteq> words (core_sp s - 72) 18"
    using words_part [of 0 8 18 "core_sp s - 72"] words_part [of 8 10 18 "core_sp s - 72"] by simp_all
  have "cur s' a = cur s a" if a: "a \<notin> words (core_sp s - 72) 18" for a
  proof -
    from a w have "a \<notin> words (core_sp s - 72) 8" "a \<notin> words (core_sp s - 40) 10" by blast+
    with e1(4) e2(4) show ?thesis by simp
  qed
  with e1 e2 show ?thesis by (intro exI [of _ "es @ fs"]) simp
qed

text \<open>Both, with registers changed in between that the second half does not save.\<close>

lemma frame_below: "a \<notin> words (p - 100) 25 \<Longrightarrow> a \<notin> words (p - 100) 18 \<and> a \<notin> words (p - 28) 7"
  using words_part [of 0 18 25 "p - 100"] words_part [of 18 7 25 "p - 100"] by auto

lemma run_SaveRegs:
  fixes s :: "'r core_scheme"
  assumes s: "running s" "ram (dev s)" and low: "run_state SaveRegsLower s = ((), s1)"
    and R: "\<forall>k \<ge> 6. R k = core_r s k" and up: "run_state SaveRegsUpper (with_r R s1) = ((), s')"
  shows "\<exists>es. s' = with_r R (at_sp (core_sp s - 100) es s) \<and> printed_lines es = [] \<and>
    stack_at s' (core_sp s - 100)
      (map (core_r s) trap_regs @ [core_lr s, cur s (core_sp s), cur s (core_sp s + 4)]) \<and>
    (\<forall>a. a \<notin> words (core_sp s - 100) 25 \<longrightarrow> cur s' a = cur s a)"
proof -
  let ?low = "map (core_r s) (regs_down 0 5) @ [core_lr s, cur s (core_sp s), cur s (core_sp s + 4)]"
  from run_SaveRegsLower [OF s low] obtain es where e1: "s1 = at_sp (core_sp s - 28) es s"
    "printed_lines es = []" "stack_at s1 (core_sp s - 28) ?low"
    "\<forall>a. a \<notin> words (core_sp s - 28) 7 \<longrightarrow> cur s1 a = cur s a" by blast
  have st: "stack_at (with_r R s1) (core_sp (with_r R s1)) ?low"
    using e1(3) stack_at_cong [of "core_sp s - 28" ?low "with_r R s1" s1] by (simp add: e1(1))
  have d1: "running (with_r R s1)" "ram (dev (with_r R s1))" using s by (simp_all add: e1(1))
  from run_SaveRegsUpper [OF d1 st _ up] obtain fs where e2:
    "s' = at_sp (core_sp s - 100) fs (with_r R s1)" "printed_lines fs = []"
    "stack_at s' (core_sp s - 100) (map R (regs_down 16 23 @ regs_down 6 15) @ ?low)"
    "\<forall>a. a \<notin> words (core_sp s - 100) 18 \<longrightarrow> cur s' a = cur s1 a"
    by (auto simp: e1(1))
  have maps: "map R (regs_down 16 23 @ regs_down 6 15) = map (core_r s) (regs_down 16 23 @ regs_down 6 15)"
    using R by auto
  have "stack_at s' (core_sp s - 100)
      (map (core_r s) trap_regs @ [core_lr s, cur s (core_sp s), cur s (core_sp s + 4)])"
    using e2(3) unfolding maps by (simp add: trap_regs_def)
  moreover have "\<forall>a. a \<notin> words (core_sp s - 100) 25 \<longrightarrow> cur s' a = cur s a"
    using e1(4) e2(4) frame_below by metis
  ultimately show ?thesis using e1(1,2) e2(1,2) by (intro exI [of _ "es @ fs"]) simp
qed

lemma run_SaveRegsAll:
  fixes s :: "'r core_scheme"
  assumes s: "running s" "ram (dev s)" and run: "run_state SaveRegsAll s = ((), s')"
  shows "\<exists>es. s' = at_sp (core_sp s - 100) es s \<and>
    stack_at s' (core_sp s - 100)
      (map (core_r s) trap_regs @ [core_lr s, cur s (core_sp s), cur s (core_sp s + 4)]) \<and>
    (\<forall>a. a \<notin> words (core_sp s - 100) 25 \<longrightarrow> cur s' a = cur s a)"
proof -
  obtain s1 where low: "run_state SaveRegsLower s = ((), s1)" using run_unit by blast
  have id: "with_r (core_r t) t = t" for t :: "'r core_scheme" by (simp add: with_r_def)
  have r1: "core_r s1 = core_r s" using run_SaveRegsLower [OF s low] by auto
  have up: "run_state SaveRegsUpper (with_r (core_r s) s1) = ((), s')"
    using run id [of s1] by (simp add: SaveRegsAll_def low r1)
  have "with_r (core_r s) (at_sp p es s) = at_sp p es s" for p es
    using id [of "at_sp p es s"] by simp
  with run_SaveRegs [OF s low _ up] show ?thesis by auto
qed

lemma run_return_from_exception:
  fixes s :: "'r core_scheme"
  assumes s: "running s" "ram (dev s)" "stack_at s (core_sp s) (map f trap_regs @ [l, st, target])"
    and run: "run_state return_from_exception s = ((), s')"
  shows "running s' \<and> dev s' = dev s \<and> core_r s' = (\<lambda>k. if k \<le> 23 then f k else core_r s k) \<and>
    core_sp s' = core_sp s + 108 \<and> core_lr s' = l \<and> sr s' = st \<and> core_pc s' = target"
proof -
  obtain s1 where r1: "run_state (ldm 16 23) s = ((), s1)" using run_unit by blast
  have st: "stack_at s (core_sp s) (map f (regs_down 16 23) @ map f (regs_down 6 15) @
      map f (regs_down 0 5) @ [l, st, target])"
    using s(3) by (simp add: trap_regs_def)
  from run_ldm [OF s(1,2) st r1] obtain es where e1:
    "s1 = with_r (\<lambda>k. if k \<in> {16..23} then f k else core_r s k) (at_sp (core_sp s + 32) es s)"
    "stack_at s1 (core_sp s1) (map f (regs_down 6 15) @ map f (regs_down 0 5) @ [l, st, target])" by auto
  have d1: "running s1" "ram (dev s1)" using s by (simp_all add: e1(1))
  obtain s2 where r2: "run_state (ldm 6 15) s1 = ((), s2)" using run_unit by blast
  from run_ldm [OF d1 e1(2) r2] obtain fs where e2:
    "s2 = with_r (\<lambda>k. if k \<in> {6..15} then f k else core_r s1 k) (at_sp (core_sp s1 + 40) fs s1)"
    "stack_at s2 (core_sp s2) (map f (regs_down 0 5) @ [l, st, target])" by auto
  have d2: "running s2" "ram (dev s2)" using d1 by (simp_all add: e2(1))
  obtain s3 where r3: "run_state (ldm 0 5) s2 = ((), s3)" using run_unit by blast
  from run_ldm [OF d2 e2(2) r3] obtain gs where e3:
    "s3 = with_r (\<lambda>k. if k \<in> {0..5} then f k else core_r s2 k) (at_sp (core_sp s2 + 24) gs s2)"
    "stack_at s3 (core_sp s3) [l, st, target]" by auto
  have d3: "running s3" "ram (dev s3)" "dev s3 = dev s" "core_sp s3 = core_sp s + 96"
    using d2 by (simp_all add: e3(1) e2(1) e1(1))
  have m: "cur s3 (core_sp s3) = l" "cur s3 (core_sp s3 + 4) = st" "cur s3 (core_sp s3 + 8) = target"
    using e3(2) by (simp_all add: add.assoc)
  have R: "core_r s3 = (\<lambda>k. if k \<le> 23 then f k else core_r s k)"
    by (auto simp: e3(1) e2(1) e1(1) fun_eq_iff)
  show ?thesis
    using run d3(1) m
    by (simp add: return_from_exception_def r1 r2 r3 ld_lr_def rti_def pop_word_def ram_read [OF d3(2)] cur_def)
      (auto simp: d3(3,4) R)
qed

text \<open>
  A C function called on the stack below \<open>p\<close> returns there and leaves the words in \<open>A\<close> alone, and
  \<open>r24\<close> and up, which compiled code does not use.
\<close>

definition keeps_frame :: "u32 set \<Rightarrow> u32 \<Rightarrow> ('r, 'a) core_io \<Rightarrow> bool" where
  "keeps_frame A p m \<longleftrightarrow> (\<forall>s s' x. running s \<longrightarrow> ram (dev s) \<longrightarrow> core_sp s = p \<longrightarrow>
     run_state m s = (x, s') \<longrightarrow> running s' \<and> dev s' = dev s \<and> core_sp s' = p \<and>
     (\<forall>k > 23. core_r s' k = core_r s k) \<and> (\<forall>a \<in> A. cur s' a = cur s a))"

lemma keeps_frameD:
  assumes "keeps_frame A p m" "running s" "ram (dev s)" "core_sp s = p" "run_state m s = (x, s')"
  shows "running s'" "dev s' = dev s" "core_sp s' = p" "\<And>k. k > 23 \<Longrightarrow> core_r s' k = core_r s k"
    "\<And>a. a \<in> A \<Longrightarrow> cur s' a = cur s a"
  using assms unfolding keeps_frame_def by blast+

lemma keeps_frame_bind:
  fixes m :: "('r, 'x) core_io"
  assumes "keeps_frame A p m" "\<And>x. keeps_frame A p (f x)"
  shows "keeps_frame A p (m \<bind> f)"
  unfolding keeps_frame_def
proof (intro allI impI)
  fix s s' :: "'r core_scheme" and y
  assume s: "running s" "ram (dev s)" "core_sp s = p" "run_state (m \<bind> f) s = (y, s')"
  obtain x s1 where 1: "run_state m s = (x, s1)" by fastforce
  with s(4) have 2: "run_state (f x) s1 = (y, s')" by simp
  note k1 = keeps_frameD [OF assms(1) s(1-3) 1]
  have "ram (dev s1)" using k1(2) s(2) by simp
  note k2 = keeps_frameD [OF assms(2) k1(1) this k1(3) 2]
  show "running s' \<and> dev s' = dev s \<and> core_sp s' = p \<and> (\<forall>k > 23. core_r s' k = core_r s k) \<and>
      (\<forall>a \<in> A. cur s' a = cur s a)"
    using k1 k2 by simp
qed

lemma keeps_frame_return: "keeps_frame A p (return x)"
  by (simp add: keeps_frame_def)

lemma keeps_frame_when: "keeps_frame A p m \<Longrightarrow> keeps_frame A p (when_io b m)"
  by (cases b) (simp_all add: when_io_def keeps_frame_return)

lemma keeps_frame_wr: "a \<notin> A \<Longrightarrow> keeps_frame A p (wr a v)"
  by (auto simp: keeps_frame_def cur_wr)

lemma run_fleh_irq:
  fixes s :: "'r core_scheme"
  assumes s: "running s" "ram (dev s)"
    and sleh: "\<And>s1 s2. run_state (sleh (interrupted s)) s1 = ((), s2) \<Longrightarrow> running s1 \<Longrightarrow> dev s1 = dev s \<Longrightarrow>
      core_sp s1 = core_sp s - 100 \<Longrightarrow> irq_h s1 = irq_h s \<Longrightarrow> irq_arg s1 = irq_arg s \<Longrightarrow>
      (\<And>k. k > 23 \<Longrightarrow> core_r s1 k = core_r s k) \<Longrightarrow>
      (\<And>a. a \<notin> words (core_sp s - 100) 25 \<Longrightarrow> cur s1 a = cur s a) \<Longrightarrow>
      running s2 \<and> dev s2 = dev s \<and> core_sp s2 = core_sp s1 \<and> (\<forall>k > 23. core_r s2 k = core_r s1 k) \<and>
      (\<forall>a \<in> words (core_sp s - 100) 27. cur s2 a = cur s1 a)"
    and run: "run_state (fleh_irq sleh ret) s = ((), s')"
  shows "running s' \<and> dev s' = dev s \<and> core_r s' = core_r s \<and> core_lr s' = core_lr s \<and>
    core_sp s' = core_sp s + 8 \<and> sr s' = cur s (core_sp s) \<and> core_pc s' = cur s (core_sp s + 4)"
proof -
  let ?fr = "map (core_r s) trap_regs @ [core_lr s, cur s (core_sp s), cur s (core_sp s + 4)]"
  obtain s1 where r1: "run_state SaveRegsAll s = ((), s1)" using run_unit by blast
  from run_SaveRegsAll [OF s r1] obtain es where e1: "s1 = at_sp (core_sp s - 100) es s"
    "stack_at s1 (core_sp s - 100) ?fr" "\<And>a. a \<notin> words (core_sp s - 100) 25 \<Longrightarrow> cur s1 a = cur s a"
    by blast
  define s2 where "s2 = (with_r ((core_r s)(0 := core_sp s - 100, 1 := core_r s 29)) s1)\<lparr>core_lr := ret\<rparr>"
  have d2: "running s2" "dev s2 = dev s" "core_sp s2 = core_sp s - 100" "irq_h s2 = irq_h s"
    "irq_arg s2 = irq_arg s" "core_r s2 = (core_r s)(0 := core_sp s - 100, 1 := core_r s 29)"
    "\<And>a. cur s2 a = cur s1 a"
    using s by (simp_all add: s2_def e1(1) with_r_def at_sp_def cur_def)
  have "stack_at s2 (core_sp s - 100) ?fr"
    using e1(2) stack_at_cong [of "core_sp s - 100" ?fr s2 s1] d2(7) by blast
  then have pcb: "pcb_at s2 (core_sp s - 100) = interrupted s" by (rule pcb_at_frame)
  obtain s3 where r3: "run_state (sleh (interrupted s)) s2 = ((), s3)" using run_unit by blast
  have k3: "running s3" "dev s3 = dev s" "core_sp s3 = core_sp s - 100"
    "\<forall>k > 23. core_r s3 k = core_r s2 k" "\<forall>a \<in> words (core_sp s - 100) 27. cur s3 a = cur s2 a"
    using sleh [OF r3 d2(1-5)] d2(3,6,7) e1(3) by auto
  have st3: "stack_at s3 (core_sp s3) ?fr"
    using \<open>stack_at s2 (core_sp s - 100) ?fr\<close> stack_at_cong [of "core_sp s - 100" ?fr s3 s2] k3(3,5)
    unfolding length_trap by simp
  have r4: "run_state return_from_exception s3 = ((), s')"
    using run s(1) r3 d2(1) pcb unfolding fleh_irq_def
    by (simp add: r1 run_set_r e1(1)) (simp add: s2_def e1(1))
  have "core_r s' = core_r s"
    using run_return_from_exception [OF k3(1) _ st3 r4] k3(2,4) s(2) d2(6) by (auto simp: fun_eq_iff)
  then show ?thesis
    using run_return_from_exception [OF k3(1) _ st3 r4] k3(2,3) s(2) by simp
qed

text \<open>An exception without a handler.\<close>

lemma run_ExceptionHandler:
  fixes s :: "'r core_scheme"
  assumes s: "running s" "ram (dev s)"
  shows "\<exists>s1 es. run_state (ExceptionHandler n fatal) s = run_state (fatal (interrupted s) n) s1 \<and>
    running s1 \<and> bus s1 = bus s @ es \<and> printed_lines es = []"
proof -
  obtain s1 where r1: "run_state SaveRegsLower s = ((), s1)" using run_unit by blast
  from run_SaveRegsLower [OF s r1] have d1: "running s1" "core_r s1 = core_r s" using s by auto
  let ?R = "(core_r s)(Suc 0 := n)"
  obtain s2 where r2: "run_state SaveRegsUpper (with_r ?R s1) = ((), s2)" using run_unit by blast
  have keep: "\<forall>k \<ge> 6. ?R k = core_r s k" by simp
  from run_SaveRegs [OF s r1 keep r2] obtain es where e: "s2 = with_r ?R (at_sp (core_sp s - 100) es s)"
    "printed_lines es = []"
    "stack_at s2 (core_sp s - 100)
      (map (core_r s) trap_regs @ [core_lr s, cur s (core_sp s), cur s (core_sp s + 4)])" by blast
  let ?s3 = "with_r (?R(0 := core_sp s - 100)) s2"
  have "pcb_at ?s3 (core_sp s - 100) = interrupted s"
    using pcb_at_frame [OF e(3)] by (simp add: pcb_at_def)
  then have "run_state (ExceptionHandler n fatal) s = run_state (fatal (interrupted s) n) ?s3"
    using s(1) d1 by (simp add: ExceptionHandler_def irq_fatal_def r1 r2 run_set_r e(1))
  moreover have "running ?s3" "bus ?s3 = bus s @ es" using s(1) by (simp_all add: e(1))
  ultimately show ?thesis using e(2) by blast
qed

subsection \<open>Properties\<close>

text \<open>C5.  
  Interrupts are invisible to the code they interrupt.  Whatever registers the handler and the
  scheduler change, if they leave the 27 words of the frame alone, the interrupted code continues
  with every register, its link register, and the program counter and status register the
  processor pushed, and the stack pointer is past those two words.
\<close>

theorem interrupt_transparent:
  fixes s :: "'r core_scheme"
  assumes "running s" "ram (dev s)" and v: "v \<in> {0, 9, 42, 57}" "cur s IC0_S AND 0xFF = v + 64"
    and h: "handlers_of s v = (h, a)" "h \<noteq> 0" and io: "IC0_S \<notin> words (core_sp s - 100) 25"
    and call: "keeps_frame (words (core_sp s - 100) 27) (core_sp s - 100) (call h a)"
    and preempt: "keeps_frame (words (core_sp s - 100) 27) (core_sp s - 100) preempt"
    and run: "run_state (fleh_irq (sleh_irq call preempt) ret) s = ((), s')"
  shows "running s' \<and> core_r s' = core_r s \<and> core_lr s' = core_lr s \<and> core_sp s' = core_sp s + 8 \<and>
    sr s' = cur s (core_sp s) \<and> core_pc s' = cur s (core_sp s + 4)"
proof -
  let ?A = "words (core_sp s - 100) 27"
  have body: "keeps_frame ?A (core_sp s - 100)
      (do { ret \<leftarrow> call h a; when_io (ret = INT_RESCHEDULE) preempt })"
    by (intro keeps_frame_bind keeps_frame_when call preempt)
  have "running s2 \<and> dev s2 = dev s \<and> core_sp s2 = core_sp s1 \<and> (\<forall>k > 23. core_r s2 k = core_r s1 k) \<and>
      (\<forall>a \<in> ?A. cur s2 a = cur s1 a)"
    if r: "run_state (sleh_irq call preempt (interrupted s)) s1 = ((), s2)"
      and d: "running s1" "dev s1 = dev s" "core_sp s1 = core_sp s - 100" "irq_h s1 = irq_h s"
        "irq_arg s1 = irq_arg s" "\<And>k. k > 23 \<Longrightarrow> core_r s1 k = core_r s k"
        "\<And>a. a \<notin> words (core_sp s - 100) 25 \<Longrightarrow> cur s1 a = cur s a"
    for s1 s2 :: "'r core_scheme"
  proof -
    let ?t = "log [Rd IC0_S] s1"
    have "cur s1 IC0_S AND 0xFF = v + 64" "handlers_of s1 v = (h, a)"
      using v(2) d(7) [OF io] h(1) d(4,5) by (simp, simp only: handlers_of_def)
    from run_sleh_irq_served [OF d(1) v(1) this h(2)] r have
      r2: "run_state (do { ret \<leftarrow> call h a; when_io (ret = INT_RESCHEDULE) preempt }) ?t = ((), s2)"
      by simp
    have t: "running ?t" "ram (dev ?t)" "core_sp ?t = core_sp s - 100" "\<And>a. cur ?t a = cur s1 a"
      using d(1-3) assms(2) by (simp_all add: cur_rd)
    from keeps_frameD [OF body t(1-3) r2] t(4) d(2,3) show ?thesis by simp
  qed
  from run_fleh_irq [OF assms(1,2) this run] show ?thesis by blast
qed

definition counting_call :: "u32 \<Rightarrow> u32 \<Rightarrow> ('r, handler_return) irq_io" where
  "counting_call h a = do { x \<leftarrow> rd a; wr a (x + 1); return INT_NO_RESCHEDULE }"

theorem interrupt_transparent_witness:
  "\<exists>s'. run_state (fleh_irq (sleh_irq counting_call (return ())) 0x80000300)
      (core_boot (memory (\<lambda>a. if a = IC0_S then 73 else 0x80004000)) 0xc0001000
        \<lparr>irq_h := (replicate 64 0)[9 := 0x80002000], irq_arg := (replicate 64 0)[9 := 0xc0008000]\<rparr>) = ((), s') \<and>
    core_r s' = of_nat \<and> core_sp s' = 0xc0001008 \<and> core_pc s' = 0x80004000"
proof -
  let ?d = "memory (\<lambda>a. if a = IC0_S then 73 else 0x80004000)"
  let ?s = "core_boot ?d 0xc0001000
    \<lparr>irq_h := (replicate 64 0)[9 := 0x80002000], irq_arg := (replicate 64 0)[9 := 0xc0008000]\<rparr>"
  obtain s' where run: "run_state (fleh_irq (sleh_irq counting_call (return ())) 0x80000300) ?s = ((), s')"
    using run_unit by blast
  have c: "cur ?s a = (if a = IC0_S then 73 else 0x80004000)" for a by (simp add: cur_def memory_def)
  have w: "unat a < 0xc0002000 \<and> 0xc0000000 \<le> unat a" if "a \<in> words (core_sp ?s - 100) n" "n \<le> 27" for a n
    using words_range [OF that(1)] that(2) by simp
  have io: "IC0_S \<notin> words (core_sp ?s - 100) 25" using w [of IC0_S 25] by (auto simp: reg_defs)
  have far: "(0xc0008000 :: u32) \<notin> words (core_sp ?s - 100) 27" using w [of "0xc0008000" 27] by auto
  have rd: "keeps_frame A p (rd b)" for A p b
    by (auto simp: keeps_frame_def cur_rd)
  have call: "keeps_frame (words (core_sp ?s - 100) 27) (core_sp ?s - 100) (counting_call 0x80002000 0xc0008000)"
    unfolding counting_call_def by (intro keeps_frame_bind rd keeps_frame_wr far keeps_frame_return)
  have pre: "running ?s" "ram (dev ?s)" "(9 :: u32) \<in> {0, 9, 42, 57}" "cur ?s IC0_S AND 0xFF = 9 + 64"
    "handlers_of ?s 9 = (0x80002000, 0xc0008000)" "(0x80002000 :: u32) \<noteq> 0"
    by (simp_all add: ram_memory c handlers_of_def)
  have top: "cur ?s (core_sp ?s + 4) = 0x80004000" unfolding c by (simp add: reg_defs)
  have "core_r ?s = of_nat" "core_sp ?s = 0xc0001000" by simp_all
  with interrupt_transparent [OF pre io call keeps_frame_return run] run top show ?thesis by simp
qed

text \<open>C10.  
  Every exception of the processor is reported.  The entry of each of the 32 exception vectors
  prints the name of its exception, \<open>unknown\<close> from vector 14 on, and the registers of the
  interrupted code, as they were, and hangs.
\<close>

theorem exception_reported:
  fixes s :: "'r core_scheme"
  assumes "running s" "ram (dev s)" "i < 32"
    and "run_state (fleh_entry sleh_fatal swi irq ret (vector_entry i)) s = ((), s')"
  shows "status s' = Hung \<and>
    (\<exists>more. printed_lines (bus s') = printed_lines (bus s) @
      [(''Fatal VPU Exception: %s'', [S (if i < 14 then g_ExceptionNames ! i else ''unknown'')]),
       (''VPU registers:'', []),
       (register_format_string ''   '', map U (map (core_r s) [0..<16] @
          [cur s (core_sp s + 4), core_lr s, cur s (core_sp s)]))] @ more)"
proof -
  define n :: u32 where "n = of_nat (min i 14)"
  let ?name = "if i < 14 then g_ExceptionNames ! i else ''unknown''"
  have num: "exception_number (vector_entry i) = Some n"
  proof (cases "i < 14")
    case True
    then show ?thesis
      by (simp add: n_def vector_entry_def exceptions_def less_Suc_eq numeral_eq_Suc) (elim disjE; simp)
  next
    case False
    with assms(3) show ?thesis by (simp add: n_def vector_entry_def)
  qed
  have "unat n = min i 14" by (simp add: n_def unat_of_nat)
  then have name: "exception_name n = ?name"
    by (simp add: exception_name_def g_ExceptionNames_def)
  obtain s1 es where s1: "run_state (ExceptionHandler n sleh_fatal) s =
      run_state (sleh_fatal (interrupted s) n) s1"
    "running s1" "bus s1 = bus s @ es" "printed_lines es = []"
    using run_ExceptionHandler [OF assms(1,2)] by blast
  let ?P = "interrupted s"
  have "run_state (sleh_fatal ?P n) s1 = ((), s')"
    using assms(4) s1(1) by (simp add: fleh_entry_def num)
  then have fin: "status s' = Hung" "\<exists>more. printed_lines (bus s') = printed_lines (bus s1) @
      [(''Fatal VPU Exception: %s'', [S ?name]), (''VPU registers:'', []),
       (register_format_string ''   '', map U [r0 ?P, r1 ?P, r2 ?P, r3 ?P, r4 ?P, r5 ?P, r6 ?P, r7 ?P,
          r8 ?P, r9 ?P, r10 ?P, r11 ?P, r12 ?P, r13 ?P, r14 ?P, r15 ?P, pc ?P, lr ?P, saved_sr ?P])] @ more"
    using s1(2) by (auto simp: sleh_fatal_def print_vpu_state_def name)
  have "map (core_r s) [0..<16] = [r0 ?P, r1 ?P, r2 ?P, r3 ?P, r4 ?P, r5 ?P, r6 ?P, r7 ?P,
      r8 ?P, r9 ?P, r10 ?P, r11 ?P, r12 ?P, r13 ?P, r14 ?P, r15 ?P]"
    by (simp add: interrupted_def Let_def upt_rec numeral_eq_Suc)
  then have regs: "[r0 ?P, r1 ?P, r2 ?P, r3 ?P, r4 ?P, r5 ?P, r6 ?P, r7 ?P, r8 ?P, r9 ?P, r10 ?P,
      r11 ?P, r12 ?P, r13 ?P, r14 ?P, r15 ?P, pc ?P, lr ?P, saved_sr ?P] =
      map (core_r s) [0..<16] @ [cur s (core_sp s + 4), core_lr s, cur s (core_sp s)]"
    by (simp add: interrupted_def Let_def)
  have "printed_lines (bus s1) = printed_lines (bus s)" using s1(3,4) by simp
  with fin show ?thesis unfolding regs by metis
qed

theorem exception_reported_witness:
  "\<exists>s' s''. run_state (fleh_entry sleh_fatal (\<lambda>_. return ()) (\<lambda>_. return ()) 0x80000300 (vector_entry 2))
      (core_boot (memory (\<lambda>_. 0x80004000)) 0xc0001000) = ((), s') \<and>
    status s' = Hung \<and> (''Fatal VPU Exception: %s'', [S ''Division by zero'']) \<in> set (printed_lines (bus s')) \<and>
    run_state (fleh_entry sleh_fatal (\<lambda>_. return ()) (\<lambda>_. return ()) 0x80000300 (vector_entry 31))
      (core_boot (memory (\<lambda>_. 0x80004000)) 0xc0001000) = ((), s'') \<and>
    status s'' = Hung \<and> (''Fatal VPU Exception: %s'', [S ''unknown'']) \<in> set (printed_lines (bus s''))"
proof -
  let ?s = "core_boot (memory (\<lambda>_. 0x80004000)) 0xc0001000"
  let ?m = "\<lambda>i. fleh_entry sleh_fatal (\<lambda>_. return ()) (\<lambda>_. return ()) 0x80000300 (vector_entry i) :: (unit, unit) core_io"
  obtain s' s'' where run: "run_state (?m 2) ?s = ((), s')" "run_state (?m 31) ?s = ((), s'')"
    using run_unit by blast
  have s: "running ?s" "ram (dev ?s)" and i: "(2 :: nat) < 32" "(31 :: nat) < 32" by (simp_all add: ram_memory)
  from exception_reported [OF s i(1) run(1)] exception_reported [OF s i(2) run(2)] run show ?thesis
    by (auto simp: g_ExceptionNames_def)
qed

end
