(* ===== verification/Vpu_Preempt.thy ===== *)
theory Vpu_Preempt
  imports Vpu_Traps
begin

unbundle bit_operations_syntax

text \<open>
  Preemption: an interrupt whose handler asks for the scheduler, which switches to other threads
  and, sometime, back (\<^verbatim>\<open>interrupt.S\<close>, \<^verbatim>\<open>intc.c\<close> and \<^verbatim>\<open>thread_asm.S\<close> together).  LK's scheduler is not
  part of the repository; what is used of it is that it sets the current thread and calls
  \<^verbatim>\<open>arch_context_switch\<close>, on the stack of the thread it runs on.

  The stack of a handler is where \<open>sp\<close> points when the interrupt arrives.  \<^verbatim>\<open>intc.c\<close> says that the
  processor makes \<open>sp\<close> an alias of \<open>r28\<close> then, which \<^verbatim>\<open>intc_init\<close> loads with the end of the one
  \<^verbatim>\<open>irq_stack0\<close>; \<open>core_sp\<close> is the register that \<open>sp\<close> names in the handler, and nothing here says
  in which range it lies.  The frame of the interrupted thread may be on its own stack or in
  \<^verbatim>\<open>irq_stack0\<close>, next to the frames of other threads preempted before: \<open>stk t\<close> holds both.  What
  has to hold, and is the hypothesis \<open>layout\<close>, is that the frames of two threads that are away at
  the same time do not overlap.
\<close>

subsection \<open>A run of the scheduler\<close>

text \<open>The memory of all threads but \<open>t\<close>.\<close>

definition others :: "u32 set \<Rightarrow> (u32 \<Rightarrow> u32 set) \<Rightarrow> u32 \<Rightarrow> u32 set" where
  "others T stk t = (\<Union>u \<in> T - {t}. {u, u + 4} \<union> stk u)"

text \<open>The running thread \<open>r\<close> computes: compiled code uses neither \<open>r24\<close> and up nor the others' memory.\<close>

definition computes ::
  "u32 set \<Rightarrow> (u32 \<Rightarrow> u32 set) \<Rightarrow> u32 \<Rightarrow> 'r core_scheme \<Rightarrow> 'r core_scheme \<Rightarrow> bool" where
  "computes T stk r s s' \<longleftrightarrow> running s' \<and> dev s' = dev s \<and> (\<forall>k > 23. core_r s' k = core_r s k) \<and>
     (\<forall>a \<in> others T stk r. cur s' a = cur s a)"

text \<open>What the scheduler does to run \<open>n\<close> in the place of \<open>r\<close>.\<close>

definition thread_switch :: "u32 \<Rightarrow> u32 \<Rightarrow> u32 \<Rightarrow> u32 \<Rightarrow> ('r, unit) core_io" where
  "thread_switch finish ret r n = do { arch_set_current_thread n; arch_context_switch finish ret r n }"

text \<open>
  \<open>away T stk t ctx0 s0 ret r ctx s\<close>: the thread \<open>t\<close> was switched away in state \<open>s0\<close>, to continue at
  \<open>ret\<close>, and has not run since; in state \<open>s\<close>, the thread \<open>r\<close> runs.
\<close>

inductive away ::
  "u32 set \<Rightarrow> (u32 \<Rightarrow> u32 set) \<Rightarrow> u32 \<Rightarrow> (u32 \<Rightarrow> thread_context) \<Rightarrow> 'r core_scheme \<Rightarrow> u32 \<Rightarrow>
    u32 \<Rightarrow> (u32 \<Rightarrow> thread_context) \<Rightarrow> 'r core_scheme \<Rightarrow> bool"
  for T stk t ctx0 s0 ret where
  leave: "n \<in> T - {t} \<Longrightarrow> run_state (thread_switch finish ret t n) s0 = ((), s') \<Longrightarrow>
    away T stk t ctx0 s0 ret n
      (ctx0(t := context_of (with_r ((core_r s0)(29 := n)) s0)\<lparr>c_lr := ret\<rparr>)) s'"
| compute: "away T stk t ctx0 s0 ret r ctx s \<Longrightarrow> computes T stk r s s' \<Longrightarrow>
    away T stk t ctx0 s0 ret r ctx s'"
| switch: "away T stk t ctx0 s0 ret r ctx s \<Longrightarrow> n \<in> T - {r, t} \<Longrightarrow>
    words (core_sp s - 76) 19 \<subseteq> stk r \<Longrightarrow> run_state (thread_switch finish ret' r n) s = ((), s') \<Longrightarrow>
    away T stk t ctx0 s0 ret n
      (ctx(r := context_of (with_r ((core_r s)(29 := n)) s)\<lparr>c_lr := ret'\<rparr>)) s'"

inductive_cases away_cases: "away T stk t ctx0 s0 ret r ctx s"

text \<open>
  A preemption of \<open>t\<close>, from state \<open>s1\<close> to \<open>s2\<close>: the scheduler computes on \<open>t\<close>'s stack below the
  words \<open>F\<close>, switches away, and another thread switches back.  When the call of the switch then
  returns as a call should, compiled code returns to its caller with the caller's stack pointer.
\<close>

definition preempted ::
  "u32 set \<Rightarrow> (u32 \<Rightarrow> u32 set) \<Rightarrow> u32 \<Rightarrow> (u32 \<Rightarrow> thread_context) \<Rightarrow> u32 set \<Rightarrow>
    'r core_scheme \<Rightarrow> 'r core_scheme \<Rightarrow> bool" where
  "preempted T stk t ctx F s1 s2 \<longleftrightarrow> (\<exists>sA ret r ctx' sB finish ret' sC.
     computes T stk t s1 sA \<and> (\<forall>a \<in> F. cur sA a = cur s1 a) \<and>
     words (core_sp sA - 76) 19 \<subseteq> stk t - F \<and>
     away T stk t ctx sA ret r ctx' sB \<and> words (core_sp sB - 76) 19 \<subseteq> stk r \<and>
     run_state (thread_switch finish ret' r t) sB = ((), sC) \<and>
     (resumes sC (context_of sA\<lparr>c_lr := ret\<rparr>) \<longrightarrow>
        computes T stk t sC s2 \<and> (\<forall>a \<in> F. cur s2 a = cur sC a) \<and> core_sp s2 = core_sp s1))"

subsection \<open>What a preemption leaves\<close>

lemma all_suspended_with_r [simp]: "all_suspended T stk r ctx (with_r R s) = all_suspended T stk r ctx s"
  by (simp add: all_suspended_def suspended_def stack_at_nth)

lemma computes_suspended:
  assumes "all_suspended T stk r ctx s" "computes T stk r s s'"
  shows "all_suspended T stk r ctx s'"
proof (rule all_suspended_compute [OF assms(1)])
  show "running s'" "ram (dev s')"
    using assms by (simp_all add: computes_def all_suspended_def)
  show "cur s' a = cur s a" if "t \<in> T - {r}" "a \<in> {t, t + 4} \<union> stk t" for t a
    using that assms(2) unfolding computes_def others_def by blast
qed

text \<open>The own memory of two threads is apart.\<close>

lemma layout_apart:
  "layout T stk \<Longrightarrow> t \<in> T \<Longrightarrow> u \<in> T \<Longrightarrow> t \<noteq> u \<Longrightarrow> ({t, t + 4} \<union> stk t) \<inter> ({u, u + 4} \<union> stk u) = {}"
  unfolding layout_def by blast

text \<open>One switch of the scheduler, with all it leaves alone.\<close>

lemma run_thread_switch:
  fixes s :: "'r core_scheme"
  assumes lay: "layout T stk" and all: "all_suspended T stk r ctx s" and n: "n \<in> T - {r}"
    and room: "words (core_sp s - 76) 19 \<subseteq> stk r"
    and run: "run_state (thread_switch finish ret r n) s = ((), s')"
  shows "all_suspended T stk n (ctx(r := context_of (with_r ((core_r s)(29 := n)) s)\<lparr>c_lr := ret\<rparr>)) s'"
    and "resumes s' (ctx n)" "dev s' = dev s" "core_r s' 29 = n"
    and "\<And>k. k > 23 \<Longrightarrow> k \<noteq> 29 \<Longrightarrow> core_r s' k = core_r s k"
    and "\<And>a. a \<notin> {r, r + 4} \<union> words (core_sp s - 76) 19 \<union> words (c_sp (ctx n) - 76) 19 \<Longrightarrow> cur s' a = cur s a"
    and "words (c_sp (ctx n) - 76) 19 \<subseteq> stk n"
proof -
  let ?s = "with_r ((core_r s)(29 := n)) s"
  have run': "run_state (arch_context_switch finish ret r n) ?s = ((), s')"
    using run all by (simp add: thread_switch_def arch_set_current_thread_def run_set_r all_suspended_def)
  have pre: "all_suspended T stk r ctx ?s" "words (core_sp ?s - 76) 19 \<subseteq> stk r"
    using all room by simp_all
  note sw = all_suspended_switch [OF lay pre(1) n pre(2) run']
  show "all_suspended T stk n (ctx(r := context_of ?s\<lparr>c_lr := ret\<rparr>)) s'" using sw by blast
  show "resumes s' (ctx n)" "dev s' = dev s" using sw by simp_all
  show "core_r s' 29 = n" using run_switch_high [OF run', of 29] by simp
  show "core_r s' k = core_r s k" if "k > 23" "k \<noteq> 29" for k
    using run_switch_high [OF run' that(1)] that(2) by simp
  show "words (c_sp (ctx n) - 76) 19 \<subseteq> stk n" using all n by (auto simp: all_suspended_def)
  show "cur s' a = cur s a"
    if "a \<notin> {r, r + 4} \<union> words (core_sp s - 76) 19 \<union> words (c_sp (ctx n) - 76) 19" for a
    using that sw by (auto simp: footprint_def)
qed

text \<open>While a thread is away, its stack and its context stay as they were.\<close>

definition kept_away ::
  "u32 set \<Rightarrow> (u32 \<Rightarrow> u32 set) \<Rightarrow> u32 \<Rightarrow> 'r core_scheme \<Rightarrow> u32 \<Rightarrow> u32 \<Rightarrow> (u32 \<Rightarrow> thread_context) \<Rightarrow>
    'r core_scheme \<Rightarrow> bool" where
  "kept_away T stk t s0 ret r ctx s \<longleftrightarrow>
     all_suspended T stk r ctx s \<and> r \<in> T - {t} \<and> dev s = dev s0 \<and>
     (\<forall>z :: 'r core_scheme. resumes z (ctx t) \<longrightarrow> resumes z (context_of s0\<lparr>c_lr := ret\<rparr>)) \<and>
     c_sp (ctx t) = core_sp s0 \<and>
     (\<forall>k > 23. k \<noteq> 29 \<longrightarrow> core_r s k = core_r s0 k) \<and>
     (\<forall>a \<in> stk t - words (core_sp s0 - 76) 19. cur s a = cur s0 a)"

lemma kept_away_leave:
  fixes s0 :: "'r core_scheme"
  assumes lay: "layout T stk" and all: "all_suspended T stk t ctx0 s0"
    and room: "words (core_sp s0 - 76) 19 \<subseteq> stk t" and n: "n \<in> T - {t}"
    and run: "run_state (thread_switch finish ret t n) s0 = ((), s')"
  shows "kept_away T stk t s0 ret n (ctx0(t := context_of (with_r ((core_r s0)(29 := n)) s0)\<lparr>c_lr := ret\<rparr>)) s'"
proof -
  note sw = run_thread_switch [OF lay all n room run]
  have t: "t \<in> T" using all by (simp add: all_suspended_def)
  have "cur s' a = cur s0 a" if a: "a \<in> stk t - words (core_sp s0 - 76) 19" for a
  proof (rule sw(6))
    have "{t, t + 4} \<inter> stk t = {}" using lay t unfolding layout_def by blast
    then show "a \<notin> {t, t + 4} \<union> words (core_sp s0 - 76) 19 \<union> words (c_sp (ctx0 n) - 76) 19"
      using a layout_apart [OF lay t, of n] n sw(7) by blast
  qed
  then show ?thesis using sw(1-3,5) n by (simp add: kept_away_def resumes_def)
qed

lemma kept_away_step:
  fixes s :: "'r core_scheme"
  assumes lay: "layout T stk" and t: "t \<in> T" and inv: "kept_away T stk t s0 ret r ctx s"
    and n: "n \<in> T - {r, t}" and room: "words (core_sp s - 76) 19 \<subseteq> stk r"
    and run: "run_state (thread_switch finish ret' r n) s = ((), s')"
  shows "kept_away T stk t s0 ret n (ctx(r := context_of (with_r ((core_r s)(29 := n)) s)\<lparr>c_lr := ret'\<rparr>)) s'"
proof -
  have all: "all_suspended T stk r ctx s" and r: "r \<in> T" "r \<noteq> t" and n': "n \<in> T - {r}"
    using inv n by (auto simp: kept_away_def)
  note sw = run_thread_switch [OF lay all n' room run]
  have "cur s' a = cur s a" if a: "a \<in> stk t" for a
  proof (rule sw(6))
    from layout_apart [OF lay t r(1)] layout_apart [OF lay t, of n] r(2) n a room
    show "a \<notin> {r, r + 4} \<union> words (core_sp s - 76) 19 \<union> words (c_sp (ctx n) - 76) 19"
      using sw(7) by blast
  qed
  then show ?thesis using inv sw(1,3,5) n r by (simp add: kept_away_def)
qed

lemma kept_away_compute:
  assumes t: "t \<in> T" and inv: "kept_away T stk t s0 ret r ctx s" and c: "computes T stk r s s'"
  shows "kept_away T stk t s0 ret r ctx s'"
proof -
  have "stk t \<subseteq> others T stk r" using inv t by (auto simp: kept_away_def others_def)
  then have "cur s' a = cur s a" if "a \<in> stk t" for a using c that by (auto simp: computes_def)
  moreover have "all_suspended T stk r ctx s'"
    using inv computes_suspended [OF _ c] by (simp add: kept_away_def)
  ultimately show ?thesis using inv c by (simp add: kept_away_def computes_def)
qed

lemma away_kept:
  assumes "layout T stk" "all_suspended T stk t ctx0 s0" "words (core_sp s0 - 76) 19 \<subseteq> stk t"
    and "away T stk t ctx0 s0 ret r ctx s"
  shows "kept_away T stk t s0 ret r ctx s"
  using assms(4)
proof (induction rule: away.induct)
  have t: "t \<in> T" using assms(2) by (simp add: all_suspended_def)
  case (compute r ctx s s')
  then show ?case using kept_away_compute [OF t] by blast
next
  have t: "t \<in> T" using assms(2) by (simp add: all_suspended_def)
  case (switch r ctx s n finish ret' s')
  show ?case using kept_away_step [OF assms(1) t switch.IH switch.hyps(2-4)] .
qed (rule kept_away_leave [OF assms(1-3)])

text \<open>The thread comes back as it left.\<close>

lemma preempted_back:
  fixes s1 :: "'r core_scheme"
  assumes lay: "layout T stk" and all: "all_suspended T stk t ctx s1" and cur: "core_r s1 29 = t"
    and F: "F \<subseteq> stk t" and pre: "preempted T stk t ctx F s1 s2"
  shows "running s2 \<and> dev s2 = dev s1 \<and> core_sp s2 = core_sp s1 \<and>
    (\<forall>k > 23. core_r s2 k = core_r s1 k) \<and> (\<forall>a \<in> F. cur s2 a = cur s1 a)"
proof -
  from pre obtain sA ret r ctx' sB finish ret' sC where
    A: "computes T stk t s1 sA" "\<forall>a \<in> F. cur sA a = cur s1 a" "words (core_sp sA - 76) 19 \<subseteq> stk t - F"
    and B: "away T stk t ctx sA ret r ctx' sB" "words (core_sp sB - 76) 19 \<subseteq> stk r"
    and C: "run_state (thread_switch finish ret' r t) sB = ((), sC)"
    and D: "resumes sC (context_of sA\<lparr>c_lr := ret\<rparr>) \<Longrightarrow>
      computes T stk t sC s2 \<and> (\<forall>a \<in> F. cur s2 a = cur sC a) \<and> core_sp s2 = core_sp s1"
    unfolding preempted_def by blast
  have allA: "all_suspended T stk t ctx sA" by (rule computes_suspended [OF all A(1)])
  have "words (core_sp sA - 76) 19 \<subseteq> stk t" using A(3) by blast
  note k = away_kept [OF lay allA this B(1), unfolded kept_away_def]
  have t: "t \<in> T - {r}" "r \<in> T" using k allA by (auto simp: all_suspended_def)
  have allB: "all_suspended T stk r ctx' sB" using k by blast
  note sw = run_thread_switch [OF lay allB t(1) B(2) C]
  have "resumes sC (context_of sA\<lparr>c_lr := ret\<rparr>)" using k sw(2) by blast
  note d = D [OF this]
  have "cur sC a = cur sA a" if a: "a \<in> F" for a
  proof -
    from a A(3) F have own: "a \<in> stk t - words (core_sp sA - 76) 19" by blast
    have "a \<notin> {r, r + 4} \<union> words (core_sp sB - 76) 19"
      using own B(2) layout_apart [OF lay, of t r] t by blast
    then have "cur sC a = cur sB a" using own k by (intro sw(6)) simp
    then show ?thesis using own k by simp
  qed
  moreover have "core_r sC j = core_r s1 j" if "j > 23" for j
    using that sw(4,5) k cur A(1) by (cases "j = 29") (auto simp: computes_def)
  ultimately show ?thesis using d A(1,2) sw(3) k by (simp add: computes_def)
qed

text \<open>The handler of a served interrupt, and the preemption it asks for.\<close>

lemma run_sleh_irq_preempting:
  fixes s s1 s2 :: "'r core_scheme"
  defines "p \<equiv> core_sp s - 100"
  assumes lay: "layout T stk" and all: "all_suspended T stk t ctx s" and cur: "core_r s 29 = t"
    and v: "v \<in> {0, 9, 42, 57}" "cur s IC0_S AND 0xFF = v + 64"
    and h: "handlers_of s v = (h, a)" "h \<noteq> 0"
    and room: "words p 27 \<subseteq> stk t" "IC0_S \<notin> stk t"
    and call: "keeps_frame (words p 27 \<union> others T stk t) p (call h a)"
    and preempt: "\<And>s1 s2. run_state preempt s1 = ((), s2) \<Longrightarrow> all_suspended T stk t ctx s1 \<Longrightarrow>
      core_sp s1 = p \<Longrightarrow> core_r s1 29 = t \<Longrightarrow> preempted T stk t ctx (words p 27) s1 s2"
    and r: "run_state (sleh_irq call preempt pcb) s1 = ((), s2)"
    and d: "running s1" "dev s1 = dev s" "core_sp s1 = p" "irq_h s1 = irq_h s" "irq_arg s1 = irq_arg s"
      "\<And>k. k > 23 \<Longrightarrow> core_r s1 k = core_r s k" "\<And>a. a \<notin> words p 25 \<Longrightarrow> cur s1 a = cur s a"
  shows "running s2 \<and> dev s2 = dev s \<and> core_sp s2 = core_sp s1 \<and> (\<forall>k > 23. core_r s2 k = core_r s1 k) \<and>
    (\<forall>a \<in> words p 27. cur s2 a = cur s1 a)"
proof -
  have s: "running s" "ram (dev s)" and t: "t \<in> T" using all by (simp_all add: all_suspended_def)
  have part: "words p 25 \<subseteq> words p 27" using words_part [of 0 25 27 p] by simp
  have "IC0_S \<notin> words p 25" using room part by blast
  then have src: "cur s1 IC0_S AND 0xFF = v + 64" "handlers_of s1 v = (h, a)"
    using v(2) d(7) h(1) d(4,5) by (simp, simp only: handlers_of_def)
  let ?t = "log [Rd IC0_S] s1"
  have dt: "running ?t" "ram (dev ?t)" "core_sp ?t = p" "\<And>a. cur ?t a = cur s1 a"
    using d(1-3) s(2) by (simp_all add: cur_rd)
  obtain x sH where c: "run_state (call h a) ?t = (x, sH)" by fastforce
  from run_sleh_irq_served [OF d(1) v(1) src h(2)] r c
  have r2: "run_state (when_io (x = INT_RESCHEDULE) preempt) sH = ((), s2)" by simp
  note k = keeps_frameD [OF call dt(1-3) c]
  have allH: "all_suspended T stk t ctx sH"
  proof (rule all_suspended_compute [OF all k(1)])
    show "ram (dev sH)" using k(2) dt(2) by simp
    show "cur sH a = cur s a" if "u \<in> T - {t}" "a \<in> {u, u + 4} \<union> stk u" for u a
    proof -
      have "a \<in> others T stk t" using that by (auto simp: others_def)
      moreover have "a \<notin> words p 25"
        using that layout_apart [OF lay t, of u] room(1) part by blast
      ultimately show ?thesis using k(5) dt(4) d(7) by simp
    qed
  qed
  have own: "core_r sH 29 = t" using k(4) [of 29] d(6) [of 29] cur by simp
  show ?thesis
  proof (cases "x = INT_RESCHEDULE")
    case True
    with r2 have "run_state preempt sH = ((), s2)" by simp
    from preempted_back [OF lay allH own room(1) preempt [OF this allH k(3) own]]
    show ?thesis using k dt(3,4) d(2,3) by simp
  next
    case False
    with r2 k dt(3,4) d(2,3) show ?thesis by simp
  qed
qed

subsection \<open>Properties\<close>

text \<open>C1.  
  A preempted thread does not notice.  An interrupt of a served vector arrives in thread \<open>t\<close>; its
  handler may ask for the scheduler, which switches away; any number of other threads compute and
  switch among themselves, until one switches back.  The interrupted code of \<open>t\<close> then continues
  with every register, its link register, and the program counter and status register the
  processor pushed, its stack pointer past those two words.  The interrupt frame lies wherever
  \<open>sp\<close> pointed, on the thread's own stack or in the shared \<^verbatim>\<open>irq_stack0\<close>, as long as no other
  thread uses the same words while this one is away; in the witness both threads are preempted with
  their frames in \<^verbatim>\<open>irq_stack0\<close>.
\<close>

theorem preemption_transparent:
  fixes s :: "'r core_scheme"
  assumes lay: "layout T stk" and all: "all_suspended T stk t ctx s" and cur: "core_r s 29 = t"
    and v: "v \<in> {0, 9, 42, 57}" "cur s IC0_S AND 0xFF = v + 64"
    and h: "handlers_of s v = (h, a)" "h \<noteq> 0"
    and room: "words (core_sp s - 100) 27 \<subseteq> stk t" "IC0_S \<notin> stk t"
    and call: "keeps_frame (words (core_sp s - 100) 27 \<union> others T stk t) (core_sp s - 100) (call h a)"
    and preempt: "\<And>s1 s2. run_state preempt s1 = ((), s2) \<Longrightarrow> all_suspended T stk t ctx s1 \<Longrightarrow>
      core_sp s1 = core_sp s - 100 \<Longrightarrow> core_r s1 29 = t \<Longrightarrow>
      preempted T stk t ctx (words (core_sp s - 100) 27) s1 s2"
    and run: "run_state (fleh_irq (sleh_irq call preempt) ret) s = ((), s')"
  shows "running s' \<and> core_r s' = core_r s \<and> core_lr s' = core_lr s \<and> core_sp s' = core_sp s + 8 \<and>
    sr s' = cur s (core_sp s) \<and> core_pc s' = cur s (core_sp s + 4)"
proof -
  have s: "running s" "ram (dev s)" using all by (simp_all add: all_suspended_def)
  note body = run_sleh_irq_preempting [where preempt = preempt and call = call and h = h and a = a,
      OF lay all cur v h room call preempt]
  have "running s' \<and> dev s' = dev s \<and> core_r s' = core_r s \<and> core_lr s' = core_lr s \<and>
      core_sp s' = core_sp s + 8 \<and> sr s' = cur s (core_sp s) \<and> core_pc s' = cur s (core_sp s + 4)"
    by (rule run_fleh_irq [OF s body run]) simp_all
  then show ?thesis by blast
qed

text \<open>For the example: the scheduler runs one other thread, which switches back at once.\<close>

definition round_trip :: "u32 \<Rightarrow> u32 \<Rightarrow> ('r, unit) core_io" where
  "round_trip t n = do {
     thread_switch 0x80000100 0x80000200 t n;
     thread_switch 0x80000100 0x80000300 n t
   }"

lemma round_trip_preempts:
  fixes s1 :: "'r core_scheme"
  assumes lay: "layout T stk" and all: "all_suspended T stk t ctx s1" and n: "n \<in> T - {t}"
    and room: "words (core_sp s1 - 76) 19 \<subseteq> stk t - F"
    and run: "run_state (round_trip t n) s1 = ((), s2)"
  shows "preempted T stk t ctx F s1 s2"
proof -
  let ?ctx = "ctx(t := context_of (with_r ((core_r s1)(29 := n)) s1)\<lparr>c_lr := 0x80000200\<rparr>)"
  obtain sB where B: "run_state (thread_switch 0x80000100 0x80000200 t n) s1 = ((), sB)"
    using run_unit by blast
  then have C: "run_state (thread_switch 0x80000100 0x80000300 n t) sB = ((), s2)"
    using run by (simp add: round_trip_def)
  have own: "words (core_sp s1 - 76) 19 \<subseteq> stk t" using room by blast
  note sw = run_thread_switch [OF lay all n own B]
  have sp: "words (core_sp sB - 76) 19 \<subseteq> stk n" using sw(2,7) by (simp add: resumes_def)
  have t: "t \<in> T - {n}" using n all by (auto simp: all_suspended_def)
  have "computes T stk t s1 s1" using all by (simp add: computes_def all_suspended_def)
  moreover have "computes T stk t s2 s2"
    using run_thread_switch(1) [OF lay sw(1) t sp C] by (simp add: computes_def all_suspended_def)
  moreover have "away T stk t ctx s1 0x80000200 n ?ctx sB" by (rule away.leave [OF n B])
  ultimately show ?thesis
    unfolding preempted_def
    by (intro exI [of _ s1] exI [of _ "0x80000200"] exI [of _ n] exI [of _ ?ctx] exI [of _ sB]
        exI [of _ "0x80000100"] exI [of _ "0x80000300"] exI [of _ s2])
      (use room sp C in \<open>simp add: resumes_def\<close>)
qed

definition waking_call :: "u32 \<Rightarrow> u32 \<Rightarrow> ('r, handler_return) irq_io" where
  "waking_call h a = do { x \<leftarrow> rd a; wr a (x + 1); return INT_RESCHEDULE }"

text \<open>
  Both threads have been preempted, and both frames lie in one \<^verbatim>\<open>irq_stack0\<close>, the 1024 bytes from
  \<open>0xc0001000\<close>: thread B's at its end, where \<^verbatim>\<open>intc_init\<close> puts \<open>r28\<close>, thread A's below.
\<close>

definition irq_stacks :: "u32 \<Rightarrow> u32 set" where
  "irq_stacks t = (if t = thread_A then words 0xc0001000 64 else words 0xc0001300 64)"

lemma irq_stacks_shared: "irq_stacks t \<subseteq> words 0xc0001000 256"
  using words_part [of 0 64 256 "0xc0001000"] words_part [of 192 64 256 "0xc0001000"]
  by (simp add: irq_stacks_def)

lemma irq_layout: "layout {thread_A, thread_B} irq_stacks"
proof -
  have A: "0xc0001000 \<le> unat a \<and> unat a < 0xc0001100" if "a \<in> words 0xc0001000 64" for a
    using words_range [OF that] by simp
  have B: "0xc0001300 \<le> unat a \<and> unat a < 0xc0001400" if "a \<in> words 0xc0001300 64" for a
    using words_range [OF that] by simp
  have apart: "words 0xc0001000 64 \<inter> words 0xc0001300 64 = {}" using A B by fastforce
  have "unat thread_A = 0xc0000100" "unat (thread_A + 4) = 0xc0000104"
    "unat thread_B = 0xc0000200" "unat (thread_B + 4) = 0xc0000204"
    by (simp_all add: thread_A_def thread_B_def)
  then have "x \<notin> words 0xc0001000 64 \<and> x \<notin> words 0xc0001300 64"
    if "x \<in> {thread_A, thread_A + 4, thread_B, thread_B + 4}" for x
    using that A [of x] B [of x] by auto
  then show ?thesis
    using apart by (auto simp: layout_def irq_stacks_def) (simp_all add: thread_A_def thread_B_def)
qed

definition preempt_ram :: device where
  "preempt_ram = memory (\<lambda>a. if a = thread_B then 0xc0001344 else if a = 0xc000138c then 0x80001234
     else if a = IC0_S then 73 else if a = 0xc00010fc then 0x80004000 else 0)"

definition preempt_state :: "unit core_scheme" where
  "preempt_state = core_boot preempt_ram 0xc00010f8
     \<lparr>irq_h := (replicate 64 0)[9 := 0x80002000], irq_arg := (replicate 64 0)[9 := 0xc0008000],
      core_r := of_nat(28 := 0xc00013fc, 29 := thread_A)\<rparr>"

lemma preempt_state_simps [simp]:
  "status preempt_state = Running" "dev preempt_state = preempt_ram" "core_sp preempt_state = 0xc00010f8"
  "core_r preempt_state 29 = thread_A" "handlers_of preempt_state 9 = (0x80002000, 0xc0008000)"
  by (simp_all add: preempt_state_def handlers_of_def)

lemma preempt_cur:
  "cur preempt_state a = (if a = thread_B then 0xc0001344 else if a = 0xc000138c then 0x80001234
     else if a = IC0_S then 73 else if a = 0xc00010fc then 0x80004000 else 0)"
  by (simp add: cur_def preempt_state_def preempt_ram_def memory_def)

lemma preempt_suspended:
  "all_suspended {thread_A, thread_B} irq_stacks thread_A (\<lambda>_. new_context 0xc0001390 0x80001234 0) preempt_state"
proof -
  have "stack_at preempt_state 0xc0001344 (map (\<lambda>_. 0) saved_regs @ [0x80001234])"
    by (simp add: saved_regs_def regs_down_def preempt_cur thread_B_def reg_defs)
  moreover have "words (0xc0001390 - 76) 19 \<subseteq> irq_stacks thread_B"
    using words_part [of 17 19 64 "0xc0001300"] by (simp add: irq_stacks_def thread_A_def thread_B_def)
  moreover have "cur preempt_state (thread_B + 4) = 0" "cur preempt_state thread_B = 0xc0001344"
    by (simp_all add: preempt_cur thread_B_def reg_defs)
  moreover have "ram preempt_ram" by (simp add: preempt_ram_def ram_memory)
  ultimately show ?thesis
    by (simp add: all_suspended_def suspended_def new_context_def insert_Diff_if)
qed

theorem preemption_transparent_witness:
  "\<exists>s'. run_state (fleh_irq (sleh_irq waking_call (round_trip thread_A thread_B)) 0x80000400) preempt_state = ((), s') \<and>
    core_r s' = core_r preempt_state \<and> core_sp s' = 0xc0001100 \<and> core_pc s' = 0x80004000 \<and>
    irq_stacks thread_A \<union> irq_stacks thread_B \<subseteq> words 0xc0001000 256"
proof -
  let ?T = "{thread_A, thread_B}" and ?s = preempt_state and ?F = "words (0xc0001094 :: u32) 27"
    and ?c = "\<lambda>_ :: u32. new_context 0xc0001390 0x80001234 0"
  obtain s' where run: "run_state (fleh_irq (sleh_irq waking_call (round_trip thread_A thread_B)) 0x80000400) ?s = ((), s')"
    using run_unit by blast
  have ne: "thread_B \<noteq> thread_A" by (simp add: thread_A_def thread_B_def)
  have A: "0xc0001000 \<le> unat a \<and> unat a < 0xc0001100" if "a \<in> irq_stacks thread_A" for a
    using words_range [of a "0xc0001000" 64] that by (simp add: irq_stacks_def)
  have B: "unat a < 0xc0001400" if "a \<in> others ?T irq_stacks thread_A" for a
  proof -
    from that ne have "a = thread_B \<or> a = thread_B + 4 \<or> a \<in> words 0xc0001300 64"
      by (auto simp: others_def irq_stacks_def insert_Diff_if)
    then show ?thesis using words_range [of a "0xc0001300" 64] by (auto simp: thread_B_def)
  qed
  have F: "?F \<subseteq> irq_stacks thread_A" and G: "words (0xc0001048 :: u32) 19 \<subseteq> irq_stacks thread_A"
    using words_part [of 37 27 64 "0xc0001000"] words_part [of 18 19 64 "0xc0001000"]
    by (simp_all add: irq_stacks_def)
  have "?F \<inter> words 0xc0001048 19 = {}"
    using words_range [of _ "0xc0001094" 27] words_range [of _ "0xc0001048" 19] by fastforce
  with G have G': "words (0xc0001048 :: u32) 19 \<subseteq> irq_stacks thread_A - ?F" by blast
  have io: "IC0_S \<notin> irq_stacks thread_A" using A [of IC0_S] by (auto simp: reg_defs)
  have far: "(0xc0008000 :: u32) \<notin> ?F \<union> others ?T irq_stacks thread_A"
    using A [of "0xc0008000"] B [of "0xc0008000"] F by auto
  have rd: "keeps_frame C p (rd b)" for C p b by (auto simp: keeps_frame_def cur_rd)
  have call: "keeps_frame (words (core_sp ?s - 100) 27 \<union> others ?T irq_stacks thread_A) (core_sp ?s - 100)
      (waking_call 0x80002000 0xc0008000)"
    unfolding waking_call_def
    by (intro keeps_frame_bind rd keeps_frame_wr keeps_frame_return) (use far in simp)
  have preempt: "preempted ?T irq_stacks thread_A ?c (words (core_sp ?s - 100) 27) s1 s2"
    if "run_state (round_trip thread_A thread_B) s1 = ((), s2)"
      "all_suspended ?T irq_stacks thread_A ?c s1" "core_sp s1 = core_sp ?s - 100" "core_r s1 29 = thread_A"
    for s1 s2 :: "unit core_scheme"
    using that(3) G' ne by (intro round_trip_preempts [OF irq_layout that(2) _ _ that(1)]) simp_all
  have pre: "(9 :: u32) \<in> {0, 9, 42, 57}" "cur ?s IC0_S AND 0xFF = 9 + 64" "(0x80002000 :: u32) \<noteq> 0"
    "words (core_sp ?s - 100) 27 \<subseteq> irq_stacks thread_A"
    using F by (simp_all add: preempt_cur reg_defs thread_B_def)
  have top: "cur ?s (core_sp ?s + 4) = 0x80004000" "core_sp ?s + 8 = 0xc0001100"
    by (simp_all add: preempt_cur reg_defs thread_B_def)
  have "running s' \<and> core_r s' = core_r ?s \<and> core_lr s' = core_lr ?s \<and> core_sp s' = core_sp ?s + 8 \<and>
      sr s' = cur ?s (core_sp ?s) \<and> core_pc s' = cur ?s (core_sp ?s + 4)"
    by (rule preemption_transparent [OF irq_layout preempt_suspended preempt_state_simps(4) pre(1,2)
        preempt_state_simps(5) pre(3,4) io call preempt run])
  then show ?thesis unfolding top using run irq_stacks_shared by blast
qed

end
