(* ===== verification/Vpu_Start.thy ===== *)
theory Vpu_Start
  imports Vpu_Threads Stage1
begin

unbundle bit_operations_syntax

text \<open>
  The start of the VPU (\<^verbatim>\<open>start.S\<close>, \<^verbatim>\<open>startup.c\<close>), the remaining functions of \<^verbatim>\<open>arch.c\<close>, and the
  hand-over to a loaded program.  LK's \<^verbatim>\<open>lk_main\<close>, the C library's \<^verbatim>\<open>bzero\<close> and the program that is
  jumped to are arguments.
\<close>

subsection \<open>The code\<close>

text \<open>\<^verbatim>\<open>bzero p n\<close>; the two other arguments are the linker's \<^verbatim>\<open>_fbss\<close> and \<^verbatim>\<open>_ebss\<close>.\<close>

definition zero_bss :: "(u32 \<Rightarrow> u32 \<Rightarrow> ('r, unit) io) \<Rightarrow> u32 \<Rightarrow> u32 \<Rightarrow> ('r, unit) io" where
  "zero_bss bzero fbss ebss = bzero fbss (ebss - fbss)"

definition arch_early_init :: "('r, unit) core_io" where
  "arch_early_init = do {
     r28 \<leftarrow> gget (\<lambda>s. core_r s 28);
     sp \<leftarrow> gget core_sp;
     st \<leftarrow> gget sr;
     return ()
   }"

text \<open>\<open>cpuid\<close> is what the instruction \<open>version\<close> gives.\<close>

definition arch_init :: "u32 \<Rightarrow> ('r, unit) core_io" where
  "arch_init cpuid = do {
     r28 \<leftarrow> gget (\<lambda>s. core_r s 28);
     sp \<leftarrow> gget core_sp;
     printf ''arch_init, r28: 0x%x, sp: 0x%x, cpuid: %x'' [U r28, U sp, U cpuid]
   }"

text \<open>\<open>sleep\<close> waits for an interrupt; it changes no state of the program.\<close>

definition arch_idle :: "('r, unit) io" where "arch_idle = return ()"

definition arch_sync_cache_range :: "u32 \<Rightarrow> u32 \<Rightarrow> ('r, unit) io" where
  "arch_sync_cache_range start len = return ()"

definition arch_clean_cache_range :: "u32 \<Rightarrow> u32 \<Rightarrow> ('r, unit) io" where
  "arch_clean_cache_range start len = return ()"

text \<open>\<open>jump entry args\<close> is the call of the loaded program with \<open>r0\<close> to \<open>r3\<close> set.\<close>

definition arch_chain_load ::
  "(u32 \<Rightarrow> u32 list \<Rightarrow> ('r, unit) io) \<Rightarrow> u32 \<Rightarrow> u32 \<Rightarrow> u32 \<Rightarrow> u32 \<Rightarrow> u32 \<Rightarrow> ('r, unit) io" where
  "arch_chain_load jump entry arg0 arg1 arg2 arg3 = do {
     printf ''flushing uart tx and chainloading...'' [];
     uart_flush_tx 0;
     jump entry [arg0, arg1, arg2, arg3];
     panic ''chainload somehow returned''
   }"

text \<open>The console commands for tests; \<open>target\<close> is the address of the local array.\<close>

definition testit :: "u32 \<Rightarrow> u32 \<Rightarrow> u32 \<Rightarrow> u32 \<Rightarrow> u32 \<Rightarrow> ('r, unit) io" where
  "testit p a b c d = do { wr p a; wr (p + 4) b; wr (p + 8) c; wr (p + 12) d }"

definition cmd_testit :: "u32 \<Rightarrow> ('r, int) io" where
  "cmd_testit target = do {
     testit target 0x11 0x22 0x33 0x44;
     a \<leftarrow> rd target; b \<leftarrow> rd (target + 4); c \<leftarrow> rd (target + 8); d \<leftarrow> rd (target + 12);
     printf ''%x %x %x %x'' [U a, U b, U c, U d];
     return 0
   }"

definition toggle18 :: "('r, unit) io" where
  "toggle18 = for_each [0..<100000000] (\<lambda>_. do {
     wr 0x7e20001c (BV 18);
     wr 0x7e200028 (BV 18)
   })"

definition cmd_jitter :: "('r, int) io" where
  "cmd_jitter = do {
     _ \<leftarrow> gpio_config 18 1;
     for_each [0..<10000000] (\<lambda>_. toggle18);
     return 0
   }"

text \<open>The serial port, before any C code runs; the build knows two crystals.\<close>

definition manual_uart_cfg :: "u32 \<Rightarrow> ('r, unit) io" where
  "manual_uart_cfg crystal = do {
     wr 0x7e200004 0x00004000;
     wr 0x7e1010f4 (if crystal = 19200000 then 0x5a003900 else 0x5a00a050);
     wr 0x7e1010f0 0x5a000211;
     wr 0x7e201044 0x000007ff;
     wr 0x7e20102c 0x00000070;
     wr 0x7e201024 0x00000002;
     wr 0x7e201028 0x0000003b;
     wr 0x7e201030 0x00000301;
     wr 0x7e201000 (u32_of8 (of_char CHR ''U''))
   }"

definition vc4_start :: "('r, unit) io \<Rightarrow> ('r, unit) io" where
  "vc4_start lk_main = lk_main"

definition start :: "u32 \<Rightarrow> u32 \<Rightarrow> ('r, unit) core_io \<Rightarrow> ('r, unit) core_io \<Rightarrow> ('r, unit) core_io" where
  "start fstack crystal clear_bss lk_main = do {
     arch_disable_ints;
     gset (\<lambda>s. s\<lparr>core_sp := fstack\<rparr>);
     manual_uart_cfg crystal;
     clear_bss;
     lk_main;
     spin_forever
   }"

definition core2_start :: "u32 \<Rightarrow> u32 \<Rightarrow> ('r, unit) core_io" where
  "core2_start core2_stack_top foo = do {
     set_r 0 core2_stack_top;
     p \<leftarrow> rd core2_stack_top;
     gset (\<lambda>s. s\<lparr>core_sp := p\<rparr>);
     set_r 0 0;
     set_r 1 (u32_of8 (of_char CHR ''A''));
     _ \<leftarrow> uart_putc 0 (of_char CHR ''A'');
     core2_entry foo;
     spin_forever
   }"

subsection \<open>The hand-over\<close>

text \<open>Draining the transmitter: it returns after both status bits were seen, or waits for ever.\<close>

abbreviation tx_status :: u32 where "tx_status \<equiv> UART0_BASE + UART_TFR"

lemma run_uart_flush_tx:
  assumes "running s" "run_state (uart_flush_tx port) s = ((), s')"
  shows "(status s' = Hung \<and> (\<exists>n. bus s' = bus s @ replicate n (Rd tx_status))) \<or>
    (\<exists>n m. s' = log (replicate (Suc n) (Rd tx_status) @ replicate (Suc m) (Rd tx_status)) s \<and>
      dev s (bus s @ replicate n (Rd tx_status)) tx_status AND 0x80 \<noteq> 0 \<and>
      dev s (bus s @ replicate (Suc n + m) (Rd tx_status)) tx_status AND 0x8 = 0)"
proof -
  let ?c = "\<lambda>x :: u32. x AND 0x80 \<noteq> 0" and ?e = "\<lambda>x :: u32. x AND 0x8 = 0"
  obtain v s1 where 1: "run_state (poll tx_status ?c) s = (v, s1)" by fastforce
  obtain w s2 where 2: "run_state (poll tx_status ?e) s1 = (w, s2)" by fastforce
  have s': "s' = s2" using assms(2) 1 2 by (simp add: uart_flush_tx_def Let_def)
  show ?thesis
  proof (cases "running s1")
    case False
    then have "\<not> (\<exists>n. ?c (answer s tx_status n))"
      using 1 poll_exact [OF assms(1), of tx_status ?c] assms(1) by (auto simp: Let_def split: if_splits)
    with 1 have "s1 = s\<lparr>status := Hung\<rparr>" using poll_exact [OF assms(1), of tx_status ?c] by simp
    with 2 poll_stopped [of s1 tx_status ?e] False have "s' = s\<lparr>status := Hung\<rparr>" by (simp add: s')
    then show ?thesis by (intro disjI1 conjI exI [of _ 0]) simp_all
  next
    case True
    then obtain n where n: "?c v" "v = answer s tx_status n" "s1 = log (replicate (Suc n) (Rd tx_status)) s"
      by (rule poll_running [OF assms(1) 1])
    show ?thesis
    proof (cases "running s2")
      case False
      then have "\<not> (\<exists>n. ?e (answer s1 tx_status n))"
        using 2 poll_exact [OF True, of tx_status ?e] True by (auto simp: Let_def split: if_splits)
      with 2 have "s' = s1\<lparr>status := Hung\<rparr>" using poll_exact [OF True, of tx_status ?e] by (simp add: s')
      then show ?thesis using n(3) by (intro disjI1 conjI exI [of _ "Suc n"]) simp_all
    next
      case run2: True
      then obtain m where m: "?e w" "w = answer s1 tx_status m" "s2 = log (replicate (Suc m) (Rd tx_status)) s1"
        by (rule poll_running [OF True 2])
      have "bus s1 @ replicate m (Rd tx_status) = bus s @ replicate (Suc n + m) (Rd tx_status)"
        by (simp add: n(3) del: replicate_Suc flip: replicate_add)
      with m n have "dev s (bus s @ replicate n (Rd tx_status)) tx_status AND 0x80 \<noteq> 0"
        "dev s (bus s @ replicate (Suc n + m) (Rd tx_status)) tx_status AND 0x8 = 0"
        by (simp_all add: answer_def cur_def del: replicate_Suc)
      then show ?thesis
        using m(3) n(3) by (intro disjI2 exI [of _ n] exI [of _ m]) (simp add: s' del: replicate_Suc)
    qed
  qed
qed

text \<open>The last events were the wait for an empty FIFO and the wait for an idle transmitter.\<close>

definition drained :: "'r mach_scheme \<Rightarrow> bool" where
  "drained s \<longleftrightarrow> (\<exists>h n m. bus s = h @ replicate (Suc n) (Rd tx_status) @ replicate (Suc m) (Rd tx_status) \<and>
     dev s (h @ replicate n (Rd tx_status)) tx_status AND 0x80 \<noteq> 0 \<and>
     dev s (h @ replicate (Suc n + m) (Rd tx_status)) tx_status AND 0x8 = 0)"

definition entered :: "('r, unit) io \<Rightarrow> 'r mach_scheme \<Rightarrow> 'r mach_scheme" where
  "entered prog s = (let s2 = snd (run_state prog s)
     in if running s2 then s2\<lparr>status := Panicked ''chainload somehow returned''\<rparr> else s2)"

lemma run_chain_load_drained:
  fixes s :: "'r mach_scheme"
  assumes "running s" "dev s = d" "ends d (uart_flush_tx 0 :: ('r, unit) io)"
  shows "\<exists>t. running t \<and> drained t \<and> dev t = d \<and>
    run_state (arch_chain_load jump entry a b c e) s = ((), entered (jump entry [a, b, c, e]) t)"
proof -
  let ?s1 = "log [Print ''flushing uart tx and chainloading...'' []] s"
  obtain t where t: "run_state (uart_flush_tx 0) ?s1 = ((), t)" using run_unit by blast
  have 1: "running ?s1" "dev ?s1 = d" using assms(1,2) by simp_all
  note e = endsD [OF assms(3) 1(2,1) t]
  obtain n m where m: "t = log (replicate (Suc n) (Rd tx_status) @ replicate (Suc m) (Rd tx_status)) ?s1"
    "dev ?s1 (bus ?s1 @ replicate n (Rd tx_status)) tx_status AND 0x80 \<noteq> 0"
    "dev ?s1 (bus ?s1 @ replicate (Suc n + m) (Rd tx_status)) tx_status AND 0x8 = 0"
    using run_uart_flush_tx [OF 1(1) t] e(1) by auto
  then have "drained t"
    unfolding drained_def
    by (intro exI [of _ "bus ?s1"] exI [of _ n] exI [of _ m]) (simp del: replicate_Suc)
  moreover have "run_state (arch_chain_load jump entry a b c e) s = ((), entered (jump entry [a, b, c, e]) t)"
    using assms(1) t by (simp add: arch_chain_load_def entered_def Let_def split: prod.split)
  ultimately show ?thesis using e by blast
qed

subsection \<open>Properties\<close>

text \<open>C14.  
  A loaded program is entered only when the serial port has gone quiet.  Either the port never
  drains and the jump is never made, or the last two conditions read before the jump were an
  empty transmit FIFO and then an idle transmitter; the program gets exactly its four arguments,
  and if it returns the machine panics.
\<close>

theorem chain_load_after_drain:
  assumes "running s" "run_state (arch_chain_load jump entry a b c d) s = ((), s')"
    and inert: "inert (jump entry [a, b, c, d])"
  shows "(status s' = Hung \<and> (\<exists>n. bus s' = bus s @ Print ''flushing uart tx and chainloading...'' [] #
        replicate n (Rd tx_status))) \<or>
    (\<exists>h n m. h = bus s @ [Print ''flushing uart tx and chainloading...'' []] \<and>
      dev s (h @ replicate n (Rd tx_status)) tx_status AND 0x80 \<noteq> 0 \<and>
      dev s (h @ replicate (Suc n + m) (Rd tx_status)) tx_status AND 0x8 = 0 \<and>
      (let s2 = snd (run_state (jump entry [a, b, c, d]) (s\<lparr>bus := h @ replicate (Suc n + Suc m) (Rd tx_status)\<rparr>))
       in s' = (if running s2 then s2\<lparr>status := Panicked ''chainload somehow returned''\<rparr> else s2)))"
proof -
  let ?p = "Print ''flushing uart tx and chainloading...'' []"
  let ?s1 = "log [?p] s"
  obtain s2 where 2: "run_state (uart_flush_tx 0) ?s1 = ((), s2)" using run_unit by blast
  have rest: "run_state (do { jump entry [a, b, c, d]; panic ''chainload somehow returned'' }) s2 = ((), s')"
    using assms(1,2) 2 by (simp add: arch_chain_load_def)
  have "running ?s1" using assms(1) by simp
  from run_uart_flush_tx [OF this 2] show ?thesis
  proof (elim disjE exE conjE)
    fix n assume h: "status s2 = Hung" "bus s2 = bus ?s1 @ replicate n (Rd tx_status)"
    have "run_state (jump entry [a, b, c, d]) s2 = (fst (run_state (jump entry [a, b, c, d]) s2), s2)"
      using inert h(1) by (simp add: inert_def prod_eq_iff)
    with rest h(1) have "s' = s2" by simp
    with h show ?thesis by auto
  next
    fix n m
    assume m: "s2 = log (replicate (Suc n) (Rd tx_status) @ replicate (Suc m) (Rd tx_status)) ?s1"
      "dev ?s1 (bus ?s1 @ replicate n (Rd tx_status)) tx_status AND 0x80 \<noteq> 0"
      "dev ?s1 (bus ?s1 @ replicate (Suc n + m) (Rd tx_status)) tx_status AND 0x8 = 0"
    have s2: "s2 = s\<lparr>bus := (bus s @ [?p]) @ replicate (Suc n + Suc m) (Rd tx_status)\<rparr>"
      by (simp add: m(1) log_def del: replicate_Suc flip: replicate_add)
    have "s' = (let s3 = snd (run_state (jump entry [a, b, c, d]) s2)
        in if running s3 then s3\<lparr>status := Panicked ''chainload somehow returned''\<rparr> else s3)"
      using rest by (auto simp: Let_def split: prod.splits)
    then show ?thesis
      using m(2,3) unfolding s2
      by (intro disjI2 exI [of _ "bus s @ [?p]"] exI [of _ n] exI [of _ m]) (simp del: replicate_Suc)
  qed
qed

text \<open>A port that is quiet after some reads; the program it enters is a write.\<close>

definition quiet_port :: device where
  "quiet_port h a = (if length h < 4 then 0x8 else 0x80)"

lemma quiet_drains: "ends quiet_port (uart_flush_tx 0)"
proof -
  have "tx_drains tx_status (\<lambda>x. x AND 0x80 \<noteq> 0) quiet_port" "tx_drains tx_status (\<lambda>x. x AND 0x8 = 0) quiet_port"
    unfolding tx_drains_def by (intro allI exI [of _ 4], simp add: quiet_port_def)+
  then show ?thesis unfolding uart_flush_tx_def Let_def by (simp, intro ends_intros poll_drains)
qed

theorem chain_load_after_drain_witness:
  "\<exists>s'. run_state (arch_chain_load (\<lambda>e xs. wr e 1) 0xc0100000 0 0 0 0) (boot quiet_port) = ((), s') \<and>
    status s' = Panicked ''chainload somehow returned'' \<and> Wr 0xc0100000 1 \<in> set (bus s')"
proof -
  obtain s' where run: "run_state (arch_chain_load (\<lambda>e xs. wr e 1) 0xc0100000 0 0 0 0) (boot quiet_port) = ((), s')"
    using run_unit by blast
  let ?s = "log [Print ''flushing uart tx and chainloading...'' []] (boot quiet_port)"
  obtain s2 where 2: "run_state (uart_flush_tx 0) ?s = ((), s2)" using run_unit by blast
  have "running s2" using endsD(1) [OF quiet_drains _ _ 2] by simp
  then have "status s' \<noteq> Hung"
    using run 2 by (auto simp: arch_chain_load_def)
  then show ?thesis
    using chain_load_after_drain [OF _ run] run by (auto simp: inert_def Let_def split: if_splits)
qed

end
