(* ===== verification/Boot.thy ===== *)
theory Boot
  imports Stage1 Sdram Sdhost Vpu_Start
begin

unbundle bit_operations_syntax

text \<open>
  The boot path across components: the first stage's start of the memory (\<^verbatim>\<open>stage1.c\<close>) on the SDRAM
  set-up of \<^verbatim>\<open>sdram.c\<close>, its boot from the card on the driver of \<^verbatim>\<open>sdhost_impl.cpp\<close>, and its hand-over of
  a loaded program on the chain load of \<^verbatim>\<open>arch.c\<close>, in place of the fields of \<open>lk_ops\<close> that stand for
  them elsewhere.
\<close>

subsection \<open>The operations put together\<close>

definition with_sdram :: "u32 \<Rightarrow> 'r sdram_mach_ext lk_ops \<Rightarrow> 'r sdram_mach_ext lk_ops" where
  "with_sdram cpuid lk = lk\<lparr>sdram_init := Sdram.sdram_init cpuid\<rparr>"

definition with_chain_load :: "(u32 \<Rightarrow> u32 list \<Rightarrow> ('r, unit) io) \<Rightarrow> 'r lk_ops \<Rightarrow> 'r lk_ops" where
  "with_chain_load jump lk = lk\<lparr>arch_chain_load := \<lambda>e. Vpu_Start.arch_chain_load jump e 0 0 0 0\<rparr>"

definition with_sdhost ::
  "(u32 \<Rightarrow> u64 \<Rightarrow> ('r, unit) sd_io) \<Rightarrow> ('r, unit) sd_io \<Rightarrow> 'r sdhost_mach_ext lk_ops \<Rightarrow> 'r sdhost_mach_ext lk_ops" where
  "with_sdhost init_bdev register lk = lk\<lparr>rpi_sdhost_init := Sdhost.rpi_sdhost_init init_bdev register\<rparr>"

text \<open>Both programs that start the memory do the same.\<close>

lemma stage2_dram_init_autoram:
  "stage2_dram_init (with_sdram cpuid lk) = autoram_dram_init (novm_add_arena lk) cpuid"
  by (simp add: stage2_dram_init_def with_sdram_def autoram_dram_init_def UNCACHED_RAM_def MB_def Let_def)

text \<open>
  LK's heap and ELF loader, on the device \<open>d\<close>: an allocation returns a block of the size asked for
  and reads nothing from the console; the loader accepts \<open>img\<close>, and its entry point is \<open>e\<close>.
\<close>

definition allocates :: "'r lk_ops \<Rightarrow> ('r mach_scheme \<Rightarrow> u8 list) \<Rightarrow> device \<Rightarrow> bool" where
  "allocates lk rest d \<longleftrightarrow> (\<forall>s n. running s \<longrightarrow> dev s = d \<longrightarrow> (\<exists>buf s'. run_state (malloc lk n) s = (buf, s') \<and>
     running s' \<and> dev s' = d \<and> length buf = n \<and> rest s' = rest s))"

definition loads_elf :: "'r lk_ops \<Rightarrow> device \<Rightarrow> u8 list \<Rightarrow> int \<Rightarrow> u32 \<Rightarrow> bool" where
  "loads_elf lk d img n e \<longleftrightarrow> (\<forall>s. running s \<longrightarrow> dev s = d \<longrightarrow> (\<exists>elf s1 s2 s3 s4.
     run_state (elf_open_handle_memory lk img n) s = ((0, elf), s1) \<and>
     run_state (elf_load lk elf) s1 = (0, s2) \<and> run_state (elf_close_handle lk elf) s2 = ((), s3) \<and>
     run_state (elf_entry lk elf) s3 = (e, s4) \<and> running s4 \<and> dev s4 = d))"

lemma with_chain_load_fields:
  "io_read (with_chain_load jump lk) = io_read lk" "io_write (with_chain_load jump lk) = io_write lk"
  "malloc (with_chain_load jump lk) = malloc lk" "elf_load (with_chain_load jump lk) = elf_load lk"
  "elf_open_handle_memory (with_chain_load jump lk) = elf_open_handle_memory lk"
  "elf_close_handle (with_chain_load jump lk) = elf_close_handle lk"
  "elf_entry (with_chain_load jump lk) = elf_entry lk" "start_waker (with_chain_load jump lk) = start_waker lk"
  "wait_queue_block (with_chain_load jump lk) = wait_queue_block lk"
  "lk_ops.arch_chain_load (with_chain_load jump lk) = (\<lambda>e. Vpu_Start.arch_chain_load jump e 0 0 0 0)"
  by (simp_all add: with_chain_load_def)

lemma run_boot_image:
  assumes "loads_elf lk d img n e" "running s" "dev s = d"
  shows "\<exists>s'. running s' \<and> dev s' = d \<and> run_state (boot_image (with_chain_load jump lk) junk img n) s =
    run_state (Vpu_Start.arch_chain_load jump e 0 0 0 0) s'"
proof -
  from assms obtain elf s1 s2 s3 s4 where
    "run_state (elf_open_handle_memory lk img n) s = ((0, elf), s1)"
    "run_state (elf_load lk elf) s1 = (0, s2)" "run_state (elf_close_handle lk elf) s2 = ((), s3)"
    "run_state (elf_entry lk elf) s3 = (e, s4)" "running s4" "dev s4 = d"
    unfolding loads_elf_def by blast
  then show ?thesis
    by (intro exI [of _ s4]) (simp add: boot_image_def load_and_run_elf_def with_chain_load_fields)
qed

subsection \<open>The card\<close>

text \<open>
  What LK offers for the boot from the card.  Registering the block device touches neither the driver's
  object nor the hardware.  On a machine where the card is ready and its device registered, the
  partition, the file system, the file and the ELF loader are found in order, and the program's entry
  point is \<open>e\<close>.  Nothing happens on a machine that has stopped.
\<close>

definition registers :: "(u32 \<Rightarrow> u64 \<Rightarrow> ('r, unit) sd_io) \<Rightarrow> ('r, unit) sd_io \<Rightarrow> bool" where
  "registers init_bdev register \<longleftrightarrow> inert register \<and> (\<forall>b n. inert (init_bdev b n)) \<and>
     (\<forall>D. keeps (\<lambda>s. (card_data s, dev s) = D) register \<and>
       (\<forall>b n. keeps (\<lambda>s. (card_data s, dev s) = D) (init_bdev b n)))"

definition serves_program :: "'r sdhost_mach_ext lk_ops \<Rightarrow> device \<Rightarrow> u32 \<Rightarrow> bool" where
  "serves_program lk d e \<longleftrightarrow> (\<forall>s. running s \<longrightarrow> dev s = d \<longrightarrow> card_ready s \<longrightarrow> sized s \<longrightarrow> sdhost s \<longrightarrow>
     (\<exists>f elf s1 s2 s3 s4 s5 s6 s7 s8.
       run_state (partition_publish lk ''sdhost'' 0) s = ((), s1) \<and>
       run_state (fs_mount lk ''/root'' ''ext2'' ''sdhostp1'') s1 = (0, s2) \<and>
       run_state (fs_open_file lk ''/root/lk.elf'') s2 = ((0, f), s3) \<and>
       run_state (elf_open_handle lk f) s3 = ((0, elf), s4) \<and> run_state (elf_load lk elf) s4 = (0, s5) \<and>
       run_state (elf_close_handle lk elf) s5 = ((), s6) \<and> run_state (elf_entry lk elf) s6 = (e, s7) \<and>
       run_state (fs_close_file lk f) s7 = ((), s8) \<and> running s8 \<and> dev s8 = d))"

definition stops :: "'r lk_ops \<Rightarrow> (u32 \<Rightarrow> u32 list \<Rightarrow> ('r, unit) io) \<Rightarrow> bool" where
  "stops lk jump \<longleftrightarrow> (\<forall>a b c n. inert (partition_publish lk a n) \<and> inert (fs_mount lk a b c) \<and> inert (fs_open_file lk a) \<and>
     inert (elf_open_handle lk n) \<and> inert (elf_load lk n) \<and> inert (elf_close_handle lk n) \<and> inert (elf_entry lk n) \<and>
     inert (fs_close_file lk n) \<and> inert (jump n [0, 0, 0, 0]))"

text \<open>The part of \<^verbatim>\<open>load_stage2\<close> after the card's initialisation.\<close>

definition load_file :: "'r lk_ops \<Rightarrow> u32 \<Rightarrow> ('r, unit) io" where
  "load_file lk junk = do {
     partition_publish lk ''sdhost'' 0;
     ret \<leftarrow> fs_mount lk ''/root'' ''ext2'' ''sdhostp1'';
     if ret \<noteq> 0 then printf ''mount failure: %d'' [I ret]
     else do {
       (ret, stage2) \<leftarrow> fs_open_file lk ''/root/lk.elf'';
       if ret \<noteq> 0 then printf ''open failed: %d'' [I ret]
       else do {
         (ret, elf) \<leftarrow> elf_open_handle lk stage2;
         if ret \<noteq> 0 then printf ''failed to elf open: %d'' [I ret]
         else do {
           entry \<leftarrow> load_and_run_elf lk junk elf;
           fs_close_file lk stage2;
           lk_ops.arch_chain_load lk entry
         }
       }
     }
   }"

lemma load_stage2_parts: "load_stage2 lk junk = do { lk_ops.rpi_sdhost_init lk; load_file lk junk }"
  by (simp add: load_file_def load_stage2_def)

lemma with_chain_load_files:
  "partition_publish (with_chain_load jump lk) = partition_publish lk" "fs_mount (with_chain_load jump lk) = fs_mount lk"
  "fs_open_file (with_chain_load jump lk) = fs_open_file lk" "fs_close_file (with_chain_load jump lk) = fs_close_file lk"
  "elf_open_handle (with_chain_load jump lk) = elf_open_handle lk"
  "lk_ops.rpi_sdhost_init (with_chain_load jump lk) = lk_ops.rpi_sdhost_init lk"
  by (simp_all add: with_chain_load_def)

lemma load_file_inert:
  assumes "stops lk jump"
  shows "inert (load_file (with_chain_load jump lk) junk)"
  unfolding load_file_def load_and_run_elf_def with_chain_load_fields with_chain_load_files Vpu_Start.arch_chain_load_def
    uart_flush_tx_def Let_def split_beta
  by (intro inert_intros) (use assms in \<open>simp_all add: stops_def\<close>)

lemma run_load_file:
  fixes lk :: "'r sdhost_mach_ext lk_ops"
  assumes "serves_program lk d e" "running s" "dev s = d" "card_ready s" "sized s" "sdhost s"
  shows "\<exists>s'. running s' \<and> dev s' = d \<and> run_state (load_file (with_chain_load jump lk) junk) s =
    run_state (Vpu_Start.arch_chain_load jump e 0 0 0 0) s'"
proof -
  obtain f elf s1 s2 s3 s4 s5 s6 s7 s8 where
    "run_state (partition_publish lk ''sdhost'' 0) s = ((), s1)"
    "run_state (fs_mount lk ''/root'' ''ext2'' ''sdhostp1'') s1 = (0, s2)"
    "run_state (fs_open_file lk ''/root/lk.elf'') s2 = ((0, f), s3)"
    "run_state (elf_open_handle lk f) s3 = ((0, elf), s4)" "run_state (elf_load lk elf) s4 = (0, s5)"
    "run_state (elf_close_handle lk elf) s5 = ((), s6)" "run_state (elf_entry lk elf) s6 = (e, s7)"
    "run_state (fs_close_file lk f) s7 = ((), s8)" "running s8" "dev s8 = d"
    using assms(1) [unfolded serves_program_def, rule_format, OF assms(2-6)]
    by - (elim exE conjE, rule that)
  then show ?thesis
    by (intro exI [of _ s8])
      (simp add: load_file_def load_and_run_elf_def with_chain_load_fields with_chain_load_files)
qed

text \<open>The driver's initialisation, when it returns, leaves what the file system needs.\<close>

lemma sd_init_serves:
  fixes s :: "'r sdhost_mach_scheme"
  assumes "registers init_bdev register" "running s" "\<not> sdhost s"
    and "run_state (Sdhost.rpi_sdhost_init init_bdev register) s = ((), s')" "running s'"
  shows "dev s' = dev s \<and> card_ready s' \<and> sized s' \<and> sdhost s'"
proof -
  let ?m = "\<lambda>n. do { printf ''b'' []; init_bdev 512 n; printf ''c'' []; printf ''d'' []; register; printf ''e'' [] }"
  have i: "inert (init_bdev b n)" "inert register" for b n using assms(1) by (simp_all add: registers_def)
  obtain t where t: "running t" "dev t = dev s" "card_ready t" "sized t" "sdhost t"
    "run_state (?m (capacity_bytes t div 512)) t = ((), s')"
    using sd_init_ready [where init_bdev = init_bdev and register = register, OF assms(2-5) i] by blast
  let ?P = "\<lambda>u :: 'r sdhost_mach_scheme. (card_data u, dev u) = (card_data t, dev t)"
  have "steady ?P" by (simp add: steady_def card_data_def log_def)
  then have "keeps ?P (?m n)" for n
    using assms(1) unfolding registers_def by (intro keep_intros) blast+
  from keepsD [OF this _ t(6)] have "card_data s' = card_data t" "dev s' = dev t" by simp_all
  with t show ?thesis by (auto simp: card_data_def sized_def)
qed

subsection \<open>The memory\<close>

text \<open>The size in megabytes.\<close>

fun megabytes :: "RamSize \<Rightarrow> nat" where
  "megabytes kRamSize128MB = 128"
| "megabytes kRamSize256MB = 256"
| "megabytes kRamSize512MB = 512"
| "megabytes kRamSize1GB = 1024"
| "megabytes kRamSize2GB = 2048"
| "megabytes kRamSize4GB = 4096"
| "megabytes kRamSizeUnknown = 0"

text \<open>C13.  
  Memory is given to the allocator only after it was set up and tested.  The first stage hands
  the ten megabytes from one megabyte on to LK only when the SDRAM set-up has returned; then the
  size is known and contains them, the timings are the default ones with the geometry of that size,
  the last word written to each of the controller's eight timing registers is the one of these
  timings, and no word the self test visits is faulty.  When the set-up panics or hangs, the allocator gets nothing.
\<close>

theorem dram_arena_tested:
  fixes s :: "'r sdram_mach_scheme"
  assumes "running s" and "inert (novm_add_arena lk ''dram'' 0xc0100000 0xa00000)"
    and run: "run_state (stage2_dram_init (with_sdram cpuid lk)) s = ((), s')"
  shows "(\<not> running s' \<and> run_state (Sdram.sdram_init cpuid) s = ((), s')) \<or>
    (\<exists>t. run_state (Sdram.sdram_init cpuid) s = ((), t) \<and> running t \<and>
      run_state (novm_add_arena lk ''dram'' 0xc0100000 0xa00000) t = ((), s') \<and>
      g_RAMSize t \<noteq> kRamSizeUnknown \<and>
      0xc0100000 + 0xa00000 \<le> 0xc0000000 + megabytes (g_RAMSize t) * 1024 * 1024 \<and>
      sdram_params t = sdram_geometry (g_RAMSize t) (sdram_params s) \<and>
      (\<forall>(a, v)\<in>set (timing_words (sdram_geometry (g_RAMSize t) (sdram_params s))).
        last_write a (bus t) = Some v) \<and>
      (\<forall>a\<in>set (tested (g_RAMSize t)). \<not> faulty (dev s) a))"
proof -
  obtain t where t: "run_state (Sdram.sdram_init cpuid) s = ((), t)" using run_unit by blast
  have add: "run_state (novm_add_arena lk ''dram'' 0xc0100000 0xa00000) t = ((), s')"
    using run t by (simp add: stage2_dram_init_autoram autoram_dram_init_def Let_def)
  show ?thesis
  proof (cases "running t")
    case False
    with add assms(2) have "s' = t" by (metis inertD snd_conv)
    with t False show ?thesis by simp
  next
    case True
    note g = sdram_init_guarantee [OF assms(1) t True]
    then have "128 \<le> megabytes (g_RAMSize t)" by (cases "g_RAMSize t") simp_all
    with g t True add show ?thesis by (intro disjI2 exI [of _ t]) (simp add: split_beta)
  qed
qed

definition silent_lk :: "'r lk_ops" where
  "silent_lk = \<lparr>io_read = (\<lambda>n. return (0, [])), io_write = (\<lambda>_. return ()), malloc = (\<lambda>n. return []),
     elf_open_handle_memory = (\<lambda>_ _. return (0, 0)), elf_open_handle = (\<lambda>_. return (0, 0)),
     elf_load = (\<lambda>_. return 0), elf_close_handle = (\<lambda>_. return ()), elf_entry = (\<lambda>_. return 0x8000),
     fs_mount = (\<lambda>_ _ _. return 0), fs_open_file = (\<lambda>_. return (0, 0)), fs_close_file = (\<lambda>_. return ()),
     rpi_sdhost_init = return (), partition_publish = (\<lambda>_ _. return ()),
     arch_chain_load = (\<lambda>e. return ()), sdram_init = return (),
     novm_add_arena = (\<lambda>n a l. printf n [U a, U l]),
     wait_queue_wake_all = (\<lambda>_. return ()), wait_queue_block = (\<lambda>_. return 0), start_waker = return ()\<rparr>"

theorem dram_arena_tested_witness:
  "\<exists>(s :: sdram_mach) s'. run_state (stage2_dram_init (with_sdram 0 silent_lk)) s = ((), s') \<and> running s' \<and>
    Print ''dram'' [U 0xc0100000, U 0xa00000] \<in> set (bus s') \<and>
    (\<exists>z. z \<noteq> kRamSizeUnknown \<and> (\<forall>a\<in>set (tested z). \<not> faulty sdram_dev a) \<and>
      last_write SD_SB (bus s') = Some (sb_word (sdram_geometry z g_InitSdramParameters)))"
proof -
  define s :: sdram_mach where
    "s = mach.extend (boot sdram_dev) \<lparr>g_RAMSize = kRamSizeUnknown, sdram_params = g_InitSdramParameters\<rparr>"
  have s: "dev s = sdram_dev" "running s" by (simp_all add: s_def mach.defs boot_def)
  obtain t where t: "run_state (Sdram.sdram_init 0) s = ((), t)" using run_unit by blast
  have r: "running t" by (rule sdram_dev_init [OF s t])
  obtain s' where run: "run_state (stage2_dram_init (with_sdram 0 silent_lk)) s = ((), s')" using run_unit by blast
  have i: "inert (novm_add_arena silent_lk ''dram'' 0xc0100000 0xa00000)"
    by (simp add: silent_lk_def inert_def)
  have "s' = log [Print ''dram'' [U 0xc0100000, U 0xa00000]] t"
    using run t r by (simp add: stage2_dram_init_autoram autoram_dram_init_def silent_lk_def Let_def)
  then have "running s'" "Print ''dram'' [U 0xc0100000, U 0xa00000] \<in> set (bus s')" using r by simp_all
  moreover have "last_write SD_SB (bus s') = last_write SD_SB (bus t)"
    using \<open>s' = log _ t\<close> by (simp add: log_def)
  moreover have "\<forall>z. (SD_SB, sb_word (sdram_geometry z g_InitSdramParameters)) \<in>
      set (timing_words (sdram_geometry z g_InitSdramParameters))" "sdram_params s = g_InitSdramParameters"
    by (simp_all add: timing_words_def s_def mach.defs)
  ultimately show ?thesis using dram_arena_tested [OF s(2) i run] run s(1) t r by fastforce
qed

subsection \<open>From the serial line to the next stage\<close>

text \<open>C2.  
  The boot over the serial line, from the prompt to the entry of the next stage.  When an \<open>X\<close> is
  seen in time, the sender transmits at most 16384 blocks in order, with damaged and repeated
  packets anywhere between them, the ELF loader accepts the image that starts with exactly these
  blocks, and the serial port drains sometime, then the first stage enters the program at the
  image's entry point with four zeros as its arguments, after it saw the transmitter drained.
\<close>

theorem serial_boot:
  fixes lk :: "'r lk_ops" and s :: "'r mach_scheme"
  assumes s: "running s"
    and line: "serial_line lk rest sent"
    and io: "\<And>n. keeps (\<lambda>s. dev s = d) (io_read lk n)" "\<And>bs. keeps (\<lambda>s. dev s = d) (io_write lk bs)"
    and prompt: "run_state (do { start_waker lk; wait_queue_block lk 10000 })
        (log [Print ''stage2 entry'' [], Print ''press X to stop autoboot and go into xmodem mode...'' []] s) =
          (of_char CHR ''X'', s0)" "running s0" "dev s0 = d"
    and sender: "transmits 1 bs ps" "length bs \<le> 16384" "rest s0 = concat (map encode ps) @ 4 # xs"
    and heap: "allocates lk rest d"
    and elf: "\<And>buf. length buf = 0x200000 \<Longrightarrow>
        loads_elf lk d (concat bs @ drop (128 * length bs) buf) ((int (length bs) + 1) * 128) e"
    and port: "ends d (uart_flush_tx 0 :: ('r, unit) io)"
    and run: "run_state (stage2_entry (with_chain_load jump lk) junk) s = ((), s')"
  shows "\<exists>t. running t \<and> drained t \<and> dev t = d \<and> s' = entered (jump e [0, 0, 0, 0]) t"
proof -
  let ?lk = "with_chain_load jump lk" and ?D = "\<lambda>s :: 'r mach_scheme. dev s = d"
  define es where "es = [Print ''wait result: %d'' [I (of_char CHR ''X'')], Print ''going into xmodem mode'' [],
    Rd PM_RSTS, Print ''%x'' [U (dev s0 (bus s0 @ [Print ''wait result: %d'' [I (of_char CHR ''X'')],
      Print ''going into xmodem mode'' []]) PM_RSTS)]]"
  let ?s = "log es s0"
  have 1: "run_state (xmodem_receive ?lk junk) ?s = ((), s')"
    using run s prompt(1,2)
    by (simp add: stage2_entry_def with_chain_load_fields es_def cur_def split: prod.splits)
  have d: "running ?s" "dev ?s = d" "rest ?s = concat (map encode ps) @ 4 # xs"
    using prompt(2,3) sender(3) by (simp_all add: line_log [OF line])
  from heap d(1,2) obtain buf s1 where m: "run_state (malloc ?lk 0x200000) ?s = (buf, s1)"
    "running s1" "dev s1 = d" "length buf = 0x200000" "rest s1 = rest ?s"
    unfolding allocates_def with_chain_load_fields by blast
  have line': "serial_line ?lk rest sent" using line by (simp add: serial_line_def with_chain_load_fields)
  have st: "steady ?D" by (simp add: steady_def)
  have io': "keeps ?D (io_read ?lk n)" "keeps ?D (io_write ?lk bs)" for n bs
    using io by (simp_all add: with_chain_load_fields)
  let ?image = "concat bs @ drop (128 * length bs) buf"
  obtain s2 where 2: "run_state (xmodem_receive ?lk junk) ?s =
      run_state (boot_image ?lk junk ?image ((int (length bs) + 1) * 128)) s2" "running s2" "dev s2 = d"
    using run_xmodem_receive [OF d(1) line' m(1,2,4) sender(1,2) _ st io', of xs junk] m(3,5) d(3) by auto
  obtain s3 where 3: "running s3" "dev s3 = d"
    "run_state (boot_image ?lk junk ?image ((int (length bs) + 1) * 128)) s2 =
      run_state (Vpu_Start.arch_chain_load jump e 0 0 0 0) s3"
    using run_boot_image [OF elf [OF m(4)] 2(2,3)] by blast
  from run_chain_load_drained [OF 3(1,2) port, of jump e 0 0 0 0] 1 2(1) 3(3) show ?thesis by auto
qed

text \<open>Two blocks, and a program that writes one word.\<close>

theorem serial_boot_witness:
  "\<exists>s'. run_state (stage2_entry (with_chain_load (\<lambda>e xs. wr e 1) demo_lk) 0)
      (line_boot (concat (map encode [demo_packet 1, demo_packet 2]) @ [4])\<lparr>dev := quiet_port\<rparr>) = ((), s') \<and>
    Wr 0x80000000 1 \<in> set (bus s') \<and> status s' = Panicked ''chainload somehow returned''"
proof -
  let ?s = "line_boot (concat (map encode [demo_packet 1, demo_packet 2]) @ [4])\<lparr>dev := quiet_port\<rparr>"
    and ?z = "replicate 128 0 :: u8 list"
  let ?u = "log [Print ''stage2 entry'' [], Print ''press X to stop autoboot and go into xmodem mode...'' []] ?s"
  obtain s' where run: "run_state (stage2_entry (with_chain_load (\<lambda>e xs. wr e 1) demo_lk) 0) ?s = ((), s')"
    using run_unit by blast
  have s: "running ?s" by (simp add: line_boot_def mach.defs boot_def)
  have io: "keeps (\<lambda>s. dev s = quiet_port) (io_read demo_lk n)" "keeps (\<lambda>s. dev s = quiet_port) (io_write demo_lk bs)"
    for n bs by (simp_all add: keeps_def demo_lk_def Let_def)
  have prompt: "run_state (do { start_waker demo_lk; wait_queue_block demo_lk 10000 }) ?u = (of_char CHR ''X'', ?u)"
    "running ?u" "dev ?u = quiet_port"
    using s by (simp_all add: demo_lk_def)
  have t: "transmits 1 [?z, ?z] [demo_packet 1, demo_packet 2]"
    using demo_transmits [of 1 2] by (simp add: upto_rec1 numeral_2_eq_2)
  have r: "line_in ?u = concat (map encode [demo_packet 1, demo_packet 2]) @ 4 # []"
    by (simp add: line_boot_def mach.defs log_def)
  have heap: "allocates demo_lk line_in quiet_port" by (simp add: allocates_def demo_lk_def)
  have elf: "loads_elf demo_lk quiet_port img n 0x80000000" for img n by (simp add: loads_elf_def demo_lk_def)
  obtain t where "running t" "s' = entered (wr 0x80000000 1) t"
    using serial_boot [OF s demo_line io prompt t _ r heap elf quiet_drains run] by auto
  then have "Wr 0x80000000 1 \<in> set (bus s')" "status s' = Panicked ''chainload somehow returned''"
    by (simp_all add: entered_def)
  with run show ?thesis by blast
qed

subsection \<open>From the card to the next stage\<close>

lemma with_sdhost_ops:
  "serves_program (with_sdhost b r lk) d e = serves_program lk d e" "stops (with_sdhost b r lk) jump = stops lk jump"
  "lk_ops.rpi_sdhost_init (with_sdhost b r lk) = Sdhost.rpi_sdhost_init b r"
  "start_waker (with_sdhost b r lk) = start_waker lk" "wait_queue_block (with_sdhost b r lk) = wait_queue_block lk"
  by (simp_all add: with_sdhost_def serves_program_def stops_def)

text \<open>C3.  
  The boot from the SD card, from the prompt to the entry of the next stage.  When no \<open>X\<close> is seen, the
  card is set up.  If that stops the machine (no card answers, or the clock stands still), nothing of
  the file system is touched and nothing is entered.  If it returns, the card is ready, identified with
  a known version, and its blocks have 512 bytes; when on such a machine LK's file system and ELF
  loader find the program and the serial port drains sometime, the first stage enters the program at
  its entry point with four zeros as its arguments, after it saw the transmitter drained.
\<close>

theorem card_boot:
  fixes lk :: "'r sdhost_mach_ext lk_ops" and s :: "'r sdhost_mach_scheme"
  assumes s: "running s"
    and prompt: "run_state (do { start_waker lk; wait_queue_block lk 10000 })
        (log [Print ''stage2 entry'' [], Print ''press X to stop autoboot and go into xmodem mode...'' []] s) = (c, s0)"
      "c \<noteq> of_char CHR ''X''" "running s0" "dev s0 = d" "\<not> sdhost s0"
    and lk: "registers init_bdev register" "stops lk jump" "serves_program lk d e"
    and port: "ends d (uart_flush_tx 0 :: ('r sdhost_mach_ext, unit) io)"
    and run: "run_state (stage2_entry (with_chain_load jump (with_sdhost init_bdev register lk)) junk) s = ((), s')"
  shows "\<exists>t. run_state (Sdhost.rpi_sdhost_init init_bdev register) (log [Print ''wait result: %d'' [I c]] s0) = ((), t) \<and>
    (if running t then card_ready t \<and> sized t \<and>
       (\<exists>u. running u \<and> drained u \<and> dev u = d \<and> s' = entered (jump e [0, 0, 0, 0]) u)
     else s' = t)"
proof -
  let ?lk = "with_sdhost init_bdev register lk" and ?s = "log [Print ''wait result: %d'' [I c]] s0"
  obtain t where t: "run_state (Sdhost.rpi_sdhost_init init_bdev register) ?s = ((), t)" using run_unit by blast
  have 1: "run_state (load_file (with_chain_load jump ?lk) junk) t = ((), s')"
    using run s prompt(1-3) t
    by (simp add: stage2_entry_def with_chain_load_fields with_chain_load_files with_sdhost_ops load_stage2_parts
        split: prod.splits)
  show ?thesis
  proof (cases "running t")
    case False
    have "inert (load_file (with_chain_load jump ?lk) junk)"
      using lk(2) by (intro load_file_inert) (simp add: with_sdhost_ops)
    with 1 False have "s' = t" by (metis inertD snd_conv)
    with t False show ?thesis by auto
  next
    case True
    have ready: "dev t = d" "card_ready t" "sized t" "sdhost t"
      using sd_init_serves [OF lk(1) _ _ t True] prompt(3-5) by (simp_all add: log_def)
    obtain u where u: "running u" "dev u = d" "run_state (load_file (with_chain_load jump ?lk) junk) t =
        run_state (Vpu_Start.arch_chain_load jump e 0 0 0 0) u"
      using run_load_file [of ?lk d e, OF _ True ready] lk(3) by (auto simp: with_sdhost_ops)
    from run_chain_load_drained [OF u(1,2) port, of jump e 0 0 0 0] 1 u(3) t True ready show ?thesis by auto
  qed
qed

text \<open>A card of version 2 and a program that writes one word; nobody types.\<close>

definition card_lk :: "'r sdhost_mach_ext lk_ops" where
  "card_lk = silent_lk\<lparr>wait_queue_block := (\<lambda>_. return (- 13))\<rparr>"

theorem card_boot_witness:
  "\<exists>s'. run_state (stage2_entry (with_chain_load (\<lambda>e xs. wr e 1)
      (with_sdhost (\<lambda>b n. printf ''bdev'' [U b, U (ucast n)]) (return ()) card_lk)) 0) (sd_boot good_card \<lparr>sdhost := False\<rparr>) = ((), s') \<and>
    Wr 0x8000 1 \<in> set (bus s')"
proof -
  let ?b = "\<lambda>b n. printf ''bdev'' [U b, U (ucast n)] :: (unit, unit) sd_io"
    and ?s = "sd_boot good_card \<lparr>sdhost := False\<rparr>" and ?j = "\<lambda>e xs. wr e 1 :: (unit, unit) sd_io"
  let ?m = "stage2_entry (with_chain_load ?j (with_sdhost ?b (return ()) card_lk)) 0"
  define s0 where "s0 = log [Print ''stage2 entry'' [],
      Print ''press X to stop autoboot and go into xmodem mode...'' []] ?s"
  have s0: "running s0" "dev s0 = good_card" "\<not> sdhost s0" by (simp_all add: s0_def log_def)
  obtain s' where run: "run_state ?m ?s = ((), s')" using run_unit by blast
  have prompt: "run_state (do { start_waker card_lk; wait_queue_block card_lk 10000 })
      (log [Print ''stage2 entry'' [], Print ''press X to stop autoboot and go into xmodem mode...'' []] ?s) = (- 13, s0)"
    by (simp add: card_lk_def silent_lk_def s0_def)
  have lk: "registers ?b (return ())" "stops card_lk ?j" "serves_program card_lk good_card 0x8000"
    unfolding registers_def stops_def serves_program_def card_lk_def silent_lk_def
    by (auto intro!: keep_intros inert_intros simp: steady_def card_data_def log_def)
  have port: "ends good_card (uart_flush_tx 0)"
    unfolding uart_flush_tx_def Let_def uart_to_ptr.simps
    by (intro ends_intros poll_drains) (simp_all add: tx_drains_def good_card_def reg_defs)
  have st: "\<exists>t. run_state (Sdhost.rpi_sdhost_init ?b (return ())) (log [Print ''wait result: %d'' [I (- 13)]] s0) = ((), t) \<and>
    (if running t then card_ready t \<and> sized t \<and>
       (\<exists>u. running u \<and> drained u \<and> dev u = good_card \<and> s' = entered (wr 0x8000 1) u) else s' = t)"
    by (rule card_boot [OF _ prompt _ s0 lk port run]) simp_all
  let ?u = "log [Print ''wait result: %d'' [I (- 13)]] s0"
  obtain s1 where 1: "run_state restart_controller ?u = ((), s1)" "dev s1 = good_card" "running s1"
    by (rule doesE [OF good_restart, of ?u]) (use s0(1,2) in simp_all)
  have "running (snd (run_state (Sdhost.rpi_sdhost_init ?b (return ())) ?u))"
    using s0(3) 1
    by (simp add: Sdhost.rpi_sdhost_init_def BCM2708SDHost_def emmc_logf_def print_timestamp_def get_block_size_def Let_def log_def)
  with st obtain u where "running u" "s' = entered (wr 0x8000 1) u" by auto
  then have "Wr 0x8000 1 \<in> set (bus s')" by (simp add: entered_def)
  with run show ?thesis by blast
qed

end
