(* ===== verification/Sd_Fields.thy ===== *)
theory Sd_Fields
  imports Sd_Proto
begin

text \<open>
  The rest of the SD card protocol header (\<^verbatim>\<open>sdhost/sd_proto.hpp\<close>): the commands, status bits and
  register fields the driver does not use, under the names and in the order of the header.
\<close>

text \<open>MMC commands.\<close>

definition MMC_SEND_OP_COND :: u32 where [reg_defs]: "MMC_SEND_OP_COND = 1"
definition MMC_SWITCH :: u32 where [reg_defs]: "MMC_SWITCH = 6"
definition MMC_SEND_EXT_CSD :: u32 where [reg_defs]: "MMC_SEND_EXT_CSD = 8"
definition MMC_SEND_STATUS :: u32 where [reg_defs]: "MMC_SEND_STATUS = 13"
definition MMC_INACTIVE_STATE :: u32 where [reg_defs]: "MMC_INACTIVE_STATE = 15"
definition MMC_READ_BLOCK_SINGLE :: u32 where [reg_defs]: "MMC_READ_BLOCK_SINGLE = 17"
definition MMC_SEND_TUNING_BLOCK :: u32 where [reg_defs]: "MMC_SEND_TUNING_BLOCK = 19"
definition MMC_SEND_TUNING_BLOCK_HS200 :: u32 where [reg_defs]: "MMC_SEND_TUNING_BLOCK_HS200 = 21"
definition MMC_SET_BLOCK_COUNT :: u32 where [reg_defs]: "MMC_SET_BLOCK_COUNT = 23"
definition MMC_WRITE_BLOCK_SINGLE :: u32 where [reg_defs]: "MMC_WRITE_BLOCK_SINGLE = 24"
definition MMC_WRITE_BLOCK_MULTIPLE :: u32 where [reg_defs]: "MMC_WRITE_BLOCK_MULTIPLE = 25"
definition MMC_PROGRAM_CSD :: u32 where [reg_defs]: "MMC_PROGRAM_CSD = 27"
definition MMC_SET_WRITE_PROT :: u32 where [reg_defs]: "MMC_SET_WRITE_PROT = 28"
definition MMC_SET_CLR_WRITE_PROT :: u32 where [reg_defs]: "MMC_SET_CLR_WRITE_PROT = 29"
definition MMC_SET_SEND_WRITE_PROT :: u32 where [reg_defs]: "MMC_SET_SEND_WRITE_PROT = 30"
definition MMC_TAG_SECTOR_START :: u32 where [reg_defs]: "MMC_TAG_SECTOR_START = 32"
definition MMC_TAG_SECTOR_END :: u32 where [reg_defs]: "MMC_TAG_SECTOR_END = 33"
definition MMC_UNTAG_SECTOR :: u32 where [reg_defs]: "MMC_UNTAG_SECTOR = 34"
definition MMC_TAG_ERASE_GROUP_START :: u32 where [reg_defs]: "MMC_TAG_ERASE_GROUP_START = 35"
definition MMC_TAG_ERASE_GROUP_END :: u32 where [reg_defs]: "MMC_TAG_ERASE_GROUP_END = 36"
definition MMC_UNTAG_ERASE_GROUP :: u32 where [reg_defs]: "MMC_UNTAG_ERASE_GROUP = 37"
definition MMC_ERASE :: u32 where [reg_defs]: "MMC_ERASE = 38"
definition MMC_LOCK_UNLOCK :: u32 where [reg_defs]: "MMC_LOCK_UNLOCK = 42"
definition MMC_READ_OCR :: u32 where [reg_defs]: "MMC_READ_OCR = 58"

text \<open>SD commands.\<close>

definition SD_SEND_RELATIVE_ADDR :: u32 where [reg_defs]: "SD_SEND_RELATIVE_ADDR = 3"
definition SD_SEND_SWITCH_FUNC :: u32 where [reg_defs]: "SD_SEND_SWITCH_FUNC = 6"
definition SD_VOLTAGE_SWITCH :: u32 where [reg_defs]: "SD_VOLTAGE_SWITCH = 11"

text \<open>SD application commands.\<close>

definition SD_APP_SET_BUS_WIDTH :: u32 where [reg_defs]: "SD_APP_SET_BUS_WIDTH = 6"
definition SD_APP_SD_STATUS :: u32 where [reg_defs]: "SD_APP_SD_STATUS = 13"
definition SD_APP_SEND_SCR :: u32 where [reg_defs]: "SD_APP_SEND_SCR = 51"

text \<open>OCR bits.\<close>

definition MMC_OCR_ACCESS_MODE_MASK :: u32 where [reg_defs]: "MMC_OCR_ACCESS_MODE_MASK = push_bit 29 3"
definition MMC_OCR_ACCESS_MODE_BYTE :: u32 where [reg_defs]: "MMC_OCR_ACCESS_MODE_BYTE = push_bit 29 0"
definition MMC_OCR_ACCESS_MODE_SECTOR :: u32 where [reg_defs]: "MMC_OCR_ACCESS_MODE_SECTOR = push_bit 29 2"
definition MMC_OCR_S18A :: u32 where [reg_defs]: "MMC_OCR_S18A = BV 24"
definition MMC_OCR_3_5V_3_6V :: u32 where [reg_defs]: "MMC_OCR_3_5V_3_6V = BV 23"
definition MMC_OCR_3_4V_3_5V :: u32 where [reg_defs]: "MMC_OCR_3_4V_3_5V = BV 22"
definition MMC_OCR_3_2V_3_3V :: u32 where [reg_defs]: "MMC_OCR_3_2V_3_3V = BV 20"
definition MMC_OCR_3_1V_3_2V :: u32 where [reg_defs]: "MMC_OCR_3_1V_3_2V = BV 19"
definition MMC_OCR_3_0V_3_1V :: u32 where [reg_defs]: "MMC_OCR_3_0V_3_1V = BV 18"
definition MMC_OCR_2_9V_3_0V :: u32 where [reg_defs]: "MMC_OCR_2_9V_3_0V = BV 17"
definition MMC_OCR_2_8V_2_9V :: u32 where [reg_defs]: "MMC_OCR_2_8V_2_9V = BV 16"
definition MMC_OCR_2_7V_2_8V :: u32 where [reg_defs]: "MMC_OCR_2_7V_2_8V = BV 15"
definition MMC_OCR_2_6V_2_7V :: u32 where [reg_defs]: "MMC_OCR_2_6V_2_7V = BV 14"
definition MMC_OCR_2_5V_2_6V :: u32 where [reg_defs]: "MMC_OCR_2_5V_2_6V = BV 13"
definition MMC_OCR_2_4V_2_5V :: u32 where [reg_defs]: "MMC_OCR_2_4V_2_5V = BV 12"
definition MMC_OCR_2_3V_2_4V :: u32 where [reg_defs]: "MMC_OCR_2_3V_2_4V = BV 11"
definition MMC_OCR_2_2V_2_3V :: u32 where [reg_defs]: "MMC_OCR_2_2V_2_3V = BV 10"
definition MMC_OCR_2_1V_2_2V :: u32 where [reg_defs]: "MMC_OCR_2_1V_2_2V = BV 9"
definition MMC_OCR_2_0V_2_1V :: u32 where [reg_defs]: "MMC_OCR_2_0V_2_1V = BV 8"
definition MMC_OCR_1_9V_2_0V :: u32 where [reg_defs]: "MMC_OCR_1_9V_2_0V = BV 7"
definition MMC_OCR_1_8V_1_9V :: u32 where [reg_defs]: "MMC_OCR_1_8V_1_9V = BV 6"
definition MMC_OCR_1_7V_1_8V :: u32 where [reg_defs]: "MMC_OCR_1_7V_1_8V = BV 5"
definition MMC_OCR_1_6V_1_7V :: u32 where [reg_defs]: "MMC_OCR_1_6V_1_7V = BV 4"

text \<open>R1 response type bits.\<close>

definition MMC_R1_READY_FOR_DATA :: u32 where [reg_defs]: "MMC_R1_READY_FOR_DATA = BV 8"
definition MMC_R1_SWITCH_ERROR :: u32 where [reg_defs]: "MMC_R1_SWITCH_ERROR = BV 7"
definition MMC_R1_APP_CMD :: u32 where [reg_defs]: "MMC_R1_APP_CMD = BV 5"

text \<open>48-bit response decoding (32 bits w/o CRC).\<close>

definition MMC_R1 :: "u32 list \<Rightarrow> u32" where "MMC_R1 resp = resp ! 0"
definition MMC_R3 :: "u32 list \<Rightarrow> u32" where "MMC_R3 resp = resp ! 0"
definition MMC_R7 :: "u32 list \<Rightarrow> u32" where "MMC_R7 resp = resp ! 0"
definition MMC_SPI_R1 :: "u32 list \<Rightarrow> u32" where "MMC_SPI_R1 resp = resp ! 0"
definition MMC_SPI_R7 :: "u32 list \<Rightarrow> u32" where "MMC_SPI_R7 resp = resp ! 1"

text \<open>bus width argument.\<close>

definition SD_ARG_BUS_WIDTH_1 :: u32 where [reg_defs]: "SD_ARG_BUS_WIDTH_1 = 0"
definition SD_ARG_BUS_WIDTH_4 :: u32 where [reg_defs]: "SD_ARG_BUS_WIDTH_4 = 2"

text \<open>EXT_CSD fields.\<close>

definition EXT_CSD_BUS_WIDTH :: u32 where [reg_defs]: "EXT_CSD_BUS_WIDTH = 183"
definition EXT_CSD_HS_TIMING :: u32 where [reg_defs]: "EXT_CSD_HS_TIMING = 185"
definition EXT_CSD_REV :: u32 where [reg_defs]: "EXT_CSD_REV = 192"
definition EXT_CSD_STRUCTURE :: u32 where [reg_defs]: "EXT_CSD_STRUCTURE = 194"
definition EXT_CSD_CARD_TYPE :: u32 where [reg_defs]: "EXT_CSD_CARD_TYPE = 196"
definition EXT_CSD_SEC_COUNT :: u32 where [reg_defs]: "EXT_CSD_SEC_COUNT = 212"

text \<open>EXT_CSD field definitions.\<close>

definition EXT_CSD_CMD_SET_NORMAL :: u32 where [reg_defs]: "EXT_CSD_CMD_SET_NORMAL = BV 0"
definition EXT_CSD_CMD_SET_SECURE :: u32 where [reg_defs]: "EXT_CSD_CMD_SET_SECURE = BV 1"
definition EXT_CSD_CMD_SET_CPSECURE :: u32 where [reg_defs]: "EXT_CSD_CMD_SET_CPSECURE = BV 2"

text \<open>EXT_CSD_BUS_WIDTH.\<close>

definition EXT_CSD_BUS_WIDTH_1 :: u32 where [reg_defs]: "EXT_CSD_BUS_WIDTH_1 = 0"
definition EXT_CSD_BUS_WIDTH_4 :: u32 where [reg_defs]: "EXT_CSD_BUS_WIDTH_4 = 1"
definition EXT_CSD_BUS_WIDTH_8 :: u32 where [reg_defs]: "EXT_CSD_BUS_WIDTH_8 = 2"

text \<open>EXT_CSD_STRUCTURE.\<close>

definition EXT_CSD_STRUCTURE_VER_1_0 :: u32 where [reg_defs]: "EXT_CSD_STRUCTURE_VER_1_0 = 0"
definition EXT_CSD_STRUCTURE_VER_1_1 :: u32 where [reg_defs]: "EXT_CSD_STRUCTURE_VER_1_1 = 1"
definition EXT_CSD_STRUCTURE_VER_1_2 :: u32 where [reg_defs]: "EXT_CSD_STRUCTURE_VER_1_2 = 2"

text \<open>EXT_CSD_CARD_TYPE.\<close>

definition EXT_CSD_CARD_TYPE_F_26M :: u32 where [reg_defs]: "EXT_CSD_CARD_TYPE_F_26M = BV 0"
definition EXT_CSD_CARD_TYPE_F_52M :: u32 where [reg_defs]: "EXT_CSD_CARD_TYPE_F_52M = BV 1"
definition EXT_CSD_CARD_TYPE_F_52M_1_8V :: u32 where [reg_defs]: "EXT_CSD_CARD_TYPE_F_52M_1_8V = BV 2"
definition EXT_CSD_CARD_TYPE_F_52M_1_2V :: u32 where [reg_defs]: "EXT_CSD_CARD_TYPE_F_52M_1_2V = BV 3"
definition EXT_CSD_CARD_TYPE_F_HS200_1_8V :: u32 where [reg_defs]: "EXT_CSD_CARD_TYPE_F_HS200_1_8V = BV 4"
definition EXT_CSD_CARD_TYPE_F_HS200_1_2V :: u32 where [reg_defs]: "EXT_CSD_CARD_TYPE_F_HS200_1_2V = BV 5"
definition EXT_CSD_CARD_TYPE_F_HS400_1_8V :: u32 where [reg_defs]: "EXT_CSD_CARD_TYPE_F_HS400_1_8V = BV 6"
definition EXT_CSD_CARD_TYPE_F_HS400_1_2V :: u32 where [reg_defs]: "EXT_CSD_CARD_TYPE_F_HS400_1_2V = BV 7"
definition EXT_CSD_CARD_TYPE_26M :: u32 where [reg_defs]: "EXT_CSD_CARD_TYPE_26M = 0x01"
definition EXT_CSD_CARD_TYPE_52M :: u32 where [reg_defs]: "EXT_CSD_CARD_TYPE_52M = 0x03"
definition EXT_CSD_CARD_TYPE_52M_V18 :: u32 where [reg_defs]: "EXT_CSD_CARD_TYPE_52M_V18 = 0x07"
definition EXT_CSD_CARD_TYPE_52M_V12 :: u32 where [reg_defs]: "EXT_CSD_CARD_TYPE_52M_V12 = 0x0b"
definition EXT_CSD_CARD_TYPE_52M_V12_18 :: u32 where [reg_defs]: "EXT_CSD_CARD_TYPE_52M_V12_18 = 0x0f"

text \<open>MMC_SWITCH access mode.\<close>

definition MMC_SWITCH_MODE_CMD_SET :: u32 where [reg_defs]: "MMC_SWITCH_MODE_CMD_SET = 0x00"
definition MMC_SWITCH_MODE_SET_BITS :: u32 where [reg_defs]: "MMC_SWITCH_MODE_SET_BITS = 0x01"
definition MMC_SWITCH_MODE_CLEAR_BITS :: u32 where [reg_defs]: "MMC_SWITCH_MODE_CLEAR_BITS = 0x02"
definition MMC_SWITCH_MODE_WRITE_BYTE :: u32 where [reg_defs]: "MMC_SWITCH_MODE_WRITE_BYTE = 0x03"

text \<open>SPI mode reports R1/R2(SEND_STATUS) status.\<close>

definition R1_SPI_IDLE :: u32 where [reg_defs]: "R1_SPI_IDLE = BV 0"
definition R1_SPI_ERASE_RESET :: u32 where [reg_defs]: "R1_SPI_ERASE_RESET = BV 1"
definition R1_SPI_ILLEGAL_COMMAND :: u32 where [reg_defs]: "R1_SPI_ILLEGAL_COMMAND = BV 2"
definition R1_SPI_COM_CRC :: u32 where [reg_defs]: "R1_SPI_COM_CRC = BV 3"
definition R1_SPI_ERASE_SEQ :: u32 where [reg_defs]: "R1_SPI_ERASE_SEQ = BV 4"
definition R1_SPI_ADDRESS :: u32 where [reg_defs]: "R1_SPI_ADDRESS = BV 5"
definition R1_SPI_PARAMETER :: u32 where [reg_defs]: "R1_SPI_PARAMETER = BV 6"

definition R2_SPI_CARD_LOCKED :: u32 where [reg_defs]: "R2_SPI_CARD_LOCKED = BV 8"
definition R2_SPI_WP_ERASE_SKIP :: u32 where [reg_defs]: "R2_SPI_WP_ERASE_SKIP = BV 9"
definition R2_SPI_LOCK_UNLOCK_FAIL :: u32 where [reg_defs]: "R2_SPI_LOCK_UNLOCK_FAIL = R2_SPI_WP_ERASE_SKIP"
definition R2_SPI_ERROR :: u32 where [reg_defs]: "R2_SPI_ERROR = BV 10"
definition R2_SPI_CC_ERROR :: u32 where [reg_defs]: "R2_SPI_CC_ERROR = BV 11"
definition R2_SPI_CARD_ECC_ERROR :: u32 where [reg_defs]: "R2_SPI_CARD_ECC_ERROR = BV 12"
definition R2_SPI_WP_VIOLATION :: u32 where [reg_defs]: "R2_SPI_WP_VIOLATION = BV 13"
definition R2_SPI_ERASE_PARAM :: u32 where [reg_defs]: "R2_SPI_ERASE_PARAM = BV 14"
definition R2_SPI_OUT_OF_RANGE :: u32 where [reg_defs]: "R2_SPI_OUT_OF_RANGE = BV 15"
definition R2_SPI_CSD_OVERWRITE :: u32 where [reg_defs]: "R2_SPI_CSD_OVERWRITE = R2_SPI_OUT_OF_RANGE"

text \<open>MMC R2 response (CSD).\<close>

definition MMC_CSD_CSDVER :: "u32 list \<Rightarrow> u32" where "MMC_CSD_CSDVER resp = bitfield resp 126 2"
definition MMC_CSD_CSDVER_1_0 :: u32 where [reg_defs]: "MMC_CSD_CSDVER_1_0 = 0"
definition MMC_CSD_CSDVER_1_1 :: u32 where [reg_defs]: "MMC_CSD_CSDVER_1_1 = 1"
definition MMC_CSD_CSDVER_1_2 :: u32 where [reg_defs]: "MMC_CSD_CSDVER_1_2 = 2"
definition MMC_CSD_CSDVER_EXT_CSD :: u32 where [reg_defs]: "MMC_CSD_CSDVER_EXT_CSD = 3"
definition MMC_CSD_MMCVER :: "u32 list \<Rightarrow> u32" where "MMC_CSD_MMCVER resp = bitfield resp 122 4"
definition MMC_CSD_MMCVER_1_0 :: u32 where [reg_defs]: "MMC_CSD_MMCVER_1_0 = 0"
definition MMC_CSD_MMCVER_1_4 :: u32 where [reg_defs]: "MMC_CSD_MMCVER_1_4 = 1"
definition MMC_CSD_MMCVER_2_0 :: u32 where [reg_defs]: "MMC_CSD_MMCVER_2_0 = 2"
definition MMC_CSD_MMCVER_3_1 :: u32 where [reg_defs]: "MMC_CSD_MMCVER_3_1 = 3"
definition MMC_CSD_MMCVER_4_0 :: u32 where [reg_defs]: "MMC_CSD_MMCVER_4_0 = 4"
definition MMC_CSD_TAAC :: "u32 list \<Rightarrow> u32" where "MMC_CSD_TAAC resp = bitfield resp 112 8"
definition MMC_CSD_TAAC_MANT :: "u32 list \<Rightarrow> u32" where "MMC_CSD_TAAC_MANT resp = bitfield resp 115 4"
definition MMC_CSD_TAAC_EXP :: "u32 list \<Rightarrow> u32" where "MMC_CSD_TAAC_EXP resp = bitfield resp 112 3"
definition MMC_CSD_NSAC :: "u32 list \<Rightarrow> u32" where "MMC_CSD_NSAC resp = bitfield resp 104 8"
definition MMC_CSD_TRAN_SPEED :: "u32 list \<Rightarrow> u32" where "MMC_CSD_TRAN_SPEED resp = bitfield resp 96 8"
definition MMC_CSD_TRAN_SPEED_MANT :: "u32 list \<Rightarrow> u32" where "MMC_CSD_TRAN_SPEED_MANT resp = bitfield resp 99 4"
definition MMC_CSD_TRAN_SPEED_EXP :: "u32 list \<Rightarrow> u32" where "MMC_CSD_TRAN_SPEED_EXP resp = bitfield resp 96 3"
definition MMC_CSD_READ_BL_LEN :: "u32 list \<Rightarrow> u32" where "MMC_CSD_READ_BL_LEN resp = bitfield resp 80 4"
definition MMC_CSD_C_SIZE :: "u32 list \<Rightarrow> u32" where "MMC_CSD_C_SIZE resp = bitfield resp 62 12"
definition MMC_CSD_C_SIZE_MULT :: "u32 list \<Rightarrow> u32" where "MMC_CSD_C_SIZE_MULT resp = bitfield resp 47 3"
definition MMC_CSD_CAPACITY :: "u32 list \<Rightarrow> u32" where
  "MMC_CSD_CAPACITY resp = push_bit (unat (MMC_CSD_C_SIZE_MULT resp + 2)) (MMC_CSD_C_SIZE resp + 1)"
definition MMC_CSD_R2W_FACTOR :: "u32 list \<Rightarrow> u32" where "MMC_CSD_R2W_FACTOR resp = bitfield resp 26 3"
definition MMC_CSD_WRITE_BL_LEN :: "u32 list \<Rightarrow> u32" where "MMC_CSD_WRITE_BL_LEN resp = bitfield resp 22 4"

text \<open>MMC v1 R2 response (CID).\<close>

definition MMC_CID_MID_V1 :: "u32 list \<Rightarrow> u32" where "MMC_CID_MID_V1 resp = bitfield resp 104 24"
definition MMC_CID_PNM_V1_CPY :: "u32 list \<Rightarrow> u8 list" where
  "MMC_CID_PNM_V1_CPY resp = map (\<lambda>p. ucast (bitfield resp p 8)) [96, 88, 80, 72, 64, 56, 48] @ [0]"
definition MMC_CID_REV_V1 :: "u32 list \<Rightarrow> u32" where "MMC_CID_REV_V1 resp = bitfield resp 40 8"
definition MMC_CID_PSN_V1 :: "u32 list \<Rightarrow> u32" where "MMC_CID_PSN_V1 resp = bitfield resp 16 24"
definition MMC_CID_MDT_V1 :: "u32 list \<Rightarrow> u32" where "MMC_CID_MDT_V1 resp = bitfield resp 8 8"

text \<open>MMC v2 R2 response (CID).\<close>

definition MMC_CID_MID_V2 :: "u32 list \<Rightarrow> u32" where "MMC_CID_MID_V2 resp = bitfield resp 120 8"
definition MMC_CID_OID_V2 :: "u32 list \<Rightarrow> u32" where "MMC_CID_OID_V2 resp = bitfield resp 104 16"
definition MMC_CID_PNM_V2_CPY :: "u32 list \<Rightarrow> u8 list" where
  "MMC_CID_PNM_V2_CPY resp = map (\<lambda>p. ucast (bitfield resp p 8)) [96, 88, 80, 72, 64, 56] @ [0]"
definition MMC_CID_PSN_V2 :: "u32 list \<Rightarrow> u32" where "MMC_CID_PSN_V2 resp = bitfield resp 16 32"

text \<open>SD R2 response (CSD).\<close>

definition SD_CSD_MMCVER :: "u32 list \<Rightarrow> u32" where "SD_CSD_MMCVER resp = bitfield resp 122 4"
definition SD_CSD_TAAC :: "u32 list \<Rightarrow> u32" where "SD_CSD_TAAC resp = bitfield resp 112 8"
definition SD_CSD_TAAC_EXP :: "u32 list \<Rightarrow> u32" where "SD_CSD_TAAC_EXP resp = bitfield resp 115 4"
definition SD_CSD_TAAC_MANT :: "u32 list \<Rightarrow> u32" where "SD_CSD_TAAC_MANT resp = bitfield resp 112 3"
definition SD_CSD_TAAC_1_5_MSEC :: u32 where [reg_defs]: "SD_CSD_TAAC_1_5_MSEC = 0x26"
definition SD_CSD_NSAC :: "u32 list \<Rightarrow> u32" where "SD_CSD_NSAC resp = bitfield resp 104 8"
definition SD_CSD_SPEED :: "u32 list \<Rightarrow> u32" where "SD_CSD_SPEED resp = bitfield resp 96 8"
definition SD_CSD_SPEED_MANT :: "u32 list \<Rightarrow> u32" where "SD_CSD_SPEED_MANT resp = bitfield resp 99 4"
definition SD_CSD_SPEED_EXP :: "u32 list \<Rightarrow> u32" where "SD_CSD_SPEED_EXP resp = bitfield resp 96 3"
definition SD_CSD_SPEED_25_MHZ :: u32 where [reg_defs]: "SD_CSD_SPEED_25_MHZ = 0x32"
definition SD_CSD_SPEED_50_MHZ :: u32 where [reg_defs]: "SD_CSD_SPEED_50_MHZ = 0x5a"
definition SD_CSD_CCC :: "u32 list \<Rightarrow> u32" where "SD_CSD_CCC resp = bitfield resp 84 12"
definition SD_CSD_CCC_BASIC :: u32 where [reg_defs]: "SD_CSD_CCC_BASIC = BV 0"
definition SD_CSD_CCC_BR :: u32 where [reg_defs]: "SD_CSD_CCC_BR = BV 2"
definition SD_CSD_CCC_BW :: u32 where [reg_defs]: "SD_CSD_CCC_BW = BV 4"
definition SD_CSD_CCC_ERACE :: u32 where [reg_defs]: "SD_CSD_CCC_ERACE = BV 5"
definition SD_CSD_CCC_WP :: u32 where [reg_defs]: "SD_CSD_CCC_WP = BV 6"
definition SD_CSD_CCC_LC :: u32 where [reg_defs]: "SD_CSD_CCC_LC = BV 7"
definition SD_CSD_CCC_AS :: u32 where [reg_defs]: "SD_CSD_CCC_AS = BV 8"
definition SD_CSD_CCC_IOM :: u32 where [reg_defs]: "SD_CSD_CCC_IOM = BV 9"
definition SD_CSD_CCC_SWITCH :: u32 where [reg_defs]: "SD_CSD_CCC_SWITCH = BV 10"
definition SD_CSD_READ_BL_PARTIAL :: "u32 list \<Rightarrow> u32" where "SD_CSD_READ_BL_PARTIAL resp = bitfield resp 79 1"
definition SD_CSD_WRITE_BLK_MISALIGN :: "u32 list \<Rightarrow> u32" where "SD_CSD_WRITE_BLK_MISALIGN resp = bitfield resp 78 1"
definition SD_CSD_READ_BLK_MISALIGN :: "u32 list \<Rightarrow> u32" where "SD_CSD_READ_BLK_MISALIGN resp = bitfield resp 77 1"
definition SD_CSD_DSR_IMP :: "u32 list \<Rightarrow> u32" where "SD_CSD_DSR_IMP resp = bitfield resp 76 1"
definition SD_CSD_VDD_R_CURR_MIN :: "u32 list \<Rightarrow> u32" where "SD_CSD_VDD_R_CURR_MIN resp = bitfield resp 59 3"
definition SD_CSD_VDD_R_CURR_MAX :: "u32 list \<Rightarrow> u32" where "SD_CSD_VDD_R_CURR_MAX resp = bitfield resp 56 3"
definition SD_CSD_VDD_W_CURR_MIN :: "u32 list \<Rightarrow> u32" where "SD_CSD_VDD_W_CURR_MIN resp = bitfield resp 53 3"
definition SD_CSD_VDD_W_CURR_MAX :: "u32 list \<Rightarrow> u32" where "SD_CSD_VDD_W_CURR_MAX resp = bitfield resp 50 3"
definition SD_CSD_VDD_RW_CURR_100mA :: u32 where [reg_defs]: "SD_CSD_VDD_RW_CURR_100mA = 0x7"
definition SD_CSD_VDD_RW_CURR_80mA :: u32 where [reg_defs]: "SD_CSD_VDD_RW_CURR_80mA = 0x6"
definition SD_CSD_ERASE_BLK_EN :: "u32 list \<Rightarrow> u32" where "SD_CSD_ERASE_BLK_EN resp = bitfield resp 46 1"
definition SD_CSD_SECTOR_SIZE :: "u32 list \<Rightarrow> u32" where "SD_CSD_SECTOR_SIZE resp = bitfield resp 39 7"
definition SD_CSD_WP_GRP_SIZE :: "u32 list \<Rightarrow> u32" where "SD_CSD_WP_GRP_SIZE resp = bitfield resp 32 7"
definition SD_CSD_WP_GRP_ENABLE :: "u32 list \<Rightarrow> u32" where "SD_CSD_WP_GRP_ENABLE resp = bitfield resp 31 1"
definition SD_CSD_R2W_FACTOR :: "u32 list \<Rightarrow> u32" where "SD_CSD_R2W_FACTOR resp = bitfield resp 26 3"
definition SD_CSD_WRITE_BL_LEN :: "u32 list \<Rightarrow> u32" where "SD_CSD_WRITE_BL_LEN resp = bitfield resp 22 4"
definition SD_CSD_RW_BL_LEN_2G :: u32 where [reg_defs]: "SD_CSD_RW_BL_LEN_2G = 0xa"
definition SD_CSD_RW_BL_LEN_1G :: u32 where [reg_defs]: "SD_CSD_RW_BL_LEN_1G = 0x9"
definition SD_CSD_WRITE_BL_PARTIAL :: "u32 list \<Rightarrow> u32" where "SD_CSD_WRITE_BL_PARTIAL resp = bitfield resp 21 1"
definition SD_CSD_FILE_FORMAT_GRP :: "u32 list \<Rightarrow> u32" where "SD_CSD_FILE_FORMAT_GRP resp = bitfield resp 15 1"
definition SD_CSD_COPY :: "u32 list \<Rightarrow> u32" where "SD_CSD_COPY resp = bitfield resp 14 1"
definition SD_CSD_PERM_WRITE_PROTECT :: "u32 list \<Rightarrow> u32" where "SD_CSD_PERM_WRITE_PROTECT resp = bitfield resp 13 1"
definition SD_CSD_TMP_WRITE_PROTECT :: "u32 list \<Rightarrow> u32" where "SD_CSD_TMP_WRITE_PROTECT resp = bitfield resp 12 1"
definition SD_CSD_FILE_FORMAT :: "u32 list \<Rightarrow> u32" where "SD_CSD_FILE_FORMAT resp = bitfield resp 10 2"

text \<open>SD R2 response (CID).\<close>

definition SD_CID_MID :: "u32 list \<Rightarrow> u32" where "SD_CID_MID resp = bitfield resp 120 8"
definition SD_CID_OID :: "u32 list \<Rightarrow> u32" where "SD_CID_OID resp = bitfield resp 104 16"
definition SD_CID_REV :: "u32 list \<Rightarrow> u32" where "SD_CID_REV resp = bitfield resp 56 8"
definition SD_CID_PSN :: "u32 list \<Rightarrow> u32" where "SD_CID_PSN resp = bitfield resp 24 32"
definition SD_CID_MDT :: "u32 list \<Rightarrow> u32" where "SD_CID_MDT resp = bitfield resp 8 12"

text \<open>SCR (SD Configuration Register).\<close>

definition SCR_STRUCTURE :: "u32 list \<Rightarrow> u32" where "SCR_STRUCTURE scr = bitfield scr 60 4"
definition SCR_STRUCTURE_VER_1_0 :: u32 where [reg_defs]: "SCR_STRUCTURE_VER_1_0 = 0"
definition SCR_SD_SPEC :: "u32 list \<Rightarrow> u32" where "SCR_SD_SPEC scr = bitfield scr 56 4"
definition SCR_SD_SPEC_VER_1_0 :: u32 where [reg_defs]: "SCR_SD_SPEC_VER_1_0 = 0"
definition SCR_SD_SPEC_VER_1_10 :: u32 where [reg_defs]: "SCR_SD_SPEC_VER_1_10 = 1"
definition SCR_SD_SPEC_VER_2 :: u32 where [reg_defs]: "SCR_SD_SPEC_VER_2 = 2"
definition SCR_DATA_STAT_AFTER_ERASE :: "u32 list \<Rightarrow> u32" where "SCR_DATA_STAT_AFTER_ERASE scr = bitfield scr 55 1"
definition SCR_SD_SECURITY :: "u32 list \<Rightarrow> u32" where "SCR_SD_SECURITY scr = bitfield scr 52 3"
definition SCR_SD_SECURITY_NONE :: u32 where [reg_defs]: "SCR_SD_SECURITY_NONE = 0"
definition SCR_SD_SECURITY_1_0 :: u32 where [reg_defs]: "SCR_SD_SECURITY_1_0 = 1"
definition SCR_SD_SECURITY_1_0_2 :: u32 where [reg_defs]: "SCR_SD_SECURITY_1_0_2 = 2"
definition SCR_SD_BUS_WIDTHS :: "u32 list \<Rightarrow> u32" where "SCR_SD_BUS_WIDTHS scr = bitfield scr 48 4"
definition SCR_SD_BUS_WIDTHS_1BIT :: u32 where [reg_defs]: "SCR_SD_BUS_WIDTHS_1BIT = BV 0"
definition SCR_SD_BUS_WIDTHS_4BIT :: u32 where [reg_defs]: "SCR_SD_BUS_WIDTHS_4BIT = BV 2"
definition SCR_SD_SPEC3 :: "u32 list \<Rightarrow> u32" where "SCR_SD_SPEC3 scr = bitfield scr 47 1"
definition SCR_EX_SECURITY :: "u32 list \<Rightarrow> u32" where "SCR_EX_SECURITY scr = bitfield scr 43 4"
definition SCR_RESERVED :: "u32 list \<Rightarrow> u32" where "SCR_RESERVED scr = bitfield scr 34 9"
definition SCR_CMD_SUPPORT_CMD23 :: "u32 list \<Rightarrow> u32" where "SCR_CMD_SUPPORT_CMD23 scr = bitfield scr 33 1"
definition SCR_CMD_SUPPORT_CMD20 :: "u32 list \<Rightarrow> u32" where "SCR_CMD_SUPPORT_CMD20 scr = bitfield scr 32 1"
definition SCR_RESERVED2 :: "u32 list \<Rightarrow> u32" where "SCR_RESERVED2 scr = bitfield scr 0 32"

subsection \<open>The fields\<close>

text \<open>A field is below its power of two, and a field that is read in two parts is made of them.\<close>

lemma bitfield_bound: "l < 32 \<Longrightarrow> bitfield resp (int p) (int l) AND mask l = bitfield resp (int p) (int l)"
  by (rule bit_word_eqI) (auto simp: bit_bitfield bit_simps)

lemma bitfield_split:
  "a + b \<le> 32 \<Longrightarrow> bitfield resp (int p) (int (a + b)) =
     bitfield resp (int p) (int a) OR push_bit a (bitfield resp (int (p + a)) (int b))"
  by (rule bit_word_eqI) (auto simp: bit_bitfield bit_simps nat_add_distrib)

lemma bitfield_low: "bitfield resp (int p) 8 AND mask 7 = bitfield resp (int p) 7"
  by (rule bit_word_eqI) (auto simp: bit_bitfield bit_simps)

text \<open>
  The access time of a card is a mantissa of four bits above an exponent of three; the names the
  header gives the two for SD cards are exchanged, those for MMC cards and for the speed are not.
\<close>

lemma taac_parts:
  "MMC_CSD_TAAC resp AND mask 7 = MMC_CSD_TAAC_EXP resp OR push_bit 3 (MMC_CSD_TAAC_MANT resp) \<and>
   SD_CSD_TAAC resp AND mask 7 = SD_CSD_TAAC_MANT resp OR push_bit 3 (SD_CSD_TAAC_EXP resp) \<and>
   SD_CSD_SPEED resp AND mask 7 = SD_CSD_SPEED_EXP resp OR push_bit 3 (SD_CSD_SPEED_MANT resp)"
  using bitfield_split [of 3 4 resp 112] bitfield_split [of 3 4 resp 96]
    bitfield_low [of resp 112] bitfield_low [of resp 96]
  by (simp add: MMC_CSD_TAAC_def MMC_CSD_TAAC_EXP_def MMC_CSD_TAAC_MANT_def SD_CSD_TAAC_def
      SD_CSD_TAAC_EXP_def SD_CSD_TAAC_MANT_def SD_CSD_SPEED_def SD_CSD_SPEED_EXP_def SD_CSD_SPEED_MANT_def)

end
