(* ===== verification/Mbox_Property.thy ===== *)
theory Mbox_Property
  imports Mailbox
begin

unbundle bit_operations_syntax

text \<open>
  The property interface of the mailbox (\<^verbatim>\<open>hvs-dance/unused.c\<close>): a message is an array of words in
  memory, its address is sent, and the other side answers in place.  \<^verbatim>\<open>memalign\<close>, \<^verbatim>\<open>free\<close>, cache
  maintenance and \<^verbatim>\<open>vaddr_to_paddr\<close> are LK's and arguments here.
\<close>

subsection \<open>The code\<close>

definition CACHE_LINE :: u32 where "CACHE_LINE = 32"

definition ROUNDUP :: "u32 \<Rightarrow> u32 \<Rightarrow> u32" where
  "ROUNDUP a b = ((a + (b - 1)) AND NOT (b - 1))"

text \<open>The code the other side runs to read the counters of the SDRAM controller.\<close>

definition sdram_peek_fn :: "u8 list" where
  "sdram_peek_fn = [0x02, 0xe8, 0x18, 0x00, 0xe0, 0x7e, 0x23, 0x08, 0x03, 0x09,
     0x03, 0xe8, 0x30, 0x00, 0xe0, 0x7e, 0x34, 0x08, 0x04, 0x31, 0x02, 0x32, 0x00, 0x60, 0x5a, 0x00]"

record 'r lk_mem =
  memalign :: "u32 \<Rightarrow> u32 \<Rightarrow> ('r, u32) io"
  free :: "u32 \<Rightarrow> ('r, unit) io"
  clean_cache :: "u32 \<Rightarrow> u32 \<Rightarrow> ('r, unit) io"
  clean_invalidate_cache :: "u32 \<Rightarrow> u32 \<Rightarrow> ('r, unit) io"
  vaddr_to_paddr :: "u32 \<Rightarrow> u32"

definition mbox_property_start :: "'r lk_mem \<Rightarrow> u32 \<Rightarrow> ('r, u32) io" where
  "mbox_property_start lk len = memalign lk CACHE_LINE (ROUNDUP len CACHE_LINE)"

text \<open>
  The exchange: send the address, take the answer, check that it is for this message.  The result
  of the send is ignored; an answer that never came leaves \<open>ack\<close> at 0.
\<close>

definition mbox_exchange :: "'r lk_mem \<Rightarrow> u32 \<Rightarrow> ('r, unit) io" where
  "mbox_exchange lk m = do {
     _ \<leftarrow> mailbox_write Ch_propertytags_tovc (0xc0000000 OR vaddr_to_paddr lk m);
     (ret, r) \<leftarrow> mailbox_read Ch_propertytags_tovc;
     let ack = (case r of Some v \<Rightarrow> v | None \<Rightarrow> 0);
     assert_that ''ret == NO_ERROR'' (ret = NO_ERROR);
     let ack = (ack AND NOT 0xf) AND 0x3fffffff;
     assert_that ''ack == vaddr_to_paddr(msg)'' (ack = vaddr_to_paddr lk m)
   }"

definition mbox_property_send :: "'r lk_mem \<Rightarrow> u32 \<Rightarrow> u32 \<Rightarrow> ('r, unit) io" where
  "mbox_property_send lk m len = do {
     clean_invalidate_cache lk m (ROUNDUP len CACHE_LINE);
     mbox_exchange lk m;
     clean_invalidate_cache lk m (ROUNDUP len CACHE_LINE)
   }"

text \<open>\<open>m[0]\<close>, \<open>m[1]\<close>, \<open>\<dots>\<close>: the words of a message, with its length in bytes in the first.\<close>

definition store_words :: "u32 \<Rightarrow> u32 list \<Rightarrow> ('r, unit) io" where
  "store_words m ws = do {
     for_each [0..<length ws] (\<lambda>i. wr (m + 4 * of_nat i) (ws ! i));
     wr m (4 * of_nat (length ws))
   }"

definition temp_request :: "u32 list" where
  "temp_request = [0, 0, 0x30006, 8, 0, 0, 0, 0]"

definition get_temp :: "'r lk_mem \<Rightarrow> ('r, u32) io" where
  "get_temp lk = do {
     let sz = 9 * 4;
     m \<leftarrow> mbox_property_start lk sz;
     store_words m temp_request;
     assert_that ''(i*4) < size'' (4 * of_nat (length temp_request) < sz);
     mbox_property_send lk m sz;
     t \<leftarrow> rd (m + 24);
     free lk m;
     return t
   }"

definition execute_request :: "u32 \<Rightarrow> u32 \<Rightarrow> u32 list" where
  "execute_request code result =
     [0, 0, 0x30010, 28, 28, code, result OR 0xc0000000, 0, 0, 0, 0, 0, 0]"

text \<open>
  \<open>peek\<close> is the address of \<^verbatim>\<open>sdram_peek_fn\<close>; the other arguments are what the message prints.  A
  division by zero is an exception of the processor.
\<close>

definition check_sdram_usage :: "'r lk_mem \<Rightarrow> u32 \<Rightarrow> u32 \<Rightarrow> u32 \<Rightarrow> u32 \<Rightarrow> ('r, unit) io" where
  "check_sdram_usage lk peek sprite_limit width height = do {
     clean_cache lk peek (of_nat (length sdram_peek_fn));
     let sz = ROUNDUP 52 CACHE_LINE;
     addr \<leftarrow> memalign lk CACHE_LINE sz;
     let sz2 = ROUNDUP (4 * 3) CACHE_LINE;
     result \<leftarrow> memalign lk CACHE_LINE sz2;
     let req = execute_request (vaddr_to_paddr lk peek) (vaddr_to_paddr lk result);
     store_words addr req;
     assert_that ''(i*4) < size'' (4 * of_nat (length req) < sz);
     clean_invalidate_cache lk addr sz;
     clean_invalidate_cache lk result sz2;
     mbox_exchange lk addr;
     clean_invalidate_cache lk addr sz;
     clean_invalidate_cache lk result sz2;
     idle \<leftarrow> rd result;
     cycles \<leftarrow> rd (result + 4);
     when_io (cycles = 0) (panic ''Division by zero'');
     let idle_percent = (ucast ((ucast idle * 100 :: u64) div ucast cycles) :: u32);
     temp \<leftarrow> get_temp lk;
     r0 \<leftarrow> rd result;
     r1 \<leftarrow> rd (result + 4);
     printf ''with %d layers of %dx%d images, DDR2 was idle %d / %d cycles (%d%%), temp %d.%03d''
       [U sprite_limit, U width, U height, U r0, U r1, U idle_percent, U (temp div 1000), U (temp mod 1000)];
     free lk addr;
     free lk result
   }"

subsection \<open>What the other side sees\<close>

text \<open>The request is in memory, with its length, when its address is sent.\<close>

lemma run_stores:
  "running s \<Longrightarrow> run_state (for_each xs (\<lambda>i. wr (a i) (f i))) s = ((), log (map (\<lambda>i. Wr (a i) (f i)) xs) s)"
  by (induction xs arbitrary: s) simp_all

lemma store_words_log:
  "running s \<Longrightarrow> run_state (store_words m ws) s =
     ((), log (map (\<lambda>i. Wr (m + 4 * of_nat i) (ws ! i)) [0..<length ws] @ [Wr m (4 * of_nat (length ws))]) s)"
  by (simp add: store_words_def run_stores)

lemma temp_request_stored:
  assumes "running s" "\<And>a. plain_at (dev s) a" "run_state (store_words m temp_request) s = ((), s')"
  shows "map (\<lambda>i. cur s' (m + 4 * of_nat i)) [0..<8] = [32, 0, 0x30006, 8, 0, 0, 0, 0]"
proof -
  have "s' = log [Wr m 0, Wr (m + 4) 0, Wr (m + 8) 0x30006, Wr (m + 12) 8, Wr (m + 16) 0, Wr (m + 20) 0,
      Wr (m + 24) 0, Wr (m + 28) 0, Wr m 32] s"
    using assms(3) store_words_log [OF assms(1), of m temp_request]
    by (simp add: temp_request_def upt_rec)
  then show ?thesis by (simp add: plain_cur_log [OF assms(2)] upt_rec)
qed

text \<open>The buffers are large enough, also for the words that are rounded up to a cache line.\<close>

lemma request_fits:
  "ROUNDUP 36 CACHE_LINE = 64 \<and> ROUNDUP 52 CACHE_LINE = 64 \<and>
   4 * length temp_request < 36 \<and> 4 * length (execute_request c r) = 52"
  by (simp add: ROUNDUP_def CACHE_LINE_def temp_request_def execute_request_def)

end
