(* ===== verification/Header_Names.thy ===== *)
theory Header_Names
  imports Sdhost Mbox_Property Arm_Intc Hvs Uart
begin

unbundle bit_operations_syntax

text \<open>
  Names the headers give to registers, fields and codes that no modelled operation uses, in the
  order of the sources, and the message structures of \<^verbatim>\<open>mailbox.h\<close>; with what ties them to the
  code: the index arithmetic that reaches the registers of the other cores, and the arrays of
  words that the property calls build in the place of the structures.
\<close>

subsection \<open>Names\<close>

text \<open>\<^verbatim>\<open>intc.c\<close>: the local registers of each core; \<open>virt\<close> is the base of the peripherals.\<close>

definition INTC_PEND0 :: "u32 \<Rightarrow> u32" where "INTC_PEND0 virt = armctrl_intc_base virt + 0x0"
definition INTC_FAST :: "u32 \<Rightarrow> u32" where "INTC_FAST virt = armctrl_intc_base virt + 0xc"
definition INTC_LOCAL_TIMER_INT_CONTROL1 :: "u32 \<Rightarrow> u32" where "INTC_LOCAL_TIMER_INT_CONTROL1 virt = arm_local_base virt + 0x44"
definition INTC_LOCAL_TIMER_INT_CONTROL2 :: "u32 \<Rightarrow> u32" where "INTC_LOCAL_TIMER_INT_CONTROL2 virt = arm_local_base virt + 0x48"
definition INTC_LOCAL_TIMER_INT_CONTROL3 :: "u32 \<Rightarrow> u32" where "INTC_LOCAL_TIMER_INT_CONTROL3 virt = arm_local_base virt + 0x4c"
definition INTC_LOCAL_MAILBOX_INT_CONTROL1 :: "u32 \<Rightarrow> u32" where "INTC_LOCAL_MAILBOX_INT_CONTROL1 virt = arm_local_base virt + 0x54"
definition INTC_LOCAL_MAILBOX_INT_CONTROL2 :: "u32 \<Rightarrow> u32" where "INTC_LOCAL_MAILBOX_INT_CONTROL2 virt = arm_local_base virt + 0x58"
definition INTC_LOCAL_MAILBOX_INT_CONTROL3 :: "u32 \<Rightarrow> u32" where "INTC_LOCAL_MAILBOX_INT_CONTROL3 virt = arm_local_base virt + 0x5c"
definition INTC_LOCAL_IRQ_PEND1 :: "u32 \<Rightarrow> u32" where "INTC_LOCAL_IRQ_PEND1 virt = arm_local_base virt + 0x64"
definition INTC_LOCAL_IRQ_PEND2 :: "u32 \<Rightarrow> u32" where "INTC_LOCAL_IRQ_PEND2 virt = arm_local_base virt + 0x68"
definition INTC_LOCAL_IRQ_PEND3 :: "u32 \<Rightarrow> u32" where "INTC_LOCAL_IRQ_PEND3 virt = arm_local_base virt + 0x6c"
definition INTC_LOCAL_FIQ_PEND0 :: "u32 \<Rightarrow> u32" where "INTC_LOCAL_FIQ_PEND0 virt = arm_local_base virt + 0x70"
definition INTC_LOCAL_FIQ_PEND1 :: "u32 \<Rightarrow> u32" where "INTC_LOCAL_FIQ_PEND1 virt = arm_local_base virt + 0x74"
definition INTC_LOCAL_FIQ_PEND2 :: "u32 \<Rightarrow> u32" where "INTC_LOCAL_FIQ_PEND2 virt = arm_local_base virt + 0x78"
definition INTC_LOCAL_FIQ_PEND3 :: "u32 \<Rightarrow> u32" where "INTC_LOCAL_FIQ_PEND3 virt = arm_local_base virt + 0x7c"
definition INTC_LOCAL_MAILBOX0_SET1 :: "u32 \<Rightarrow> u32" where "INTC_LOCAL_MAILBOX0_SET1 virt = arm_local_base virt + 0x90"
definition INTC_LOCAL_MAILBOX0_SET2 :: "u32 \<Rightarrow> u32" where "INTC_LOCAL_MAILBOX0_SET2 virt = arm_local_base virt + 0xa0"
definition INTC_LOCAL_MAILBOX0_SET3 :: "u32 \<Rightarrow> u32" where "INTC_LOCAL_MAILBOX0_SET3 virt = arm_local_base virt + 0xb0"
definition INTC_LOCAL_MAILBOX0_CLR1 :: "u32 \<Rightarrow> u32" where "INTC_LOCAL_MAILBOX0_CLR1 virt = arm_local_base virt + 0xd0"
definition INTC_LOCAL_MAILBOX0_CLR2 :: "u32 \<Rightarrow> u32" where "INTC_LOCAL_MAILBOX0_CLR2 virt = arm_local_base virt + 0xe0"
definition INTC_LOCAL_MAILBOX0_CLR3 :: "u32 \<Rightarrow> u32" where "INTC_LOCAL_MAILBOX0_CLR3 virt = arm_local_base virt + 0xf0"

text \<open>\<^verbatim>\<open>mailbox.h\<close>.\<close>

definition VCORE_MAILBOX_PHYSICAL_ADDRESS :: u32 where "VCORE_MAILBOX_PHYSICAL_ADDRESS = ARMCTRL_0_SBM_BASE + 0x80"
definition VCORE_TAG_REQUEST :: u32 where "VCORE_TAG_REQUEST = 0x00000000"
definition VCORE_ENDTAG :: u32 where "VCORE_ENDTAG = 0x00000000"
definition VCORE_TAG_GET_FIRMWARE_REV :: u32 where "VCORE_TAG_GET_FIRMWARE_REV = 0x00000001"
definition VCORE_TAG_GET_FIRMWARE_REV_REQ_LEN :: u32 where "VCORE_TAG_GET_FIRMWARE_REV_REQ_LEN = 0x00000000"
definition VCORE_TAG_GET_FIRMWARE_REV_RSP_LEN :: u32 where "VCORE_TAG_GET_FIRMWARE_REV_RSP_LEN = 0x00000004"
definition VCORE_MAILBOX_FULL :: u32 where "VCORE_MAILBOX_FULL = 0x80000000"
definition VCORE_MAILBOX_EMPTY :: u32 where "VCORE_MAILBOX_EMPTY = 0x40000000"
definition VC_FB_CHANNEL :: u32 where "VC_FB_CHANNEL = 0x01"
definition ARM_TO_VC_CHANNEL :: u32 where "ARM_TO_VC_CHANNEL = 0x08"
definition VC_TO_ARM_CHANNEL :: u32 where "VC_TO_ARM_CHANNEL = 0x09"
definition VCORE_SUCCESS :: u32 where "VCORE_SUCCESS = 0"
definition VCORE_ERR_MBOX_FULL :: u32 where "VCORE_ERR_MBOX_FULL = 1"
definition VCORE_ERR_MBOX_TIMEOUT :: u32 where "VCORE_ERR_MBOX_TIMEOUT = 2"
definition VCORE_READ_ATTEMPTS :: u32 where "VCORE_READ_ATTEMPTS = 0xffffffff"
definition MAILBOX_PEEK :: u32 where "MAILBOX_PEEK = 2"
definition MAILBOX_CONDIG :: u32 where "MAILBOX_CONDIG = 4"

text \<open>\<^verbatim>\<open>hvs.h\<close>: pixel formats, orders and scaling modes.\<close>

definition HVS_PIXEL_FORMAT_RGBA4444 :: u32 where "HVS_PIXEL_FORMAT_RGBA4444 = 1"
definition HVS_PIXEL_FORMAT_RGB555 :: u32 where "HVS_PIXEL_FORMAT_RGB555 = 2"
definition HVS_PIXEL_FORMAT_RGBA5551 :: u32 where "HVS_PIXEL_FORMAT_RGBA5551 = 3"
definition HVS_PIXEL_FORMAT_RGB888 :: u32 where "HVS_PIXEL_FORMAT_RGB888 = 5"
definition HVS_PIXEL_FORMAT_RGBA6666 :: u32 where "HVS_PIXEL_FORMAT_RGBA6666 = 6"
definition HVS_PIXEL_FORMAT_YCBCR_YUV420_3PLANE :: u32 where "HVS_PIXEL_FORMAT_YCBCR_YUV420_3PLANE = 8"
definition HVS_PIXEL_FORMAT_YCBCR_YUV420_2PLANE :: u32 where "HVS_PIXEL_FORMAT_YCBCR_YUV420_2PLANE = 9"
definition HVS_PIXEL_FORMAT_YCBCR_YUV422_3PLANE :: u32 where "HVS_PIXEL_FORMAT_YCBCR_YUV422_3PLANE = 10"
definition HVS_PIXEL_FORMAT_YCBCR_YUV422_2PLANE :: u32 where "HVS_PIXEL_FORMAT_YCBCR_YUV422_2PLANE = 11"
definition HVS_PIXEL_FORMAT_H264 :: u32 where "HVS_PIXEL_FORMAT_H264 = 12"
definition HVS_PIXEL_FORMAT_PALETTE :: u32 where "HVS_PIXEL_FORMAT_PALETTE = 13"
definition HVS_PIXEL_FORMAT_YUV444_RGB :: u32 where "HVS_PIXEL_FORMAT_YUV444_RGB = 14"
definition HVS_PIXEL_FORMAT_AYUV444_RGB :: u32 where "HVS_PIXEL_FORMAT_AYUV444_RGB = 15"
definition HVS_PIXEL_FORMAT_RGBA1010102 :: u32 where "HVS_PIXEL_FORMAT_RGBA1010102 = 16"
definition HVS_PIXEL_FORMAT_YCBCR_10BIT :: u32 where "HVS_PIXEL_FORMAT_YCBCR_10BIT = 17"
definition HVS_PIXEL_ORDER_RGBA :: u32 where "HVS_PIXEL_ORDER_RGBA = 0"
definition HVS_PIXEL_ORDER_BGRA :: u32 where "HVS_PIXEL_ORDER_BGRA = 1"
definition HVS_PIXEL_ORDER_ARGB :: u32 where "HVS_PIXEL_ORDER_ARGB = 2"
definition HVS_PIXEL_ORDER_XBRG :: u32 where "HVS_PIXEL_ORDER_XBRG = 0"
definition HVS_PIXEL_ORDER_XRBG :: u32 where "HVS_PIXEL_ORDER_XRBG = 1"
definition HVS_PIXEL_ORDER_XRGB :: u32 where "HVS_PIXEL_ORDER_XRGB = 2"
definition HVS_PIXEL_ORDER_XBGR :: u32 where "HVS_PIXEL_ORDER_XBGR = 3"
definition SCALER_CTL0_SCL_H_PPF_V_NONE :: u32 where "SCALER_CTL0_SCL_H_PPF_V_NONE = 4"
definition SCALER_CTL0_SCL_H_NONE_V_PPF :: u32 where "SCALER_CTL0_SCL_H_NONE_V_PPF = 5"
definition SCALER_CTL0_SCL_H_NONE_V_TPZ :: u32 where "SCALER_CTL0_SCL_H_NONE_V_TPZ = 6"
definition SCALER_CTL0_SCL_H_TPZ_V_NONE :: u32 where "SCALER_CTL0_SCL_H_TPZ_V_NONE = 7"
definition SCALER_DISPBKGND_GAMMA :: u32 where "SCALER_DISPBKGND_GAMMA = BV 29"
definition CONTROL0_FIXED_ALPHA :: u32 where "CONTROL0_FIXED_ALPHA = BV 19"
definition CONTROL0_VFLIP :: u32 where "CONTROL0_VFLIP = BV 15"

text \<open>\<^verbatim>\<open>dpi.h\<close>: polarity and edge of the signals.\<close>

definition DPI_HSYNC_INVERT :: u32 where "DPI_HSYNC_INVERT = BV 9"
definition DPI_VSYNC_INVERT :: u32 where "DPI_VSYNC_INVERT = BV 8"
definition DPI_OUTPUT_ENABLE_INVERT :: u32 where "DPI_OUTPUT_ENABLE_INVERT = BV 7"
definition DPI_HSYNC_NEGATE :: u32 where "DPI_HSYNC_NEGATE = BV 6"
definition DPI_VSYNC_NEGATE :: u32 where "DPI_VSYNC_NEGATE = BV 5"
definition DPI_OUTPUT_ENABLE_NEGATE :: u32 where "DPI_OUTPUT_ENABLE_NEGATE = BV 4"
definition DPI_OUTPUT_ENABLE_DISABLE :: u32 where "DPI_OUTPUT_ENABLE_DISABLE = BV 1"

text \<open>\<^verbatim>\<open>uart.c\<close>: registers the driver does not use.\<close>

definition UART_RSR :: u32 where "UART_RSR = 0x04"
definition UART_ILPR :: u32 where "UART_ILPR = 0x20"
definition UART_TRIS :: u32 where "UART_TRIS = 0x3c"
definition UART_DMACR :: u32 where "UART_DMACR = 0x48"

text \<open>\<^verbatim>\<open>sdhost_impl.cpp\<close>: interrupt bits and the states of the data machine.\<close>

definition VOLTAGE_SUPPLY_RANGE :: u32 where "VOLTAGE_SUPPLY_RANGE = 0x100"
definition CHECK_PATTERN :: u32 where "CHECK_PATTERN = 0x55"
definition SDHSTS_BUSY_IRPT :: u32 where "SDHSTS_BUSY_IRPT = 0x400"
definition SDHSTS_BLOCK_IRPT :: u32 where "SDHSTS_BLOCK_IRPT = 0x200"
definition SDHSTS_SDIO_IRPT :: u32 where "SDHSTS_SDIO_IRPT = 0x100"
definition SDEDM_FSM_MASK :: u32 where "SDEDM_FSM_MASK = 0xf"
definition SDEDM_FSM_IDENTMODE :: u32 where "SDEDM_FSM_IDENTMODE = 0x0"
definition SDEDM_FSM_DATAMODE :: u32 where "SDEDM_FSM_DATAMODE = 0x1"
definition SDEDM_FSM_READDATA :: u32 where "SDEDM_FSM_READDATA = 0x2"
definition SDEDM_FSM_WRITEDATA :: u32 where "SDEDM_FSM_WRITEDATA = 0x3"
definition SDEDM_FSM_READWAIT :: u32 where "SDEDM_FSM_READWAIT = 0x4"
definition SDEDM_FSM_READCRC :: u32 where "SDEDM_FSM_READCRC = 0x5"
definition SDEDM_FSM_WRITECRC :: u32 where "SDEDM_FSM_WRITECRC = 0x6"
definition SDEDM_FSM_WRITEWAIT1 :: u32 where "SDEDM_FSM_WRITEWAIT1 = 0x7"
definition SDEDM_FSM_POWERDOWN :: u32 where "SDEDM_FSM_POWERDOWN = 0x8"
definition SDEDM_FSM_POWERUP :: u32 where "SDEDM_FSM_POWERUP = 0x9"
definition SDEDM_FSM_WRITESTART1 :: u32 where "SDEDM_FSM_WRITESTART1 = 0xa"
definition SDEDM_FSM_WRITESTART2 :: u32 where "SDEDM_FSM_WRITESTART2 = 0xb"
definition SDEDM_FSM_GENPULSES :: u32 where "SDEDM_FSM_GENPULSES = 0xc"
definition SDEDM_FSM_WRITEWAIT2 :: u32 where "SDEDM_FSM_WRITEWAIT2 = 0xd"
definition SDEDM_FSM_STARTPOWDOWN :: u32 where "SDEDM_FSM_STARTPOWDOWN = 0xf"

text \<open>\<^verbatim>\<open>bcm28xx.h\<close>, \<^verbatim>\<open>pll.h\<close>, \<^verbatim>\<open>arch/defines.h\<close>.\<close>

definition SDRAM_BASE :: u32 where "SDRAM_BASE = 0"
definition BCM_PERIPH_SIZE :: u32 where "BCM_PERIPH_SIZE = 0x01100000"
definition PAGE_SIZE :: u32 where "PAGE_SIZE = 4096"
definition PAGE_SIZE_SHIFT :: u32 where "PAGE_SIZE_SHIFT = 12"
definition ARCH_DEFAULT_STACK_SIZE :: u32 where "ARCH_DEFAULT_STACK_SIZE = 8 * 1024"

subsection \<open>Messages\<close>

record mbox_property_execute_code_request =
  fun_ptr :: u32
  code_r0 :: u32
  code_r1 :: u32
  code_r2 :: u32
  code_r3 :: u32
  code_r4 :: u32
  code_r5 :: u32

record mbox_property_execute_code_reply =
  reply_r0 :: u32

record mbox_property_temp_request =
  req_temp_id :: u32

record mbox_property_temp_reply =
  reply_temp_id :: u32
  temperature :: u32

text \<open>The two structures with a union; the sum is the union.\<close>

record mbox_property_execute_code =
  code_tag :: u32
  code_buffer_size :: u32
  code_reply_size :: u32
  code_body :: "mbox_property_execute_code_request + mbox_property_execute_code_reply"

record mbox_property_get_temp =
  temp_tag :: u32
  temp_buffer_size :: u32
  temp_reply_size :: u32
  temp_body :: "mbox_property_temp_request + mbox_property_temp_reply"

text \<open>Their words in memory; a union has the length of its longest member.\<close>

definition execute_code_words :: "mbox_property_execute_code \<Rightarrow> u32 list" where
  "execute_code_words m = [code_tag m, code_buffer_size m, code_reply_size m] @
     (case code_body m of
        Inl q \<Rightarrow> [fun_ptr q, code_r0 q, code_r1 q, code_r2 q, code_r3 q, code_r4 q, code_r5 q]
      | Inr r \<Rightarrow> reply_r0 r # replicate 6 0)"

definition get_temp_words :: "mbox_property_get_temp \<Rightarrow> u32 list" where
  "get_temp_words m = [temp_tag m, temp_buffer_size m, temp_reply_size m] @
     (case temp_body m of Inl q \<Rightarrow> [req_temp_id q, 0] | Inr r \<Rightarrow> [reply_temp_id r, temperature r])"

text \<open>
  The arrays the property calls build are these structures, between the two words of the message
  header and the end tag; the buffer sizes are those of the unions.
\<close>

lemma execute_request_layout:
  "execute_request code result = [0, VCORE_TAG_REQUEST] @
     execute_code_words \<lparr>code_tag = 0x30010, code_buffer_size = 28, code_reply_size = 28,
       code_body = Inl \<lparr>fun_ptr = code, code_r0 = result OR 0xc0000000, code_r1 = 0, code_r2 = 0, code_r3 = 0,
         code_r4 = 0, code_r5 = 0\<rparr>\<rparr> @ [VCORE_ENDTAG]"
  by (simp add: execute_request_def execute_code_words_def VCORE_TAG_REQUEST_def VCORE_ENDTAG_def)

lemma temp_request_layout:
  "temp_request = [0, VCORE_TAG_REQUEST] @
     get_temp_words \<lparr>temp_tag = 0x30006, temp_buffer_size = 8, temp_reply_size = 0,
       temp_body = Inl \<lparr>req_temp_id = 0\<rparr>\<rparr> @ [VCORE_ENDTAG]"
  by (simp add: temp_request_def get_temp_words_def VCORE_TAG_REQUEST_def VCORE_ENDTAG_def)

text \<open>Where \<^verbatim>\<open>get_temp\<close> reads, at word 6 of the message, the reply has the temperature.\<close>

lemma temperature_word:
  "([l, c] @ get_temp_words \<lparr>temp_tag = t, temp_buffer_size = b, temp_reply_size = r, temp_body = Inr reply\<rparr>) ! 6 =
     temperature reply"
  by (simp add: get_temp_words_def numeral_eq_Suc)

subsection \<open>The registers of the cores\<close>

text \<open>Core \<open>i\<close>'s registers lie where the driver's index arithmetic puts them.\<close>

lemma core_registers:
  "map (\<lambda>i. INTC_LOCAL_TIMER_INT_CONTROL0 virt + i * 4) [0, 1, 2, 3] = [INTC_LOCAL_TIMER_INT_CONTROL0 virt,
     INTC_LOCAL_TIMER_INT_CONTROL1 virt, INTC_LOCAL_TIMER_INT_CONTROL2 virt, INTC_LOCAL_TIMER_INT_CONTROL3 virt]"
  "map (\<lambda>i. INTC_LOCAL_MAILBOX_INT_CONTROL0 virt + 0x4 * i) [0, 1, 2, 3] = [INTC_LOCAL_MAILBOX_INT_CONTROL0 virt,
     INTC_LOCAL_MAILBOX_INT_CONTROL1 virt, INTC_LOCAL_MAILBOX_INT_CONTROL2 virt, INTC_LOCAL_MAILBOX_INT_CONTROL3 virt]"
  "map (\<lambda>i. INTC_LOCAL_IRQ_PEND0 virt + i * 4) [0, 1, 2, 3] = [INTC_LOCAL_IRQ_PEND0 virt,
     INTC_LOCAL_IRQ_PEND1 virt, INTC_LOCAL_IRQ_PEND2 virt, INTC_LOCAL_IRQ_PEND3 virt]"
  "map (\<lambda>i. INTC_LOCAL_MAILBOX0_SET0 virt + 0x10 * i) [0, 1, 2, 3] = [INTC_LOCAL_MAILBOX0_SET0 virt,
     INTC_LOCAL_MAILBOX0_SET1 virt, INTC_LOCAL_MAILBOX0_SET2 virt, INTC_LOCAL_MAILBOX0_SET3 virt]"
  "map (\<lambda>i. INTC_LOCAL_MAILBOX0_CLR0 virt + 0x10 * i) [0, 1, 2, 3] = [INTC_LOCAL_MAILBOX0_CLR0 virt,
     INTC_LOCAL_MAILBOX0_CLR1 virt, INTC_LOCAL_MAILBOX0_CLR2 virt, INTC_LOCAL_MAILBOX0_CLR3 virt]"
  by (simp_all add: reg_defs INTC_LOCAL_TIMER_INT_CONTROL1_def INTC_LOCAL_TIMER_INT_CONTROL2_def
      INTC_LOCAL_TIMER_INT_CONTROL3_def INTC_LOCAL_MAILBOX_INT_CONTROL1_def INTC_LOCAL_MAILBOX_INT_CONTROL2_def
      INTC_LOCAL_MAILBOX_INT_CONTROL3_def INTC_LOCAL_IRQ_PEND1_def INTC_LOCAL_IRQ_PEND2_def
      INTC_LOCAL_IRQ_PEND3_def INTC_LOCAL_MAILBOX0_SET1_def INTC_LOCAL_MAILBOX0_SET2_def
      INTC_LOCAL_MAILBOX0_SET3_def INTC_LOCAL_MAILBOX0_CLR1_def INTC_LOCAL_MAILBOX0_CLR2_def
      INTC_LOCAL_MAILBOX0_CLR3_def)

text \<open>The mailbox of \<^verbatim>\<open>mailbox.h\<close> and the one the driver uses.\<close>

lemma mailbox_address: "VCORE_MAILBOX_PHYSICAL_ADDRESS = mailbox_reg 0"
  by (simp add: VCORE_MAILBOX_PHYSICAL_ADDRESS_def reg_defs)

end
