(* ===== verification/Spec2Isabelle.thy ===== *)
theory Spec2Isabelle
  imports Otp Mailbox Gpio Vc4_Timer Pll Power_Domain Arm_Intc Uart Uart_Receive Miniuart Hvs Pixelvalve Dance
    Stage1 Start4 I2c Platform Arm_Bridge Dpi Vec Stage2 Sdram Sdhost
    Vpu_Traps Vpu_Preempt Vpu_Start Boot Sd_Fields Mbox_Property
    Header_Names
begin

text \<open>
  A verification library for the boot code of the Raspberry Pi's VideoCore processor
  (\<^verbatim>\<open>src/bootcode\<close>): drivers and start-up code on top of the LK kernel, which is not part of the
  repository.

  \<^bold>\<open>The program.\<close>  The first stage runs from the SoC's own memory.  It switches the processor to
  PLL C (\<^verbatim>\<open>platform.c\<close>, \<^verbatim>\<open>pll/\<close>), takes over interrupts and the timer (\<^verbatim>\<open>arch/vpu\<close>,
  \<^verbatim>\<open>dev/timer/vc4\<close>), sets up the external memory (\<^verbatim>\<open>rpi-ddr2\<close>), receives or loads the next stage
  (\<^verbatim>\<open>app/vc4-stage1\<close>) and jumps to it.  Later stages drive the displays (\<^verbatim>\<open>hvs\<close>, \<^verbatim>\<open>pixelvalve\<close>,
  \<^verbatim>\<open>dpi\<close>, \<^verbatim>\<open>vec\<close>, \<^verbatim>\<open>hvs-dance\<close>), the pins, fuses, buses and serial lines, and release the ARM cores
  (\<^verbatim>\<open>arm\<close>, \<^verbatim>\<open>power\<close>).  The same drivers are compiled for the ARM, with \<^verbatim>\<open>intc.c\<close> and \<^verbatim>\<open>mailbox.c\<close>.
  The parts interact by calls, by interrupts (a driver registers a handler for a vector, the
  dispatcher calls it with its argument), and by the hardware's registers.

  \<^bold>\<open>The machine.\<close>  \<open>Machine\<close> holds what all theories share.  The hardware is a function \<open>dev\<close> from the
  events that happened so far to the answer of the next read; a theorem for every \<open>dev\<close> holds for
  every hardware.  A state is a record with the events (\<open>bus\<close>), a status and the processor's status
  register; a component extends it by its C globals.  An operation is a value of the library's state
  monad.  A panic and a loop without end are statuses (\<open>Panicked\<close>, \<open>Hung\<close>), a machine that has
  stopped does nothing more.  Loops are \<open>partial_function (option)\<close>, without fuel: a loop that does
  not end has no value, and \<open>loop\<close> then leaves the machine \<open>Hung\<close>; theorems that an operation
  returns say so.  Words have the width of the C types and wrap.  A store or read outside a C array,
  whose effect C leaves undefined, stops the model with the name of the array.

  \<^bold>\<open>Theories and sources\<close> (under \<^verbatim>\<open>src/bootcode\<close>, \<^verbatim>\<open>P\<close> for \<^verbatim>\<open>platform/bcm28xx\<close>).  Definitions have the
  names of the functions they model; a part of a long function has a name of its own.

    \<^item> \<open>Prelude\<close>, \<open>Machine\<close>: words, theorem collections, primitives, loops and the proof calculi;
    \<^item> \<open>Regs\<close>, \<open>Pll_Regs\<close>: \<^verbatim>\<open>P/include/platform/bcm28xx.h\<close>, \<^verbatim>\<open>pll.h\<close>, \<^verbatim>\<open>power.h\<close>; \<open>Header_Names\<close>: the names of
      these and other headers that no operation uses, and the message structures of \<^verbatim>\<open>mailbox.h\<close>;
    \<^item> \<open>Udelay\<close>: \<^verbatim>\<open>P/udelay.c\<close>, \<^verbatim>\<open>P/print_timestamp.c\<close>; \<open>Vc4_Timer\<close>: \<^verbatim>\<open>dev/timer/vc4/timer.c\<close>;
    \<^item> \<open>Vpu_Arch\<close>, \<open>Vpu_Intc\<close>: \<^verbatim>\<open>arch/vpu/arch.c\<close>, \<^verbatim>\<open>thread.c\<close>, \<^verbatim>\<open>intc.c\<close> and their headers;
    \<^item> \<open>Vpu_Threads\<close>, \<open>Vpu_Traps\<close>, \<open>Vpu_Start\<close>: the assembly \<^verbatim>\<open>thread_asm.S\<close>, \<^verbatim>\<open>interrupt.S\<close>, \<^verbatim>\<open>start.S\<close> of
      \<^verbatim>\<open>arch/vpu\<close>, on a machine with a register file, with the rest of \<^verbatim>\<open>thread.c\<close> and \<^verbatim>\<open>arch.c\<close>;
    \<^item> \<open>Arm_Intc\<close>: \<^verbatim>\<open>P/intc.c\<close>; \<open>Gpio\<close>: \<^verbatim>\<open>P/gpio.c\<close>; \<open>Otp\<close>: \<^verbatim>\<open>P/otp/otp.c\<close>; \<open>Mailbox\<close>: \<^verbatim>\<open>P/mailbox.c\<close>;
    \<^item> \<open>Pll\<close>: \<^verbatim>\<open>P/pll/pll_control.c\<close>, \<^verbatim>\<open>pll_read.c\<close>; \<open>Power_Domain\<close>: \<^verbatim>\<open>P/power/power.c\<close>; \<open>I2c\<close>: \<^verbatim>\<open>P/i2c.c\<close>;
    \<^item> \<open>Uart\<close>, \<open>Miniuart\<close>: \<^verbatim>\<open>P/uart.c\<close>, \<^verbatim>\<open>P/miniuart.c\<close>, the console of \<^verbatim>\<open>P/platform.c\<close>; \<open>Uart_Receive\<close>: the
      driver of \<open>Uart\<close> linked with \<open>Vpu_Intc\<close>, from its set-up to the received bytes;
    \<^item> \<open>Hvs\<close>, \<open>Pixelvalve\<close>, \<open>Dance\<close>, \<open>Dpi\<close>, \<open>Vec\<close>: \<^verbatim>\<open>P/hvs/hvs.c\<close>, \<^verbatim>\<open>pixelvalve/pv.c\<close>,
      \<^verbatim>\<open>hvs-dance/dance.c\<close>, \<^verbatim>\<open>dpi/dpi.c\<close>, \<^verbatim>\<open>vec/vec.c\<close>;
    \<^item> \<open>Platform\<close>: \<^verbatim>\<open>P/platform.c\<close>, \<^verbatim>\<open>P/genet.c\<close>; \<open>Arm_Bridge\<close>: \<^verbatim>\<open>P/arm/arm.c\<close>; \<open>Start4\<close>: \<^verbatim>\<open>P/start4/start4.c\<close>;
    \<^item> \<open>Sd_Proto\<close>, \<open>Sd_Fields\<close>, \<open>Sdhost\<close>: \<^verbatim>\<open>P/sdhost/sd_proto.hpp\<close>, \<^verbatim>\<open>sdhost_impl.cpp\<close>, \<^verbatim>\<open>block_device.hpp\<close>;
    \<^item> \<open>Sdram\<close>: \<^verbatim>\<open>P/rpi-ddr2/sdram.c\<close>, \<^verbatim>\<open>ddr2.h\<close>, \<^verbatim>\<open>autoram\<close>; \<open>Stage1\<close>, \<open>Stage2\<close>: \<^verbatim>\<open>app/vc4-stage1\<close>, \<^verbatim>\<open>app/vc4-stage2\<close>;
    \<^item> \<open>Mbox_Property\<close>: \<^verbatim>\<open>P/hvs-dance/unused.c\<close>; \<open>Boot\<close>: the first stage put together with \<open>Sdram\<close>,
      \<open>Sdhost\<close> and the chain load, in place of the parameters that stand for them in \<open>Stage1\<close>; its
      \<open>serial_boot\<close> and \<open>card_boot\<close> follow a program from the prompt to the jump, over the serial line
      and from the SD card, \<open>dram_arena_tested\<close> the memory to the allocator.

  \<^bold>\<open>The calculi\<close> of \<open>Machine\<close>, each a predicate on operations with one rule per construct:
  \<open>effects R\<close> (only events in \<open>R\<close>), \<open>inert\<close> (nothing happens on a stopped machine), \<open>emits ws\<close> (exactly
  the writes \<open>ws\<close>), \<open>leaves a P\<close> (the last write to a register), \<open>passes R a c R'\<close> (a busy wait on \<open>a\<close>
  was passed, with only \<open>R\<close> before and \<open>R'\<close> after it), \<open>yields P\<close> (the result), \<open>keeps P\<close> (an invariant of
  the globals), \<open>ends d\<close> (returns on a given device).  \<open>loop_total\<close> and \<open>loop_last\<close> are the rules for
  total and partial correctness of loops.  \<open>returns Q\<close> is a postcondition of the result and the
  globals; \<open>Sdram\<close> adds \<open>verdict\<close> (runs on, or panics as it must).

  \<^bold>\<open>Threads and interrupts.\<close>  Memory is the hardware's answer to reads; \<open>ram\<close> says that it is storage.
  \<open>scheduled\<close> is a step relation in which the running thread computes on its own stack or switches to
  another; it keeps \<open>all_suspended\<close>: every other thread is suspended with the context recorded when it
  was switched away, which the switch gives back to it (\<open>threads_resume\<close>), a new thread included
  (\<open>new_thread_starts\<close>).  \<open>interrupt_transparent\<close> does the same for the frame of an interrupt, for any
  handler and scheduler that leave the frame alone (\<open>keeps_frame\<close>).  \<open>Vpu_Preempt\<close> puts both
  together: \<open>preempted\<close> is a run of the scheduler that switches away and sometime back, \<open>away\<close> the
  runs of the others in between, and \<open>preemption_transparent\<close> says that the thread does not notice.
  \<open>intc_init\<close> loads \<open>r28\<close> with the top of the shared \<^verbatim>\<open>irq_stack0\<close>.  That the processor makes \<open>sp\<close> an
  alias of \<open>r28\<close> when an interrupt arrives is its own doing and not modelled: \<open>core_sp\<close> is the register
  that \<open>sp\<close> names when the entry code starts, the frame is where it points, in \<^verbatim>\<open>irq_stack0\<close> or on the
  thread's stack, and the theorems ask only that frames in use at the same time do not overlap.

  \<^bold>\<open>The interfaces\<close> are locales: \<open>char_device\<close> (interpreted on both UARTs), \<open>int_controller\<close> (on both
  interrupt controllers; on the ARM's by way of \<open>arm_lock\<close>), \<open>int_dispatcher\<close>, which extends it (a driver
  that installed its handler is called at any later interrupt, and so are two; on both dispatchers), \<open>lk_irqsave\<close> (on the VPU's spin lock),
  \<open>pin_mux\<close> (on the GPIO driver).  A client's lemmas are proved once from the laws.

  \<^bold>\<open>Hypotheses on the hardware\<close> are stated where they are used: \<open>plain_at\<close> (a register is storage),
  \<open>ticking\<close> (the microsecond counter advances by at most a step between reads), \<open>clocked\<close> (a time base
  that does so), \<open>serial_line\<close> (characters arrive in order, split by time-outs as the line likes),
  \<open>holds\<close> (memory content), \<open>tx_drains\<close> (a busy bit clears sometime), \<open>draws\<close> (a pixel is stored).
  Every theorem with a hypothesis has a witness on a concrete device: \<open>memory\<close>, \<open>clock_dev\<close> or one of
  its refinements.

  \<^bold>\<open>Code outside the repository\<close> is a parameter: LK's console stream, buffers, threads, file systems,
  ELF loader and virtual memory, its graphics and image libraries, the device tree library.

  \<^bold>\<open>Not modelled.\<close>  The ARM's payload (assembly for another processor), the memory map handed to LK and
  the logo image (data); the accuracy of floating point, a parameter of the SDRAM usage report; the
  line feeds and tabs inside the printed formats; code the preprocessor removes from every build; the
  applications with empty bodies; build rules and linker scripts.
\<close>

end
